(* ===== verification/Prelude.thy ===== *)
theory Prelude
  imports Main "HOL-Library.AList" "HOL-Library.Multiset" "HOL-Library.Sublist"
begin

text \<open>
  Shared vocabulary of the development: the types that stand for the Python types every
  component uses, the string and list operations of the standard library that the source
  calls, and the generic lemmas about them.

  A Python \<^verbatim>\<open>str\<close> is a HOL string, a list of characters, that is of code points 0 to
  255; text outside this range appears in the source only in messages, which the models
  represent by constructors of error types.  A \<^verbatim>\<open>datetime\<close> is an integer instant, a
  \<^verbatim>\<open>UUID\<close> a natural number.  Fresh identifiers and the current time are arguments of the
  operations.  A \<^verbatim>\<open>dict\<close> whose insertion order matters is an association list updated with
  \<^const>\<open>AList.update\<close>, which keeps the position of an existing key, as Python does.
\<close>

named_theorems step_simps \<open>unfolding rules for single steps of the state machines\<close>
named_theorems inv_intros \<open>preservation rules of the invariants\<close>

type_synonym uuid = nat
type_synonym datetime = int

section \<open>Strings\<close>

text \<open>The characters \<^verbatim>\<open>str.isspace\<close> accepts, up to code point 255.\<close>

definition py_space :: "char \<Rightarrow> bool" where
  "py_space c \<longleftrightarrow> (let n = (of_char c :: nat) in (9 \<le> n \<and> n \<le> 13) \<or> (28 \<le> n \<and> n \<le> 32) \<or> n = 133 \<or> n = 160)"

definition lstrip_by :: "('a \<Rightarrow> bool) \<Rightarrow> 'a list \<Rightarrow> 'a list" where
  "lstrip_by p xs = dropWhile p xs"

definition rstrip_by :: "('a \<Rightarrow> bool) \<Rightarrow> 'a list \<Rightarrow> 'a list" where
  "rstrip_by p xs = rev (dropWhile p (rev xs))"

definition strip_by :: "('a \<Rightarrow> bool) \<Rightarrow> 'a list \<Rightarrow> 'a list" where
  "strip_by p xs = rstrip_by p (lstrip_by p xs)"

definition str_strip :: "string \<Rightarrow> string" where
  "str_strip s = strip_by py_space s"

lemma dropWhile_all_iff: "(\<forall>x\<in>set (dropWhile p xs). p x) \<longleftrightarrow> (\<forall>x\<in>set xs. p x)"
  by (induction xs) auto

lemma strip_by_Nil_iff: "strip_by p xs = [] \<longleftrightarrow> (\<forall>x\<in>set xs. p x)"
  by (simp add: strip_by_def rstrip_by_def lstrip_by_def dropWhile_all_iff)

lemma str_strip_Nil_iff: "str_strip s = [] \<longleftrightarrow> (\<forall>c\<in>set s. py_space c)"
  by (simp add: str_strip_def strip_by_Nil_iff)

lemma set_dropWhile_subset: "set (dropWhile p xs) \<subseteq> set xs"
  by (auto dest: set_dropWhileD)

lemma set_strip_by: "set (strip_by p xs) \<subseteq> set xs"
proof
  fix x
  assume "x \<in> set (strip_by p xs)"
  then have "x \<in> set (rev (dropWhile p xs))"
    unfolding strip_by_def rstrip_by_def lstrip_by_def by (metis set_dropWhileD set_rev)
  then show "x \<in> set xs" by (metis set_dropWhileD set_rev)
qed

lemma length_strip_by: "length (strip_by p xs) \<le> length xs"
  unfolding strip_by_def rstrip_by_def lstrip_by_def
  using length_dropWhile_le[of p xs] length_dropWhile_le[of p "rev (dropWhile p xs)"] by simp

lemma dropWhile_id: "(xs = [] \<or> \<not> p (hd xs)) \<Longrightarrow> dropWhile p xs = xs"
  by (cases xs) auto

lemma hd_rstrip_by: "rstrip_by p xs \<noteq> [] \<Longrightarrow> hd (rstrip_by p xs) = hd xs"
  by (induction xs) (auto simp: rstrip_by_def dropWhile_append split: if_splits)

lemma strip_by_idem [simp]: "strip_by p (strip_by p xs) = strip_by p xs"
proof -
  let ?l = "dropWhile p xs"
  let ?r = "rstrip_by p ?l"
  have "?r = [] \<or> \<not> p (hd ?r)"
  proof (cases "?r = []")
    case False
    then have "hd ?r = hd ?l" by (rule hd_rstrip_by)
    moreover from False have "?l \<noteq> []" by (metis rstrip_by_def dropWhile.simps(1) rev.simps(1))
    ultimately show ?thesis using hd_dropWhile[of p xs] by simp
  qed simp
  then have l: "dropWhile p ?r = ?r" by (rule dropWhile_id)
  have "rstrip_by p ?r = ?r" by (simp add: rstrip_by_def)
  with l show ?thesis by (simp add: strip_by_def lstrip_by_def)
qed

lemma str_strip_idem [simp]: "str_strip (str_strip s) = str_strip s"
  by (simp add: str_strip_def)

section \<open>Options and lists\<close>

text \<open>Python's \<^verbatim>\<open>x or default\<close> on an optional integer: zero is falsy as well.\<close>

definition or_else_int :: "int option \<Rightarrow> int \<Rightarrow> int" where
  "or_else_int x d = (case x of None \<Rightarrow> d | Some n \<Rightarrow> if n = 0 then d else n)"

text \<open>Keep the first occurrence of every element, as a loop over a list with a
  \<^verbatim>\<open>seen\<close> set does.\<close>

fun dedup_from :: "'a set \<Rightarrow> 'a list \<Rightarrow> 'a list" where
  "dedup_from seen [] = []"
| "dedup_from seen (x # xs) = (if x \<in> seen then dedup_from seen xs else x # dedup_from (insert x seen) xs)"

definition dedup :: "'a list \<Rightarrow> 'a list" where
  "dedup xs = dedup_from {} xs"

lemma set_dedup_from: "set (dedup_from seen xs) = set xs - seen"
  by (induction seen xs rule: dedup_from.induct) auto

lemma distinct_dedup_from: "distinct (dedup_from seen xs)"
  by (induction seen xs rule: dedup_from.induct) (auto simp: set_dedup_from)

lemma set_dedup [simp]: "set (dedup xs) = set xs"
  by (simp add: dedup_def set_dedup_from)

lemma distinct_dedup [simp]: "distinct (dedup xs)"
  by (simp add: dedup_def distinct_dedup_from)

lemma subseq_dedup_from: "subseq (dedup_from seen xs) xs"
  by (induction seen xs rule: dedup_from.induct) (auto)

lemma subseq_dedup: "subseq (dedup xs) xs"
  by (simp add: dedup_def subseq_dedup_from)

lemma set_subseq: "subseq xs ys \<Longrightarrow> set xs \<subseteq> set ys"
  by (induction rule: list_emb.induct) auto

lemma distinct_subseq: "subseq xs ys \<Longrightarrow> distinct ys \<Longrightarrow> distinct xs"
proof (induction rule: list_emb.induct)
  case (list_emb_Cons2 x y xs ys)
  then show ?case using set_subseq[of xs ys] by auto
qed auto

lemma find_Some_iff_filter: "List.find p xs = (case filter p xs of [] \<Rightarrow> None | x # _ \<Rightarrow> Some x)"
  by (induction xs) auto

lemma find_SomeD: "List.find p xs = Some x \<Longrightarrow> x \<in> set xs \<and> p x"
  by (induction xs) (auto split: if_splits)

lemma find_None_iff': "List.find p xs = None \<longleftrightarrow> (\<forall>x\<in>set xs. \<not> p x)"
  by (induction xs) auto

lemma sum_list_pos_le: "x \<in> set xs \<Longrightarrow> f x \<le> sum_list (map (f :: 'a \<Rightarrow> nat) xs)"
  by (induction xs) auto

section \<open>Updating the rows of a table in place\<close>

text \<open>The database tables are lists of rows in insertion order.  An UPDATE changes the rows
  that satisfy its WHERE clause and keeps their place.\<close>

definition update_rows :: "('a \<Rightarrow> bool) \<Rightarrow> ('a \<Rightarrow> 'a) \<Rightarrow> 'a list \<Rightarrow> 'a list" where
  "update_rows p f rows = map (\<lambda>r. if p r then f r else r) rows"

lemma length_update_rows [simp]: "length (update_rows p f rows) = length rows"
  by (simp add: update_rows_def)

lemma update_rows_Nil [simp]: "update_rows p f [] = []"
  by (simp add: update_rows_def)

lemma update_rows_Cons [simp]:
  "update_rows p f (r # rows) = (if p r then f r else r) # update_rows p f rows"
  by (simp add: update_rows_def)

lemma map_update_rows_same:
  assumes "\<And>r. p r \<Longrightarrow> g (f r) = g r"
  shows "map g (update_rows p f rows) = map g rows"
  using assms by (simp add: update_rows_def)

lemma in_update_rowsE:
  assumes "r \<in> set (update_rows p f rows)"
  obtains r0 where "r0 \<in> set rows" "r = (if p r0 then f r0 else r0)"
  using assms by (auto simp: update_rows_def)

lemma in_update_rowsI: "r \<in> set rows \<Longrightarrow> (if p r then f r else r) \<in> set (update_rows p f rows)"
  by (auto simp: update_rows_def)

lemma update_rows_id: "(\<And>r. r \<in> set rows \<Longrightarrow> \<not> p r) \<Longrightarrow> update_rows p f rows = rows"
  by (induction rows) auto

end
