(* ===== verification/Policy.thy ===== *)
theory Policy
  imports Prelude
begin

text \<open>
  The action and scope data of \<^verbatim>\<open>src/schema/action.py\<close> and \<^verbatim>\<open>src/schema/incident.py\<close>, and the
  policy engine \<^verbatim>\<open>src/core/policy_engine.py\<close>: every fact of an action is compared with the
  authorization scope, each failing comparison leaves a reason code, and the decision is a
  denial as soon as one reason was recorded.
\<close>

section \<open>Risk levels\<close>

datatype risk_level = L0 | L1 | L2 | L3

text \<open>The table \<^verbatim>\<open>_RISK_ORDER\<close>; the model's risk levels are ordered by it.\<close>

fun risk_order :: "risk_level \<Rightarrow> nat" where
  "risk_order L0 = 0"
| "risk_order L1 = 1"
| "risk_order L2 = 2"
| "risk_order L3 = 3"

instantiation risk_level :: linorder
begin

definition less_eq_risk_level :: "risk_level \<Rightarrow> risk_level \<Rightarrow> bool" where
  "less_eq_risk_level a b \<longleftrightarrow> risk_order a \<le> risk_order b"

definition less_risk_level :: "risk_level \<Rightarrow> risk_level \<Rightarrow> bool" where
  "less_risk_level a b \<longleftrightarrow> risk_order a < risk_order b"

instance
proof
  fix x y z :: risk_level
  show "x < y \<longleftrightarrow> x \<le> y \<and> \<not> y \<le> x"
    by (auto simp: less_eq_risk_level_def less_risk_level_def)
  show "x \<le> x" by (simp add: less_eq_risk_level_def)
  show "x \<le> y \<Longrightarrow> y \<le> z \<Longrightarrow> x \<le> z" by (simp add: less_eq_risk_level_def)
  show "x \<le> y \<Longrightarrow> y \<le> x \<Longrightarrow> x = y"
    by (cases x; cases y) (simp_all add: less_eq_risk_level_def)
  show "x \<le> y \<or> y \<le> x" by (auto simp: less_eq_risk_level_def)
qed

end

lemmas risk_level_order = less_eq_risk_level_def less_risk_level_def

fun risk_value :: "risk_level \<Rightarrow> string" where
  "risk_value L0 = ''L0''"
| "risk_value L1 = ''L1''"
| "risk_value L2 = ''L2''"
| "risk_value L3 = ''L3''"

lemma risk_value_inject: "risk_value a = risk_value b \<Longrightarrow> a = b"
  by (cases a; cases b) simp_all

section \<open>Proposed actions and scopes\<close>

datatype policy_effect = ALLOW | REQUIRE_APPROVAL | DENY

datatype target_environment = DEVELOPMENT | TEST | STAGING | PRODUCTION

text \<open>The free-form \<^verbatim>\<open>arguments\<close> are opaque to the policy: a string-keyed list.\<close>

record proposed_action =
  pa_id :: uuid
  pa_project_id :: int
  pa_incident_id :: uuid
  pa_target_id :: uuid
  pa_action_type :: string
  pa_arguments :: "(string \<times> string) list"
  pa_risk_level :: risk_level
  pa_reason :: string
  pa_is_write :: bool
  pa_is_load_test :: bool
  pa_prechecks :: "string list"
  pa_verification_steps :: "string list"
  pa_rollback_steps :: "string list"
  pa_requested_rps :: "int option"
  pa_requested_concurrency :: "int option"
  pa_requested_duration_seconds :: "int option"

record authorization_scope =
  as_allowed_target_ids :: "uuid list"
  as_allowed_action_types :: "string list"
  as_maximum_risk_level :: risk_level
  as_valid_from :: "datetime option"
  as_valid_until :: "datetime option"
  as_max_load_test_rps :: "int option"
  as_max_load_test_concurrency :: "int option"
  as_max_load_test_duration_seconds :: "int option"

datatype constraint_value = CInt int | CStr string | CNone

record policy_decision =
  pd_effect :: policy_effect
  pd_risk_level :: risk_level
  pd_reason_codes :: "string list"
  pd_constraints :: "(string \<times> constraint_value) list"
  pd_approval_ttl_seconds :: "int option"
  pd_decided_at :: datetime

text \<open>The pattern of an action type: at least two runs of lower-case letters and digits,
  joined by single dots, underscores or hyphens.\<close>

definition alnum_lower :: "char \<Rightarrow> bool" where
  "alnum_lower c \<longleftrightarrow> c \<in> set ''abcdefghijklmnopqrstuvwxyz0123456789''"

definition type_separator :: "char \<Rightarrow> bool" where
  "type_separator c \<longleftrightarrow> c \<in> set ''._-''"

text \<open>\<^verbatim>\<open>in_run\<close>: a character of the current run was read; \<^verbatim>\<open>sep\<close>: a separator was read.\<close>

fun action_type_scan :: "bool \<Rightarrow> bool \<Rightarrow> string \<Rightarrow> bool" where
  "action_type_scan in_run sep [] \<longleftrightarrow> in_run \<and> sep"
| "action_type_scan in_run sep (c # cs) =
    (if alnum_lower c then action_type_scan True sep cs
     else type_separator c \<and> in_run \<and> action_type_scan False True cs)"

definition positive_or_none :: "int option \<Rightarrow> bool" where
  "positive_or_none x = (case x of None \<Rightarrow> True | Some n \<Rightarrow> 0 < n)"

definition valid_action :: "proposed_action \<Rightarrow> bool" where
  "valid_action a \<longleftrightarrow>
     0 < pa_project_id a \<and>
     3 \<le> length (pa_action_type a) \<and> length (pa_action_type a) \<le> 128 \<and>
     action_type_scan False False (pa_action_type a) \<and>
     1 \<le> length (pa_reason a) \<and> length (pa_reason a) \<le> 2000 \<and>
     length (pa_prechecks a) \<le> 32 \<and> length (pa_verification_steps a) \<le> 32 \<and>
     length (pa_rollback_steps a) \<le> 32 \<and>
     positive_or_none (pa_requested_rps a) \<and>
     positive_or_none (pa_requested_concurrency a) \<and>
     positive_or_none (pa_requested_duration_seconds a)"

text \<open>Construction: \<^verbatim>\<open>normalize_text\<close> strips two fields, then the field constraints are
  checked; \<^const>\<open>None\<close> is the validation error.\<close>

definition make_action :: "proposed_action \<Rightarrow> proposed_action option" where
  "make_action raw =
    (let a = raw\<lparr>pa_action_type := str_strip (pa_action_type raw), pa_reason := str_strip (pa_reason raw)\<rparr>
     in if valid_action a then Some a else None)"

definition validate_window :: "authorization_scope \<Rightarrow> bool" where
  "validate_window s =
    (case (as_valid_from s, as_valid_until s) of
       (Some f, Some u) \<Rightarrow> \<not> u \<le> f
     | _ \<Rightarrow> True)"

definition valid_scope :: "authorization_scope \<Rightarrow> bool" where
  "valid_scope s \<longleftrightarrow>
     positive_or_none (as_max_load_test_rps s) \<and>
     positive_or_none (as_max_load_test_concurrency s) \<and>
     positive_or_none (as_max_load_test_duration_seconds s) \<and>
     validate_window s"

section \<open>The policy engine\<close>

fun load_check :: "string \<times> int option \<times> int option \<Rightarrow> bool" where
  "load_check (reason, Some requested, Some maximum) = (maximum < requested)"
| "load_check (reason, requested, maximum) = True"

definition load_test_violations :: "proposed_action \<Rightarrow> authorization_scope \<Rightarrow> string list" where
  "load_test_violations action scope =
    (if \<not> pa_is_load_test action then []
     else map fst (filter load_check
       [(''load_test_rps_exceeded'', pa_requested_rps action, as_max_load_test_rps scope),
        (''load_test_concurrency_exceeded'', pa_requested_concurrency action,
           as_max_load_test_concurrency scope),
        (''load_test_duration_exceeded'', pa_requested_duration_seconds action,
           as_max_load_test_duration_seconds scope)]))"

definition opt_int_constraint :: "int option \<Rightarrow> constraint_value" where
  "opt_int_constraint x = (case x of None \<Rightarrow> CNone | Some n \<Rightarrow> CInt n)"

definition scope_constraints :: "authorization_scope \<Rightarrow> (string \<times> constraint_value) list" where
  "scope_constraints scope =
    [(''maximum_risk_level'', CStr (risk_value (as_maximum_risk_level scope))),
     (''max_load_test_rps'', opt_int_constraint (as_max_load_test_rps scope)),
     (''max_load_test_concurrency'', opt_int_constraint (as_max_load_test_concurrency scope)),
     (''max_load_test_duration_seconds'', opt_int_constraint (as_max_load_test_duration_seconds scope))]"

definition violations :: "proposed_action \<Rightarrow> authorization_scope \<Rightarrow> datetime \<Rightarrow> string list" where
  "violations action scope evaluated_at =
     (if pa_target_id action \<notin> set (as_allowed_target_ids scope) then [''target_out_of_scope''] else []) @
     (if pa_action_type action \<notin> set (as_allowed_action_types scope) then [''action_type_out_of_scope''] else []) @
     (case as_valid_from scope of Some f \<Rightarrow> if evaluated_at < f then [''scope_not_yet_valid''] else [] | None \<Rightarrow> []) @
     (case as_valid_until scope of Some u \<Rightarrow> if u \<le> evaluated_at then [''scope_expired''] else [] | None \<Rightarrow> []) @
     (if risk_order (as_maximum_risk_level scope) < risk_order (pa_risk_level action)
      then [''risk_exceeds_scope''] else []) @
     (if pa_is_write action \<and> pa_rollback_steps action = [] then [''write_missing_rollback''] else []) @
     load_test_violations action scope"

definition requires_approval :: "proposed_action \<Rightarrow> target_environment \<Rightarrow> bool" where
  "requires_approval action environment \<longleftrightarrow>
     risk_order L2 \<le> risk_order (pa_risk_level action) \<or>
     (environment = PRODUCTION \<and> pa_is_write action)"

definition evaluate_action ::
  "proposed_action \<Rightarrow> authorization_scope \<Rightarrow> target_environment \<Rightarrow> datetime \<Rightarrow> policy_decision" where
  "evaluate_action action scope environment evaluated_at =
    (let reasons = violations action scope evaluated_at; constraints = scope_constraints scope
     in if reasons \<noteq> []
        then \<lparr>pd_effect = DENY, pd_risk_level = pa_risk_level action, pd_reason_codes = reasons,
              pd_constraints = constraints, pd_approval_ttl_seconds = None, pd_decided_at = evaluated_at\<rparr>
        else let ra = requires_approval action environment
        in \<lparr>pd_effect = (if ra then REQUIRE_APPROVAL else ALLOW), pd_risk_level = pa_risk_level action,
            pd_reason_codes = (if ra then [''approval_required''] else [''scope_and_policy_satisfied'']),
            pd_constraints = constraints,
            pd_approval_ttl_seconds = (if ra then Some 300 else None), pd_decided_at = evaluated_at\<rparr>)"

section \<open>What the policy promises\<close>

text \<open>The scope admits the action: the specification the reasons are compared with.\<close>

definition within :: "int option \<Rightarrow> int option \<Rightarrow> bool" where
  "within requested maximum \<longleftrightarrow> (\<exists>r m. requested = Some r \<and> maximum = Some m \<and> r \<le> m)"

definition admits :: "authorization_scope \<Rightarrow> proposed_action \<Rightarrow> datetime \<Rightarrow> bool" where
  "admits scope action t \<longleftrightarrow>
     pa_target_id action \<in> set (as_allowed_target_ids scope) \<and>
     pa_action_type action \<in> set (as_allowed_action_types scope) \<and>
     (\<forall>f. as_valid_from scope = Some f \<longrightarrow> f \<le> t) \<and>
     (\<forall>u. as_valid_until scope = Some u \<longrightarrow> t < u) \<and>
     pa_risk_level action \<le> as_maximum_risk_level scope \<and>
     (pa_is_write action \<longrightarrow> pa_rollback_steps action \<noteq> []) \<and>
     (pa_is_load_test action \<longrightarrow>
        within (pa_requested_rps action) (as_max_load_test_rps scope) \<and>
        within (pa_requested_concurrency action) (as_max_load_test_concurrency scope) \<and>
        within (pa_requested_duration_seconds action) (as_max_load_test_duration_seconds scope))"

lemma load_check_iff: "load_check (s, r, m) \<longleftrightarrow> \<not> within r m"
  by (cases r; cases m) (auto simp: within_def)

lemma load_test_violations_Nil:
  "load_test_violations action scope = [] \<longleftrightarrow>
     (pa_is_load_test action \<longrightarrow>
        within (pa_requested_rps action) (as_max_load_test_rps scope) \<and>
        within (pa_requested_concurrency action) (as_max_load_test_concurrency scope) \<and>
        within (pa_requested_duration_seconds action) (as_max_load_test_duration_seconds scope))"
  by (simp add: load_test_violations_def load_check_iff)

lemma violations_Nil: "violations action scope t = [] \<longleftrightarrow> admits scope action t"
  by (auto simp: violations_def admits_def load_test_violations_Nil risk_level_order
      split: option.splits)

lemma evaluate_effect:
  "pd_effect (evaluate_action action scope env t) =
     (if \<not> admits scope action t then DENY
      else if requires_approval action env then REQUIRE_APPROVAL else ALLOW)"
  by (simp add: evaluate_action_def Let_def violations_Nil)

lemma evaluate_reasons:
  "pd_reason_codes (evaluate_action action scope env t) =
     (if \<not> admits scope action t then violations action scope t
      else if requires_approval action env then [''approval_required'']
      else [''scope_and_policy_satisfied''])"
  by (simp add: evaluate_action_def Let_def violations_Nil)

lemma requires_approval_iff:
  "requires_approval action env \<longleftrightarrow> L2 \<le> pa_risk_level action \<or> (env = PRODUCTION \<and> pa_is_write action)"
  by (simp add: requires_approval_def risk_level_order)

lemma evaluate_ttl:
  "pd_approval_ttl_seconds (evaluate_action action scope env t) =
     (if pd_effect (evaluate_action action scope env t) = REQUIRE_APPROVAL then Some 300 else None)"
  by (simp add: evaluate_action_def Let_def)

lemma load_test_violations_subseq:
  "subseq (load_test_violations action scope)
     [''load_test_rps_exceeded'', ''load_test_concurrency_exceeded'', ''load_test_duration_exceeded'']"
  by (simp add: load_test_violations_def)

lemma violations_subseq:
  "subseq (violations action scope t)
     ([''target_out_of_scope''] @ [''action_type_out_of_scope''] @ [''scope_not_yet_valid''] @
      [''scope_expired''] @ [''risk_exceeds_scope''] @ [''write_missing_rollback''] @
      [''load_test_rps_exceeded'', ''load_test_concurrency_exceeded'', ''load_test_duration_exceeded''])"
  unfolding violations_def
  by (intro list_emb_append_mono load_test_violations_subseq) (simp_all split: option.splits)

lemma distinct_violations: "distinct (violations action scope t)"
  by (rule distinct_subseq[OF violations_subseq]) simp

text \<open>C1. The policy engine denies an action exactly when some fact of the scope does not
  admit it; an admitted action needs an approval exactly when its risk is L2 or higher or it
  writes to production; a decision carries at least one reason, no reason twice, and a time to
  live exactly when an approval is needed.\<close>

theorem policy_decides_scope:
  "(pd_effect (evaluate_action action scope env t) = DENY \<longleftrightarrow> \<not> admits scope action t) \<and>
   (pd_effect (evaluate_action action scope env t) = REQUIRE_APPROVAL \<longleftrightarrow>
      admits scope action t \<and> (L2 \<le> pa_risk_level action \<or> (env = PRODUCTION \<and> pa_is_write action))) \<and>
   pd_reason_codes (evaluate_action action scope env t) \<noteq> [] \<and>
   distinct (pd_reason_codes (evaluate_action action scope env t)) \<and>
   (pd_approval_ttl_seconds (evaluate_action action scope env t) = Some 300 \<longleftrightarrow>
      pd_effect (evaluate_action action scope env t) = REQUIRE_APPROVAL)"
  by (auto simp: evaluate_effect evaluate_reasons evaluate_ttl requires_approval_iff violations_Nil
      distinct_violations)

end
