(* ===== verification/Incident.thy ===== *)
theory Incident
  imports Policy
begin

text \<open>
  The incident life cycle: the statuses and the record of \<^verbatim>\<open>src/schema/incident.py\<close> and the
  transition table with its guard, \<^verbatim>\<open>require_incident_transition\<close> of
  \<^verbatim>\<open>src/service/incident_service.py\<close>.  A step of an incident is any status change the guard
  lets through; the lemmas are about the runs such steps form.
\<close>

datatype incident_status =
    CREATED | PLANNING | DIAGNOSING | AWAITING_APPROVAL | EXECUTING | VERIFYING
  | COMPLETED | FAILED | CANCELLED | ROLLBACK_REQUIRED | ROLLING_BACK | ROLLED_BACK

datatype transition_error = IllegalTransition incident_status incident_status | ConclusionRequired

record incident =
  in_id :: uuid
  in_project_id :: int
  in_objective :: string
  in_scope :: authorization_scope
  in_status :: incident_status
  in_final_conclusion :: string
  in_schema_version :: int
  in_created_at :: datetime
  in_updated_at :: datetime

definition valid_incident :: "incident \<Rightarrow> bool" where
  "valid_incident i \<longleftrightarrow>
     0 < in_project_id i \<and> 1 \<le> length (in_objective i) \<and> length (in_objective i) \<le> 4000 \<and>
     valid_scope (in_scope i) \<and> length (in_final_conclusion i) \<le> 8000 \<and> 1 \<le> in_schema_version i"

fun allowed_transitions :: "incident_status \<Rightarrow> incident_status list" where
  "allowed_transitions CREATED = [PLANNING, CANCELLED]"
| "allowed_transitions PLANNING = [DIAGNOSING, CANCELLED, FAILED]"
| "allowed_transitions DIAGNOSING = [AWAITING_APPROVAL, VERIFYING, CANCELLED, FAILED]"
| "allowed_transitions AWAITING_APPROVAL = [EXECUTING, CANCELLED, FAILED]"
| "allowed_transitions EXECUTING = [VERIFYING, FAILED, CANCELLED, ROLLBACK_REQUIRED]"
| "allowed_transitions VERIFYING = [COMPLETED, ROLLBACK_REQUIRED, FAILED]"
| "allowed_transitions ROLLBACK_REQUIRED = [ROLLING_BACK]"
| "allowed_transitions ROLLING_BACK = [ROLLED_BACK, FAILED]"
| "allowed_transitions COMPLETED = []"
| "allowed_transitions FAILED = []"
| "allowed_transitions CANCELLED = []"
| "allowed_transitions ROLLED_BACK = []"

definition require_incident_transition ::
  "incident_status \<Rightarrow> incident_status \<Rightarrow> string \<Rightarrow> transition_error + unit" where
  "require_incident_transition current target final_conclusion =
    (if target \<notin> set (allowed_transitions current) then Inl (IllegalTransition current target)
     else if target = COMPLETED \<and> str_strip final_conclusion = [] then Inl ConclusionRequired
     else Inr ())"

text \<open>A run is the list of guarded moves, each a target status with the conclusion passed to
  the guard; \<^const>\<open>None\<close> when the guard raises on the way.\<close>

fun run_transitions :: "incident_status \<Rightarrow> (incident_status \<times> string) list \<Rightarrow> incident_status option" where
  "run_transitions s [] = Some s"
| "run_transitions s ((t, c) # ms) =
    (case require_incident_transition s t c of Inl _ \<Rightarrow> None | Inr _ \<Rightarrow> run_transitions t ms)"

inductive incident_step :: "incident_status \<Rightarrow> incident_status \<times> string \<Rightarrow> incident_status \<Rightarrow> bool" where
  move: "require_incident_transition s t c = Inr () \<Longrightarrow> incident_step s (t, c) t"

inductive_cases incident_stepE [elim!]: "incident_step s m t"
inductive_simps incident_step_iff [step_simps]: "incident_step s (t, c) u"

definition terminal_status :: "incident_status \<Rightarrow> bool" where
  "terminal_status s \<longleftrightarrow> s \<in> {COMPLETED, FAILED, CANCELLED, ROLLED_BACK}"

lemma require_Inr_iff [step_simps]:
  "require_incident_transition s t c = Inr u \<longleftrightarrow>
     t \<in> set (allowed_transitions s) \<and> (t = COMPLETED \<longrightarrow> str_strip c \<noteq> [])"
  by (simp add: require_incident_transition_def)

lemma terminal_iff_no_transition: "terminal_status s \<longleftrightarrow> allowed_transitions s = []"
  by (cases s) (simp_all add: terminal_status_def)

text \<open>The measure that every transition lowers: the length of the longest run from a status.\<close>

fun remaining :: "incident_status \<Rightarrow> nat" where
  "remaining CREATED = 8"
| "remaining PLANNING = 7"
| "remaining DIAGNOSING = 6"
| "remaining AWAITING_APPROVAL = 5"
| "remaining EXECUTING = 4"
| "remaining VERIFYING = 3"
| "remaining ROLLBACK_REQUIRED = 2"
| "remaining ROLLING_BACK = 1"
| "remaining _ = 0"

lemma transition_lowers: "t \<in> set (allowed_transitions s) \<Longrightarrow> remaining t < remaining s"
  by (cases s) auto

lemma run_Cons_Some [step_simps]:
  "run_transitions s ((t, c) # ms) = Some u \<longleftrightarrow>
     require_incident_transition s t c = Inr () \<and> run_transitions t ms = Some u"
  by (auto split: sum.splits)

lemma run_length: "run_transitions s ms = Some u \<Longrightarrow> length ms + remaining u \<le> remaining s"
proof (induction s ms rule: run_transitions.induct)
  case (2 s t c ms)
  then have "t \<in> set (allowed_transitions s)" and "run_transitions t ms = Some u"
    by (simp_all add: step_simps split: sum.splits)
  with 2 show ?case using transition_lowers[of t s] by (force split: sum.splits)
qed simp

text \<open>Every status that precedes a given status in the table.\<close>

lemma pred_COMPLETED: "COMPLETED \<in> set (allowed_transitions s) \<Longrightarrow> s = VERIFYING"
  by (cases s) auto

lemma pred_EXECUTING: "EXECUTING \<in> set (allowed_transitions s) \<Longrightarrow> s = AWAITING_APPROVAL"
  by (cases s) auto

lemma pred_VERIFYING: "VERIFYING \<in> set (allowed_transitions s) \<Longrightarrow> s = DIAGNOSING \<or> s = EXECUTING"
  by (cases s) auto

lemma run_snoc:
  "run_transitions s (ms @ [(t, c)]) = Some u \<longleftrightarrow>
     u = t \<and> (\<exists>v. run_transitions s ms = Some v \<and> require_incident_transition v t c = Inr ())"
proof (induction s ms rule: run_transitions.induct)
  case (1 s)
  then show ?case by (auto split: sum.splits)
next
  case (2 s t' c' ms)
  then show ?case by (auto split: sum.splits)
qed

lemma run_visits:
  assumes "run_transitions s ms = Some u" and "s \<noteq> u"
    and pred: "\<And>v. u \<in> set (allowed_transitions v) \<Longrightarrow> v = w"
  shows "s = w \<or> w \<in> fst ` set ms"
  using assms(1,2)
proof (induction ms rule: rev_induct)
  case (snoc m ms)
  obtain t c where m: "m = (t, c)" by (cases m)
  from snoc.prems(1) m obtain v where v: "run_transitions s ms = Some v"
    and ok: "require_incident_transition v t c = Inr ()" and "u = t" by (auto simp: run_snoc)
  then have "v = w" using pred by (simp add: step_simps)
  with v show ?case
  proof (cases ms rule: rev_cases)
    case (snoc ms' m')
    obtain t' c' where m': "m' = (t', c')" by (cases m')
    with v snoc have "v = t'" by (simp add: run_snoc)
    with \<open>v = w\<close> m' snoc show ?thesis by force
  qed simp
qed simp

text \<open>C2. A sequence of transitions the guard accepts from CREATED is finite and short: it
  has at most eight moves, and a run that ends in a status with no successor cannot be
  extended.\<close>

theorem incident_runs_bounded:
  assumes "run_transitions CREATED ms = Some u"
  shows "length ms \<le> 8 \<and>
    (terminal_status u \<longleftrightarrow> (\<forall>t c. run_transitions CREATED (ms @ [(t, c)]) = None))"
proof -
  have "length ms \<le> 8" using run_length[OF assms] by simp
  moreover have "terminal_status u \<longleftrightarrow> (\<forall>t c. run_transitions CREATED (ms @ [(t, c)]) = None)"
  proof
    assume "terminal_status u"
    then have "allowed_transitions u = []" by (simp add: terminal_iff_no_transition)
    then show "\<forall>t c. run_transitions CREATED (ms @ [(t, c)]) = None"
      using assms by (auto simp: run_snoc step_simps simp flip: not_Some_eq)
  next
    assume none: "\<forall>t c. run_transitions CREATED (ms @ [(t, c)]) = None"
    have "\<not> t \<in> set (allowed_transitions u)" for t
    proof
      assume "t \<in> set (allowed_transitions u)"
      then have "require_incident_transition u t ''x'' = Inr ()"
        by (simp add: require_incident_transition_def str_strip_Nil_iff py_space_def)
      with assms have "run_transitions CREATED (ms @ [(t, ''x'')]) = Some t"
        by (simp add: run_snoc)
      with none show False by simp
    qed
    then show "terminal_status u" by (simp add: terminal_iff_no_transition) (meson last_in_set)
  qed
  ultimately show ?thesis ..
qed

theorem incident_runs_bounded_witness:
  "length [(PLANNING, ''go''), (CANCELLED, ''stop'')] \<le> 8 \<and>
   (terminal_status CANCELLED \<longleftrightarrow>
     (\<forall>t c. run_transitions CREATED ([(PLANNING, ''go''), (CANCELLED, ''stop'')] @ [(t, c)]) = None))"
  by (rule incident_runs_bounded) (simp add: require_incident_transition_def)

text \<open>An incident that reaches COMPLETED was verified before, its last move carried a
  conclusion that is not blank, and an incident that reaches EXECUTING waited for approval
  before.\<close>

theorem incident_completion_guarded:
  assumes "run_transitions CREATED ms = Some u"
  shows "(u = COMPLETED \<longrightarrow> VERIFYING \<in> fst ` set ms \<and> str_strip (snd (last ms)) \<noteq> []) \<and>
    (u = EXECUTING \<longrightarrow> AWAITING_APPROVAL \<in> fst ` set ms)"
proof (intro conjI impI)
  assume u: "u = COMPLETED"
  from run_visits[OF assms, of VERIFYING] u pred_COMPLETED
  show "VERIFYING \<in> fst ` set ms" by auto
  from assms u show "str_strip (snd (last ms)) \<noteq> []"
    by (cases ms rule: rev_cases) (auto simp: run_snoc step_simps)
next
  assume u: "u = EXECUTING"
  from run_visits[OF assms, of AWAITING_APPROVAL] u pred_EXECUTING
  show "AWAITING_APPROVAL \<in> fst ` set ms" by auto
qed

theorem incident_completion_guarded_witness:
  "VERIFYING \<in> fst ` set [(PLANNING, []), (DIAGNOSING, []), (VERIFYING, []), (COMPLETED, ''done'')]"
proof -
  have run: "run_transitions CREATED
      [(PLANNING, []), (DIAGNOSING, []), (VERIFYING, []), (COMPLETED, ''done'')] = Some COMPLETED"
    by (simp add: require_incident_transition_def str_strip_Nil_iff py_space_def)
  from incident_completion_guarded[OF run] show ?thesis by simp
qed

end
