(* ===== verification/Token_Codec.thy ===== *)
theory Token_Codec
  imports Json
begin

text \<open>
  The textual form of an approval token: the unpadded URL-safe base64 of \<^verbatim>\<open>_encode\<close> and
  \<^verbatim>\<open>_decode\<close> in \<^verbatim>\<open>src/core/approval_gate.py\<close>, with the standard library's
  \<^verbatim>\<open>urlsafe_b64encode\<close> and the lenient \<^verbatim>\<open>a2b_base64\<close> loop they call, and the interface
  \<^verbatim>\<open>token_codec\<close> through which the token operations use it.  Bytes are characters.
\<close>

section \<open>The interface\<close>

text \<open>What a two-part dotted token needs of its codec: parts decode to what was encoded and
  an encoded part has no dot.\<close>

locale token_codec =
  fixes enc :: "string \<Rightarrow> string" and dec :: "string \<Rightarrow> string option"
  assumes dec_enc: "dec (enc b) = Some b"
    and enc_no_dot: "CHR ''.'' \<notin> set (enc b)"
begin

lemma enc_inject: "enc a = enc b \<Longrightarrow> a = b"
  by (metis dec_enc option.inject)

lemma takeWhile_enc: "takeWhile (\<lambda>c. c \<noteq> CHR ''.'') (enc a @ CHR ''.'' # s) = enc a"
  using enc_no_dot[of a] by (subst takeWhile_append2) auto

lemma dropWhile_enc: "dropWhile (\<lambda>c. c \<noteq> CHR ''.'') (enc a @ CHR ''.'' # s) = CHR ''.'' # s"
  using enc_no_dot[of a] by (subst dropWhile_append2) auto

end

section \<open>Base64\<close>

text \<open>The alphabet: upper case, lower case, digits, \<^verbatim>\<open>-\<close> and \<^verbatim>\<open>_\<close>.\<close>

definition b64_char :: "nat \<Rightarrow> char" where
  "b64_char v = char_of
     (if v < 26 then v + 65 else if v < 52 then v + 71 else if v < 62 then v - 4
      else if v = 62 then 45 else 95)"

text \<open>The decoding table after \<^verbatim>\<open>-_\<close> were translated to \<^verbatim>\<open>+/\<close>; those two are accepted
  as well.\<close>

definition b64_index :: "char \<Rightarrow> nat option" where
  "b64_index c =
    (let n = (of_char c :: nat) in
     if 65 \<le> n \<and> n \<le> 90 then Some (n - 65)
     else if 97 \<le> n \<and> n \<le> 122 then Some (n - 71)
     else if 48 \<le> n \<and> n \<le> 57 then Some (n + 4)
     else if n = 45 \<or> n = 43 then Some 62
     else if n = 95 \<or> n = 47 then Some 63
     else None)"

fun b64_sextets :: "nat list \<Rightarrow> nat list" where
  "b64_sextets [] = []"
| "b64_sextets [a] = [a div 4, (a mod 4) * 16]"
| "b64_sextets [a, b] = [a div 4, (a mod 4) * 16 + b div 16, (b mod 16) * 4]"
| "b64_sextets (a # b # c # r) =
     [a div 4, (a mod 4) * 16 + b div 16, (b mod 16) * 4 + c div 64, c mod 64] @ b64_sextets r"

definition byte_codes :: "string \<Rightarrow> nat list" where
  "byte_codes bs = map of_char bs"

definition urlsafe_b64encode :: "string \<Rightarrow> string" where
  "urlsafe_b64encode bs =
     map b64_char (b64_sextets (byte_codes bs)) @ replicate ((3 - length bs mod 3) mod 3) CHR ''=''"

text \<open>The loop of \<^verbatim>\<open>a2b_base64\<close>: position in the group of four, the bits left over, the pad
  characters seen in this group.  Characters outside the alphabet are skipped.\<close>

fun a2b :: "nat \<Rightarrow> nat \<Rightarrow> nat \<Rightarrow> string \<Rightarrow> nat list option" where
  "a2b quad_pos left pads [] = (if quad_pos = 0 then Some [] else None)"
| "a2b quad_pos left pads (c # cs) =
    (if c = CHR ''='' then
       (if 2 \<le> quad_pos then
          (if 4 \<le> quad_pos + (pads + 1) then Some [] else a2b quad_pos left (pads + 1) cs)
        else a2b quad_pos left pads cs)
     else case b64_index c of
       None \<Rightarrow> a2b quad_pos left pads cs
     | Some v \<Rightarrow>
         (if quad_pos = 0 then a2b 1 v 0 cs
          else if quad_pos = 1 then map_option (Cons (left * 4 + v div 16)) (a2b 2 (v mod 16) 0 cs)
          else if quad_pos = 2 then map_option (Cons (left * 16 + v div 4)) (a2b 3 (v mod 4) 0 cs)
          else map_option (Cons (left * 64 + v)) (a2b 0 0 0 cs)))"

definition urlsafe_b64decode :: "string \<Rightarrow> string option" where
  "urlsafe_b64decode s = map_option (map char_of) (a2b 0 0 0 s)"

definition token_encode :: "string \<Rightarrow> string" where
  "token_encode bs = rstrip_by (\<lambda>c. c = CHR ''='') (urlsafe_b64encode bs)"

definition token_decode :: "string \<Rightarrow> string option" where
  "token_decode s = urlsafe_b64decode (s @ replicate (nat ((- int (length s)) mod 4)) CHR ''='')"

section \<open>The round trip\<close>

lemma b64_tables:
  assumes "v < 64"
  shows "b64_index (b64_char v) = Some v \<and> b64_char v \<noteq> CHR ''='' \<and> b64_char v \<noteq> CHR ''.''"
proof -
  have code: "of_char (b64_char v) =
      (if v < 26 then v + 65 else if v < 52 then v + 71 else if v < 62 then v - 4
       else if v = 62 then 45 else 95)"
    using assms by (simp add: b64_char_def)
  have "(of_char (b64_char v) :: nat) \<noteq> of_char (CHR ''='') \<and>
      (of_char (b64_char v) :: nat) \<noteq> of_char (CHR ''.'')"
    using assms unfolding code by auto
  then have "b64_char v \<noteq> CHR ''='' \<and> b64_char v \<noteq> CHR ''.''" by metis
  moreover have "b64_index (b64_char v) = Some v"
    using assms by (auto simp: b64_index_def code Let_def)
  ultimately show ?thesis by simp
qed

lemmas b64_index_char [simp] = b64_tables[THEN conjunct1]
lemmas b64_char_pad [simp] = b64_tables[THEN conjunct2, THEN conjunct1]
lemmas b64_char_dot [simp] = b64_tables[THEN conjunct2, THEN conjunct2]

lemma byte_codes_bound: "\<forall>n\<in>set (byte_codes bs). n < 256"
  by (auto simp: byte_codes_def)

lemma byte_codes_inverse [simp]: "map char_of (byte_codes bs) = bs"
  by (induction bs) (simp_all add: byte_codes_def)

lemma b64_sextets_bound: "\<forall>n\<in>set ns. n < 256 \<Longrightarrow> \<forall>v\<in>set (b64_sextets ns). v < 64"
  by (induction ns rule: b64_sextets.induct) auto

lemma length_b64_sextets:
  "length (b64_sextets ns) = 4 * (length ns div 3) + (case length ns mod 3 of 0 \<Rightarrow> 0 | Suc k \<Rightarrow> k + 2)"
proof (induction ns rule: b64_sextets.induct)
  case (4 a b c r)
  have "length (a # b # c # r) div 3 = Suc (length r div 3)"
    and "length (a # b # c # r) mod 3 = length r mod 3" by simp_all
  with 4 show ?case by simp
qed simp_all

lemma pad_count: "nat ((- int (length (b64_sextets ns))) mod 4) = (3 - length ns mod 3) mod 3"
proof -
  define q where "q = length ns div 3"
  consider "length ns mod 3 = 0" | "length ns mod 3 = 1" | "length ns mod 3 = 2" by linarith
  then show ?thesis
  proof cases
    case 1
    then have "length (b64_sextets ns) = 4 * q" by (simp add: length_b64_sextets q_def)
    with 1 show ?thesis by simp
  next
    case 2
    then have "length (b64_sextets ns) = 4 * q + 2" by (simp add: length_b64_sextets q_def)
    moreover have "(- int (4 * q + 2)) mod 4 = 2" by presburger
    ultimately show ?thesis using 2 by simp
  next
    case 3
    then have "length (b64_sextets ns) = 4 * q + 3"
      by (simp add: length_b64_sextets q_def numeral_2_eq_2)
    moreover have "(- int (4 * q + 3)) mod 4 = 1" by presburger
    ultimately show ?thesis using 3 by simp
  qed
qed

lemma a2b_sextets:
  "\<forall>n\<in>set ns. n < 256 \<Longrightarrow>
     a2b 0 0 0 (map b64_char (b64_sextets ns) @ replicate ((3 - length ns mod 3) mod 3) CHR ''='') = Some ns"
proof (induction ns rule: b64_sextets.induct)
  case (2 a)
  then have "a div 4 < 64" by simp
  then show ?case by (simp add: numeral_2_eq_2)
next
  case (3 a b)
  then have "a div 4 < 64" "a mod 4 * 16 + b div 16 < 64" by auto
  moreover from 3 have "(a mod 4 * 16 + b div 16) div 16 = a mod 4"
    and "(a mod 4 * 16 + b div 16) mod 16 = b div 16" by auto
  ultimately show ?case by simp
next
  case (4 a b c r)
  then have bounds: "a div 4 < 64" "a mod 4 * 16 + b div 16 < 64" "b mod 16 * 4 + c div 64 < 64" by auto
  have parts: "(a mod 4 * 16 + b div 16) div 16 = a mod 4" "(a mod 4 * 16 + b div 16) mod 16 = b div 16"
    "(b mod 16 * 4 + c div 64) div 4 = b mod 16" "(b mod 16 * 4 + c div 64) mod 4 = c div 64"
    using "4.prems" by auto
  have "length (a # b # c # r) mod 3 = length r mod 3" by simp
  with 4 bounds parts show ?case by simp
qed simp

lemma rstrip_pad:
  assumes "\<forall>x\<in>set xs. \<not> p x" and "\<forall>x\<in>set ys. p x"
  shows "rstrip_by p (xs @ ys) = xs"
proof -
  have "dropWhile p (rev ys @ rev xs) = dropWhile p (rev xs)"
    using assms(2) by (intro dropWhile_append2) simp
  also have "\<dots> = rev xs" using assms(1) by (intro dropWhile_id) (cases "rev xs", auto)
  finally show ?thesis by (simp add: rstrip_by_def)
qed

lemma token_encode_eq: "token_encode bs = map b64_char (b64_sextets (byte_codes bs))"
  unfolding token_encode_def urlsafe_b64encode_def
  using b64_sextets_bound[OF byte_codes_bound[of bs]] by (intro rstrip_pad) auto

lemma token_decode_encode: "token_decode (token_encode bs) = Some bs"
proof -
  have "length (byte_codes bs) = length bs" by (simp add: byte_codes_def)
  then show ?thesis
    using a2b_sextets[OF byte_codes_bound[of bs]] pad_count[of "byte_codes bs"]
    by (simp add: token_decode_def token_encode_eq urlsafe_b64decode_def)
qed

lemma token_encode_no_dot: "CHR ''.'' \<notin> set (token_encode bs)"
proof
  assume "CHR ''.'' \<in> set (token_encode bs)"
  then obtain v where "v \<in> set (b64_sextets (byte_codes bs))" and dot: "b64_char v = CHR ''.''"
    unfolding token_encode_eq set_map by (metis imageE)
  then have "v < 64" using b64_sextets_bound[OF byte_codes_bound] by blast
  with b64_char_dot dot show False by blast
qed

interpretation b64: token_codec token_encode token_decode
  by unfold_locales (rule token_decode_encode token_encode_no_dot)+

end
