(* ===== verification/Approval_Gate.thy ===== *)
theory Approval_Gate
  imports Policy Token_Codec
begin

text \<open>
  Approval tokens, \<^verbatim>\<open>src/core/approval_gate.py\<close>: the hash that binds a token to an action, the
  signed claims a token carries, and the checks of its verification in the order the code
  makes them.  HMAC is written out over the digest function; the digest (SHA-256) and the
  serialisation of the pydantic models are the parameters of \<^verbatim>\<open>token_env\<close>.
\<close>

record approval_claims =
  ac_approval_id :: uuid
  ac_project_id :: int
  ac_incident_id :: uuid
  ac_action_id :: uuid
  ac_action_hash :: string
  ac_target_id :: uuid
  ac_approver_id :: int
  ac_expires_at :: datetime

text \<open>The field constraints of \<^verbatim>\<open>ApprovalClaims\<close>.\<close>

definition valid_claims :: "approval_claims \<Rightarrow> bool" where
  "valid_claims c \<longleftrightarrow>
     0 < ac_project_id c \<and> length (ac_action_hash c) = 64 \<and>
     list_all (\<lambda>x. x \<in> set hex_digits) (ac_action_hash c) \<and> 0 < ac_approver_id c"

record token_env =
  te_sha256 :: "string \<Rightarrow> string"
  te_dump_action :: "proposed_action \<Rightarrow> (string \<times> json) list"
  te_dump_claims :: "approval_claims \<Rightarrow> string"
  te_load_claims :: "string \<Rightarrow> approval_claims option"

datatype token_error =
    SecretTooShort
  | MalformedToken
  | InvalidSignature
  | InvalidClaims
  | TokenExpired
  | ActionMismatch
  | TargetMismatch
  | ProjectMismatch

definition action_hash :: "token_env \<Rightarrow> proposed_action \<Rightarrow> string" where
  "action_hash te action =
     hexdigest (te_sha256 te
       (json_dumps (JObj (filter (\<lambda>(k, v). k \<noteq> ''id'') (te_dump_action te action)))))"

text \<open>HMAC with the 64-byte block of SHA-256.\<close>

definition xor_byte :: "nat \<Rightarrow> char \<Rightarrow> char" where
  "xor_byte m c = char_of (semiring_bit_operations_class.xor m (of_char c))"

definition hmac_block :: "token_env \<Rightarrow> string \<Rightarrow> string" where
  "hmac_block te key =
    (let k = (if 64 < length key then te_sha256 te key else key)
     in k @ replicate (64 - length k) (char_of (0 :: nat)))"

definition hmac_digest :: "token_env \<Rightarrow> string \<Rightarrow> string \<Rightarrow> string" where
  "hmac_digest te key msg =
    (let k = hmac_block te key
     in te_sha256 te (map (xor_byte 92) k @ te_sha256 te (map (xor_byte 54) k @ msg)))"

definition validate_secret :: "string \<Rightarrow> token_error + unit" where
  "validate_secret secret = (if length secret < 32 then Inl SecretTooShort else Inr ())"

definition issue_approval_token :: "token_env \<Rightarrow> approval_claims \<Rightarrow> string \<Rightarrow> token_error + string" where
  "issue_approval_token te claims secret =
    (case validate_secret secret of
       Inl e \<Rightarrow> Inl e
     | Inr _ \<Rightarrow>
         let body = te_dump_claims te claims; signature = hmac_digest te secret body
         in Inr (token_encode body @ ''.'' @ token_encode signature))"

text \<open>\<^verbatim>\<open>token.split(".", maxsplit=1)\<close> unpacked into two parts.\<close>

definition split_token :: "string \<Rightarrow> (string \<times> string) option" where
  "split_token token =
    (case dropWhile (\<lambda>c. c \<noteq> CHR ''.'') token of
       [] \<Rightarrow> None
     | _ # signature_part \<Rightarrow> Some (takeWhile (\<lambda>c. c \<noteq> CHR ''.'') token, signature_part))"

definition parse_token :: "string \<Rightarrow> (string \<times> string) option" where
  "parse_token token =
    (case split_token token of
       None \<Rightarrow> None
     | Some (body_part, signature_part) \<Rightarrow>
         (case token_decode body_part of
            None \<Rightarrow> None
          | Some body \<Rightarrow> map_option (Pair body) (token_decode signature_part)))"

definition verify_approval_token ::
  "token_env \<Rightarrow> string \<Rightarrow> string \<Rightarrow> proposed_action \<Rightarrow> int \<Rightarrow> datetime \<Rightarrow> token_error + approval_claims" where
  "verify_approval_token te token secret action approver_id evaluated_at =
    (case validate_secret secret of
       Inl e \<Rightarrow> Inl e
     | Inr _ \<Rightarrow>
    (case parse_token token of
       None \<Rightarrow> Inl MalformedToken
     | Some (body, signature) \<Rightarrow>
         if signature \<noteq> hmac_digest te secret body then Inl InvalidSignature
         else (case te_load_claims te body of
           None \<Rightarrow> Inl InvalidClaims
         | Some claims \<Rightarrow>
             if ac_expires_at claims \<le> evaluated_at then Inl TokenExpired
             else if ac_action_id claims \<noteq> pa_id action \<or> ac_action_hash claims \<noteq> action_hash te action
             then Inl ActionMismatch
             else if ac_target_id claims \<noteq> pa_target_id action \<or> ac_incident_id claims \<noteq> pa_incident_id action
             then Inl TargetMismatch
             else if ac_project_id claims \<noteq> pa_project_id action \<or> ac_approver_id claims \<noteq> approver_id
             then Inl ProjectMismatch
             else Inr claims)))"

section \<open>What a token proves\<close>

text \<open>The claims authorise the action for the approver at the time.\<close>

definition claims_match :: "token_env \<Rightarrow> approval_claims \<Rightarrow> proposed_action \<Rightarrow> int \<Rightarrow> datetime \<Rightarrow> bool" where
  "claims_match te c action approver_id t \<longleftrightarrow>
     t < ac_expires_at c \<and> ac_action_id c = pa_id action \<and> ac_action_hash c = action_hash te action \<and>
     ac_target_id c = pa_target_id action \<and> ac_incident_id c = pa_incident_id action \<and>
     ac_project_id c = pa_project_id action \<and> ac_approver_id c = approver_id"

lemma split_token_dot:
  assumes "CHR ''.'' \<notin> set a"
  shows "split_token (a @ CHR ''.'' # b) = Some (a, b)"
proof -
  have "dropWhile (\<lambda>c. c \<noteq> CHR ''.'') (a @ CHR ''.'' # b) = CHR ''.'' # b"
    using assms by (subst dropWhile_append2) auto
  moreover have "takeWhile (\<lambda>c. c \<noteq> CHR ''.'') (a @ CHR ''.'' # b) = a"
    using assms by (subst takeWhile_append2) auto
  ultimately show ?thesis by (simp add: split_token_def)
qed

lemma parse_issued:
  "parse_token (token_encode body @ CHR ''.'' # token_encode sig) = Some (body, sig)"
  using split_token_dot[OF b64.enc_no_dot[of body]]
  by (simp add: parse_token_def b64.dec_enc)

lemma verify_Inr_iff:
  "verify_approval_token te token secret action approver t = Inr c \<longleftrightarrow>
     32 \<le> length secret \<and>
     (\<exists>body. parse_token token = Some (body, hmac_digest te secret body) \<and> te_load_claims te body = Some c) \<and>
     claims_match te c action approver t"
  by (auto simp: verify_approval_token_def validate_secret_def claims_match_def
      split: option.splits if_splits)

lemma issue_Inr_iff:
  "issue_approval_token te c secret = Inr token \<longleftrightarrow>
     32 \<le> length secret \<and>
     token = token_encode (te_dump_claims te c) @ ''.'' @ token_encode (hmac_digest te secret (te_dump_claims te c))"
  by (auto simp: issue_approval_token_def validate_secret_def Let_def)

lemma verify_issued:
  assumes "issue_approval_token te c secret = Inr token"
    and "te_load_claims te (te_dump_claims te c) = Some c"
  shows "verify_approval_token te token secret action approver t = Inr c' \<longleftrightarrow>
     c' = c \<and> claims_match te c action approver t"
  using assms by (auto simp: verify_Inr_iff issue_Inr_iff parse_issued)

text \<open>C3. Round trip of a token: what \<^verbatim>\<open>issue_approval_token\<close> signed is accepted by
  \<^verbatim>\<open>verify_approval_token\<close> with the same secret exactly for the action, approver and time the
  claims match, and gives those claims back; serialised claims are assumed to load again.\<close>

theorem token_roundtrip:
  assumes "issue_approval_token te c secret = Inr token"
    and "te_load_claims te (te_dump_claims te c) = Some c"
  shows "verify_approval_token te token secret action approver t =
    (if ac_expires_at c \<le> t then Inl TokenExpired
     else if ac_action_id c \<noteq> pa_id action \<or> ac_action_hash c \<noteq> action_hash te action then Inl ActionMismatch
     else if ac_target_id c \<noteq> pa_target_id action \<or> ac_incident_id c \<noteq> pa_incident_id action then Inl TargetMismatch
     else if ac_project_id c \<noteq> pa_project_id action \<or> ac_approver_id c \<noteq> approver then Inl ProjectMismatch
     else Inr c)"
  using assms by (simp add: verify_approval_token_def validate_secret_def issue_Inr_iff parse_issued)

text \<open>A sample environment, action and claims for the witnesses.\<close>

definition sample_env :: token_env where
  "sample_env = \<lparr>te_sha256 = (\<lambda>m. replicate 32 CHR ''a''), te_dump_action = (\<lambda>a. []),
     te_dump_claims = (\<lambda>c. show_nat (ac_approval_id c)),
     te_load_claims = (\<lambda>b. Some \<lparr>ac_approval_id = 5, ac_project_id = 1, ac_incident_id = 2,
        ac_action_id = 5, ac_action_hash = hexdigest (replicate 32 CHR ''a''), ac_target_id = 3,
        ac_approver_id = 7, ac_expires_at = 300\<rparr>)\<rparr>"

definition sample_action :: proposed_action where
  "sample_action = \<lparr>pa_id = 5, pa_project_id = 1, pa_incident_id = 2, pa_target_id = 3,
     pa_action_type = ''linux.service.restart'', pa_arguments = [], pa_risk_level = L2,
     pa_reason = ''restart'', pa_is_write = True, pa_is_load_test = False, pa_prechecks = [],
     pa_verification_steps = [], pa_rollback_steps = [''undo''], pa_requested_rps = None,
     pa_requested_concurrency = None, pa_requested_duration_seconds = None\<rparr>"

definition sample_claims :: approval_claims where
  "sample_claims = \<lparr>ac_approval_id = 5, ac_project_id = 1, ac_incident_id = 2, ac_action_id = 5,
     ac_action_hash = hexdigest (replicate 32 CHR ''a''), ac_target_id = 3, ac_approver_id = 7,
     ac_expires_at = 300\<rparr>"

definition sample_secret :: string where
  "sample_secret = replicate 32 CHR ''k''"

lemma sample_load: "te_load_claims sample_env body = Some sample_claims"
  by (simp add: sample_env_def sample_claims_def)

lemma sample_match: "claims_match sample_env sample_claims sample_action 7 t \<longleftrightarrow> t < 300"
  by (simp add: claims_match_def sample_env_def sample_claims_def sample_action_def action_hash_def)

lemma sample_issue: "\<exists>token. issue_approval_token sample_env sample_claims sample_secret = Inr token"
  by (simp add: issue_Inr_iff sample_secret_def)

theorem token_roundtrip_witness:
  "\<exists>token. issue_approval_token sample_env sample_claims sample_secret = Inr token \<and>
     verify_approval_token sample_env token sample_secret sample_action 7 100 = Inr sample_claims \<and>
     verify_approval_token sample_env token sample_secret sample_action 8 100 = Inl ProjectMismatch"
proof -
  obtain token where i: "issue_approval_token sample_env sample_claims sample_secret = Inr token"
    using sample_issue by blast
  note rt = token_roundtrip[OF i sample_load]
  from i rt[of sample_action 7 100] rt[of sample_action 8 100] show ?thesis
    by (auto simp: sample_env_def sample_claims_def sample_action_def action_hash_def)
qed

text \<open>Verification accepts a token exactly when the secret has 32 bytes or more, the token
  parses into a body and the MAC of that body under the secret, and the claims of the body
  match action, hash, target, incident, project, approver and time.\<close>

theorem token_accepted_iff:
  "verify_approval_token te token secret action approver t = Inr c \<longleftrightarrow>
     32 \<le> length secret \<and>
     (\<exists>body. parse_token token = Some (body, hmac_digest te secret body) \<and> te_load_claims te body = Some c) \<and>
     claims_match te c action approver t"
  by (rule verify_Inr_iff)

end
