(* ===== verification/Approval.thy ===== *)
theory Approval
  imports Approval_Gate
begin

text \<open>
  The approval service, \<^verbatim>\<open>src/service/approval.py\<close>.  Its state is the directory of approval
  files, here the list of approval identifiers with their file contents in the order of their
  last write; \<^const>\<open>None\<close> stands for a file that cannot be read or validated.  The operations
  return their result or the exception together with the new directory, because an operation
  that raises may have written before.
\<close>

datatype approval_status = PENDING | GRANTED | REJECTED | EXPIRED | CONSUMED

record approval_request =
  aq_action :: proposed_action
  aq_scope :: authorization_scope
  aq_environment :: target_environment
  aq_approver_id :: "int option"

record approval_record =
  ar_approval_id :: uuid
  ar_action :: proposed_action
  ar_decision :: policy_decision
  ar_status :: approval_status
  ar_requester_id :: int
  ar_approver_id :: int
  ar_created_at :: datetime
  ar_expires_at :: datetime

datatype approval_error =
    PolicyDenied "string list"
  | ApprovalNotFound
  | WrongApprover
  | ApprovalExpired
  | NotPending
  | NotGranted
  | TokenRefused token_error

type_synonym approvals = "(uuid \<times> approval_record option) list"

definition approval_evaluate :: "approval_request \<Rightarrow> datetime \<Rightarrow> policy_decision" where
  "approval_evaluate request now =
     evaluate_action (aq_action request) (aq_scope request) (aq_environment request) now"

definition approval_write :: "approval_record \<Rightarrow> approvals \<Rightarrow> approvals" where
  "approval_write r s =
     filter (\<lambda>(k, _). k \<noteq> ar_approval_id r) s @ [(ar_approval_id r, Some r)]"

definition approval_get :: "approvals \<Rightarrow> uuid \<Rightarrow> approval_record option" where
  "approval_get s approval_id =
     (case map_of s approval_id of None \<Rightarrow> None | Some content \<Rightarrow> content)"

text \<open>Files sorted by modification time, newest first; unreadable files are skipped.\<close>

definition list_records :: "approvals \<Rightarrow> approval_record list" where
  "list_records s = List.map_filter snd (rev s)"

definition approval_create ::
  "approval_request \<Rightarrow> int \<Rightarrow> int \<Rightarrow> datetime \<Rightarrow> approvals \<Rightarrow> (approval_error + approval_record) \<times> approvals" where
  "approval_create request requester_id default_approver_id now s =
    (let decision = approval_evaluate request now in
     if pd_effect decision = DENY then (Inl (PolicyDenied (pd_reason_codes decision)), s)
     else
       let expires = now + or_else_int (pd_approval_ttl_seconds decision) 300;
           r = \<lparr>ar_approval_id = pa_id (aq_action request), ar_action = aq_action request,
                ar_decision = decision, ar_status = PENDING, ar_requester_id = requester_id,
                ar_approver_id = or_else_int (aq_approver_id request) default_approver_id,
                ar_created_at = now, ar_expires_at = expires\<rparr>
       in (Inr r, approval_write r s))"

definition claims_of_record :: "token_env \<Rightarrow> approval_record \<Rightarrow> int \<Rightarrow> approval_claims" where
  "claims_of_record te r approver_id =
     \<lparr>ac_approval_id = ar_approval_id r, ac_project_id = pa_project_id (ar_action r),
      ac_incident_id = pa_incident_id (ar_action r), ac_action_id = pa_id (ar_action r),
      ac_action_hash = action_hash te (ar_action r), ac_target_id = pa_target_id (ar_action r),
      ac_approver_id = approver_id, ac_expires_at = ar_expires_at r\<rparr>"

definition approval_decide ::
  "token_env \<Rightarrow> string \<Rightarrow> uuid \<Rightarrow> int \<Rightarrow> bool \<Rightarrow> datetime \<Rightarrow> approvals
     \<Rightarrow> (approval_error + approval_record \<times> string) \<times> approvals" where
  "approval_decide te secret approval_id approver_id approved now s =
    (case approval_get s approval_id of
       None \<Rightarrow> (Inl ApprovalNotFound, s)
     | Some r \<Rightarrow>
         if ar_approver_id r \<noteq> approver_id then (Inl WrongApprover, s)
         else if ar_expires_at r \<le> now
         then (Inl ApprovalExpired, approval_write (r\<lparr>ar_status := EXPIRED\<rparr>) s)
         else if ar_status r \<noteq> PENDING then (Inl NotPending, s)
         else if \<not> approved
         then let r' = r\<lparr>ar_status := REJECTED\<rparr> in (Inr (r', []), approval_write r' s)
         else
           let r' = r\<lparr>ar_status := GRANTED\<rparr>; s' = approval_write r' s
           in (case issue_approval_token te (claims_of_record te r' approver_id) secret of
                 Inl e \<Rightarrow> (Inl (TokenRefused e), s')
               | Inr token \<Rightarrow> (Inr (r', token), s')))"

definition approval_consume ::
  "token_env \<Rightarrow> string \<Rightarrow> proposed_action \<Rightarrow> string \<Rightarrow> int \<Rightarrow> datetime \<Rightarrow> approvals
     \<Rightarrow> (approval_error + approval_record \<times> approval_claims) \<times> approvals" where
  "approval_consume te secret action token approver_id now s =
    (case verify_approval_token te token secret action approver_id now of
       Inl e \<Rightarrow> (Inl (TokenRefused e), s)
     | Inr claims \<Rightarrow>
         (case approval_get s (ac_approval_id claims) of
            None \<Rightarrow> (Inl NotGranted, s)
          | Some r \<Rightarrow>
              if ar_status r \<noteq> GRANTED then (Inl NotGranted, s)
              else let r' = r\<lparr>ar_status := CONSUMED\<rparr> in (Inr (r', claims), approval_write r' s)))"

section \<open>The directory as a map\<close>

definition keys_ok :: "approvals \<Rightarrow> bool" where
  "keys_ok s \<longleftrightarrow> distinct (map fst s) \<and> (\<forall>(k, c) \<in> set s. \<forall>r. c = Some r \<longrightarrow> ar_approval_id r = k)"

lemma map_of_filter_neq: "map_of (filter (\<lambda>(k, _). k \<noteq> a) s) k = (if k = a then None else map_of s k)"
  by (induction s) auto

lemma get_write [simp]:
  "approval_get (approval_write r s) k = (if k = ar_approval_id r then Some r else approval_get s k)"
  by (auto simp: approval_get_def approval_write_def map_add_def map_of_filter_neq split: option.splits)

lemma keys_ok_Nil [simp]: "keys_ok []"
  by (simp add: keys_ok_def)

lemma keys_ok_write [inv_intros, simp]: "keys_ok s \<Longrightarrow> keys_ok (approval_write r s)"
  by (auto simp: keys_ok_def approval_write_def distinct_map_filter)

lemma keys_ok_get: "keys_ok s \<Longrightarrow> approval_get s k = Some r \<Longrightarrow> ar_approval_id r = k"
  by (auto simp: keys_ok_def approval_get_def split: option.splits dest!: map_of_SomeD)

section \<open>Runs of the service\<close>

datatype approval_op =
    OpCreate approval_request int int datetime
  | OpDecide uuid int bool datetime
  | OpConsume proposed_action string int datetime

datatype approval_outcome =
    Raised approval_error
  | Created approval_record
  | Decided approval_record string
  | Consumed approval_record approval_claims

fun approval_exec :: "token_env \<Rightarrow> string \<Rightarrow> approval_op \<Rightarrow> approvals \<Rightarrow> approval_outcome \<times> approvals" where
  "approval_exec te secret (OpCreate request requester default_approver now) s =
    (case approval_create request requester default_approver now s of
       (Inl e, s') \<Rightarrow> (Raised e, s') | (Inr r, s') \<Rightarrow> (Created r, s'))"
| "approval_exec te secret (OpDecide k approver approved now) s =
    (case approval_decide te secret k approver approved now s of
       (Inl e, s') \<Rightarrow> (Raised e, s') | (Inr (r, token), s') \<Rightarrow> (Decided r token, s'))"
| "approval_exec te secret (OpConsume action token approver now) s =
    (case approval_consume te secret action token approver now s of
       (Inl e, s') \<Rightarrow> (Raised e, s') | (Inr (r, claims), s') \<Rightarrow> (Consumed r claims, s'))"

fun approval_run :: "token_env \<Rightarrow> string \<Rightarrow> approval_op list \<Rightarrow> approvals \<Rightarrow> approval_outcome list \<times> approvals" where
  "approval_run te secret [] s = ([], s)"
| "approval_run te secret (x # xs) s =
    (let (out, s') = approval_exec te secret x s; (outs, s'') = approval_run te secret xs s'
     in (out # outs, s''))"

fun is_grant :: "uuid \<Rightarrow> approval_outcome \<Rightarrow> bool" where
  "is_grant k (Decided r token) \<longleftrightarrow> ar_approval_id r = k \<and> ar_status r = GRANTED"
| "is_grant k _ \<longleftrightarrow> False"

fun is_consumption :: "uuid \<Rightarrow> approval_outcome \<Rightarrow> bool" where
  "is_consumption k (Consumed r claims) \<longleftrightarrow> ar_approval_id r = k"
| "is_consumption k _ \<longleftrightarrow> False"

text \<open>How many consumptions the present status of an approval still allows.\<close>

definition open_grants :: "approvals \<Rightarrow> uuid \<Rightarrow> nat" where
  "open_grants s k = (case approval_get s k of Some r \<Rightarrow> (if ar_status r = GRANTED then 1 else 0) | None \<Rightarrow> 0)"

definition tally :: "('a \<Rightarrow> bool) \<Rightarrow> 'a list \<Rightarrow> nat" where
  "tally p xs = length (filter p xs)"

lemma tally_simps [simp]: "tally p [] = 0" "tally p (x # xs) = (if p x then 1 else 0) + tally p xs"
  by (simp_all add: tally_def)

lemma exec_keys_ok [inv_intros]: "keys_ok s \<Longrightarrow> keys_ok (snd (approval_exec te secret x s))"
  by (cases x) (auto simp: approval_create_def approval_decide_def approval_consume_def Let_def
      split: option.splits sum.splits prod.splits)

text \<open>One operation balances: a consumption uses up an open grant, and only a grant opens one.\<close>

lemma exec_balance_create:
  assumes "approval_exec te secret (OpCreate q a b t) s = (out, s')"
  shows "\<not> is_consumption k out \<and> \<not> is_grant k out \<and> open_grants s' k \<le> open_grants s k"
  using assms by (auto simp: approval_create_def Let_def open_grants_def split: if_splits)

lemma exec_balance_decide:
  assumes "approval_exec te secret (OpDecide j a b t) s = (out, s')" and "32 \<le> length secret"
  shows "\<not> is_consumption k out \<and> open_grants s' k \<le> open_grants s k + (if is_grant k out then 1 else 0)"
  using assms
  by (auto simp: approval_decide_def Let_def open_grants_def issue_approval_token_def validate_secret_def
      split: option.splits if_splits)

lemma exec_balance_consume:
  assumes "approval_exec te secret (OpConsume a tok b t) s = (out, s')" and "keys_ok s"
  shows "\<not> is_grant k out \<and> (if is_consumption k out then 1 else 0) + open_grants s' k \<le> open_grants s k"
  using assms keys_ok_get
  by (auto simp: approval_consume_def Let_def open_grants_def split: sum.splits option.splits if_splits)

lemma exec_balance:
  assumes "approval_exec te secret x s = (out, s')" and "keys_ok s" and "32 \<le> length secret"
  shows "(if is_consumption k out then 1 else 0) + open_grants s' k \<le>
         open_grants s k + (if is_grant k out then 1 else 0)"
  using assms exec_balance_create[of te secret _ _ _ _ s out s' k]
    exec_balance_decide[of te secret _ _ _ _ s out s' k] exec_balance_consume[of te secret _ _ _ _ s out s' k]
  by (cases x) fastforce+

lemma run_balance:
  assumes "approval_run te secret xs s = (outs, s')" and "keys_ok s" and "32 \<le> length secret"
  shows "tally (is_consumption k) outs + open_grants s' k \<le> open_grants s k + tally (is_grant k) outs"
  using assms
proof (induction xs arbitrary: s outs)
  case (Cons x xs)
  obtain out s1 where e: "approval_exec te secret x s = (out, s1)" by fastforce
  obtain outs1 s2 where r: "approval_run te secret xs s1 = (outs1, s2)" by fastforce
  from Cons.prems e r have out: "outs = out # outs1" "s' = s2" by auto
  have "keys_ok s1" using exec_keys_ok[of s te secret x] Cons.prems(2) e by simp
  from Cons.IH[OF _ this Cons.prems(3)] r out
  have "tally (is_consumption k) outs1 + open_grants s' k \<le> open_grants s1 k + tally (is_grant k) outs1"
    by simp
  with exec_balance[OF e Cons.prems(2,3), of k] out show ?case by (simp split: if_splits)
qed simp

lemma short_secret_no_consumption:
  "length secret < 32 \<Longrightarrow> \<not> is_consumption k (fst (approval_exec te secret x s))"
  by (cases x) (auto simp: approval_create_def approval_decide_def approval_consume_def Let_def
      issue_approval_token_def validate_secret_def verify_approval_token_def
      split: option.splits sum.splits if_splits)

lemma short_secret_run:
  "length secret < 32 \<Longrightarrow> tally (is_consumption k) (fst (approval_run te secret xs s)) = 0"
  by (induction xs arbitrary: s)
    (simp_all add: Let_def case_prod_beta short_secret_no_consumption)

text \<open>C4. An approval is used at most once per grant: in every sequence of create, decide and
  consume calls on an initially empty service, and for every approval, the successful
  consumptions are at most as many as the successful grants, whatever tokens are replayed.\<close>

theorem consumed_only_after_grant:
  "tally (is_consumption k) (fst (approval_run te secret xs [])) \<le>
   tally (is_grant k) (fst (approval_run te secret xs []))"
proof (cases "32 \<le> length secret")
  case True
  obtain outs s' where r: "approval_run te secret xs [] = (outs, s')" by fastforce
  have "open_grants [] k = 0" by (simp add: open_grants_def approval_get_def)
  with run_balance[OF r keys_ok_Nil True, of k] r show ?thesis by simp
next
  case False
  then show ?thesis using short_secret_run[of secret k te xs "[]"] by simp
qed

section \<open>The whole path of one approval\<close>

lemma create_Inr:
  "approval_create q requester d now s = (Inr r, s') \<longleftrightarrow>
     admits (aq_scope q) (aq_action q) now \<and> s' = approval_write r s \<and>
     r = \<lparr>ar_approval_id = pa_id (aq_action q), ar_action = aq_action q,
          ar_decision = approval_evaluate q now, ar_status = PENDING, ar_requester_id = requester,
          ar_approver_id = or_else_int (aq_approver_id q) d, ar_created_at = now,
          ar_expires_at = now + 300\<rparr>"
proof -
  have "or_else_int (pd_approval_ttl_seconds (approval_evaluate q now)) 300 = 300"
    by (simp add: approval_evaluate_def evaluate_ttl or_else_int_def)
  then show ?thesis
    by (auto simp: approval_create_def Let_def evaluate_effect approval_evaluate_def
        split: if_splits)
qed

lemma decide_pending:
  assumes "approval_get s k = Some r" and "ar_approver_id r = approver" and "now < ar_expires_at r"
    and "ar_status r = PENDING" and "32 \<le> length secret"
  shows "\<exists>token. issue_approval_token te (claims_of_record te r approver) secret = Inr token \<and>
    approval_decide te secret k approver True now s =
      (Inr (r\<lparr>ar_status := GRANTED\<rparr>, token), approval_write (r\<lparr>ar_status := GRANTED\<rparr>) s)"
proof -
  have "claims_of_record te (r\<lparr>ar_status := GRANTED\<rparr>) approver = claims_of_record te r approver"
    by (simp add: claims_of_record_def)
  moreover obtain token where "issue_approval_token te (claims_of_record te r approver) secret = Inr token"
    using assms(5) by (simp add: issue_Inr_iff)
  ultimately show ?thesis using assms by (simp add: approval_decide_def Let_def)
qed

text \<open>The whole path: an action the policy admits is created pending; granted by its
  approver within its five minutes it yields a token, and the token with that action and
  approver is consumed exactly once before the expiry, a second use being refused.\<close>

theorem approval_end_to_end:
  assumes "approval_create q requester d t0 s = (Inr r, s0)"
    and "t1 < t0 + 300" and "t2 < t0 + 300"
    and "32 \<le> length secret"
    and "te_load_claims te (te_dump_claims te (claims_of_record te r (ar_approver_id r)))
           = Some (claims_of_record te r (ar_approver_id r))"
  shows "\<exists>r1 token s1 r2 c s2.
    approval_decide te secret (pa_id (aq_action q)) (ar_approver_id r) True t1 s0 = (Inr (r1, token), s1) \<and>
    ar_status r1 = GRANTED \<and>
    approval_consume te secret (aq_action q) token (ar_approver_id r) t2 s1 = (Inr (r2, c), s2) \<and>
    ar_status r2 = CONSUMED \<and> ac_action_hash c = action_hash te (aq_action q) \<and>
    approval_consume te secret (aq_action q) token (ar_approver_id r) t2 s2 = (Inl NotGranted, s2)"
proof -
  let ?k = "pa_id (aq_action q)" and ?b = "ar_approver_id r" and ?c = "claims_of_record te r (ar_approver_id r)"
  let ?r1 = "r\<lparr>ar_status := GRANTED\<rparr>" and ?s1 = "approval_write (r\<lparr>ar_status := GRANTED\<rparr>) s0"
  from assms(1) have r: "s0 = approval_write r s" "ar_approval_id r = ?k" "ar_action r = aq_action q"
    "ar_status r = PENDING" "ar_expires_at r = t0 + 300" by (simp_all add: create_Inr)
  then have get: "approval_get s0 ?k = Some r" by simp
  from decide_pending[OF get refl _ r(4) assms(4), of t1 te] assms(2) r(5) obtain token where
    issued: "issue_approval_token te ?c secret = Inr token" and
    granted: "approval_decide te secret ?k ?b True t1 s0 = (Inr (?r1, token), ?s1)" by auto
  have "claims_match te ?c (aq_action q) ?b t2"
    using r assms(3) by (simp add: claims_match_def claims_of_record_def)
  then have ver: "verify_approval_token te token secret (aq_action q) ?b t2 = Inr ?c"
    using verify_issued[OF issued assms(5)] by simp
  have cid: "ac_approval_id ?c = ?k" "ac_action_hash ?c = action_hash te (aq_action q)"
    using r by (simp_all add: claims_of_record_def)
  show ?thesis using granted ver cid r
    by (simp add: approval_consume_def Let_def)
qed

definition sample_request :: approval_request where
  "sample_request = \<lparr>aq_action = sample_action,
     aq_scope = \<lparr>as_allowed_target_ids = [3], as_allowed_action_types = [''linux.service.restart''],
       as_maximum_risk_level = L2, as_valid_from = None, as_valid_until = None,
       as_max_load_test_rps = None, as_max_load_test_concurrency = None,
       as_max_load_test_duration_seconds = None\<rparr>,
     aq_environment = TEST, aq_approver_id = Some 7\<rparr>"

definition sample_record :: approval_record where
  "sample_record = \<lparr>ar_approval_id = 5, ar_action = sample_action,
     ar_decision = approval_evaluate sample_request 0, ar_status = PENDING, ar_requester_id = 1,
     ar_approver_id = 7, ar_created_at = 0, ar_expires_at = 300\<rparr>"

lemma sample_create:
  "approval_create sample_request 1 1 0 [] = (Inr sample_record, approval_write sample_record [])"
  by (simp add: create_Inr sample_record_def sample_request_def sample_action_def admits_def
      or_else_int_def)

theorem approval_end_to_end_witness:
  "\<exists>token s1 r2 c s2.
    approval_consume sample_env sample_secret sample_action token 7 20 s1 = (Inr (r2, c), s2) \<and>
    approval_consume sample_env sample_secret sample_action token 7 20 s2 = (Inl NotGranted, s2)"
proof -
  have claims: "claims_of_record sample_env sample_record (ar_approver_id sample_record) = sample_claims"
    by (simp add: claims_of_record_def sample_record_def sample_claims_def sample_action_def
        sample_env_def action_hash_def)
  have sec: "32 \<le> length sample_secret" by (simp add: sample_secret_def)
  have load: "te_load_claims sample_env (te_dump_claims sample_env
      (claims_of_record sample_env sample_record (ar_approver_id sample_record)))
     = Some (claims_of_record sample_env sample_record (ar_approver_id sample_record))"
    unfolding claims by (rule sample_load)
  have fields: "aq_action sample_request = sample_action" "ar_approver_id sample_record = 7"
    by (simp_all add: sample_request_def sample_record_def)
  have "(10 :: int) < 0 + 300" "(20 :: int) < 0 + 300" by simp_all
  from approval_end_to_end[OF sample_create this sec load] show ?thesis
    unfolding fields by blast
qed



end
