(* ===== verification/Urls.thy ===== *)
theory Urls
  imports Prelude
begin

text \<open>
  Targets as the execution guard sees them, \<^verbatim>\<open>src/core/execution_guard.py\<close>: the parts of
  \<^verbatim>\<open>urllib.parse.urlsplit\<close> it reads (scheme, host name, port), the URL scan of
  \<^verbatim>\<open>extract_urls\<close> and the comparison \<^verbatim>\<open>_same_target\<close>.  \<^const>\<open>None\<close> is the \<^verbatim>\<open>ValueError\<close> these
  functions raise.  The check of a bracketed host is the parameter \<^verbatim>\<open>bracket_ok\<close>.
\<close>

section \<open>Splitting a URL\<close>

definition ascii_alpha :: "char \<Rightarrow> bool" where
  "ascii_alpha c \<longleftrightarrow> (let n = (of_char c :: nat) in (65 \<le> n \<and> n \<le> 90) \<or> (97 \<le> n \<and> n \<le> 122))"

definition ascii_digit :: "char \<Rightarrow> bool" where
  "ascii_digit c \<longleftrightarrow> (let n = (of_char c :: nat) in 48 \<le> n \<and> n \<le> 57)"

text \<open>\<^verbatim>\<open>str.lower\<close> on code points up to 255.\<close>

definition lower_char :: "char \<Rightarrow> char" where
  "lower_char c =
    (let n = (of_char c :: nat) in
     if (65 \<le> n \<and> n \<le> 90) \<or> (192 \<le> n \<and> n \<le> 222 \<and> n \<noteq> 215) then char_of (n + 32) else c)"

definition str_lower :: "string \<Rightarrow> string" where
  "str_lower s = map lower_char s"

definition scheme_char :: "char \<Rightarrow> bool" where
  "scheme_char c \<longleftrightarrow> ascii_alpha c \<or> ascii_digit c \<or> c \<in> {CHR ''+'', CHR ''-'', CHR ''.''}"

definition c0_or_space :: "char \<Rightarrow> bool" where
  "c0_or_space c \<longleftrightarrow> (of_char c :: nat) \<le> 32"

text \<open>\<^verbatim>\<open>s.partition(sep)\<close>: the text before the first separator, whether it occurs, the text
  after it.\<close>

definition str_partition :: "char \<Rightarrow> string \<Rightarrow> string \<times> bool \<times> string" where
  "str_partition sep s =
    (case dropWhile (\<lambda>c. c \<noteq> sep) s of
       [] \<Rightarrow> (s, False, [])
     | _ # rest \<Rightarrow> (takeWhile (\<lambda>c. c \<noteq> sep) s, True, rest))"

text \<open>\<^verbatim>\<open>s.rpartition(sep)[2]\<close>: the text after the last separator.\<close>

definition after_last :: "char \<Rightarrow> string \<Rightarrow> string" where
  "after_last sep s = rev (takeWhile (\<lambda>c. c \<noteq> sep) (rev s))"

record split_url =
  su_scheme :: string
  su_netloc :: string

definition urlsplit :: "(string \<Rightarrow> bool) \<Rightarrow> string \<Rightarrow> split_url option" where
  "urlsplit bracket_ok url0 =
    (let url1 = filter (\<lambda>c. c \<notin> {CHR 0x09, CHR 0x0A, CHR 0x0D}) (lstrip_by c0_or_space url0);
         (head, colon, rest) = str_partition CHR '':'' url1;
         (scheme, url) =
           (if colon \<and> head \<noteq> [] \<and> ascii_alpha (hd head) \<and> list_all scheme_char head
            then (str_lower head, rest) else ([], url1))
     in if take 2 url = ''//''
        then let netloc = takeWhile (\<lambda>c. c \<notin> {CHR ''/'', CHR ''?'', CHR ''#''}) (drop 2 url);
                 opened = CHR ''['' \<in> set netloc; closed = CHR '']'' \<in> set netloc
             in if opened \<noteq> closed \<or> (opened \<and> \<not> bracket_ok netloc) then None
                else Some \<lparr>su_scheme = scheme, su_netloc = netloc\<rparr>
        else Some \<lparr>su_scheme = scheme, su_netloc = []\<rparr>)"

text \<open>\<^verbatim>\<open>_hostinfo\<close>: host name and port text, without the user information.\<close>

definition hostinfo :: "split_url \<Rightarrow> string \<times> string" where
  "hostinfo u =
    (let info = after_last CHR ''@'' (su_netloc u);
         (_, opened, bracketed) = str_partition CHR ''['' info
     in if opened
        then let (host, _, tail) = str_partition CHR '']'' bracketed;
                 (_, _, port) = str_partition CHR '':'' tail
             in (host, port)
        else let (host, _, port) = str_partition CHR '':'' info in (host, port))"

definition url_hostname :: "split_url \<Rightarrow> string option" where
  "url_hostname u =
    (let (host, _) = hostinfo u in
     if host = [] then None
     else let (name, percent, zone) = str_partition CHR ''%'' host
          in Some (str_lower name @ (if percent then CHR ''%'' # zone else [])))"

definition parse_decimal :: "string \<Rightarrow> nat" where
  "parse_decimal s = foldl (\<lambda>acc c. 10 * acc + (of_char c - 48)) 0 s"

text \<open>The outer option is the \<^verbatim>\<open>ValueError\<close> of the \<^verbatim>\<open>port\<close> property.\<close>

definition url_port :: "split_url \<Rightarrow> nat option option" where
  "url_port u =
    (let (_, port) = hostinfo u in
     if port = [] then Some None
     else if \<not> list_all ascii_digit port then None
     else if 65535 < parse_decimal port then None
     else Some (Some (parse_decimal port)))"

section \<open>Targets\<close>

definition default_port :: "string \<Rightarrow> nat" where
  "default_port scheme = (if scheme = ''https'' then 443 else 80)"

text \<open>\<^verbatim>\<open>u.port or _default_port(u.scheme)\<close>; port 0 is falsy.\<close>

definition effective_port :: "split_url \<Rightarrow> nat option" where
  "effective_port u =
    map_option (\<lambda>p. case p of None \<Rightarrow> default_port (su_scheme u)
       | Some n \<Rightarrow> if n = 0 then default_port (su_scheme u) else n) (url_port u)"

definition same_target :: "(string \<Rightarrow> bool) \<Rightarrow> string \<Rightarrow> string \<Rightarrow> bool option" where
  "same_target bracket_ok actual declared =
    (case urlsplit bracket_ok actual of None \<Rightarrow> None
     | Some a \<Rightarrow>
    (case urlsplit bracket_ok declared of None \<Rightarrow> None
     | Some d \<Rightarrow>
         if su_scheme a \<noteq> su_scheme d \<or> url_hostname a \<noteq> url_hostname d then Some False
         else (case effective_port a of None \<Rightarrow> None
               | Some pa \<Rightarrow> map_option (\<lambda>pd. pa = pd) (effective_port d))))"

text \<open>\<^verbatim>\<open>any(_same_target(normalized, declared) for declared in ...)\<close> with its early exit.\<close>

fun any_same_target :: "(string \<Rightarrow> bool) \<Rightarrow> string \<Rightarrow> string list \<Rightarrow> bool option" where
  "any_same_target bracket_ok t [] = Some False"
| "any_same_target bracket_ok t (d # ds) =
    (case same_target bracket_ok t d of
       None \<Rightarrow> None
     | Some True \<Rightarrow> Some True
     | Some False \<Rightarrow> any_same_target bracket_ok t ds)"

text \<open>The canonical form that \<^verbatim>\<open>target_id\<close> hashes.\<close>

definition canonical_target :: "(string \<Rightarrow> bool) \<Rightarrow> (nat \<Rightarrow> string) \<Rightarrow> string \<Rightarrow> string option" where
  "canonical_target bracket_ok show_port target =
    (let t = str_lower (str_strip target) in
     case urlsplit bracket_ok t of
       None \<Rightarrow> None
     | Some u \<Rightarrow>
         (case url_hostname u of
            None \<Rightarrow> Some t
          | Some host \<Rightarrow>
              map_option (\<lambda>p. su_scheme u @ ''://'' @ host @ '':'' @ show_port p) (effective_port u)))"

definition target_uuid ::
  "(string \<Rightarrow> bool) \<Rightarrow> (nat \<Rightarrow> string) \<Rightarrow> (string \<Rightarrow> uuid) \<Rightarrow> string \<Rightarrow> uuid option" where
  "target_uuid bracket_ok show_port uuid5 target =
     map_option uuid5 (canonical_target bracket_ok show_port target)"

section \<open>Scanning a text for URLs\<close>

definition url_body_char :: "char \<Rightarrow> bool" where
  "url_body_char c \<longleftrightarrow> \<not> py_space c \<and> c \<notin> {CHR ''<'', CHR ''>'', CHR 0x27, CHR 0x22}"

text \<open>The length of a match of \<^verbatim>\<open>https?://[^\s<>'"]+\<close> at the head of the text, without regard
  to case; 0 for no match.\<close>

definition url_match :: "string \<Rightarrow> nat" where
  "url_match s =
    (let body = (\<lambda>n. length (takeWhile url_body_char (drop n s)))
     in if str_lower (take 8 s) = ''https://'' \<and> 0 < body 8 then 8 + body 8
        else if str_lower (take 7 s) = ''http://'' \<and> 0 < body 7 then 7 + body 7
        else 0)"

function find_urls :: "string \<Rightarrow> string list" where
  "find_urls [] = []"
| "find_urls (c # cs) =
    (let n = url_match (c # cs) in
     if n = 0 then find_urls cs else take n (c # cs) # find_urls (drop n (c # cs)))"
  by pat_completeness auto
termination by (relation "measure length") auto

definition url_tail_char :: "char \<Rightarrow> bool" where
  "url_tail_char c \<longleftrightarrow> c \<in> {CHR ''.'', CHR '','', CHR '';'', CHR '')''}"

fun collect_urls :: "(string \<Rightarrow> bool) \<Rightarrow> string list \<Rightarrow> string list \<Rightarrow> string list option" where
  "collect_urls bracket_ok vs [] = Some vs"
| "collect_urls bracket_ok vs (raw # raws) =
    (let url = rstrip_by url_tail_char raw in
     case urlsplit bracket_ok url of
       None \<Rightarrow> None
     | Some u \<Rightarrow>
         collect_urls bracket_ok
           (if su_scheme u \<in> {''http'', ''https''} \<and> url_hostname u \<noteq> None \<and> url \<notin> set vs
            then vs @ [url] else vs) raws)"

definition extract_urls :: "(string \<Rightarrow> bool) \<Rightarrow> string \<Rightarrow> string list option" where
  "extract_urls bracket_ok txt = collect_urls bracket_ok [] (find_urls txt)"

section \<open>What a target comparison establishes\<close>

definition web_target :: "(string \<Rightarrow> bool) \<Rightarrow> string \<Rightarrow> bool" where
  "web_target bracket_ok url \<longleftrightarrow>
    (case urlsplit bracket_ok url of None \<Rightarrow> False
     | Some u \<Rightarrow> su_scheme u \<in> {''http'', ''https''} \<and> url_hostname u \<noteq> None)"

lemma collect_urls_invariant:
  assumes "collect_urls bracket_ok vs raws = Some out"
    and "distinct vs" and "\<forall>v\<in>set vs. web_target bracket_ok v"
  shows "distinct out \<and> (\<forall>v\<in>set out. web_target bracket_ok v) \<and> set vs \<subseteq> set out"
  using assms
proof (induction raws arbitrary: vs)
  case (Cons raw raws)
  let ?url = "rstrip_by url_tail_char raw"
  from Cons.prems(1) obtain u where u: "urlsplit bracket_ok ?url = Some u"
    by (auto simp: Let_def split: option.splits)
  let ?new = "su_scheme u \<in> {''http'', ''https''} \<and> url_hostname u \<noteq> None \<and> ?url \<notin> set vs"
  have "collect_urls bracket_ok (if ?new then vs @ [?url] else vs) raws = Some out"
    using Cons.prems(1) u by (simp add: Let_def)
  moreover have "distinct (if ?new then vs @ [?url] else vs)" using Cons.prems(2) by simp
  moreover have "\<forall>v\<in>set (if ?new then vs @ [?url] else vs). web_target bracket_ok v"
    using Cons.prems(3) u by (simp add: web_target_def)
  ultimately have "distinct out \<and> (\<forall>v\<in>set out. web_target bracket_ok v) \<and>
      set (if ?new then vs @ [?url] else vs) \<subseteq> set out"
    by (rule Cons.IH)
  then show ?case by (auto split: if_splits)
qed simp

lemma any_same_target_True:
  "any_same_target bracket_ok t ds = Some True \<Longrightarrow> \<exists>d\<in>set ds. same_target bracket_ok t d = Some True"
  by (induction ds) (auto split: option.splits bool.splits)

lemma any_same_target_False:
  "any_same_target bracket_ok t ds = Some False \<Longrightarrow> \<forall>d\<in>set ds. same_target bracket_ok t d = Some False"
  by (induction ds) (auto split: option.splits bool.splits)

lemma same_target_True:
  "same_target bracket_ok a d = Some True \<longleftrightarrow>
    (\<exists>ua ud p. urlsplit bracket_ok a = Some ua \<and> urlsplit bracket_ok d = Some ud \<and>
       su_scheme ua = su_scheme ud \<and> url_hostname ua = url_hostname ud \<and>
       effective_port ua = Some p \<and> effective_port ud = Some p)"
  by (auto simp: same_target_def split: option.splits)

lemma same_target_web:
  assumes "same_target bracket_ok a d = Some True" and "web_target bracket_ok d"
  shows "web_target bracket_ok a"
  using assms by (auto simp: same_target_True web_target_def)

text \<open>The URLs \<^verbatim>\<open>extract_urls\<close> declares from a user's text are distinct http or https URLs
  with a host name, and a target that matches one of them is itself an http or https URL with
  the scheme, host and effective port of a declared one; a bare word never matches.\<close>

theorem declared_targets_sound:
  assumes "extract_urls bracket_ok txt = Some urls"
    and "any_same_target bracket_ok t urls = Some True"
  shows "distinct urls \<and> (\<forall>v\<in>set urls. web_target bracket_ok v) \<and> web_target bracket_ok t \<and>
    (\<exists>d\<in>set urls. \<exists>ut ud. urlsplit bracket_ok t = Some ut \<and> urlsplit bracket_ok d = Some ud \<and>
       su_scheme ut = su_scheme ud \<and> url_hostname ut = url_hostname ud \<and>
       effective_port ut = effective_port ud)"
proof -
  from collect_urls_invariant[of bracket_ok "[]" _ urls] assms(1)
  have urls: "distinct urls" "\<forall>v\<in>set urls. web_target bracket_ok v" by (auto simp: extract_urls_def)
  obtain d where d: "d \<in> set urls" "same_target bracket_ok t d = Some True"
    using any_same_target_True[OF assms(2)] by blast
  with urls same_target_web have "web_target bracket_ok t" by blast
  with urls d show ?thesis by (fastforce simp: same_target_True)
qed

lemmas url_eval = urlsplit_def url_hostname_def effective_port_def url_port_def parse_decimal_def
  hostinfo_def after_last_def str_partition_def str_lower_def lower_char_def scheme_char_def
  ascii_alpha_def ascii_digit_def c0_or_space_def lstrip_by_def url_match_def url_body_char_def
  py_space_def Let_def char_of_def bit_iff_odd

lemma sample_split: "urlsplit (\<lambda>n. True) ''http://a:80/x'' = Some \<lparr>su_scheme = ''http'', su_netloc = ''a:80''\<rparr>"
  and sample_split_upper: "urlsplit (\<lambda>n. True) ''HTTP://A'' = Some \<lparr>su_scheme = ''http'', su_netloc = ''A''\<rparr>"
  by (simp_all add: url_eval)

lemma sample_host: "url_hostname \<lparr>su_scheme = ''http'', su_netloc = ''a:80''\<rparr> = Some ''a''"
  and sample_host_upper: "url_hostname \<lparr>su_scheme = ''http'', su_netloc = ''A''\<rparr> = Some ''a''"
  and sample_port: "effective_port \<lparr>su_scheme = ''http'', su_netloc = ''a:80''\<rparr> = Some 80"
  and sample_port_default: "effective_port \<lparr>su_scheme = ''http'', su_netloc = ''A''\<rparr> = Some 80"
  by (simp_all add: url_eval default_port_def)

lemma sample_extract: "extract_urls (\<lambda>n. True) ''see http://a:80/x,'' = Some [''http://a:80/x'']"
proof -
  have "find_urls ''see http://a:80/x,'' = [''http://a:80/x,'']" by (simp add: url_eval)
  moreover have "rstrip_by url_tail_char ''http://a:80/x,'' = ''http://a:80/x''"
    by (simp add: rstrip_by_def url_tail_char_def)
  ultimately show ?thesis by (simp add: extract_urls_def sample_split sample_host)
qed

theorem declared_targets_sound_witness:
  "extract_urls (\<lambda>n. True) ''see http://a:80/x,'' = Some [''http://a:80/x''] \<and>
   web_target (\<lambda>n. True) ''HTTP://A''"
proof -
  have "any_same_target (\<lambda>n. True) ''HTTP://A'' [''http://a:80/x''] = Some True"
    by (simp add: same_target_def sample_split sample_split_upper sample_host sample_host_upper
        sample_port sample_port_default)
  from declared_targets_sound[OF sample_extract this] sample_extract show ?thesis by simp
qed

end
