(* ===== verification/Permissions.thy ===== *)
theory Permissions
  imports Policy
begin

text \<open>
  Runtime permissions, \<^verbatim>\<open>src/service/runtime_permissions.py\<close>: the requests that wait for the
  user, the always-allow rules on disk, the permission mode and the audit log.  The coroutine
  \<^verbatim>\<open>require_permission\<close> suspends while it waits, so it is the steps between two suspensions:
  \<^verbatim>\<open>begin\<close> up to the wait, then either \<^verbatim>\<open>resume\<close> after the event was set, or \<^verbatim>\<open>expire\<close> on
  the timeout followed by the \<^verbatim>\<open>cleanup\<close> of its \<^verbatim>\<open>finally\<close> clause, which waits for the lock
  and so may run after further decisions.
\<close>

datatype permission_mode = NORMAL | FULL_ACCESS

datatype permission_choice = REJECT | ALLOW_ONCE | ALWAYS_ALLOW

datatype permission_status = PPENDING | PALLOWED | PREJECTED | PEXPIRED

record permission_request =
  pr_id :: uuid
  pr_session_id :: string
  pr_agent_code :: string
  pr_agent_name :: string
  pr_requester_id :: int
  pr_action_type :: string
  pr_target :: string
  pr_reason :: string
  pr_risk_level :: risk_level
  pr_details :: "(string \<times> string) list"
  pr_status :: permission_status
  pr_created_at :: datetime
  pr_expires_at :: datetime

record pending_permission =
  pp_request :: permission_request
  pp_event :: bool
  pp_decision :: "permission_choice option"
  pp_timed_out :: bool

type_synonym permission_rule = "string \<times> string"

record audit_entry =
  au_session_id :: string
  au_agent_code :: string
  au_action_type :: string
  au_target :: string
  au_effect :: string
  au_source :: "string list"

text \<open>The rules file: \<^const>\<open>None\<close> when it is missing or does not parse.\<close>

record permission_state =
  ps_mode :: permission_mode
  ps_timeout :: int
  ps_rules :: "permission_rule list option"
  ps_pending :: "(uuid \<times> pending_permission) list"
  ps_audit :: "audit_entry list"

text \<open>What \<^verbatim>\<open>require_permission\<close> returns or raises; a grant carries its source.\<close>

datatype permission_result =
    PGranted "permission_choice option"
  | PWaiting
  | PTimeout
  | PUserRejected

fun choice_value :: "permission_choice \<Rightarrow> string" where
  "choice_value REJECT = ''reject''"
| "choice_value ALLOW_ONCE = ''allow_once''"
| "choice_value ALWAYS_ALLOW = ''always_allow''"

definition load_rules :: "permission_state \<Rightarrow> permission_rule list" where
  "load_rules s = (case ps_rules s of None \<Rightarrow> [] | Some rules \<Rightarrow> rules)"

definition rule_matches :: "permission_state \<Rightarrow> string \<Rightarrow> string \<Rightarrow> bool" where
  "rule_matches s action_type target \<longleftrightarrow> (\<exists>rule\<in>set (load_rules s). rule = (action_type, target))"

definition add_rule :: "string \<Rightarrow> string \<Rightarrow> permission_state \<Rightarrow> permission_state" where
  "add_rule action_type target s =
    (if rule_matches s action_type target then s
     else s\<lparr>ps_rules := Some (load_rules s @ [(action_type, target)])\<rparr>)"

definition clear_rules :: "permission_state \<Rightarrow> nat \<times> permission_state" where
  "clear_rules s = (length (load_rules s), s\<lparr>ps_rules := None\<rparr>)"

definition audit_permission ::
  "permission_request \<Rightarrow> string \<Rightarrow> string \<Rightarrow> permission_state \<Rightarrow> permission_state" where
  "audit_permission r effect source s =
     s\<lparr>ps_audit := ps_audit s @ [\<lparr>au_session_id = pr_session_id r, au_agent_code = pr_agent_code r,
        au_action_type = pr_action_type r, au_target = pr_target r, au_effect = effect,
        au_source = [source]\<rparr>]\<rparr>"

text \<open>\<^verbatim>\<open>require_permission\<close> up to its wait; the request carries the arguments of the call, and
  its status, creation and expiry are set here.\<close>

definition permission_begin ::
  "permission_request \<Rightarrow> datetime \<Rightarrow> permission_state \<Rightarrow> permission_result \<times> permission_state" where
  "permission_begin args now s =
    (if ps_mode s = FULL_ACCESS then (PGranted None, s)
     else if rule_matches s (pr_action_type args) (pr_target args)
     then (PGranted (Some ALWAYS_ALLOW), audit_permission args ''allow'' ''always_allow'' s)
     else
       let request = args\<lparr>pr_agent_name := pr_agent_code args, pr_status := PPENDING, pr_created_at := now, pr_expires_at := now + ps_timeout s\<rparr>;
           pending = \<lparr>pp_request = request, pp_event = False, pp_decision = None, pp_timed_out = False\<rparr>
       in (PWaiting, s\<lparr>ps_pending := AList.update (pr_id args) pending (ps_pending s)\<rparr>))"

definition pop_pending :: "uuid \<Rightarrow> permission_state \<Rightarrow> permission_state" where
  "pop_pending k s = s\<lparr>ps_pending := AList.delete k (ps_pending s)\<rparr>"

text \<open>The continuation after the event: \<^const>\<open>None\<close> when this coroutine cannot run now.\<close>

definition permission_resume ::
  "uuid \<Rightarrow> permission_state \<Rightarrow> (permission_result \<times> permission_state) option" where
  "permission_resume k s =
    (case map_of (ps_pending s) k of
       None \<Rightarrow> None
     | Some p \<Rightarrow>
         if \<not> pp_event p \<or> pp_timed_out p then None
         else let s' = pop_pending k s in
           Some (if ps_mode s = FULL_ACCESS then (PGranted None, s')
                 else (case pp_decision p of
                   Some d \<Rightarrow>
                     if d \<in> {ALLOW_ONCE, ALWAYS_ALLOW}
                     then (PGranted (Some d), audit_permission (pp_request p) ''allow'' (choice_value d) s')
                     else (PUserRejected, audit_permission (pp_request p) ''deny'' ''user_rejected'' s')
                 | None \<Rightarrow> (PUserRejected, audit_permission (pp_request p) ''deny'' ''user_rejected'' s'))))"

definition permission_expire :: "uuid \<Rightarrow> permission_state \<Rightarrow> permission_state option" where
  "permission_expire k s =
    (case map_of (ps_pending s) k of
       None \<Rightarrow> None
     | Some p \<Rightarrow>
         if pp_event p \<or> pp_timed_out p then None
         else let p' = p\<lparr>pp_request := (pp_request p)\<lparr>pr_status := PEXPIRED\<rparr>, pp_timed_out := True\<rparr>
              in Some (audit_permission (pp_request p) ''deny'' ''expired''
                   (s\<lparr>ps_pending := AList.update k p' (ps_pending s)\<rparr>)))"

definition permission_cleanup ::
  "uuid \<Rightarrow> permission_state \<Rightarrow> (permission_result \<times> permission_state) option" where
  "permission_cleanup k s =
    (case map_of (ps_pending s) k of
       Some p \<Rightarrow> if pp_timed_out p then Some (PTimeout, pop_pending k s) else None
     | None \<Rightarrow> None)"

definition list_pending :: "int \<Rightarrow> datetime \<Rightarrow> permission_state \<Rightarrow> permission_request list" where
  "list_pending requester_id now s =
     sort_key pr_created_at
       (filter (\<lambda>r. pr_requester_id r = requester_id \<and> now < pr_expires_at r)
         (map (pp_request \<circ> snd) (ps_pending s)))"

text \<open>\<^const>\<open>None\<close> as the first component is the \<^verbatim>\<open>FileNotFoundError\<close>.\<close>

definition permission_decide ::
  "uuid \<Rightarrow> int \<Rightarrow> permission_choice \<Rightarrow> permission_state \<Rightarrow> permission_request option \<times> permission_state" where
  "permission_decide k requester_id decision s =
    (case map_of (ps_pending s) k of
       None \<Rightarrow> (None, s)
     | Some p \<Rightarrow>
         if pr_requester_id (pp_request p) \<noteq> requester_id then (None, s)
         else
           let s1 = (if decision = ALWAYS_ALLOW
                     then add_rule (pr_action_type (pp_request p)) (pr_target (pp_request p)) s else s);
               request = (pp_request p)\<lparr>pr_status := (if decision = REJECT then PREJECTED else PALLOWED)\<rparr>;
               p' = p\<lparr>pp_request := request, pp_event := True, pp_decision := Some decision\<rparr>
           in (Some request, s1\<lparr>ps_pending := AList.update k p' (ps_pending s1)\<rparr>))"

definition release_pending :: "pending_permission \<Rightarrow> pending_permission" where
  "release_pending p =
     p\<lparr>pp_request := (pp_request p)\<lparr>pr_status := PALLOWED\<rparr>, pp_event := True, pp_decision := Some ALLOW_ONCE\<rparr>"

definition update_mode :: "permission_mode \<Rightarrow> permission_state \<Rightarrow> permission_state" where
  "update_mode new_mode s =
    (let s1 = s\<lparr>ps_mode := new_mode\<rparr>
     in if new_mode = FULL_ACCESS
        then s1\<lparr>ps_pending := map (\<lambda>(k, p). (k, release_pending p)) (ps_pending s1)\<rparr>
        else s1)"

section \<open>Lookups after every operation\<close>

definition lookup_pending :: "permission_state \<Rightarrow> uuid \<Rightarrow> pending_permission option" where
  "lookup_pending s k = map_of (ps_pending s) k"

lemma audit_fields [simp]:
  "ps_pending (audit_permission r e src s) = ps_pending s"
  "ps_mode (audit_permission r e src s) = ps_mode s"
  "ps_rules (audit_permission r e src s) = ps_rules s"
  "ps_timeout (audit_permission r e src s) = ps_timeout s"
  by (simp_all add: audit_permission_def)

lemma add_rule_fields [simp]:
  "ps_pending (add_rule a t s) = ps_pending s"
  "ps_mode (add_rule a t s) = ps_mode s"
  "ps_audit (add_rule a t s) = ps_audit s"
  by (simp_all add: add_rule_def)

lemma pop_fields [simp]:
  "ps_mode (pop_pending k s) = ps_mode s" "ps_rules (pop_pending k s) = ps_rules s"
  by (simp_all add: pop_pending_def)

lemma lookup_pop [simp]: "lookup_pending (pop_pending k s) j = (if j = k then None else lookup_pending s j)"
  by (simp add: lookup_pending_def pop_pending_def delete_conv')

lemma lookup_upd [simp]:
  "lookup_pending (s\<lparr>ps_pending := AList.update k p xs\<rparr>) j =
     (if j = k then Some p else map_of xs j)"
  by (simp add: lookup_pending_def update_conv')

lemma lookup_audit [simp]: "lookup_pending (audit_permission r e src s) = lookup_pending s"
  by (simp add: lookup_pending_def fun_eq_iff)

lemma lookup_mode: "lookup_pending (update_mode m s) k =
    (if m = FULL_ACCESS then map_option release_pending (lookup_pending s k) else lookup_pending s k)"
  by (simp add: update_mode_def lookup_pending_def Let_def map_of_map)

lemma mode_update_mode: "ps_mode (update_mode m s) = m"
  by (simp add: update_mode_def Let_def)

lemma rule_matches_add: "rule_matches (add_rule a t s) a' t' \<longleftrightarrow> (a' = a \<and> t' = t) \<or> rule_matches s a' t'"
  by (auto simp: add_rule_def rule_matches_def load_rules_def)

definition rules_distinct :: "permission_state \<Rightarrow> bool" where
  "rules_distinct s \<longleftrightarrow> distinct (load_rules s)"

lemma rules_distinct_add [inv_intros]: "rules_distinct s \<Longrightarrow> rules_distinct (add_rule a t s)"
  by (auto simp: rules_distinct_def add_rule_def rule_matches_def load_rules_def)

section \<open>Runs\<close>

datatype permission_op =
    PBegin permission_request datetime
  | PDecide uuid int permission_choice
  | PMode permission_mode
  | PResume uuid
  | PExpire uuid
  | PCleanup uuid
  | PClear

text \<open>One step; a step that is not enabled changes nothing.\<close>

fun permission_exec ::
  "permission_op \<Rightarrow> permission_state \<Rightarrow> permission_result option \<times> permission_state" where
  "permission_exec (PBegin args now) s = (let (r, s') = permission_begin args now s in (Some r, s'))"
| "permission_exec (PDecide k requester d) s = (None, snd (permission_decide k requester d s))"
| "permission_exec (PMode m) s = (None, update_mode m s)"
| "permission_exec (PResume k) s =
    (case permission_resume k s of None \<Rightarrow> (None, s) | Some (r, s') \<Rightarrow> (Some r, s'))"
| "permission_exec (PExpire k) s =
    (case permission_expire k s of None \<Rightarrow> (None, s) | Some s' \<Rightarrow> (None, s'))"
| "permission_exec (PCleanup k) s =
    (case permission_cleanup k s of None \<Rightarrow> (None, s) | Some (r, s') \<Rightarrow> (Some r, s'))"
| "permission_exec PClear s = (None, snd (clear_rules s))"

text \<open>The states a service started without requests, rules or full access can be in, with the
  operations executed so far, the latest first.\<close>

inductive permission_reach :: "permission_op list \<Rightarrow> permission_state \<Rightarrow> bool" where
  start: "ps_pending s = [] \<Longrightarrow> load_rules s = [] \<Longrightarrow> ps_mode s = NORMAL \<Longrightarrow> permission_reach [] s"
| step: "permission_reach h s \<Longrightarrow> permission_reach (x # h) (snd (permission_exec x s))"

definition asked :: "permission_op list \<Rightarrow> uuid \<Rightarrow> int \<Rightarrow> string \<Rightarrow> string \<Rightarrow> bool" where
  "asked h k requester a t \<longleftrightarrow>
     (\<exists>args now. PBegin args now \<in> set h \<and> pr_id args = k \<and> pr_requester_id args = requester \<and>
        pr_action_type args = a \<and> pr_target args = t)"

definition pending_justified :: "permission_op list \<Rightarrow> uuid \<Rightarrow> pending_permission \<Rightarrow> bool" where
  "pending_justified h k p \<longleftrightarrow>
     (let r = pp_request p in
      asked h k (pr_requester_id r) (pr_action_type r) (pr_target r) \<and>
      (\<forall>d. pp_decision p = Some d \<longrightarrow>
         PDecide k (pr_requester_id r) d \<in> set h \<or> (d = ALLOW_ONCE \<and> PMode FULL_ACCESS \<in> set h)))"

definition rule_justified :: "permission_op list \<Rightarrow> permission_rule \<Rightarrow> bool" where
  "rule_justified h rule \<longleftrightarrow>
     (\<exists>k requester. asked h k requester (fst rule) (snd rule) \<and> PDecide k requester ALWAYS_ALLOW \<in> set h)"

definition justified :: "permission_op list \<Rightarrow> permission_state \<Rightarrow> bool" where
  "justified h s \<longleftrightarrow>
     (\<forall>k p. lookup_pending s k = Some p \<longrightarrow> pending_justified h k p) \<and>
     (\<forall>rule\<in>set (load_rules s). rule_justified h rule) \<and>
     (ps_mode s = FULL_ACCESS \<longrightarrow> PMode FULL_ACCESS \<in> set h)"

lemma asked_mono: "asked h k r a t \<Longrightarrow> asked (x # h) k r a t"
  by (auto simp: asked_def)

lemma pending_justified_mono: "pending_justified h k p \<Longrightarrow> pending_justified (x # h) k p"
  by (auto simp: pending_justified_def Let_def asked_mono)

lemma rule_justified_mono: "rule_justified h r \<Longrightarrow> rule_justified (x # h) r"
  unfolding rule_justified_def using asked_mono by (meson list.set_intros(2))

lemmas justified_mono = asked_mono pending_justified_mono rule_justified_mono

text \<open>A step that keeps mode and rules and changes pending entries only in justified ways.\<close>

lemma justifiedI:
  assumes "justified h s" and "ps_mode s' = ps_mode s \<or> PMode FULL_ACCESS \<in> set (x # h)  \<or> ps_mode s' = NORMAL"
    and "\<And>k p. lookup_pending s' k = Some p \<Longrightarrow> pending_justified (x # h) k p"
    and "\<And>rule. rule \<in> set (load_rules s') \<Longrightarrow> rule_justified (x # h) rule"
  shows "justified (x # h) s'"
  using assms by (auto simp: justified_def)

lemma load_rules_simps [simp]:
  "load_rules (audit_permission r e src s) = load_rules s"
  "load_rules (pop_pending k s) = load_rules s"
  "load_rules (s\<lparr>ps_pending := xs\<rparr>) = load_rules s"
  "load_rules (s\<lparr>ps_mode := m\<rparr>) = load_rules s"
  by (simp_all add: load_rules_def)

lemma begin_keeps:
  "ps_mode (snd (permission_begin args now s)) = ps_mode s"
  "load_rules (snd (permission_begin args now s)) = load_rules s"
  by (simp_all add: permission_begin_def Let_def)

lemma justified_begin:
  assumes "justified h s"
  shows "justified (PBegin args now # h) (snd (permission_begin args now s))"
proof (rule justifiedI[OF assms])
  fix k p
  assume "lookup_pending (snd (permission_begin args now s)) k = Some p"
  then have "lookup_pending s k = Some p \<or>
      (k = pr_id args \<and> pp_decision p = None \<and> pr_requester_id (pp_request p) = pr_requester_id args \<and>
       pr_action_type (pp_request p) = pr_action_type args \<and> pr_target (pp_request p) = pr_target args)"
    by (auto simp: permission_begin_def Let_def lookup_pending_def update_conv' split: if_splits)
  then show "pending_justified (PBegin args now # h) k p"
  proof
    assume "lookup_pending s k = Some p"
    with assms show ?thesis by (simp add: justified_def pending_justified_mono)
  qed (auto simp: pending_justified_def asked_def Let_def)
qed (use assms in \<open>auto simp: begin_keeps justified_def justified_mono\<close>)

lemma justified_decide:
  assumes "justified h s"
  shows "justified (PDecide j requester d # h) (snd (permission_decide j requester d s))"
proof (cases "lookup_pending s j")
  case None
  with assms show ?thesis
    by (auto simp: permission_decide_def lookup_pending_def justified_def justified_mono)
next
  case (Some p)
  then have j: "pending_justified h j p" using assms by (simp add: justified_def)
  show ?thesis
  proof (cases "pr_requester_id (pp_request p) = requester")
    case False
    with Some assms show ?thesis
      by (auto simp: permission_decide_def lookup_pending_def justified_def justified_mono)
  next
    case True
    show ?thesis
    proof (rule justifiedI[OF assms])
      fix k q
      assume "lookup_pending (snd (permission_decide j requester d s)) k = Some q"
      with Some True assms j show "pending_justified (PDecide j requester d # h) k q"
        by (auto simp: permission_decide_def lookup_pending_def justified_def Let_def
            pending_justified_def asked_mono update_conv' split: if_splits)
    next
      fix rule
      assume "rule \<in> set (load_rules (snd (permission_decide j requester d s)))"
      with Some True have "rule \<in> set (load_rules s) \<or>
          (d = ALWAYS_ALLOW \<and> rule = (pr_action_type (pp_request p), pr_target (pp_request p)))"
        by (auto simp: permission_decide_def lookup_pending_def Let_def add_rule_def load_rules_def
            split: if_splits)
      then show "rule_justified (PDecide j requester d # h) rule"
      proof
        assume "rule \<in> set (load_rules s)"
        with assms show ?thesis by (simp add: justified_def rule_justified_mono)
      next
        assume rule: "d = ALWAYS_ALLOW \<and> rule = (pr_action_type (pp_request p), pr_target (pp_request p))"
        have "asked h j requester (pr_action_type (pp_request p)) (pr_target (pp_request p))"
          using j True by (simp add: pending_justified_def Let_def)
        with rule show ?thesis
          unfolding rule_justified_def by (metis asked_mono fst_conv snd_conv list.set_intros(1))
      qed
    qed (use Some True in \<open>auto simp: permission_decide_def lookup_pending_def Let_def\<close>)
  qed
qed

lemma justified_mode:
  assumes "justified h s"
  shows "justified (PMode m # h) (update_mode m s)"
proof (rule justifiedI[OF assms])
  show "ps_mode (update_mode m s) = ps_mode s \<or> PMode FULL_ACCESS \<in> set (PMode m # h) \<or>
      ps_mode (update_mode m s) = NORMAL"
    by (cases m) (simp_all add: update_mode_def Let_def)
next
  fix k p
  assume "lookup_pending (update_mode m s) k = Some p"
  with assms show "pending_justified (PMode m # h) k p"
    by (auto simp: lookup_mode justified_def pending_justified_def release_pending_def Let_def
        asked_mono split: if_splits)
next
  fix rule
  assume "rule \<in> set (load_rules (update_mode m s))"
  with assms show "rule_justified (PMode m # h) rule"
    by (auto simp: update_mode_def Let_def justified_def rule_justified_mono split: if_splits)
qed

lemma justified_pop:
  assumes "justified h s"
  shows "justified (x # h) (pop_pending k s)" "justified (x # h) (audit_permission r e src (pop_pending k s))"
  using assms by (auto simp: justified_def justified_mono)

lemma justified_id: "justified h s \<Longrightarrow> justified (x # h) s"
  by (auto simp: justified_def justified_mono)

lemma justified_expire:
  assumes "justified h s"
  shows "justified (PExpire k # h) (snd (permission_exec (PExpire k) s))"
proof (cases "permission_expire k s")
  case None
  with assms show ?thesis by (simp add: justified_id)
next
  case (Some s')
  show ?thesis
  proof (rule justifiedI[OF assms])
    fix j p
    assume p: "lookup_pending (snd (permission_exec (PExpire k) s)) j = Some p"
    from Some obtain q where q: "lookup_pending s k = Some q"
      and s': "lookup_pending s' j = (if j = k then
          Some (q\<lparr>pp_request := (pp_request q)\<lparr>pr_status := PEXPIRED\<rparr>, pp_timed_out := True\<rparr>)
        else lookup_pending s j)"
      by (auto simp: permission_expire_def Let_def lookup_pending_def update_conv' split: option.splits if_splits)
    have "pending_justified h j p"
    proof (cases "j = k")
      case True
      with assms q have "pending_justified h j q" by (simp add: justified_def)
      with True p Some s' show ?thesis by (auto simp: pending_justified_def Let_def)
    next
      case False
      with assms p Some s' show ?thesis by (simp add: justified_def)
    qed
    then show "pending_justified (PExpire k # h) j p" by (rule pending_justified_mono)
  next
    fix rule
    assume "rule \<in> set (load_rules (snd (permission_exec (PExpire k) s)))"
    with Some assms show "rule_justified (PExpire k # h) rule"
      by (auto simp: permission_expire_def justified_def Let_def rule_justified_mono
          split: option.splits if_splits)
  qed (use Some in \<open>auto simp: permission_expire_def Let_def split: option.splits if_splits\<close>)
qed

lemma justified_exec [inv_intros]:
  assumes "justified h s"
  shows "justified (x # h) (snd (permission_exec x s))"
proof (cases x)
  case (PResume k)
  with assms show ?thesis
    by (auto simp: permission_resume_def Let_def justified_pop justified_id split: option.splits)
next
  case (PCleanup k)
  with assms show ?thesis
    by (auto simp: permission_cleanup_def justified_pop justified_id split: option.splits)
next
  case PClear
  with assms show ?thesis
    by (auto simp: clear_rules_def justified_def load_rules_def lookup_pending_def justified_mono)
next
  case (PExpire k)
  with justified_expire[OF assms] show ?thesis by simp
qed (use assms in \<open>simp_all add: justified_begin justified_decide justified_mode case_prod_beta Let_def\<close>)

lemma reach_justified: "permission_reach h s \<Longrightarrow> justified h s"
proof (induction rule: permission_reach.induct)
  case (start s)
  then show ?case by (simp add: justified_def lookup_pending_def)
qed (rule justified_exec)

section \<open>The promises of the service\<close>

lemma begin_granted:
  "fst (permission_begin args now s) = PGranted src \<longleftrightarrow>
     (ps_mode s = FULL_ACCESS \<and> src = None) \<or>
     (ps_mode s \<noteq> FULL_ACCESS \<and> src = Some ALWAYS_ALLOW \<and>
      rule_matches s (pr_action_type args) (pr_target args))"
  by (auto simp: permission_begin_def Let_def)

lemma resume_granted:
  "map_option fst (permission_resume k s) = Some (PGranted src) \<longleftrightarrow>
     (\<exists>p. lookup_pending s k = Some p \<and> pp_event p \<and> \<not> pp_timed_out p \<and>
       (if ps_mode s = FULL_ACCESS then src = None
        else src = pp_decision p \<and> pp_decision p \<in> {Some ALLOW_ONCE, Some ALWAYS_ALLOW}))"
  by (auto simp: permission_resume_def lookup_pending_def Let_def split: option.splits)

text \<open>C6. No operation is granted without the requester: in every run of a service that starts
  in normal mode without requests and rules, a grant of a request is due to full access having
  been switched on, to the requester's own decision on this request, or to a rule the requester
  of an earlier request for the same action and target made by choosing to always allow it.\<close>

theorem grants_are_justified:
  assumes "permission_reach h s"
  shows "(fst (permission_exec (PBegin args now) s) = Some (PGranted src) \<longrightarrow>
      PMode FULL_ACCESS \<in> set h \<or>
      (\<exists>k requester. asked h k requester (pr_action_type args) (pr_target args) \<and>
         PDecide k requester ALWAYS_ALLOW \<in> set h)) \<and>
    (fst (permission_exec (PResume k) s) = Some (PGranted src) \<longrightarrow>
      PMode FULL_ACCESS \<in> set h \<or>
      (\<exists>requester a t d. asked h k requester a t \<and> PDecide k requester d \<in> set h \<and> d \<noteq> REJECT))"
proof (intro conjI impI)
  note j = reach_justified[OF assms]
  assume "fst (permission_exec (PBegin args now) s) = Some (PGranted src)"
  then have "fst (permission_begin args now s) = PGranted src" by (simp add: case_prod_beta Let_def)
  then show "PMode FULL_ACCESS \<in> set h \<or>
      (\<exists>k requester. asked h k requester (pr_action_type args) (pr_target args) \<and>
         PDecide k requester ALWAYS_ALLOW \<in> set h)"
    using j by (auto simp: begin_granted justified_def rule_matches_def rule_justified_def)
next
  note j = reach_justified[OF assms]
  assume "fst (permission_exec (PResume k) s) = Some (PGranted src)"
  then have "map_option fst (permission_resume k s) = Some (PGranted src)"
    by (auto split: option.splits)
  then obtain p where p: "lookup_pending s k = Some p"
    and d: "ps_mode s = FULL_ACCESS \<or> pp_decision p \<in> {Some ALLOW_ONCE, Some ALWAYS_ALLOW}"
    unfolding resume_granted by (auto split: if_splits)
  from j p have "pending_justified h k p" by (simp add: justified_def)
  with d j show "PMode FULL_ACCESS \<in> set h \<or>
      (\<exists>requester a t d. asked h k requester a t \<and> PDecide k requester d \<in> set h \<and> d \<noteq> REJECT)"
    by (force simp: justified_def pending_justified_def Let_def)
qed

definition sample_permission :: permission_request where
  "sample_permission = \<lparr>pr_id = 4, pr_session_id = ''s'', pr_agent_code = ''cpe'', pr_agent_name = ''cpe'', pr_requester_id = 9,
     pr_action_type = ''host.exec'', pr_target = ''local'', pr_reason = ''r'', pr_risk_level = L2, pr_details = [],
     pr_status = PPENDING, pr_created_at = 0, pr_expires_at = 0\<rparr>"

definition sample_permission_state :: permission_state where
  "sample_permission_state = \<lparr>ps_mode = NORMAL, ps_timeout = 300, ps_rules = None, ps_pending = [], ps_audit = []\<rparr>"

lemmas permission_eval = permission_begin_def permission_decide_def permission_resume_def
  rule_matches_def load_rules_def add_rule_def audit_permission_def pop_pending_def
  sample_permission_def sample_permission_state_def Let_def

definition sample_waiting :: permission_state where
  "sample_waiting = snd (permission_exec (PBegin sample_permission 0) sample_permission_state)"

lemma sample_waiting_eq:
  "sample_waiting = sample_permission_state\<lparr>ps_pending :=
     [(4, \<lparr>pp_request = sample_permission\<lparr>pr_expires_at := 300\<rparr>, pp_event = False,
           pp_decision = None, pp_timed_out = False\<rparr>)]\<rparr>"
  by (simp add: sample_waiting_def permission_eval)

lemma sample_decided:
  "permission_decide 4 9 ALLOW_ONCE sample_waiting =
    (Some (sample_permission\<lparr>pr_expires_at := 300, pr_status := PALLOWED\<rparr>),
     sample_permission_state\<lparr>ps_pending :=
       [(4, \<lparr>pp_request = sample_permission\<lparr>pr_expires_at := 300, pr_status := PALLOWED\<rparr>,
             pp_event = True, pp_decision = Some ALLOW_ONCE, pp_timed_out = False\<rparr>)]\<rparr>)"
  unfolding sample_waiting_eq permission_decide_def
  by (simp add: sample_permission_def sample_permission_state_def Let_def)

lemma exec_resume_fst:
  "fst (permission_exec (PResume k) s) = map_option fst (permission_resume k s)"
  by (auto split: option.splits)

lemma sample_resumed:
  "map_option fst (permission_resume 4 (snd (permission_decide 4 9 ALLOW_ONCE sample_waiting))) =
     Some (PGranted (Some ALLOW_ONCE))"
  by (simp only: sample_decided snd_conv permission_resume_def)
    (simp add: sample_permission_state_def Let_def)

theorem grants_are_justified_witness:
  "\<exists>h s. permission_reach h s \<and> h = [PDecide 4 9 ALLOW_ONCE, PBegin sample_permission 0] \<and>
     fst (permission_exec (PResume 4) s) = Some (PGranted (Some ALLOW_ONCE)) \<and>
     (PMode FULL_ACCESS \<in> set h \<or>
      (\<exists>requester a t d. asked h 4 requester a t \<and> PDecide 4 requester d \<in> set h \<and> d \<noteq> REJECT))"
proof -
  let ?s = "snd (permission_exec (PDecide 4 9 ALLOW_ONCE) sample_waiting)"
  have start: "permission_reach [] sample_permission_state"
    by (rule permission_reach.start) (simp_all add: sample_permission_state_def load_rules_def)
  have reach: "permission_reach [PDecide 4 9 ALLOW_ONCE, PBegin sample_permission 0] ?s"
    unfolding sample_waiting_def by (intro permission_reach.step start)
  have granted: "fst (permission_exec (PResume 4) ?s) = Some (PGranted (Some ALLOW_ONCE))"
    unfolding exec_resume_fst permission_exec.simps(2) snd_conv by (rule sample_resumed)
  note due = grants_are_justified[OF reach, THEN conjunct2, THEN mp, OF granted]
  show ?thesis by (rule exI, rule exI, rule conjI[OF reach], rule conjI[OF refl], rule conjI[OF granted due])
qed



end
