(* ===== verification/Guard.thy ===== *)
theory Guard
  imports Urls Permissions Json
begin

text \<open>
  The execution guard, \<^verbatim>\<open>src/core/execution_guard.py\<close>: the checks a tool call passes before it
  touches the network or the host.  The two \<^verbatim>\<open>_runtime\<close> functions may suspend in
  \<^verbatim>\<open>require_permission\<close>; they are their part before the suspension, whose answer says whether
  the user must be asked, and their part after it.
\<close>

record guard_context =
  gc_session_id :: string
  gc_agent_code :: string
  gc_user_id :: int
  gc_work_project_id :: "int option"
  gc_allowed_targets :: "string list"
  gc_allowed_action_types :: "string list"
  gc_scope_id :: string

record execution_entry =
  ex_session_id :: string
  ex_agent_code :: string
  ex_scope_id :: string
  ex_action_type :: string
  ex_target :: string
  ex_effect :: string
  ex_reason_codes :: "string list"

datatype guard_error =
    EmptyTarget
  | NoDeclaredTarget
  | TargetOutOfScope
  | PolicyRefused "string list"
  | LocalNotAuthorized
  | BadTarget
  | InvalidAction

text \<open>The parameters: the validity of a bracketed host and the name-based UUIDs.\<close>

record guard_env =
  ge_bracket_ok :: "string \<Rightarrow> bool"
  ge_uuid5 :: "string \<Rightarrow> uuid"

fun effect_value :: "policy_effect \<Rightarrow> string" where
  "effect_value ALLOW = ''allow''"
| "effect_value REQUIRE_APPROVAL = ''require_approval''"
| "effect_value DENY = ''deny''"

definition guard_entry :: "guard_context \<Rightarrow> string \<Rightarrow> string \<Rightarrow> string \<Rightarrow> string list \<Rightarrow> execution_entry" where
  "guard_entry ctx action_type target effect reasons =
     \<lparr>ex_session_id = gc_session_id ctx, ex_agent_code = gc_agent_code ctx, ex_scope_id = gc_scope_id ctx,
      ex_action_type = action_type, ex_target = target, ex_effect = effect, ex_reason_codes = reasons\<rparr>"

definition target_id :: "guard_env \<Rightarrow> string \<Rightarrow> uuid option" where
  "target_id ge target = target_uuid (ge_bracket_ok ge) show_nat (ge_uuid5 ge) target"

text \<open>\<^verbatim>\<open>{target_id(item) for item in context.allowed_targets}\<close>; the first error propagates.\<close>

fun target_ids :: "guard_env \<Rightarrow> string list \<Rightarrow> uuid list option" where
  "target_ids ge [] = Some []"
| "target_ids ge (t # ts) =
    (case target_id ge t of None \<Rightarrow> None | Some u \<Rightarrow> map_option (Cons u) (target_ids ge ts))"

definition network_scope :: "guard_context \<Rightarrow> string \<Rightarrow> uuid list \<Rightarrow> authorization_scope" where
  "network_scope ctx action_type ids =
     \<lparr>as_allowed_target_ids = ids,
      as_allowed_action_types =
        (if gc_allowed_action_types ctx = [] then [action_type] else gc_allowed_action_types ctx),
      as_maximum_risk_level = L1, as_valid_from = None, as_valid_until = None,
      as_max_load_test_rps = None, as_max_load_test_concurrency = None,
      as_max_load_test_duration_seconds = None\<rparr>"

definition network_action ::
  "guard_env \<Rightarrow> guard_context \<Rightarrow> string \<Rightarrow> string \<Rightarrow> risk_level \<Rightarrow> uuid \<Rightarrow> uuid \<Rightarrow> proposed_action" where
  "network_action ge ctx action_type normalized risk tid fresh_id =
     \<lparr>pa_id = fresh_id, pa_project_id = or_else_int (gc_work_project_id ctx) 1,
      pa_incident_id = ge_uuid5 ge (gc_session_id ctx), pa_target_id = tid,
      pa_action_type = action_type, pa_arguments = [(''target'', normalized)], pa_risk_level = risk,
      pa_reason = ''agent tool '' @ action_type, pa_is_write = False, pa_is_load_test = False,
      pa_prechecks = [], pa_verification_steps = [], pa_rollback_steps = [], pa_requested_rps = None,
      pa_requested_concurrency = None, pa_requested_duration_seconds = None\<rparr>"

definition authorize_network_action ::
  "guard_env \<Rightarrow> guard_context \<Rightarrow> string \<Rightarrow> string \<Rightarrow> risk_level \<Rightarrow> uuid \<Rightarrow> datetime
     \<Rightarrow> (guard_error + unit) \<times> execution_entry list" where
  "authorize_network_action ge ctx action_type target risk fresh_id now =
    (let normalized = str_strip target in
     if normalized = [] then (Inl EmptyTarget, [])
     else if gc_allowed_targets ctx = [] then (Inl NoDeclaredTarget, [])
     else (case any_same_target (ge_bracket_ok ge) normalized (gc_allowed_targets ctx) of
       None \<Rightarrow> (Inl BadTarget, [])
     | Some False \<Rightarrow>
         (Inl TargetOutOfScope, [guard_entry ctx action_type normalized ''deny'' [''target_out_of_scope'']])
     | Some True \<Rightarrow>
         (case target_ids ge (gc_allowed_targets ctx) of
            None \<Rightarrow> (Inl BadTarget, [])
          | Some ids \<Rightarrow>
         (case target_id ge normalized of
            None \<Rightarrow> (Inl BadTarget, [])
          | Some tid \<Rightarrow>
         (case make_action (network_action ge ctx action_type normalized risk tid fresh_id) of
            None \<Rightarrow> (Inl InvalidAction, [])
          | Some action \<Rightarrow>
              let decision = evaluate_action action (network_scope ctx action_type ids) TEST now;
                  entry = guard_entry ctx action_type normalized (effect_value (pd_effect decision))
                            (pd_reason_codes decision)
              in (if pd_effect decision \<noteq> ALLOW then Inl (PolicyRefused (pd_reason_codes decision)) else Inr (),
                  [entry]))))))"

section \<open>The runtime variants\<close>

datatype guard_answer = Proceed | AskUser string | Refuse guard_error

text \<open>\<^verbatim>\<open>authorize_network_action_runtime\<close> up to \<^verbatim>\<open>require_permission\<close>.\<close>

definition network_runtime_begin ::
  "guard_env \<Rightarrow> permission_mode \<Rightarrow> guard_context \<Rightarrow> string \<Rightarrow> string \<Rightarrow> risk_level
     \<Rightarrow> guard_answer \<times> execution_entry list" where
  "network_runtime_begin ge current_mode ctx action_type target risk =
    (let normalized = str_strip target in
     if normalized = [] then (Refuse EmptyTarget, [])
     else if current_mode = FULL_ACCESS then (Proceed, [])
     else (case any_same_target (ge_bracket_ok ge) normalized (gc_allowed_targets ctx) of
       None \<Rightarrow> (Refuse BadTarget, [])
     | Some declared \<Rightarrow>
         let allowed = gc_allowed_action_types ctx in
         if \<not> declared \<or> (allowed \<noteq> [] \<and> action_type \<notin> set allowed) \<or> risk \<in> {L2, L3}
         then (AskUser normalized, [])
         else (Proceed, [guard_entry ctx action_type normalized ''allow'' [''scope_and_policy_satisfied'']])))"

text \<open>The part after \<^verbatim>\<open>require_permission\<close> returned a grant source.\<close>

definition runtime_finish ::
  "permission_mode \<Rightarrow> guard_context \<Rightarrow> string \<Rightarrow> string \<Rightarrow> permission_choice option \<Rightarrow> execution_entry list" where
  "runtime_finish current_mode ctx action_type target source =
    (if current_mode = FULL_ACCESS then []
     else [guard_entry ctx action_type target ''allow''
            [case source of None \<Rightarrow> ''runtime_permission'' | Some c \<Rightarrow> choice_value c]])"

definition authorize_local_diagnostic ::
  "guard_context \<Rightarrow> string \<Rightarrow> (guard_error + unit) \<times> execution_entry list" where
  "authorize_local_diagnostic ctx action_type =
    (if action_type \<notin> set (''host.local.diagnostic'' # gc_allowed_action_types ctx)
     then (Inl LocalNotAuthorized, [])
     else (Inr (), [guard_entry ctx action_type ''local://workspace'' ''allow'' [''scope_and_policy_satisfied'']]))"

definition local_runtime_begin ::
  "permission_mode \<Rightarrow> guard_context \<Rightarrow> string \<Rightarrow> string \<Rightarrow> risk_level \<Rightarrow> guard_answer \<times> execution_entry list" where
  "local_runtime_begin current_mode ctx action_type target risk =
    (if current_mode = FULL_ACCESS then (Proceed, [])
     else if risk \<in> {L2, L3} then (AskUser target, [])
     else (case authorize_local_diagnostic ctx action_type of
             (Inl e, log) \<Rightarrow> (Refuse e, log)
           | (Inr _, log) \<Rightarrow> (Proceed, log)))"

section \<open>What a passed guard means\<close>

lemma make_action_Some:
  "make_action raw = Some a \<Longrightarrow>
     a = raw\<lparr>pa_action_type := str_strip (pa_action_type raw), pa_reason := str_strip (pa_reason raw)\<rparr> \<and> valid_action a"
  by (simp add: make_action_def Let_def split: if_splits)

lemma network_policy_ALLOW:
  assumes "make_action (network_action ge ctx action_type t risk tid fresh_id) = Some a"
    and "pd_effect (evaluate_action a (network_scope ctx action_type ids) TEST now) = ALLOW"
  shows "tid \<in> set ids \<and> risk \<le> L1 \<and>
    (gc_allowed_action_types ctx \<noteq> [] \<longrightarrow> str_strip action_type \<in> set (gc_allowed_action_types ctx))"
proof -
  from make_action_Some[OF assms(1)]
  have a: "pa_target_id a = tid" "pa_risk_level a = risk" "pa_action_type a = str_strip action_type"
    by (simp_all add: network_action_def)
  from assms(2) have "admits (network_scope ctx action_type ids) a now"
    by (simp add: evaluate_effect split: if_splits)
  then show ?thesis by (auto simp: admits_def network_scope_def a split: if_splits)
qed

text \<open>C8. A network action the strict guard lets through names a target that matches a declared
  one and whose identifier is a declared identifier, has risk L0 or L1 and an action type the
  context allows, and exactly one audit entry with effect allow was written; a refused action
  never leaves such an entry.\<close>

theorem network_guard_sound:
  "(fst (authorize_network_action ge ctx action_type target risk fresh_id now) = Inr () \<longrightarrow>
     any_same_target (ge_bracket_ok ge) (str_strip target) (gc_allowed_targets ctx) = Some True \<and>
     (\<exists>ids tid. target_ids ge (gc_allowed_targets ctx) = Some ids \<and>
        target_id ge (str_strip target) = Some tid \<and> tid \<in> set ids) \<and>
     risk \<le> L1 \<and>
     (gc_allowed_action_types ctx \<noteq> [] \<longrightarrow> str_strip action_type \<in> set (gc_allowed_action_types ctx))) \<and>
   map ex_effect (filter (\<lambda>e. ex_effect e = ''allow'')
     (snd (authorize_network_action ge ctx action_type target risk fresh_id now))) =
     (if fst (authorize_network_action ge ctx action_type target risk fresh_id now) = Inr ()
      then [''allow''] else [])"
proof (intro conjI impI)
  assume ok: "fst (authorize_network_action ge ctx action_type target risk fresh_id now) = Inr ()"
  let ?t = "str_strip target"
  from ok obtain ids tid a where
    same: "any_same_target (ge_bracket_ok ge) ?t (gc_allowed_targets ctx) = Some True" and
    ids: "target_ids ge (gc_allowed_targets ctx) = Some ids" "target_id ge ?t = Some tid" and
    a: "make_action (network_action ge ctx action_type ?t risk tid fresh_id) = Some a" and
    allow: "pd_effect (evaluate_action a (network_scope ctx action_type ids) TEST now) = ALLOW"
    by (auto simp: authorize_network_action_def Let_def split: if_splits option.splits bool.splits)
  note pol = network_policy_ALLOW[OF a allow]
  from same show "any_same_target (ge_bracket_ok ge) ?t (gc_allowed_targets ctx) = Some True" .
  from ids pol show "\<exists>ids tid. target_ids ge (gc_allowed_targets ctx) = Some ids \<and>
      target_id ge ?t = Some tid \<and> tid \<in> set ids" by blast
  from pol show "risk \<le> L1" by blast
  assume "gc_allowed_action_types ctx \<noteq> []"
  with pol show "str_strip action_type \<in> set (gc_allowed_action_types ctx)" by blast
next
  have eff: "effect_value e = ''allow'' \<longleftrightarrow> e = ALLOW" for e by (cases e) simp_all
  show "map ex_effect (filter (\<lambda>e. ex_effect e = ''allow'')
     (snd (authorize_network_action ge ctx action_type target risk fresh_id now))) =
     (if fst (authorize_network_action ge ctx action_type target risk fresh_id now) = Inr ()
      then [''allow''] else [])"
    by (simp add: authorize_network_action_def Let_def guard_entry_def eff
        split: option.split bool.split)
qed

definition sample_guard :: guard_env where
  "sample_guard = \<lparr>ge_bracket_ok = (\<lambda>n. True), ge_uuid5 = length\<rparr>"

definition sample_guard_context :: guard_context where
  "sample_guard_context = \<lparr>gc_session_id = ''s'', gc_agent_code = ''cpe'', gc_user_id = 1,
     gc_work_project_id = None, gc_allowed_targets = [''http://a:80/x''], gc_allowed_action_types = [],
     gc_scope_id = []\<rparr>"

lemma sample_strip: "str_strip ''http://a:80/x'' = ''http://a:80/x''"
  by (simp add: str_strip_def strip_by_def rstrip_by_def lstrip_by_def py_space_def Let_def)

lemma sample_same_target: "same_target (\<lambda>n. True) ''http://a:80/x'' ''http://a:80/x'' = Some True"
  by (simp add: same_target_def sample_split sample_host sample_port)

lemma sample_target_id: "\<exists>u. target_id sample_guard ''http://a:80/x'' = Some u"
proof -
  have "str_lower ''http://a:80/x'' = ''http://a:80/x''" by (simp add: str_lower_def lower_char_def Let_def)
  then show ?thesis
    by (simp add: target_id_def target_uuid_def canonical_target_def sample_guard_def sample_strip
        sample_split sample_host sample_port)
qed

lemma sample_action_valid:
  "\<exists>a. make_action (network_action sample_guard sample_guard_context ''web.http.health'' t L1 tid n) = Some a \<and>
     pa_target_id a = tid \<and> pa_action_type a = ''web.http.health'' \<and> pa_risk_level a = L1 \<and>
     \<not> pa_is_write a \<and> \<not> pa_is_load_test a"
proof -
  have "str_strip ''web.http.health'' = ''web.http.health''"
    and "str_strip ''agent tool web.http.health'' = ''agent tool web.http.health''"
    by (simp_all add: str_strip_def strip_by_def rstrip_by_def lstrip_by_def py_space_def Let_def)
  moreover have "action_type_scan False False ''web.http.health''"
    by (simp add: alnum_lower_def type_separator_def)
  ultimately show ?thesis
    by (simp add: make_action_def Let_def network_action_def valid_action_def positive_or_none_def
        or_else_int_def sample_guard_context_def)
qed

theorem network_guard_sound_witness:
  "fst (authorize_network_action sample_guard sample_guard_context ''web.http.health'' ''http://a:80/x'' L1 0 0)
     = Inr () \<and> (L1 :: risk_level) \<le> L1 \<and>
   any_same_target (ge_bracket_ok sample_guard) (str_strip ''http://a:80/x'')
     (gc_allowed_targets sample_guard_context) = Some True"
proof -
  let ?t = "''http://a:80/x''" and ?y = "''web.http.health''"
  obtain u where u: "target_id sample_guard ?t = Some u" using sample_target_id by blast
  obtain a where a: "make_action (network_action sample_guard sample_guard_context ?y ?t L1 u 0) = Some a"
    and f: "pa_target_id a = u" "pa_action_type a = ?y" "pa_risk_level a = L1"
      "\<not> pa_is_write a" "\<not> pa_is_load_test a"
    using sample_action_valid by blast
  have "pd_effect (evaluate_action a (network_scope sample_guard_context ?y [u]) TEST 0) = ALLOW"
    using f by (simp add: evaluate_effect admits_def network_scope_def sample_guard_context_def
        requires_approval_iff risk_level_order)
  moreover have "any_same_target (ge_bracket_ok sample_guard) ?t (gc_allowed_targets sample_guard_context) = Some True"
    by (simp add: sample_guard_def sample_guard_context_def sample_same_target)
  moreover have "target_ids sample_guard (gc_allowed_targets sample_guard_context) = Some [u]"
    using u by (simp add: sample_guard_context_def)
  moreover have "gc_allowed_targets sample_guard_context \<noteq> []" by (simp add: sample_guard_context_def)
  ultimately have ok: "fst (authorize_network_action sample_guard sample_guard_context ?y ?t L1 0 0) = Inr ()"
    using u a by (simp add: authorize_network_action_def sample_strip Let_def)
  note res = network_guard_sound[THEN conjunct1, THEN mp, OF ok]
  show ?thesis by (rule conjI[OF ok], rule conjI[OF res[THEN conjunct2, THEN conjunct2, THEN conjunct1]])
    (rule res[THEN conjunct1])
qed

text \<open>The runtime guards let an action pass without asking the user only in full access, or
  when its risk is below L2 and it is in scope: a network action with a declared target and an
  allowed type, a local one with an allowed type or the plain diagnostic.\<close>

theorem runtime_guards_ask:
  "(fst (network_runtime_begin ge current_mode ctx action_type target risk) = Proceed \<longleftrightarrow>
     str_strip target \<noteq> [] \<and>
     (current_mode = FULL_ACCESS \<or>
      (any_same_target (ge_bracket_ok ge) (str_strip target) (gc_allowed_targets ctx) = Some True \<and>
       (gc_allowed_action_types ctx = [] \<or> action_type \<in> set (gc_allowed_action_types ctx)) \<and> risk < L2))) \<and>
   (fst (local_runtime_begin current_mode ctx action_type target risk) = Proceed \<longleftrightarrow>
     current_mode = FULL_ACCESS \<or>
     (risk < L2 \<and> (action_type = ''host.local.diagnostic'' \<or> action_type \<in> set (gc_allowed_action_types ctx))))"
proof (intro conjI)
  have risk: "risk \<notin> {L2, L3} \<longleftrightarrow> risk < L2"
    by (cases risk) (simp_all add: risk_level_order)
  show "fst (network_runtime_begin ge current_mode ctx action_type target risk) = Proceed \<longleftrightarrow>
     str_strip target \<noteq> [] \<and>
     (current_mode = FULL_ACCESS \<or>
      (any_same_target (ge_bracket_ok ge) (str_strip target) (gc_allowed_targets ctx) = Some True \<and>
       (gc_allowed_action_types ctx = [] \<or> action_type \<in> set (gc_allowed_action_types ctx)) \<and> risk < L2))"
    unfolding risk[symmetric]
    by (auto simp: network_runtime_begin_def Let_def split: option.splits)
  show "fst (local_runtime_begin current_mode ctx action_type target risk) = Proceed \<longleftrightarrow>
     current_mode = FULL_ACCESS \<or>
     (risk < L2 \<and> (action_type = ''host.local.diagnostic'' \<or> action_type \<in> set (gc_allowed_action_types ctx)))"
    unfolding risk[symmetric]
    by (auto simp: local_runtime_begin_def authorize_local_diagnostic_def)
qed

end
