(* ===== verification/Registry.thy ===== *)
theory Registry
  imports Policy
begin

text \<open>
  The action registry, \<^verbatim>\<open>src/core/action_registry.py\<close>, with the table of default actions, and
  the fixed order of the operations runtime, \<^verbatim>\<open>src/core/ops_runtime.py\<close>.  A registry is an
  association list in registration order, as the Python dictionary iterates.
\<close>

record action_spec =
  sp_action_type :: string
  sp_platforms :: "string list"
  sp_risk_level :: risk_level
  sp_required_scope :: "string list"
  sp_timeout_seconds :: int
  sp_max_output_bytes :: int
  sp_idempotent :: bool
  sp_requires_backup :: bool
  sp_requires_verification :: bool
  sp_requires_rollback :: bool

type_synonym registry = "(string \<times> action_spec) list"

datatype registry_error = DuplicateAction string | UnknownAction string

definition registry_register :: "registry \<Rightarrow> action_spec \<Rightarrow> registry_error + registry" where
  "registry_register r spec =
    (if sp_action_type spec \<in> set (map fst r) then Inl (DuplicateAction (sp_action_type spec))
     else Inr (r @ [(sp_action_type spec, spec)]))"

fun register_all :: "registry \<Rightarrow> action_spec list \<Rightarrow> registry_error + registry" where
  "register_all r [] = Inr r"
| "register_all r (spec # specs) =
    (case registry_register r spec of Inl e \<Rightarrow> Inl e | Inr r' \<Rightarrow> register_all r' specs)"

definition make_registry :: "action_spec list \<Rightarrow> registry_error + registry" where
  "make_registry specs = register_all [] specs"

definition registry_require :: "registry \<Rightarrow> string \<Rightarrow> registry_error + action_spec" where
  "registry_require r action_type =
    (case map_of r action_type of None \<Rightarrow> Inl (UnknownAction action_type) | Some spec \<Rightarrow> Inr spec)"

definition registry_all :: "registry \<Rightarrow> action_spec list" where
  "registry_all r = map snd r"

text \<open>The constructor call with the three optional flags left out, and with all of them.\<close>

definition spec_full ::
  "string \<Rightarrow> string list \<Rightarrow> risk_level \<Rightarrow> string list \<Rightarrow> int \<Rightarrow> int \<Rightarrow> bool \<Rightarrow> bool \<Rightarrow> bool \<Rightarrow> bool \<Rightarrow> action_spec" where
  "spec_full a ps r sc t m i b v rb =
     \<lparr>sp_action_type = a, sp_platforms = ps, sp_risk_level = r, sp_required_scope = sc,
      sp_timeout_seconds = t, sp_max_output_bytes = m, sp_idempotent = i, sp_requires_backup = b,
      sp_requires_verification = v, sp_requires_rollback = rb\<rparr>"

definition spec ::
  "string \<Rightarrow> string list \<Rightarrow> risk_level \<Rightarrow> string list \<Rightarrow> int \<Rightarrow> int \<Rightarrow> bool \<Rightarrow> action_spec" where
  "spec a ps r sc t m i = spec_full a ps r sc t m i False False False"

definition default_actions :: "action_spec list" where
  "default_actions = [
    spec ''host.local.diagnostic'' [''windows''] L0 [''local''] 30 256000 True,
    spec ''ssh.command'' [''linux''] L1 [''ssh''] 120 512000 False,
    spec ''ssh.shell'' [''linux''] L1 [''ssh''] 0 512000 False,
    spec ''ssh.sftp.list'' [''linux''] L0 [''ssh'', ''file''] 30 256000 True,
    spec_full ''ssh.sftp.upload'' [''linux''] L2 [''ssh'', ''file''] 60 256000 False True True True,
    spec ''ssh.sftp.download'' [''linux''] L1 [''ssh'', ''file''] 60 256000 True,
    spec ''linux.service.status'' [''linux''] L0 [''ssh''] 30 256000 True,
    spec_full ''linux.service.restart'' [''linux''] L2 [''ssh''] 120 256000 False False True True,
    spec ''linux.log.tail'' [''linux''] L0 [''ssh''] 30 512000 True,
    spec ''linux.disk.summary'' [''linux''] L0 [''ssh''] 30 256000 True,
    spec ''linux.network.connections'' [''linux''] L0 [''ssh''] 30 256000 True,
    spec ''windows.service.status'' [''windows''] L0 [''powershell''] 30 256000 True,
    spec_full ''windows.service.restart'' [''windows''] L2 [''powershell''] 120 256000 False False True True,
    spec ''windows.eventlog.query'' [''windows''] L0 [''powershell''] 60 512000 True,
    spec ''windows.file.backup'' [''windows''] L1 [''file''] 60 256000 True,
    spec_full ''windows.file.replace'' [''windows''] L2 [''file''] 60 256000 False True True True,
    spec ''web.http.health'' [''windows'', ''linux''] L0 [''web''] 30 256000 True,
    spec ''web.http.headers'' [''windows'', ''linux''] L1 [''web''] 30 256000 True,
    spec ''web.tls.inspect'' [''windows'', ''linux''] L1 [''web''] 30 256000 True,
    spec ''network.dns.lookup'' [''windows'', ''linux''] L1 [''web''] 30 256000 True,
    spec ''network.ping'' [''windows'', ''linux''] L1 [''web''] 30 256000 True,
    spec ''network.port.probe'' [''windows'', ''linux''] L1 [''web''] 60 256000 True,
    spec ''network.port.quickcheck'' [''windows'', ''linux''] L1 [''web''] 60 256000 True,
    spec ''network.dns.trace'' [''windows'', ''linux''] L1 [''web''] 30 256000 True,
    spec ''web.port.probe'' [''windows'', ''linux''] L1 [''web''] 60 256000 True,
    spec ''web.http.request'' [''windows'', ''linux''] L1 [''web''] 60 512000 True,
    spec ''web.http.probe'' [''windows'', ''linux''] L1 [''web''] 120 512000 True,
    spec ''ops.system.info'' [''windows'', ''linux''] L0 [''local'', ''ssh''] 30 256000 True,
    spec ''ops.disk.usage'' [''windows'', ''linux''] L1 [''file''] 120 512000 True,
    spec ''ops.process.list'' [''windows'', ''linux''] L0 [''local'', ''ssh''] 30 512000 True,
    spec ''ops.net.connections'' [''windows'', ''linux''] L0 [''local'', ''ssh''] 30 512000 True,
    spec ''ops.env.check'' [''windows'', ''linux''] L0 [''local'', ''ssh''] 30 256000 True,
    spec ''file.log.tail'' [''windows'', ''linux''] L1 [''file''] 30 512000 True,
    spec ''file.log.grep'' [''windows'', ''linux''] L1 [''file''] 60 512000 True,
    spec ''file.hash'' [''windows'', ''linux''] L1 [''file''] 60 256000 True,
    spec ''archive.inspect'' [''windows'', ''linux''] L1 [''file''] 60 512000 True,
    spec ''tool.ffuf.run'' [''windows''] L1 [''web'', ''tool''] 300 512000 False,
    spec ''tool.httpx.run'' [''windows''] L1 [''web'', ''tool''] 120 512000 True,
    spec ''tool.dnsx.run'' [''windows''] L1 [''web'', ''tool''] 120 512000 True,
    spec ''tool.subfinder.run'' [''windows''] L1 [''web'', ''tool''] 180 512000 True,
    spec ''tool.nmap.ssh'' [''linux''] L1 [''ssh'', ''tool''] 300 512000 False,
    spec ''load.k6.run'' [''windows'', ''linux''] L2 [''web'', ''load''] 600 512000 False]"

definition default_action_registry :: "registry_error + registry" where
  "default_action_registry = make_registry default_actions"

datatype ops_runtime_node =
    RESOLVE_PROJECT_SCOPE | CLASSIFY_REQUEST_RISK | CREATE_INCIDENT | DELEGATE_DIAGNOSTICS
  | COLLECT_EVIDENCE | PROPOSE_ACTIONS | POLICY_CHECK | APPROVAL_GATE | EXECUTE_ACTION
  | PERSIST_EVIDENCE | BUILD_CHANGESET | VERIFY_CHANGESET | ROLLBACK_CHANGESET
  | GENERATE_INCIDENT_SUMMARY

definition ops_runtime_order :: "ops_runtime_node list" where
  "ops_runtime_order = [RESOLVE_PROJECT_SCOPE, CLASSIFY_REQUEST_RISK, CREATE_INCIDENT,
     DELEGATE_DIAGNOSTICS, COLLECT_EVIDENCE, PROPOSE_ACTIONS, POLICY_CHECK, APPROVAL_GATE,
     EXECUTE_ACTION, PERSIST_EVIDENCE, BUILD_CHANGESET, VERIFY_CHANGESET, ROLLBACK_CHANGESET,
     GENERATE_INCIDENT_SUMMARY]"

section \<open>Registries are faithful to their specifications\<close>

lemma register_all_Inr:
  "register_all r specs = Inr r' \<longleftrightarrow>
     distinct (map sp_action_type specs) \<and> set (map sp_action_type specs) \<inter> set (map fst r) = {} \<and>
     r' = r @ map (\<lambda>s. (sp_action_type s, s)) specs"
  by (induction specs arbitrary: r) (auto simp: registry_register_def)

lemma make_registry_Inr:
  "make_registry specs = Inr r \<longleftrightarrow>
     distinct (map sp_action_type specs) \<and> r = map (\<lambda>s. (sp_action_type s, s)) specs"
  by (auto simp: make_registry_def register_all_Inr)

lemma spec_fields [simp]:
  "sp_action_type (spec a ps r sc t m i) = a"
  "sp_action_type (spec_full a ps r sc t m i b v rb) = a"
  "sp_risk_level (spec a ps r sc t m i) = r"
  "sp_risk_level (spec_full a ps r sc t m i b v rb) = r"
  "sp_requires_rollback (spec a ps r sc t m i) = False"
  "sp_requires_rollback (spec_full a ps r sc t m i b v rb) = rb"
  "sp_requires_verification (spec a ps r sc t m i) = False"
  "sp_requires_verification (spec_full a ps r sc t m i b v rb) = v"
  "sp_requires_backup (spec a ps r sc t m i) = False"
  "sp_requires_backup (spec_full a ps r sc t m i b v rb) = b"
  by (simp_all add: spec_def spec_full_def)

lemma default_types_distinct: "distinct (map sp_action_type default_actions)"
  by (simp add: default_actions_def)

lemma default_registry_Inr:
  "default_action_registry = Inr (map (\<lambda>s. (sp_action_type s, s)) default_actions)"
  by (simp add: default_action_registry_def make_registry_Inr default_types_distinct)

text \<open>Building a registry succeeds exactly when no action type occurs twice; then every
  action type looks up the specification it was registered with, unknown types are refused, and
  the order of registration is kept.\<close>

theorem registry_faithful:
  "(make_registry specs = Inr r \<longrightarrow>
     distinct (map sp_action_type specs) \<and> registry_all r = specs \<and>
     (registry_require r a = Inr s \<longleftrightarrow> s \<in> set specs \<and> sp_action_type s = a) \<and>
     (registry_require r a = Inl (UnknownAction a) \<longleftrightarrow> a \<notin> set (map sp_action_type specs))) \<and>
   (distinct (map sp_action_type specs) \<longrightarrow> (\<exists>r. make_registry specs = Inr r))"
proof (intro conjI impI)
  assume "make_registry specs = Inr r"
  then have d: "distinct (map sp_action_type specs)" and r: "r = map (\<lambda>s. (sp_action_type s, s)) specs"
    by (simp_all add: make_registry_Inr)
  show "distinct (map sp_action_type specs)" by (rule d)
  show "registry_all r = specs" by (simp add: registry_all_def r comp_def)
  have keys: "map fst r = map sp_action_type specs" by (simp add: r comp_def)
  have mem: "map_of r a = Some s \<longleftrightarrow> s \<in> set specs \<and> sp_action_type s = a"
    using d keys by (auto simp: r map_of_eq_Some_iff comp_def)
  then show "registry_require r a = Inr s \<longleftrightarrow> s \<in> set specs \<and> sp_action_type s = a"
    unfolding registry_require_def by (auto split: option.splits)
  have "map_of r a = None \<longleftrightarrow> a \<notin> set (map sp_action_type specs)"
    by (metis keys map_of_eq_None_iff set_map)
  then show "registry_require r a = Inl (UnknownAction a) \<longleftrightarrow> a \<notin> set (map sp_action_type specs)"
    by (cases "map_of r a") (simp_all add: registry_require_def)
qed (simp add: make_registry_Inr)

theorem registry_faithful_witness:
  "registry_all (map (\<lambda>s. (sp_action_type s, s)) default_actions) = default_actions \<and>
   distinct (map sp_action_type default_actions)"
proof -
  have "make_registry default_actions = Inr (map (\<lambda>s. (sp_action_type s, s)) default_actions)"
    using default_registry_Inr by (simp add: default_action_registry_def)
  then show ?thesis
    using registry_faithful[of default_actions "map (\<lambda>s. (sp_action_type s, s)) default_actions" "[]"
        "hd default_actions"] by blast
qed

end
