(* ===== verification/Formats.thy ===== *)
theory Formats
  imports Json
begin

text \<open>
  Message items of the agent SDK as JSON objects: the text extraction of
  \<^verbatim>\<open>src/core/__init__.py\<close> and the canonical forms of application-made context items,
  \<^verbatim>\<open>src/core/conversation/formats.py\<close>.
\<close>

section \<open>Message text\<close>

definition text_content_types :: "string list" where
  "text_content_types = [''input_text'', ''output_text'', ''text'']"

text \<open>The text a content part contributes.\<close>

fun piece_text :: "json \<Rightarrow> string" where
  "piece_text (JObj d) =
    (if dict_get d ''type'' \<in> set (map JStr text_content_types)
     then (case dict_get d ''text'' of JStr t \<Rightarrow> t | _ \<Rightarrow> [])
     else [])"
| "piece_text _ = []"

fun extract_message_text :: "json \<Rightarrow> string" where
  "extract_message_text (JStr s) = s"
| "extract_message_text (JList pieces) = concat (map piece_text pieces)"
| "extract_message_text _ = []"

definition tool_call_id :: "json \<Rightarrow> string" where
  "tool_call_id item =
    (case json_or (json_get item ''call_id'') (json_get item ''id'') of JStr s \<Rightarrow> s | _ \<Rightarrow> [])"

section \<open>Context formats\<close>

definition CONTEXT_SUMMARY_HEADER :: string where
  "CONTEXT_SUMMARY_HEADER = ''# Context Summary''"

definition TASK_RESUMPTION_CONTEXT_HEADER :: string where
  "TASK_RESUMPTION_CONTEXT_HEADER = ''# Task Resumption Context''"

definition CONTEXT_SUMMARY_ITEM_ID :: string where
  "CONTEXT_SUMMARY_ITEM_ID = ''context_summary''"

definition TASK_RESUMPTION_CONTEXT_ITEM_ID :: string where
  "TASK_RESUMPTION_CONTEXT_ITEM_ID = ''task_resumption_context''"

definition context_summary_intro :: string where
  "context_summary_intro = ''This is context, not a new user request. Continue from the summary below.''"

definition internal_context_item_ids :: "string list" where
  "internal_context_item_ids = [CONTEXT_SUMMARY_ITEM_ID, TASK_RESUMPTION_CONTEXT_ITEM_ID]"

definition newline :: char where
  "newline = CHR 0x0A"

text \<open>\<^verbatim>\<open>text.replace("\r\n", "\n").replace("\r", "\n")\<close>.\<close>

fun normalize_newlines :: "string \<Rightarrow> string" where
  "normalize_newlines [] = []"
| "normalize_newlines [c] = [if c = CHR 0x0D then newline else c]"
| "normalize_newlines (c # d # cs) =
    (if c = CHR 0x0D
     then (if d = newline then newline # normalize_newlines cs else newline # normalize_newlines (d # cs))
     else c # normalize_newlines (d # cs))"

text \<open>The Unicode categories Cc and Cf up to code point 255.\<close>

definition control_char :: "char \<Rightarrow> bool" where
  "control_char c \<longleftrightarrow> (let n = (of_char c :: nat) in n \<le> 31 \<or> (127 \<le> n \<and> n \<le> 159) \<or> n = 173)"

definition kept_char :: "char \<Rightarrow> bool" where
  "kept_char c \<longleftrightarrow> c = newline \<or> c = CHR 0x09 \<or> \<not> control_char c"

definition sanitize_context_text :: "string \<Rightarrow> string" where
  "sanitize_context_text s = filter kept_char (normalize_newlines s)"

definition format_context_summary :: "string \<Rightarrow> string" where
  "format_context_summary summary =
     CONTEXT_SUMMARY_HEADER @ [newline, newline] @ context_summary_intro @ [newline, newline] @
     str_strip (sanitize_context_text summary)"

definition starts_with_header :: "string \<Rightarrow> string \<Rightarrow> bool" where
  "starts_with_header txt header =
    (let stripped = lstrip_by py_space txt
     in stripped = header \<or> prefix (header @ [newline]) stripped)"

definition is_context_summary_text :: "string \<Rightarrow> bool" where
  "is_context_summary_text txt = starts_with_header txt CONTEXT_SUMMARY_HEADER"

definition is_user_message :: "json \<Rightarrow> bool" where
  "is_user_message item \<longleftrightarrow>
     is_obj item \<and> json_get item ''type'' = JStr ''message'' \<and> json_get item ''role'' = JStr ''user''"

definition is_context_summary_item :: "json \<Rightarrow> bool" where
  "is_context_summary_item item \<longleftrightarrow>
     is_user_message item \<and> json_get item ''id'' = JStr CONTEXT_SUMMARY_ITEM_ID"

definition is_internal_context_item :: "json \<Rightarrow> bool" where
  "is_internal_context_item item \<longleftrightarrow>
     is_user_message item \<and> json_get item ''id'' \<in> set (map JStr internal_context_item_ids)"

fun strip_internal_context_item_id :: "json \<Rightarrow> json" where
  "strip_internal_context_item_id (JObj d) =
    (if is_internal_context_item (JObj d) then JObj (AList.delete ''id'' d) else JObj d)"
| "strip_internal_context_item_id item = item"

text \<open>\<^verbatim>\<open>str.splitlines\<close> of a sanitised text, where only the line feed ends a line.\<close>

fun split_lines_from :: "string \<Rightarrow> string \<Rightarrow> string list" where
  "split_lines_from cur [] = (if cur = [] then [] else [cur])"
| "split_lines_from cur (c # cs) =
    (if c = newline then cur # split_lines_from [] cs else split_lines_from (cur @ [c]) cs)"

definition split_lines :: "string \<Rightarrow> string list" where
  "split_lines s = split_lines_from [] s"

definition join_lines :: "string list \<Rightarrow> string" where
  "join_lines ls = join_with [newline] ls"

text \<open>\<^verbatim>\<open>casefold\<close> agrees with lower-casing on the characters of section titles.\<close>

definition fold_char :: "char \<Rightarrow> char" where
  "fold_char c = (let n = (of_char c :: nat) in
     if (65 \<le> n \<and> n \<le> 90) \<or> (192 \<le> n \<and> n \<le> 222 \<and> n \<noteq> 215) then char_of (n + 32) else c)"

definition str_fold :: "string \<Rightarrow> string" where
  "str_fold s = map fold_char s"

definition norm_line :: "string \<Rightarrow> string" where
  "norm_line line = str_fold (str_strip line)"

text \<open>The loop: \<^const>\<open>None\<close> before the section heading was seen, then the lines collected.\<close>

fun section_lines :: "string \<Rightarrow> string list option \<Rightarrow> string list \<Rightarrow> string list option" where
  "section_lines target acc [] = acc"
| "section_lines target None (l # ls) =
    section_lines target (if norm_line l = target then Some [] else None) ls"
| "section_lines target (Some acc) (l # ls) =
    (if prefix ''## '' (norm_line l) then Some acc else section_lines target (Some (acc @ [l])) ls)"

definition context_summary_section :: "string \<Rightarrow> string \<Rightarrow> string" where
  "context_summary_section txt section_name =
    (if \<not> is_context_summary_text txt then []
     else (case section_lines (str_fold (''## '' @ section_name)) None
                (split_lines (sanitize_context_text txt)) of
             None \<Rightarrow> []
           | Some ls \<Rightarrow> str_strip (join_lines ls)))"

section \<open>Properties of the formats\<close>

lemma kept_newline [simp]: "kept_char newline"
  by (simp add: kept_char_def)

lemma no_cr_kept: "kept_char c \<Longrightarrow> c \<noteq> CHR 0x0D"
  by (auto simp: kept_char_def control_char_def newline_def)

lemma normalize_no_cr: "CHR 0x0D \<notin> set s \<Longrightarrow> normalize_newlines s = s"
  by (induction s rule: normalize_newlines.induct) auto

lemma sanitize_idem [simp]: "sanitize_context_text (sanitize_context_text s) = sanitize_context_text s"
proof -
  have "CHR 0x0D \<notin> set (sanitize_context_text s)"
    using no_cr_kept by (auto simp: sanitize_context_text_def)
  then have "normalize_newlines (sanitize_context_text s) = sanitize_context_text s"
    by (rule normalize_no_cr)
  then show ?thesis by (simp add: sanitize_context_text_def)
qed

lemma format_is_summary: "is_context_summary_text (format_context_summary s)"
proof -
  have "lstrip_by py_space (CONTEXT_SUMMARY_HEADER @ ys) = CONTEXT_SUMMARY_HEADER @ ys" for ys
    by (simp add: CONTEXT_SUMMARY_HEADER_def lstrip_by_def py_space_def Let_def)
  then show ?thesis
    by (simp add: is_context_summary_text_def starts_with_header_def format_context_summary_def Let_def)
qed

lemma strip_id_not_internal: "\<not> is_internal_context_item item \<Longrightarrow> strip_internal_context_item_id item = item"
  by (cases item) simp_all

lemma strip_id_keeps:
  "k \<noteq> ''id'' \<Longrightarrow> json_get (strip_internal_context_item_id item) k = json_get item k"
  by (cases item) (simp_all add: dict_get_def delete_conv')

lemma strip_id_external: "\<not> is_internal_context_item (strip_internal_context_item_id item)"
  by (cases item) (auto simp: is_internal_context_item_def dict_get_def delete_conv')

end
