(* ===== verification/Projection.thy ===== *)
theory Projection
  imports Formats
begin

text \<open>
  The projection of stored conversation items into the context of one agent,
  \<^verbatim>\<open>src/core/conversation/projection.py\<close>.  The generator \<^verbatim>\<open>_project_visible\<close> is a function
  on the remaining items and the pending block of foreign messages; a yielded item is the head
  of the result.  The group dictionary only caches a text that depends on its key, so the
  group is computed directly.
\<close>

record stored_item =
  st_message_id :: int
  st_owner_code :: string
  st_item :: json
  st_nested_for :: string
  st_nested_call_id :: string

record projected_item =
  pj_item :: json
  pj_source_message_ids :: "int list"
  pj_token_estimate :: int
  pj_atomic_group :: string

record projection_compaction =
  pc_id :: int
  pc_start_message_id :: int
  pc_end_message_id :: int
  pc_summary_item :: json

record viewer =
  vw_agent_code :: string
  vw_names :: "(string \<times> string) list"
  vw_nested_for :: string
  vw_nested_call_id :: string

definition owner_private_types :: "json list" where
  "owner_private_types = map JStr [''reasoning'', ''function_call'', ''function_call_output'']"

definition tool_group :: "stored_item \<Rightarrow> string" where
  "tool_group stored =
    (if json_get (st_item stored) ''type'' \<notin> {JStr ''function_call'', JStr ''function_call_output''} then []
     else let call_id = tool_call_id (st_item stored)
          in if call_id = [] then [] else ''tool:'' @ st_owner_code stored @ '':'' @ call_id)"

definition projected :: "json \<Rightarrow> int list \<Rightarrow> string \<Rightarrow> projected_item" where
  "projected item ids grp =
     \<lparr>pj_item = item, pj_source_message_ids = ids, pj_token_estimate = 0, pj_atomic_group = grp\<rparr>"

definition own_item :: "stored_item \<Rightarrow> projected_item" where
  "own_item stored = projected (st_item stored) [st_message_id stored] (tool_group stored)"

definition foreign_prefix :: "string \<Rightarrow> string" where
  "foreign_prefix name = ''[other agent: '' @ name @ '']'' @ [newline]"

definition build_foreign_block :: "string \<Rightarrow> string \<Rightarrow> int list \<Rightarrow> string list \<Rightarrow> json" where
  "build_foreign_block source_code source_name ids texts =
    (let body = join_with [newline, newline] texts;
         first_id = (if ids = [] then [] else show_int (hd ids));
         last_id = (if ids = [] then [] else show_int (last ids))
     in JObj [(''id'', JStr (''foreign_'' @ source_code @ ''_'' @ first_id @ ''_'' @ last_id)),
              (''type'', JStr ''message''),
              (''role'', JStr ''assistant''),
              (''content'', JList [JObj [(''type'', JStr ''output_text''),
                 (''text'', JStr (foreign_prefix source_name @ body)),
                 (''annotations'', JList [])]]),
              (''status'', JStr ''completed'')])"

text \<open>The pending foreign block: owner, texts and message identifiers.\<close>

record pending_block =
  pb_owner :: string
  pb_texts :: "string list"
  pb_ids :: "int list"

definition no_block :: pending_block where
  "no_block = \<lparr>pb_owner = [], pb_texts = [], pb_ids = []\<rparr>"

definition display_name :: "viewer \<Rightarrow> string \<Rightarrow> string" where
  "display_name v owner = (case map_of (vw_names v) owner of None \<Rightarrow> owner | Some name \<Rightarrow> name)"

definition flush_block :: "viewer \<Rightarrow> pending_block \<Rightarrow> projected_item list" where
  "flush_block v b =
    (if pb_texts b = [] then []
     else [projected (build_foreign_block (pb_owner b) (display_name v (pb_owner b)) (pb_ids b) (pb_texts b))
             (pb_ids b) []])"

text \<open>What the loop body does with one item: it is passed over, projected as it is, or its text
  joins the pending block.\<close>

datatype item_kind = Skipped | Own | ForeignText string

definition item_kind :: "viewer \<Rightarrow> stored_item \<Rightarrow> item_kind" where
  "item_kind v stored =
    (let owner = st_owner_code stored; item = st_item stored;
         role = json_get item ''role''; item_type = json_get item ''type'' in
     if st_nested_for stored \<noteq> [] then Skipped
     else if role = JStr ''user'' then
       (if is_internal_context_item item \<and> owner \<noteq> vw_agent_code v then Skipped else Own)
     else if owner = vw_agent_code v then Own
     else if item_type \<in> set owner_private_types then Skipped
     else if role \<noteq> JStr ''assistant'' \<or> item_type \<noteq> JStr ''message'' then Skipped
     else let txt = extract_message_text (json_get item ''content'') in
       if txt = [] then Skipped else ForeignText txt)"

fun project_main :: "viewer \<Rightarrow> pending_block \<Rightarrow> stored_item list \<Rightarrow> projected_item list" where
  "project_main v b [] = flush_block v b"
| "project_main v b (stored # rest) =
    (case item_kind v stored of
       Skipped \<Rightarrow> project_main v b rest
     | Own \<Rightarrow> flush_block v b @ own_item stored # project_main v no_block rest
     | ForeignText txt \<Rightarrow>
         (let owner = st_owner_code stored in
          if pb_owner b \<noteq> [] \<and> pb_owner b \<noteq> owner
          then flush_block v b @
            project_main v \<lparr>pb_owner = owner, pb_texts = [txt], pb_ids = [st_message_id stored]\<rparr> rest
          else project_main v
            \<lparr>pb_owner = owner, pb_texts = pb_texts b @ [txt], pb_ids = pb_ids b @ [st_message_id stored]\<rparr> rest))"

definition nested_match :: "viewer \<Rightarrow> stored_item \<Rightarrow> bool" where
  "nested_match v stored \<longleftrightarrow>
     st_owner_code stored = vw_agent_code v \<and> st_nested_for stored = vw_nested_for v \<and>
     st_nested_call_id stored = vw_nested_call_id v"

definition project_visible :: "viewer \<Rightarrow> stored_item list \<Rightarrow> projected_item list" where
  "project_visible v stored_items =
    (if vw_nested_for v \<noteq> [] then map own_item (filter (nested_match v) stored_items)
     else project_main v no_block stored_items)"

definition filter_compacted :: "stored_item list \<Rightarrow> int option \<Rightarrow> stored_item list" where
  "filter_compacted stored_items end_id =
    (case end_id of None \<Rightarrow> stored_items
     | Some e \<Rightarrow> filter (\<lambda>stored. e < st_message_id stored) stored_items)"

definition project_context :: "viewer \<Rightarrow> projection_compaction option \<Rightarrow> stored_item list \<Rightarrow> projected_item list" where
  "project_context v compaction stored_items =
    (let visible = filter_compacted stored_items (map_option pc_end_message_id compaction);
         ps = project_visible v visible
     in case compaction of
          None \<Rightarrow> ps
        | Some c \<Rightarrow>
            \<lparr>pj_item = pc_summary_item c,
             pj_source_message_ids = [pc_start_message_id c, pc_end_message_id c],
             pj_token_estimate = 0, pj_atomic_group = []\<rparr> # ps)"

section \<open>Cutting a projection at a message\<close>

text \<open>All source messages of a list of projected items, and the greatest.\<close>

definition source_ids :: "projected_item list \<Rightarrow> int list" where
  "source_ids ps = concat (map pj_source_message_ids ps)"

definition after :: "int \<Rightarrow> stored_item list \<Rightarrow> stored_item list" where
  "after e xs = filter (\<lambda>s. e < st_message_id s) xs"

definition increasing :: "stored_item list \<Rightarrow> bool" where
  "increasing xs \<longleftrightarrow> sorted_wrt (<) (map st_message_id xs)"

definition block_ok :: "pending_block \<Rightarrow> stored_item list \<Rightarrow> bool" where
  "block_ok b xs \<longleftrightarrow>
     (pb_texts b = [] \<longleftrightarrow> pb_ids b = []) \<and>
     (\<forall>i\<in>set (pb_ids b). \<forall>s\<in>set xs. i < st_message_id s)"

lemma source_ids_simps [simp]:
  "source_ids [] = []" "source_ids (p # ps) = pj_source_message_ids p @ source_ids ps"
  "source_ids (ps @ qs) = source_ids ps @ source_ids qs"
  by (simp_all add: source_ids_def)

lemma own_item_ids [simp]: "pj_source_message_ids (own_item s) = [st_message_id s]"
  by (simp add: own_item_def projected_def)

lemma flush_ids: "p \<in> set (flush_block v b) \<Longrightarrow> pj_source_message_ids p = pb_ids b"
  by (simp add: flush_block_def projected_def split: if_splits)

lemma source_ids_flush: "block_ok b xs \<Longrightarrow> source_ids (flush_block v b) = pb_ids b"
  by (auto simp: flush_block_def projected_def block_ok_def)

lemma no_block_ok [simp]: "block_ok no_block xs"
  by (simp add: block_ok_def no_block_def)

lemma flush_no_block [simp]: "flush_block v no_block = []"
  by (simp add: flush_block_def no_block_def)

lemma increasing_Cons: "increasing (x # xs) \<longleftrightarrow> (\<forall>y\<in>set xs. st_message_id x < st_message_id y) \<and> increasing xs"
  by (auto simp: increasing_def)

lemma after_all: "(\<And>s. s \<in> set xs \<Longrightarrow> e < st_message_id s) \<Longrightarrow> after e xs = xs"
  by (auto simp: after_def filter_id_conv)

lemma after_Cons: "after e (x # xs) = (if e < st_message_id x then x # after e xs else after e xs)"
  by (simp add: after_def)

text \<open>The greatest of a list of message identifiers.\<close>

definition cut_at :: "int \<Rightarrow> int list \<Rightarrow> bool" where
  "cut_at e ids \<longleftrightarrow> e \<in> set ids \<and> (\<forall>i\<in>set ids. i \<le> e)"

lemma cut_at_append:
  assumes "ys \<noteq> []" and "\<And>x y. x \<in> set xs \<Longrightarrow> y \<in> set ys \<Longrightarrow> x < y"
  shows "cut_at e (xs @ ys) \<longleftrightarrow> cut_at e ys"
proof -
  obtain y where y: "y \<in> set ys" using assms(1) by (cases ys) auto
  have "x < e" if "x \<in> set xs" "\<forall>i\<in>set ys. i \<le> e" for x
    using assms(2)[OF that(1) y] that(2) y by fastforce
  then show ?thesis unfolding cut_at_def by fastforce
qed

lemma cut_at_single [simp]: "cut_at e [x] \<longleftrightarrow> e = x"
  by (auto simp: cut_at_def)

lemma block_ok_tail: "block_ok b (x # xs) \<Longrightarrow> block_ok b xs"
  by (simp add: block_ok_def)

lemma block_ok_extend:
  "block_ok b (x # xs) \<Longrightarrow> increasing (x # xs) \<Longrightarrow>
     block_ok \<lparr>pb_owner = w, pb_texts = pb_texts b @ [t], pb_ids = pb_ids b @ [st_message_id x]\<rparr> xs"
  by (auto simp: block_ok_def increasing_Cons)

lemma block_ok_fresh:
  "increasing (x # xs) \<Longrightarrow> block_ok \<lparr>pb_owner = w, pb_texts = [t], pb_ids = [st_message_id x]\<rparr> xs"
  by (auto simp: block_ok_def increasing_Cons)

lemma flush_source:
  assumes "block_ok b xs" and "p \<in> set (flush_block v b)"
  shows "pj_source_message_ids p = pb_ids b \<and> pb_ids b \<noteq> []"
  using assms by (auto simp: flush_block_def projected_def block_ok_def split: if_splits)

lemma project_main_sources:
  "p \<in> set (project_main v b xs) \<Longrightarrow> block_ok b xs \<Longrightarrow> increasing xs \<Longrightarrow>
     pj_source_message_ids p \<noteq> [] \<and>
     set (pj_source_message_ids p) \<subseteq> set (pb_ids b) \<union> st_message_id ` set xs"
proof (induction v b xs rule: project_main.induct)
  case (1 v b)
  then show ?case using flush_source by fastforce
next
  case (2 v b x xs)
  have inc: "increasing xs" using "2.prems"(3) by (simp add: increasing_Cons)
  have fl: "pj_source_message_ids q = pb_ids b \<and> pb_ids b \<noteq> []" if "q \<in> set (flush_block v b)" for q
    using flush_source[OF "2.prems"(2) that] .
  show ?case
  proof (cases "item_kind v x")
    case Skipped
    then show ?thesis using "2.IH"(1) "2.prems" inc block_ok_tail by fastforce
  next
    case Own
    then consider "p \<in> set (flush_block v b)" | "p = own_item x" | "p \<in> set (project_main v no_block xs)"
      using "2.prems"(1) by auto
    then show ?thesis
    proof cases
      case 3
      then show ?thesis using "2.IH"(2)[OF Own 3 no_block_ok inc] by (auto simp: no_block_def)
    qed (use fl in auto)
  next
    case (ForeignText t)
    let ?fresh = "\<lparr>pb_owner = st_owner_code x, pb_texts = [t], pb_ids = [st_message_id x]\<rparr>"
    let ?more = "\<lparr>pb_owner = st_owner_code x, pb_texts = pb_texts b @ [t], pb_ids = pb_ids b @ [st_message_id x]\<rparr>"
    show ?thesis
    proof (cases "pb_owner b \<noteq> [] \<and> pb_owner b \<noteq> st_owner_code x")
      case True
      then consider "p \<in> set (flush_block v b)" | "p \<in> set (project_main v ?fresh xs)"
        using "2.prems"(1) ForeignText by (auto simp: Let_def)
      then show ?thesis
      proof cases
        case 2
        then show ?thesis
          using "2.IH"(3)[OF ForeignText refl True 2 block_ok_fresh[OF "2.prems"(3)] inc] by auto
      qed (use fl in auto)
    next
      case False
      then have "p \<in> set (project_main v ?more xs)"
        using "2.prems"(1) ForeignText by (simp add: Let_def split: if_splits)
      from "2.IH"(4)[OF ForeignText refl False this block_ok_extend[OF "2.prems"(2,3)] inc]
      show ?thesis by auto
    qed
  qed
qed

lemma project_main_head:
  "pb_ids b \<noteq> [] \<Longrightarrow> block_ok b xs \<Longrightarrow> increasing xs \<Longrightarrow>
     \<exists>p ps. project_main v b xs = p # ps \<and> set (pb_ids b) \<subseteq> set (pj_source_message_ids p)"
proof (induction v b xs rule: project_main.induct)
  case (1 v b)
  then show ?case by (auto simp: flush_block_def projected_def block_ok_def)
next
  case (2 v b x xs)
  have inc: "increasing xs" using "2.prems"(3) by (simp add: increasing_Cons)
  have fl: "\<exists>p. flush_block v b = [p] \<and> pj_source_message_ids p = pb_ids b"
    using "2.prems"(1,2) by (auto simp: flush_block_def projected_def block_ok_def)
  show ?case
  proof (cases "item_kind v x")
    case Skipped
    then show ?thesis using "2.IH"(1)[OF Skipped "2.prems"(1) block_ok_tail[OF "2.prems"(2)] inc] by simp
  next
    case Own
    then show ?thesis using fl by auto
  next
    case (ForeignText t)
    let ?more = "\<lparr>pb_owner = st_owner_code x, pb_texts = pb_texts b @ [t], pb_ids = pb_ids b @ [st_message_id x]\<rparr>"
    show ?thesis
    proof (cases "pb_owner b \<noteq> [] \<and> pb_owner b \<noteq> st_owner_code x")
      case True
      then show ?thesis using fl ForeignText by (auto simp: Let_def)
    next
      case False
      from "2.IH"(4)[OF ForeignText refl False _ block_ok_extend[OF "2.prems"(2,3)] inc] False ForeignText
      show ?thesis by (auto simp: Let_def)
    qed
  qed
qed

lemma take_source_ids_bound:
  assumes "block_ok b xs" and "increasing xs" and "\<And>i. i \<in> set (pb_ids b) \<Longrightarrow> l < i"
    and "\<And>s. s \<in> set xs \<Longrightarrow> l < st_message_id s" and "i \<in> set (source_ids (take n (project_main v b xs)))"
  shows "l < i"
proof -
  obtain p where "p \<in> set (project_main v b xs)" "i \<in> set (pj_source_message_ids p)"
    using assms(5) by (auto simp: source_ids_def dest: in_set_takeD)
  with project_main_sources[OF _ assms(1,2)] assms(3,4) show ?thesis by fastforce
qed

lemma take_source_ids_nonempty:
  assumes "block_ok b xs" and "increasing xs" and "0 < n" and "n \<le> length (project_main v b xs)"
  shows "source_ids (take n (project_main v b xs)) \<noteq> []"
proof -
  obtain p ps where p: "project_main v b xs = p # ps" using assms(3,4) by (cases "project_main v b xs") auto
  then have "pj_source_message_ids p \<noteq> []"
    using project_main_sources[OF _ assms(1,2), of p v] by simp
  with p assms(3) show ?thesis by (cases n) auto
qed

text \<open>A block of length at most one in front of a projection: the cut lies in it or behind it.\<close>

lemma cut_behind_flush:
  assumes "block_ok b (x # xs)" and "cut_at e (source_ids (take n (flush_block v b @ qs)))"
    and "0 < n" and "n \<le> length (flush_block v b @ qs)"
    and after: "\<And>k. 0 < k \<Longrightarrow> k \<le> length qs \<Longrightarrow> source_ids (take k qs) \<noteq> [] \<and>
       (\<forall>i\<in>set (source_ids (take k qs)). st_message_id x \<le> i)"
  obtains (inside) "n = length (flush_block v b)" "e < st_message_id x"
  | (behind) k where "n = length (flush_block v b) + k" "0 < k" "k \<le> length qs"
      "cut_at e (source_ids (take k qs))"
proof (cases "n \<le> length (flush_block v b)")
  case True
  then have n: "n = length (flush_block v b)" and "flush_block v b \<noteq> []"
    using assms(3) by (auto simp: flush_block_def split: if_splits)
  then have "e \<in> set (pb_ids b)"
    using assms(2) source_ids_flush[OF assms(1), of v] by (simp add: cut_at_def)
  with assms(1) have "e < st_message_id x" by (simp add: block_ok_def)
  with n show ?thesis by (rule inside)
next
  case False
  define k where "k = n - length (flush_block v b)"
  with False assms(4) have k: "n = length (flush_block v b) + k" "0 < k" "k \<le> length qs" by auto
  have "cut_at e (pb_ids b @ source_ids (take k qs))"
    using assms(2) k(1) source_ids_flush[OF assms(1), of v] by simp
  moreover have "i < j" if "i \<in> set (pb_ids b)" "j \<in> set (source_ids (take k qs))" for i j
    using that assms(1) after[OF k(2,3)] by (force simp: block_ok_def)
  ultimately have "cut_at e (source_ids (take k qs))"
    using cut_at_append after[OF k(2,3)] by blast
  with k show ?thesis by (rule behind)
qed

lemma project_main_cut:
  assumes "block_ok b xs" and "increasing xs" and "0 < n" and "n \<le> length (project_main v b xs)"
    and "cut_at e (source_ids (take n (project_main v b xs)))"
  shows "project_main v no_block (after e xs) = drop n (project_main v b xs)"
  using assms
proof (induction xs arbitrary: b n)
  case Nil
  then have "flush_block v b \<noteq> []" and "n = 1" by (auto simp: flush_block_def split: if_splits)
  then show ?case by (simp add: after_def) (simp add: flush_block_def)
next
  case (Cons x xs)
  have inc: "increasing xs" and later: "\<And>s. s \<in> set xs \<Longrightarrow> st_message_id x < st_message_id s"
    using Cons.prems(2) by (auto simp: increasing_Cons)
  have all: "after e (x # xs) = x # xs" if "e < st_message_id x"
    using that later by (intro after_all) force
  show ?case
  proof (cases "item_kind v x")
    case Skipped
    then show ?thesis
      using Cons.IH[OF block_ok_tail[OF Cons.prems(1)] inc Cons.prems(3)] Cons.prems(4,5)
      by (simp add: after_Cons)
  next
    case Own
    let ?qs = "own_item x # project_main v no_block xs"
    have qs: "source_ids (take k ?qs) \<noteq> [] \<and> (\<forall>i\<in>set (source_ids (take k ?qs)). st_message_id x \<le> i)"
      if k: "0 < k" "k \<le> length ?qs" for k
      using k(1) take_source_ids_bound[OF no_block_ok inc, of "st_message_id x" _ "k - 1" v] later
      by (cases k) (fastforce simp: no_block_def)+
    have eq: "project_main v b (x # xs) = flush_block v b @ ?qs" using Own by simp
    from Cons.prems(5,4) eq have cut: "cut_at e (source_ids (take n (flush_block v b @ ?qs)))"
      and len: "n \<le> length (flush_block v b @ ?qs)" by simp_all
    consider (inside) "n = length (flush_block v b)" "e < st_message_id x"
      | (behind) k where "n = length (flush_block v b) + k" "0 < k" "k \<le> length ?qs"
          "cut_at e (source_ids (take k ?qs))"
      by (rule cut_behind_flush[OF Cons.prems(1) cut Cons.prems(3) len qs])
    then show ?thesis
    proof cases
      case inside
      with Own eq all show ?thesis by simp
    next
      case (behind k)
      show ?thesis
      proof (cases "k = 1")
        case True
        with behind have "e = st_message_id x" by simp
        with later have "after e (x # xs) = xs" by (simp add: after_Cons after_all)
        with True behind eq show ?thesis by simp
      next
        case False
        then obtain j where j: "k = Suc j" "0 < j" using behind(2) by (cases k) auto
        have ne: "source_ids (take j (project_main v no_block xs)) \<noteq> []"
          using take_source_ids_nonempty[OF no_block_ok inc j(2)] behind(3) j by simp
        have lt: "st_message_id x < i" if "i \<in> set (source_ids (take j (project_main v no_block xs)))" for i
          using take_source_ids_bound[OF no_block_ok inc _ later that] by (simp add: no_block_def)
        from behind(4) j have "cut_at e ([st_message_id x] @ source_ids (take j (project_main v no_block xs)))"
          by simp
        then have c: "cut_at e (source_ids (take j (project_main v no_block xs)))"
          using cut_at_append[OF ne] lt by (metis empty_iff empty_set set_ConsD)
        then have "st_message_id x < e" using lt by (simp add: cut_at_def)
        moreover have "project_main v no_block (after e xs) = drop j (project_main v no_block xs)"
          using Cons.IH[OF no_block_ok inc j(2) _ c] behind(3) j by simp
        ultimately show ?thesis using behind j eq by (simp add: after_Cons)
      qed
    qed
  next
    case (ForeignText t)
    let ?fresh = "\<lparr>pb_owner = st_owner_code x, pb_texts = [t], pb_ids = [st_message_id x]\<rparr>"
    let ?more = "\<lparr>pb_owner = st_owner_code x, pb_texts = pb_texts b @ [t], pb_ids = pb_ids b @ [st_message_id x]\<rparr>"
    have reach: "st_message_id x \<le> e"
      if b': "block_ok b' xs" "st_message_id x \<in> set (pb_ids b')" and k: "0 < k"
        "cut_at e (source_ids (take k (project_main v b' xs)))" for b' k
    proof -
      obtain p ps where "project_main v b' xs = p # ps" "set (pb_ids b') \<subseteq> set (pj_source_message_ids p)"
        using project_main_head[OF _ b'(1) inc, of v] b'(2) by (metis empty_iff empty_set)
      with b' k show ?thesis by (cases k) (auto simp: cut_at_def)
    qed
    show ?thesis
    proof (cases "pb_owner b \<noteq> [] \<and> pb_owner b \<noteq> st_owner_code x")
      case True
      let ?qs = "project_main v ?fresh xs"
      have ok: "block_ok ?fresh xs" by (rule block_ok_fresh[OF Cons.prems(2)])
      have qs: "source_ids (take k ?qs) \<noteq> [] \<and> (\<forall>i\<in>set (source_ids (take k ?qs)). st_message_id x \<le> i)"
        if k: "0 < k" "k \<le> length ?qs" for k
        using take_source_ids_nonempty[OF ok inc k]
          take_source_ids_bound[OF ok inc, of "st_message_id x - 1" _ k v] later by fastforce
      have eq: "project_main v b (x # xs) = flush_block v b @ ?qs" using True ForeignText by (simp add: Let_def)
      from Cons.prems(5,4) eq have cut: "cut_at e (source_ids (take n (flush_block v b @ ?qs)))"
        and len: "n \<le> length (flush_block v b @ ?qs)" by simp_all
      consider (inside) "n = length (flush_block v b)" "e < st_message_id x"
        | (behind) k where "n = length (flush_block v b) + k" "0 < k" "k \<le> length ?qs"
            "cut_at e (source_ids (take k ?qs))"
        by (rule cut_behind_flush[OF Cons.prems(1) cut Cons.prems(3) len qs])
      then show ?thesis
      proof cases
        case inside
        with ForeignText eq all show ?thesis by (simp add: no_block_def Let_def)
      next
        case (behind k)
        have "st_message_id x \<le> e" using reach[OF ok _ behind(2,4)] by simp
        with Cons.IH[OF ok inc behind(2,3,4)] behind(1) eq show ?thesis by (simp add: after_Cons)
      qed
    next
      case False
      have ok: "block_ok ?more xs" by (rule block_ok_extend[OF Cons.prems(1,2)])
      have eq: "project_main v b (x # xs) = project_main v ?more xs"
        using False ForeignText by (auto simp: Let_def)
      from Cons.prems(4,5) eq have c: "n \<le> length (project_main v ?more xs)"
        "cut_at e (source_ids (take n (project_main v ?more xs)))" by simp_all
      have "st_message_id x \<le> e" using reach[OF ok _ Cons.prems(3) c(2)] by simp
      with Cons.IH[OF ok inc Cons.prems(3) c] eq show ?thesis by (simp add: after_Cons)
    qed
  qed
qed

lemma map_own_cut:
  assumes "increasing xs" and "0 < n" and "n \<le> length (filter q xs)"
    and "cut_at e (source_ids (take n (map own_item (filter q xs))))"
  shows "map own_item (filter q (after e xs)) = drop n (map own_item (filter q xs))"
  using assms
proof (induction xs arbitrary: n)
  case (Cons x xs)
  have later: "\<And>s. s \<in> set xs \<Longrightarrow> st_message_id x < st_message_id s" and inc: "increasing xs"
    using Cons.prems(1) by (auto simp: increasing_Cons)
  show ?case
  proof (cases "q x")
    case False
    with Cons.IH[OF inc Cons.prems(2)] Cons.prems(3,4) show ?thesis by (simp add: after_Cons)
  next
    case True
    then obtain k where n: "n = Suc k" using Cons.prems(2) by (cases n) auto
    let ?ids = "source_ids (take k (map own_item (filter q xs)))"
    have c: "cut_at e ([st_message_id x] @ ?ids)" using Cons.prems(4) True n by simp
    have ids: "i \<in> set ?ids \<Longrightarrow> st_message_id x < i" for i
      using later by (auto simp: source_ids_def dest!: in_set_takeD)
    show ?thesis
    proof (cases "k = 0")
      case True
      with c have "e = st_message_id x" by simp
      with later n True \<open>q x\<close> show ?thesis by (simp add: after_Cons after_all)
    next
      case False
      then have ne: "?ids \<noteq> []" using Cons.prems(3) n \<open>q x\<close>
        by (cases "filter q xs"; cases k) auto
      have c': "cut_at e ?ids" using c cut_at_append[OF ne] ids by (metis empty_iff empty_set set_ConsD)
      then have "st_message_id x < e" using ids by (simp add: cut_at_def)
      with Cons.IH[OF inc _ _ c'] False n Cons.prems(3) \<open>q x\<close> show ?thesis by (simp add: after_Cons)
    qed
  qed
qed simp

lemma project_visible_cut:
  assumes "increasing xs" and "0 < n" and "n \<le> length (project_visible v xs)"
    and "cut_at e (source_ids (take n (project_visible v xs)))"
  shows "project_visible v (after e xs) = drop n (project_visible v xs)"
  using assms map_own_cut project_main_cut[OF no_block_ok]
  by (auto simp: project_visible_def split: if_splits)

lemma increasing_after: "increasing xs \<Longrightarrow> increasing (after e xs)"
  by (simp add: increasing_def after_def sorted_wrt_map sorted_wrt_filter)

lemma project_visible_sources:
  assumes "p \<in> set (project_visible v xs)" and "increasing xs"
  shows "pj_source_message_ids p \<noteq> [] \<and> set (pj_source_message_ids p) \<subseteq> st_message_id ` set xs"
  using assms project_main_sources[OF _ no_block_ok assms(2), of p v]
  by (auto simp: project_visible_def no_block_def split: if_splits)

lemma project_visible_ids_nonempty:
  assumes "increasing xs" and "0 < k" and "k \<le> length (project_visible v xs)"
  shows "source_ids (take k (project_visible v xs)) \<noteq> []"
proof -
  obtain p ps where p: "project_visible v xs = p # ps" using assms(2,3) by (cases "project_visible v xs") auto
  then have "pj_source_message_ids p \<noteq> []"
    using project_visible_sources[OF _ assms(1), of p v] by simp
  with p assms(2) show ?thesis by (cases k) auto
qed

lemma filter_compacted_eq:
  "filter_compacted xs None = xs" "filter_compacted xs (Some e) = after e xs"
  by (simp_all add: filter_compacted_def after_def)

lemma after_after: "e \<le> e' \<Longrightarrow> after e' (after e xs) = after e' xs"
  by (auto simp: after_def intro!: filter_cong)

definition compaction_ok :: "projection_compaction option \<Rightarrow> bool" where
  "compaction_ok c = (case c of None \<Rightarrow> True | Some k \<Rightarrow> pc_start_message_id k \<le> pc_end_message_id k)"

lemma projection_cut:
  assumes "increasing xs" and "compaction_ok c" and "0 < n" and "n \<le> length (project_context v c xs)"
    and "cut_at (pc_end_message_id c') (source_ids (take n (project_context v c xs)))"
  shows "project_context v (Some c') xs =
    \<lparr>pj_item = pc_summary_item c', pj_source_message_ids = [pc_start_message_id c', pc_end_message_id c'],
     pj_token_estimate = 0, pj_atomic_group = []\<rparr> # drop n (project_context v c xs)"
proof (cases c)
  case None
  with project_visible_cut[OF assms(1,3)] assms(4,5) show ?thesis
    by (simp add: project_context_def filter_compacted_eq Let_def)
next
  case (Some k)
  let ?e = "pc_end_message_id c'" and ?f = "pc_end_message_id k"
  let ?vis = "after ?f xs"
  let ?ps = "project_visible v ?vis"
  obtain m where n: "n = Suc m" using assms(3) by (cases n) auto
  have inc: "increasing ?vis" by (rule increasing_after[OF assms(1)])
  from Some n assms(5) have cut: "cut_at ?e ([pc_start_message_id k, ?f] @ source_ids (take m ?ps))"
    and m: "m \<le> length ?ps"
    using assms(4) by (simp_all add: project_context_def filter_compacted_eq Let_def)
  have drop: "project_visible v (after ?e xs) = drop m ?ps"
  proof (cases "m = 0")
    case True
    with cut have "cut_at ?e [pc_start_message_id k, ?f]" by simp
    with Some assms(2) have "?e = ?f" by (auto simp: cut_at_def compaction_ok_def)
    with True show ?thesis by simp
  next
    case False
    have ne: "source_ids (take m ?ps) \<noteq> []" using project_visible_ids_nonempty[OF inc] False m by simp
    have lt: "?f < i" if i_in: "i \<in> set (source_ids (take m ?ps))" for i
    proof -
      obtain p where "p \<in> set (take m ?ps)" and i: "i \<in> set (pj_source_message_ids p)"
        using i_in by (auto simp: source_ids_def)
      then have "p \<in> set ?ps" by (blast dest: in_set_takeD)
      with i project_visible_sources[OF _ inc] show ?thesis by (fastforce simp: after_def)
    qed
    have "cut_at ?e (source_ids (take m ?ps))"
      using cut cut_at_append[OF ne, of "[pc_start_message_id k, ?f]"] lt Some assms(2)
      by (fastforce simp: compaction_ok_def)
    moreover from this lt[of ?e] have "?f \<le> ?e" by (simp add: cut_at_def)
    ultimately show ?thesis
      using project_visible_cut[OF inc _ m, of "pc_end_message_id c'"] False by (simp add: after_after)
  qed
  with Some n show ?thesis by (simp add: project_context_def filter_compacted_eq Let_def)
qed

text \<open>C9. Compaction loses nothing and repeats nothing: if the first items of an agent's context
  are replaced by a summary that ends at their last source message, the context rebuilt from
  the stored items is the summary followed by exactly the remaining items, in the same order,
  whatever earlier compaction the context was built with.\<close>

theorem projection_cut_exact:
  assumes "increasing xs" and "compaction_ok c" and "0 < n" and "n \<le> length (project_context v c xs)"
    and "cut_at (pc_end_message_id c') (source_ids (take n (project_context v c xs)))"
  shows "project_context v (Some c') xs =
    \<lparr>pj_item = pc_summary_item c', pj_source_message_ids = [pc_start_message_id c', pc_end_message_id c'],
     pj_token_estimate = 0, pj_atomic_group = []\<rparr> # drop n (project_context v c xs)"
  by (rule projection_cut[OF assms])

text \<open>A conversation of three agents' messages for the witnesses.\<close>

definition sample_message :: "int \<Rightarrow> string \<Rightarrow> string \<Rightarrow> string \<Rightarrow> stored_item" where
  "sample_message n owner role txt = \<lparr>st_message_id = n, st_owner_code = owner,
     st_item = JObj [(''type'', JStr ''message''), (''role'', JStr role), (''content'', JStr txt)],
     st_nested_for = [], st_nested_call_id = []\<rparr>"

definition sample_viewer :: viewer where
  "sample_viewer = \<lparr>vw_agent_code = ''cso'', vw_names = [], vw_nested_for = [], vw_nested_call_id = []\<rparr>"

definition sample_conversation :: "stored_item list" where
  "sample_conversation =
    [sample_message 2 ''cso'' ''user'' ''q'', sample_message 3 ''cae'' ''assistant'' ''a'',
     sample_message 4 ''cae'' ''assistant'' ''b'', sample_message 6 ''cso'' ''assistant'' ''c'']"

lemma sample_projection:
  "map pj_source_message_ids (project_context sample_viewer None sample_conversation) = [[2], [3, 4], [6]]"
  by (simp add: sample_conversation_def project_context_def project_visible_def sample_viewer_def
      sample_message_def filter_compacted_def item_kind_def is_internal_context_item_def
      is_user_message_def dict_get_def owner_private_types_def no_block_def flush_block_def
      projected_def own_item_def internal_context_item_ids_def CONTEXT_SUMMARY_ITEM_ID_def
      TASK_RESUMPTION_CONTEXT_ITEM_ID_def Let_def)

theorem projection_cut_exact_witness:
  "map pj_source_message_ids (project_context sample_viewer
     (Some \<lparr>pc_id = 1, pc_start_message_id = 2, pc_end_message_id = 4, pc_summary_item = JNull\<rparr>)
     sample_conversation) = [[2, 4], [6]]"
proof -
  let ?c = "\<lparr>pc_id = 1, pc_start_message_id = 2, pc_end_message_id = 4, pc_summary_item = JNull\<rparr>"
  let ?ps = "project_context sample_viewer None sample_conversation"
  have inc: "increasing sample_conversation"
    by (simp add: increasing_def sample_conversation_def sample_message_def)
  have ok: "compaction_ok None" by (simp add: compaction_ok_def)
  have len: "length ?ps = 3" using arg_cong[OF sample_projection, of length] by simp
  have "map pj_source_message_ids (take 2 ?ps) = [[2], [3, 4]]"
    by (simp flip: take_map add: sample_projection)
  then have cut: "cut_at (pc_end_message_id ?c) (source_ids (take 2 ?ps))"
    by (simp add: source_ids_def cut_at_def)
  have "project_context sample_viewer (Some ?c) sample_conversation =
      \<lparr>pj_item = JNull, pj_source_message_ids = [2, 4], pj_token_estimate = 0, pj_atomic_group = []\<rparr> # drop 2 ?ps"
    using projection_cut_exact[OF inc ok _ _ cut] len by simp
  moreover have "map pj_source_message_ids (drop 2 ?ps) = [[6]]"
    by (simp flip: drop_map add: sample_projection)
  ultimately show ?thesis by simp
qed

end
