(* ===== verification/Compaction.thy ===== *)
theory Compaction
  imports Projection
begin

text \<open>
  Context compaction, \<^verbatim>\<open>src/core/conversation/compaction.py\<close>: the token estimate, the choice
  of the items a summary replaces, and the pass \<^verbatim>\<open>compact_if_needed\<close> with the table of
  compactions.  The tokenizer is the parameter \<^verbatim>\<open>tok_count\<close>, the language model's summary an
  argument (\<^const>\<open>None\<close> when the call raises).  The products of a token number with a float
  ratio are the functions \<^verbatim>\<open>cc_trigger\<close>, \<^verbatim>\<open>cc_hard_stop\<close>, \<^verbatim>\<open>cc_target\<close> and \<^verbatim>\<open>cc_preserve\<close>
  of the configuration.
\<close>

record compaction_config =
  cc_enabled :: bool
  cc_window :: int
  cc_trigger :: "int \<Rightarrow> int"
  cc_hard_stop :: "int \<Rightarrow> int"
  cc_target :: "int \<Rightarrow> int"
  cc_preserve :: "int \<Rightarrow> int"
  cc_preserve_items :: nat
  cc_min_items :: nat
  cc_summary_max_tokens :: int
  cc_model :: string

record compaction_scope =
  cs_session_id :: string
  cs_viewer_agent_code :: string
  cs_nested_for :: string
  cs_nested_call_id :: string

record compaction_decision =
  cd_should_compact :: bool
  cd_projected_tokens :: int
  cd_context_window :: int
  cd_trigger_tokens :: int
  cd_target_tokens :: int

record compaction_row =
  cr_id :: int
  cr_scope :: compaction_scope
  cr_start_message_id :: int
  cr_end_message_id :: int
  cr_summary_item :: json
  cr_source_item_count :: nat
  cr_source_token_estimate :: int
  cr_summary_token_estimate :: int
  cr_model :: string

section \<open>Estimates\<close>

text \<open>\<^verbatim>\<open>json.dumps(value, ensure_ascii=False, separators=(",", ":"))\<close>.\<close>

definition plain_escape :: "char \<Rightarrow> string" where
  "plain_escape c =
    (let n = (of_char c :: nat) in if n < 32 \<or> n = 34 \<or> n = 92 then json_escape c else [c])"

definition plain_string :: "string \<Rightarrow> string" where
  "plain_string s = [CHR 0x22] @ concat (map plain_escape s) @ [CHR 0x22]"

fun json_plain :: "json \<Rightarrow> string" where
  "json_plain JNull = ''null''"
| "json_plain (JBool b) = (if b then ''true'' else ''false'')"
| "json_plain (JInt n) = show_int n"
| "json_plain (JStr s) = plain_string s"
| "json_plain (JList xs) = ''['' @ join_with '','' (map json_plain xs) @ '']''"
| "json_plain (JObj kvs) =
    ''{'' @ join_with '','' (map (\<lambda>(k, s). plain_string k @ '':'' @ s)
       (map (\<lambda>(k, v). (k, json_plain v)) kvs)) @ ''}''"

definition image_media_type :: "json \<Rightarrow> string" where
  "image_media_type image_url =
    (case image_url of
       JStr url \<Rightarrow>
         if \<not> prefix ''data:'' url then ''image/*''
         else let header = takeWhile (\<lambda>c. c \<noteq> CHR '','') url;
                  media_type = takeWhile (\<lambda>c. c \<noteq> CHR '';'') (drop 5 header)
              in if media_type = [] then ''image/*'' else media_type
     | _ \<Rightarrow> ''image/*'')"

fun summary_safe_value :: "json \<Rightarrow> json" where
  "summary_safe_value (JList xs) = JList (map summary_safe_value xs)"
| "summary_safe_value (JObj d) =
    (if dict_get d ''type'' = JStr ''input_image''
     then JObj [(''type'', JStr ''input_image''),
            (''image_url'', JStr (''data:'' @ image_media_type (dict_get d ''image_url'') @ '';base64,[omitted]'')),
            (''detail'', json_or (dict_get d ''detail'') (JStr ''auto'')),
            (''note'', JStr ''image bytes omitted from context compaction prompt'')]
     else JObj (map (\<lambda>(k, v). (k, summary_safe_value v)) d))"
| "summary_safe_value v = v"

definition estimate_items_tokens :: "(string \<Rightarrow> nat) \<Rightarrow> json list \<Rightarrow> int" where
  "estimate_items_tokens tok_count items =
     sum_list (map (\<lambda>item. 4 + int (tok_count (json_plain (summary_safe_value item)))) items)"

definition estimate_item :: "(string \<Rightarrow> nat) \<Rightarrow> projected_item \<Rightarrow> projected_item" where
  "estimate_item tok_count p =
     p\<lparr>pj_token_estimate := (if pj_token_estimate p \<noteq> 0 then pj_token_estimate p
        else estimate_items_tokens tok_count [pj_item p])\<rparr>"

definition estimate_projection_tokens :: "(string \<Rightarrow> nat) \<Rightarrow> projected_item list \<Rightarrow> projected_item list" where
  "estimate_projection_tokens tok_count ps = map (estimate_item tok_count) ps"

section \<open>Selection\<close>

text \<open>The loop over the items from the end: how many are preserved.\<close>

fun preserve_recent :: "nat \<Rightarrow> int \<Rightarrow> nat \<Rightarrow> int \<Rightarrow> projected_item list \<Rightarrow> nat" where
  "preserve_recent min_count min_tokens n tokens [] = n"
| "preserve_recent min_count min_tokens n tokens (p # ps) =
    (if min_count \<le> n \<and> min_tokens \<le> tokens then n
     else preserve_recent min_count min_tokens (Suc n) (tokens + pj_token_estimate p) ps)"

definition toggle_group :: "string \<Rightarrow> string list \<Rightarrow> string list" where
  "toggle_group g open =
    (if g = [] then open else if g \<in> set open then removeAll g open else g # open)"

record selection =
  sl_candidates :: "projected_item list"
  sl_removed :: int
  sl_open :: "string list"
  sl_complete :: nat

text \<open>\<^verbatim>\<open>sl_complete\<close> is \<^verbatim>\<open>last_complete_index + 1\<close>.  The result is \<^const>\<open>Inl\<close> for the early
  return.\<close>

fun select_loop ::
  "nat \<Rightarrow> int \<Rightarrow> int \<Rightarrow> int \<Rightarrow> selection \<Rightarrow> projected_item list \<Rightarrow> projected_item list + selection" where
  "select_loop min_items target projected_tokens summary_max s [] = Inr s"
| "select_loop min_items target projected_tokens summary_max s (p # ps) =
    (if pj_source_message_ids p = [] then select_loop min_items target projected_tokens summary_max s ps
     else
       let candidates = sl_candidates s @ [p];
           open_groups = toggle_group (pj_atomic_group p) (sl_open s);
           removed = sl_removed s + pj_token_estimate p;
           complete = (if open_groups = [] \<and> min_items \<le> length candidates then length candidates
                       else sl_complete s);
           after_compaction = projected_tokens - removed + summary_max
       in if after_compaction \<le> target \<and> min_items \<le> length candidates \<and> open_groups = []
          then Inl candidates
          else select_loop min_items target projected_tokens summary_max
            \<lparr>sl_candidates = candidates, sl_removed = removed, sl_open = open_groups,
             sl_complete = complete\<rparr> ps)"

definition empty_selection :: selection where
  "empty_selection = \<lparr>sl_candidates = [], sl_removed = 0, sl_open = [], sl_complete = 0\<rparr>"

definition compact_count :: "compaction_config \<Rightarrow> int \<Rightarrow> projected_item list \<Rightarrow> nat" where
  "compact_count cfg target ps =
     length ps - preserve_recent (cc_preserve_items cfg) (cc_preserve cfg target) 0 0 (rev ps)"

definition select_compaction_candidates ::
  "compaction_config \<Rightarrow> int \<Rightarrow> int \<Rightarrow> projected_item list \<Rightarrow> projected_item list" where
  "select_compaction_candidates cfg target projected_tokens ps =
    (let k = compact_count cfg target ps in
     if k = 0 then []
     else (case select_loop (cc_min_items cfg) target projected_tokens (cc_summary_max_tokens cfg)
                  empty_selection (take k ps) of
             Inl candidates \<Rightarrow> candidates
           | Inr s \<Rightarrow> if sl_open s \<noteq> [] then take (sl_complete s) (sl_candidates s) else sl_candidates s))"

text \<open>\<^verbatim>\<open>max(ids) if ids else None\<close> and \<^verbatim>\<open>min\<close>.\<close>

definition candidate_end_message_id :: "projected_item list \<Rightarrow> int option" where
  "candidate_end_message_id ps =
    (case source_ids ps of [] \<Rightarrow> None | i # ids \<Rightarrow> Some (fold max ids i))"

definition candidate_start_message_id :: "projected_item list \<Rightarrow> int option" where
  "candidate_start_message_id ps =
    (case source_ids ps of [] \<Rightarrow> None | i # ids \<Rightarrow> Some (fold min ids i))"

section \<open>The pass\<close>

definition summary_item :: "string \<Rightarrow> json" where
  "summary_item txt =
     JObj [(''id'', JStr CONTEXT_SUMMARY_ITEM_ID), (''type'', JStr ''message''), (''role'', JStr ''user''),
           (''content'', JList [JObj [(''type'', JStr ''input_text''),
              (''text'', JStr (format_context_summary txt))]])]"

definition get_latest_compaction :: "compaction_row list \<Rightarrow> compaction_scope \<Rightarrow> projection_compaction option" where
  "get_latest_compaction rows scope =
    (case sort_key (\<lambda>r. - cr_end_message_id r)
            (sort_key (\<lambda>r. - cr_id r) (filter (\<lambda>r. cr_scope r = scope) rows)) of
       [] \<Rightarrow> None
     | r # _ \<Rightarrow> Some \<lparr>pc_id = cr_id r, pc_start_message_id = cr_start_message_id r,
                  pc_end_message_id = cr_end_message_id r, pc_summary_item = cr_summary_item r\<rparr>)"

definition store_compaction :: "compaction_row \<Rightarrow> compaction_row list \<Rightarrow> compaction_row list" where
  "store_compaction row rows = filter (\<lambda>r. cr_scope r \<noteq> cr_scope row) rows @ [row]"

datatype compaction_error = NearContextLimit | EmptySummary

definition decision :: "bool \<Rightarrow> int \<Rightarrow> compaction_config \<Rightarrow> compaction_decision" where
  "decision compacted tokens cfg =
     \<lparr>cd_should_compact = compacted, cd_projected_tokens = tokens, cd_context_window = cc_window cfg,
      cd_trigger_tokens = cc_trigger cfg (cc_window cfg), cd_target_tokens = cc_target cfg (cc_window cfg)\<rparr>"

definition hard_stop_reached :: "int \<Rightarrow> int \<Rightarrow> bool" where
  "hard_stop_reached projected_tokens hard_stop \<longleftrightarrow> 0 < hard_stop \<and> hard_stop \<le> projected_tokens"

text \<open>\<^verbatim>\<open>locked\<close> tells whether another pass holds the lock of the scope when this one reaches the
  store; the lock it takes itself is released again.\<close>

definition compact_if_needed ::
  "(string \<Rightarrow> nat) \<Rightarrow> compaction_config \<Rightarrow> compaction_scope \<Rightarrow> projected_item list \<Rightarrow> json list
     \<Rightarrow> (projected_item list \<Rightarrow> string option) \<Rightarrow> bool \<Rightarrow> int \<Rightarrow> compaction_row list
     \<Rightarrow> (compaction_error + compaction_decision) \<times> compaction_row list" where
  "compact_if_needed tok_count cfg scope projection incoming summarize locked fresh_id rows =
    (let window = cc_window cfg in
     if \<not> cc_enabled cfg \<or> window \<le> 0
     then (Inr \<lparr>cd_should_compact = False, cd_projected_tokens = 0, cd_context_window = window,
                cd_trigger_tokens = 0, cd_target_tokens = 0\<rparr>, rows)
     else
       let ps = estimate_projection_tokens tok_count projection;
           tokens = sum_list (map pj_token_estimate ps) + estimate_items_tokens tok_count incoming;
           trigger = cc_trigger cfg window; hard_stop = cc_hard_stop cfg window; target = cc_target cfg window
       in if tokens < trigger then (Inr (decision False tokens cfg), rows)
       else
         let candidates = select_compaction_candidates cfg target tokens ps in
         (case (candidate_start_message_id candidates, candidate_end_message_id candidates) of
            (Some start, Some end_id) \<Rightarrow>
              if length candidates < cc_min_items cfg then (Inr (decision False tokens cfg), rows)
              else (case summarize candidates of
                None \<Rightarrow>
                  (if hard_stop_reached tokens hard_stop then Inl NearContextLimit
                   else Inr (decision False tokens cfg), rows)
              | Some txt \<Rightarrow>
                  if str_strip txt = []
                  then (if hard_stop_reached tokens hard_stop then Inl EmptySummary
                        else Inr (decision False tokens cfg), rows)
                  else if locked then (Inr (decision False tokens cfg), rows)
                  else let item = summary_item txt in
                    (Inr (decision True tokens cfg),
                     store_compaction
                       \<lparr>cr_id = fresh_id, cr_scope = scope, cr_start_message_id = start,
                        cr_end_message_id = end_id, cr_summary_item = item,
                        cr_source_item_count = length candidates,
                        cr_source_token_estimate = sum_list (map pj_token_estimate candidates),
                        cr_summary_token_estimate = estimate_items_tokens tok_count [item],
                        cr_model = cc_model cfg\<rparr> rows))
          | _ \<Rightarrow> (Inr (decision False tokens cfg), rows)))"

section \<open>What a selection is\<close>

definition group_count :: "string \<Rightarrow> projected_item list \<Rightarrow> nat" where
  "group_count g ps = length (filter (\<lambda>p. pj_atomic_group p = g) ps)"

definition groups_closed :: "projected_item list \<Rightarrow> bool" where
  "groups_closed ps \<longleftrightarrow> (\<forall>g. g \<noteq> [] \<longrightarrow> even (group_count g ps))"

definition with_sources :: "projected_item list \<Rightarrow> projected_item list" where
  "with_sources ps = filter (\<lambda>p. pj_source_message_ids p \<noteq> []) ps"

lemma group_count_simps [simp]:
  "group_count g [] = 0"
  "group_count g (ps @ qs) = group_count g ps + group_count g qs"
  "group_count g (p # ps) = (if pj_atomic_group p = g then 1 else 0) + group_count g ps"
  by (simp_all add: group_count_def)

lemma set_toggle: "set (toggle_group g open) =
    (if g = [] then set open else if g \<in> set open then set open - {g} else insert g (set open))"
  by (auto simp: toggle_group_def)

text \<open>The invariant of the loop: the open groups are those with an odd number of members, and
  the marked prefix is closed.\<close>

definition selection_ok :: "selection \<Rightarrow> bool" where
  "selection_ok s \<longleftrightarrow>
     (\<forall>g. g \<in> set (sl_open s) \<longleftrightarrow> g \<noteq> [] \<and> odd (group_count g (sl_candidates s))) \<and>
     sl_complete s \<le> length (sl_candidates s) \<and>
     groups_closed (take (sl_complete s) (sl_candidates s))"

lemma toggle_parity:
  assumes "\<forall>g. g \<in> set open \<longleftrightarrow> g \<noteq> [] \<and> odd (group_count g cs)"
  shows "g \<in> set (toggle_group (pj_atomic_group p) open) \<longleftrightarrow> g \<noteq> [] \<and> odd (group_count g (cs @ [p]))"
  using assms by (auto simp: set_toggle)

lemma closed_if_none_open:
  "\<forall>g. g \<in> set open \<longleftrightarrow> g \<noteq> [] \<and> odd (group_count g cs) \<Longrightarrow> open = [] \<Longrightarrow> groups_closed cs"
  by (auto simp: groups_closed_def)

lemma selection_ok_empty: "selection_ok empty_selection"
  by (simp add: selection_ok_def empty_selection_def groups_closed_def)

lemma select_loop_result:
  assumes "selection_ok s" and "select_loop m target tokens summ s ps = r"
  shows "case r of
      Inl cs \<Rightarrow> groups_closed cs \<and> prefix cs (sl_candidates s @ with_sources ps) \<and> m \<le> length cs
    | Inr s' \<Rightarrow> selection_ok s' \<and> sl_candidates s' = sl_candidates s @ with_sources ps"
  using assms
proof (induction ps arbitrary: s)
  case Nil
  then show ?case by (auto simp: with_sources_def)
next
  case (Cons p ps)
  show ?case
  proof (cases "pj_source_message_ids p = []")
    case True
    then show ?thesis
      using Cons.IH[OF Cons.prems(1)] Cons.prems(2) by (cases r) (simp_all add: with_sources_def)
  next
    case False
    let ?cs = "sl_candidates s @ [p]"
    let ?open = "toggle_group (pj_atomic_group p) (sl_open s)"
    let ?complete = "if ?open = [] \<and> m \<le> length ?cs then length ?cs else sl_complete s"
    let ?removed = "sl_removed s + pj_token_estimate p"
    let ?s = "\<lparr>sl_candidates = ?cs, sl_removed = ?removed, sl_open = ?open, sl_complete = ?complete\<rparr>"
    have par: "\<forall>g. g \<in> set ?open \<longleftrightarrow> g \<noteq> [] \<and> odd (group_count g ?cs)"
      using Cons.prems(1) toggle_parity by (simp add: selection_ok_def)
    have closed: "groups_closed ?cs" if "?open = []" using closed_if_none_open[OF par that] .
    have ok: "selection_ok ?s"
      using par closed Cons.prems(1) by (auto simp: selection_ok_def)
    show ?thesis
    proof (cases "tokens - ?removed + summ \<le> target \<and> m \<le> length ?cs \<and> ?open = []")
      case True
      with False Cons.prems(2) have "r = Inl ?cs" by (simp add: Let_def)
      with True closed False show ?thesis by (simp add: with_sources_def)
    next
      case not_done: False
      then have "select_loop m target tokens summ ?s ps = r"
        using False Cons.prems(2) by (auto simp: Let_def)
      from Cons.IH[OF ok this] False show ?thesis
        by (auto simp: with_sources_def split: sum.splits)
    qed
  qed
qed

lemma preserve_recent_ge: "n \<le> preserve_recent mc mt n t ps"
proof (induction ps arbitrary: n t)
  case (Cons p ps)
  from Cons[of "Suc n"] show ?case by (simp add: Suc_le_eq less_imp_le)
qed simp

lemma preserve_recent_stops:
  assumes "preserve_recent mc mt n t ps < n + length ps"
  shows "mc \<le> preserve_recent mc mt n t ps \<and>
    mt \<le> t + sum_list (map pj_token_estimate (take (preserve_recent mc mt n t ps - n) ps))"
  using assms
proof (induction ps arbitrary: n t)
  case (Cons p ps)
  show ?case
  proof (cases "mc \<le> n \<and> mt \<le> t")
    case False
    let ?k = "preserve_recent mc mt (Suc n) (t + pj_token_estimate p) ps"
    have "?k - n = Suc (?k - Suc n)" using preserve_recent_ge[of "Suc n"] by (simp add: Suc_diff_Suc Suc_le_eq)
    moreover have "?k < Suc n + length ps" using Cons.prems False by (simp split: if_splits)
    ultimately show ?thesis using Cons.IH[of "Suc n" "t + pj_token_estimate p"] False
      by (simp add: algebra_simps)
  qed auto
qed simp

lemma compact_count_preserves:
  assumes "0 < compact_count cfg target ps"
  shows "cc_preserve_items cfg \<le> length (drop (compact_count cfg target ps) ps) \<and>
    cc_preserve cfg target \<le> sum_list (map pj_token_estimate (drop (compact_count cfg target ps) ps))"
proof -
  let ?n = "preserve_recent (cc_preserve_items cfg) (cc_preserve cfg target) 0 0 (rev ps)"
  from assms have n: "?n < length ps" by (simp add: compact_count_def)
  then have "take ?n (rev ps) = rev (drop (compact_count cfg target ps) ps)"
    by (simp add: compact_count_def take_rev)
  moreover have "sum_list (map pj_token_estimate (rev qs)) = sum_list (map pj_token_estimate qs)" for qs
    by (simp add: rev_map [symmetric] sum_list_rev)
  ultimately have "sum_list (map pj_token_estimate (take ?n (rev ps))) =
      sum_list (map pj_token_estimate (drop (compact_count cfg target ps) ps))" by metis
  moreover have "length (drop (compact_count cfg target ps) ps) = ?n"
    using n by (simp add: compact_count_def)
  ultimately show ?thesis
    using preserve_recent_stops[of "cc_preserve_items cfg" "cc_preserve cfg target" 0 0 "rev ps"] n
    by (metis add_0 diff_zero length_rev)
qed

lemma select_candidates_shape:
  fixes cfg target tokens ps
  defines "cs \<equiv> select_compaction_candidates cfg target tokens ps"
  shows "prefix cs (with_sources (take (compact_count cfg target ps) ps)) \<and> groups_closed cs \<and>
    (cs \<noteq> [] \<longrightarrow> 0 < compact_count cfg target ps)"
proof (cases "compact_count cfg target ps = 0")
  case True
  then show ?thesis by (simp add: cs_def select_compaction_candidates_def groups_closed_def)
next
  case False
  let ?k = "compact_count cfg target ps"
  let ?r = "select_loop (cc_min_items cfg) target tokens (cc_summary_max_tokens cfg) empty_selection (take ?k ps)"
  have cs: "cs = (case ?r of Inl c \<Rightarrow> c
      | Inr s \<Rightarrow> if sl_open s \<noteq> [] then take (sl_complete s) (sl_candidates s) else sl_candidates s)"
    using False by (simp add: cs_def select_compaction_candidates_def Let_def)
  have res: "case ?r of
      Inl c \<Rightarrow> groups_closed c \<and> prefix c (sl_candidates empty_selection @ with_sources (take ?k ps)) \<and>
        cc_min_items cfg \<le> length c
    | Inr s \<Rightarrow> selection_ok s \<and> sl_candidates s = sl_candidates empty_selection @ with_sources (take ?k ps)"
    by (rule select_loop_result[OF selection_ok_empty refl])
  show ?thesis
  proof (cases ?r)
    case (Inl c)
    with res cs False show ?thesis by (simp add: empty_selection_def)
  next
    case (Inr s)
    then have s: "selection_ok s" "sl_candidates s = with_sources (take ?k ps)"
      using res by (simp_all add: empty_selection_def)
    have "groups_closed (sl_candidates s)" if "sl_open s = []"
      using closed_if_none_open[of "sl_open s"] s(1) that by (simp add: selection_ok_def)
    with s cs Inr False show ?thesis by (auto simp: selection_ok_def take_is_prefix)
  qed
qed

text \<open>C10. What a compaction may remove: the candidates are the first items with sources, they
  never separate a tool call from its output, and whenever something is removed the recent
  tail keeps at least the configured number of items and tokens.\<close>

theorem candidates_safe:
  assumes "cs = select_compaction_candidates cfg target tokens ps" and "k = compact_count cfg target ps"
  shows "prefix cs (with_sources (take k ps)) \<and> groups_closed cs \<and>
    (cs \<noteq> [] \<longrightarrow> cc_preserve_items cfg \<le> length (drop k ps) \<and>
       cc_preserve cfg target \<le> sum_list (map pj_token_estimate (drop k ps)))"
  using select_candidates_shape[of cfg target tokens ps] compact_count_preserves[of cfg target ps]
  unfolding assms by blast

definition sample_compaction_config :: compaction_config where
  "sample_compaction_config = \<lparr>cc_enabled = True, cc_window = 100, cc_trigger = (\<lambda>w. w div 10),
     cc_hard_stop = (\<lambda>w. w), cc_target = (\<lambda>w. w div 5), cc_preserve = (\<lambda>t. 0), cc_preserve_items = 1,
     cc_min_items = 1, cc_summary_max_tokens = 8, cc_model = ''m''\<rparr>"

definition sample_projected :: "int \<Rightarrow> projected_item" where
  "sample_projected n = \<lparr>pj_item = JNull, pj_source_message_ids = [n], pj_token_estimate = 4, pj_atomic_group = []\<rparr>"

theorem candidates_safe_witness:
  "select_compaction_candidates sample_compaction_config 20 12 (map sample_projected [2, 3, 4]) \<noteq> []
   \<and> cc_preserve_items sample_compaction_config
       \<le> length (drop (compact_count sample_compaction_config 20 (map sample_projected [2, 3, 4]))
            (map sample_projected [2, 3, 4]))"
proof -
  have "select_compaction_candidates sample_compaction_config 20 12 (map sample_projected [2, 3, 4]) \<noteq> []"
    by (simp add: select_compaction_candidates_def compact_count_def sample_compaction_config_def
        empty_selection_def sample_projected_def toggle_group_def Let_def)
  with candidates_safe[OF refl refl, of sample_compaction_config 20 12 "map sample_projected [2, 3, 4]"]
  show ?thesis by blast
qed

section \<open>A pass as a whole\<close>

lemma fold_max_cut: "cut_at (fold max ids i) (i # (ids :: int list))"
proof (induction ids arbitrary: i)
  case (Cons j ids)
  from Cons[of "max j i"] show ?case by (auto simp: cut_at_def max_def split: if_splits)
qed (simp add: cut_at_def)

lemma candidate_end_cut: "candidate_end_message_id cs = Some e \<Longrightarrow> cut_at e (source_ids cs)"
  using fold_max_cut by (auto simp: candidate_end_message_id_def split: list.splits)

lemma fold_min_le: "fold min ids i \<le> (i :: int)"
proof (induction ids arbitrary: i)
  case (Cons j ids)
  from Cons[of "min j i"] show ?case by simp
qed simp

lemma candidate_bounds:
  assumes "candidate_start_message_id cs = Some a" and "candidate_end_message_id cs = Some e"
  shows "a \<le> e"
proof -
  obtain i ids where c: "source_ids cs = i # ids"
    using assms(1) by (auto simp: candidate_start_message_id_def split: list.splits)
  then have "a \<le> i" using assms(1) fold_min_le by (auto simp: candidate_start_message_id_def)
  also have "i \<le> e" using candidate_end_cut[OF assms(2)] c by (simp add: cut_at_def)
  finally show ?thesis .
qed

lemma latest_stored:
  "get_latest_compaction (store_compaction row rows) scope =
    (if scope = cr_scope row
     then Some \<lparr>pc_id = cr_id row, pc_start_message_id = cr_start_message_id row,
            pc_end_message_id = cr_end_message_id row, pc_summary_item = cr_summary_item row\<rparr>
     else get_latest_compaction rows scope)"
proof (cases "scope = cr_scope row")
  case True
  then have "filter (\<lambda>r. cr_scope r = scope) (store_compaction row rows) = [row]"
    by (simp add: store_compaction_def)
  with True show ?thesis by (simp add: get_latest_compaction_def)
next
  case False
  then have "filter (\<lambda>r. cr_scope r = scope) (store_compaction row rows) = filter (\<lambda>r. cr_scope r = scope) rows"
    by (auto simp: store_compaction_def intro!: filter_cong)
  with False show ?thesis by (simp add: get_latest_compaction_def)
qed

lemma source_ids_estimate [simp]: "source_ids (estimate_projection_tokens f ps) = source_ids ps"
  by (induction ps) (simp_all add: estimate_projection_tokens_def estimate_item_def)

lemma take_estimate: "take n (estimate_projection_tokens f ps) = estimate_projection_tokens f (take n ps)"
  by (simp add: estimate_projection_tokens_def take_map)

lemma groups_estimate: "groups_closed (estimate_projection_tokens f ps) \<longleftrightarrow> groups_closed ps"
proof -
  have "group_count g (estimate_projection_tokens f ps) = group_count g ps" for g
    by (induction ps) (simp_all add: estimate_projection_tokens_def estimate_item_def)
  then show ?thesis by (simp add: groups_closed_def)
qed

lemma context_sources:
  assumes "increasing xs"
  shows "with_sources (estimate_projection_tokens f (project_context v c xs)) =
    estimate_projection_tokens f (project_context v c xs)"
proof -
  have "pj_source_message_ids p \<noteq> []" if "p \<in> set (project_context v c xs)" for p
    using that project_visible_sources[of p v] assms increasing_after[OF assms]
    by (auto simp: project_context_def filter_compacted_eq Let_def split: option.splits)
  then show ?thesis
    by (auto simp: with_sources_def estimate_projection_tokens_def estimate_item_def filter_id_conv)
qed

definition pass_tokens :: "(string \<Rightarrow> nat) \<Rightarrow> projected_item list \<Rightarrow> json list \<Rightarrow> int" where
  "pass_tokens f projection incoming =
     sum_list (map pj_token_estimate (estimate_projection_tokens f projection)) + estimate_items_tokens f incoming"

definition pass_candidates ::
  "(string \<Rightarrow> nat) \<Rightarrow> compaction_config \<Rightarrow> projected_item list \<Rightarrow> json list \<Rightarrow> projected_item list" where
  "pass_candidates f cfg projection incoming =
     select_compaction_candidates cfg (cc_target cfg (cc_window cfg)) (pass_tokens f projection incoming)
       (estimate_projection_tokens f projection)"

lemma compact_if_needed_cases:
  assumes "compact_if_needed f cfg scope projection incoming summ locked n rows = (Inr d, rows')"
    and "cd_should_compact d"
  shows "cc_trigger cfg (cc_window cfg) \<le> pass_tokens f projection incoming"
    and "cc_min_items cfg \<le> length (pass_candidates f cfg projection incoming)"
    and "\<exists>a e txt row. candidate_start_message_id (pass_candidates f cfg projection incoming) = Some a \<and>
      candidate_end_message_id (pass_candidates f cfg projection incoming) = Some e \<and>
      summ (pass_candidates f cfg projection incoming) = Some txt \<and> str_strip txt \<noteq> [] \<and>
      rows' = store_compaction row rows \<and> cr_scope row = scope \<and> cr_start_message_id row = a \<and>
      cr_end_message_id row = e \<and> cr_summary_item row = summary_item txt"
proof -
  let ?cs = "pass_candidates f cfg projection incoming"
  let ?tokens = "pass_tokens f projection incoming"
  have eq: "compact_if_needed f cfg scope projection incoming summ locked n rows =
    (if \<not> cc_enabled cfg \<or> cc_window cfg \<le> 0
     then (Inr \<lparr>cd_should_compact = False, cd_projected_tokens = 0, cd_context_window = cc_window cfg,
                cd_trigger_tokens = 0, cd_target_tokens = 0\<rparr>, rows)
     else if ?tokens < cc_trigger cfg (cc_window cfg) then (Inr (decision False ?tokens cfg), rows)
     else (case (candidate_start_message_id ?cs, candidate_end_message_id ?cs) of
            (Some start, Some end_id) \<Rightarrow>
              if length ?cs < cc_min_items cfg then (Inr (decision False ?tokens cfg), rows)
              else (case summ ?cs of
                None \<Rightarrow>
                  (if hard_stop_reached ?tokens (cc_hard_stop cfg (cc_window cfg)) then Inl NearContextLimit
                   else Inr (decision False ?tokens cfg), rows)
              | Some txt \<Rightarrow>
                  if str_strip txt = []
                  then (if hard_stop_reached ?tokens (cc_hard_stop cfg (cc_window cfg)) then Inl EmptySummary
                        else Inr (decision False ?tokens cfg), rows)
                  else if locked then (Inr (decision False ?tokens cfg), rows)
                  else
                    (Inr (decision True ?tokens cfg),
                     store_compaction
                       \<lparr>cr_id = n, cr_scope = scope, cr_start_message_id = start,
                        cr_end_message_id = end_id, cr_summary_item = summary_item txt,
                        cr_source_item_count = length ?cs,
                        cr_source_token_estimate = sum_list (map pj_token_estimate ?cs),
                        cr_summary_token_estimate = estimate_items_tokens f [summary_item txt],
                        cr_model = cc_model cfg\<rparr> rows))
          | _ \<Rightarrow> (Inr (decision False ?tokens cfg), rows)))"
    unfolding compact_if_needed_def pass_candidates_def pass_tokens_def Let_def by (rule refl)
  have no: "\<not> cd_should_compact (decision False t cfg)" for t by (simp add: decision_def)
  note run = assms(1)[unfolded eq]
  from run assms(2) no show "cc_trigger cfg (cc_window cfg) \<le> ?tokens"
    by (auto split: if_splits)
  with run assms(2) no obtain a e where ids: "candidate_start_message_id ?cs = Some a"
    "candidate_end_message_id ?cs = Some e" and len: "cc_min_items cfg \<le> length ?cs"
    by (auto split: if_splits option.splits)
  show "cc_min_items cfg \<le> length ?cs" by (rule len)
  from run assms(2) no ids len obtain t where t: "summ ?cs = Some t" "str_strip t \<noteq> []" "\<not> locked"
    by (auto split: if_splits option.splits)
  with run assms(2) no ids len show "\<exists>a e txt row. candidate_start_message_id ?cs = Some a \<and>
      candidate_end_message_id ?cs = Some e \<and> summ ?cs = Some txt \<and> str_strip txt \<noteq> [] \<and>
      rows' = store_compaction row rows \<and> cr_scope row = scope \<and> cr_start_message_id row = a \<and>
      cr_end_message_id row = e \<and> cr_summary_item row = summary_item txt"
    by (auto split: if_splits)
qed

text \<open>C11. A compaction pass that reports success has stored, for its scope, a summary that
  replaces at least the configured minimum of leading context items, none of them half of a
  tool exchange: the context rebuilt afterwards is the summary followed by exactly the other
  items, and the compactions of all other scopes are untouched.\<close>

theorem compaction_pass_exact:
  assumes "compact_if_needed f cfg scope (project_context v (get_latest_compaction rows scope) xs)
      incoming summ locked n rows = (Inr d, rows')"
    and "cd_should_compact d" and "increasing xs"
    and "compaction_ok (get_latest_compaction rows scope)" and "0 < cc_min_items cfg"
  shows "(\<exists>k s. cc_min_items cfg \<le> k \<and>
      groups_closed (take k (project_context v (get_latest_compaction rows scope) xs)) \<and>
      pj_item s = summary_item (the (summ (pass_candidates f cfg
        (project_context v (get_latest_compaction rows scope) xs) incoming))) \<and>
      project_context v (get_latest_compaction rows' scope) xs =
        s # drop k (project_context v (get_latest_compaction rows scope) xs)) \<and>
    compaction_ok (get_latest_compaction rows' scope) \<and>
    (\<forall>other. other \<noteq> scope \<longrightarrow> get_latest_compaction rows' other = get_latest_compaction rows other)"
proof -
  let ?ctx = "project_context v (get_latest_compaction rows scope) xs"
  let ?cs = "pass_candidates f cfg ?ctx incoming"
  note run = compact_if_needed_cases[OF assms(1,2)]
  from run(3) obtain a e t row where ids: "candidate_start_message_id ?cs = Some a"
      "candidate_end_message_id ?cs = Some e" and t: "summ ?cs = Some t"
    and rows': "rows' = store_compaction row rows" "cr_scope row = scope" "cr_start_message_id row = a"
      "cr_end_message_id row = e" "cr_summary_item row = summary_item t" by blast
  let ?k = "length ?cs"
  have shape: "prefix ?cs (with_sources (take (compact_count cfg (cc_target cfg (cc_window cfg))
        (estimate_projection_tokens f ?ctx)) (estimate_projection_tokens f ?ctx)))" "groups_closed ?cs"
    using select_candidates_shape[of cfg "cc_target cfg (cc_window cfg)" "pass_tokens f ?ctx incoming"
        "estimate_projection_tokens f ?ctx"] by (simp_all add: pass_candidates_def)
  have "prefix (with_sources (take m ps)) (with_sources ps)" for m ps
    unfolding with_sources_def by (metis append_take_drop_id filter_append prefixI)
  with shape(1) have pre: "prefix ?cs (estimate_projection_tokens f ?ctx)"
    using context_sources[OF assms(3)] prefix_order.trans by metis
  then have cs: "?cs = estimate_projection_tokens f (take ?k ?ctx)"
    by (metis append_eq_conv_conj prefix_def take_estimate)
  have k: "0 < ?k" "?k \<le> length ?ctx"
    using run(2) assms(5) prefix_length_le[OF pre]
    by (linarith, simp add: estimate_projection_tokens_def)
  have "source_ids (take ?k ?ctx) = source_ids ?cs"
    using cs source_ids_estimate[of f "take ?k ?ctx"] by simp
  then have cut: "cut_at e (source_ids (take ?k ?ctx))"
    using candidate_end_cut[OF ids(2)] by simp
  have closed: "groups_closed (take ?k ?ctx)"
    using shape(2) cs groups_estimate[of f "take ?k ?ctx"] by simp
  let ?c = "\<lparr>pc_id = cr_id row, pc_start_message_id = a, pc_end_message_id = e, pc_summary_item = summary_item t\<rparr>"
  have latest: "get_latest_compaction rows' scope = Some ?c"
    using rows' by (simp add: latest_stored)
  have "project_context v (Some ?c) xs =
      \<lparr>pj_item = summary_item t, pj_source_message_ids = [a, e], pj_token_estimate = 0, pj_atomic_group = []\<rparr>
      # drop ?k ?ctx"
    using projection_cut[OF assms(3,4) k, of ?c] cut by simp
  then have "\<exists>s. pj_item s = summary_item (the (summ ?cs)) \<and>
      project_context v (get_latest_compaction rows' scope) xs = s # drop ?k ?ctx"
    using latest t by (intro exI[of _ "\<lparr>pj_item = summary_item t, pj_source_message_ids = [a, e],
      pj_token_estimate = 0, pj_atomic_group = []\<rparr>"]) simp
  moreover have "compaction_ok (get_latest_compaction rows' scope)"
    using latest candidate_bounds[OF ids] by (simp add: compaction_ok_def)
  moreover have "\<forall>other. other \<noteq> scope \<longrightarrow> get_latest_compaction rows' other = get_latest_compaction rows other"
    using rows' by (simp add: latest_stored)
  ultimately show ?thesis using run(2) closed by blast
qed

definition sample_scope :: compaction_scope where
  "sample_scope = \<lparr>cs_session_id = ''s'', cs_viewer_agent_code = ''cso'', cs_nested_for = [], cs_nested_call_id = []\<rparr>"

lemma sample_pass:
  "\<exists>d rows'. compact_if_needed (\<lambda>t. 0) sample_compaction_config sample_scope
      (project_context sample_viewer (get_latest_compaction [] sample_scope) sample_conversation) []
      (\<lambda>cs. Some ''sum'') False 1 [] = (Inr d, rows') \<and> cd_should_compact d"
proof -
  let ?ctx = "project_context sample_viewer None sample_conversation"
  let ?ps = "estimate_projection_tokens (\<lambda>t. 0) ?ctx"
  let ?cfg = sample_compaction_config
  obtain p q r where ctx: "?ctx = [p, q, r]" and ids: "pj_source_message_ids p = [2]"
      "pj_source_message_ids q = [3, 4]"
    using sample_projection by (auto simp: map_eq_Cons_conv)
  have tokens: "pj_token_estimate p = 0" "pj_token_estimate q = 0" "pj_token_estimate r = 0"
    and grp: "pj_atomic_group p = []" "pj_atomic_group q = []"
    using ctx by (auto simp: sample_conversation_def project_context_def project_visible_def
      sample_viewer_def sample_message_def filter_compacted_def item_kind_def
      is_internal_context_item_def is_user_message_def dict_get_def owner_private_types_def
      no_block_def flush_block_def projected_def own_item_def internal_context_item_ids_def
      CONTEXT_SUMMARY_ITEM_ID_def TASK_RESUMPTION_CONTEXT_ITEM_ID_def Let_def tool_group_def)
  let ?est = "\<lambda>x. x\<lparr>pj_token_estimate := 4\<rparr>"
  have ps: "?ps = [?est p, ?est q, ?est r]"
    by (simp add: estimate_projection_tokens_def ctx estimate_item_def tokens estimate_items_tokens_def)
  have total: "pass_tokens (\<lambda>t. 0) ?ctx [] = 12"
    by (simp add: pass_tokens_def ps estimate_items_tokens_def)
  have cs: "pass_candidates (\<lambda>t. 0) ?cfg ?ctx [] = [?est p]"
    by (simp add: pass_candidates_def total ps select_compaction_candidates_def compact_count_def
        sample_compaction_config_def empty_selection_def ids grp toggle_group_def Let_def)
  show ?thesis
    using total cs ids
    by (simp add: compact_if_needed_def pass_tokens_def pass_candidates_def get_latest_compaction_def
        sample_compaction_config_def candidate_start_message_id_def candidate_end_message_id_def
        decision_def Let_def str_strip_Nil_iff py_space_def)
qed

theorem compaction_pass_exact_witness:
  "\<exists>rows' k s. (1 :: nat) \<le> k \<and>
    project_context sample_viewer (get_latest_compaction rows' sample_scope) sample_conversation =
      s # drop k (project_context sample_viewer (get_latest_compaction [] sample_scope) sample_conversation)"
proof -
  obtain d rows' where run: "compact_if_needed (\<lambda>t. 0) sample_compaction_config sample_scope
      (project_context sample_viewer (get_latest_compaction [] sample_scope) sample_conversation) []
      (\<lambda>cs. Some ''sum'') False 1 [] = (Inr d, rows')" and d: "cd_should_compact d"
    using sample_pass by blast
  have inc: "increasing sample_conversation"
    by (simp add: increasing_def sample_conversation_def sample_message_def)
  have ok: "compaction_ok (get_latest_compaction [] sample_scope)"
    by (simp add: compaction_ok_def get_latest_compaction_def)
  have m: "0 < cc_min_items sample_compaction_config" "cc_min_items sample_compaction_config = 1"
    by (simp_all add: sample_compaction_config_def)
  from compaction_pass_exact[OF run d inc ok m(1), THEN conjunct1] obtain k s where
    k: "1 \<le> k" and s: "project_context sample_viewer (get_latest_compaction rows' sample_scope) sample_conversation =
      s # drop k (project_context sample_viewer (get_latest_compaction [] sample_scope) sample_conversation)"
    unfolding m(2) by (elim exE conjE)
  show ?thesis by (intro exI conjI) (rule k s)+
qed

end
