(* ===== verification/Budget.thy ===== *)
theory Budget
  imports Compaction
begin

text \<open>
  The model-call budget, \<^verbatim>\<open>src/core/conversation/context_budget.py\<close>: the input of a model
  call is cut to a suffix of whole chunks, a chunk being one item or a run from a tool call to
  its last output, and tool items without their counterpart are dropped.  Tokens are counted
  by the parameter \<^verbatim>\<open>tok_count\<close> through \<^const>\<open>estimate_items_tokens\<close>; the product of
  the window with the call ratio is the parameter \<^verbatim>\<open>ratio_budget\<close>.
\<close>

record context_budget =
  cb_model :: string
  cb_context_window :: int
  cb_input_budget_tokens :: int

record input_chunk =
  ch_items :: "json list"
  ch_tokens :: int

datatype budget_error = InstructionsTooLong | InputTooLong | LatestItemTooLong | PruningFailed

definition min_completion_slack_tokens :: int where
  "min_completion_slack_tokens = 2048"

definition resolve_context_budget :: "(int \<Rightarrow> int) \<Rightarrow> string \<Rightarrow> int \<Rightarrow> context_budget option" where
  "resolve_context_budget ratio_budget model window =
    (if window \<le> 0 then None
     else let completion_slack = min min_completion_slack_tokens (max 1 (window div 10));
              hard_budget = max 1 (window - completion_slack);
              input_budget = max 1 (min (ratio_budget window) hard_budget)
          in Some \<lparr>cb_model = model, cb_context_window = window, cb_input_budget_tokens = input_budget\<rparr>)"

definition notice_text :: string where
  "notice_text = ''# Context Budget Notice'' @ [newline, newline] @
     ''Older conversation items were omitted from this model call because the active input exceeded '' @
     ''the configured context window. Use the retained context summary and recent messages. Reload '' @
     ''specific files, command outputs, or source documents if exact omitted details are needed.''"

definition budget_notice_item :: json where
  "budget_notice_item = JObj [(''type'', JStr ''message''), (''role'', JStr ''user''),
     (''content'', JList [JObj [(''type'', JStr ''input_text''), (''text'', JStr notice_text)]])]"

definition estimate_instruction_tokens :: "(string \<Rightarrow> nat) \<Rightarrow> string option \<Rightarrow> int" where
  "estimate_instruction_tokens f instructions =
    (case instructions of
       None \<Rightarrow> 0
     | Some t \<Rightarrow> if t = [] then 0
         else estimate_items_tokens f [JObj [(''type'', JStr ''message''), (''role'', JStr ''system''),
                (''content'', JStr t)]])"

definition estimate_model_call_tokens :: "(string \<Rightarrow> nat) \<Rightarrow> json list \<Rightarrow> string option \<Rightarrow> int" where
  "estimate_model_call_tokens f items instructions =
     estimate_items_tokens f items + estimate_instruction_tokens f instructions"

definition split_context_anchor :: "json list \<Rightarrow> json list \<times> json list" where
  "split_context_anchor items =
    (case items of
       [] \<Rightarrow> ([], [])
     | first # rest \<Rightarrow> if is_context_summary_item first then ([first], rest) else ([], items))"

definition item_type :: "json \<Rightarrow> json" where
  "item_type item = (if is_obj item then json_get item ''type'' else JStr [])"

definition item_call_id :: "json \<Rightarrow> string" where
  "item_call_id item = (if is_obj item then tool_call_id item else [])"

definition make_chunk :: "(string \<Rightarrow> nat) \<Rightarrow> json list \<Rightarrow> input_chunk" where
  "make_chunk f items = \<lparr>ch_items = items, ch_tokens = estimate_items_tokens f items\<rparr>"

definition flush_pending :: "(string \<Rightarrow> nat) \<Rightarrow> json list \<Rightarrow> input_chunk list" where
  "flush_pending f pending = (if pending = [] then [] else [make_chunk f pending])"

text \<open>The loop of \<^verbatim>\<open>_build_chunks\<close> on the remaining items; a flushed chunk is the head of the
  result.  \<^verbatim>\<open>open_calls\<close> is a set without duplicates.\<close>

fun chunk_loop :: "(string \<Rightarrow> nat) \<Rightarrow> json list \<Rightarrow> string list \<Rightarrow> json list \<Rightarrow> input_chunk list" where
  "chunk_loop f pending open_calls [] = flush_pending f pending"
| "chunk_loop f pending open_calls (item # rest) =
    (let call_id = item_call_id item in
     if item_type item = JStr ''function_call'' then
       (if pending = [] then chunk_loop f [item] (if call_id \<noteq> [] then [call_id] else []) rest
        else chunk_loop f (pending @ [item])
               (if call_id \<noteq> [] then List.insert call_id open_calls else open_calls) rest)
     else if pending \<noteq> [] then
       (let still_open = (if item_type item = JStr ''function_call_output'' \<and> call_id \<in> set open_calls
                          then removeAll call_id open_calls else open_calls)
        in if still_open = [] then make_chunk f (pending @ [item]) # chunk_loop f [] [] rest
           else chunk_loop f (pending @ [item]) still_open rest)
     else make_chunk f [item] # chunk_loop f [] open_calls rest)"

definition build_chunks :: "(string \<Rightarrow> nat) \<Rightarrow> json list \<Rightarrow> input_chunk list" where
  "build_chunks f items = chunk_loop f [] [] items"

text \<open>The loop over the reversed chunks: the number of selected chunks.\<close>

fun select_count :: "int \<Rightarrow> int \<Rightarrow> input_chunk list \<Rightarrow> nat" where
  "select_count budget used [] = 0"
| "select_count budget used (c # cs) =
    (if budget < used + ch_tokens c then 0 else Suc (select_count budget (used + ch_tokens c) cs))"

definition select_recent_chunks :: "input_chunk list \<Rightarrow> int \<Rightarrow> json list \<times> nat" where
  "select_recent_chunks chunks budget =
    (let n = select_count budget 0 (rev chunks); omitted = length chunks - n
     in (concat (map ch_items (drop omitted chunks)), omitted))"

definition ids_of_type :: "string \<Rightarrow> json list \<Rightarrow> string set" where
  "ids_of_type ty items =
     {tool_call_id item | item. item \<in> set (filter (\<lambda>i. is_obj i \<and> json_get i ''type'' = JStr ty \<and> tool_call_id i \<noteq> []) items)}"

definition paired_ids :: "json list \<Rightarrow> string list" where
  "paired_ids items =
    (let of_type = (\<lambda>ty. map tool_call_id (filter (\<lambda>i. is_obj i \<and> json_get i ''type'' = JStr ty \<and> tool_call_id i \<noteq> []) items))
     in filter (\<lambda>k. k \<in> set (of_type ''function_call_output'')) (of_type ''function_call''))"

definition is_tool_item :: "json \<Rightarrow> bool" where
  "is_tool_item item \<longleftrightarrow> is_obj item \<and>
     json_get item ''type'' \<in> {JStr ''function_call'', JStr ''function_call_output''}"

definition drop_orphan_tool_items :: "json list \<Rightarrow> json list" where
  "drop_orphan_tool_items items =
    (let paired = paired_ids items
     in filter (\<lambda>item. \<not> (is_tool_item item \<and> tool_call_id item \<notin> set paired)) items)"

definition prune_items_to_budget :: "(string \<Rightarrow> nat) \<Rightarrow> json list \<Rightarrow> int \<Rightarrow> budget_error + json list" where
  "prune_items_to_budget f items item_budget =
    (let (anchor0, tail_items) = split_context_anchor items;
         anchor_tokens = (if anchor0 = [] then 0 else estimate_items_tokens f anchor0);
         notice = [budget_notice_item];
         notice_tokens = estimate_items_tokens f notice;
         suffix_budget0 = item_budget - anchor_tokens - notice_tokens;
         (anchor, suffix_budget) =
           (if suffix_budget0 \<le> 0 \<and> anchor0 \<noteq> [] then ([], item_budget - 0 - notice_tokens)
            else (anchor0, suffix_budget0));
         chunks = build_chunks f tail_items;
         (suffix, omitted) = select_recent_chunks chunks (max 0 suffix_budget)
     in if suffix = [] \<and> chunks \<noteq> [] then Inl LatestItemTooLong
        else
          let candidate = drop_orphan_tool_items (if omitted = 0 then anchor @ suffix else anchor @ notice @ suffix)
          in if estimate_items_tokens f candidate \<le> item_budget then Inr candidate
             else if anchor \<noteq> [] then
               (let candidate2 = drop_orphan_tool_items (if 0 < omitted then notice @ suffix else suffix)
                in if estimate_items_tokens f candidate2 \<le> item_budget then Inr candidate2
                   else Inl PruningFailed)
             else Inl PruningFailed)"

definition constrain_model_input ::
  "(string \<Rightarrow> nat) \<Rightarrow> json list \<Rightarrow> string option \<Rightarrow> context_budget \<Rightarrow> budget_error + json list" where
  "constrain_model_input f items instructions budget =
    (let limit = cb_input_budget_tokens budget in
     if estimate_model_call_tokens f items instructions \<le> limit then Inr items
     else
       let item_budget = limit - estimate_instruction_tokens f instructions in
       if item_budget \<le> 0 then Inl InstructionsTooLong
       else (case prune_items_to_budget f items item_budget of
         Inl e \<Rightarrow> Inl e
       | Inr constrained \<Rightarrow>
           if limit < estimate_model_call_tokens f constrained instructions then Inl InputTooLong
           else Inr constrained))"

definition budget_filter ::
  "(string \<Rightarrow> nat) \<Rightarrow> (int \<Rightarrow> int) \<Rightarrow> string \<Rightarrow> int \<Rightarrow> json list \<Rightarrow> string option \<Rightarrow> budget_error + json list" where
  "budget_filter f ratio_budget model window items instructions =
    (case resolve_context_budget ratio_budget model window of
       None \<Rightarrow> Inr items
     | Some budget \<Rightarrow> constrain_model_input f items instructions budget)"

section \<open>Chunks, suffixes and pairs\<close>

lemma chunk_loop_concat: "concat (map ch_items (chunk_loop f pending oc items)) = pending @ items"
  by (induction items arbitrary: pending oc)
    (auto simp: flush_pending_def make_chunk_def Let_def)

lemma build_chunks_concat: "concat (map ch_items (build_chunks f items)) = items"
  by (simp add: build_chunks_def chunk_loop_concat)

lemma chunk_loop_tokens: "c \<in> set (chunk_loop f pending oc items) \<Longrightarrow>
    ch_items c \<noteq> [] \<and> ch_tokens c = estimate_items_tokens f (ch_items c)"
proof (induction items arbitrary: pending oc)
  case Nil
  then show ?case by (auto simp: flush_pending_def make_chunk_def split: if_splits)
next
  case (Cons i its)
  then show ?case by (auto simp: make_chunk_def Let_def split: if_splits)
qed

lemma select_suffix:
  assumes "select_recent_chunks (build_chunks f items) b = (s, omitted)"
  shows "suffix s items \<and> (omitted = 0 \<longrightarrow> s = items)"
proof -
  let ?cs = "build_chunks f items"
  have s: "s = concat (map ch_items (drop omitted ?cs))"
    using assms by (auto simp: select_recent_chunks_def Let_def)
  have "items = concat (map ch_items (take omitted ?cs)) @ concat (map ch_items (drop omitted ?cs))"
    using build_chunks_concat[of f items]
    by (metis append_take_drop_id concat_append map_append)
  with s show ?thesis using build_chunks_concat[of f items] by (auto simp: suffix_def)
qed

lemma set_paired: "set (paired_ids items) = ids_of_type ''function_call'' items \<inter> ids_of_type ''function_call_output'' items"
  by (auto simp: paired_ids_def ids_of_type_def Let_def)

lemma ids_of_type_filter:
  assumes "\<And>i. i \<in> set items \<Longrightarrow> is_obj i \<Longrightarrow> json_get i ''type'' = JStr ty \<Longrightarrow> tool_call_id i \<noteq> [] \<Longrightarrow>
      P i \<longleftrightarrow> tool_call_id i \<in> K"
  shows "ids_of_type ty (filter P items) = ids_of_type ty items \<inter> K"
  using assms by (auto simp: ids_of_type_def)

lemma drop_orphan_ids:
  assumes "ty = ''function_call'' \<or> ty = ''function_call_output''"
  shows "ids_of_type ty (drop_orphan_tool_items items) = set (paired_ids items)"
proof -
  have "ids_of_type ty (drop_orphan_tool_items items) = ids_of_type ty items \<inter> set (paired_ids items)"
    unfolding drop_orphan_tool_items_def Let_def using assms
    by (intro ids_of_type_filter) (auto simp: is_tool_item_def)
  with assms show ?thesis by (auto simp: set_paired)
qed

lemma drop_orphan_no_empty:
  "item \<in> set (drop_orphan_tool_items items) \<Longrightarrow> is_tool_item item \<Longrightarrow> tool_call_id item \<in> set (paired_ids items)"
  by (auto simp: drop_orphan_tool_items_def Let_def)

definition tool_items_paired :: "json list \<Rightarrow> bool" where
  "tool_items_paired items \<longleftrightarrow>
     ids_of_type ''function_call'' items = ids_of_type ''function_call_output'' items \<and>
     (\<forall>item\<in>set items. is_tool_item item \<longrightarrow> tool_call_id item \<in> ids_of_type ''function_call'' items)"

lemma drop_orphan_paired: "tool_items_paired (drop_orphan_tool_items items)"
  using drop_orphan_no_empty by (auto simp: tool_items_paired_def drop_orphan_ids)

text \<open>What pruning may return: an optional summary anchor, an optional notice and a suffix.\<close>

definition pruned_form :: "json list \<Rightarrow> json list \<Rightarrow> bool" where
  "pruned_form items out \<longleftrightarrow>
     (\<exists>anchor notice s. out = drop_orphan_tool_items (anchor @ notice @ s) \<and>
        (anchor = [] \<or> anchor = fst (split_context_anchor items)) \<and>
        (notice = [] \<or> notice = [budget_notice_item]) \<and>
        suffix s (snd (split_context_anchor items)))"

lemma prune_result:
  assumes "prune_items_to_budget f items b = Inr out"
  shows "estimate_items_tokens f out \<le> b \<and> pruned_form items out"
proof -
  obtain anchor0 tail_items where sp: "split_context_anchor items = (anchor0, tail_items)" by fastforce
  let ?notice = "[budget_notice_item]"
  let ?sb = "b - (if anchor0 = [] then 0 else estimate_items_tokens f anchor0) - estimate_items_tokens f ?notice"
  have pair: "(if c then (x, y) else (z, w)) = (if c then x else z, if c then y else w)"
    for c and x z :: "json list" and y w :: int by simp
  define anchor where "anchor = (if ?sb \<le> 0 \<and> anchor0 \<noteq> [] then [] else anchor0)"
  define sb where "sb = (if ?sb \<le> 0 \<and> anchor0 \<noteq> [] then b - 0 - estimate_items_tokens f ?notice else ?sb)"
  have either: "(if c then x else y) = x \<or> (if c then x else y) = y" for c and x y :: "json list"
    by simp
  have anchor: "anchor = [] \<or> anchor = anchor0" unfolding anchor_def by (rule either)
  obtain s omitted where sel: "select_recent_chunks (build_chunks f tail_items) (max 0 sb) = (s, omitted)" by fastforce
  have form: "pruned_form items (drop_orphan_tool_items (x @ n @ s))"
    if "x = [] \<or> x = anchor0" "n = [] \<or> n = ?notice" for x n
    using that sp select_suffix[OF sel] unfolding pruned_form_def by (metis fst_conv snd_conv)
  define c1 where "c1 = drop_orphan_tool_items (if omitted = 0 then anchor @ s else anchor @ ?notice @ s)"
  define c2 where "c2 = drop_orphan_tool_items (if 0 < omitted then ?notice @ s else s)"
  have f1: "pruned_form items c1"
    using form[OF anchor, of "[]"] form[OF anchor, of ?notice] by (simp add: c1_def)
  have f2: "pruned_form items c2" using form[of "[]" "[]"] form[of "[]" ?notice] by (simp add: c2_def)
  have eq: "prune_items_to_budget f items b =
      (if s = [] \<and> build_chunks f tail_items \<noteq> [] then Inl LatestItemTooLong
       else if estimate_items_tokens f c1 \<le> b then Inr c1
       else if anchor \<noteq> [] then (if estimate_items_tokens f c2 \<le> b then Inr c2 else Inl PruningFailed)
       else Inl PruningFailed)"
    unfolding prune_items_to_budget_def sp Let_def prod.case pair anchor_def[symmetric] sb_def[symmetric] sel
      c1_def[symmetric] c2_def[symmetric] by (rule refl)
  have "(out = c1 \<or> out = c2) \<and> estimate_items_tokens f out \<le> b"
    using assms unfolding eq by (simp split: if_split_asm)
  with f1 f2 show ?thesis by blast
qed

text \<open>C12. The model input a call is sent fits the budget or the call is refused: an input
  within the budget is sent unchanged; otherwise what is sent fits, its tool calls and outputs
  are paired, and it is the summary anchor, the notice and a suffix of the input, without
  unpaired tool items.\<close>

theorem model_input_fits:
  assumes "constrain_model_input f items instructions budget = Inr out"
  shows "estimate_model_call_tokens f out instructions \<le> cb_input_budget_tokens budget \<and>
    (if estimate_model_call_tokens f items instructions \<le> cb_input_budget_tokens budget then out = items
     else tool_items_paired out \<and> pruned_form items out)"
proof (cases "estimate_model_call_tokens f items instructions \<le> cb_input_budget_tokens budget")
  case False
  let ?b = "cb_input_budget_tokens budget - estimate_instruction_tokens f instructions"
  from assms False have p: "prune_items_to_budget f items ?b = Inr out"
    by (cases "prune_items_to_budget f items ?b") (simp_all add: constrain_model_input_def Let_def split: if_splits)
  with assms False have fit: "estimate_model_call_tokens f out instructions \<le> cb_input_budget_tokens budget"
    by (simp add: constrain_model_input_def Let_def split: if_splits)
  have "tool_items_paired out"
    using prune_result[OF p] drop_orphan_paired by (auto simp: pruned_form_def)
  with False fit prune_result[OF p] show ?thesis by simp
qed (use assms in \<open>simp add: constrain_model_input_def Let_def\<close>)

definition sample_call :: "string \<Rightarrow> string \<Rightarrow> json" where
  "sample_call ty k = JObj [(''type'', JStr ty), (''call_id'', JStr k)]"

theorem model_input_fits_witness:
  "\<exists>out. constrain_model_input (\<lambda>t. 0) [sample_call ''message'' ''x'', sample_call ''message'' ''y'',
       sample_call ''function_call'' ''k'', sample_call ''function_call_output'' ''k''] None
     \<lparr>cb_model = ''m'', cb_context_window = 20, cb_input_budget_tokens = 12\<rparr> = Inr out \<and>
     tool_items_paired out"
proof -
  let ?c = "sample_call ''function_call'' ''k''" and ?o = "sample_call ''function_call_output'' ''k''"
  let ?x = "sample_call ''message'' ''x''" and ?y = "sample_call ''message'' ''y''"
  let ?b = "\<lparr>cb_model = ''m'', cb_context_window = 20, cb_input_budget_tokens = 12\<rparr>"
  have eval: "item_type ?c = JStr ''function_call''" "item_type ?o = JStr ''function_call_output''"
    "item_type ?x = JStr ''message''" "item_type ?y = JStr ''message''"
    "item_call_id ?c = ''k''" "item_call_id ?o = ''k''"
    by (simp_all add: sample_call_def item_type_def item_call_id_def tool_call_id_def dict_get_def json_or_def)
  have tokens: "estimate_items_tokens (\<lambda>t. 0) its = 4 * int (length its)" for its
    by (induction its) (simp_all add: estimate_items_tokens_def)
  have chunks: "build_chunks (\<lambda>t. 0) [?x, ?y, ?c, ?o] =
      [make_chunk (\<lambda>t. 0) [?x], make_chunk (\<lambda>t. 0) [?y], make_chunk (\<lambda>t. 0) [?c, ?o]]"
    by (simp add: build_chunks_def eval Let_def flush_pending_def)
  have sel: "select_recent_chunks (build_chunks (\<lambda>t. 0) [?x, ?y, ?c, ?o]) 8 = ([?c, ?o], 2)"
    unfolding chunks by (simp add: select_recent_chunks_def make_chunk_def tokens Let_def)
  have anchor: "split_context_anchor [?x, ?y, ?c, ?o] = ([], [?x, ?y, ?c, ?o])"
    by (simp add: split_context_anchor_def is_context_summary_item_def is_user_message_def
        sample_call_def dict_get_def)
  have orphan: "drop_orphan_tool_items [budget_notice_item, ?c, ?o] = [budget_notice_item, ?c, ?o]"
    by (simp add: drop_orphan_tool_items_def paired_ids_def is_tool_item_def sample_call_def
        budget_notice_item_def tool_call_id_def dict_get_def json_or_def Let_def)
  have "constrain_model_input (\<lambda>t. 0) [?x, ?y, ?c, ?o] None ?b = Inr [budget_notice_item, ?c, ?o]"
    by (simp add: constrain_model_input_def estimate_model_call_tokens_def estimate_instruction_tokens_def
        tokens prune_items_to_budget_def anchor sel orphan Let_def)
  from model_input_fits[OF this] this show ?thesis
    by (simp add: estimate_model_call_tokens_def estimate_instruction_tokens_def tokens)
qed

end
