(* ===== verification/Notifications.thy ===== *)
theory Notifications
  imports Json
begin

text \<open>
  The notification table, \<^verbatim>\<open>src/service/agent/notifications.py\<close>: the durable inbox that
  resumes agent turns.  The table is the list of its rows in insertion order; every operation
  is one committed transaction on it.  Identifiers and the current time are arguments.  An
  operation that only reads returns its value; one that writes returns its value and the table.
\<close>

datatype notification_kind = SUBAGENT_FINISHED | SANDBOX_ASYNC_JOB_FINISHED | USER_MESSAGE

datatype notification_status = N_AWAITING | N_PENDING | N_PROCESSING | N_COMPLETED | N_FAILED | N_CANCELED

definition outstanding_statuses :: "notification_status list" where
  "outstanding_statuses = [N_AWAITING, N_PENDING, N_PROCESSING]"

definition terminal_statuses :: "notification_status list" where
  "terminal_statuses = [N_COMPLETED, N_FAILED, N_CANCELED]"

definition active_cancelable :: "notification_status list" where
  "active_cancelable = [N_PENDING, N_PROCESSING]"

definition USER_MESSAGE_PRIORITY :: int where
  "USER_MESSAGE_PRIORITY = 10"

definition SYSTEM_NOTIFICATION_PRIORITY :: int where
  "SYSTEM_NOTIFICATION_PRIORITY = 0"

type_synonym dict = "(string \<times> json) list"

record notification =
  nt_id :: string
  nt_session_id :: string
  nt_target_agent_code :: string
  nt_target_instance :: string
  nt_nested_for :: string
  nt_nested_call_id :: string
  nt_container_id :: "int option"
  nt_container_generation :: int
  nt_skill_metadata :: "string list"
  nt_kind :: notification_kind
  nt_status :: notification_status
  nt_priority :: int
  nt_run_id :: string
  nt_payload :: dict
  nt_error :: string
  nt_created_at :: datetime
  nt_updated_at :: datetime
  nt_started_at :: "datetime option"
  nt_finished_at :: "datetime option"

text \<open>The arguments \<^verbatim>\<open>add_obligation_in_session\<close> and its user-message sibling share: whom
  the notification is for, and the runtime scope.\<close>

record notification_target =
  tg_session_id :: string
  tg_agent_code :: string
  tg_instance :: string
  tg_nested_for :: string
  tg_nested_call_id :: string
  tg_container_id :: "int option"
  tg_container_generation :: int
  tg_skill_metadata :: "string list"
  tg_allowed_targets :: "string list"
  tg_allowed_action_types :: "string list"
  tg_scope_id :: string

record notification_snapshot =
  sn_id :: string
  sn_session_id :: string
  sn_target_agent_code :: string
  sn_target_instance :: string
  sn_nested_for :: string
  sn_nested_call_id :: string
  sn_kind :: notification_kind
  sn_status :: notification_status
  sn_priority :: int
  sn_run_id :: string
  sn_payload :: dict
  sn_error :: string
  sn_container_id :: "int option"
  sn_container_generation :: int
  sn_skill_metadata :: "string list"
  sn_allowed_targets :: "string list"
  sn_allowed_action_types :: "string list"
  sn_scope_id :: string
  sn_created_at :: datetime
  sn_updated_at :: datetime
  sn_started_at :: "datetime option"
  sn_finished_at :: "datetime option"
  sn_user_content :: "json list option"
  sn_user_display_text :: string
  sn_user_requested_agent_code :: string

section \<open>Payloads and snapshots\<close>

definition runtime_scope_key :: string where
  "runtime_scope_key = ''_runtime_scope''"

definition payload_with_runtime_scope :: "dict \<Rightarrow> string list \<Rightarrow> string list \<Rightarrow> string \<Rightarrow> dict" where
  "payload_with_runtime_scope payload targets actions scope_id =
    (if targets \<noteq> [] \<or> actions \<noteq> [] \<or> scope_id \<noteq> []
     then AList.update runtime_scope_key
            (JObj [(''allowed_targets'', JList (map JStr targets)),
                   (''allowed_action_types'', JList (map JStr actions)),
                   (''scope_id'', JStr scope_id)]) payload
     else payload)"

definition runtime_scope_payload :: "dict \<Rightarrow> dict" where
  "runtime_scope_payload payload = (case dict_get payload runtime_scope_key of JObj d \<Rightarrow> d | _ \<Rightarrow> [])"

text \<open>The strings of a list value.\<close>

fun coerce_string_tuple :: "json \<Rightarrow> string list" where
  "coerce_string_tuple (JList xs) = List.map_filter (\<lambda>x. case x of JStr s \<Rightarrow> Some s | _ \<Rightarrow> None) xs"
| "coerce_string_tuple _ = []"

text \<open>\<^verbatim>\<open>str(value or "")\<close> for the scalar values the writers store in text fields.\<close>

fun text_field :: "json \<Rightarrow> string" where
  "text_field (JStr s) = s"
| "text_field (JInt n) = (if n = 0 then [] else show_int n)"
| "text_field (JBool b) = (if b then ''True'' else [])"
| "text_field _ = []"

definition snapshot_from_notification :: "notification \<Rightarrow> notification_snapshot" where
  "snapshot_from_notification n =
    (let payload = nt_payload n; scope = runtime_scope_payload payload; is_user = (nt_kind n = USER_MESSAGE)
     in \<lparr>sn_id = nt_id n, sn_session_id = nt_session_id n, sn_target_agent_code = nt_target_agent_code n,
         sn_target_instance = nt_target_instance n, sn_nested_for = nt_nested_for n,
         sn_nested_call_id = nt_nested_call_id n, sn_kind = nt_kind n, sn_status = nt_status n,
         sn_priority = nt_priority n, sn_run_id = nt_run_id n, sn_payload = payload, sn_error = nt_error n,
         sn_container_id = nt_container_id n, sn_container_generation = nt_container_generation n,
         sn_skill_metadata = nt_skill_metadata n,
         sn_allowed_targets = coerce_string_tuple (dict_get scope ''allowed_targets''),
         sn_allowed_action_types = coerce_string_tuple (dict_get scope ''allowed_action_types''),
         sn_scope_id = text_field (dict_get scope ''scope_id''),
         sn_created_at = nt_created_at n, sn_updated_at = nt_updated_at n,
         sn_started_at = nt_started_at n, sn_finished_at = nt_finished_at n,
         sn_user_content = (if is_user then (case dict_get payload ''content'' of JList xs \<Rightarrow> Some xs | _ \<Rightarrow> None)
           else None),
         sn_user_display_text = (if is_user then text_field (dict_get payload ''display_text'') else []),
         sn_user_requested_agent_code =
           (if is_user then text_field (dict_get payload ''requested_agent_code'') else [])\<rparr>)"

section \<open>Registering\<close>

text \<open>An insert; \<^const>\<open>None\<close> is the violated primary key or unique (kind, run) pair.\<close>

definition insert_notification :: "notification \<Rightarrow> notification list \<Rightarrow> notification list option" where
  "insert_notification n rows =
    (if \<exists>r\<in>set rows. nt_id r = nt_id n \<or> (nt_kind r = nt_kind n \<and> nt_run_id r = nt_run_id n) then None
     else Some (rows @ [n]))"

definition new_notification ::
  "string \<Rightarrow> notification_kind \<Rightarrow> notification_target \<Rightarrow> string \<Rightarrow> dict \<Rightarrow> notification_status \<Rightarrow> int
     \<Rightarrow> datetime \<Rightarrow> notification" where
  "new_notification fresh_id kind tg run_id payload status prio now =
     \<lparr>nt_id = fresh_id, nt_session_id = tg_session_id tg, nt_target_agent_code = tg_agent_code tg,
      nt_target_instance = tg_instance tg, nt_nested_for = tg_nested_for tg,
      nt_nested_call_id = tg_nested_call_id tg, nt_container_id = tg_container_id tg,
      nt_container_generation = tg_container_generation tg, nt_skill_metadata = tg_skill_metadata tg,
      nt_kind = kind, nt_status = status, nt_priority = prio, nt_run_id = run_id,
      nt_payload = payload_with_runtime_scope payload (tg_allowed_targets tg) (tg_allowed_action_types tg)
        (tg_scope_id tg),
      nt_error = [], nt_created_at = now, nt_updated_at = now, nt_started_at = None, nt_finished_at = None\<rparr>"

definition add_obligation ::
  "string \<Rightarrow> notification_kind \<Rightarrow> notification_target \<Rightarrow> string \<Rightarrow> dict \<Rightarrow> datetime
     \<Rightarrow> notification list \<Rightarrow> notification list option" where
  "add_obligation fresh_id kind tg run_id payload now rows =
     insert_notification
       (new_notification fresh_id kind tg run_id payload N_AWAITING SYSTEM_NOTIFICATION_PRIORITY now) rows"

definition resolved_payload :: "dict option \<Rightarrow> notification \<Rightarrow> dict" where
  "resolved_payload payload n =
    (case payload of
       None \<Rightarrow> nt_payload n
     | Some p \<Rightarrow>
         let current_scope = runtime_scope_payload (nt_payload n)
         in if current_scope \<noteq> [] then AList.update runtime_scope_key (JObj current_scope) p else p)"

text \<open>The first row of the kind and run is resolved when it is still awaiting.\<close>

definition resolve_row :: "bool \<Rightarrow> dict option \<Rightarrow> string \<Rightarrow> datetime \<Rightarrow> notification \<Rightarrow> notification" where
  "resolve_row ready payload error now n =
     n\<lparr>nt_status := (if ready then N_PENDING else N_CANCELED),
       nt_payload := resolved_payload payload n, nt_error := error, nt_updated_at := now,
       nt_finished_at := (if ready then nt_finished_at n else Some now)\<rparr>"

definition resolve_obligation ::
  "notification_kind \<Rightarrow> string \<Rightarrow> bool \<Rightarrow> dict option \<Rightarrow> string \<Rightarrow> datetime \<Rightarrow> notification list \<Rightarrow> notification list" where
  "resolve_obligation kind run_id ready payload error now rows =
    (case List.find (\<lambda>n. nt_kind n = kind \<and> nt_run_id n = run_id) rows of
       None \<Rightarrow> rows
     | Some n \<Rightarrow>
         if nt_status n \<noteq> N_AWAITING then rows
         else update_rows (\<lambda>r. nt_id r = nt_id n) (resolve_row ready payload error now) rows)"

definition enqueue_user_message ::
  "string \<Rightarrow> string \<Rightarrow> notification_target \<Rightarrow> json list \<Rightarrow> string \<Rightarrow> string \<Rightarrow> datetime
     \<Rightarrow> notification list \<Rightarrow> (notification_snapshot \<times> notification list) option" where
  "enqueue_user_message fresh_id run_id tg content display_text requested_agent now rows =
    (let n = new_notification fresh_id USER_MESSAGE (tg\<lparr>tg_nested_for := [], tg_nested_call_id := []\<rparr>) run_id
               [(''content'', JList content), (''display_text'', JStr display_text),
                (''requested_agent_code'', JStr requested_agent)]
               N_PENDING USER_MESSAGE_PRIORITY now
     in map_option (Pair (snapshot_from_notification n)) (insert_notification n rows))"

section \<open>Claiming and finishing\<close>

definition main_agent_prefix :: string where
  "main_agent_prefix = ''main:''"

text \<open>SQLite's \<^verbatim>\<open>LIKE 'main:%'\<close> ignores the case of ASCII letters.\<close>

definition ascii_lower :: "char \<Rightarrow> char" where
  "ascii_lower c = (let n = (of_char c :: nat) in if 65 \<le> n \<and> n \<le> 90 then char_of (n + 32) else c)"

definition like_main_agent :: "string \<Rightarrow> bool" where
  "like_main_agent instance_id \<longleftrightarrow> map ascii_lower (take 5 instance_id) = main_agent_prefix"

definition target_matches :: "string option \<Rightarrow> notification \<Rightarrow> bool" where
  "target_matches instance_id n =
    (case instance_id of Some i \<Rightarrow> nt_target_instance n = i | None \<Rightarrow> like_main_agent (nt_target_instance n))"

definition pending_for :: "string \<Rightarrow> string option \<Rightarrow> string option \<Rightarrow> notification \<Rightarrow> bool" where
  "pending_for session_id code instance_id n \<longleftrightarrow>
     nt_session_id n = session_id \<and> nt_status n = N_PENDING \<and>
     (case code of None \<Rightarrow> True | Some c \<Rightarrow> nt_target_agent_code n = c) \<and> target_matches instance_id n"

text \<open>\<^verbatim>\<open>order_by(priority.desc(), created_at.asc())\<close>.\<close>

definition claim_order :: "notification list \<Rightarrow> notification list" where
  "claim_order ns = sort_key (\<lambda>n. - nt_priority n) (sort_key nt_created_at ns)"

definition find_notification :: "string \<Rightarrow> notification list \<Rightarrow> notification option" where
  "find_notification k rows = List.find (\<lambda>n. nt_id n = k) rows"

text \<open>A guarded UPDATE: rolled back unless exactly one row matched.\<close>

definition guarded_update ::
  "(notification \<Rightarrow> bool) \<Rightarrow> (notification \<Rightarrow> notification) \<Rightarrow> notification list \<Rightarrow> notification list option" where
  "guarded_update p f rows = (if length (filter p rows) = 1 then Some (update_rows p f rows) else None)"

definition claim_next_pending ::
  "string \<Rightarrow> string option \<Rightarrow> string option \<Rightarrow> datetime \<Rightarrow> notification list
     \<Rightarrow> notification_snapshot option \<times> notification list" where
  "claim_next_pending session_id code instance_id now rows =
    (case claim_order (filter (pending_for session_id code instance_id) rows) of
       [] \<Rightarrow> (None, rows)
     | n # _ \<Rightarrow>
         (case guarded_update (\<lambda>r. nt_id r = nt_id n \<and> nt_status r = N_PENDING)
                (\<lambda>r. r\<lparr>nt_status := N_PROCESSING, nt_started_at := Some now, nt_updated_at := now\<rparr>) rows of
            None \<Rightarrow> (None, rows)
          | Some rows' \<Rightarrow> (map_option snapshot_from_notification (find_notification (nt_id n) rows'), rows')))"

definition has_pending_notification :: "string \<Rightarrow> string option \<Rightarrow> string option \<Rightarrow> notification list \<Rightarrow> bool" where
  "has_pending_notification session_id code instance_id rows \<longleftrightarrow>
     (\<exists>n\<in>set rows. pending_for session_id code instance_id n)"

definition has_pending_main_agent_notification :: "string \<Rightarrow> notification list \<Rightarrow> bool" where
  "has_pending_main_agent_notification session_id rows \<longleftrightarrow>
     (\<exists>n\<in>set rows. nt_session_id n = session_id \<and> nt_status n = N_PENDING \<and> like_main_agent (nt_target_instance n))"

definition has_active_session_notifications :: "string \<Rightarrow> notification list \<Rightarrow> bool" where
  "has_active_session_notifications session_id rows \<longleftrightarrow>
     (\<exists>n\<in>set rows. nt_session_id n = session_id \<and> nt_status n \<in> set outstanding_statuses)"

definition has_outstanding_target_notifications :: "string \<Rightarrow> string option \<Rightarrow> notification list \<Rightarrow> bool" where
  "has_outstanding_target_notifications session_id instance_id rows \<longleftrightarrow>
     (\<exists>n\<in>set rows. nt_session_id n = session_id \<and> nt_status n \<in> set outstanding_statuses \<and>
        target_matches instance_id n)"

definition finish_notification ::
  "string \<Rightarrow> notification_status \<Rightarrow> string \<Rightarrow> datetime \<Rightarrow> notification list
     \<Rightarrow> notification_snapshot option \<times> notification list" where
  "finish_notification k status error now rows =
    (case find_notification k rows of
       None \<Rightarrow> (None, rows)
     | Some n \<Rightarrow>
         if nt_status n \<in> set terminal_statuses then (Some (snapshot_from_notification n), rows)
         else (case guarded_update (\<lambda>r. nt_id r = k \<and> nt_status r = N_PROCESSING)
                 (\<lambda>r. r\<lparr>nt_status := status, nt_error := error, nt_updated_at := now, nt_finished_at := Some now\<rparr>)
                 rows of
           None \<Rightarrow> (map_option snapshot_from_notification (find_notification k rows), rows)
         | Some rows' \<Rightarrow> (map_option snapshot_from_notification (find_notification k rows'), rows')))"

definition complete_notification where
  "complete_notification k now rows = finish_notification k N_COMPLETED [] now rows"

definition fail_notification where
  "fail_notification k error now rows = finish_notification k N_FAILED error now rows"

definition release_notification ::
  "string \<Rightarrow> datetime \<Rightarrow> notification list \<Rightarrow> notification_snapshot option \<times> notification list" where
  "release_notification k now rows =
    (case find_notification k rows of
       None \<Rightarrow> (None, rows)
     | Some n \<Rightarrow>
         if nt_status n \<noteq> N_PROCESSING then (Some (snapshot_from_notification n), rows)
         else (case guarded_update (\<lambda>r. nt_id r = k \<and> nt_status r = N_PROCESSING)
                 (\<lambda>r. r\<lparr>nt_status := N_PENDING, nt_error := [], nt_updated_at := now\<rparr>) rows of
           None \<Rightarrow> (map_option snapshot_from_notification (find_notification k rows), rows)
         | Some rows' \<Rightarrow> (map_option snapshot_from_notification (find_notification k rows'), rows')))"

section \<open>Cancelling\<close>

definition cancel_matches ::
  "string \<Rightarrow> string option \<Rightarrow> bool \<Rightarrow> bool \<Rightarrow> notification_status list \<Rightarrow> notification \<Rightarrow> bool" where
  "cancel_matches session_id instance_equals main_only spare_unclaimed statuses n \<longleftrightarrow>
     nt_session_id n = session_id \<and> nt_status n \<in> set statuses \<and>
     (case instance_equals of None \<Rightarrow> True | Some i \<Rightarrow> nt_target_instance n = i) \<and>
     (main_only \<longrightarrow> like_main_agent (nt_target_instance n)) \<and>
     (spare_unclaimed \<longrightarrow> nt_kind n \<noteq> USER_MESSAGE \<or> nt_started_at n \<noteq> None)"

definition cancel_row :: "string \<Rightarrow> datetime \<Rightarrow> notification \<Rightarrow> notification" where
  "cancel_row error now n =
     n\<lparr>nt_status := N_CANCELED, nt_error := error, nt_updated_at := now, nt_finished_at := Some now\<rparr>"

definition cancel_notifications ::
  "string \<Rightarrow> string option \<Rightarrow> bool \<Rightarrow> bool \<Rightarrow> notification_status list \<Rightarrow> string \<Rightarrow> datetime
     \<Rightarrow> notification list \<Rightarrow> notification_snapshot list \<times> notification list" where
  "cancel_notifications session_id instance_equals main_only spare_unclaimed statuses error now rows =
    (let p = cancel_matches session_id instance_equals main_only spare_unclaimed statuses
     in (map (snapshot_from_notification \<circ> cancel_row error now) (filter p rows),
         update_rows p (cancel_row error now) rows))"

definition cancel_session_notifications where
  "cancel_session_notifications session_id instance_id error now rows =
     cancel_notifications session_id instance_id False False outstanding_statuses error now rows"

definition cancel_main_agent_interrupted where
  "cancel_main_agent_interrupted session_id error now rows =
     cancel_notifications session_id None True True active_cancelable error now rows"

definition reset_processing_all :: "datetime \<Rightarrow> notification list \<Rightarrow> nat \<times> notification list" where
  "reset_processing_all now rows =
    (length (filter (\<lambda>n. nt_status n = N_PROCESSING) rows),
     update_rows (\<lambda>n. nt_status n = N_PROCESSING)
       (\<lambda>n. n\<lparr>nt_status := N_PENDING, nt_error := [], nt_started_at := None, nt_updated_at := now\<rparr>) rows)"

section \<open>The life of a notification\<close>

inductive status_step :: "notification_status \<Rightarrow> notification_status \<Rightarrow> bool" where
  ready: "status_step N_AWAITING N_PENDING"
| dropped: "status_step N_AWAITING N_CANCELED"
| claimed: "status_step N_PENDING N_PROCESSING"
| withdrawn: "status_step N_PENDING N_CANCELED"
| released: "status_step N_PROCESSING N_PENDING"
| completed: "status_step N_PROCESSING N_COMPLETED"
| failed: "status_step N_PROCESSING N_FAILED"
| interrupted: "status_step N_PROCESSING N_CANCELED"

inductive_simps status_step_simps [simp]:
  "status_step N_AWAITING t" "status_step N_PENDING t" "status_step N_PROCESSING t"
  "status_step N_COMPLETED t" "status_step N_FAILED t" "status_step N_CANCELED t"

definition same_identity :: "notification \<Rightarrow> notification \<Rightarrow> bool" where
  "same_identity n m \<longleftrightarrow>
     nt_id m = nt_id n \<and> nt_kind m = nt_kind n \<and> nt_run_id m = nt_run_id n \<and>
     nt_session_id m = nt_session_id n \<and> nt_target_instance m = nt_target_instance n \<and>
     nt_target_agent_code m = nt_target_agent_code n \<and> nt_priority m = nt_priority n \<and>
     nt_created_at m = nt_created_at n"

definition row_evolves :: "notification \<Rightarrow> notification \<Rightarrow> bool" where
  "row_evolves n m \<longleftrightarrow> same_identity n m \<and> status_step\<^sup>*\<^sup>* (nt_status n) (nt_status m)"

definition table_evolves :: "notification list \<Rightarrow> notification list \<Rightarrow> bool" where
  "table_evolves rows rows' \<longleftrightarrow> (\<exists>kept new. rows' = kept @ new \<and> list_all2 row_evolves rows kept)"

lemma same_identity_refl [simp]: "same_identity n n"
  by (simp add: same_identity_def)

lemma row_evolves_refl [simp]: "row_evolves n n"
  by (simp add: row_evolves_def)

lemma row_evolves_trans: "row_evolves a b \<Longrightarrow> row_evolves b c \<Longrightarrow> row_evolves a c"
  by (auto simp: row_evolves_def same_identity_def)

lemma row_evolves_step: "same_identity n m \<Longrightarrow> status_step (nt_status n) (nt_status m) \<Longrightarrow> row_evolves n m"
  by (auto simp: row_evolves_def)

lemma table_evolves_refl [simp]: "table_evolves rows rows"
  unfolding table_evolves_def by (rule exI[of _ rows]) (simp add: list_all2_refl)

lemma table_evolves_trans: "table_evolves a b \<Longrightarrow> table_evolves b c \<Longrightarrow> table_evolves a c"
proof -
  assume "table_evolves a b" and "table_evolves b c"
  then obtain k1 n1 k2 n2 where b: "b = k1 @ n1" "list_all2 row_evolves a k1"
    and c: "c = k2 @ n2" "list_all2 row_evolves (k1 @ n1) k2"
    by (auto simp: table_evolves_def)
  then obtain u v where "k2 = u @ v" "list_all2 row_evolves k1 u"
    by (auto simp: list_all2_append1)
  moreover from this b(2) have "list_all2 row_evolves a u"
    using list_all2_trans[of row_evolves row_evolves row_evolves] row_evolves_trans by blast
  ultimately show ?thesis using c(1) by (auto simp: table_evolves_def)
qed

lemma update_evolves [inv_intros]:
  assumes "\<And>n. n \<in> set rows \<Longrightarrow> p n \<Longrightarrow> row_evolves n (f n)"
  shows "table_evolves rows (update_rows p f rows)"
proof -
  have "list_all2 row_evolves rows (update_rows p f rows)"
    using assms by (induction rows) auto
  then show ?thesis unfolding table_evolves_def by (metis append_Nil2)
qed

lemma guarded_evolves [inv_intros]:
  assumes "guarded_update p f rows = Some rows'"
    and "\<And>n. n \<in> set rows \<Longrightarrow> p n \<Longrightarrow> row_evolves n (f n)"
  shows "table_evolves rows rows'"
  using assms update_evolves[of rows p f] by (auto simp: guarded_update_def split: if_splits)

lemma insert_evolves [inv_intros]: "insert_notification n rows = Some rows' \<Longrightarrow> table_evolves rows rows'"
  by (auto simp: insert_notification_def table_evolves_def list_all2_refl split: if_splits)

lemma resolve_evolves:
  assumes "distinct (map nt_id rows)"
  shows "table_evolves rows (resolve_obligation kind run_id ready payload error now rows)"
proof (cases "List.find (\<lambda>n. nt_kind n = kind \<and> nt_run_id n = run_id) rows")
  case (Some n)
  show ?thesis
  proof (cases "nt_status n = N_AWAITING")
    case True
    have "row_evolves r (resolve_row ready payload error now r)"
      if "r \<in> set rows" "nt_id r = nt_id n" for r
    proof -
      have "r = n" using that find_SomeD[OF Some] assms by (auto simp: distinct_map inj_on_def)
      with True show ?thesis
        by (intro row_evolves_step) (simp_all add: resolve_row_def same_identity_def)
    qed
    with Some True show ?thesis by (simp add: resolve_obligation_def update_evolves)
  qed (simp add: resolve_obligation_def Some)
qed (simp add: resolve_obligation_def)

lemma claim_evolves: "table_evolves rows (snd (claim_next_pending s c i now rows))"
  by (auto simp: claim_next_pending_def same_identity_def split: list.split option.split
      intro!: guarded_evolves row_evolves_step)

lemma finish_evolves:
  "status \<in> {N_COMPLETED, N_FAILED} \<Longrightarrow> table_evolves rows (snd (finish_notification k status e now rows))"
  by (auto simp: finish_notification_def split: option.split; erule guarded_evolves;
      auto simp: same_identity_def intro!: row_evolves_step)

lemma release_evolves: "table_evolves rows (snd (release_notification k now rows))"
  by (auto simp: release_notification_def same_identity_def split: option.split
      intro!: guarded_evolves row_evolves_step)

lemma cancel_evolves:
  "set statuses \<subseteq> set outstanding_statuses \<Longrightarrow>
     table_evolves rows (snd (cancel_notifications s i m u statuses e now rows))"
  by (auto simp: cancel_notifications_def cancel_matches_def cancel_row_def same_identity_def
      outstanding_statuses_def Let_def intro!: update_evolves row_evolves_step)

lemma reset_evolves: "table_evolves rows (snd (reset_processing_all now rows))"
  by (auto simp: reset_processing_all_def same_identity_def intro!: update_evolves row_evolves_step)

section \<open>Runs of the table\<close>

datatype notification_op =
    NAdd string notification_kind notification_target string dict datetime
  | NResolve notification_kind string bool "dict option" string datetime
  | NEnqueue string string notification_target "json list" string string datetime
  | NClaim string "string option" "string option" datetime
  | NComplete string datetime
  | NFail string string datetime
  | NRelease string datetime
  | NCancelSession string "string option" string datetime
  | NCancelMain string string datetime
  | NReset datetime

fun notification_exec :: "notification_op \<Rightarrow> notification list \<Rightarrow> notification list" where
  "notification_exec (NAdd k kind tg run p now) rows =
    (case add_obligation k kind tg run p now rows of None \<Rightarrow> rows | Some rows' \<Rightarrow> rows')"
| "notification_exec (NResolve kind run b p e now) rows = resolve_obligation kind run b p e now rows"
| "notification_exec (NEnqueue k run tg c d a now) rows =
    (case enqueue_user_message k run tg c d a now rows of None \<Rightarrow> rows | Some (_, rows') \<Rightarrow> rows')"
| "notification_exec (NClaim s c i now) rows = snd (claim_next_pending s c i now rows)"
| "notification_exec (NComplete k now) rows = snd (complete_notification k now rows)"
| "notification_exec (NFail k e now) rows = snd (fail_notification k e now rows)"
| "notification_exec (NRelease k now) rows = snd (release_notification k now rows)"
| "notification_exec (NCancelSession s i e now) rows = snd (cancel_session_notifications s i e now rows)"
| "notification_exec (NCancelMain s e now) rows = snd (cancel_main_agent_interrupted s e now rows)"
| "notification_exec (NReset now) rows = snd (reset_processing_all now rows)"

definition notification_run :: "notification_op list \<Rightarrow> notification list \<Rightarrow> notification list" where
  "notification_run ops rows = fold notification_exec ops rows"

text \<open>The two unique constraints of the table.\<close>

definition unique_ok :: "notification list \<Rightarrow> bool" where
  "unique_ok rows \<longleftrightarrow> distinct (map nt_id rows) \<and> distinct (map (\<lambda>n. (nt_kind n, nt_run_id n)) rows)"

lemma evolves_keys:
  assumes "list_all2 row_evolves rows kept"
  shows "map nt_id kept = map nt_id rows"
    "map (\<lambda>n. (nt_kind n, nt_run_id n)) kept = map (\<lambda>n. (nt_kind n, nt_run_id n)) rows"
  using assms by (induction rule: list_all2_induct) (auto simp: row_evolves_def same_identity_def)

lemma unique_insert: "unique_ok rows \<Longrightarrow> insert_notification n rows = Some rows' \<Longrightarrow> unique_ok rows'"
  by (fastforce simp: insert_notification_def unique_ok_def split: if_splits)

lemma unique_evolves_same_length:
  assumes "unique_ok rows" and "table_evolves rows rows'" and "length rows' = length rows"
  shows "unique_ok rows'"
  using assms evolves_keys by (fastforce simp: table_evolves_def unique_ok_def dest: list_all2_lengthD)

lemma guarded_length: "guarded_update p f rows = Some rows' \<Longrightarrow> length rows' = length rows"
  by (auto simp: guarded_update_def split: if_splits)

lemma lengths [simp]:
  "length (resolve_obligation kind run_id ready payload error now rows) = length rows"
  "length (snd (claim_next_pending s c i now rows)) = length rows"
  "length (snd (finish_notification k st e now rows)) = length rows"
  "length (snd (release_notification k now rows)) = length rows"
  "length (snd (cancel_notifications s i m u sts e now rows)) = length rows"
  "length (snd (reset_processing_all now rows)) = length rows"
  by (auto simp: resolve_obligation_def claim_next_pending_def finish_notification_def
      release_notification_def cancel_notifications_def reset_processing_all_def Let_def
      split: option.splits list.splits dest: guarded_length)

lemmas exec_defs = complete_notification_def fail_notification_def cancel_session_notifications_def
  cancel_main_agent_interrupted_def add_obligation_def enqueue_user_message_def

lemma evolves_ok:
  "unique_ok rows \<Longrightarrow> table_evolves rows rows' \<Longrightarrow> length rows' = length rows \<Longrightarrow>
     table_evolves rows rows' \<and> unique_ok rows'"
  using unique_evolves_same_length by blast

lemma insert_ok:
  "unique_ok rows \<Longrightarrow> insert_notification n rows = Some rows' \<Longrightarrow> table_evolves rows rows' \<and> unique_ok rows'"
  using insert_evolves unique_insert by blast

lemma cancelable_outstanding: "set active_cancelable \<subseteq> set outstanding_statuses"
  by (auto simp: active_cancelable_def outstanding_statuses_def)

lemma exec_evolves [inv_intros]:
  assumes u: "unique_ok rows"
  shows "table_evolves rows (notification_exec x rows) \<and> unique_ok (notification_exec x rows)"
proof (cases x)
  case (NAdd k kind tg run p now)
  then show ?thesis using u insert_ok[OF u] by (simp add: add_obligation_def split: option.split)
next
  case (NEnqueue k run tg c d a now)
  then show ?thesis using u insert_ok[OF u]
    by (simp add: enqueue_user_message_def Let_def split: option.split)
next
  case (NResolve kind run b p e now)
  have "distinct (map nt_id rows)" using u by (simp add: unique_ok_def)
  from evolves_ok[OF u resolve_evolves[OF this]] NResolve show ?thesis by simp
next
  case (NClaim s c i now)
  from evolves_ok[OF u claim_evolves] NClaim show ?thesis by simp
next
  case (NComplete k now)
  from evolves_ok[OF u finish_evolves] NComplete show ?thesis by (simp add: exec_defs)
next
  case (NFail k e now)
  from evolves_ok[OF u finish_evolves] NFail show ?thesis by (simp add: exec_defs)
next
  case (NRelease k now)
  from evolves_ok[OF u release_evolves] NRelease show ?thesis by simp
next
  case (NCancelSession s i e now)
  from evolves_ok[OF u cancel_evolves[OF subset_refl]] NCancelSession show ?thesis by (simp add: exec_defs)
next
  case (NCancelMain s e now)
  from evolves_ok[OF u cancel_evolves[OF cancelable_outstanding]] NCancelMain show ?thesis
    by (simp add: exec_defs)
next
  case (NReset now)
  from evolves_ok[OF u reset_evolves] NReset show ?thesis by simp
qed

lemma run_evolves:
  "unique_ok rows \<Longrightarrow> table_evolves rows (notification_run ops rows) \<and> unique_ok (notification_run ops rows)"
proof (induction ops arbitrary: rows)
  case (Cons x ops)
  from exec_evolves[OF Cons.prems, of x] Cons.IH[of "notification_exec x rows"]
  show ?case by (auto simp: notification_run_def intro: table_evolves_trans)
qed (simp add: notification_run_def)

lemma evolves_find:
  assumes "table_evolves rows rows'" and "find_notification k rows = Some n"
  shows "\<exists>m. find_notification k rows' = Some m \<and> row_evolves n m"
proof -
  obtain kept new where r: "rows' = kept @ new" "list_all2 row_evolves rows kept"
    using assms(1) by (auto simp: table_evolves_def)
  from r(2) assms(2) have "\<exists>m. List.find (\<lambda>n. nt_id n = k) kept = Some m \<and> row_evolves n m"
    unfolding find_notification_def
    by (induction rule: list_all2_induct) (auto simp: row_evolves_def same_identity_def split: if_splits)
  moreover have "List.find q xs = Some m \<Longrightarrow> List.find q (xs @ ys) = Some m" for q xs ys and m :: notification
    by (induction xs) auto
  ultimately show ?thesis unfolding find_notification_def r(1) by blast
qed

lemma terminal_no_step: "s \<in> set terminal_statuses \<Longrightarrow> status_step\<^sup>*\<^sup>* s t \<Longrightarrow> t = s"
  by (erule converse_rtranclpE) (auto simp: terminal_statuses_def)

text \<open>C13. No notification is lost or revived: through every sequence of operations on the
  table a row keeps its identity, kind, run, target and priority, its status moves only along
  the life cycle, a completed, failed or cancelled row stays what it is, and identifiers and
  (kind, run) pairs stay unique.\<close>

theorem notification_lifecycle:
  assumes "unique_ok rows" and "find_notification k rows = Some n"
  shows "unique_ok (notification_run ops rows) \<and>
    (\<exists>m. find_notification k (notification_run ops rows) = Some m \<and> same_identity n m \<and>
       status_step\<^sup>*\<^sup>* (nt_status n) (nt_status m) \<and>
       (nt_status n \<in> set terminal_statuses \<longrightarrow> nt_status m = nt_status n))"
proof -
  note run = run_evolves[OF assms(1), of ops]
  obtain m where "find_notification k (notification_run ops rows) = Some m" "row_evolves n m"
    using evolves_find[OF _ assms(2)] run by blast
  with run terminal_no_step show ?thesis unfolding row_evolves_def by blast
qed

definition sample_target :: notification_target where
  "sample_target = \<lparr>tg_session_id = ''s'', tg_agent_code = ''cso'', tg_instance = ''main:s:1:cso'',
     tg_nested_for = [], tg_nested_call_id = [], tg_container_id = None, tg_container_generation = 0,
     tg_skill_metadata = [], tg_allowed_targets = [''http://a''], tg_allowed_action_types = [],
     tg_scope_id = []\<rparr>"

definition sample_notification :: "string \<Rightarrow> notification_status \<Rightarrow> notification" where
  "sample_notification k st = new_notification k SUBAGENT_FINISHED sample_target k [] st 0 1"

theorem notification_lifecycle_witness:
  "\<exists>m. find_notification ''a'' (notification_run [NReset 5, NCancelMain ''s'' ''x'' 6]
      [sample_notification ''a'' N_COMPLETED]) = Some m \<and> nt_status m = N_COMPLETED"
proof -
  have u: "unique_ok [sample_notification ''a'' N_COMPLETED]" by (simp add: unique_ok_def)
  have f: "find_notification ''a'' [sample_notification ''a'' N_COMPLETED] = Some (sample_notification ''a'' N_COMPLETED)"
    and s: "nt_status (sample_notification ''a'' N_COMPLETED) = N_COMPLETED"
    by (simp_all add: find_notification_def sample_notification_def new_notification_def)
  from notification_lifecycle[OF u f, of "[NReset 5, NCancelMain ''s'' ''x'' 6]"] s
  show ?thesis by (auto simp: terminal_statuses_def)
qed

section \<open>Which notification is claimed\<close>

lemma hd_sort_key_two:
  fixes f g :: "'a \<Rightarrow> int"
  assumes "sort_key f (sort_key g xs) = n # zs" and "m \<in> set xs"
  shows "f n \<le> f m \<and> (f m = f n \<longrightarrow> g n \<le> g m)"
proof (intro conjI impI)
  let ?ys = "sort_key g xs"
  have "sorted (map f (n # zs))" unfolding assms(1)[symmetric] by simp
  moreover have m: "m \<in> set (n # zs)" unfolding assms(1)[symmetric] using assms(2) by simp
  ultimately show "f n \<le> f m" by auto
  assume eq: "f m = f n"
  have "filter (\<lambda>x. f x = f n) (n # zs) = filter (\<lambda>x. f x = f n) ?ys"
    unfolding assms(1)[symmetric] by (rule sort_key_stable)
  moreover have "sorted (map g (filter (\<lambda>x. f x = f n) ?ys))" by (intro sorted_filter) simp
  ultimately have "sorted (map g (n # filter (\<lambda>x. f x = f n) zs))" by simp
  with m eq show "g n \<le> g m" by auto
qed

lemma claim_order_hd:
  assumes "claim_order ns = n # rest"
  shows "n \<in> set ns \<and> (\<forall>m\<in>set ns. nt_priority m \<le> nt_priority n \<and>
    (nt_priority m = nt_priority n \<longrightarrow> nt_created_at n \<le> nt_created_at m))"
proof -
  have "n \<in> set (claim_order ns)" using assms by simp
  then have "n \<in> set ns" by (simp add: claim_order_def)
  with hd_sort_key_two[OF assms[unfolded claim_order_def]] show ?thesis by auto
qed

lemma unique_filter_id:
  assumes "distinct (map nt_id rows)" and "n \<in> set rows" and "p n"
  shows "filter (\<lambda>r. nt_id r = nt_id n \<and> p r) rows = [n]"
  using assms
proof (induction rows)
  case (Cons r rows)
  show ?case
  proof (cases "r = n")
    case True
    have "filter (\<lambda>r. nt_id r = nt_id n \<and> p r) rows = []"
      using Cons.prems(1) True unfolding filter_empty_conv by (metis distinct.simps(2) image_eqI list.map(2) set_map)
    with True Cons.prems(3) show ?thesis by simp
  next
    case False
    then have "nt_id r \<noteq> nt_id n" using Cons.prems by auto
    with False Cons show ?thesis by auto
  qed
qed simp

lemma find_update_row:
  assumes "distinct (map nt_id rows)" and "n \<in> set rows" and "p n" and "\<And>r. nt_id (f r) = nt_id r"
  shows "find_notification (nt_id n) (update_rows (\<lambda>r. nt_id r = nt_id n \<and> p r) f rows) = Some (f n)"
  using assms(1-3)
proof (induction rows)
  case (Cons r rows)
  then show ?case using assms(4) by (cases "r = n") (auto simp: find_notification_def)
qed simp

lemma guarded_update_one:
  assumes "distinct (map nt_id rows)" and "n \<in> set rows" and "p n"
  shows "guarded_update (\<lambda>r. nt_id r = nt_id n \<and> p r) f rows =
    Some (update_rows (\<lambda>r. nt_id r = nt_id n \<and> p r) f rows)"
  using unique_filter_id[of rows n p] assms by (simp add: guarded_update_def)

definition claimed_row :: "datetime \<Rightarrow> notification \<Rightarrow> notification" where
  "claimed_row now r = r\<lparr>nt_status := N_PROCESSING, nt_started_at := Some now, nt_updated_at := now\<rparr>"

lemma claim_next_cases:
  assumes "unique_ok rows"
  shows "claim_next_pending s c i now rows =
    (case claim_order (filter (pending_for s c i) rows) of
       [] \<Rightarrow> (None, rows)
     | n # _ \<Rightarrow> (Some (snapshot_from_notification (claimed_row now n)),
         update_rows (\<lambda>r. nt_id r = nt_id n \<and> nt_status r = N_PENDING) (claimed_row now) rows))"
proof (cases "claim_order (filter (pending_for s c i) rows)")
  case (Cons n rest)
  then have "n \<in> set (filter (pending_for s c i) rows)" using claim_order_hd by blast
  then have n: "n \<in> set rows" "nt_status n = N_PENDING" by (auto simp: pending_for_def)
  have d: "distinct (map nt_id rows)" using assms by (simp add: unique_ok_def)
  have same: "(\<lambda>r. r\<lparr>nt_status := N_PROCESSING, nt_started_at := Some now, nt_updated_at := now\<rparr>) = claimed_row now"
    by (rule ext) (simp add: claimed_row_def)
  have "nt_id (claimed_row now r) = nt_id r" for r by (simp add: claimed_row_def)
  with d n Cons show ?thesis
    unfolding claim_next_pending_def same
    by (simp add: guarded_update_one[of rows n "\<lambda>r. nt_status r = N_PENDING"]
        find_update_row[of rows n "\<lambda>r. nt_status r = N_PENDING"])
qed (simp add: claim_next_pending_def)

text \<open>A claim returns something exactly when \<^verbatim>\<open>has_pending_notification\<close> says so, and then
  the pending notification of highest priority, the oldest among those; it alone becomes
  processing, so it is not claimed a second time before it was released or reset.\<close>

theorem claim_takes_best:
  assumes "unique_ok rows"
  shows "(fst (claim_next_pending s c i now rows) \<noteq> None \<longleftrightarrow> has_pending_notification s c i rows) \<and>
    (\<forall>sn rows'. claim_next_pending s c i now rows = (Some sn, rows') \<longrightarrow>
      (\<exists>n\<in>set rows. pending_for s c i n \<and> sn = snapshot_from_notification (claimed_row now n) \<and>
         (\<forall>m\<in>set rows. pending_for s c i m \<longrightarrow> nt_priority m \<le> nt_priority n \<and>
            (nt_priority m = nt_priority n \<longrightarrow> nt_created_at n \<le> nt_created_at m)) \<and>
         rows' = map (\<lambda>r. if r = n then claimed_row now n else r) rows \<and>
         \<not> (\<exists>m\<in>set rows'. nt_id m = nt_id n \<and> nt_status m = N_PENDING)))"
proof (cases "claim_order (filter (pending_for s c i) rows)")
  case Nil
  then have "filter (pending_for s c i) rows = []" by (simp add: claim_order_def flip: length_0_conv)
  then have "\<not> has_pending_notification s c i rows"
    by (auto simp: has_pending_notification_def filter_empty_conv)
  with Nil show ?thesis by (simp add: claim_next_cases[OF assms])
next
  case (Cons n rest)
  from claim_order_hd[OF Cons] have n: "n \<in> set rows" "pending_for s c i n"
    and best: "\<forall>m\<in>set rows. pending_for s c i m \<longrightarrow> nt_priority m \<le> nt_priority n \<and>
            (nt_priority m = nt_priority n \<longrightarrow> nt_created_at n \<le> nt_created_at m)" by auto
  have d: "distinct (map nt_id rows)" using assms by (simp add: unique_ok_def)
  let ?rows = "update_rows (\<lambda>r. nt_id r = nt_id n \<and> nt_status r = N_PENDING) (claimed_row now) rows"
  have only: "r = n" if "r \<in> set rows" "nt_id r = nt_id n" for r
    using that n(1) d by (auto simp: distinct_map inj_on_def)
  have rows': "?rows = map (\<lambda>r. if r = n then claimed_row now n else r) rows"
    using only n(2) by (auto simp: update_rows_def pending_for_def)
  have gone: "\<not> (\<exists>m\<in>set ?rows. nt_id m = nt_id n \<and> nt_status m = N_PENDING)"
    using only n(2) by (auto simp: update_rows_def claimed_row_def pending_for_def split: if_splits)
  have claim: "claim_next_pending s c i now rows = (Some (snapshot_from_notification (claimed_row now n)), ?rows)"
    by (simp add: claim_next_cases[OF assms] Cons)
  have "has_pending_notification s c i rows" using n by (auto simp: has_pending_notification_def)
  then show ?thesis unfolding claim using n best rows' gone by auto
qed

definition sample_inbox :: "notification list" where
  "sample_inbox = [sample_notification ''a'' N_PENDING,
     (sample_notification ''b'' N_PENDING)\<lparr>nt_priority := 10, nt_created_at := 9\<rparr>]"

lemma sample_inbox_ok: "unique_ok sample_inbox"
  by (simp add: unique_ok_def sample_inbox_def sample_notification_def new_notification_def)

lemma sample_inbox_pending: "has_pending_notification ''s'' None None sample_inbox"
  by (simp add: has_pending_notification_def sample_inbox_def pending_for_def sample_notification_def
      new_notification_def sample_target_def target_matches_def like_main_agent_def ascii_lower_def
      main_agent_prefix_def Let_def)

theorem claim_takes_best_witness:
  "fst (claim_next_pending ''s'' None None 20 sample_inbox) \<noteq> None"
  using claim_takes_best[OF sample_inbox_ok, of "''s''" None None 20] sample_inbox_pending by simp

section \<open>Interrupts and scopes\<close>



lemma map_filter_JStr: "List.map_filter (\<lambda>x. case x of JStr s \<Rightarrow> Some s | _ \<Rightarrow> None) (map JStr ss) = ss"
  by (induction ss) (simp_all add: List.map_filter_simps)

lemma scope_of_payload:
  "runtime_scope_payload (payload_with_runtime_scope p ts as k) =
    (if ts \<noteq> [] \<or> as \<noteq> [] \<or> k \<noteq> []
     then [(''allowed_targets'', JList (map JStr ts)), (''allowed_action_types'', JList (map JStr as)),
           (''scope_id'', JStr k)]
     else runtime_scope_payload p)"
  by (auto simp: payload_with_runtime_scope_def runtime_scope_payload_def dict_get_def update_conv')

lemma scope_of_resolved:
  "runtime_scope_payload (resolved_payload p n) =
    (case p of None \<Rightarrow> runtime_scope_payload (nt_payload n)
     | Some q \<Rightarrow> if runtime_scope_payload (nt_payload n) \<noteq> [] then runtime_scope_payload (nt_payload n)
                else runtime_scope_payload q)"
  by (auto simp: resolved_payload_def runtime_scope_payload_def dict_get_def update_conv' Let_def
      split: option.split)

lemma snapshot_scope:
  "sn_allowed_targets (snapshot_from_notification n) =
     coerce_string_tuple (dict_get (runtime_scope_payload (nt_payload n)) ''allowed_targets'')"
  "sn_allowed_action_types (snapshot_from_notification n) =
     coerce_string_tuple (dict_get (runtime_scope_payload (nt_payload n)) ''allowed_action_types'')"
  "sn_scope_id (snapshot_from_notification n) =
     text_field (dict_get (runtime_scope_payload (nt_payload n)) ''scope_id'')"
  by (simp_all add: snapshot_from_notification_def Let_def)

text \<open>The authorisation scope of a background task survives to its wake-up: the snapshot of
  an obligation, before and after it was resolved with a payload of its own, carries exactly
  the targets, action types and scope the task was started with.\<close>

theorem obligation_scope_roundtrip:
  assumes "dict_get p runtime_scope_key = JNull" and "dict_get q runtime_scope_key = JNull"
  shows "let n = new_notification k kind tg run p st prio now;
             r = resolve_row ready (Some q) e now' n
         in (sn_allowed_targets (snapshot_from_notification n), sn_allowed_action_types (snapshot_from_notification n),
             sn_scope_id (snapshot_from_notification n)) = (tg_allowed_targets tg, tg_allowed_action_types tg, tg_scope_id tg) \<and>
            (sn_allowed_targets (snapshot_from_notification r), sn_allowed_action_types (snapshot_from_notification r),
             sn_scope_id (snapshot_from_notification r)) = (tg_allowed_targets tg, tg_allowed_action_types tg, tg_scope_id tg)"
proof -
  let ?n = "new_notification k kind tg run p st prio now"
  let ?scope = "payload_with_runtime_scope p (tg_allowed_targets tg) (tg_allowed_action_types tg) (tg_scope_id tg)"
  have p: "nt_payload ?n = ?scope" by (simp add: new_notification_def)
  have r: "nt_payload (resolve_row ready (Some q) e now' ?n) = resolved_payload (Some q) ?n"
    by (simp add: resolve_row_def)
  have null: "runtime_scope_payload p = []" "runtime_scope_payload q = []"
    using assms by (simp_all add: runtime_scope_payload_def)
  show ?thesis
    unfolding Let_def snapshot_scope p r scope_of_resolved scope_of_payload null
    by (simp add: dict_get_def map_filter_JStr null)
qed

theorem obligation_scope_roundtrip_witness:
  "sn_allowed_targets (snapshot_from_notification (resolve_row True (Some [(''status'', JStr ''completed'')]) [] 3
     (new_notification ''k'' SUBAGENT_FINISHED sample_target ''r'' [] N_AWAITING 0 1))) = [''http://a'']"
proof -
  have "dict_get [] runtime_scope_key = JNull"
    and "dict_get [(''status'', JStr ''completed'')] runtime_scope_key = JNull"
    by (simp_all add: dict_get_def runtime_scope_key_def)
  from obligation_scope_roundtrip[OF this, of "''k''" SUBAGENT_FINISHED sample_target "''r''" N_AWAITING 0 1
      True "[]" 3] show ?thesis by (simp add: Let_def sample_target_def)
qed

end
