(* ===== verification/Obligations.thy ===== *)
theory Obligations
  imports Notifications
begin

text \<open>
  The interface through which background work uses the notification table: an obligation is
  registered when a task starts and resolved when it ends, in the transaction of the task's own
  row.  The locale states what the clients rely on; the lemmas show that an obligation is
  never left awaiting by work that has ended.  The notification table is its provider.
\<close>

text \<open>Every awaited key is backed by work that still runs.\<close>

definition backed :: "('k \<Rightarrow> bool) \<Rightarrow> ('k \<Rightarrow> bool) \<Rightarrow> bool" where
  "backed awaiting running \<longleftrightarrow> (\<forall>k. awaiting k \<longrightarrow> running k)"

locale obligation_ledger =
  fixes register :: "'k \<Rightarrow> 'a \<Rightarrow> 'l \<Rightarrow> 'l option"
    and resolve :: "'k \<Rightarrow> 'b \<Rightarrow> 'l \<Rightarrow> 'l"
    and awaiting :: "'l \<Rightarrow> 'k \<Rightarrow> bool"
    and wf :: "'l \<Rightarrow> bool"
  assumes register_wf: "wf l \<Longrightarrow> register k a l = Some l' \<Longrightarrow> wf l'"
    and resolve_wf: "wf l \<Longrightarrow> wf (resolve k b l)"
    and register_awaiting: "wf l \<Longrightarrow> register k a l = Some l' \<Longrightarrow> awaiting l' j \<longleftrightarrow> j = k \<or> awaiting l j"
    and resolve_awaiting: "wf l \<Longrightarrow> awaiting (resolve k b l) j \<longleftrightarrow> j \<noteq> k \<and> awaiting l j"
begin

lemma resolve_all_wf: "wf l \<Longrightarrow> wf (fold (\<lambda>x. resolve (key x) (arg x)) xs l)"
  by (induction xs arbitrary: l) (simp_all add: resolve_wf)

lemma resolve_all_awaiting:
  "wf l \<Longrightarrow> awaiting (fold (\<lambda>x. resolve (key x) (arg x)) xs l) j \<longleftrightarrow> j \<notin> key ` set xs \<and> awaiting l j"
  by (induction xs arbitrary: l) (auto simp: resolve_wf resolve_awaiting)

lemma backed_register:
  assumes "wf l" and "register k a l = Some l'" and "backed (awaiting l) running"
    and "running' k" and "\<And>j. running j \<Longrightarrow> running' j"
  shows "backed (awaiting l') running'"
  using assms by (auto simp: backed_def register_awaiting)

lemma backed_resolve:
  assumes "wf l" and "backed (awaiting l) running" and "\<And>j. j \<noteq> k \<Longrightarrow> running j \<Longrightarrow> running' j"
  shows "backed (awaiting (resolve k b l)) running'"
  using assms by (auto simp: backed_def resolve_awaiting)

lemma backed_resolve_all:
  assumes "wf l" and "backed (awaiting l) running"
    and "\<And>j. j \<notin> key ` set xs \<Longrightarrow> running j \<Longrightarrow> running' j"
  shows "backed (awaiting (fold (\<lambda>x. resolve (key x) (arg x)) xs l)) running'"
  using assms by (auto simp: backed_def resolve_all_awaiting)

end

section \<open>The notification table as a ledger\<close>

type_synonym obligation_key = "notification_kind \<times> string"

definition ledger_register ::
  "obligation_key \<Rightarrow> string \<times> notification_target \<times> dict \<times> datetime \<Rightarrow> notification list \<Rightarrow> notification list option" where
  "ledger_register k a l = (case a of (fresh_id, tg, payload, now) \<Rightarrow> add_obligation fresh_id (fst k) tg (snd k) payload now l)"

definition ledger_resolve ::
  "obligation_key \<Rightarrow> bool \<times> dict option \<times> string \<times> datetime \<Rightarrow> notification list \<Rightarrow> notification list" where
  "ledger_resolve k b l = (case b of (ready, payload, error, now) \<Rightarrow>
     resolve_obligation (fst k) (snd k) ready payload error now l)"

definition awaits :: "notification list \<Rightarrow> obligation_key \<Rightarrow> bool" where
  "awaits l k \<longleftrightarrow> (\<exists>n\<in>set l. nt_kind n = fst k \<and> nt_run_id n = snd k \<and> nt_status n = N_AWAITING)"

lemma register_awaits:
  assumes "ledger_register k a l = Some l'"
  shows "awaits l' j \<longleftrightarrow> j = k \<or> awaits l j"
proof -
  obtain f tg p now where a: "a = (f, tg, p, now)" by (metis prod_cases4)
  from assms a have l': "l' = l @ [new_notification f (fst k) tg (snd k) p N_AWAITING SYSTEM_NOTIFICATION_PRIORITY now]"
    by (simp add: ledger_register_def add_obligation_def insert_notification_def split: if_splits)
  show ?thesis unfolding l' awaits_def
    by (cases j; cases k) (auto simp: new_notification_def)
qed

text \<open>The row of a (kind, run) pair is unique, so the row found is the row updated.\<close>

lemma unique_pair:
  assumes "unique_ok l" and "n \<in> set l" and "m \<in> set l" and "nt_kind n = nt_kind m" and "nt_run_id n = nt_run_id m"
  shows "n = m"
proof -
  have "inj_on (\<lambda>n. (nt_kind n, nt_run_id n)) (set l)" using assms(1) by (simp add: unique_ok_def distinct_map)
  with assms(2-5) show ?thesis by (auto dest: inj_onD)
qed

lemma unique_id: "unique_ok l \<Longrightarrow> n \<in> set l \<Longrightarrow> m \<in> set l \<Longrightarrow> nt_id n = nt_id m \<Longrightarrow> n = m"
  by (auto simp: unique_ok_def distinct_map dest: inj_onD)

lemma resolve_eq:
  assumes "unique_ok l" and "n \<in> set l" and "nt_kind n = kind" and "nt_run_id n = run" and "nt_status n = N_AWAITING"
  shows "resolve_obligation kind run ready p e now l =
    map (\<lambda>r. if r = n then resolve_row ready p e now n else r) l"
proof -
  have "List.find (\<lambda>n. nt_kind n = kind \<and> nt_run_id n = run) l \<noteq> None"
    unfolding find_None_iff' using assms(2-4) by blast
  then obtain m where m: "List.find (\<lambda>n. nt_kind n = kind \<and> nt_run_id n = run) l = Some m" by blast
  with find_SomeD[OF m] unique_pair[OF assms(1)] assms have "m = n" by simp
  moreover have "nt_id r = nt_id n \<longleftrightarrow> r = n" if "r \<in> set l" for r
    using unique_id[OF assms(1) that assms(2)] by auto
  ultimately show ?thesis using m assms(5)
    by (auto simp: resolve_obligation_def update_rows_def)
qed

lemma resolve_none:
  assumes "\<not> (\<exists>n\<in>set l. nt_kind n = kind \<and> nt_run_id n = run \<and> nt_status n = N_AWAITING)"
  shows "resolve_obligation kind run ready p e now l = l"
  using assms find_SomeD by (fastforce simp: resolve_obligation_def split: option.split)

lemma resolve_awaits:
  assumes "unique_ok l"
  shows "awaits (ledger_resolve k b l) j \<longleftrightarrow> j \<noteq> k \<and> awaits l j"
proof -
  obtain ready p e now where b: "b = (ready, p, e, now)" by (metis prod_cases4)
  obtain kind run where k: "k = (kind, run)" by fastforce
  show ?thesis
  proof (cases "\<exists>n\<in>set l. nt_kind n = kind \<and> nt_run_id n = run \<and> nt_status n = N_AWAITING")
    case True
    then obtain n where n: "n \<in> set l" "nt_kind n = kind" "nt_run_id n = run" "nt_status n = N_AWAITING" by blast
    have eq: "ledger_resolve k b l = map (\<lambda>r. if r = n then resolve_row ready p e now n else r) l"
      using resolve_eq[OF assms n] by (simp add: ledger_resolve_def b k)
    have st: "nt_status (resolve_row ready p e now n) \<noteq> N_AWAITING" by (simp add: resolve_row_def)
    have other: "r = n \<longleftrightarrow> (nt_kind r = kind \<and> nt_run_id r = run)" if "r \<in> set l" for r
      using unique_pair[OF assms that n(1)] n by auto
    show ?thesis unfolding eq awaits_def using st other n by (cases j) (auto simp: k)
  next
    case False
    then have "ledger_resolve k b l = l" using resolve_none by (simp add: ledger_resolve_def b k)
    with False show ?thesis by (cases j) (auto simp: awaits_def k)
  qed
qed

lemma resolve_unique: "unique_ok l \<Longrightarrow> unique_ok (ledger_resolve k b l)"
  using exec_evolves[of l "NResolve (fst k) (snd k) (fst b) (fst (snd b)) (fst (snd (snd b))) (snd (snd (snd b)))"]
  by (simp add: ledger_resolve_def case_prod_beta)

lemma register_unique: "unique_ok l \<Longrightarrow> ledger_register k a l = Some l' \<Longrightarrow> unique_ok l'"
  by (auto simp: ledger_register_def add_obligation_def intro: unique_insert split: prod.splits)

interpretation ledger: obligation_ledger ledger_register ledger_resolve awaits unique_ok
  by unfold_locales
    (auto simp: register_awaits resolve_awaits intro: register_unique resolve_unique)

text \<open>The other operations of the table never make an obligation awaiting.\<close>

lemma status_reach_awaiting: "status_step\<^sup>*\<^sup>* s N_AWAITING \<Longrightarrow> s = N_AWAITING"
  by (erule rtranclp.cases) (auto elim: status_step.cases)

lemma evolves_awaits:
  assumes "table_evolves l l'" and "length l' = length l" and "awaits l' k"
  shows "awaits l k"
proof -
  obtain kept new where l': "l' = kept @ new" and kept: "list_all2 row_evolves l kept"
    using assms(1) by (auto simp: table_evolves_def)
  have "length kept = length l" using list_all2_lengthD[OF kept] by simp
  with l' assms(2) kept have all: "list_all2 row_evolves l l'" by simp
  from assms(3) obtain m where m: "m \<in> set l'" "nt_kind m = fst k" "nt_run_id m = snd k" "nt_status m = N_AWAITING"
    by (auto simp: awaits_def)
  then obtain n where "n \<in> set l" "row_evolves n m"
    using all by (metis in_set_conv_nth list_all2_conv_all_nth)
  with m status_reach_awaiting show ?thesis
    by (force simp: awaits_def row_evolves_def same_identity_def)
qed

section \<open>A table of background work beside the notification table\<close>

text \<open>The operations of the notification table other than registering and resolving the
  obligations of a kind, which only the owner of this kind does.\<close>

fun foreign_op :: "notification_kind \<Rightarrow> notification_op \<Rightarrow> bool" where
  "foreign_op own (NAdd k kind tg run p now) \<longleftrightarrow> kind \<noteq> own"
| "foreign_op own (NResolve kind run b p e now) \<longleftrightarrow> kind \<noteq> own"
| "foreign_op own _ \<longleftrightarrow> True"

lemma length_resolve: "length (resolve_obligation kind run b p e now l) = length l"
  by (simp add: resolve_obligation_def split: option.split)

lemma foreign_awaits:
  assumes "unique_ok l" and "foreign_op own x" and "awaits (notification_exec x l) (own, run)"
  shows "awaits l (own, run)"
proof (cases "length (notification_exec x l) = length l")
  case True
  with assms exec_evolves show ?thesis by (blast intro: evolves_awaits)
next
  case False
  then show ?thesis
  proof (cases x)
    case (NAdd k kind tg r p now)
    with False obtain l' where l': "add_obligation k kind tg r p now l = Some l'"
      by (auto split: option.splits)
    then have "ledger_register (kind, r) (k, tg, p, now) l = Some l'" by (simp add: ledger_register_def)
    from register_awaits[OF this, of "(own, run)"] assms(2,3) NAdd l' show ?thesis by simp
  next
    case (NEnqueue k r tg c d a now)
    with False obtain o' l' where "enqueue_user_message k r tg c d a now l = Some (o', l')"
      by (auto split: option.splits)
    then have "\<exists>n. l' = l @ [n] \<and> nt_status n = N_PENDING" and "notification_exec x l = l'"
      using NEnqueue by (auto simp: enqueue_user_message_def insert_notification_def new_notification_def Let_def
          split: if_splits option.splits)
    with assms(3) show ?thesis by (auto simp: awaits_def)
  qed (use False in \<open>auto simp: length_resolve claim_next_pending_def complete_notification_def fail_notification_def
        finish_notification_def release_notification_def cancel_session_notifications_def
        cancel_main_agent_interrupted_def cancel_notifications_def reset_processing_all_def Let_def
        split: option.splits if_splits prod.splits list.splits dest: guarded_length\<close>)
qed

text \<open>The invariant of such a pair of tables: keys are unique and every awaiting obligation of
  the kind belongs to a row that is still live.\<close>

definition live_key :: "notification_kind \<Rightarrow> ('r \<Rightarrow> string) \<Rightarrow> ('r \<Rightarrow> bool) \<Rightarrow> 'r list \<Rightarrow> obligation_key \<Rightarrow> bool" where
  "live_key own rid live rows k \<longleftrightarrow> fst k \<noteq> own \<or> (\<exists>t\<in>set rows. rid t = snd k \<and> live t)"

definition work_ok ::
  "notification_kind \<Rightarrow> ('r \<Rightarrow> string) \<Rightarrow> ('r \<Rightarrow> bool) \<Rightarrow> 'r list \<Rightarrow> notification list \<Rightarrow> bool" where
  "work_ok own rid live rows l \<longleftrightarrow>
     unique_ok l \<and> distinct (map rid rows) \<and> backed (awaits l) (live_key own rid live rows)"

lemma work_ok_empty: "work_ok own rid live [] []"
  by (simp add: work_ok_def unique_ok_def backed_def awaits_def)

lemma work_ok_add: "work_ok own rid live rows l \<Longrightarrow> rid t \<notin> rid ` set rows \<Longrightarrow> work_ok own rid live (rows @ [t]) l"
  by (auto simp: work_ok_def backed_def live_key_def)

lemma work_ok_register:
  assumes "work_ok own rid live rows l" and "rid t \<notin> rid ` set rows" and "live t"
    and "ledger_register (own, rid t) a l = Some l'"
  shows "work_ok own rid live (rows @ [t]) l'"
proof -
  have "backed (awaits l') (live_key own rid live (rows @ [t]))"
  proof (rule ledger.backed_register[OF _ assms(4)])
    show "unique_ok l" and "backed (awaits l) (live_key own rid live rows)" using assms(1) by (simp_all add: work_ok_def)
  qed (use assms(3) in \<open>auto simp: live_key_def\<close>)
  with assms show ?thesis by (auto simp: work_ok_def intro: ledger.register_wf)
qed

lemma work_ok_edit:
  assumes "work_ok own rid live rows l" and "\<And>t. rid (f t) = rid t" and "\<And>t. live (f t) = live t"
  shows "work_ok own rid live (update_rows p f rows) l"
proof -
  have "live_key own rid live (update_rows p f rows) k" if "live_key own rid live rows k" for k
    using that in_update_rowsI[of _ rows p f] assms(2,3) unfolding live_key_def by metis
  with assms(1,2) show ?thesis by (simp add: work_ok_def backed_def map_update_rows_same)
qed

text \<open>Ending a set of rows resolves the obligations of exactly these rows.\<close>

lemma work_ok_end:
  assumes ok: "work_ok own rid live rows l" and rid: "\<And>t. rid (f t) = rid t"
  shows "work_ok own rid live (update_rows p f rows)
           (fold (\<lambda>t. ledger_resolve (own, rid t) (arg t)) (filter p rows) l)"
proof -
  let ?key = "\<lambda>t. (own, rid t)"
  have wf: "unique_ok l" using ok by (simp add: work_ok_def)
  have "backed (awaits (fold (\<lambda>t. ledger_resolve (?key t) (arg t)) (filter p rows) l))
          (live_key own rid live (update_rows p f rows))"
  proof (rule ledger.backed_resolve_all[OF wf])
    show "backed (awaits l) (live_key own rid live rows)" using ok by (simp add: work_ok_def)
    fix j
    assume j: "j \<notin> ?key ` set (filter p rows)" "live_key own rid live rows j"
    show "live_key own rid live (update_rows p f rows) j"
    proof (cases "fst j = own")
      case True
      with j obtain t where t: "t \<in> set rows" "rid t = snd j" "live t" by (auto simp: live_key_def)
      with j(1) True have "\<not> p t" by (cases j) force
      with in_update_rowsI[OF t(1), of p f] t show ?thesis by (auto simp: live_key_def)
    qed (simp add: live_key_def)
  qed
  with ok ledger.resolve_all_wf[OF wf, of ?key] show ?thesis
    by (simp add: work_ok_def map_update_rows_same rid)
qed

lemma work_ok_foreign:
  assumes "work_ok own rid live rows l" and "foreign_op own x"
  shows "work_ok own rid live rows (notification_exec x l)"
proof -
  have "backed (awaits (notification_exec x l)) (live_key own rid live rows)"
    unfolding backed_def
  proof (intro allI impI)
    fix k
    assume a: "awaits (notification_exec x l) k"
    show "live_key own rid live rows k"
    proof (cases "fst k = own")
      case True
      with a assms foreign_awaits[of l own x "snd k"] have "awaits l k" by (cases k) (auto simp: work_ok_def)
      with assms(1) show ?thesis unfolding work_ok_def backed_def by metis
    qed (simp add: live_key_def)
  qed
  with assms exec_evolves show ?thesis by (auto simp: work_ok_def)
qed

text \<open>The row of a key is the only one, so an update by key changes one row.\<close>

lemma filter_key_single:
  assumes "distinct (map rid rows)" and "t \<in> set rows" and "q t"
  shows "filter (\<lambda>r. rid r = rid t \<and> q r) rows = [t]"
  using assms by (induction rows) (auto simp: filter_empty_conv image_iff)

lemma find_key:
  assumes "distinct (map rid rows)" and "t \<in> set rows"
  shows "List.find (\<lambda>r. rid r = rid t) rows = Some t"
  using filter_key_single[OF assms, of "\<lambda>_. True"] by (simp add: find_Some_iff_filter)

lemma find_key_updated:
  assumes "distinct (map rid rows)" and "t \<in> set rows" and "p t" and "\<And>t. rid (f t) = rid t"
  shows "List.find (\<lambda>r. rid r = rid t) (update_rows p f rows) = Some (f t)"
proof -
  have "f t \<in> set (update_rows p f rows)" using in_update_rowsI[OF assms(2), of p f] assms(3) by simp
  with find_key[of rid "update_rows p f rows" "f t"] assms show ?thesis by (simp add: map_update_rows_same)
qed

lemma update_key_single:
  assumes "distinct (map rid rows)" and "t \<in> set rows" and "q t"
  shows "update_rows (\<lambda>r. rid r = rid t \<and> q r) f rows = map (\<lambda>r. if r = t then f t else r) rows"
proof -
  have "rid r = rid t \<and> q r \<longleftrightarrow> r = t" if "r \<in> set rows" for r
    using that assms by (auto simp: distinct_map dest: inj_onD)
  then show ?thesis by (auto simp: update_rows_def)
qed

end
