(* ===== verification/Subordinates.thy ===== *)
theory Subordinates
  imports Obligations
begin

text \<open>
  Delegated sub-agent tasks, \<^verbatim>\<open>src/service/agent/subordinates.py\<close>: the table of tasks beside the
  notification table.  Every operation is one transaction on both tables.
\<close>

datatype task_status = T_RUNNING | T_COMPLETED | T_FAILED | T_CANCELED

definition terminal_task_statuses :: "task_status list" where
  "terminal_task_statuses = [T_COMPLETED, T_FAILED, T_CANCELED]"

definition parent_waking_statuses :: "task_status list" where
  "parent_waking_statuses = [T_COMPLETED, T_FAILED]"

fun task_status_value :: "task_status \<Rightarrow> string" where
  "task_status_value T_RUNNING = ''running''"
| "task_status_value T_COMPLETED = ''completed''"
| "task_status_value T_FAILED = ''failed''"
| "task_status_value T_CANCELED = ''canceled''"

record subordinate_task =
  tk_run_id :: string
  tk_session_id :: string
  tk_parent_agent_code :: string
  tk_parent_instance :: string
  tk_agent_code :: string
  tk_agent_name :: string
  tk_status :: task_status
  tk_brief :: string
  tk_result :: string
  tk_error :: string
  tk_progress :: string
  tk_nested_call_id :: string
  tk_owner_id :: int
  tk_created_at :: datetime
  tk_updated_at :: datetime
  tk_started_at :: "datetime option"
  tk_finished_at :: "datetime option"

text \<open>The snapshot leaves out the owner; it is the row with the owner blanked.\<close>

definition snapshot_from_task :: "subordinate_task \<Rightarrow> subordinate_task" where
  "snapshot_from_task t = t\<lparr>tk_owner_id := 0\<rparr>"

record subordinate_db =
  sd_tasks :: "subordinate_task list"
  sd_ledger :: "notification list"

definition find_task :: "string \<Rightarrow> subordinate_task list \<Rightarrow> subordinate_task option" where
  "find_task run_id tasks = List.find (\<lambda>t. tk_run_id t = run_id) tasks"

definition task_target :: "subordinate_task \<Rightarrow> string list \<Rightarrow> string list \<Rightarrow> string \<Rightarrow> notification_target" where
  "task_target t targets actions scope_id =
     \<lparr>tg_session_id = tk_session_id t, tg_agent_code = tk_parent_agent_code t,
      tg_instance = tk_parent_instance t, tg_nested_for = [], tg_nested_call_id = [],
      tg_container_id = None, tg_container_generation = 0, tg_skill_metadata = [],
      tg_allowed_targets = targets, tg_allowed_action_types = actions, tg_scope_id = scope_id\<rparr>"

text \<open>The caller's arguments arrive as a task row; the fields the code sets are set here.
  \<^const>\<open>None\<close> is a violated constraint, which rolls back both inserts.\<close>

definition create_subagent_task ::
  "subordinate_task \<Rightarrow> string \<Rightarrow> string list \<Rightarrow> string list \<Rightarrow> string \<Rightarrow> datetime \<Rightarrow> subordinate_db
     \<Rightarrow> (subordinate_task \<times> subordinate_db) option" where
  "create_subagent_task args fresh_id targets actions scope_id now db =
    (let t = args\<lparr>tk_status := T_RUNNING, tk_result := [], tk_error := [], tk_progress := [],
               tk_created_at := now, tk_updated_at := now, tk_started_at := Some now, tk_finished_at := None\<rparr>
     in if tk_run_id t \<in> set (map tk_run_id (sd_tasks db)) then None
        else if tk_parent_agent_code t = []
        then Some (snapshot_from_task t, db\<lparr>sd_tasks := sd_tasks db @ [t]\<rparr>)
        else (case ledger_register (SUBAGENT_FINISHED, tk_run_id t)
                (fresh_id, task_target t targets actions scope_id,
                 [(''run_id'', JStr (tk_run_id t)), (''agent_code'', JStr (tk_agent_code t)),
                  (''agent_name'', JStr (tk_agent_name t))], now) (sd_ledger db) of
           None \<Rightarrow> None
         | Some l \<Rightarrow> Some (snapshot_from_task t, \<lparr>sd_tasks = sd_tasks db @ [t], sd_ledger = l\<rparr>)))"

definition can_access_task :: "subordinate_task \<Rightarrow> string \<Rightarrow> int \<Rightarrow> bool \<Rightarrow> bool" where
  "can_access_task t session_id user_id is_admin \<longleftrightarrow>
     tk_session_id t = session_id \<and> (is_admin \<or> tk_owner_id t = user_id)"

definition get_subagent_task ::
  "string \<Rightarrow> string \<Rightarrow> int \<Rightarrow> bool \<Rightarrow> subordinate_db \<Rightarrow> subordinate_task option" where
  "get_subagent_task run_id session_id user_id is_admin db =
    (case find_task run_id (sd_tasks db) of
       None \<Rightarrow> None
     | Some t \<Rightarrow> if can_access_task t session_id user_id is_admin then Some (snapshot_from_task t) else None)"

definition list_subagent_tasks ::
  "string \<Rightarrow> int \<Rightarrow> bool \<Rightarrow> int \<Rightarrow> subordinate_db \<Rightarrow> subordinate_task list" where
  "list_subagent_tasks session_id user_id is_admin limit db =
     map snapshot_from_task (filter (\<lambda>t. can_access_task t session_id user_id is_admin)
       (take (nat (max 1 (min limit 100)))
         (sort_key (\<lambda>t. - tk_created_at t) (filter (\<lambda>t. tk_session_id t = session_id) (sd_tasks db)))))"

definition get_subagent_task_internal :: "string \<Rightarrow> subordinate_db \<Rightarrow> subordinate_task option" where
  "get_subagent_task_internal run_id db = map_option snapshot_from_task (find_task run_id (sd_tasks db))"

definition update_subagent_progress ::
  "string \<Rightarrow> string \<Rightarrow> datetime \<Rightarrow> subordinate_db \<Rightarrow> subordinate_task option \<times> subordinate_db" where
  "update_subagent_progress run_id progress now db =
    (case find_task run_id (sd_tasks db) of
       None \<Rightarrow> (None, db)
     | Some t \<Rightarrow>
         if tk_status t \<in> set terminal_task_statuses then (None, db)
         else let tasks = update_rows (\<lambda>r. tk_run_id r = run_id)
                (\<lambda>r. r\<lparr>tk_progress := progress, tk_updated_at := now\<rparr>) (sd_tasks db)
              in (map_option snapshot_from_task (find_task run_id tasks), db\<lparr>sd_tasks := tasks\<rparr>))"

definition subagent_obligation_payload :: "subordinate_task \<Rightarrow> dict" where
  "subagent_obligation_payload t =
     [(''run_id'', JStr (tk_run_id t)), (''agent_code'', JStr (tk_agent_code t)),
      (''agent_name'', JStr (tk_agent_name t)), (''status'', JStr (task_status_value (tk_status t)))]"

text \<open>The values of the final UPDATE.\<close>

definition finished_task :: "task_status \<Rightarrow> string \<Rightarrow> string \<Rightarrow> datetime \<Rightarrow> subordinate_task \<Rightarrow> subordinate_task" where
  "finished_task status result error now t =
     t\<lparr>tk_status := status, tk_result := result, tk_error := error, tk_progress := [],
       tk_updated_at := now, tk_finished_at := Some now\<rparr>"

definition finish_subagent_task ::
  "string \<Rightarrow> task_status \<Rightarrow> string \<Rightarrow> string \<Rightarrow> datetime \<Rightarrow> subordinate_db
     \<Rightarrow> subordinate_task option \<times> subordinate_db" where
  "finish_subagent_task run_id status result error now db =
    (case find_task run_id (sd_tasks db) of
       None \<Rightarrow> (None, db)
     | Some t \<Rightarrow>
         if tk_status t \<in> set terminal_task_statuses then (Some (snapshot_from_task t), db)
         else
           let p = (\<lambda>r. tk_run_id r = run_id \<and> tk_status r = T_RUNNING) in
           if length (filter p (sd_tasks db)) \<noteq> 1 then (Some (snapshot_from_task t), db)
           else
             let tasks = update_rows p (finished_task status result error now) (sd_tasks db);
                 refreshed = find_task run_id tasks;
                 l = ledger_resolve (SUBAGENT_FINISHED, run_id)
                       (status \<in> set parent_waking_statuses, map_option subagent_obligation_payload refreshed,
                        error, now) (sd_ledger db)
             in (map_option snapshot_from_task refreshed, \<lparr>sd_tasks = tasks, sd_ledger = l\<rparr>))"

definition complete_subagent_task where
  "complete_subagent_task run_id result now db = finish_subagent_task run_id T_COMPLETED result [] now db"

definition fail_subagent_task where
  "fail_subagent_task run_id error now db = finish_subagent_task run_id T_FAILED [] error now db"

definition cancel_subagent_task_record where
  "cancel_subagent_task_record run_id error now db = finish_subagent_task run_id T_CANCELED [] error now db"

definition running_matches :: "string option \<Rightarrow> string option \<Rightarrow> subordinate_task \<Rightarrow> bool" where
  "running_matches session_id parent_instance t \<longleftrightarrow>
     tk_status t = T_RUNNING \<and>
     (case session_id of None \<Rightarrow> True | Some s \<Rightarrow> tk_session_id t = s) \<and>
     (case parent_instance of None \<Rightarrow> True | Some i \<Rightarrow> tk_parent_instance t = i)"

definition canceled_task :: "string \<Rightarrow> datetime \<Rightarrow> subordinate_task \<Rightarrow> subordinate_task" where
  "canceled_task error now t =
     t\<lparr>tk_status := T_CANCELED, tk_error := error, tk_progress := [], tk_updated_at := now,
       tk_finished_at := Some now\<rparr>"

definition cancel_running_rows ::
  "string option \<Rightarrow> string option \<Rightarrow> string \<Rightarrow> datetime \<Rightarrow> subordinate_db
     \<Rightarrow> subordinate_task list \<times> subordinate_db" where
  "cancel_running_rows session_id parent_instance error now db =
    (let p = running_matches session_id parent_instance; rows = filter p (sd_tasks db)
     in (map (snapshot_from_task \<circ> canceled_task error now) rows,
         \<lparr>sd_tasks = update_rows p (canceled_task error now) (sd_tasks db),
          sd_ledger = fold (\<lambda>t. ledger_resolve (SUBAGENT_FINISHED, tk_run_id t) (False, None, error, now))
            rows (sd_ledger db)\<rparr>))"

definition cancel_running_subagent_tasks_for_session where
  "cancel_running_subagent_tasks_for_session session_id error now db =
     cancel_running_rows (Some session_id) None error now db"

definition cancel_running_child_subagent_tasks where
  "cancel_running_child_subagent_tasks session_id parent_instance error now db =
     cancel_running_rows (Some session_id) (Some parent_instance) error now db"

definition cancel_running_subagent_tasks where
  "cancel_running_subagent_tasks error now db = cancel_running_rows None None error now db"

definition restart_error :: string where
  "restart_error = ''Subagent task was interrupted by backend restart.''"

definition stale_task :: "datetime \<Rightarrow> subordinate_task \<Rightarrow> subordinate_task" where
  "stale_task now t =
     t\<lparr>tk_status := T_FAILED, tk_error := restart_error, tk_updated_at := now, tk_finished_at := Some now\<rparr>"

definition mark_stale_running_failed ::
  "datetime \<Rightarrow> subordinate_db \<Rightarrow> subordinate_task list \<times> subordinate_db" where
  "mark_stale_running_failed now db =
    (let p = (\<lambda>t. tk_status t = T_RUNNING); rows = filter p (sd_tasks db)
     in (map (snapshot_from_task \<circ> stale_task now) rows,
         \<lparr>sd_tasks = update_rows p (stale_task now) (sd_tasks db),
          sd_ledger = fold (\<lambda>t. ledger_resolve (SUBAGENT_FINISHED, tk_run_id t)
              (True, Some (subagent_obligation_payload (stale_task now t)), restart_error, now))
            rows (sd_ledger db)\<rparr>))"

section \<open>No parent waits for a finished child\<close>

definition task_live :: "subordinate_task \<Rightarrow> bool" where
  "task_live t \<longleftrightarrow> tk_status t = T_RUNNING"

definition subordinate_ok :: "subordinate_db \<Rightarrow> bool" where
  "subordinate_ok db \<longleftrightarrow> work_ok SUBAGENT_FINISHED tk_run_id task_live (sd_tasks db) (sd_ledger db)"

datatype subordinate_op =
    SCreate subordinate_task string "string list" "string list" string datetime
  | SProgress string string datetime
  | SComplete string string datetime
  | SFail string string datetime
  | SCancel string string datetime
  | SCancelRunning "string option" "string option" string datetime
  | SMarkStale datetime
  | SNotification notification_op

text \<open>The steps of the two tables: the operations above and any operation of the notification
  table other than registering and resolving sub-agent obligations, which nobody else does.\<close>

fun subordinate_exec :: "subordinate_op \<Rightarrow> subordinate_db \<Rightarrow> subordinate_db" where
  "subordinate_exec (SCreate args k ts as sc now) db =
    (case create_subagent_task args k ts as sc now db of None \<Rightarrow> db | Some (_, db') \<Rightarrow> db')"
| "subordinate_exec (SProgress k p now) db = snd (update_subagent_progress k p now db)"
| "subordinate_exec (SComplete k r now) db = snd (complete_subagent_task k r now db)"
| "subordinate_exec (SFail k e now) db = snd (fail_subagent_task k e now db)"
| "subordinate_exec (SCancel k e now) db = snd (cancel_subagent_task_record k e now db)"
| "subordinate_exec (SCancelRunning s i e now) db = snd (cancel_running_rows s i e now db)"
| "subordinate_exec (SMarkStale now) db = snd (mark_stale_running_failed now db)"
| "subordinate_exec (SNotification x) db =
    (if foreign_op SUBAGENT_FINISHED x then db\<lparr>sd_ledger := notification_exec x (sd_ledger db)\<rparr> else db)"

definition subordinate_run :: "subordinate_op list \<Rightarrow> subordinate_db \<Rightarrow> subordinate_db" where
  "subordinate_run ops db = fold subordinate_exec ops db"

lemma update_rows_filter_Nil: "filter p rows = [] \<Longrightarrow> update_rows p f rows = rows"
  by (rule update_rows_id) (auto simp: filter_empty_conv)

text \<open>The final write of a running task, as one update and one resolution.\<close>

lemma finish_running:
  assumes ok: "subordinate_ok db" and t: "t \<in> set (sd_tasks db)" "tk_status t = T_RUNNING"
  shows "finish_subagent_task (tk_run_id t) status result error now db =
    (let t' = finished_task status result error now t in
     (Some (snapshot_from_task t'),
      \<lparr>sd_tasks = map (\<lambda>r. if r = t then t' else r) (sd_tasks db),
       sd_ledger = ledger_resolve (SUBAGENT_FINISHED, tk_run_id t)
         (status \<in> set parent_waking_statuses, Some (subagent_obligation_payload t'), error, now) (sd_ledger db)\<rparr>))"
proof -
  have d: "distinct (map tk_run_id (sd_tasks db))" using ok by (simp add: subordinate_ok_def work_ok_def)
  let ?p = "\<lambda>r. tk_run_id r = tk_run_id t \<and> tk_status r = T_RUNNING"
  let ?f = "finished_task status result error now"
  have find: "find_task (tk_run_id t) (sd_tasks db) = Some t"
    unfolding find_task_def by (rule find_key[OF d t(1)])
  have one: "length (filter ?p (sd_tasks db)) = 1"
    using filter_key_single[OF d t(1), of "\<lambda>r. tk_status r = T_RUNNING"] t(2) by simp
  have upd: "update_rows ?p ?f (sd_tasks db) = map (\<lambda>r. if r = t then ?f t else r) (sd_tasks db)"
    using t(2) by (rule update_key_single[OF d t(1)])
  have found: "find_task (tk_run_id t) (update_rows ?p ?f (sd_tasks db)) = Some (?f t)"
    unfolding find_task_def
    by (rule find_key_updated[OF d t(1)]) (simp_all add: t(2) finished_task_def)
  show ?thesis
    unfolding finish_subagent_task_def find option.case Let_def one found
    using t(2) by (simp add: terminal_task_statuses_def upd)
qed

text \<open>A task that is missing or has ended is left alone.\<close>

lemma finish_ended:
  "find_task run_id (sd_tasks db) = None \<or> (\<exists>t. find_task run_id (sd_tasks db) = Some t \<and> tk_status t \<noteq> T_RUNNING)
     \<Longrightarrow> finish_subagent_task run_id status result error now db =
           (map_option snapshot_from_task (find_task run_id (sd_tasks db)), db)"
  by (auto simp: finish_subagent_task_def terminal_task_statuses_def intro: task_status.exhaust)

lemma finish_cases:
  assumes "subordinate_ok db"
  obtains (ended) "snd (finish_subagent_task run_id status result error now db) = db"
  | (running) t where "t \<in> set (sd_tasks db)" and "tk_status t = T_RUNNING" and "tk_run_id t = run_id"
proof (cases "find_task run_id (sd_tasks db)")
  case None
  then show ?thesis using finish_ended[of run_id db] by (intro ended) simp
next
  case (Some t)
  then have t: "t \<in> set (sd_tasks db)" "tk_run_id t = run_id"
    by (auto simp: find_task_def dest: find_SomeD)
  show ?thesis
  proof (cases "tk_status t = T_RUNNING")
    case True
    with t show ?thesis by (intro running)
  next
    case False
    with Some show ?thesis using finish_ended[of run_id db] by (intro ended) simp
  qed
qed

lemma finish_ok [inv_intros]:
  assumes ok: "subordinate_ok db"
  shows "subordinate_ok (snd (finish_subagent_task run_id status result error now db))"
  using ok
proof (cases rule: finish_cases[of db run_id status result error now])
  case ended
  with ok show ?thesis by simp
next
  case (running t)
  let ?p = "\<lambda>r. tk_run_id r = tk_run_id t \<and> tk_status r = T_RUNNING"
  let ?f = "finished_task status result error now"
  have d: "distinct (map tk_run_id (sd_tasks db))" using ok by (simp add: subordinate_ok_def work_ok_def)
  have "filter ?p (sd_tasks db) = [t]"
    using running by (intro filter_key_single[OF d])
  moreover have "update_rows ?p ?f (sd_tasks db) = map (\<lambda>r. if r = t then ?f t else r) (sd_tasks db)"
    using running(2) by (rule update_key_single[OF d running(1)])
  moreover have "work_ok SUBAGENT_FINISHED tk_run_id task_live (update_rows ?p ?f (sd_tasks db))
      (fold (\<lambda>r. ledger_resolve (SUBAGENT_FINISHED, tk_run_id r)
         (status \<in> set parent_waking_statuses, Some (subagent_obligation_payload (?f t)), error, now))
         (filter ?p (sd_tasks db)) (sd_ledger db))"
    using ok by (intro work_ok_end) (simp_all add: subordinate_ok_def finished_task_def)
  ultimately show ?thesis
    using finish_running[OF ok running(1,2)] running(3) by (simp add: subordinate_ok_def Let_def)
qed

lemma create_ok [inv_intros]:
  assumes ok: "subordinate_ok db" and "create_subagent_task args k ts as sc now db = Some (s, db')"
  shows "subordinate_ok db'"
proof -
  define t where "t = args\<lparr>tk_status := T_RUNNING, tk_result := [], tk_error := [], tk_progress := [],
               tk_created_at := now, tk_updated_at := now, tk_started_at := Some now, tk_finished_at := None\<rparr>"
  have new: "tk_run_id t \<notin> tk_run_id ` set (sd_tasks db)" and live: "task_live t"
    using assms(2) by (auto simp: create_subagent_task_def t_def task_live_def Let_def)
  from assms(2) consider "db' = db\<lparr>sd_tasks := sd_tasks db @ [t]\<rparr>"
    | a l where "ledger_register (SUBAGENT_FINISHED, tk_run_id t) a (sd_ledger db) = Some l"
        and "db' = \<lparr>sd_tasks = sd_tasks db @ [t], sd_ledger = l\<rparr>"
    unfolding create_subagent_task_def t_def[symmetric] Let_def by (auto split: if_splits option.splits)
  then show ?thesis
  proof cases
    case 1
    with ok new show ?thesis by (simp add: subordinate_ok_def work_ok_add)
  next
    case 2
    with ok new live show ?thesis by (auto simp: subordinate_ok_def intro: work_ok_register)
  qed
qed

lemma progress_ok [inv_intros]:
  "subordinate_ok db \<Longrightarrow> subordinate_ok (snd (update_subagent_progress run_id p now db))"
  by (auto simp: update_subagent_progress_def subordinate_ok_def Let_def task_live_def
      intro!: work_ok_edit split: option.split)

lemma cancel_running_ok [inv_intros]:
  "subordinate_ok db \<Longrightarrow> subordinate_ok (snd (cancel_running_rows s i e now db))"
  unfolding cancel_running_rows_def subordinate_ok_def Let_def
  by (simp add: work_ok_end canceled_task_def)

lemma mark_stale_ok [inv_intros]:
  "subordinate_ok db \<Longrightarrow> subordinate_ok (snd (mark_stale_running_failed now db))"
  unfolding mark_stale_running_failed_def subordinate_ok_def Let_def
  by (simp add: work_ok_end stale_task_def)

lemma subordinate_exec_ok:
  assumes "subordinate_ok db"
  shows "subordinate_ok (subordinate_exec x db)"
proof (cases x)
  case (SNotification y)
  with assms show ?thesis by (simp add: subordinate_ok_def work_ok_foreign)
qed (use assms in \<open>auto simp: complete_subagent_task_def fail_subagent_task_def cancel_subagent_task_record_def
      intro: inv_intros split: option.split\<close>)

lemma subordinate_run_ok: "subordinate_ok db \<Longrightarrow> subordinate_ok (subordinate_run ops db)"
  unfolding subordinate_run_def by (induction ops arbitrary: db) (simp_all add: subordinate_exec_ok)

text \<open>A finished task is kept, unchanged, by every operation.\<close>

lemma ended_task_kept:
  assumes ok: "subordinate_ok db" and t: "t \<in> set (sd_tasks db)" "tk_status t \<noteq> T_RUNNING"
  shows "t \<in> set (sd_tasks (subordinate_exec x db))"
proof -
  have keep: "t \<in> set (update_rows p f (sd_tasks db))" if "\<not> p t" for p f
    using in_update_rowsI[OF t(1), of p f] that by simp
  have found: "find_task (tk_run_id t) (sd_tasks db) = Some t"
    using ok t(1) by (simp add: find_task_def find_key subordinate_ok_def work_ok_def)
  have ended: "tk_status t \<in> set terminal_task_statuses"
    using t(2) by (cases "tk_status t") (simp_all add: terminal_task_statuses_def)
  show ?thesis
  proof (cases x)
    case (SProgress k p now)
    show ?thesis
    proof (cases "k = tk_run_id t")
      case True
      with SProgress found ended t(1) show ?thesis by (simp add: update_subagent_progress_def)
    next
      case False
      with SProgress keep[of "\<lambda>r. tk_run_id r = k"] t(1) show ?thesis
        by (simp add: update_subagent_progress_def Let_def split: option.split)
    qed
  next
    case (SCreate args k ts as sc now)
    with t(1) show ?thesis
      by (auto simp: create_subagent_task_def Let_def split: option.splits if_splits)
  qed (use t keep in \<open>auto simp: complete_subagent_task_def fail_subagent_task_def
      cancel_subagent_task_record_def finish_subagent_task_def cancel_running_rows_def
      mark_stale_running_failed_def running_matches_def Let_def split: option.splits\<close>)
qed

lemma ended_task_run:
  "subordinate_ok db \<Longrightarrow> t \<in> set (sd_tasks db) \<Longrightarrow> tk_status t \<noteq> T_RUNNING
     \<Longrightarrow> t \<in> set (sd_tasks (subordinate_run ops db))"
  unfolding subordinate_run_def
  by (induction ops arbitrary: db) (simp_all add: ended_task_kept subordinate_exec_ok)

abbreviation no_tasks :: subordinate_db where
  "no_tasks \<equiv> \<lparr>sd_tasks = [], sd_ledger = []\<rparr>"

lemma reachable_ok: "subordinate_ok (subordinate_run ops no_tasks)"
  by (rule subordinate_run_ok) (simp add: subordinate_ok_def work_ok_empty)

lemma restart_clears:
  assumes "subordinate_ok db"
  shows "(\<forall>t\<in>set (sd_tasks (snd (mark_stale_running_failed now db))). tk_status t \<noteq> T_RUNNING)
    \<and> (\<forall>run. \<not> awaits (sd_ledger (snd (mark_stale_running_failed now db))) (SUBAGENT_FINISHED, run))"
proof (intro conjI)
  show ended: "\<forall>t\<in>set (sd_tasks (snd (mark_stale_running_failed now db))). tk_status t \<noteq> T_RUNNING"
    by (auto simp: mark_stale_running_failed_def Let_def stale_task_def update_rows_def)
  show "\<forall>run. \<not> awaits (sd_ledger (snd (mark_stale_running_failed now db))) (SUBAGENT_FINISHED, run)"
    using mark_stale_ok[OF assms, of now] ended
    by (fastforce simp: subordinate_ok_def work_ok_def backed_def live_key_def task_live_def)
qed

section \<open>Properties\<close>

definition sample_task :: "string \<Rightarrow> subordinate_task" where
  "sample_task run =
     \<lparr>tk_run_id = run, tk_session_id = ''s'', tk_parent_agent_code = ''main'', tk_parent_instance = ''i'',
      tk_agent_code = ''scout'', tk_agent_name = ''Scout'', tk_status = T_RUNNING, tk_brief = ''b'',
      tk_result = [], tk_error = [], tk_progress = [], tk_nested_call_id = [], tk_owner_id = 7,
      tk_created_at = 0, tk_updated_at = 0, tk_started_at = None, tk_finished_at = None\<rparr>"

definition sample_ops :: "subordinate_op list" where
  "sample_ops = [SCreate (sample_task ''r'') ''n'' [] [] [] 5]"

text \<open>C15. After any sequence of operations on the two tables from the empty database, a parent
  waits only for children that run: run ids are unique, every awaiting sub-agent obligation names a
  running task, and once a restart has marked the stale tasks nobody waits any more and no task
  is running.\<close>

theorem no_wait_for_ended_child:
  "distinct (map tk_run_id (sd_tasks (subordinate_run ops no_tasks)))
   \<and> (\<forall>n\<in>set (sd_ledger (subordinate_run ops no_tasks)).
        nt_kind n = SUBAGENT_FINISHED \<and> nt_status n = N_AWAITING
          \<longrightarrow> (\<exists>t\<in>set (sd_tasks (subordinate_run ops no_tasks)). tk_run_id t = nt_run_id n \<and> tk_status t = T_RUNNING))
   \<and> (\<forall>t\<in>set (sd_tasks (subordinate_run (ops @ [SMarkStale now]) no_tasks)). tk_status t \<noteq> T_RUNNING)
   \<and> (\<forall>run. \<not> awaits (sd_ledger (subordinate_run (ops @ [SMarkStale now]) no_tasks)) (SUBAGENT_FINISHED, run))"
proof -
  let ?db = "subordinate_run ops no_tasks"
  have ok: "subordinate_ok ?db" by (rule reachable_ok)
  have "subordinate_run (ops @ [SMarkStale now]) no_tasks = snd (mark_stale_running_failed now ?db)"
    by (simp add: subordinate_run_def)
  with restart_clears[OF ok, of now] ok show ?thesis
    by (auto simp: subordinate_ok_def work_ok_def backed_def live_key_def task_live_def awaits_def)
qed

text \<open>Witness: a task that was created and completes; its obligation is no longer awaiting.\<close>

lemma no_wait_for_ended_child_witness:
  "awaits (sd_ledger (subordinate_run sample_ops no_tasks)) (SUBAGENT_FINISHED, ''r'')
   \<and> (\<exists>t\<in>set (sd_tasks (subordinate_run sample_ops no_tasks)). tk_run_id t = ''r'' \<and> tk_status t = T_RUNNING)"
proof (intro conjI)
  show a: "awaits (sd_ledger (subordinate_run sample_ops no_tasks)) (SUBAGENT_FINISHED, ''r'')"
    by (simp add: sample_ops_def subordinate_run_def create_subagent_task_def sample_task_def ledger_register_def
        add_obligation_def insert_notification_def new_notification_def task_target_def awaits_def Let_def)
  show "\<exists>t\<in>set (sd_tasks (subordinate_run sample_ops no_tasks)). tk_run_id t = ''r'' \<and> tk_status t = T_RUNNING"
    using no_wait_for_ended_child[of sample_ops] a by (fastforce simp: awaits_def)
qed

text \<open>The first final write of a running task wins.  It ends the task with the given status,
  result and error, and in the same transaction moves the obligation of the parent to pending,
  with the final status in its payload, when the task completed or failed, and to canceled when
  it was canceled; no other task and no other notification changes.  Any later final write returns
  the stored task and changes nothing.\<close>

theorem finish_flips_obligation:
  assumes "subordinate_ok db" and "t \<in> set (sd_tasks db)" and "tk_status t = T_RUNNING"
    and "n \<in> set (sd_ledger db)" and "nt_kind n = SUBAGENT_FINISHED" and "nt_run_id n = tk_run_id t"
    and "nt_status n = N_AWAITING" and "status \<noteq> T_RUNNING"
  shows "\<exists>t' n' db'. finish_subagent_task (tk_run_id t) status result error now db = (Some (snapshot_from_task t'), db')
     \<and> t' = t\<lparr>tk_status := status, tk_result := result, tk_error := error, tk_progress := [],
              tk_updated_at := now, tk_finished_at := Some now\<rparr>
     \<and> n' = resolve_row (status \<in> {T_COMPLETED, T_FAILED}) (Some (subagent_obligation_payload t')) error now n
     \<and> nt_status n' = (if status = T_CANCELED then N_CANCELED else N_PENDING)
     \<and> sd_tasks db' = map (\<lambda>r. if r = t then t' else r) (sd_tasks db)
     \<and> sd_ledger db' = map (\<lambda>r. if r = n then n' else r) (sd_ledger db)
     \<and> finish_subagent_task (tk_run_id t) status2 result2 error2 now2 db' = (Some (snapshot_from_task t'), db')"
proof -
  let ?t = "finished_task status result error now t"
  let ?n = "resolve_row (status \<in> {T_COMPLETED, T_FAILED}) (Some (subagent_obligation_payload ?t)) error now n"
  let ?db = "snd (finish_subagent_task (tk_run_id t) status result error now db)"
  have waking: "status \<in> set parent_waking_statuses \<longleftrightarrow> status \<in> {T_COMPLETED, T_FAILED}"
    by (simp add: parent_waking_statuses_def)
  have run: "finish_subagent_task (tk_run_id t) status result error now db =
      (Some (snapshot_from_task ?t), \<lparr>sd_tasks = map (\<lambda>r. if r = t then ?t else r) (sd_tasks db),
         sd_ledger = map (\<lambda>r. if r = n then ?n else r) (sd_ledger db)\<rparr>)"
    using finish_running[OF assms(1-3)] resolve_eq[of "sd_ledger db" n SUBAGENT_FINISHED "tk_run_id t"] assms
    by (simp add: ledger_resolve_def waking Let_def subordinate_ok_def work_ok_def)
  have "?t \<in> set (sd_tasks ?db)" using run assms(2) by force
  moreover have "distinct (map tk_run_id (sd_tasks ?db))"
    using finish_ok[OF assms(1)] by (simp add: subordinate_ok_def work_ok_def)
  ultimately have "find_task (tk_run_id ?t) (sd_tasks ?db) = Some ?t"
    by (simp add: find_task_def find_key)
  then have "finish_subagent_task (tk_run_id t) status2 result2 error2 now2 ?db = (Some (snapshot_from_task ?t), ?db)"
    using finish_ended[of "tk_run_id t" ?db] assms(8) by (simp add: finished_task_def)
  moreover have "nt_status ?n = (if status = T_CANCELED then N_CANCELED else N_PENDING)"
    using assms(8) by (cases status) (simp_all add: resolve_row_def)
  ultimately show ?thesis using run by (simp add: finished_task_def)
qed

lemma finish_flips_obligation_witness:
  "\<exists>db t n. t \<in> set (sd_tasks db) \<and> n \<in> set (sd_ledger db)
     \<and> (\<exists>s n' db'. finish_subagent_task ''r'' T_FAILED [] ''e'' 9 db = (s, db') \<and> n' \<in> set (sd_ledger db')
          \<and> nt_status n = N_AWAITING \<and> nt_status n' = N_PENDING)"
proof -
  let ?db = "subordinate_run sample_ops no_tasks"
  obtain t n where t: "sd_tasks ?db = [t]" "tk_run_id t = ''r''" "tk_status t = T_RUNNING"
    and n: "sd_ledger ?db = [n]" "nt_kind n = SUBAGENT_FINISHED" "nt_run_id n = ''r''" "nt_status n = N_AWAITING"
    by (simp add: sample_ops_def subordinate_run_def create_subagent_task_def sample_task_def ledger_register_def
        add_obligation_def insert_notification_def new_notification_def task_target_def Let_def)
  have ok: "subordinate_ok ?db" by (rule reachable_ok)
  have "t \<in> set (sd_tasks ?db)" "n \<in> set (sd_ledger ?db)" using t(1) n(1) by simp_all
  with finish_flips_obligation[OF ok this(1) t(3) this(2) n(2) _ n(4), of T_FAILED "[]" "''e''" 9 T_CANCELED "[]" "[]" 0] t n
  obtain s n' db' where r: "finish_subagent_task ''r'' T_FAILED [] ''e'' 9 ?db = (s, db')"
    and n': "nt_status n' = N_PENDING" "sd_ledger db' = [n']"
    by auto
  show ?thesis
    by (rule exI[of _ ?db], rule exI[of _ t], rule exI[of _ n]) (use r n' t(1) n(1,4) in auto)
qed

text \<open>A task that has ended is never changed again, by no sequence of operations: its row, with
  status, result and error, stays in the table as it is.\<close>

theorem ended_tasks_stay:
  assumes "t \<in> set (sd_tasks (subordinate_run ops no_tasks))"
    and "tk_status t \<in> {T_COMPLETED, T_FAILED, T_CANCELED}"
  shows "t \<in> set (sd_tasks (subordinate_run (ops @ later) no_tasks))"
proof -
  have "subordinate_run (ops @ later) no_tasks = subordinate_run later (subordinate_run ops no_tasks)"
    by (simp add: subordinate_run_def)
  with ended_task_run[OF reachable_ok assms(1)] assms(2) show ?thesis by auto
qed

lemma ended_tasks_stay_witness:
  "\<exists>t. tk_status t = T_CANCELED
     \<and> t \<in> set (sd_tasks (subordinate_run ((sample_ops @ [SCancelRunning None None ''e'' 6]) @ [SFail ''r'' ''x'' 8]) no_tasks))"
proof -
  let ?ops = "sample_ops @ [SCancelRunning None None ''e'' 6]"
  have "\<exists>t\<in>set (sd_tasks (subordinate_run ?ops no_tasks)). tk_status t = T_CANCELED"
    by (simp add: sample_ops_def subordinate_run_def create_subagent_task_def sample_task_def ledger_register_def
        add_obligation_def insert_notification_def new_notification_def task_target_def Let_def
        cancel_running_rows_def running_matches_def canceled_task_def)
  then obtain t where "t \<in> set (sd_tasks (subordinate_run ?ops no_tasks))" "tk_status t = T_CANCELED" by blast
  then show ?thesis using ended_tasks_stay[of t ?ops "[SFail ''r'' ''x'' 8]"] by auto
qed

text \<open>The message of a cancellation, of \<^verbatim>\<open>src/core/delegation/subagents.py\<close>.\<close>

definition subagent_cancel_message :: string where
  "subagent_cancel_message = ''Subagent task canceled.''"

end
