(* ===== verification/Async_Jobs.thy ===== *)
theory Async_Jobs
  imports Obligations
begin

text \<open>
  Background commands of the sandbox, \<^verbatim>\<open>src/service/sandbox/async_jobs.py\<close>: the table of jobs
  beside the notification table.  Every operation is one transaction on both tables.
\<close>

datatype job_status = J_RUNNING | J_COMPLETED | J_FAILED | J_CANCELED

definition terminal_async_job_statuses :: "job_status list" where
  "terminal_async_job_statuses = [J_COMPLETED, J_FAILED, J_CANCELED]"

definition owner_waking_statuses :: "job_status list" where
  "owner_waking_statuses = [J_COMPLETED, J_FAILED]"

fun job_status_value :: "job_status \<Rightarrow> string" where
  "job_status_value J_RUNNING = ''running''"
| "job_status_value J_COMPLETED = ''completed''"
| "job_status_value J_FAILED = ''failed''"
| "job_status_value J_CANCELED = ''canceled''"

text \<open>The row; the snapshot has the same fields.\<close>

record async_job =
  aj_run_id :: string
  aj_session_id :: string
  aj_agent_code :: string
  aj_instance :: string
  aj_command :: string
  aj_output_file :: string
  aj_status :: job_status
  aj_exit_code :: "int option"
  aj_output_bytes :: int
  aj_output_lines :: int
  aj_error :: string
  aj_nested_for :: string
  aj_nested_call_id :: string
  aj_container_id :: "int option"
  aj_container_generation :: int
  aj_skill_metadata :: "string list"
  aj_created_at :: datetime
  aj_updated_at :: datetime
  aj_started_at :: "datetime option"
  aj_finished_at :: "datetime option"

record job_db =
  jd_jobs :: "async_job list"
  jd_ledger :: "notification list"

definition snapshot_from_job :: "async_job \<Rightarrow> async_job" where
  "snapshot_from_job j = j"

definition find_job :: "string \<Rightarrow> async_job list \<Rightarrow> async_job option" where
  "find_job run_id jobs = List.find (\<lambda>j. aj_run_id j = run_id) jobs"

definition job_target :: "async_job \<Rightarrow> string list \<Rightarrow> string list \<Rightarrow> string \<Rightarrow> notification_target" where
  "job_target j targets actions scope_id =
     \<lparr>tg_session_id = aj_session_id j, tg_agent_code = aj_agent_code j, tg_instance = aj_instance j,
      tg_nested_for = aj_nested_for j, tg_nested_call_id = aj_nested_call_id j,
      tg_container_id = aj_container_id j, tg_container_generation = aj_container_generation j,
      tg_skill_metadata = aj_skill_metadata j,
      tg_allowed_targets = targets, tg_allowed_action_types = actions, tg_scope_id = scope_id\<rparr>"

text \<open>The caller's arguments arrive as a row; the fields the code sets are set here.
  \<^const>\<open>None\<close> is a violated constraint, which rolls back both inserts.\<close>

definition create_async_job ::
  "async_job \<Rightarrow> string \<Rightarrow> string list \<Rightarrow> string list \<Rightarrow> string \<Rightarrow> datetime \<Rightarrow> job_db
     \<Rightarrow> (async_job \<times> job_db) option" where
  "create_async_job args fresh_id targets actions scope_id now db =
    (let j = args\<lparr>aj_status := J_RUNNING, aj_exit_code := None, aj_output_bytes := 0, aj_output_lines := 0,
               aj_error := [], aj_created_at := now, aj_updated_at := now, aj_started_at := Some now,
               aj_finished_at := None\<rparr>
     in if aj_run_id j \<in> set (map aj_run_id (jd_jobs db)) then None
        else (case ledger_register (SANDBOX_ASYNC_JOB_FINISHED, aj_run_id j)
                (fresh_id, job_target j targets actions scope_id, [], now) (jd_ledger db) of
           None \<Rightarrow> None
         | Some l \<Rightarrow> Some (snapshot_from_job j, \<lparr>jd_jobs = jd_jobs db @ [j], jd_ledger = l\<rparr>)))"

definition get_async_job :: "string \<Rightarrow> string \<Rightarrow> job_db \<Rightarrow> async_job option" where
  "get_async_job run_id session_id db =
    (case find_job run_id (jd_jobs db) of
       None \<Rightarrow> None
     | Some j \<Rightarrow> if aj_session_id j \<noteq> session_id then None else Some (snapshot_from_job j))"

definition count_running_async_jobs_for_agent :: "string \<Rightarrow> string \<Rightarrow> job_db \<Rightarrow> nat" where
  "count_running_async_jobs_for_agent session_id instance_id db =
     length (filter (\<lambda>j. aj_session_id j = session_id \<and> aj_instance j = instance_id \<and> aj_status j = J_RUNNING)
       (jd_jobs db))"

definition job_obligation_payload :: "async_job \<Rightarrow> dict" where
  "job_obligation_payload j =
     [(''status'', JStr (job_status_value (aj_status j))), (''output_file'', JStr (aj_output_file j)),
      (''output_bytes'', JInt (aj_output_bytes j)), (''output_lines'', JInt (aj_output_lines j)),
      (''exit_code'', (case aj_exit_code j of None \<Rightarrow> JNull | Some c \<Rightarrow> JInt c)),
      (''error'', JStr (aj_error j))]"

text \<open>The values of the final UPDATE.\<close>

definition finished_job ::
  "job_status \<Rightarrow> int option \<Rightarrow> int \<Rightarrow> int \<Rightarrow> string \<Rightarrow> datetime \<Rightarrow> async_job \<Rightarrow> async_job" where
  "finished_job status code bytes lines error now j =
     j\<lparr>aj_status := status, aj_exit_code := code, aj_output_bytes := bytes, aj_output_lines := lines,
       aj_error := error, aj_updated_at := now, aj_finished_at := Some now\<rparr>"

definition finish_async_job ::
  "string \<Rightarrow> job_status \<Rightarrow> int option \<Rightarrow> int \<Rightarrow> int \<Rightarrow> string \<Rightarrow> datetime \<Rightarrow> job_db
     \<Rightarrow> async_job option \<times> job_db" where
  "finish_async_job run_id status code bytes lines error now db =
    (case find_job run_id (jd_jobs db) of
       None \<Rightarrow> (None, db)
     | Some j \<Rightarrow>
         if aj_status j \<in> set terminal_async_job_statuses then (Some (snapshot_from_job j), db)
         else
           let p = (\<lambda>r. aj_run_id r = run_id \<and> aj_status r = J_RUNNING) in
           if length (filter p (jd_jobs db)) \<noteq> 1 then (Some (snapshot_from_job j), db)
           else
             let jobs = update_rows p (finished_job status code bytes lines error now) (jd_jobs db);
                 refreshed = find_job run_id jobs;
                 l = ledger_resolve (SANDBOX_ASYNC_JOB_FINISHED, run_id)
                       (status \<in> set owner_waking_statuses, map_option job_obligation_payload refreshed,
                        error, now) (jd_ledger db)
             in (map_option snapshot_from_job refreshed, \<lparr>jd_jobs = jobs, jd_ledger = l\<rparr>))"

definition complete_async_job where
  "complete_async_job run_id code bytes lines now db =
     finish_async_job run_id J_COMPLETED (Some code) bytes lines [] now db"

definition fail_async_job where
  "fail_async_job run_id error bytes lines now db = finish_async_job run_id J_FAILED None bytes lines error now db"

definition cancel_async_job where
  "cancel_async_job run_id error bytes lines now db = finish_async_job run_id J_CANCELED None bytes lines error now db"

definition job_matches :: "string option \<Rightarrow> string option \<Rightarrow> int option \<Rightarrow> async_job \<Rightarrow> bool" where
  "job_matches session_id instance_id container_id j \<longleftrightarrow>
     aj_status j = J_RUNNING \<and>
     (case session_id of None \<Rightarrow> True | Some s \<Rightarrow> aj_session_id j = s) \<and>
     (case instance_id of None \<Rightarrow> True | Some i \<Rightarrow> aj_instance j = i) \<and>
     (case container_id of None \<Rightarrow> True | Some c \<Rightarrow> aj_container_id j = Some c)"

definition canceled_job :: "string \<Rightarrow> datetime \<Rightarrow> async_job \<Rightarrow> async_job" where
  "canceled_job error now j =
     j\<lparr>aj_status := J_CANCELED, aj_error := error, aj_updated_at := now, aj_finished_at := Some now\<rparr>"

definition cancel_running_jobs ::
  "string option \<Rightarrow> string option \<Rightarrow> int option \<Rightarrow> string \<Rightarrow> datetime \<Rightarrow> job_db \<Rightarrow> async_job list \<times> job_db" where
  "cancel_running_jobs session_id instance_id container_id error now db =
    (let p = job_matches session_id instance_id container_id; rows = filter p (jd_jobs db)
     in (map (snapshot_from_job \<circ> canceled_job error now) rows,
         \<lparr>jd_jobs = update_rows p (canceled_job error now) (jd_jobs db),
          jd_ledger = fold (\<lambda>j. ledger_resolve (SANDBOX_ASYNC_JOB_FINISHED, aj_run_id j) (False, None, error, now))
            rows (jd_ledger db)\<rparr>))"

definition cancel_running_async_jobs_for_session where
  "cancel_running_async_jobs_for_session session_id error now db =
     cancel_running_jobs (Some session_id) None None error now db"

definition cancel_running_async_jobs_for_agent where
  "cancel_running_async_jobs_for_agent session_id instance_id error now db =
     cancel_running_jobs (Some session_id) (Some instance_id) None error now db"

definition cancel_running_async_jobs_for_container where
  "cancel_running_async_jobs_for_container container_id error now db =
     cancel_running_jobs None None (Some container_id) error now db"

definition cancel_running_async_jobs where
  "cancel_running_async_jobs error now db = cancel_running_jobs None None None error now db"

definition job_restart_error :: string where
  "job_restart_error = ''Sandbox async job was interrupted by backend restart.''"

definition stale_job :: "datetime \<Rightarrow> async_job \<Rightarrow> async_job" where
  "stale_job now j =
     j\<lparr>aj_status := J_FAILED, aj_error := job_restart_error, aj_updated_at := now, aj_finished_at := Some now\<rparr>"

definition mark_stale_running_async_jobs_failed :: "datetime \<Rightarrow> job_db \<Rightarrow> async_job list \<times> job_db" where
  "mark_stale_running_async_jobs_failed now db =
    (let p = (\<lambda>j. aj_status j = J_RUNNING); rows = filter p (jd_jobs db)
     in (map (snapshot_from_job \<circ> stale_job now) rows,
         \<lparr>jd_jobs = update_rows p (stale_job now) (jd_jobs db),
          jd_ledger = fold (\<lambda>j. ledger_resolve (SANDBOX_ASYNC_JOB_FINISHED, aj_run_id j)
              (True, Some (job_obligation_payload (stale_job now j)), job_restart_error, now))
            rows (jd_ledger db)\<rparr>))"

section \<open>Sequences of operations\<close>

datatype job_op =
    JCreate async_job string "string list" "string list" string datetime
  | JComplete string int int int datetime
  | JFail string string int int datetime
  | JCancel string string int int datetime
  | JCancelSession string string datetime
  | JCancelAgent string string string datetime
  | JCancelContainer int string datetime
  | JCancelAll string datetime
  | JMarkStale datetime
  | JNotification notification_op

text \<open>Any other operation of the notification table may come between, except registering and
  resolving job obligations, which nobody else does.\<close>

fun job_exec :: "job_op \<Rightarrow> job_db \<Rightarrow> job_db" where
  "job_exec (JCreate args k ts as sc now) db =
    (case create_async_job args k ts as sc now db of None \<Rightarrow> db | Some (_, db') \<Rightarrow> db')"
| "job_exec (JComplete k c b n now) db = snd (complete_async_job k c b n now db)"
| "job_exec (JFail k e b n now) db = snd (fail_async_job k e b n now db)"
| "job_exec (JCancel k e b n now) db = snd (cancel_async_job k e b n now db)"
| "job_exec (JCancelSession s e now) db = snd (cancel_running_async_jobs_for_session s e now db)"
| "job_exec (JCancelAgent s i e now) db = snd (cancel_running_async_jobs_for_agent s i e now db)"
| "job_exec (JCancelContainer c e now) db = snd (cancel_running_async_jobs_for_container c e now db)"
| "job_exec (JCancelAll e now) db = snd (cancel_running_async_jobs e now db)"
| "job_exec (JMarkStale now) db = snd (mark_stale_running_async_jobs_failed now db)"
| "job_exec (JNotification x) db =
    (if foreign_op SANDBOX_ASYNC_JOB_FINISHED x then db\<lparr>jd_ledger := notification_exec x (jd_ledger db)\<rparr> else db)"

definition job_run :: "job_op list \<Rightarrow> job_db \<Rightarrow> job_db" where
  "job_run ops db = fold job_exec ops db"

definition job_live :: "async_job \<Rightarrow> bool" where
  "job_live j \<longleftrightarrow> aj_status j = J_RUNNING"

definition job_ok :: "job_db \<Rightarrow> bool" where
  "job_ok db \<longleftrightarrow> work_ok SANDBOX_ASYNC_JOB_FINISHED aj_run_id job_live (jd_jobs db) (jd_ledger db)"

lemma job_ok_distinct: "job_ok db \<Longrightarrow> distinct (map aj_run_id (jd_jobs db))"
  by (simp add: job_ok_def work_ok_def)

lemma job_not_running: "aj_status j \<noteq> J_RUNNING \<Longrightarrow> aj_status j \<in> set terminal_async_job_statuses"
  by (cases "aj_status j") (simp_all add: terminal_async_job_statuses_def)

text \<open>The update of the final write, by key and status, changes the one row of a running job.\<close>

lemma finish_job_running:
  assumes ok: "job_ok db" and j: "j \<in> set (jd_jobs db)" "aj_status j = J_RUNNING"
  shows "finish_async_job (aj_run_id j) status code bytes lines error now db =
    (let j' = finished_job status code bytes lines error now j in
     (Some (snapshot_from_job j'),
      \<lparr>jd_jobs = map (\<lambda>r. if r = j then j' else r) (jd_jobs db),
       jd_ledger = ledger_resolve (SANDBOX_ASYNC_JOB_FINISHED, aj_run_id j)
         (status \<in> set owner_waking_statuses, Some (job_obligation_payload j'), error, now) (jd_ledger db)\<rparr>))"
proof -
  let ?p = "\<lambda>r. aj_run_id r = aj_run_id j \<and> aj_status r = J_RUNNING"
  let ?f = "finished_job status code bytes lines error now"
  have find: "find_job (aj_run_id j) (jd_jobs db) = Some j"
    unfolding find_job_def by (rule find_key[OF job_ok_distinct[OF ok] j(1)])
  have one: "length (filter ?p (jd_jobs db)) = 1"
    using filter_key_single[OF job_ok_distinct[OF ok] j(1), of "\<lambda>r. aj_status r = J_RUNNING"] j(2) by simp
  have upd: "update_rows ?p ?f (jd_jobs db) = map (\<lambda>r. if r = j then ?f j else r) (jd_jobs db)"
    using j(2) by (rule update_key_single[OF job_ok_distinct[OF ok] j(1)])
  have found: "find_job (aj_run_id j) (update_rows ?p ?f (jd_jobs db)) = Some (?f j)"
    unfolding find_job_def
    by (rule find_key_updated[OF job_ok_distinct[OF ok] j(1)]) (simp_all add: j(2) finished_job_def)
  show ?thesis
    unfolding finish_async_job_def find option.case Let_def one found
    using j(2) by (simp add: terminal_async_job_statuses_def upd)
qed

lemma finish_job_ended:
  "find_job run_id (jd_jobs db) = None \<or> (\<exists>j. find_job run_id (jd_jobs db) = Some j \<and> aj_status j \<noteq> J_RUNNING)
     \<Longrightarrow> finish_async_job run_id status code bytes lines error now db =
           (map_option snapshot_from_job (find_job run_id (jd_jobs db)), db)"
  by (auto simp: finish_async_job_def dest: job_not_running)

lemma finish_job_ok [inv_intros]:
  assumes ok: "job_ok db"
  shows "job_ok (snd (finish_async_job run_id status code bytes lines error now db))"
proof (cases "\<exists>j. find_job run_id (jd_jobs db) = Some j \<and> aj_status j = J_RUNNING")
  case False
  then have "find_job run_id (jd_jobs db) = None
      \<or> (\<exists>j. find_job run_id (jd_jobs db) = Some j \<and> aj_status j \<noteq> J_RUNNING)"
    by (cases "find_job run_id (jd_jobs db)") auto
  from finish_job_ended[OF this] ok show ?thesis by simp
next
  case True
  then obtain j where j: "j \<in> set (jd_jobs db)" "aj_run_id j = run_id" "aj_status j = J_RUNNING"
    by (auto simp: find_job_def dest: find_SomeD)
  let ?p = "\<lambda>r. aj_run_id r = aj_run_id j \<and> aj_status r = J_RUNNING"
  let ?f = "finished_job status code bytes lines error now"
  have "filter ?p (jd_jobs db) = [j]"
    using j by (intro filter_key_single[OF job_ok_distinct[OF ok]])
  moreover have "update_rows ?p ?f (jd_jobs db) = map (\<lambda>r. if r = j then ?f j else r) (jd_jobs db)"
    using j(3) by (rule update_key_single[OF job_ok_distinct[OF ok] j(1)])
  moreover have "work_ok SANDBOX_ASYNC_JOB_FINISHED aj_run_id job_live (update_rows ?p ?f (jd_jobs db))
      (fold (\<lambda>r. ledger_resolve (SANDBOX_ASYNC_JOB_FINISHED, aj_run_id r)
         (status \<in> set owner_waking_statuses, Some (job_obligation_payload (?f j)), error, now))
         (filter ?p (jd_jobs db)) (jd_ledger db))"
    using ok by (intro work_ok_end) (simp_all add: job_ok_def finished_job_def)
  ultimately show ?thesis
    using finish_job_running[OF ok j(1,3)] j(2) by (simp add: job_ok_def Let_def)
qed

lemma create_job_ok [inv_intros]:
  assumes ok: "job_ok db" and "create_async_job args k ts as sc now db = Some (s, db')"
  shows "job_ok db'"
proof -
  define j where "j = args\<lparr>aj_status := J_RUNNING, aj_exit_code := None, aj_output_bytes := 0, aj_output_lines := 0,
               aj_error := [], aj_created_at := now, aj_updated_at := now, aj_started_at := Some now,
               aj_finished_at := None\<rparr>"
  have new: "aj_run_id j \<notin> aj_run_id ` set (jd_jobs db)" and live: "job_live j"
    using assms(2) by (auto simp: create_async_job_def j_def job_live_def Let_def)
  from assms(2) obtain a l where "ledger_register (SANDBOX_ASYNC_JOB_FINISHED, aj_run_id j) a (jd_ledger db) = Some l"
      and "db' = \<lparr>jd_jobs = jd_jobs db @ [j], jd_ledger = l\<rparr>"
    unfolding create_async_job_def j_def[symmetric] Let_def by (auto split: if_splits option.splits)
  with ok new live show ?thesis by (auto simp: job_ok_def intro: work_ok_register)
qed

lemma cancel_running_jobs_ok [inv_intros]:
  "job_ok db \<Longrightarrow> job_ok (snd (cancel_running_jobs s i c e now db))"
  unfolding cancel_running_jobs_def job_ok_def Let_def by (simp add: work_ok_end canceled_job_def)

lemma mark_stale_jobs_ok [inv_intros]:
  "job_ok db \<Longrightarrow> job_ok (snd (mark_stale_running_async_jobs_failed now db))"
  unfolding mark_stale_running_async_jobs_failed_def job_ok_def Let_def by (simp add: work_ok_end stale_job_def)

lemmas job_entry_points =
  complete_async_job_def fail_async_job_def cancel_async_job_def cancel_running_async_jobs_for_session_def
  cancel_running_async_jobs_for_agent_def cancel_running_async_jobs_for_container_def cancel_running_async_jobs_def

lemma job_exec_ok:
  assumes "job_ok db"
  shows "job_ok (job_exec x db)"
proof (cases x)
  case (JNotification y)
  with assms show ?thesis by (simp add: job_ok_def work_ok_foreign)
qed (use assms in \<open>auto simp: job_entry_points intro: inv_intros split: option.split\<close>)

lemma job_run_ok: "job_ok db \<Longrightarrow> job_ok (job_run ops db)"
  unfolding job_run_def by (induction ops arbitrary: db) (simp_all add: job_exec_ok)

abbreviation no_jobs :: job_db where
  "no_jobs \<equiv> \<lparr>jd_jobs = [], jd_ledger = []\<rparr>"

lemma reachable_jobs_ok: "job_ok (job_run ops no_jobs)"
  by (rule job_run_ok) (simp add: job_ok_def work_ok_empty)

text \<open>Canceling by scope, in terms of the rows it ends and the obligations it resolves.\<close>

lemma cancel_awaits:
  assumes "job_ok db"
  shows "awaits (jd_ledger (snd (cancel_running_jobs s i c e now db))) k \<longleftrightarrow>
    awaits (jd_ledger db) k \<and> k \<notin> (\<lambda>j. (SANDBOX_ASYNC_JOB_FINISHED, aj_run_id j)) ` {j \<in> set (jd_jobs db). job_matches s i c j}"
proof -
  have wf: "unique_ok (jd_ledger db)" using assms by (simp add: job_ok_def work_ok_def)
  show ?thesis
    using ledger.resolve_all_awaiting[OF wf, of "\<lambda>j. (SANDBOX_ASYNC_JOB_FINISHED, aj_run_id j)"
        "\<lambda>_. (False, None, e, now)" "filter (job_matches s i c) (jd_jobs db)" k]
    by (simp add: cancel_running_jobs_def Let_def) blast
qed

lemma cancel_jobs:
  "jd_jobs (snd (cancel_running_jobs s i c e now db)) =
     map (\<lambda>j. if job_matches s i c j then canceled_job e now j else j) (jd_jobs db)"
  "fst (cancel_running_jobs s i c e now db) = map (canceled_job e now) (filter (job_matches s i c) (jd_jobs db))"
  by (simp_all add: cancel_running_jobs_def Let_def update_rows_def snapshot_from_job_def comp_def)

section \<open>Properties\<close>

definition sample_job :: "string \<Rightarrow> async_job" where
  "sample_job run =
     \<lparr>aj_run_id = run, aj_session_id = ''s'', aj_agent_code = ''main'', aj_instance = ''i'', aj_command = ''ls'',
      aj_output_file = ''f'', aj_status = J_RUNNING, aj_exit_code = None, aj_output_bytes = 0, aj_output_lines = 0,
      aj_error = [], aj_nested_for = [], aj_nested_call_id = [], aj_container_id = Some 4,
      aj_container_generation = 1, aj_skill_metadata = [], aj_created_at = 0, aj_updated_at = 0,
      aj_started_at = None, aj_finished_at = None\<rparr>"

definition sample_job_ops :: "job_op list" where
  "sample_job_ops = [JCreate (sample_job ''r'') ''n'' [] [] [] 5, JCreate (sample_job ''q'') ''m'' [] [] [] 6]"

text \<open>C16. After any sequence of operations on the two tables from the empty database an agent is
  waiting only for commands that still run; a final write to a running command returns the row with
  the given result and leaves nobody waiting for it; and after a restart has marked the stale commands
  no command is running and nobody waits for one.\<close>

theorem no_wait_for_ended_job:
  "(\<forall>n\<in>set (jd_ledger (job_run ops no_jobs)).
        nt_kind n = SANDBOX_ASYNC_JOB_FINISHED \<and> nt_status n = N_AWAITING
          \<longrightarrow> (\<exists>j\<in>set (jd_jobs (job_run ops no_jobs)). aj_run_id j = nt_run_id n \<and> aj_status j = J_RUNNING))
   \<and> (\<forall>j\<in>set (jd_jobs (job_run ops no_jobs)). aj_status j = J_RUNNING \<and> status \<noteq> J_RUNNING \<longrightarrow>
        fst (finish_async_job (aj_run_id j) status code bytes lines e now (job_run ops no_jobs))
          = Some (j\<lparr>aj_status := status, aj_exit_code := code, aj_output_bytes := bytes, aj_output_lines := lines,
                  aj_error := e, aj_updated_at := now, aj_finished_at := Some now\<rparr>)
        \<and> \<not> awaits (jd_ledger (snd (finish_async_job (aj_run_id j) status code bytes lines e now (job_run ops no_jobs))))
              (SANDBOX_ASYNC_JOB_FINISHED, aj_run_id j))
   \<and> (\<forall>j\<in>set (jd_jobs (job_run (ops @ [JMarkStale now]) no_jobs)). aj_status j \<noteq> J_RUNNING)
   \<and> (\<forall>run. \<not> awaits (jd_ledger (job_run (ops @ [JMarkStale now]) no_jobs)) (SANDBOX_ASYNC_JOB_FINISHED, run))"
proof (intro conjI)
  let ?db = "job_run ops no_jobs"
  have ok: "job_ok ?db" by (rule reachable_jobs_ok)
  show "\<forall>n\<in>set (jd_ledger ?db). nt_kind n = SANDBOX_ASYNC_JOB_FINISHED \<and> nt_status n = N_AWAITING
          \<longrightarrow> (\<exists>j\<in>set (jd_jobs ?db). aj_run_id j = nt_run_id n \<and> aj_status j = J_RUNNING)"
    using ok by (auto simp: job_ok_def work_ok_def backed_def live_key_def job_live_def awaits_def)
  have wf: "unique_ok (jd_ledger ?db)" using ok by (simp add: job_ok_def work_ok_def)
  show "\<forall>j\<in>set (jd_jobs ?db). aj_status j = J_RUNNING \<and> status \<noteq> J_RUNNING \<longrightarrow>
        fst (finish_async_job (aj_run_id j) status code bytes lines e now ?db)
          = Some (j\<lparr>aj_status := status, aj_exit_code := code, aj_output_bytes := bytes, aj_output_lines := lines,
                  aj_error := e, aj_updated_at := now, aj_finished_at := Some now\<rparr>)
        \<and> \<not> awaits (jd_ledger (snd (finish_async_job (aj_run_id j) status code bytes lines e now ?db)))
              (SANDBOX_ASYNC_JOB_FINISHED, aj_run_id j)"
    using finish_job_running[OF ok] ledger.resolve_awaiting[OF wf]
    by (auto simp: Let_def snapshot_from_job_def finished_job_def)
  have stale: "job_run (ops @ [JMarkStale now]) no_jobs = snd (mark_stale_running_async_jobs_failed now ?db)"
    by (simp add: job_run_def)
  show ended: "\<forall>j\<in>set (jd_jobs (job_run (ops @ [JMarkStale now]) no_jobs)). aj_status j \<noteq> J_RUNNING"
    unfolding stale
    by (auto simp: mark_stale_running_async_jobs_failed_def Let_def stale_job_def update_rows_def)
  show "\<forall>run. \<not> awaits (jd_ledger (job_run (ops @ [JMarkStale now]) no_jobs)) (SANDBOX_ASYNC_JOB_FINISHED, run)"
    using reachable_jobs_ok[of "ops @ [JMarkStale now]"] ended
    by (fastforce simp: job_ok_def work_ok_def backed_def live_key_def job_live_def)
qed

lemma no_wait_for_ended_job_witness:
  "awaits (jd_ledger (job_run sample_job_ops no_jobs)) (SANDBOX_ASYNC_JOB_FINISHED, ''r'')
   \<and> \<not> awaits (jd_ledger (snd (finish_async_job ''r'' J_COMPLETED (Some 0) 3 2 [] 9 (job_run sample_job_ops no_jobs))))
         (SANDBOX_ASYNC_JOB_FINISHED, ''r'')"
proof -
  let ?db = "job_run sample_job_ops no_jobs"
  have a: "awaits (jd_ledger ?db) (SANDBOX_ASYNC_JOB_FINISHED, ''r'')"
    by (simp add: sample_job_ops_def job_run_def create_async_job_def sample_job_def ledger_register_def
        add_obligation_def insert_notification_def new_notification_def job_target_def awaits_def Let_def)
  with no_wait_for_ended_job[of sample_job_ops]
  obtain j where "j \<in> set (jd_jobs ?db)" "aj_run_id j = ''r''" "aj_status j = J_RUNNING"
    unfolding awaits_def by fastforce
  with no_wait_for_ended_job[of sample_job_ops J_COMPLETED "Some 0" 3 2 "[]" 9] a show ?thesis by auto
qed

text \<open>Canceling the running commands of a session, an agent, a container or all of them ends
  exactly the running commands of this scope, reports exactly these, resolves exactly their
  obligations and leaves every other row as it was; afterwards no command of the scope runs.\<close>

theorem cancel_jobs_exact:
  assumes "job_ok db" and "r = cancel_running_jobs s i c e now db"
  shows "jd_jobs (snd r) = map (\<lambda>j. if job_matches s i c j then canceled_job e now j else j) (jd_jobs db)
    \<and> fst r = map (canceled_job e now) (filter (job_matches s i c) (jd_jobs db))
    \<and> (\<forall>j\<in>set (jd_jobs (snd r)). \<not> job_matches s i c j)
    \<and> (\<forall>k. awaits (jd_ledger (snd r)) k \<longleftrightarrow> awaits (jd_ledger db) k
          \<and> \<not> (fst k = SANDBOX_ASYNC_JOB_FINISHED
               \<and> (\<exists>j\<in>set (jd_jobs db). job_matches s i c j \<and> aj_run_id j = snd k)))
    \<and> count_running_async_jobs_for_agent a b (snd (cancel_running_async_jobs_for_agent a b e now db)) = 0"
proof (intro conjI)
  show "jd_jobs (snd r) = map (\<lambda>j. if job_matches s i c j then canceled_job e now j else j) (jd_jobs db)"
    and "fst r = map (canceled_job e now) (filter (job_matches s i c) (jd_jobs db))"
    by (simp_all add: assms(2) cancel_jobs)
  show "\<forall>j\<in>set (jd_jobs (snd r)). \<not> job_matches s i c j"
    by (auto simp: assms(2) cancel_jobs job_matches_def canceled_job_def)
  show "\<forall>k. awaits (jd_ledger (snd r)) k \<longleftrightarrow> awaits (jd_ledger db) k
          \<and> \<not> (fst k = SANDBOX_ASYNC_JOB_FINISHED
               \<and> (\<exists>j\<in>set (jd_jobs db). job_matches s i c j \<and> aj_run_id j = snd k))"
    by (auto simp: assms(2) cancel_awaits[OF assms(1)])
  show "count_running_async_jobs_for_agent a b (snd (cancel_running_async_jobs_for_agent a b e now db)) = 0"
    by (auto simp: count_running_async_jobs_for_agent_def cancel_running_async_jobs_for_agent_def cancel_jobs
        job_matches_def canceled_job_def filter_empty_conv)
qed

lemma cancel_jobs_exact_witness:
  "\<exists>j\<in>set (jd_jobs (job_run sample_job_ops no_jobs)). job_matches None None (Some 4) j
     \<and> canceled_job ''e'' 9 j \<in> set (fst (cancel_running_jobs None None (Some 4) ''e'' 9 (job_run sample_job_ops no_jobs)))"
proof -
  let ?db = "job_run sample_job_ops no_jobs"
  have "\<exists>j\<in>set (jd_jobs ?db). job_matches None None (Some 4) j"
    by (simp add: sample_job_ops_def job_run_def create_async_job_def sample_job_def ledger_register_def
        add_obligation_def insert_notification_def new_notification_def job_target_def job_matches_def Let_def)
  then obtain j where j: "j \<in> set (jd_jobs ?db)" "job_matches None None (Some 4) j" by blast
  moreover have "fst (cancel_running_jobs None None (Some 4) ''e'' 9 ?db)
      = map (canceled_job ''e'' 9) (filter (job_matches None None (Some 4)) (jd_jobs ?db))"
    using cancel_jobs_exact[OF reachable_jobs_ok[of sample_job_ops] refl, of None None "Some 4" "''e''" 9] by blast
  ultimately show ?thesis by (intro bexI[of _ j]) simp_all
qed

end
