(* ===== verification/Work_Tables.thy ===== *)
theory Work_Tables
  imports Complex_Main Urls Json
begin

text \<open>
  The tables of a work project (\<^verbatim>\<open>src/model/work_project/\<close>): assets, the edges between them,
  attack paths and their steps, findings; the requests that change them, with their validation
  (\<^verbatim>\<open>src/schema/work_project/\<close>); the constraints and cascades of the database; and the integrity
  invariant of the five tables.  Floats are rationals: the components copy and compare them.
\<close>

section \<open>Requests and rows\<close>

datatype asset_type = A_SERVICE | A_DOMAIN | A_NETWORK | A_BINARY

datatype asset_origin = O_SCOPE | O_DISCOVERED

datatype edge_type =
  E_RELATED | E_RESOLVES_TO | E_HOSTS | E_CONNECTS_TO | E_TRUSTS | E_EXPLOITS | E_PIVOTS_TO | E_LEADS_TO

datatype edge_category = STRUCTURAL | OFFENSIVE

fun edge_type_category :: "edge_type \<Rightarrow> edge_category" where
  "edge_type_category E_RELATED = STRUCTURAL"
| "edge_type_category E_RESOLVES_TO = STRUCTURAL"
| "edge_type_category E_HOSTS = STRUCTURAL"
| "edge_type_category E_CONNECTS_TO = STRUCTURAL"
| "edge_type_category E_TRUSTS = STRUCTURAL"
| "edge_type_category E_EXPLOITS = OFFENSIVE"
| "edge_type_category E_PIVOTS_TO = OFFENSIVE"
| "edge_type_category E_LEADS_TO = OFFENSIVE"

datatype path_status = P_SUSPECTED | P_VALIDATED | P_BLOCKED | P_CLOSED

datatype finding_severity = S_INFO | S_LOW | S_MEDIUM | S_HIGH | S_CRITICAL

datatype finding_status = F_SUSPECTED | F_VALIDATED | F_FALSE_POSITIVE

datatype finding_type = F_GENERAL | F_CVE

datatype finding_confidence = F_LOW | F_MEDIUM | F_HIGH | F_CONFIRMED

text \<open>\<^verbatim>\<open>extra\<close> has one field, the banner; the flag records that the request set it.\<close>

record asset_request =
  ar_type :: asset_type
  ar_host :: string
  ar_port :: "int option"
  ar_path :: string
  ar_extra :: string
  ar_extra_set :: bool

record asset =
  as_id :: int
  as_project :: int
  as_type :: asset_type
  as_origin :: asset_origin
  as_identifier :: string
  as_host :: string
  as_port :: "int option"
  as_path :: string
  as_extra :: string
  as_agent :: string
  as_session :: string
  as_created_at :: datetime
  as_updated_at :: datetime

record edge_request =
  er_source :: int
  er_target :: int
  er_type :: edge_type
  er_label :: string

record edge =
  ed_id :: int
  ed_project :: int
  ed_source :: int
  ed_target :: int
  ed_type :: edge_type
  ed_label :: string
  ed_agent :: string
  ed_session :: string
  ed_created_at :: datetime
  ed_updated_at :: datetime

record path_request =
  pr_title :: string
  pr_status :: path_status
  pr_summary :: string

record attack_path =
  pt_id :: int
  pt_project :: int
  pt_title :: string
  pt_status :: path_status
  pt_summary :: string
  pt_agent :: string
  pt_session :: string
  pt_created_at :: datetime
  pt_updated_at :: datetime

record step_request =
  sr_sequence :: int
  sr_edge :: int

record path_step =
  st_id :: int
  st_project :: int
  st_path :: int
  st_sequence :: int
  st_edge :: int
  st_agent :: string
  st_session :: string
  st_created_at :: datetime
  st_updated_at :: datetime

record finding_request =
  fr_asset :: "int option"
  fr_edge :: "int option"
  fr_title :: string
  fr_type :: finding_type
  fr_cve_id :: string
  fr_severity :: finding_severity
  fr_status :: finding_status
  fr_confidence :: finding_confidence
  fr_cvss_score :: "rat option"
  fr_cvss_vector :: string
  fr_cwes :: "string list"
  fr_references :: "string list"
  fr_evidence :: string
  fr_remediation :: string
  fr_source :: string
  fr_known_exploited :: bool
  fr_epss_score :: "rat option"
  fr_epss_percentile :: "rat option"
  fr_affected_version :: string
  fr_fixed_versions :: "string list"
  fr_description :: string
  fr_impact :: string

text \<open>A finding row has every field of its request; they are the body of the row.\<close>

record finding =
  fd_id :: int
  fd_project :: int
  fd_body :: finding_request
  fd_agent :: string
  fd_session :: string
  fd_created_at :: datetime
  fd_updated_at :: datetime
  fd_validated_at :: "datetime option"

section \<open>Validation of the requests\<close>

definition build_asset_identifier :: "asset_type \<Rightarrow> string \<Rightarrow> int option \<Rightarrow> string \<Rightarrow> string" where
  "build_asset_identifier t host port path =
    (let host = str_lower (str_strip host); path = str_strip path in
     if t = A_BINARY then path
     else if t = A_SERVICE then
       (case port of Some p \<Rightarrow> if p \<noteq> 0 then host @ '':'' @ show_int p else host | None \<Rightarrow> host)
     else host)"

definition request_identifier :: "asset_request \<Rightarrow> string" where
  "request_identifier r = build_asset_identifier (ar_type r) (ar_host r) (ar_port r) (ar_path r)"

definition request_identity :: "asset_request \<Rightarrow> asset_type \<times> string" where
  "request_identity r = (ar_type r, request_identifier r)"

text \<open>\<^verbatim>\<open>str(ipaddress.ip_network(value, strict=False))\<close> is the parameter \<open>canon\<close>; it
  refuses what is no network.  The checks of the fields come before those of the model, and a
  refusal names the field or the message.\<close>

definition normalize_network :: "(string \<Rightarrow> string option) \<Rightarrow> string \<Rightarrow> string + string" where
  "normalize_network canon v =
    (case canon v of None \<Rightarrow> Inl ''network asset host must be a valid CIDR or IP'' | Some n \<Rightarrow> Inr n)"

definition validate_asset_request :: "(string \<Rightarrow> string option) \<Rightarrow> asset_request \<Rightarrow> string + asset_request" where
  "validate_asset_request canon raw =
    (let host = str_strip (ar_host raw); path = str_strip (ar_path raw); extra = str_strip (ar_extra raw);
         r = raw\<lparr>ar_host := host, ar_path := path, ar_extra := extra\<rparr>
     in if 255 < length host then Inl ''host''
        else if (case ar_port raw of None \<Rightarrow> False | Some p \<Rightarrow> p < 1 \<or> 65535 < p) then Inl ''port''
        else if 500 < length path then Inl ''path''
        else if 512 < length extra then Inl ''banner''
        else if ar_type raw = A_BINARY then
          (if path = [] then Inl ''binary asset path is required''
           else Inr (r\<lparr>ar_host := [], ar_port := None\<rparr>))
        else if host = [] then Inl ''asset host is required''
        else (case ar_type raw of
            A_DOMAIN \<Rightarrow> Inr (r\<lparr>ar_path := [], ar_host := str_lower host, ar_port := None\<rparr>)
          | A_NETWORK \<Rightarrow>
              (case normalize_network canon host of
                 Inl e \<Rightarrow> Inl e
               | Inr h \<Rightarrow> Inr (r\<lparr>ar_path := [], ar_host := h, ar_port := None\<rparr>))
          | _ \<Rightarrow> Inr (r\<lparr>ar_path := [], ar_host := str_lower host\<rparr>)))"

definition validate_edge_request :: "edge_request \<Rightarrow> string + edge_request" where
  "validate_edge_request raw =
    (let r = raw\<lparr>er_label := str_strip (er_label raw)\<rparr> in
     if er_source raw \<le> 0 then Inl ''source_asset_id''
     else if er_target raw \<le> 0 then Inl ''target_asset_id''
     else if 255 < length (er_label r) then Inl ''label''
     else if er_source raw = er_target raw then Inl ''graph edge cannot connect an asset to itself''
     else Inr r)"

definition validate_path_request :: "path_request \<Rightarrow> string + path_request" where
  "validate_path_request raw =
    (let r = raw\<lparr>pr_title := str_strip (pr_title raw), pr_summary := str_strip (pr_summary raw)\<rparr> in
     if pr_title r = [] \<or> 255 < length (pr_title r) then Inl ''title''
     else if 4000 < length (pr_summary r) then Inl ''summary''
     else Inr r)"

definition validate_step_request :: "step_request \<Rightarrow> string + step_request" where
  "validate_step_request raw =
    (if sr_sequence raw \<le> 0 then Inl ''sequence'' else if sr_edge raw \<le> 0 then Inl ''edge_id'' else Inr raw)"

text \<open>\<^verbatim>\<open>^(?:[Cc][Vv][Ee]-\d{4}-\d{4,}|)$\<close> and \<^verbatim>\<open>upper\<close> on what it accepts.\<close>

definition is_digit :: "char \<Rightarrow> bool" where
  "is_digit c \<longleftrightarrow> c \<in> set ''0123456789''"

definition cve_pattern :: "string \<Rightarrow> bool" where
  "cve_pattern s \<longleftrightarrow> s = [] \<or>
    (str_lower (take 4 s) = ''cve-'' \<and> 13 \<le> length s \<and> list_all is_digit (take 4 (drop 4 s)) \<and> s ! 8 = CHR ''-''
     \<and> list_all is_digit (drop 9 s))"

definition upper_char :: "char \<Rightarrow> char" where
  "upper_char c = (if c = CHR ''c'' then CHR ''C'' else if c = CHR ''v'' then CHR ''V''
                   else if c = CHR ''e'' then CHR ''E'' else c)"

definition normalize_string_list :: "string list \<Rightarrow> string list" where
  "normalize_string_list vs = dedup (filter (\<lambda>v. v \<noteq> []) (map str_strip vs))"

definition in_range :: "rat \<Rightarrow> rat option \<Rightarrow> bool" where
  "in_range hi x \<longleftrightarrow> (case x of None \<Rightarrow> True | Some v \<Rightarrow> 0 \<le> v \<and> v \<le> hi)"

definition positive_ref :: "int option \<Rightarrow> bool" where
  "positive_ref x \<longleftrightarrow> (case x of None \<Rightarrow> True | Some k \<Rightarrow> 0 < k)"

text \<open>The source name loses its white space with the other texts.\<close>

definition strip_finding :: "finding_request \<Rightarrow> finding_request" where
  "strip_finding raw =
     raw\<lparr>fr_title := str_strip (fr_title raw), fr_cve_id := str_strip (fr_cve_id raw),
         fr_cvss_vector := str_strip (fr_cvss_vector raw), fr_evidence := str_strip (fr_evidence raw),
         fr_remediation := str_strip (fr_remediation raw), fr_source := str_strip (fr_source raw),
         fr_affected_version := str_strip (fr_affected_version raw),
         fr_description := str_strip (fr_description raw), fr_impact := str_strip (fr_impact raw)\<rparr>"

definition finding_limits :: "finding_request \<Rightarrow> bool" where
  "finding_limits r \<longleftrightarrow>
     positive_ref (fr_asset r) \<and> positive_ref (fr_edge r) \<and> fr_title r \<noteq> [] \<and> length (fr_title r) \<le> 255
     \<and> length (fr_cve_id r) \<le> 32 \<and> cve_pattern (fr_cve_id r) \<and> in_range 10 (fr_cvss_score r)
     \<and> length (fr_cvss_vector r) \<le> 255 \<and> length (fr_cwes r) \<le> 64 \<and> length (fr_references r) \<le> 64
     \<and> length (fr_evidence r) \<le> 16000 \<and> length (fr_remediation r) \<le> 8000 \<and> length (fr_source r) \<le> 64
     \<and> in_range 1 (fr_epss_score r) \<and> in_range 1 (fr_epss_percentile r)
     \<and> length (fr_affected_version r) \<le> 255 \<and> length (fr_fixed_versions r) \<le> 64
     \<and> length (fr_description r) \<le> 8000 \<and> length (fr_impact r) \<le> 8000"

definition validate_finding_request :: "finding_request \<Rightarrow> finding_request option" where
  "validate_finding_request raw =
    (let r = strip_finding raw in
     if \<not> finding_limits r then None
     else Some (r\<lparr>fr_cve_id := map upper_char (fr_cve_id r), fr_cwes := normalize_string_list (fr_cwes r),
                 fr_references := normalize_string_list (fr_references r),
                 fr_fixed_versions := normalize_string_list (fr_fixed_versions r)\<rparr>))"

section \<open>The database\<close>

record graph_db =
  gd_projects :: "int list"
  gd_assets :: "asset list"
  gd_edges :: "edge list"
  gd_paths :: "attack_path list"
  gd_steps :: "path_step list"
  gd_findings :: "finding list"

text \<open>\<^verbatim>\<open>session.get\<close> by primary key, and the UPDATE of one row.\<close>

definition get_row :: "('r \<Rightarrow> int) \<Rightarrow> int \<Rightarrow> 'r list \<Rightarrow> 'r option" where
  "get_row rid k rows = List.find (\<lambda>r. rid r = k) rows"

definition put_row :: "('r \<Rightarrow> int) \<Rightarrow> 'r \<Rightarrow> 'r list \<Rightarrow> 'r list" where
  "put_row rid a rows = update_rows (\<lambda>r. rid r = rid a) (\<lambda>_. a) rows"

text \<open>The keys of the unique constraints.\<close>

definition asset_key :: "asset \<Rightarrow> int \<times> asset_type \<times> string" where
  "asset_key a = (as_project a, as_type a, as_identifier a)"

definition edge_key :: "edge \<Rightarrow> int \<times> int \<times> int \<times> edge_type" where
  "edge_key e = (ed_project e, ed_source e, ed_target e, ed_type e)"

definition step_key :: "path_step \<Rightarrow> int \<times> int" where
  "step_key s = (st_path s, st_sequence s)"

definition ref_fits :: "int option \<Rightarrow> int list \<Rightarrow> bool" where
  "ref_fits r ks \<longleftrightarrow> (case r of None \<Rightarrow> True | Some k \<Rightarrow> k \<in> set ks)"

text \<open>The constraints the database checks on a row that is written: foreign keys and unique
  keys.  A violated constraint is an \<^verbatim>\<open>IntegrityError\<close>.\<close>

definition key_free :: "('r \<Rightarrow> int) \<Rightarrow> ('r \<Rightarrow> 'k) \<Rightarrow> 'r \<Rightarrow> 'r list \<Rightarrow> bool" where
  "key_free rid key a rows \<longleftrightarrow> list_all (\<lambda>b. key b = key a \<longrightarrow> rid b = rid a) rows"

definition asset_fits :: "graph_db \<Rightarrow> asset \<Rightarrow> bool" where
  "asset_fits db a \<longleftrightarrow> as_project a \<in> set (gd_projects db) \<and> key_free as_id asset_key a (gd_assets db)"

definition edge_fits :: "graph_db \<Rightarrow> edge \<Rightarrow> bool" where
  "edge_fits db e \<longleftrightarrow> ed_project e \<in> set (gd_projects db) \<and> ed_source e \<in> set (map as_id (gd_assets db))
     \<and> ed_target e \<in> set (map as_id (gd_assets db)) \<and> key_free ed_id edge_key e (gd_edges db)"

definition path_fits :: "graph_db \<Rightarrow> attack_path \<Rightarrow> bool" where
  "path_fits db p \<longleftrightarrow> pt_project p \<in> set (gd_projects db)"

definition step_fits :: "graph_db \<Rightarrow> path_step \<Rightarrow> bool" where
  "step_fits db s \<longleftrightarrow> st_project s \<in> set (gd_projects db) \<and> st_path s \<in> set (map pt_id (gd_paths db))
     \<and> st_edge s \<in> set (map ed_id (gd_edges db)) \<and> key_free st_id step_key s (gd_steps db)"

definition finding_fits :: "graph_db \<Rightarrow> finding \<Rightarrow> bool" where
  "finding_fits db f \<longleftrightarrow> fd_project f \<in> set (gd_projects db)
     \<and> ref_fits (fr_asset (fd_body f)) (map as_id (gd_assets db))
     \<and> ref_fits (fr_edge (fd_body f)) (map ed_id (gd_edges db))"

definition insert_asset :: "asset \<Rightarrow> graph_db \<Rightarrow> graph_db option" where
  "insert_asset a db = (if as_id a \<notin> set (map as_id (gd_assets db)) \<and> asset_fits db a
     then Some (db\<lparr>gd_assets := gd_assets db @ [a]\<rparr>) else None)"

definition put_asset :: "asset \<Rightarrow> graph_db \<Rightarrow> graph_db option" where
  "put_asset a db = (if asset_fits db a then Some (db\<lparr>gd_assets := put_row as_id a (gd_assets db)\<rparr>) else None)"

definition insert_edge :: "edge \<Rightarrow> graph_db \<Rightarrow> graph_db option" where
  "insert_edge e db = (if ed_id e \<notin> set (map ed_id (gd_edges db)) \<and> edge_fits db e
     then Some (db\<lparr>gd_edges := gd_edges db @ [e]\<rparr>) else None)"

definition put_edge :: "edge \<Rightarrow> graph_db \<Rightarrow> graph_db option" where
  "put_edge e db = (if edge_fits db e then Some (db\<lparr>gd_edges := put_row ed_id e (gd_edges db)\<rparr>) else None)"

definition insert_path :: "attack_path \<Rightarrow> graph_db \<Rightarrow> graph_db option" where
  "insert_path p db = (if pt_id p \<notin> set (map pt_id (gd_paths db)) \<and> path_fits db p
     then Some (db\<lparr>gd_paths := gd_paths db @ [p]\<rparr>) else None)"

definition put_path :: "attack_path \<Rightarrow> graph_db \<Rightarrow> graph_db option" where
  "put_path p db = (if path_fits db p then Some (db\<lparr>gd_paths := put_row pt_id p (gd_paths db)\<rparr>) else None)"

definition insert_step :: "path_step \<Rightarrow> graph_db \<Rightarrow> graph_db option" where
  "insert_step s db = (if st_id s \<notin> set (map st_id (gd_steps db)) \<and> step_fits db s
     then Some (db\<lparr>gd_steps := gd_steps db @ [s]\<rparr>) else None)"

definition put_step :: "path_step \<Rightarrow> graph_db \<Rightarrow> graph_db option" where
  "put_step s db = (if step_fits db s then Some (db\<lparr>gd_steps := put_row st_id s (gd_steps db)\<rparr>) else None)"

definition insert_finding :: "finding \<Rightarrow> graph_db \<Rightarrow> graph_db option" where
  "insert_finding f db = (if fd_id f \<notin> set (map fd_id (gd_findings db)) \<and> finding_fits db f
     then Some (db\<lparr>gd_findings := gd_findings db @ [f]\<rparr>) else None)"

definition put_finding :: "finding \<Rightarrow> graph_db \<Rightarrow> graph_db option" where
  "put_finding f db =
     (if finding_fits db f then Some (db\<lparr>gd_findings := put_row fd_id f (gd_findings db)\<rparr>) else None)"

text \<open>Deleting rows, with the \<^verbatim>\<open>ondelete\<close> rules of the tables: steps and edges go with what
  they refer to, findings lose the reference.\<close>

definition unlink_edge :: "finding \<Rightarrow> finding" where
  "unlink_edge f = f\<lparr>fd_body := (fd_body f)\<lparr>fr_edge := None\<rparr>\<rparr>"

definition unlink_asset :: "finding \<Rightarrow> finding" where
  "unlink_asset f = f\<lparr>fd_body := (fd_body f)\<lparr>fr_asset := None\<rparr>\<rparr>"

definition delete_edge_rows :: "(edge \<Rightarrow> bool) \<Rightarrow> graph_db \<Rightarrow> graph_db" where
  "delete_edge_rows p db =
    (let gone = map ed_id (filter p (gd_edges db)) in
     db\<lparr>gd_edges := filter (\<lambda>e. ed_id e \<notin> set gone) (gd_edges db),
        gd_steps := filter (\<lambda>s. st_edge s \<notin> set gone) (gd_steps db),
        gd_findings := update_rows (\<lambda>f. fr_edge (fd_body f) \<in> Some ` set gone) unlink_edge (gd_findings db)\<rparr>)"

definition delete_asset_row :: "int \<Rightarrow> graph_db \<Rightarrow> graph_db" where
  "delete_asset_row k db =
    (let db' = delete_edge_rows (\<lambda>e. ed_source e = k \<or> ed_target e = k) db in
     db'\<lparr>gd_assets := filter (\<lambda>a. as_id a \<noteq> k) (gd_assets db'),
         gd_findings := update_rows (\<lambda>f. fr_asset (fd_body f) = Some k) unlink_asset (gd_findings db')\<rparr>)"

definition delete_path_row :: "int \<Rightarrow> graph_db \<Rightarrow> graph_db" where
  "delete_path_row k db =
     db\<lparr>gd_paths := filter (\<lambda>p. pt_id p \<noteq> k) (gd_paths db), gd_steps := filter (\<lambda>s. st_path s \<noteq> k) (gd_steps db)\<rparr>"

definition delete_project_row :: "int \<Rightarrow> graph_db \<Rightarrow> graph_db" where
  "delete_project_row k db =
     \<lparr>gd_projects = filter (\<lambda>p. p \<noteq> k) (gd_projects db), gd_assets = filter (\<lambda>a. as_project a \<noteq> k) (gd_assets db),
      gd_edges = filter (\<lambda>e. ed_project e \<noteq> k) (gd_edges db), gd_paths = filter (\<lambda>p. pt_project p \<noteq> k) (gd_paths db),
      gd_steps = filter (\<lambda>s. st_project s \<noteq> k) (gd_steps db),
      gd_findings = filter (\<lambda>f. fd_project f \<noteq> k) (gd_findings db)\<rparr>"

section \<open>Integrity\<close>

text \<open>Identifiers and unique keys.\<close>

definition table_ok :: "('r \<Rightarrow> int) \<Rightarrow> ('r \<Rightarrow> 'k) \<Rightarrow> 'r list \<Rightarrow> bool" where
  "table_ok rid key rows \<longleftrightarrow> distinct (map rid rows) \<and> distinct (map key rows)"

text \<open>What the constraints of the database do not say: references stay inside the project, an
  edge has two ends, an identifier is the canonical one and the validation time of a finding is
  set exactly while its status is validated.\<close>

definition asset_in :: "graph_db \<Rightarrow> int \<Rightarrow> int \<Rightarrow> bool" where
  "asset_in db p k \<longleftrightarrow> (\<exists>a\<in>set (gd_assets db). as_id a = k \<and> as_project a = p)"

definition edge_in :: "graph_db \<Rightarrow> int \<Rightarrow> int \<Rightarrow> bool" where
  "edge_in db p k \<longleftrightarrow> (\<exists>e\<in>set (gd_edges db). ed_id e = k \<and> ed_project e = p)"

definition path_in :: "graph_db \<Rightarrow> int \<Rightarrow> int \<Rightarrow> bool" where
  "path_in db p k \<longleftrightarrow> (\<exists>t\<in>set (gd_paths db). pt_id t = k \<and> pt_project t = p)"

definition asset_ok :: "graph_db \<Rightarrow> asset \<Rightarrow> bool" where
  "asset_ok db a \<longleftrightarrow> as_project a \<in> set (gd_projects db)
     \<and> as_identifier a = build_asset_identifier (as_type a) (as_host a) (as_port a) (as_path a)"

definition edge_ok :: "graph_db \<Rightarrow> edge \<Rightarrow> bool" where
  "edge_ok db e \<longleftrightarrow> ed_project e \<in> set (gd_projects db) \<and> asset_in db (ed_project e) (ed_source e)
     \<and> asset_in db (ed_project e) (ed_target e) \<and> ed_source e \<noteq> ed_target e"

definition path_ok :: "graph_db \<Rightarrow> attack_path \<Rightarrow> bool" where
  "path_ok db p \<longleftrightarrow> pt_project p \<in> set (gd_projects db)"

definition step_ok :: "graph_db \<Rightarrow> path_step \<Rightarrow> bool" where
  "step_ok db s \<longleftrightarrow> st_project s \<in> set (gd_projects db) \<and> path_in db (st_project s) (st_path s)
     \<and> edge_in db (st_project s) (st_edge s)"

definition opt_ref :: "(int \<Rightarrow> bool) \<Rightarrow> int option \<Rightarrow> bool" where
  "opt_ref q r \<longleftrightarrow> (case r of None \<Rightarrow> True | Some k \<Rightarrow> q k)"

definition finding_ok :: "graph_db \<Rightarrow> finding \<Rightarrow> bool" where
  "finding_ok db f \<longleftrightarrow> fd_project f \<in> set (gd_projects db)
     \<and> opt_ref (asset_in db (fd_project f)) (fr_asset (fd_body f))
     \<and> opt_ref (edge_in db (fd_project f)) (fr_edge (fd_body f))
     \<and> (fd_validated_at f \<noteq> None \<longleftrightarrow> fr_status (fd_body f) = F_VALIDATED)"

definition graph_ok :: "graph_db \<Rightarrow> bool" where
  "graph_ok db \<longleftrightarrow>
     table_ok as_id asset_key (gd_assets db) \<and> table_ok ed_id edge_key (gd_edges db)
     \<and> table_ok pt_id pt_id (gd_paths db) \<and> table_ok st_id step_key (gd_steps db)
     \<and> table_ok fd_id fd_id (gd_findings db)
     \<and> (\<forall>a\<in>set (gd_assets db). asset_ok db a) \<and> (\<forall>e\<in>set (gd_edges db). edge_ok db e)
     \<and> (\<forall>p\<in>set (gd_paths db). path_ok db p) \<and> (\<forall>s\<in>set (gd_steps db). step_ok db s)
     \<and> (\<forall>f\<in>set (gd_findings db). finding_ok db f)"

subsection \<open>Writing and deleting rows keeps unique keys\<close>

lemma table_ok_insert [inv_intros]:
  "table_ok rid key rows \<Longrightarrow> rid a \<notin> set (map rid rows) \<Longrightarrow> key_free rid key a rows \<Longrightarrow> table_ok rid key (rows @ [a])"
  unfolding table_ok_def key_free_def list_all_iff by (auto simp: image_iff)

lemma set_put_row: "r \<in> set (put_row rid a rows) \<Longrightarrow> r = a \<or> r \<in> set rows \<and> rid r \<noteq> rid a"
  by (auto simp: put_row_def update_rows_def split: if_splits)

lemma in_put_row: "r \<in> set rows \<Longrightarrow> rid r \<noteq> rid a \<Longrightarrow> r \<in> set (put_row rid a rows)"
  by (force simp: put_row_def update_rows_def)

lemma put_row_member: "r \<in> set rows \<Longrightarrow> rid r = rid a \<Longrightarrow> a \<in> set (put_row rid a rows)"
  by (force simp: put_row_def update_rows_def)

lemma map_rid_put_row: "map rid (put_row rid a rows) = map rid rows"
  by (auto simp: put_row_def update_rows_def)

lemma table_ok_put [inv_intros]:
  assumes "table_ok rid key rows" and "key_free rid key a rows"
  shows "table_ok rid key (put_row rid a rows)"
proof -
  have "distinct (map key (put_row rid a rows))"
    using assms
  proof (induction rows)
    case (Cons r rows)
    have IH: "distinct (map key (put_row rid a rows))" using Cons by (simp add: table_ok_def key_free_def)
    show ?case
    proof (cases "rid r = rid a")
      case True
      with Cons.prems have "put_row rid a rows = rows"
        unfolding put_row_def table_ok_def by (intro update_rows_id) (auto simp: image_iff)
      moreover have "key a \<notin> key ` set rows"
        using Cons.prems True unfolding table_ok_def key_free_def list_all_iff
        by (auto simp: image_iff)
      ultimately show ?thesis using IH True by (simp add: put_row_def)
    next
      case False
      have "key r \<noteq> key b" if "b \<in> set (put_row rid a rows)" for b
        using set_put_row[OF that] Cons.prems False by (auto simp: table_ok_def key_free_def)
      with IH False show ?thesis by (auto simp: put_row_def)
    qed
  qed (simp add: put_row_def)
  with assms(1) show ?thesis by (simp add: table_ok_def map_rid_put_row)
qed

lemma table_ok_filter [inv_intros]: "table_ok rid key rows \<Longrightarrow> table_ok rid key (filter p rows)"
  by (simp add: table_ok_def distinct_map_filter)

lemma table_ok_update [inv_intros]:
  "table_ok rid key rows \<Longrightarrow> (\<And>r. rid (f r) = rid r) \<Longrightarrow> (\<And>r. key (f r) = key r)
     \<Longrightarrow> table_ok rid key (update_rows p f rows)"
  by (simp add: table_ok_def map_update_rows_same)

lemma key_free_id: "key_free rid rid a rows"
  by (simp add: key_free_def list_all_iff)

lemma get_rowD: "get_row rid k rows = Some r \<Longrightarrow> r \<in> set rows \<and> rid r = k"
  unfolding get_row_def by (rule find_SomeD)

lemma get_row_iff: "distinct (map rid rows) \<Longrightarrow> get_row rid k rows = Some r \<longleftrightarrow> r \<in> set rows \<and> rid r = k"
  unfolding get_row_def by (induction rows) (auto simp: image_iff)

lemma get_row_None: "get_row rid k rows = None \<longleftrightarrow> k \<notin> set (map rid rows)"
  unfolding get_row_def by (induction rows) auto

subsection \<open>References\<close>

definition refs_kept :: "graph_db \<Rightarrow> graph_db \<Rightarrow> bool" where
  "refs_kept db db' \<longleftrightarrow> set (gd_projects db) \<subseteq> set (gd_projects db')
     \<and> (\<forall>p k. asset_in db p k \<longrightarrow> asset_in db' p k) \<and> (\<forall>p k. edge_in db p k \<longrightarrow> edge_in db' p k)
     \<and> (\<forall>p k. path_in db p k \<longrightarrow> path_in db' p k)"

lemma opt_ref_mono: "opt_ref q r \<Longrightarrow> (\<And>k. q k \<Longrightarrow> q' k) \<Longrightarrow> opt_ref q' r"
  by (simp add: opt_ref_def split: option.splits)

lemma rows_kept:
  assumes "refs_kept db db'"
  shows "asset_ok db a \<Longrightarrow> asset_ok db' a" and "edge_ok db e \<Longrightarrow> edge_ok db' e"
    and "path_ok db p \<Longrightarrow> path_ok db' p" and "step_ok db s \<Longrightarrow> step_ok db' s"
    and "finding_ok db f \<Longrightarrow> finding_ok db' f"
  using assms
  by (auto simp: refs_kept_def asset_ok_def edge_ok_def path_ok_def step_ok_def finding_ok_def intro: opt_ref_mono)

text \<open>A written row must be in order itself and keep its identifier and project.\<close>

lemma in_put: "\<exists>b\<in>set rows. rid b = rid a \<and> pr b = pr a \<Longrightarrow> \<exists>b\<in>set rows. rid b = k \<and> pr b = p
    \<Longrightarrow> distinct (map rid rows) \<Longrightarrow> \<exists>b\<in>set (put_row rid a rows). rid b = k \<and> pr b = p"
proof -
  assume a: "\<exists>b\<in>set rows. rid b = rid a \<and> pr b = pr a" and d: "distinct (map rid rows)"
  assume "\<exists>b\<in>set rows. rid b = k \<and> pr b = p"
  then obtain b where b: "b \<in> set rows" "rid b = k" "pr b = p" by blast
  show ?thesis
  proof (cases "rid b = rid a")
    case True
    from a obtain c where c: "c \<in> set rows" "rid c = rid a" "pr c = pr a" by blast
    from d have "inj_on rid (set rows)" by (simp add: distinct_map)
    then have "c = b" using c(1,2) b(1) True by (metis inj_onD)
    with b c have "pr a = p" by simp
    with True b put_row_member[of b rows rid a] show ?thesis by auto
  next
    case False
    with b in_put_row[of b rows rid a] show ?thesis by auto
  qed
qed

lemma graph_okI:
  assumes "graph_ok db" and "refs_kept db db'"
    and "table_ok as_id asset_key (gd_assets db')" and "table_ok ed_id edge_key (gd_edges db')"
    and "table_ok pt_id pt_id (gd_paths db')" and "table_ok st_id step_key (gd_steps db')"
    and "table_ok fd_id fd_id (gd_findings db')"
    and "\<And>a. a \<in> set (gd_assets db') \<Longrightarrow> a \<in> set (gd_assets db) \<or> asset_ok db' a"
    and "\<And>e. e \<in> set (gd_edges db') \<Longrightarrow> e \<in> set (gd_edges db) \<or> edge_ok db' e"
    and "\<And>p. p \<in> set (gd_paths db') \<Longrightarrow> p \<in> set (gd_paths db) \<or> path_ok db' p"
    and "\<And>s. s \<in> set (gd_steps db') \<Longrightarrow> s \<in> set (gd_steps db) \<or> step_ok db' s"
    and "\<And>f. f \<in> set (gd_findings db') \<Longrightarrow> f \<in> set (gd_findings db) \<or> finding_ok db' f"
  shows "graph_ok db'"
  using assms(1) rows_kept[OF assms(2)] unfolding graph_ok_def
  by (intro conjI assms(3-7) ballI) (metis assms(8-12))+

lemma graph_okD:
  assumes "graph_ok db"
  shows "table_ok as_id asset_key (gd_assets db)" and "table_ok ed_id edge_key (gd_edges db)"
    and "table_ok pt_id pt_id (gd_paths db)" and "table_ok st_id step_key (gd_steps db)"
    and "table_ok fd_id fd_id (gd_findings db)"
    and "a \<in> set (gd_assets db) \<Longrightarrow> asset_ok db a" and "e \<in> set (gd_edges db) \<Longrightarrow> edge_ok db e"
    and "p \<in> set (gd_paths db) \<Longrightarrow> path_ok db p" and "s \<in> set (gd_steps db) \<Longrightarrow> step_ok db s"
    and "f \<in> set (gd_findings db) \<Longrightarrow> finding_ok db f"
  using assms by (simp_all add: graph_ok_def)

lemma table_ids: "table_ok rid key rows \<Longrightarrow> distinct (map rid rows)"
  by (simp add: table_ok_def)

subsection \<open>The rows written by the components keep integrity\<close>

lemma refs_kept_more:
  assumes "set (gd_projects db) \<subseteq> set (gd_projects db')" and "set (gd_assets db) \<subseteq> set (gd_assets db')"
    and "set (gd_edges db) \<subseteq> set (gd_edges db')" and "set (gd_paths db) \<subseteq> set (gd_paths db')"
  shows "refs_kept db db'"
  using assms by (fastforce simp: refs_kept_def asset_in_def edge_in_def path_in_def)

lemma insert_asset_ok [inv_intros]:
  assumes ok: "graph_ok db" and ins: "insert_asset a db = Some db'" and "asset_ok db a"
  shows "graph_ok db'"
proof -
  have db': "db' = db\<lparr>gd_assets := gd_assets db @ [a]\<rparr>" and fresh: "as_id a \<notin> set (map as_id (gd_assets db))"
    and free: "key_free as_id asset_key a (gd_assets db)"
    using ins by (auto simp: insert_asset_def asset_fits_def split: if_splits)
  have kept: "refs_kept db db'" by (rule refs_kept_more) (auto simp: db')
  show ?thesis
    by (rule graph_okI[OF ok kept])
      (use graph_okD[OF ok] fresh free rows_kept(1)[OF kept assms(3)] in \<open>auto simp: db' intro: table_ok_insert\<close>)
qed

lemma put_asset_ok [inv_intros]:
  assumes ok: "graph_ok db" and put: "put_asset a db = Some db'" and "asset_ok db a"
    and old: "\<exists>b\<in>set (gd_assets db). as_id b = as_id a \<and> as_project b = as_project a"
  shows "graph_ok db'"
proof -
  have db': "db' = db\<lparr>gd_assets := put_row as_id a (gd_assets db)\<rparr>" and free: "key_free as_id asset_key a (gd_assets db)"
    using put by (auto simp: put_asset_def asset_fits_def split: if_splits)
  have kept: "refs_kept db db'"
    using in_put[OF old] table_ids[OF graph_okD(1)[OF ok]]
    by (simp add: refs_kept_def asset_in_def edge_in_def path_in_def db')
  show ?thesis
    by (rule graph_okI[OF ok kept])
      (use graph_okD[OF ok] free rows_kept(1)[OF kept assms(3)] in \<open>auto simp: db' intro: table_ok_put dest: set_put_row\<close>)
qed

lemma insert_edge_ok [inv_intros]:
  assumes ok: "graph_ok db" and ins: "insert_edge e db = Some db'" and "edge_ok db e"
  shows "graph_ok db'"
proof -
  have db': "db' = db\<lparr>gd_edges := gd_edges db @ [e]\<rparr>" and fresh: "ed_id e \<notin> set (map ed_id (gd_edges db))"
    and free: "key_free ed_id edge_key e (gd_edges db)"
    using ins by (auto simp: insert_edge_def edge_fits_def split: if_splits)
  have kept: "refs_kept db db'" by (rule refs_kept_more) (auto simp: db')
  show ?thesis
    by (rule graph_okI[OF ok kept])
      (use graph_okD[OF ok] fresh free rows_kept(2)[OF kept assms(3)] in \<open>auto simp: db' intro: table_ok_insert\<close>)
qed

lemma put_edge_ok [inv_intros]:
  assumes ok: "graph_ok db" and put: "put_edge e db = Some db'" and "edge_ok db e"
    and old: "\<exists>b\<in>set (gd_edges db). ed_id b = ed_id e \<and> ed_project b = ed_project e"
  shows "graph_ok db'"
proof -
  have db': "db' = db\<lparr>gd_edges := put_row ed_id e (gd_edges db)\<rparr>" and free: "key_free ed_id edge_key e (gd_edges db)"
    using put by (auto simp: put_edge_def edge_fits_def split: if_splits)
  have kept: "refs_kept db db'"
    using in_put[OF old] table_ids[OF graph_okD(2)[OF ok]]
    by (simp add: refs_kept_def asset_in_def edge_in_def path_in_def db')
  show ?thesis
    by (rule graph_okI[OF ok kept])
      (use graph_okD[OF ok] free rows_kept(2)[OF kept assms(3)] in \<open>auto simp: db' intro: table_ok_put dest: set_put_row\<close>)
qed

lemma insert_path_ok [inv_intros]:
  assumes ok: "graph_ok db" and ins: "insert_path p db = Some db'"
  shows "graph_ok db'"
proof -
  have db': "db' = db\<lparr>gd_paths := gd_paths db @ [p]\<rparr>" and fresh: "pt_id p \<notin> set (map pt_id (gd_paths db))"
    and "path_ok db p"
    using ins by (auto simp: insert_path_def path_fits_def path_ok_def split: if_splits)
  have kept: "refs_kept db db'" by (rule refs_kept_more) (auto simp: db')
  show ?thesis
    by (rule graph_okI[OF ok kept])
      (use graph_okD[OF ok] fresh rows_kept(3)[OF kept \<open>path_ok db p\<close>] in
        \<open>auto simp: db' key_free_id intro: table_ok_insert\<close>)
qed

lemma put_path_ok [inv_intros]:
  assumes ok: "graph_ok db" and put: "put_path p db = Some db'"
    and old: "\<exists>b\<in>set (gd_paths db). pt_id b = pt_id p \<and> pt_project b = pt_project p"
  shows "graph_ok db'"
proof -
  have db': "db' = db\<lparr>gd_paths := put_row pt_id p (gd_paths db)\<rparr>" and "path_ok db p"
    using put by (auto simp: put_path_def path_fits_def path_ok_def split: if_splits)
  have kept: "refs_kept db db'"
    using in_put[OF old] table_ids[OF graph_okD(3)[OF ok]]
    by (simp add: refs_kept_def asset_in_def edge_in_def path_in_def db')
  show ?thesis
    by (rule graph_okI[OF ok kept])
      (use graph_okD[OF ok] rows_kept(3)[OF kept \<open>path_ok db p\<close>] in
        \<open>auto simp: db' key_free_id intro: table_ok_put dest: set_put_row\<close>)
qed

lemma insert_step_ok [inv_intros]:
  assumes ok: "graph_ok db" and ins: "insert_step s db = Some db'" and "step_ok db s"
  shows "graph_ok db'"
proof -
  have db': "db' = db\<lparr>gd_steps := gd_steps db @ [s]\<rparr>" and fresh: "st_id s \<notin> set (map st_id (gd_steps db))"
    and free: "key_free st_id step_key s (gd_steps db)"
    using ins by (auto simp: insert_step_def step_fits_def split: if_splits)
  have kept: "refs_kept db db'" by (rule refs_kept_more) (auto simp: db')
  show ?thesis
    by (rule graph_okI[OF ok kept])
      (use graph_okD[OF ok] fresh free rows_kept(4)[OF kept assms(3)] in \<open>auto simp: db' intro: table_ok_insert\<close>)
qed

lemma put_step_ok [inv_intros]:
  assumes ok: "graph_ok db" and put: "put_step s db = Some db'" and "step_ok db s"
  shows "graph_ok db'"
proof -
  have db': "db' = db\<lparr>gd_steps := put_row st_id s (gd_steps db)\<rparr>" and free: "key_free st_id step_key s (gd_steps db)"
    using put by (auto simp: put_step_def step_fits_def split: if_splits)
  have kept: "refs_kept db db'" by (rule refs_kept_more) (auto simp: db')
  show ?thesis
    by (rule graph_okI[OF ok kept])
      (use graph_okD[OF ok] free rows_kept(4)[OF kept assms(3)] in \<open>auto simp: db' intro: table_ok_put dest: set_put_row\<close>)
qed

lemma insert_finding_ok [inv_intros]:
  assumes ok: "graph_ok db" and ins: "insert_finding f db = Some db'" and "finding_ok db f"
  shows "graph_ok db'"
proof -
  have db': "db' = db\<lparr>gd_findings := gd_findings db @ [f]\<rparr>" and fresh: "fd_id f \<notin> set (map fd_id (gd_findings db))"
    using ins by (auto simp: insert_finding_def split: if_splits)
  have kept: "refs_kept db db'" by (rule refs_kept_more) (auto simp: db')
  show ?thesis
    by (rule graph_okI[OF ok kept])
      (use graph_okD[OF ok] fresh rows_kept(5)[OF kept assms(3)] in \<open>auto simp: db' key_free_id intro: table_ok_insert\<close>)
qed

lemma put_finding_ok [inv_intros]:
  assumes ok: "graph_ok db" and put: "put_finding f db = Some db'" and "finding_ok db f"
  shows "graph_ok db'"
proof -
  have db': "db' = db\<lparr>gd_findings := put_row fd_id f (gd_findings db)\<rparr>"
    using put by (auto simp: put_finding_def split: if_splits)
  have kept: "refs_kept db db'" by (rule refs_kept_more) (auto simp: db')
  show ?thesis
    by (rule graph_okI[OF ok kept])
      (use graph_okD[OF ok] rows_kept(5)[OF kept assms(3)] in
        \<open>auto simp: db' key_free_id intro: table_ok_put dest: set_put_row\<close>)
qed

subsection \<open>Deletions keep integrity\<close>

lemma table_ok_map_body:
  "table_ok fd_id fd_id rows \<Longrightarrow> table_ok fd_id fd_id (update_rows p unlink_edge rows)"
  "table_ok fd_id fd_id rows \<Longrightarrow> table_ok fd_id fd_id (update_rows p unlink_asset rows)"
  by (auto intro!: table_ok_update simp: unlink_edge_def unlink_asset_def)

lemma delete_edge_rows_ok [inv_intros]:
  assumes ok: "graph_ok db"
  shows "graph_ok (delete_edge_rows p db)"
proof -
  define gone where "gone = set (map ed_id (filter p (gd_edges db)))"
  have rows: "gd_edges (delete_edge_rows p db) = filter (\<lambda>e. ed_id e \<notin> gone) (gd_edges db)"
    "gd_steps (delete_edge_rows p db) = filter (\<lambda>s. st_edge s \<notin> gone) (gd_steps db)"
    "gd_findings (delete_edge_rows p db) = update_rows (\<lambda>f. fr_edge (fd_body f) \<in> Some ` gone) unlink_edge (gd_findings db)"
    "gd_assets (delete_edge_rows p db) = gd_assets db" "gd_paths (delete_edge_rows p db) = gd_paths db"
    "gd_projects (delete_edge_rows p db) = gd_projects db"
    by (simp_all add: delete_edge_rows_def gone_def)
  have asset: "asset_in (delete_edge_rows p db) = asset_in db" and path: "path_in (delete_edge_rows p db) = path_in db"
    by (simp_all add: fun_eq_iff asset_in_def path_in_def rows)
  have edge: "edge_in (delete_edge_rows p db) q k" if "edge_in db q k" "k \<notin> gone" for q k
    using that by (auto simp: edge_in_def rows)
  have f: "finding_ok (delete_edge_rows p db) g"
    if g: "g \<in> set (update_rows (\<lambda>f. fr_edge (fd_body f) \<in> Some ` gone) unlink_edge (gd_findings db))" for g
    using g
  proof (rule in_update_rowsE)
    fix h
    assume h: "h \<in> set (gd_findings db)" "g = (if fr_edge (fd_body h) \<in> Some ` gone then unlink_edge h else h)"
    have "finding_ok db h" using graph_okD(10)[OF ok h(1)] .
    with h(2) edge show ?thesis
      by (auto simp: finding_ok_def unlink_edge_def asset opt_ref_def rows split: option.splits)
  qed
  show ?thesis
    unfolding graph_ok_def
    using graph_okD[OF ok] f edge
    by (auto simp: rows asset_ok_def edge_ok_def path_ok_def step_ok_def asset path
        intro: table_ok_filter table_ok_map_body)
qed

lemma delete_asset_row_ok [inv_intros]:
  assumes ok0: "graph_ok db"
  shows "graph_ok (delete_asset_row k db)"
proof -
  define db1 where "db1 = delete_edge_rows (\<lambda>e. ed_source e = k \<or> ed_target e = k) db"
  have ok: "graph_ok db1" unfolding db1_def by (rule delete_edge_rows_ok[OF ok0])
  have untouched: "ed_source e \<noteq> k \<and> ed_target e \<noteq> k" if "e \<in> set (gd_edges db1)" for e
    using that by (auto simp: db1_def delete_edge_rows_def Let_def)
  have rows: "gd_assets (delete_asset_row k db) = filter (\<lambda>a. as_id a \<noteq> k) (gd_assets db1)"
    "gd_findings (delete_asset_row k db) = update_rows (\<lambda>f. fr_asset (fd_body f) = Some k) unlink_asset (gd_findings db1)"
    "gd_edges (delete_asset_row k db) = gd_edges db1" "gd_paths (delete_asset_row k db) = gd_paths db1"
    "gd_steps (delete_asset_row k db) = gd_steps db1" "gd_projects (delete_asset_row k db) = gd_projects db1"
    by (simp_all add: delete_asset_row_def db1_def Let_def)
  have edge: "edge_in (delete_asset_row k db) = edge_in db1" and path: "path_in (delete_asset_row k db) = path_in db1"
    by (simp_all add: fun_eq_iff edge_in_def path_in_def rows)
  have asset: "asset_in (delete_asset_row k db) q j" if "asset_in db1 q j" "j \<noteq> k" for q j
    using that by (auto simp: asset_in_def rows)
  have f: "finding_ok (delete_asset_row k db) g"
    if g: "g \<in> set (update_rows (\<lambda>f. fr_asset (fd_body f) = Some k) unlink_asset (gd_findings db1))" for g
    using g
  proof (rule in_update_rowsE)
    fix h
    assume h: "h \<in> set (gd_findings db1)" "g = (if fr_asset (fd_body h) = Some k then unlink_asset h else h)"
    have "finding_ok db1 h" using graph_okD(10)[OF ok h(1)] .
    with h(2) asset show ?thesis
      by (auto simp: finding_ok_def unlink_asset_def edge opt_ref_def rows split: option.splits)
  qed
  show ?thesis
    unfolding graph_ok_def
    using graph_okD[OF ok] f asset untouched
    by (auto simp: rows asset_ok_def edge_ok_def path_ok_def step_ok_def edge path
        intro: table_ok_filter table_ok_map_body)
qed

lemma delete_path_row_ok [inv_intros]:
  assumes ok: "graph_ok db"
  shows "graph_ok (delete_path_row k db)"
proof -
  let ?db = "delete_path_row k db"
  have rows: "gd_paths ?db = filter (\<lambda>p. pt_id p \<noteq> k) (gd_paths db)" "gd_edges ?db = gd_edges db"
    "gd_steps ?db = filter (\<lambda>s. st_path s \<noteq> k) (gd_steps db)" "gd_assets ?db = gd_assets db"
    "gd_findings ?db = gd_findings db" "gd_projects ?db = gd_projects db"
    by (simp_all add: delete_path_row_def)
  have asset: "asset_in ?db = asset_in db" and edge: "edge_in ?db = edge_in db"
    by (simp_all add: fun_eq_iff asset_in_def edge_in_def rows)
  have path: "path_in ?db q j" if "path_in db q j" "j \<noteq> k" for q j
    using that by (auto simp: path_in_def rows)
  show ?thesis
    unfolding graph_ok_def
    using graph_okD[OF ok] path
    by (auto simp: asset_ok_def edge_ok_def path_ok_def step_ok_def finding_ok_def asset edge rows
        intro: table_ok_filter)
qed

lemma delete_project_row_ok [inv_intros]:
  assumes ok: "graph_ok db"
  shows "graph_ok (delete_project_row k db)"
proof -
  let ?db = "delete_project_row k db"
  have refs: "asset_in db q j \<Longrightarrow> q \<noteq> k \<Longrightarrow> asset_in ?db q j" "edge_in db q j \<Longrightarrow> q \<noteq> k \<Longrightarrow> edge_in ?db q j"
    "path_in db q j \<Longrightarrow> q \<noteq> k \<Longrightarrow> path_in ?db q j" for q j
    by (auto simp: asset_in_def edge_in_def path_in_def delete_project_row_def)
  have f: "finding_ok ?db g" if "g \<in> set (gd_findings db)" "fd_project g \<noteq> k" for g
    using graph_okD(10)[OF ok that(1)] that(2) refs
    by (auto simp: finding_ok_def opt_ref_def delete_project_row_def split: option.splits)
  have s: "step_ok ?db t" if "t \<in> set (gd_steps db)" "st_project t \<noteq> k" for t
    using graph_okD(9)[OF ok that(1)] that(2) refs by (auto simp: step_ok_def delete_project_row_def)
  have e: "edge_ok ?db t" if "t \<in> set (gd_edges db)" "ed_project t \<noteq> k" for t
    using graph_okD(7)[OF ok that(1)] that(2) refs by (auto simp: edge_ok_def delete_project_row_def)
  have rows: "gd_findings ?db = filter (\<lambda>f. fd_project f \<noteq> k) (gd_findings db)"
    "gd_steps ?db = filter (\<lambda>s. st_project s \<noteq> k) (gd_steps db)"
    "gd_edges ?db = filter (\<lambda>e. ed_project e \<noteq> k) (gd_edges db)"
    "gd_assets ?db = filter (\<lambda>a. as_project a \<noteq> k) (gd_assets db)"
    "gd_paths ?db = filter (\<lambda>p. pt_project p \<noteq> k) (gd_paths db)"
    "gd_projects ?db = filter (\<lambda>p. p \<noteq> k) (gd_projects db)"
    by (simp_all add: delete_project_row_def)
  show ?thesis
    unfolding graph_ok_def
    using graph_okD[OF ok] f s e
    by (auto simp: rows asset_ok_def path_ok_def intro: table_ok_filter)
qed

end
