(* ===== verification/Work_Graph.thy ===== *)
theory Work_Graph
  imports Work_Tables
begin

text \<open>
  The relations of a work project, \<^verbatim>\<open>src/service/work_project/graph.py\<close>: edges between assets,
  attack paths and their steps.  An operation is one transaction on the tables; its result is
  an error message or the row, and the tables afterwards.  The identifier of a new row and the
  time are arguments.
\<close>

datatype graph_error = Refused string | Integrity_error

record graph_snapshot =
  gs_edges :: "edge list"
  gs_paths :: "attack_path list"
  gs_steps :: "path_step list"

definition get_graph_snapshot :: "int \<Rightarrow> graph_db \<Rightarrow> graph_snapshot" where
  "get_graph_snapshot project db =
     \<lparr>gs_edges = sort_key ed_id (filter (\<lambda>e. ed_project e = project) (gd_edges db)),
      gs_paths = sort_key pt_id (filter (\<lambda>p. pt_project p = project) (gd_paths db)),
      gs_steps = sort_key st_path (sort_key st_sequence (filter (\<lambda>s. st_project s = project) (gd_steps db)))\<rparr>"

section \<open>Edges\<close>

definition get_edge_by_relation :: "int \<Rightarrow> edge_request \<Rightarrow> graph_db \<Rightarrow> edge option" where
  "get_edge_by_relation project r db =
     List.find (\<lambda>e. edge_key e = (project, er_source r, er_target r, er_type r)) (gd_edges db)"

text \<open>The empty string means no error.\<close>

definition validate_edge_assets :: "int \<Rightarrow> edge_request \<Rightarrow> graph_db \<Rightarrow> string" where
  "validate_edge_assets project r db =
    (let bad = (\<lambda>k. case get_row as_id k (gd_assets db) of None \<Rightarrow> True | Some a \<Rightarrow> as_project a \<noteq> project) in
     if bad (er_source r) then ''source asset not found''
     else if bad (er_target r) then ''target asset not found'' else [])"

text \<open>The second attempt, after the commit lost to a concurrent writer.\<close>

definition relabel_edge ::
  "int \<Rightarrow> edge_request \<Rightarrow> datetime \<Rightarrow> graph_db \<Rightarrow> (graph_error + edge) \<times> graph_db" where
  "relabel_edge project r now db =
    (let err = validate_edge_assets project r db in
     if err \<noteq> [] then (Inl (Refused err), db)
     else (case get_edge_by_relation project r db of
         None \<Rightarrow> (Inl (Refused ''graph edge already exists''), db)
       | Some e \<Rightarrow>
           let e' = e\<lparr>ed_label := er_label r, ed_updated_at := now\<rparr> in
           (case put_edge e' db of
              None \<Rightarrow> (Inl (Refused ''graph edge already exists''), db)
            | Some db' \<Rightarrow> (Inr e', db'))))"

definition upsert_edge ::
  "int \<Rightarrow> int \<Rightarrow> edge_request \<Rightarrow> string \<Rightarrow> string \<Rightarrow> datetime \<Rightarrow> graph_db
     \<Rightarrow> (graph_error + edge) \<times> graph_db" where
  "upsert_edge k project r agent sess now db =
    (let err = validate_edge_assets project r db in
     if err \<noteq> [] then (Inl (Refused err), db)
     else (case get_edge_by_relation project r db of
         None \<Rightarrow>
           let e = \<lparr>ed_id = k, ed_project = project, ed_source = er_source r, ed_target = er_target r,
                    ed_type = er_type r, ed_label = er_label r, ed_agent = str_strip agent,
                    ed_session = str_strip sess, ed_created_at = now, ed_updated_at = now\<rparr> in
           (case insert_edge e db of
              None \<Rightarrow> relabel_edge project r now db
            | Some db' \<Rightarrow> (Inr e, db'))
       | Some e \<Rightarrow>
           let e' = e\<lparr>ed_label := er_label r, ed_updated_at := now\<rparr> in
           (case put_edge e' db of
              None \<Rightarrow> relabel_edge project r now db
            | Some db' \<Rightarrow> (Inr e', db'))))"

definition update_edge ::
  "int \<Rightarrow> int \<Rightarrow> edge_request \<Rightarrow> datetime \<Rightarrow> graph_db \<Rightarrow> (graph_error + edge) \<times> graph_db" where
  "update_edge project k r now db =
    (case get_row ed_id k (gd_edges db) of
       None \<Rightarrow> (Inl (Refused ''graph edge not found''), db)
     | Some e \<Rightarrow>
         if ed_project e \<noteq> project then (Inl (Refused ''graph edge not found''), db)
         else
           let err = validate_edge_assets project r db in
           if err \<noteq> [] then (Inl (Refused err), db)
           else if (case get_edge_by_relation project r db of None \<Rightarrow> False | Some d \<Rightarrow> ed_id d \<noteq> k)
           then (Inl (Refused ''graph edge already exists''), db)
           else
             let e' = e\<lparr>ed_source := er_source r, ed_target := er_target r, ed_type := er_type r,
                      ed_label := er_label r, ed_updated_at := now\<rparr> in
             (case put_edge e' db of
                None \<Rightarrow> (Inl (Refused ''graph edge already exists''), db)
              | Some db' \<Rightarrow> (Inr e', db')))"

text \<open>\<^verbatim>\<open>_purge_edge\<close>: the steps of the edge, the references of findings, then the edge itself,
  whose own cascade then finds nothing.\<close>

definition purge_edge :: "int \<Rightarrow> graph_db \<Rightarrow> graph_db" where
  "purge_edge k db =
    (let db1 = db\<lparr>gd_steps := filter (\<lambda>s. st_edge s \<noteq> k) (gd_steps db)\<rparr>;
         db2 = db1\<lparr>gd_findings := update_rows (\<lambda>f. fr_edge (fd_body f) = Some k) unlink_edge (gd_findings db1)\<rparr>
     in case get_row ed_id k (gd_edges db2) of
          None \<Rightarrow> db2
        | Some e \<Rightarrow> delete_edge_rows (\<lambda>d. ed_id d = k) db2)"

definition delete_edge :: "int \<Rightarrow> int \<Rightarrow> graph_db \<Rightarrow> string \<times> graph_db" where
  "delete_edge project k db =
    (case get_row ed_id k (gd_edges db) of
       None \<Rightarrow> (''graph edge not found'', db)
     | Some e \<Rightarrow> if ed_project e \<noteq> project then (''graph edge not found'', db) else ([], purge_edge k db))"

definition purge_edges_touching_asset :: "int \<Rightarrow> int \<Rightarrow> graph_db \<Rightarrow> graph_db" where
  "purge_edges_touching_asset project k db =
     fold purge_edge
       (map ed_id (filter (\<lambda>e. ed_project e = project \<and> (ed_source e = k \<or> ed_target e = k)) (gd_edges db))) db"

section \<open>Attack paths\<close>

definition create_attack_path ::
  "int \<Rightarrow> int \<Rightarrow> path_request \<Rightarrow> string \<Rightarrow> string \<Rightarrow> datetime \<Rightarrow> graph_db
     \<Rightarrow> (graph_error + attack_path) \<times> graph_db" where
  "create_attack_path k project r agent sess now db =
    (let p = \<lparr>pt_id = k, pt_project = project, pt_title = pr_title r, pt_status = pr_status r,
              pt_summary = pr_summary r, pt_agent = str_strip agent, pt_session = str_strip sess,
              pt_created_at = now, pt_updated_at = now\<rparr>
     in case insert_path p db of None \<Rightarrow> (Inl Integrity_error, db) | Some db' \<Rightarrow> (Inr p, db'))"

definition update_attack_path ::
  "int \<Rightarrow> int \<Rightarrow> path_request \<Rightarrow> datetime \<Rightarrow> graph_db \<Rightarrow> (graph_error + attack_path) \<times> graph_db" where
  "update_attack_path project k r now db =
    (case get_row pt_id k (gd_paths db) of
       None \<Rightarrow> (Inl (Refused ''attack path not found''), db)
     | Some p \<Rightarrow>
         if pt_project p \<noteq> project then (Inl (Refused ''attack path not found''), db)
         else
           let p' = p\<lparr>pt_title := pr_title r, pt_status := pr_status r, pt_summary := pr_summary r,
                    pt_updated_at := now\<rparr> in
           (case put_path p' db of None \<Rightarrow> (Inl Integrity_error, db) | Some db' \<Rightarrow> (Inr p', db')))"

definition delete_attack_path :: "int \<Rightarrow> int \<Rightarrow> graph_db \<Rightarrow> string \<times> graph_db" where
  "delete_attack_path project k db =
    (case get_row pt_id k (gd_paths db) of
       None \<Rightarrow> (''attack path not found'', db)
     | Some p \<Rightarrow>
         if pt_project p \<noteq> project then (''attack path not found'', db)
         else ([], delete_path_row k (db\<lparr>gd_steps := filter (\<lambda>s. st_path s \<noteq> k) (gd_steps db)\<rparr>)))"

section \<open>Steps\<close>

definition get_step_by_sequence :: "int \<Rightarrow> int \<Rightarrow> int \<Rightarrow> graph_db \<Rightarrow> path_step option" where
  "get_step_by_sequence project path sequence db =
     List.find (\<lambda>s. st_project s = project \<and> st_path s = path \<and> st_sequence s = sequence) (gd_steps db)"

definition validate_step_refs :: "int \<Rightarrow> int \<Rightarrow> step_request \<Rightarrow> graph_db \<Rightarrow> string" where
  "validate_step_refs project path r db =
    (if (case get_row pt_id path (gd_paths db) of None \<Rightarrow> True | Some p \<Rightarrow> pt_project p \<noteq> project)
     then ''attack path not found''
     else if (case get_row ed_id (sr_edge r) (gd_edges db) of None \<Rightarrow> True | Some e \<Rightarrow> ed_project e \<noteq> project)
     then ''graph edge not found'' else [])"

text \<open>What is reported when the commit of a step fails.\<close>

definition step_conflict :: "int \<Rightarrow> int \<Rightarrow> step_request \<Rightarrow> graph_db \<Rightarrow> graph_error" where
  "step_conflict project path r db =
    (let err = validate_step_refs project path r db in
     Refused (if err \<noteq> [] then err else ''attack path step already exists''))"

definition create_step ::
  "int \<Rightarrow> int \<Rightarrow> int \<Rightarrow> step_request \<Rightarrow> string \<Rightarrow> string \<Rightarrow> datetime \<Rightarrow> graph_db
     \<Rightarrow> (graph_error + path_step) \<times> graph_db" where
  "create_step k project path r agent sess now db =
    (let err = validate_step_refs project path r db in
     if err \<noteq> [] then (Inl (Refused err), db)
     else if get_step_by_sequence project path (sr_sequence r) db \<noteq> None
     then (Inl (Refused ''attack path step already exists''), db)
     else
       let s = \<lparr>st_id = k, st_project = project, st_path = path, st_sequence = sr_sequence r, st_edge = sr_edge r,
                st_agent = str_strip agent, st_session = str_strip sess, st_created_at = now, st_updated_at = now\<rparr>
       in case insert_step s db of
            None \<Rightarrow> (Inl (step_conflict project path r db), db)
          | Some db' \<Rightarrow> (Inr s, db'))"

definition update_step ::
  "int \<Rightarrow> int \<Rightarrow> int \<Rightarrow> step_request \<Rightarrow> datetime \<Rightarrow> graph_db \<Rightarrow> (graph_error + path_step) \<times> graph_db" where
  "update_step project path k r now db =
    (case get_row st_id k (gd_steps db) of
       None \<Rightarrow> (Inl (Refused ''attack path step not found''), db)
     | Some s \<Rightarrow>
         if st_project s \<noteq> project \<or> st_path s \<noteq> path then (Inl (Refused ''attack path step not found''), db)
         else
           let err = validate_step_refs project path r db in
           if err \<noteq> [] then (Inl (Refused err), db)
           else if (case get_step_by_sequence project path (sr_sequence r) db of None \<Rightarrow> False | Some x \<Rightarrow> st_id x \<noteq> k)
           then (Inl (Refused ''attack path step already exists''), db)
           else
             let s' = s\<lparr>st_sequence := sr_sequence r, st_edge := sr_edge r, st_updated_at := now\<rparr> in
             (case put_step s' db of
                None \<Rightarrow> (Inl (step_conflict project path r db), db)
              | Some db' \<Rightarrow> (Inr s', db')))"

definition delete_step :: "int \<Rightarrow> int \<Rightarrow> int \<Rightarrow> graph_db \<Rightarrow> string \<times> graph_db" where
  "delete_step project path k db =
    (case get_row st_id k (gd_steps db) of
       None \<Rightarrow> (''attack path step not found'', db)
     | Some s \<Rightarrow>
         if st_project s \<noteq> project \<or> st_path s \<noteq> path then (''attack path step not found'', db)
         else ([], db\<lparr>gd_steps := filter (\<lambda>x. st_id x \<noteq> k) (gd_steps db)\<rparr>))"

section \<open>Integrity\<close>

lemma validate_edge_assets_ok:
  assumes "validate_edge_assets project r db = []"
  shows "asset_in db project (er_source r) \<and> asset_in db project (er_target r)"
  using assms by (auto simp: validate_edge_assets_def asset_in_def Let_def dest: get_rowD split: if_splits option.splits)

lemma edge_okI:
  assumes "graph_ok db" and "validate_edge_assets project r db = []" and "er_source r \<noteq> er_target r"
    and "ed_project e = project" and "ed_source e = er_source r" and "ed_target e = er_target r"
  shows "edge_ok db e"
proof -
  have refs: "asset_in db project (er_source r) \<and> asset_in db project (er_target r)"
    by (rule validate_edge_assets_ok[OF assms(2)])
  then obtain a where "a \<in> set (gd_assets db)" "as_project a = project" by (auto simp: asset_in_def)
  with graph_okD(6)[OF assms(1)] have "project \<in> set (gd_projects db)" by (auto simp: asset_ok_def)
  with refs assms(3-6) show ?thesis by (simp add: edge_ok_def)
qed

lemma edge_by_relation:
  assumes "get_edge_by_relation project r db = Some e"
  shows "e \<in> set (gd_edges db) \<and> ed_project e = project \<and> ed_source e = er_source r \<and> ed_target e = er_target r"
  using find_SomeD[of _ "gd_edges db" e] assms by (auto simp: get_edge_by_relation_def edge_key_def)

lemma relabel_edge_ok:
  assumes ok: "graph_ok db" and "er_source r \<noteq> er_target r"
  shows "graph_ok (snd (relabel_edge project r now db))"
proof (cases "validate_edge_assets project r db = []")
  case True
  show ?thesis
  proof (cases "get_edge_by_relation project r db")
    case (Some e)
    let ?e = "e\<lparr>ed_label := er_label r, ed_updated_at := now\<rparr>"
    have "edge_ok db ?e" using edge_by_relation[OF Some] by (intro edge_okI[OF ok True assms(2)]) simp_all
    moreover have "\<exists>b\<in>set (gd_edges db). ed_id b = ed_id ?e \<and> ed_project b = ed_project ?e"
      using edge_by_relation[OF Some] by (intro bexI[of _ e]) simp_all
    ultimately show ?thesis using ok True Some put_edge_ok[OF ok, of ?e]
      by (auto simp: relabel_edge_def Let_def split: option.split)
  qed (use ok True in \<open>simp add: relabel_edge_def\<close>)
qed (use ok in \<open>simp add: relabel_edge_def Let_def\<close>)

lemma upsert_edge_ok [inv_intros]:
  assumes ok: "graph_ok db" and ends: "er_source r \<noteq> er_target r"
  shows "graph_ok (snd (upsert_edge k project r agent sess now db))"
proof (cases "validate_edge_assets project r db = []")
  case True
  show ?thesis
  proof (cases "get_edge_by_relation project r db")
    case None
    have "edge_ok db \<lparr>ed_id = k, ed_project = project, ed_source = er_source r, ed_target = er_target r,
        ed_type = er_type r, ed_label = er_label r, ed_agent = str_strip agent,
        ed_session = str_strip sess, ed_created_at = now, ed_updated_at = now\<rparr>"
      by (rule edge_okI[OF ok True ends]) simp_all
    with None True ok insert_edge_ok[OF ok] relabel_edge_ok[OF ok ends] show ?thesis
      by (auto simp: upsert_edge_def Let_def split: option.split)
  next
    case (Some e)
    let ?e = "e\<lparr>ed_label := er_label r, ed_updated_at := now\<rparr>"
    have "edge_ok db ?e" using edge_by_relation[OF Some] by (intro edge_okI[OF ok True ends]) simp_all
    moreover have "\<exists>b\<in>set (gd_edges db). ed_id b = ed_id ?e \<and> ed_project b = ed_project ?e"
      using edge_by_relation[OF Some] by (intro bexI[of _ e]) simp_all
    ultimately show ?thesis using True Some put_edge_ok[OF ok, of ?e] relabel_edge_ok[OF ok ends]
      by (auto simp: upsert_edge_def Let_def split: option.split)
  qed
qed (use ok in \<open>simp add: upsert_edge_def Let_def\<close>)

lemma update_edge_ok [inv_intros]:
  assumes ok: "graph_ok db" and ends: "er_source r \<noteq> er_target r"
  shows "graph_ok (snd (update_edge project k r now db))"
proof (cases "get_row ed_id k (gd_edges db)")
  case (Some e)
  let ?e = "e\<lparr>ed_source := er_source r, ed_target := er_target r, ed_type := er_type r,
                      ed_label := er_label r, ed_updated_at := now\<rparr>"
  have old: "\<exists>b\<in>set (gd_edges db). ed_id b = ed_id ?e \<and> ed_project b = ed_project ?e"
    using get_rowD[OF Some] by (intro bexI[of _ e]) simp_all
  show ?thesis
  proof (cases "ed_project e = project \<and> validate_edge_assets project r db = []")
    case True
    then have "edge_ok db ?e" by (intro edge_okI[OF ok _ ends]) simp_all
    with Some ok old put_edge_ok[OF ok, of ?e] show ?thesis
      by (auto simp: update_edge_def Let_def split: option.split)
  qed (use Some ok in \<open>auto simp: update_edge_def Let_def\<close>)
qed (use ok in \<open>simp add: update_edge_def\<close>)

text \<open>Purging an edge is the deletion with its cascade.\<close>

lemma purge_edge_eq: "purge_edge k db =
    db\<lparr>gd_edges := filter (\<lambda>e. ed_id e \<noteq> k) (gd_edges db), gd_steps := filter (\<lambda>s. st_edge s \<noteq> k) (gd_steps db),
       gd_findings := update_rows (\<lambda>f. fr_edge (fd_body f) = Some k) unlink_edge (gd_findings db)\<rparr>"
proof (cases "get_row ed_id k (gd_edges db)")
  case None
  then have "\<forall>e\<in>set (gd_edges db). ed_id e \<noteq> k" by (auto simp: get_row_None)
  then have "filter (\<lambda>e. ed_id e \<noteq> k) (gd_edges db) = gd_edges db" by (simp add: filter_id_conv)
  with None show ?thesis by (simp add: purge_edge_def Let_def)
next
  case (Some e)
  then have "e \<in> set (gd_edges db)" "ed_id e = k" using get_rowD[OF Some] by auto
  then have gone: "set (map ed_id (filter (\<lambda>d. ed_id d = k) (gd_edges db))) = {k}" by auto
  show ?thesis
    using Some gone
    by (auto simp: purge_edge_def Let_def delete_edge_rows_def update_rows_def unlink_edge_def filter_empty_conv)
qed

lemma purge_edge_delete:
  assumes "k \<in> set (map ed_id (gd_edges db))"
  shows "purge_edge k db = delete_edge_rows (\<lambda>e. ed_id e = k) db"
proof -
  have gone: "set (map ed_id (filter (\<lambda>d. ed_id d = k) (gd_edges db))) = {k}" using assms by auto
  show ?thesis unfolding purge_edge_eq delete_edge_rows_def Let_def gone by simp
qed

lemma purge_edges_rows:
  "gd_edges (fold purge_edge ks db) = filter (\<lambda>e. ed_id e \<notin> set ks) (gd_edges db)"
  "gd_steps (fold purge_edge ks db) = filter (\<lambda>s. st_edge s \<notin> set ks) (gd_steps db)"
  "gd_findings (fold purge_edge ks db) =
     update_rows (\<lambda>f. fr_edge (fd_body f) \<in> Some ` set ks) unlink_edge (gd_findings db)"
  "gd_assets (fold purge_edge ks db) = gd_assets db" "gd_paths (fold purge_edge ks db) = gd_paths db"
  "gd_projects (fold purge_edge ks db) = gd_projects db"
  by (induction ks arbitrary: db)
    (auto simp: purge_edge_eq update_rows_def unlink_edge_def intro!: filter_cong)

lemma purge_edges_delete:
  "fold purge_edge (map ed_id (filter p (gd_edges db))) db = delete_edge_rows p db"
  by (simp add: delete_edge_rows_def Let_def purge_edges_rows graph_db.equality)

lemma purge_edge_ok [inv_intros]:
  assumes ok: "graph_ok db"
  shows "graph_ok (purge_edge k db)"
proof (cases "k \<in> set (map ed_id (gd_edges db))")
  case True
  with ok show ?thesis by (simp only: purge_edge_delete delete_edge_rows_ok)
next
  case False
  then have e: "filter (\<lambda>e. ed_id e \<noteq> k) (gd_edges db) = gd_edges db" by (auto simp: filter_id_conv)
  have none: "\<not> edge_in db q k" for q using False by (auto simp: edge_in_def)
  have "st_edge s \<noteq> k" if "s \<in> set (gd_steps db)" for s
    using graph_okD(9)[OF ok that] none by (auto simp: step_ok_def)
  then have s: "filter (\<lambda>s. st_edge s \<noteq> k) (gd_steps db) = gd_steps db" by (simp add: filter_id_conv)
  have "fr_edge (fd_body f) \<noteq> Some k" if "f \<in> set (gd_findings db)" for f
    using graph_okD(10)[OF ok that] none by (auto simp: finding_ok_def opt_ref_def)
  then have f: "update_rows (\<lambda>f. fr_edge (fd_body f) = Some k) unlink_edge (gd_findings db) = gd_findings db"
    by (intro update_rows_id)
  show ?thesis using ok by (simp add: purge_edge_eq e s f)
qed

lemma delete_edge_ok [inv_intros]: "graph_ok db \<Longrightarrow> graph_ok (snd (delete_edge project k db))"
  by (auto simp: delete_edge_def intro: purge_edge_ok split: option.split)

lemma purge_touching_ok [inv_intros]: "graph_ok db \<Longrightarrow> graph_ok (purge_edges_touching_asset project k db)"
  unfolding purge_edges_touching_asset_def purge_edges_delete by (rule delete_edge_rows_ok)

lemma create_path_ok [inv_intros]: "graph_ok db \<Longrightarrow> graph_ok (snd (create_attack_path k project r agent sess now db))"
  by (auto simp: create_attack_path_def Let_def intro: insert_path_ok split: option.split)

lemma update_path_ok [inv_intros]:
  assumes ok: "graph_ok db"
  shows "graph_ok (snd (update_attack_path project k r now db))"
proof (cases "get_row pt_id k (gd_paths db)")
  case (Some p)
  let ?p = "p\<lparr>pt_title := pr_title r, pt_status := pr_status r, pt_summary := pr_summary r, pt_updated_at := now\<rparr>"
  have "\<exists>b\<in>set (gd_paths db). pt_id b = pt_id ?p \<and> pt_project b = pt_project ?p"
    using get_rowD[OF Some] by (intro bexI[of _ p]) simp_all
  with Some ok put_path_ok[OF ok, of ?p] show ?thesis
    by (auto simp: update_attack_path_def Let_def split: option.split)
qed (use ok in \<open>simp add: update_attack_path_def\<close>)

lemma delete_path_ok [inv_intros]:
  assumes ok: "graph_ok db"
  shows "graph_ok (snd (delete_attack_path project k db))"
proof -
  have "delete_path_row k (db\<lparr>gd_steps := filter (\<lambda>s. st_path s \<noteq> k) (gd_steps db)\<rparr>) = delete_path_row k db"
    by (simp add: delete_path_row_def)
  with ok delete_path_row_ok[OF ok, of k] show ?thesis
    by (auto simp: delete_attack_path_def split: option.split)
qed

lemma step_okI:
  assumes ok: "graph_ok db" and "validate_step_refs project path r db = []"
    and "st_project s = project" and "st_path s = path" and "st_edge s = sr_edge r"
  shows "step_ok db s"
proof -
  have refs: "path_in db project path" "edge_in db project (sr_edge r)"
    using assms(2) by (auto simp: validate_step_refs_def path_in_def edge_in_def dest: get_rowD split: if_splits option.splits)
  then obtain p where "p \<in> set (gd_paths db)" "pt_project p = project" by (auto simp: path_in_def)
  with graph_okD(8)[OF ok] have "project \<in> set (gd_projects db)" by (auto simp: path_ok_def)
  with refs assms(3-5) show ?thesis by (simp add: step_ok_def)
qed

lemma create_step_ok [inv_intros]:
  assumes ok: "graph_ok db"
  shows "graph_ok (snd (create_step k project path r agent sess now db))"
proof (cases "validate_step_refs project path r db = []")
  case True
  have "step_ok db \<lparr>st_id = k, st_project = project, st_path = path, st_sequence = sr_sequence r, st_edge = sr_edge r,
      st_agent = str_strip agent, st_session = str_strip sess, st_created_at = now, st_updated_at = now\<rparr>"
    by (rule step_okI[OF ok True]) simp_all
  with True ok insert_step_ok[OF ok] show ?thesis
    by (auto simp: create_step_def Let_def split: option.split)
qed (use ok in \<open>simp add: create_step_def Let_def\<close>)

lemma update_step_ok [inv_intros]:
  assumes ok: "graph_ok db"
  shows "graph_ok (snd (update_step project path k r now db))"
proof (cases "get_row st_id k (gd_steps db)")
  case (Some s)
  show ?thesis
  proof (cases "st_project s = project \<and> st_path s = path \<and> validate_step_refs project path r db = []")
    case True
    then have "step_ok db (s\<lparr>st_sequence := sr_sequence r, st_edge := sr_edge r, st_updated_at := now\<rparr>)"
      by (intro step_okI[OF ok]) simp_all
    with Some ok put_step_ok[OF ok] show ?thesis
      by (auto simp: update_step_def Let_def split: option.split)
  qed (use Some ok in \<open>auto simp: update_step_def Let_def\<close>)
qed (use ok in \<open>simp add: update_step_def\<close>)

lemma delete_step_ok [inv_intros]:
  assumes ok: "graph_ok db"
  shows "graph_ok (snd (delete_step project path k db))"
proof -
  let ?db = "db\<lparr>gd_steps := filter (\<lambda>x. st_id x \<noteq> k) (gd_steps db)\<rparr>"
  have kept: "refs_kept db ?db" by (rule refs_kept_more) simp_all
  have "graph_ok ?db"
    by (rule graph_okI[OF ok kept]) (use graph_okD[OF ok] in \<open>auto intro: table_ok_filter\<close>)
  with ok show ?thesis by (auto simp: delete_step_def split: option.split)
qed

end
