(* ===== verification/Work_Assets.thy ===== *)
theory Work_Assets
  imports Work_Graph
begin

text \<open>
  The assets of a work project, \<^verbatim>\<open>src/service/work_project/assets.py\<close>, and the pages in which
  lists of rows are answered, \<^verbatim>\<open>src/service/common/pagination.py\<close>.
\<close>

section \<open>Pages\<close>

record 'a page =
  pg_page :: int
  pg_size :: int
  pg_total :: nat
  pg_items :: "'a list"

definition page_offset :: "int \<Rightarrow> int \<Rightarrow> int" where
  "page_offset page limit = (page - 1) * limit"

text \<open>\<^verbatim>\<open>OFFSET\<close> and \<^verbatim>\<open>LIMIT\<close> on the rows of the statement, for pages from 1 and sizes of at
  least 1.\<close>

definition paginate_statement :: "int \<Rightarrow> int \<Rightarrow> 'a list \<Rightarrow> 'a page" where
  "paginate_statement page limit rows =
     \<lparr>pg_page = page, pg_size = limit, pg_total = length rows,
      pg_items = take (nat limit) (drop (nat (page_offset page limit)) rows)\<rparr>"

definition paginated_payload :: "'a page \<Rightarrow> 'b list \<Rightarrow> 'b page" where
  "paginated_payload p items =
     \<lparr>pg_page = pg_page p, pg_size = pg_size p, pg_total = pg_total p, pg_items = items\<rparr>"

lemma pages_prefix:
  assumes "0 < limit"
  shows "concat (map (\<lambda>p. pg_items (paginate_statement (int p + 1) (int limit) rows)) [0..<n]) = take (n * limit) rows"
proof (induction n)
  case (Suc n)
  have "nat (page_offset (int n + 1) (int limit)) = n * limit"
    by (simp add: page_offset_def nat_mult_distrib)
  with Suc show ?case by (simp add: paginate_statement_def take_add[symmetric] add.commute)
qed simp

section \<open>Assets\<close>

definition asset_already_exists :: string where
  "asset_already_exists = ''asset already exists''"

definition scope_asset_identity_locked :: string where
  "scope_asset_identity_locked = ''scope asset identity is managed by project metadata''"

definition scope_asset_delete_locked :: string where
  "scope_asset_delete_locked = ''scope assets are managed by project metadata''"

text \<open>\<open>like pat col\<close> is the case-insensitive match of the database.\<close>

fun asset_type_value :: "asset_type \<Rightarrow> string" where
  "asset_type_value A_SERVICE = ''service''"
| "asset_type_value A_DOMAIN = ''domain''"
| "asset_type_value A_NETWORK = ''network''"
| "asset_type_value A_BINARY = ''binary''"

definition query_assets ::
  "(string \<Rightarrow> string \<Rightarrow> bool) \<Rightarrow> int \<Rightarrow> int \<Rightarrow> int \<Rightarrow> string \<Rightarrow> graph_db \<Rightarrow> asset page" where
  "query_assets like project page limit keyword db =
    (let rows = sort_key as_id (filter (\<lambda>a. as_project a = project) (gd_assets db));
         keyword = str_strip keyword; pat = ''%'' @ keyword @ ''%'';
         rows = (if keyword = [] then rows
                 else filter (\<lambda>a. like pat (as_identifier a) \<or> like pat (as_host a) \<or> like pat (as_path a)
                                \<or> like pat (asset_type_value (as_type a))) rows)
     in paginate_statement page limit rows)"

definition apply_asset_request :: "asset_request \<Rightarrow> datetime \<Rightarrow> asset \<Rightarrow> asset" where
  "apply_asset_request r now a =
     a\<lparr>as_type := ar_type r, as_host := ar_host r, as_port := ar_port r, as_path := ar_path r,
       as_identifier := request_identifier r, as_extra := ar_extra r, as_updated_at := now\<rparr>"

definition get_asset_by_identity :: "int \<Rightarrow> asset_type \<Rightarrow> string \<Rightarrow> graph_db \<Rightarrow> asset option" where
  "get_asset_by_identity project t ident db =
     List.find (\<lambda>a. asset_key a = (project, t, ident)) (gd_assets db)"

definition blank_asset :: "int \<Rightarrow> int \<Rightarrow> asset_origin \<Rightarrow> string \<Rightarrow> string \<Rightarrow> datetime \<Rightarrow> asset" where
  "blank_asset k project origin agent sess now =
     \<lparr>as_id = k, as_project = project, as_type = A_SERVICE, as_origin = origin, as_identifier = [], as_host = [],
      as_port = None, as_path = [], as_extra = [], as_agent = agent, as_session = sess,
      as_created_at = now, as_updated_at = now\<rparr>"

definition create_asset ::
  "int \<Rightarrow> int \<Rightarrow> asset_request \<Rightarrow> asset_origin \<Rightarrow> string \<Rightarrow> string \<Rightarrow> datetime \<Rightarrow> graph_db
     \<Rightarrow> (graph_error + asset) \<times> graph_db" where
  "create_asset k project r origin agent sess now db =
    (if get_asset_by_identity project (ar_type r) (request_identifier r) db \<noteq> None
     then (Inl (Refused asset_already_exists), db)
     else
       let a = apply_asset_request r now (blank_asset k project origin (str_strip agent) (str_strip sess) now)
       in case insert_asset a db of
            None \<Rightarrow> (Inl (Refused asset_already_exists), db)
          | Some db' \<Rightarrow> (Inr a, db'))"

definition keep_extra :: "asset_request \<Rightarrow> asset \<Rightarrow> asset \<Rightarrow> asset" where
  "keep_extra r old a = (if ar_extra_set r then a else a\<lparr>as_extra := as_extra old\<rparr>)"

definition update_asset ::
  "int \<Rightarrow> int \<Rightarrow> asset_request \<Rightarrow> datetime \<Rightarrow> graph_db \<Rightarrow> (graph_error + asset) \<times> graph_db" where
  "update_asset project k r now db =
    (case get_row as_id k (gd_assets db) of
       None \<Rightarrow> (Inl (Refused ''asset not found''), db)
     | Some a \<Rightarrow>
         if as_project a \<noteq> project then (Inl (Refused ''asset not found''), db)
         else if as_origin a = O_SCOPE \<and> (as_type a, as_identifier a) \<noteq> request_identity r
         then (Inl (Refused scope_asset_identity_locked), db)
         else if (case get_asset_by_identity project (ar_type r) (request_identifier r) db of
                    None \<Rightarrow> False | Some c \<Rightarrow> as_id c \<noteq> k)
         then (Inl (Refused asset_already_exists), db)
         else
           let a' = keep_extra r a (apply_asset_request r now a)
           in case put_asset a' db of
                None \<Rightarrow> (Inl (Refused asset_already_exists), db)
              | Some db' \<Rightarrow> (Inr a', db'))"

definition upsert_asset ::
  "int \<Rightarrow> int \<Rightarrow> asset_request \<Rightarrow> string \<Rightarrow> string \<Rightarrow> datetime \<Rightarrow> graph_db
     \<Rightarrow> (graph_error + asset) \<times> graph_db" where
  "upsert_asset k project r agent sess now db =
    (case get_asset_by_identity project (ar_type r) (request_identifier r) db of
       Some a \<Rightarrow> update_asset project (as_id a) r now db
     | None \<Rightarrow>
         let (saved, db1) = create_asset k project r O_DISCOVERED agent sess now db in
         if saved \<noteq> Inl (Refused asset_already_exists) then (saved, db1)
         else (case get_asset_by_identity project (ar_type r) (request_identifier r) db1 of
             None \<Rightarrow> (Inl (Refused asset_already_exists), db1)
           | Some w \<Rightarrow> update_asset project (as_id w) r now db1))"

definition delete_asset :: "int \<Rightarrow> int \<Rightarrow> graph_db \<Rightarrow> string \<times> graph_db" where
  "delete_asset project k db =
    (case get_row as_id k (gd_assets db) of
       None \<Rightarrow> (''asset not found'', db)
     | Some a \<Rightarrow>
         if as_project a \<noteq> project then (''asset not found'', db)
         else if as_origin a = O_SCOPE then (scope_asset_delete_locked, db)
         else
           let db1 = db\<lparr>gd_findings := update_rows (\<lambda>f. fr_asset (fd_body f) = Some k) unlink_asset (gd_findings db)\<rparr>;
               db2 = purge_edges_touching_asset project k db1
           in ([], delete_asset_row k db2))"

section \<open>Integrity\<close>

lemma identifier_applied:
  "as_identifier (apply_asset_request r now a)
     = build_asset_identifier (as_type (apply_asset_request r now a)) (as_host (apply_asset_request r now a))
         (as_port (apply_asset_request r now a)) (as_path (apply_asset_request r now a))"
  by (simp add: apply_asset_request_def request_identifier_def)

lemma create_asset_ok [inv_intros]:
  assumes ok: "graph_ok db"
  shows "graph_ok (snd (create_asset k project r origin agent sess now db))"
proof -
  define a where "a = apply_asset_request r now (blank_asset k project origin (str_strip agent) (str_strip sess) now)"
  show ?thesis
  proof (cases "insert_asset a db")
    case (Some db')
    then have "as_project a \<in> set (gd_projects db)" by (auto simp: insert_asset_def asset_fits_def split: if_splits)
    moreover have "as_identifier a = build_asset_identifier (as_type a) (as_host a) (as_port a) (as_path a)"
      unfolding a_def by (rule identifier_applied)
    ultimately have "graph_ok db'" using insert_asset_ok[OF ok Some] by (simp add: asset_ok_def)
    with ok Some show ?thesis by (simp add: create_asset_def Let_def a_def)
  qed (use ok in \<open>simp add: create_asset_def Let_def a_def\<close>)
qed

lemma update_asset_ok [inv_intros]:
  assumes ok: "graph_ok db"
  shows "graph_ok (snd (update_asset project k r now db))"
proof (cases "get_row as_id k (gd_assets db)")
  case (Some a)
  define a' where "a' = keep_extra r a (apply_asset_request r now a)"
  have a: "a \<in> set (gd_assets db)" and same: "as_id a' = as_id a" "as_project a' = as_project a"
    using get_rowD[OF Some] by (simp_all add: a'_def keep_extra_def apply_asset_request_def)
  have "as_identifier a' = build_asset_identifier (as_type a') (as_host a') (as_port a') (as_path a')"
    using identifier_applied[of r now a] by (simp add: a'_def keep_extra_def)
  with graph_okD(6)[OF ok a] same have "asset_ok db a'" by (simp add: asset_ok_def)
  moreover have "\<exists>b\<in>set (gd_assets db). as_id b = as_id a' \<and> as_project b = as_project a'" using a same by auto
  ultimately have "graph_ok db'" if "put_asset a' db = Some db'" for db'
    using put_asset_ok[OF ok that] by blast
  with ok Some show ?thesis
    by (auto simp: update_asset_def Let_def a'_def[symmetric] split: option.split)
qed (use ok in \<open>simp add: update_asset_def\<close>)

lemma upsert_asset_ok [inv_intros]: "graph_ok db \<Longrightarrow> graph_ok (snd (upsert_asset k project r agent sess now db))"
  using create_asset_ok[of db k project r O_DISCOVERED agent sess now]
  by (auto simp: upsert_asset_def Let_def update_asset_ok split: option.split prod.split)

text \<open>The explicit clean-up removes what the cascade of the row would remove.\<close>

lemma purge_before_delete:
  assumes ok: "graph_ok db" and a: "a \<in> set (gd_assets db)" "as_id a = k"
  shows "delete_asset_row k (purge_edges_touching_asset (as_project a) k
      (db\<lparr>gd_findings := update_rows (\<lambda>f. fr_asset (fd_body f) = Some k) unlink_asset (gd_findings db)\<rparr>))
    = delete_asset_row k db"
proof -
  let ?db = "db\<lparr>gd_findings := update_rows (\<lambda>f. fr_asset (fd_body f) = Some k) unlink_asset (gd_findings db)\<rparr>"
  let ?touch = "\<lambda>e. ed_source e = k \<or> ed_target e = k"
  have "ed_project e = as_project a" if "e \<in> set (gd_edges db)" "?touch e" for e
  proof -
    have inj: "inj_on as_id (set (gd_assets db))" using graph_okD(1)[OF ok] by (simp add: table_ok_def distinct_map)
    have "asset_in db (ed_project e) k" using graph_okD(7)[OF ok that(1)] that(2) by (auto simp: edge_ok_def)
    then obtain b where "b \<in> set (gd_assets db)" "as_id b = k" "as_project b = ed_project e" by (auto simp: asset_in_def)
    moreover from this a inj have "b = a" by (metis inj_onD)
    ultimately show ?thesis by simp
  qed
  then have "filter (\<lambda>e. ed_project e = as_project a \<and> ?touch e) (gd_edges ?db) = filter ?touch (gd_edges ?db)"
    by (auto intro!: filter_cong)
  then have p: "purge_edges_touching_asset (as_project a) k ?db = delete_edge_rows ?touch ?db"
    unfolding purge_edges_touching_asset_def using purge_edges_delete[of ?touch ?db] by simp
  have none: "filter ?touch (gd_edges (delete_edge_rows ?touch ?db)) = []"
    by (auto simp: delete_edge_rows_def Let_def filter_empty_conv)
  have again: "delete_edge_rows ?touch (delete_edge_rows ?touch ?db) = delete_edge_rows ?touch ?db"
    unfolding delete_edge_rows_def[of ?touch "delete_edge_rows ?touch ?db"] none
    by (simp add: update_rows_id)
  show ?thesis
    unfolding p delete_asset_row_def Let_def again
    by (auto simp: delete_edge_rows_def Let_def update_rows_def unlink_asset_def unlink_edge_def)
qed

lemma delete_asset_ok [inv_intros]:
  assumes ok: "graph_ok db"
  shows "graph_ok (snd (delete_asset project k db))"
proof (cases "get_row as_id k (gd_assets db)")
  case (Some a)
  then have "a \<in> set (gd_assets db)" "as_id a = k" using get_rowD[OF Some] by auto
  note same = purge_before_delete[OF ok this]
  show ?thesis using Some ok same delete_asset_row_ok[OF ok, of k]
    by (auto simp: delete_asset_def Let_def)
qed (use ok in \<open>simp add: delete_asset_def\<close>)

end
