(* ===== verification/Work_Findings.thy ===== *)
theory Work_Findings
  imports Work_Assets
begin

text \<open>
  The findings of a work project, \<^verbatim>\<open>src/service/work_project/findings.py\<close>; then the sequences of
  all operations on the tables of a project and the properties of these tables.
\<close>

definition validate_refs :: "int \<Rightarrow> finding_request \<Rightarrow> graph_db \<Rightarrow> string" where
  "validate_refs project r db =
    (if (case fr_asset r of None \<Rightarrow> False
         | Some k \<Rightarrow> (case get_row as_id k (gd_assets db) of None \<Rightarrow> True | Some a \<Rightarrow> as_project a \<noteq> project))
     then ''asset not found''
     else if (case fr_edge r of None \<Rightarrow> False
         | Some k \<Rightarrow> (case get_row ed_id k (gd_edges db) of None \<Rightarrow> True | Some e \<Rightarrow> ed_project e \<noteq> project))
     then ''graph edge not found''
     else [])"

fun severity_value :: "finding_severity \<Rightarrow> string" where
  "severity_value S_INFO = ''info''"
| "severity_value S_LOW = ''low''"
| "severity_value S_MEDIUM = ''medium''"
| "severity_value S_HIGH = ''high''"
| "severity_value S_CRITICAL = ''critical''"

fun finding_status_value :: "finding_status \<Rightarrow> string" where
  "finding_status_value F_SUSPECTED = ''suspected''"
| "finding_status_value F_VALIDATED = ''validated''"
| "finding_status_value F_FALSE_POSITIVE = ''false_positive''"

definition query_findings ::
  "(string \<Rightarrow> string \<Rightarrow> bool) \<Rightarrow> int \<Rightarrow> int \<Rightarrow> int \<Rightarrow> string \<Rightarrow> graph_db \<Rightarrow> finding page" where
  "query_findings like project page limit keyword db =
    (let rows = sort_key fd_id (filter (\<lambda>f. fd_project f = project) (gd_findings db));
         keyword = str_strip keyword; pat = ''%'' @ keyword @ ''%'';
         rows = (if keyword = [] then rows
                 else filter (\<lambda>f. let b = fd_body f in
                        like pat (fr_title b) \<or> like pat (fr_cve_id b) \<or> like pat (fr_description b)
                        \<or> like pat (fr_evidence b) \<or> like pat (fr_remediation b) \<or> like pat (fr_impact b)
                        \<or> like pat (severity_value (fr_severity b)) \<or> like pat (finding_status_value (fr_status b))) rows)
     in paginate_statement page limit rows)"

definition create_finding ::
  "int \<Rightarrow> int \<Rightarrow> finding_request \<Rightarrow> string \<Rightarrow> string \<Rightarrow> datetime \<Rightarrow> graph_db
     \<Rightarrow> (graph_error + finding) \<times> graph_db" where
  "create_finding k project r agent sess now db =
    (let err = validate_refs project r db in
     if err \<noteq> [] then (Inl (Refused err), db)
     else
       let f = \<lparr>fd_id = k, fd_project = project, fd_body = r, fd_agent = str_strip agent, fd_session = str_strip sess,
                fd_created_at = now, fd_updated_at = now,
                fd_validated_at = (if fr_status r = F_VALIDATED then Some now else None)\<rparr>
       in case insert_finding f db of
            None \<Rightarrow> (Inl (Refused ''asset or graph edge not found''), db)
          | Some db' \<Rightarrow> (Inr f, db'))"

definition next_validated_at :: "finding_request \<Rightarrow> finding \<Rightarrow> datetime \<Rightarrow> datetime option" where
  "next_validated_at r f now =
    (if fr_status r = F_VALIDATED \<and> fr_status (fd_body f) \<noteq> F_VALIDATED then Some now
     else if fr_status r \<noteq> F_VALIDATED then None
     else fd_validated_at f)"

definition update_finding ::
  "int \<Rightarrow> int \<Rightarrow> finding_request \<Rightarrow> datetime \<Rightarrow> graph_db \<Rightarrow> (graph_error + finding) \<times> graph_db" where
  "update_finding project k r now db =
    (case get_row fd_id k (gd_findings db) of
       None \<Rightarrow> (Inl (Refused ''finding not found''), db)
     | Some f \<Rightarrow>
         if fd_project f \<noteq> project then (Inl (Refused ''finding not found''), db)
         else
           let err = validate_refs project r db in
           if err \<noteq> [] then (Inl (Refused err), db)
           else
             let f' = f\<lparr>fd_body := r, fd_updated_at := now, fd_validated_at := next_validated_at r f now\<rparr>
             in case put_finding f' db of
                  None \<Rightarrow> (Inl (Refused ''asset or graph edge not found''), db)
                | Some db' \<Rightarrow> (Inr f', db'))"

definition find_cve :: "int \<Rightarrow> finding_request \<Rightarrow> graph_db \<Rightarrow> finding option" where
  "find_cve project r db =
     List.find (\<lambda>f. fd_project f = project \<and> fr_asset (fd_body f) = fr_asset r \<and> fr_cve_id (fd_body f) = fr_cve_id r)
       (gd_findings db)"

text \<open>The third component says whether a finding was created.\<close>

definition upsert_cve_finding ::
  "int \<Rightarrow> int \<Rightarrow> finding_request \<Rightarrow> string \<Rightarrow> string \<Rightarrow> datetime \<Rightarrow> graph_db
     \<Rightarrow> (graph_error + finding) \<times> bool \<times> graph_db" where
  "upsert_cve_finding k project r agent sess now db =
    (if fr_cve_id r = [] then (Inl (Refused ''cve_id is required''), False, db)
     else (case find_cve project r db of
         None \<Rightarrow> (let (saved, db') = create_finding k project r agent sess now db in (saved, True, db'))
       | Some f \<Rightarrow>
           let r' = (if fr_status (fd_body f) \<noteq> F_SUSPECTED then r\<lparr>fr_status := fr_status (fd_body f)\<rparr> else r);
               (saved, db') = update_finding project (fd_id f) r' now db
           in (saved, False, db')))"

definition delete_finding :: "int \<Rightarrow> int \<Rightarrow> graph_db \<Rightarrow> string \<times> graph_db" where
  "delete_finding project k db =
    (case get_row fd_id k (gd_findings db) of
       None \<Rightarrow> (''finding not found'', db)
     | Some f \<Rightarrow>
         if fd_project f \<noteq> project then (''finding not found'', db)
         else ([], db\<lparr>gd_findings := filter (\<lambda>f. fd_id f \<noteq> k) (gd_findings db)\<rparr>))"

section \<open>Integrity\<close>

lemma validate_refs_ok:
  assumes "validate_refs project r db = []"
  shows "opt_ref (asset_in db project) (fr_asset r) \<and> opt_ref (edge_in db project) (fr_edge r)"
  using assms by (auto simp: validate_refs_def opt_ref_def asset_in_def edge_in_def dest: get_rowD
      split: if_splits option.splits)

lemma create_finding_ok [inv_intros]:
  assumes ok: "graph_ok db"
  shows "graph_ok (snd (create_finding k project r agent sess now db))"
proof (cases "validate_refs project r db = []")
  case True
  define f where "f = \<lparr>fd_id = k, fd_project = project, fd_body = r, fd_agent = str_strip agent,
      fd_session = str_strip sess, fd_created_at = now, fd_updated_at = now,
      fd_validated_at = (if fr_status r = F_VALIDATED then Some now else None)\<rparr>"
  have "finding_ok db f" if "insert_finding f db = Some db'" for db'
  proof -
    have "fd_project f \<in> set (gd_projects db)"
      using that by (simp add: insert_finding_def finding_fits_def split: if_splits)
    then show ?thesis using validate_refs_ok[OF True] by (simp add: f_def finding_ok_def)
  qed
  with True ok insert_finding_ok[OF ok] show ?thesis
    by (auto simp: create_finding_def Let_def f_def[symmetric] split: option.split)
qed (use ok in \<open>simp add: create_finding_def Let_def\<close>)

lemma update_finding_ok [inv_intros]:
  assumes ok: "graph_ok db"
  shows "graph_ok (snd (update_finding project k r now db))"
proof (cases "get_row fd_id k (gd_findings db)")
  case (Some f)
  define f' where "f' = f\<lparr>fd_body := r, fd_updated_at := now, fd_validated_at := next_validated_at r f now\<rparr>"
  show ?thesis
  proof (cases "fd_project f = project \<and> validate_refs project r db = []")
    case True
    have f: "finding_ok db f" using graph_okD(10)[OF ok] get_rowD[OF Some] by blast
    then have "fd_validated_at f' \<noteq> None \<longleftrightarrow> fr_status r = F_VALIDATED"
      by (auto simp: f'_def next_validated_at_def finding_ok_def)
    with f True validate_refs_ok[of project r db] have "finding_ok db f'"
      by (simp add: finding_ok_def f'_def)
    with Some True ok put_finding_ok[OF ok] show ?thesis
      by (auto simp: update_finding_def Let_def f'_def[symmetric] split: option.split)
  qed (use Some ok in \<open>auto simp: update_finding_def Let_def\<close>)
qed (use ok in \<open>simp add: update_finding_def\<close>)

lemma upsert_cve_ok [inv_intros]:
  assumes "graph_ok db"
  shows "graph_ok (snd (snd (upsert_cve_finding k project r agent sess now db)))"
  using create_finding_ok[OF assms, of k project r agent sess now] update_finding_ok[OF assms, of project _ _ now] assms
  by (auto simp: upsert_cve_finding_def Let_def case_prod_beta split: option.split)

lemma delete_finding_ok [inv_intros]:
  assumes ok: "graph_ok db"
  shows "graph_ok (snd (delete_finding project k db))"
proof -
  let ?db = "db\<lparr>gd_findings := filter (\<lambda>f. fd_id f \<noteq> k) (gd_findings db)\<rparr>"
  have kept: "refs_kept db ?db" by (rule refs_kept_more) simp_all
  have "graph_ok ?db"
    by (rule graph_okI[OF ok kept]) (use graph_okD[OF ok] in \<open>auto intro: table_ok_filter\<close>)
  with ok show ?thesis by (auto simp: delete_finding_def split: option.split)
qed

section \<open>Sequences of operations\<close>

text \<open>What the handlers and the agent tools call: the request is validated first.\<close>

datatype work_op =
    WCreateAsset int int asset_request string string datetime
  | WUpdateAsset int int asset_request datetime
  | WUpsertAsset int int asset_request string string datetime
  | WDeleteAsset int int
  | WUpsertEdge int int edge_request string string datetime
  | WUpdateEdge int int edge_request datetime
  | WDeleteEdge int int
  | WCreatePath int int path_request string string datetime
  | WUpdatePath int int path_request datetime
  | WDeletePath int int
  | WCreateStep int int int step_request string string datetime
  | WUpdateStep int int int step_request datetime
  | WDeleteStep int int int
  | WCreateFinding int int finding_request string string datetime
  | WUpdateFinding int int finding_request datetime
  | WUpsertCve int int finding_request string string datetime
  | WDeleteFinding int int

definition on_valid :: "'e + 'r \<Rightarrow> ('r \<Rightarrow> graph_db) \<Rightarrow> graph_db \<Rightarrow> graph_db" where
  "on_valid v f db = (case v of Inl _ \<Rightarrow> db | Inr r \<Rightarrow> f r)"

fun work_exec :: "(string \<Rightarrow> string option) \<Rightarrow> work_op \<Rightarrow> graph_db \<Rightarrow> graph_db" where
  "work_exec canon (WCreateAsset k p r a s now) db =
    on_valid (validate_asset_request canon r) (\<lambda>r. snd (create_asset k p r O_DISCOVERED a s now db)) db"
| "work_exec canon (WUpdateAsset p k r now) db =
    on_valid (validate_asset_request canon r) (\<lambda>r. snd (update_asset p k r now db)) db"
| "work_exec canon (WUpsertAsset k p r a s now) db =
    on_valid (validate_asset_request canon r) (\<lambda>r. snd (upsert_asset k p r a s now db)) db"
| "work_exec canon (WDeleteAsset p k) db = snd (delete_asset p k db)"
| "work_exec canon (WUpsertEdge k p r a s now) db =
    on_valid (validate_edge_request r) (\<lambda>r. snd (upsert_edge k p r a s now db)) db"
| "work_exec canon (WUpdateEdge p k r now) db =
    on_valid (validate_edge_request r) (\<lambda>r. snd (update_edge p k r now db)) db"
| "work_exec canon (WDeleteEdge p k) db = snd (delete_edge p k db)"
| "work_exec canon (WCreatePath k p r a s now) db =
    on_valid (validate_path_request r) (\<lambda>r. snd (create_attack_path k p r a s now db)) db"
| "work_exec canon (WUpdatePath p k r now) db =
    on_valid (validate_path_request r) (\<lambda>r. snd (update_attack_path p k r now db)) db"
| "work_exec canon (WDeletePath p k) db = snd (delete_attack_path p k db)"
| "work_exec canon (WCreateStep k p q r a s now) db =
    on_valid (validate_step_request r) (\<lambda>r. snd (create_step k p q r a s now db)) db"
| "work_exec canon (WUpdateStep p q k r now) db =
    on_valid (validate_step_request r) (\<lambda>r. snd (update_step p q k r now db)) db"
| "work_exec canon (WDeleteStep p q k) db = snd (delete_step p q k db)"
| "work_exec canon (WCreateFinding k p r a s now) db =
    (case validate_finding_request r of None \<Rightarrow> db | Some r \<Rightarrow> snd (create_finding k p r a s now db))"
| "work_exec canon (WUpdateFinding p k r now) db =
    (case validate_finding_request r of None \<Rightarrow> db | Some r \<Rightarrow> snd (update_finding p k r now db))"
| "work_exec canon (WUpsertCve k p r a s now) db =
    (case validate_finding_request r of None \<Rightarrow> db | Some r \<Rightarrow> snd (snd (upsert_cve_finding k p r a s now db)))"
| "work_exec canon (WDeleteFinding p k) db = snd (delete_finding p k db)"

definition work_run :: "(string \<Rightarrow> string option) \<Rightarrow> work_op list \<Rightarrow> graph_db \<Rightarrow> graph_db" where
  "work_run canon ops db = fold (work_exec canon) ops db"

lemma on_valid_ok: "graph_ok db \<Longrightarrow> (\<And>r. v = Inr r \<Longrightarrow> graph_ok (f r)) \<Longrightarrow> graph_ok (on_valid v f db)"
  by (simp add: on_valid_def split: sum.split)

lemma valid_edge_ends: "validate_edge_request raw = Inr r \<Longrightarrow> er_source r \<noteq> er_target r"
  by (auto simp: validate_edge_request_def Let_def split: if_splits)

lemmas operation_ok =
  create_asset_ok update_asset_ok upsert_asset_ok delete_asset_ok upsert_edge_ok update_edge_ok delete_edge_ok
  create_path_ok update_path_ok delete_path_ok create_step_ok update_step_ok delete_step_ok
  create_finding_ok update_finding_ok upsert_cve_ok delete_finding_ok

lemma work_exec_ok:
  assumes "graph_ok db"
  shows "graph_ok (work_exec canon x db)"
  using assms
  by (cases x) (simp_all add: on_valid_ok operation_ok valid_edge_ends split: option.split)

lemma work_run_ok: "graph_ok db \<Longrightarrow> graph_ok (work_run canon ops db)"
  unfolding work_run_def by (induction ops arbitrary: db) (simp_all add: work_exec_ok)

abbreviation empty_projects :: "int list \<Rightarrow> graph_db" where
  "empty_projects ps \<equiv>
     \<lparr>gd_projects = ps, gd_assets = [], gd_edges = [], gd_paths = [], gd_steps = [], gd_findings = []\<rparr>"

lemma graph_ok_empty: "graph_ok (empty_projects ps)"
  by (simp add: graph_ok_def table_ok_def)

section \<open>Scope assets\<close>

text \<open>The assets are changed by the asset operations only.\<close>

lemma put_insert_assets:
  "insert_edge e db = Some db' \<Longrightarrow> gd_assets db' = gd_assets db" "put_edge e db = Some db' \<Longrightarrow> gd_assets db' = gd_assets db"
  "insert_path p db = Some db' \<Longrightarrow> gd_assets db' = gd_assets db" "put_path p db = Some db' \<Longrightarrow> gd_assets db' = gd_assets db"
  "insert_step s db = Some db' \<Longrightarrow> gd_assets db' = gd_assets db" "put_step s db = Some db' \<Longrightarrow> gd_assets db' = gd_assets db"
  "insert_finding f db = Some db' \<Longrightarrow> gd_assets db' = gd_assets db"
  "put_finding f db = Some db' \<Longrightarrow> gd_assets db' = gd_assets db"
  by (auto simp: insert_edge_def put_edge_def insert_path_def put_path_def insert_step_def put_step_def
      insert_finding_def put_finding_def split: if_splits)

lemma other_assets:
  "gd_assets (snd (upsert_edge k p er a s now db)) = gd_assets db"
  "gd_assets (snd (update_edge p k er now db)) = gd_assets db"
  "gd_assets (snd (delete_edge p k db)) = gd_assets db"
  "gd_assets (snd (create_attack_path k p pr a s now db)) = gd_assets db"
  "gd_assets (snd (update_attack_path p k pr now db)) = gd_assets db"
  "gd_assets (snd (delete_attack_path p k db)) = gd_assets db"
  "gd_assets (snd (create_step k p q sr a s now db)) = gd_assets db"
  "gd_assets (snd (update_step p q k sr now db)) = gd_assets db"
  "gd_assets (snd (delete_step p q k db)) = gd_assets db"
  "gd_assets (snd (create_finding k p fr a s now db)) = gd_assets db"
  "gd_assets (snd (update_finding p k fr now db)) = gd_assets db"
  "gd_assets (snd (delete_finding p k db)) = gd_assets db"
  by (auto simp: upsert_edge_def relabel_edge_def update_edge_def delete_edge_def purge_edge_eq create_attack_path_def
      update_attack_path_def delete_attack_path_def delete_path_row_def create_step_def update_step_def delete_step_def
      create_finding_def update_finding_def delete_finding_def Let_def put_insert_assets split: option.split)

lemma upsert_cve_assets: "gd_assets (snd (snd (upsert_cve_finding k p fr a s now db))) = gd_assets db"
  using other_assets(10)[of k p fr a s now db] other_assets(11)[of p _ _ now db]
  by (auto simp: upsert_cve_finding_def Let_def case_prod_beta split: option.split)

lemma row_unique: "table_ok rid key rows \<Longrightarrow> a \<in> set rows \<Longrightarrow> b \<in> set rows \<Longrightarrow> rid a = rid b \<Longrightarrow> a = b"
  by (auto simp: table_ok_def distinct_map dest: inj_onD)

definition scope_kept :: "asset \<Rightarrow> graph_db \<Rightarrow> bool" where
  "scope_kept a db \<longleftrightarrow>
     (\<exists>b\<in>set (gd_assets db). as_id b = as_id a \<and> asset_key b = asset_key a \<and> as_origin b = O_SCOPE)"

lemma create_asset_kept: "scope_kept a db \<Longrightarrow> scope_kept a (snd (create_asset k p r O_DISCOVERED ag s now db))"
  by (auto simp: create_asset_def insert_asset_def Let_def scope_kept_def split: option.split)

lemma update_asset_kept:
  assumes ok: "graph_ok db" and "scope_kept a db"
  shows "scope_kept a (snd (update_asset p k r now db))"
proof (cases "get_row as_id k (gd_assets db)")
  case (Some c)
  from assms(2) obtain b where b: "b \<in> set (gd_assets db)" "as_id b = as_id a" "asset_key b = asset_key a" "as_origin b = O_SCOPE"
    by (auto simp: scope_kept_def)
  define c' where "c' = keep_extra r c (apply_asset_request r now c)"
  have same: "as_id c' = as_id c" "as_origin c' = as_origin c" "as_project c' = as_project c"
    "as_type c' = ar_type r" "as_identifier c' = request_identifier r"
    by (simp_all add: c'_def keep_extra_def apply_asset_request_def)
  have c: "c \<in> set (gd_assets db)" "as_id c = k" using get_rowD[OF Some] by auto
  have kept: "scope_kept a db'" if put: "put_asset c' db = Some db'"
    and scope: "as_origin c = O_SCOPE \<Longrightarrow> (as_type c, as_identifier c) = request_identity r" for db'
  proof -
    have rows: "gd_assets db' = put_row as_id c' (gd_assets db)"
      using put by (auto simp: put_asset_def split: if_splits)
    show ?thesis
    proof (cases "as_id b = as_id c")
      case True
      then have "b = c" using b(1) c(1) row_unique[OF graph_okD(1)[OF ok]] by blast
      with b same scope have "asset_key c' = asset_key a" "as_id c' = as_id a" "as_origin c' = O_SCOPE"
        by (simp_all add: asset_key_def request_identity_def)
      moreover have "c' \<in> set (gd_assets db')" using put_row_member[of c "gd_assets db" as_id c'] c same by (simp add: rows)
      ultimately show ?thesis by (auto simp: scope_kept_def)
    next
      case False
      with b in_put_row[of b "gd_assets db" as_id c'] same show ?thesis by (auto simp: scope_kept_def rows)
    qed
  qed
  show ?thesis using Some assms(2) kept
    by (auto simp: update_asset_def Let_def c'_def[symmetric] split: option.split)
qed (use assms in \<open>simp add: update_asset_def\<close>)

lemma upsert_asset_kept:
  "graph_ok db \<Longrightarrow> scope_kept a db \<Longrightarrow> scope_kept a (snd (upsert_asset k p r ag s now db))"
  using create_asset_ok[of db k p r O_DISCOVERED ag s now] create_asset_kept[of a db k p r ag s now]
  by (auto simp: upsert_asset_def Let_def update_asset_kept split: option.split prod.split)

lemma delete_asset_kept:
  assumes ok: "graph_ok db" and kept: "scope_kept a db"
  shows "scope_kept a (snd (delete_asset p k db))"
proof (cases "get_row as_id k (gd_assets db)")
  case (Some c)
  from kept obtain b where b: "b \<in> set (gd_assets db)" "as_id b = as_id a" "asset_key b = asset_key a" "as_origin b = O_SCOPE"
    by (auto simp: scope_kept_def)
  have c: "c \<in> set (gd_assets db)" "as_id c = k" using get_rowD[OF Some] by auto
  have "scope_kept a (delete_asset_row k db)" if "as_origin c \<noteq> O_SCOPE"
  proof -
    have "as_id b \<noteq> k" using that b c row_unique[OF graph_okD(1)[OF ok]] by metis
    with b show ?thesis by (auto simp: scope_kept_def delete_asset_row_def delete_edge_rows_def Let_def)
  qed
  with Some kept purge_before_delete[OF ok c] show ?thesis by (auto simp: delete_asset_def Let_def)
qed (use kept in \<open>simp add: delete_asset_def\<close>)

lemma scope_kept_same: "gd_assets db' = gd_assets db \<Longrightarrow> scope_kept a db' \<longleftrightarrow> scope_kept a db"
  by (simp add: scope_kept_def)

lemma on_valid_kept: "scope_kept a db \<Longrightarrow> (\<And>r. scope_kept a (f r)) \<Longrightarrow> scope_kept a (on_valid v f db)"
  by (simp add: on_valid_def split: sum.split)

lemma work_exec_kept:
  assumes "graph_ok db" and "scope_kept a db"
  shows "scope_kept a (work_exec canon x db)"
  using assms
  by (cases x) (simp_all add: on_valid_kept create_asset_kept update_asset_kept upsert_asset_kept delete_asset_kept
      scope_kept_same[OF other_assets(1)] scope_kept_same[OF other_assets(2)] scope_kept_same[OF other_assets(3)]
      scope_kept_same[OF other_assets(4)] scope_kept_same[OF other_assets(5)] scope_kept_same[OF other_assets(6)]
      scope_kept_same[OF other_assets(7)] scope_kept_same[OF other_assets(8)] scope_kept_same[OF other_assets(9)]
      scope_kept_same[OF other_assets(10)] scope_kept_same[OF other_assets(11)] scope_kept_same[OF other_assets(12)]
      scope_kept_same[OF upsert_cve_assets] split: option.split)

lemma work_run_kept: "graph_ok db \<Longrightarrow> scope_kept a db \<Longrightarrow> scope_kept a (work_run canon ops db)"
  unfolding work_run_def by (induction ops arbitrary: db) (simp_all add: work_exec_ok work_exec_kept)

section \<open>Upserts\<close>

lemma asset_by_identity:
  assumes "graph_ok db" and "a \<in> set (gd_assets db)"
  shows "get_asset_by_identity (as_project a) (as_type a) (as_identifier a) db = Some a"
proof -
  have inj: "inj_on asset_key (set (gd_assets db))"
    using graph_okD(1)[OF assms(1)] by (simp add: table_ok_def distinct_map)
  have "get_asset_by_identity (as_project a) (as_type a) (as_identifier a) db \<noteq> None"
    unfolding get_asset_by_identity_def find_None_iff' using assms(2) by (auto simp: asset_key_def)
  then obtain b where b: "get_asset_by_identity (as_project a) (as_type a) (as_identifier a) db = Some b" by blast
  then have "b \<in> set (gd_assets db)" "asset_key b = asset_key a"
    using find_SomeD[of _ "gd_assets db" b] by (auto simp: get_asset_by_identity_def asset_key_def)
  with inj assms(2) b show ?thesis by (auto dest: inj_onD)
qed

lemma update_asset_result:
  assumes "update_asset project k r now db = (Inr a, db')"
  shows "a \<in> set (gd_assets db') \<and> as_project a = project \<and> as_type a = ar_type r \<and> as_identifier a = request_identifier r
    \<and> as_host a = ar_host r \<and> as_port a = ar_port r \<and> as_path a = ar_path r \<and> as_id a = k
    \<and> (ar_extra_set r \<longrightarrow> as_extra a = ar_extra r)"
proof -
  from assms obtain c where c: "get_row as_id k (gd_assets db) = Some c" "as_project c = project"
    and a: "a = keep_extra r c (apply_asset_request r now c)" and put: "put_asset a db = Some db'"
    by (auto simp: update_asset_def Let_def split: option.splits if_splits)
  have "a \<in> set (put_row as_id a (gd_assets db))"
    using get_rowD[OF c(1)] by (intro put_row_member[of c]) (simp_all add: a keep_extra_def apply_asset_request_def)
  then have "a \<in> set (gd_assets db')" using put by (auto simp: put_asset_def split: if_splits)
  with get_rowD[OF c(1)] c(2) show ?thesis by (simp add: a keep_extra_def apply_asset_request_def)
qed

lemma create_asset_result:
  assumes "create_asset k project r origin ag s now db = (Inr a, db')"
  shows "a \<in> set (gd_assets db') \<and> as_project a = project \<and> as_type a = ar_type r \<and> as_identifier a = request_identifier r
    \<and> as_host a = ar_host r \<and> as_port a = ar_port r \<and> as_path a = ar_path r \<and> as_extra a = ar_extra r"
  using assms
  by (auto simp: create_asset_def Let_def insert_asset_def apply_asset_request_def blank_asset_def
      split: option.splits if_splits)

lemma upsert_asset_result:
  assumes "upsert_asset k project r ag s now db = (Inr a, db')"
  shows "a \<in> set (gd_assets db') \<and> as_project a = project \<and> as_type a = ar_type r \<and> as_identifier a = request_identifier r
    \<and> as_host a = ar_host r \<and> as_port a = ar_port r \<and> as_path a = ar_path r \<and> (ar_extra_set r \<longrightarrow> as_extra a = ar_extra r)"
  using assms
  by (auto simp: upsert_asset_def Let_def split: option.splits prod.splits if_splits
      dest!: update_asset_result create_asset_result)

text \<open>Repeating an upsert finds the row it left.\<close>

lemma upsert_again:
  assumes ok: "graph_ok db" and a: "a \<in> set (gd_assets db)" "as_project a = project" "as_type a = ar_type r"
    "as_identifier a = request_identifier r" "as_host a = ar_host r" "as_port a = ar_port r" "as_path a = ar_path r"
    "ar_extra_set r \<longrightarrow> as_extra a = ar_extra r"
  shows "upsert_asset k project r ag s now db =
    (Inr (a\<lparr>as_updated_at := now\<rparr>), db\<lparr>gd_assets := put_row as_id (a\<lparr>as_updated_at := now\<rparr>) (gd_assets db)\<rparr>)"
proof -
  let ?a = "a\<lparr>as_updated_at := now\<rparr>"
  have found: "get_asset_by_identity project (ar_type r) (request_identifier r) db = Some a"
    using asset_by_identity[OF ok a(1)] a by simp
  have row: "get_row as_id (as_id a) (gd_assets db) = Some a"
    using a(1) table_ids[OF graph_okD(1)[OF ok]] by (simp add: get_row_iff)
  have new: "keep_extra r a (apply_asset_request r now a) = ?a"
    using a(3-8) by (auto simp: keep_extra_def apply_asset_request_def)
  have "as_id b = as_id a" if "b \<in> set (gd_assets db)" "asset_key b = asset_key a" for b
    using that a(1) graph_okD(1)[OF ok] by (metis (no_types, lifting) table_ok_def distinct_map inj_onD)
  moreover have "asset_key ?a = asset_key a" by (simp add: asset_key_def)
  ultimately have "key_free as_id asset_key ?a (gd_assets db)"
    unfolding key_free_def list_all_iff by simp
  moreover have "as_project a \<in> set (gd_projects db)" using graph_okD(6)[OF ok a(1)] by (simp add: asset_ok_def)
  ultimately have "put_asset ?a db = Some (db\<lparr>gd_assets := put_row as_id ?a (gd_assets db)\<rparr>)"
    by (simp add: put_asset_def asset_fits_def)
  with found row new a show ?thesis
    by (simp add: upsert_asset_def update_asset_def Let_def request_identity_def)
qed

lemma filter_key_one:
  "distinct (map key rows) \<Longrightarrow> a \<in> set rows \<Longrightarrow> filter (\<lambda>b. key b = key a) rows = [a]"
  by (induction rows) (auto simp: filter_empty_conv image_iff)

section \<open>Properties\<close>

definition sample_asset_request :: "string \<Rightarrow> asset_request" where
  "sample_asset_request h =
     \<lparr>ar_type = A_DOMAIN, ar_host = h, ar_port = None, ar_path = [], ar_extra = [], ar_extra_set = False\<rparr>"

definition sample_scope_asset :: asset where
  "sample_scope_asset =
     \<lparr>as_id = 2, as_project = 7, as_type = A_DOMAIN, as_origin = O_SCOPE, as_identifier = ''a'', as_host = ''a'',
      as_port = None, as_path = [], as_extra = [], as_agent = [], as_session = [], as_created_at = 0, as_updated_at = 0\<rparr>"

definition sample_finding_request :: finding_request where
  "sample_finding_request =
     \<lparr>fr_asset = None, fr_edge = None, fr_title = ''t'', fr_type = F_CVE, fr_cve_id = ''CVE-2024-1234'',
      fr_severity = S_HIGH, fr_status = F_SUSPECTED, fr_confidence = F_LOW, fr_cvss_score = Some 9, fr_cvss_vector = [],
      fr_cwes = [], fr_references = [], fr_evidence = [], fr_remediation = [], fr_source = [], fr_known_exploited = True,
      fr_epss_score = None, fr_epss_percentile = None, fr_affected_version = [], fr_fixed_versions = [],
      fr_description = [], fr_impact = []\<rparr>"

definition sample_finding :: finding where
  "sample_finding =
     \<lparr>fd_id = 4, fd_project = 7, fd_body = sample_finding_request\<lparr>fr_status := F_VALIDATED\<rparr>, fd_agent = [],
      fd_session = [], fd_created_at = 1, fd_updated_at = 2, fd_validated_at = Some 2\<rparr>"

definition sample_graph :: graph_db where
  "sample_graph =
     (empty_projects [7])\<lparr>gd_assets := [sample_scope_asset], gd_findings := [sample_finding]\<rparr>"

lemma str_lower_a: "str_lower ''a'' = ''a''"
  by (simp add: str_lower_def lower_char_def)

lemma sample_graph_ok: "graph_ok sample_graph"
  by (simp add: graph_ok_def table_ok_def sample_graph_def sample_scope_asset_def sample_finding_def
      sample_finding_request_def asset_ok_def finding_ok_def opt_ref_def build_asset_identifier_def
      str_strip_def strip_by_def rstrip_by_def lstrip_by_def py_space_def str_lower_a Let_def)

text \<open>C20. Whatever sequence of requests the handlers and agents send, the tables of the projects keep
  their integrity: identifiers and unique keys are unique, an edge joins two different assets of its
  own project, a step lies on a path and an edge of its own project, a finding refers only to an
  asset and an edge of its own project, the identifier of an asset is the canonical one of its fields,
  and a finding has a validation time exactly while its status is validated.\<close>

theorem project_tables_integrity:
  "graph_ok (work_run canon ops (empty_projects ps))
   \<and> (\<forall>e\<in>set (gd_edges (work_run canon ops (empty_projects ps))).
        ed_source e \<noteq> ed_target e
        \<and> (\<exists>a\<in>set (gd_assets (work_run canon ops (empty_projects ps))). as_id a = ed_source e \<and> as_project a = ed_project e)
        \<and> (\<exists>a\<in>set (gd_assets (work_run canon ops (empty_projects ps))). as_id a = ed_target e \<and> as_project a = ed_project e))
   \<and> (\<forall>f\<in>set (gd_findings (work_run canon ops (empty_projects ps))).
        (fd_validated_at f = None \<longleftrightarrow> fr_status (fd_body f) \<noteq> F_VALIDATED))"
proof -
  let ?db = "work_run canon ops (empty_projects ps)"
  have ok: "graph_ok ?db" by (rule work_run_ok[OF graph_ok_empty])
  have "(fd_validated_at f = None) = (fr_status (fd_body f) \<noteq> F_VALIDATED)" if "f \<in> set (gd_findings ?db)" for f
    using graph_okD(10)[OF ok that] unfolding finding_ok_def by blast
  with ok graph_okD(7)[OF ok] show ?thesis by (simp add: edge_ok_def asset_in_def)
qed

lemma project_tables_integrity_witness:
  "graph_ok (work_run (\<lambda>_. None) [WUpsertAsset 2 7 (sample_asset_request ''a'') [] [] 5] (empty_projects [7]))
   \<and> gd_assets (work_run (\<lambda>_. None) [WUpsertAsset 2 7 (sample_asset_request ''a'') [] [] 5] (empty_projects [7])) \<noteq> []"
proof
  show "graph_ok (work_run (\<lambda>_. None) [WUpsertAsset 2 7 (sample_asset_request ''a'') [] [] 5] (empty_projects [7]))"
    using project_tables_integrity by blast
  show "gd_assets (work_run (\<lambda>_. None) [WUpsertAsset 2 7 (sample_asset_request ''a'') [] [] 5] (empty_projects [7])) \<noteq> []"
    by (simp add: work_run_def on_valid_def validate_asset_request_def sample_asset_request_def str_strip_def strip_by_def
        rstrip_by_def lstrip_by_def py_space_def Let_def upsert_asset_def get_asset_by_identity_def create_asset_def
        insert_asset_def asset_fits_def key_free_def blank_asset_def apply_asset_request_def)
qed

text \<open>Deleting a discovered asset removes exactly the asset, the edges that touch it and the steps over
  these edges; the findings stay and only lose their references to what is gone; a scope asset
  is refused and nothing changes.\<close>

theorem asset_deletion_exact:
  assumes "graph_ok db" and "a \<in> set (gd_assets db)" and "as_project a = project"
  shows "(as_origin a = O_SCOPE \<longrightarrow> delete_asset project (as_id a) db = (scope_asset_delete_locked, db))
    \<and> (as_origin a \<noteq> O_SCOPE \<longrightarrow>
        delete_asset project (as_id a) db =
         (let gone = {ed_id e | e. e \<in> set (gd_edges db) \<and> (ed_source e = as_id a \<or> ed_target e = as_id a)}
          in ([], db\<lparr>gd_assets := filter (\<lambda>b. as_id b \<noteq> as_id a) (gd_assets db),
               gd_edges := filter (\<lambda>e. ed_source e \<noteq> as_id a \<and> ed_target e \<noteq> as_id a) (gd_edges db),
               gd_steps := filter (\<lambda>s. st_edge s \<notin> gone) (gd_steps db),
               gd_findings := update_rows (\<lambda>f. fr_asset (fd_body f) = Some (as_id a)) unlink_asset
                 (update_rows (\<lambda>f. fr_edge (fd_body f) \<in> Some ` gone) unlink_edge (gd_findings db))\<rparr>)))"
proof -
  let ?k = "as_id a"
  have row: "get_row as_id ?k (gd_assets db) = Some a"
    using assms(2) table_ids[OF graph_okD(1)[OF assms(1)]] by (simp add: get_row_iff)
  let ?touch = "\<lambda>e. ed_source e = ?k \<or> ed_target e = ?k"
  have gone: "set (map ed_id (filter ?touch (gd_edges db))) = {ed_id e | e. e \<in> set (gd_edges db) \<and> ?touch e}" by auto
  have edges: "filter (\<lambda>e. ed_id e \<notin> {ed_id e | e. e \<in> set (gd_edges db) \<and> ?touch e}) (gd_edges db)
      = filter (\<lambda>e. ed_source e \<noteq> ?k \<and> ed_target e \<noteq> ?k) (gd_edges db)"
    using row_unique[OF graph_okD(2)[OF assms(1)]] by (intro filter_cong) auto
  have "delete_asset_row ?k db =
         (let gone = {ed_id e | e. e \<in> set (gd_edges db) \<and> ?touch e}
          in db\<lparr>gd_assets := filter (\<lambda>b. as_id b \<noteq> ?k) (gd_assets db),
               gd_edges := filter (\<lambda>e. ed_source e \<noteq> ?k \<and> ed_target e \<noteq> ?k) (gd_edges db),
               gd_steps := filter (\<lambda>s. st_edge s \<notin> gone) (gd_steps db),
               gd_findings := update_rows (\<lambda>f. fr_asset (fd_body f) = Some ?k) unlink_asset
                 (update_rows (\<lambda>f. fr_edge (fd_body f) \<in> Some ` gone) unlink_edge (gd_findings db))\<rparr>)"
    by (simp only: delete_asset_row_def delete_edge_rows_def Let_def gone edges) simp
  with row assms(3) purge_before_delete[OF assms(1,2) refl] show ?thesis
    by (simp add: delete_asset_def Let_def)
qed

lemma asset_deletion_exact_witness:
  "delete_asset 7 2 sample_graph = (scope_asset_delete_locked, sample_graph)
   \<and> fst (delete_asset 7 2 (sample_graph\<lparr>gd_assets := [sample_scope_asset\<lparr>as_origin := O_DISCOVERED\<rparr>]\<rparr>)) = []"
proof -
  let ?a = "sample_scope_asset\<lparr>as_origin := O_DISCOVERED\<rparr>"
  let ?db = "sample_graph\<lparr>gd_assets := [?a]\<rparr>"
  have ok: "graph_ok ?db"
    using sample_graph_ok
    by (simp add: graph_ok_def table_ok_def sample_graph_def sample_scope_asset_def asset_ok_def finding_ok_def
        sample_finding_def sample_finding_request_def opt_ref_def)
  have "delete_asset 7 2 sample_graph = (scope_asset_delete_locked, sample_graph)"
    using asset_deletion_exact[OF sample_graph_ok, of sample_scope_asset 7]
    by (simp add: sample_graph_def sample_scope_asset_def)
  moreover have "fst (delete_asset 7 2 ?db) = []"
    using asset_deletion_exact[OF ok, of ?a 7] by (simp add: sample_scope_asset_def Let_def)
  ultimately show ?thesis by simp
qed



text \<open>An asset upsert is idempotent: when it succeeds the table has exactly one asset of the identity,
  with the fields of the request, and repeating it changes only the time of the last update.\<close>

theorem asset_upsert_idempotent:
  assumes "graph_ok db" and "upsert_asset k project r agent sess now db = (Inr a, db')"
  shows "filter (\<lambda>b. asset_key b = (project, ar_type r, request_identifier r)) (gd_assets db') = [a]
    \<and> as_host a = ar_host r \<and> as_port a = ar_port r \<and> as_path a = ar_path r
    \<and> upsert_asset k2 project r agent2 sess2 now2 db' =
        (Inr (a\<lparr>as_updated_at := now2\<rparr>),
         db'\<lparr>gd_assets := map (\<lambda>b. if as_id b = as_id a then a\<lparr>as_updated_at := now2\<rparr> else b) (gd_assets db')\<rparr>)"
proof -
  have ok: "graph_ok db'" using upsert_asset_ok[OF assms(1), of k project r agent sess now] assms(2) by simp
  note res = upsert_asset_result[OF assms(2)]
  have "distinct (map asset_key (gd_assets db'))" using graph_okD(1)[OF ok] by (simp add: table_ok_def)
  from filter_key_one[OF this, of a] res
  have "filter (\<lambda>b. asset_key b = (project, ar_type r, request_identifier r)) (gd_assets db') = [a]"
    by (simp add: asset_key_def)
  moreover have "put_row as_id (a\<lparr>as_updated_at := now2\<rparr>) (gd_assets db')
      = map (\<lambda>b. if as_id b = as_id a then a\<lparr>as_updated_at := now2\<rparr> else b) (gd_assets db')"
    by (simp add: put_row_def update_rows_def)
  ultimately show ?thesis using upsert_again[OF ok, of a project r k2 agent2 sess2 now2] res by simp
qed

lemma asset_upsert_idempotent_witness:
  "\<exists>a db'. upsert_asset 5 7 (sample_asset_request ''a'') [] [] 9 sample_graph = (Inr a, db')
     \<and> upsert_asset 6 7 (sample_asset_request ''a'') [] [] 10 db'
         = (Inr (a\<lparr>as_updated_at := 10\<rparr>),
            db'\<lparr>gd_assets := map (\<lambda>b. if as_id b = as_id a then a\<lparr>as_updated_at := 10\<rparr> else b) (gd_assets db')\<rparr>)"
proof -
  have "\<exists>a db'. upsert_asset 5 7 (sample_asset_request ''a'') [] [] 9 sample_graph = (Inr a, db')"
    by (simp add: upsert_asset_def get_asset_by_identity_def sample_graph_def sample_scope_asset_def asset_key_def
        sample_asset_request_def request_identifier_def build_asset_identifier_def str_strip_def strip_by_def
        rstrip_by_def lstrip_by_def py_space_def str_lower_a Let_def update_asset_def get_row_def request_identity_def
        put_asset_def asset_fits_def key_free_def keep_extra_def apply_asset_request_def)
  then obtain a db' where u: "upsert_asset 5 7 (sample_asset_request ''a'') [] [] 9 sample_graph = (Inr a, db')"
    by blast
  from asset_upsert_idempotent[OF sample_graph_ok u, of 6 "[]" "[]" 10] u show ?thesis by blast
qed

text \<open>Importing a CVE candidate for an asset that already has a finding of this CVE updates the
  finding with the candidate and creates none; a verdict the analyst has given (validated or
  false positive), and the time of a validation, are kept; a suspected finding takes the status of
  the candidate.  Without such a finding exactly one is created.\<close>

theorem cve_import_keeps_verdict:
  assumes "graph_ok db" and "fr_cve_id r \<noteq> []" and "validate_refs project r db = []"
    and "f \<in> set (gd_findings db)" and "find_cve project r db = Some f"
  shows "\<exists>f' db'. upsert_cve_finding k project r agent sess now db = (Inr f', False, db')
    \<and> gd_findings db' = map (\<lambda>g. if fd_id g = fd_id f then f' else g) (gd_findings db)
    \<and> fd_id f' = fd_id f \<and> fd_project f' = project \<and> fd_created_at f' = fd_created_at f
    \<and> fd_body f' = r\<lparr>fr_status := (if fr_status (fd_body f) = F_SUSPECTED then fr_status r else fr_status (fd_body f))\<rparr>
    \<and> (fr_status (fd_body f) = F_VALIDATED \<longrightarrow> fd_validated_at f' = fd_validated_at f)
    \<and> gd_assets db' = gd_assets db \<and> gd_edges db' = gd_edges db"
proof -
  define r' where "r' = (if fr_status (fd_body f) \<noteq> F_SUSPECTED then r\<lparr>fr_status := fr_status (fd_body f)\<rparr> else r)"
  define f' where "f' = f\<lparr>fd_body := r', fd_updated_at := now, fd_validated_at := next_validated_at r' f now\<rparr>"
  have f: "fd_project f = project" using find_SomeD[of _ "gd_findings db" f] assms(5) by (auto simp: find_cve_def)
  have row: "get_row fd_id (fd_id f) (gd_findings db) = Some f"
    using assms(4) table_ids[OF graph_okD(5)[OF assms(1)]] by (simp add: get_row_iff)
  have refs: "fr_asset r' = fr_asset r" "fr_edge r' = fr_edge r" by (simp_all add: r'_def)
  then have valid: "validate_refs project r' db = []" using assms(3) unfolding validate_refs_def by (simp only:)
  have "fd_project f \<in> set (gd_projects db)" using graph_okD(10)[OF assms(1,4)] by (simp add: finding_ok_def)
  moreover from validate_refs_ok[OF valid] have "ref_fits (fr_asset r') (map as_id (gd_assets db))"
    "ref_fits (fr_edge r') (map ed_id (gd_edges db))"
    by (auto simp: opt_ref_def ref_fits_def asset_in_def edge_in_def split: option.splits)
  ultimately have put: "put_finding f' db = Some (db\<lparr>gd_findings := put_row fd_id f' (gd_findings db)\<rparr>)"
    by (simp add: put_finding_def finding_fits_def f'_def)
  have up: "update_finding project (fd_id f) r' now db = (Inr f', db\<lparr>gd_findings := put_row fd_id f' (gd_findings db)\<rparr>)"
    using row f valid put by (simp add: update_finding_def Let_def f'_def[symmetric])
  have run: "upsert_cve_finding k project r agent sess now db
      = (Inr f', False, db\<lparr>gd_findings := put_row fd_id f' (gd_findings db)\<rparr>)"
    using assms(2,5) up by (simp add: upsert_cve_finding_def r'_def[symmetric] Let_def del: if_not_P)
  have kept: "fr_status (fd_body f) = F_VALIDATED \<longrightarrow> fd_validated_at f' = fd_validated_at f"
    by (simp add: f'_def r'_def next_validated_at_def)
  have body: "fd_body f' = r\<lparr>fr_status := (if fr_status (fd_body f) = F_SUSPECTED then fr_status r else fr_status (fd_body f))\<rparr>"
    by (simp add: f'_def r'_def)
  show ?thesis
    unfolding run using kept body f by (auto simp: f'_def put_row_def update_rows_def)
qed

lemma cve_import_keeps_verdict_witness:
  "\<exists>f' db'. upsert_cve_finding 9 7 sample_finding_request [] [] 20 sample_graph = (Inr f', False, db')
     \<and> fr_status (fd_body f') = F_VALIDATED \<and> fd_validated_at f' = Some 2"
proof -
  have "fr_cve_id sample_finding_request \<noteq> []" "validate_refs 7 sample_finding_request sample_graph = []"
    "sample_finding \<in> set (gd_findings sample_graph)" "find_cve 7 sample_finding_request sample_graph = Some sample_finding"
    by (simp_all add: sample_finding_request_def sample_graph_def sample_finding_def validate_refs_def find_cve_def)
  from cve_import_keeps_verdict[OF sample_graph_ok this, of 9 "[]" "[]" 20] show ?thesis
    by (auto simp: sample_finding_def)
qed

text \<open>The pages of a list of assets are complete and do not overlap: they have at most the
  requested size, all report the same total, and the pages up to the last one, put together, are the
  whole list of matching assets in the order of their identifiers.\<close>

theorem asset_pages_cover:
  assumes "0 < limit" and "pages * limit \<ge> pg_total (query_assets like project 1 (int limit) keyword db)"
  shows "concat (map (\<lambda>p. pg_items (query_assets like project (int p + 1) (int limit) keyword db)) [0..<pages])
      = filter (\<lambda>a. let pat = ''%'' @ str_strip keyword @ ''%'' in
            str_strip keyword = [] \<or> like pat (as_identifier a) \<or> like pat (as_host a) \<or> like pat (as_path a)
            \<or> like pat (asset_type_value (as_type a)))
          (sort_key as_id (filter (\<lambda>a. as_project a = project) (gd_assets db)))
    \<and> length (pg_items (query_assets like project page (int limit) keyword db)) \<le> limit
    \<and> pg_total (query_assets like project page (int limit) keyword db)
      = pg_total (query_assets like project 1 (int limit) keyword db)"
proof -
  define rows where "rows = filter (\<lambda>a. let pat = ''%'' @ str_strip keyword @ ''%'' in
            str_strip keyword = [] \<or> like pat (as_identifier a) \<or> like pat (as_host a) \<or> like pat (as_path a)
            \<or> like pat (asset_type_value (as_type a)))
          (sort_key as_id (filter (\<lambda>a. as_project a = project) (gd_assets db)))"
  have query: "query_assets like project p l keyword db = paginate_statement p l rows" for p l
    unfolding query_assets_def rows_def Let_def by (cases "str_strip keyword = []") simp_all
  have "length rows \<le> pages * limit" using assms(2) by (simp add: query paginate_statement_def)
  then show ?thesis
    unfolding query rows_def[symmetric] pages_prefix[OF assms(1)] by (simp add: paginate_statement_def)
qed

lemma asset_pages_cover_witness:
  "concat (map (\<lambda>p. pg_items (query_assets (\<lambda>_ _. True) 7 (int p + 1) (int 2) [] sample_graph)) [0..<3])
     = [sample_scope_asset]"
  using asset_pages_cover[of 2 "\<lambda>_ _. True" 7 "[]" sample_graph 3]
  by (simp add: sample_graph_def sample_scope_asset_def query_assets_def paginate_statement_def Let_def str_strip_Nil_iff)

end
