(* ===== verification/Agent_Events.thy ===== *)
theory Agent_Events
  imports Subordinates
begin

text \<open>
  The events of an agent run, \<^verbatim>\<open>src/schema/agent/events.py\<close>, their identity on the timeline, the
  first half of \<^verbatim>\<open>src/core/runtime/timeline.py\<close>, and the text segments of a stream,
  \<^verbatim>\<open>src/core/runtime/partial_context.py\<close> and \<^verbatim>\<open>src/core/runtime/input_items.py\<close>.  An event is its
  common fields and a body with the fields of its class; a class without a scope has the
  empty scope, which is what \<^verbatim>\<open>getattr(event, "nested_call_id", "")\<close> reads there.
\<close>

section \<open>Input parts\<close>

datatype image_media = PNG | JPEG | WEBP

datatype image_detail = D_AUTO | D_LOW | D_HIGH

datatype input_part = TextPart string | ImagePart image_media string image_detail

definition max_image_base64_length :: nat where
  "max_image_base64_length = 5 * 1024 * 1024"

definition max_message_base64_length :: nat where
  "max_message_base64_length = 8 * 1024 * 1024"

definition max_agent_text_input_chars :: nat where
  "max_agent_text_input_chars = 20000"

definition make_text_part :: "string \<Rightarrow> input_part option" where
  "make_text_part t =
    (let t = str_strip t in
     if t = [] \<or> max_agent_text_input_chars < length t then None else Some (TextPart t))"

text \<open>\<open>decodes\<close> is \<^verbatim>\<open>base64.b64decode(..., validate=True)\<close>; \<^verbatim>\<open>"".join(value.split())\<close> drops the
  white space.\<close>

definition make_image_part ::
  "(string \<Rightarrow> bool) \<Rightarrow> image_media \<Rightarrow> string \<Rightarrow> image_detail \<Rightarrow> input_part option" where
  "make_image_part decodes m d detail =
    (if d = [] \<or> max_image_base64_length < length d then None
     else let compact = filter (\<lambda>c. \<not> py_space c) d in
       if take 5 compact = ''data:'' then None
       else if \<not> decodes compact then None
       else Some (ImagePart m compact detail))"

fun is_image_part :: "input_part \<Rightarrow> bool" where
  "is_image_part (ImagePart _ _ _) = True"
| "is_image_part (TextPart _) = False"

fun part_data :: "input_part \<Rightarrow> string" where
  "part_data (ImagePart _ d _) = d"
| "part_data (TextPart _) = []"

definition validate_agent_input_content :: "input_part list \<Rightarrow> string option" where
  "validate_agent_input_content content =
    (let images = filter is_image_part content in
     if 4 < length images then Some ''at most 4 images are allowed in one message''
     else if max_message_base64_length < sum_list (map (length \<circ> part_data) images)
     then Some ''image payload is too large'' else None)"

fun part_text :: "input_part \<Rightarrow> string" where
  "part_text (TextPart t) = str_strip t"
| "part_text (ImagePart _ _ _) = []"

definition retrieval_text_from_content :: "input_part list \<Rightarrow> string" where
  "retrieval_text_from_content content =
     join_with (CHR 0x0A # CHR 0x0A # []) (filter (\<lambda>t. t \<noteq> []) (map part_text content))"

definition display_text_from_content :: "input_part list \<Rightarrow> string" where
  "display_text_from_content content =
    (let t = retrieval_text_from_content content in
     if t \<noteq> [] then t
     else let n = length (filter is_image_part content) in
       if n = 1 then ''[Image]'' else ''['' @ show_nat n @ '' images]'')"

fun media_type_value :: "image_media \<Rightarrow> string" where
  "media_type_value PNG = ''image/png''"
| "media_type_value JPEG = ''image/jpeg''"
| "media_type_value WEBP = ''image/webp''"

fun detail_value :: "image_detail \<Rightarrow> string" where
  "detail_value D_AUTO = ''auto''"
| "detail_value D_LOW = ''low''"
| "detail_value D_HIGH = ''high''"

fun part_item :: "input_part \<Rightarrow> json" where
  "part_item (TextPart t) = JObj [(''type'', JStr ''input_text''), (''text'', JStr t)]"
| "part_item (ImagePart m d detail) =
     JObj [(''type'', JStr ''input_image''),
           (''image_url'', JStr (''data:'' @ media_type_value m @ '';base64,'' @ d)),
           (''detail'', JStr (detail_value detail))]"

definition build_user_message_item :: "input_part list \<Rightarrow> string \<Rightarrow> json" where
  "build_user_message_item content message_id =
     JObj ([(''type'', JStr ''message''), (''role'', JStr ''user''), (''content'', JList (map part_item content))]
           @ (if message_id \<noteq> [] then [(''id'', JStr message_id)] else []))"

section \<open>Events\<close>

datatype event_body =
    UserMessage (um_content: "input_part list") (um_display: string) (um_target: string)
  | TurnBoundary
  | RunState (rs_running: bool)
  | TextDelta (eb_segment: string) (eb_delta: string) (eb_text: string)
  | TextComplete (eb_segment: string) (eb_text: string)
  | ThinkingDelta (eb_segment: string) (eb_delta: string) (eb_text: string)
  | ThinkingComplete (eb_segment: string) (eb_text: string)
  | ToolCall (tc_call_id: string) (tc_name: string) (tc_arguments: dict)
  | ToolResult (tc_call_id: string) (tr_output: string) (tr_is_error: bool)
  | SubagentTask (sa_run_id: string) (sa_parent_code: string) (sa_parent_instance: string) (sa_code: string)
      (sa_status: task_status) (sa_result_preview: string) (sa_error_preview: string) (sa_result_chars: int)
      (sa_error_chars: int) (sa_truncated: bool) (sa_progress: string)
  | Done
  | ErrorEvent (er_message: string) (er_code: string)

record agent_event =
  ev_created_at :: datetime
  ev_seq :: int
  ev_agent_name :: string
  ev_nested_for :: string
  ev_nested_call_id :: string
  ev_body :: event_body

fun event_type_value :: "event_body \<Rightarrow> string" where
  "event_type_value (UserMessage _ _ _) = ''user_message''"
| "event_type_value TurnBoundary = ''turn_boundary''"
| "event_type_value (RunState _) = ''run_state''"
| "event_type_value (TextDelta _ _ _) = ''text_delta''"
| "event_type_value (TextComplete _ _) = ''text_complete''"
| "event_type_value (ThinkingDelta _ _ _) = ''thinking_delta''"
| "event_type_value (ThinkingComplete _ _) = ''thinking_complete''"
| "event_type_value (ToolCall _ _ _) = ''tool_call''"
| "event_type_value (ToolResult _ _ _) = ''tool_result''"
| "event_type_value (SubagentTask _ _ _ _ _ _ _ _ _ _ _) = ''subagent_task''"
| "event_type_value Done = ''done''"
| "event_type_value (ErrorEvent _ _) = ''error''"

section \<open>Identity on the timeline\<close>

definition timeline_item_key :: "agent_event \<Rightarrow> string option" where
  "timeline_item_key e =
    (let n = ev_nested_call_id e in
     case ev_body e of
       TextDelta s _ _ \<Rightarrow> Some (''text:'' @ n @ '':'' @ s)
     | TextComplete s _ \<Rightarrow> Some (''text:'' @ n @ '':'' @ s)
     | ThinkingDelta s _ _ \<Rightarrow> Some (''thinking:'' @ n @ '':'' @ s)
     | ThinkingComplete s _ \<Rightarrow> Some (''thinking:'' @ n @ '':'' @ s)
     | ToolCall c _ _ \<Rightarrow> Some (''tc:'' @ n @ '':'' @ c)
     | ToolResult c _ _ \<Rightarrow> Some (''tr:'' @ n @ '':'' @ c)
     | SubagentTask r _ _ _ _ _ _ _ _ _ _ \<Rightarrow> Some (''sa:'' @ r)
     | _ \<Rightarrow> None)"

definition control_types :: "string list" where
  "control_types = [''run_state'', ''done'']"

definition delta_types :: "string list" where
  "delta_types = [''text_delta'', ''thinking_delta'']"

definition is_persistable :: "agent_event \<Rightarrow> bool" where
  "is_persistable e \<longleftrightarrow>
     event_type_value (ev_body e) \<notin> set control_types \<and> event_type_value (ev_body e) \<notin> set delta_types"

definition carries_seq :: "agent_event \<Rightarrow> bool" where
  "carries_seq e \<longleftrightarrow> event_type_value (ev_body e) \<notin> set control_types"

section \<open>Segments left open by a stream\<close>

text \<open>The buffers are a dictionary from segment ids, in the order of first use.\<close>

record delta_buffer =
  db_is_thinking :: bool
  db_segment_id :: string
  db_content :: string
  db_complete :: bool

type_synonym buffers = "(string \<times> delta_buffer) list"

definition buffer_of :: "bool \<Rightarrow> string \<Rightarrow> buffers \<Rightarrow> delta_buffer" where
  "buffer_of thinking seg bs =
    (case map_of bs seg of Some b \<Rightarrow> b
     | None \<Rightarrow> \<lparr>db_is_thinking = thinking, db_segment_id = seg, db_content = [], db_complete = False\<rparr>)"

definition track_delta :: "buffers \<Rightarrow> agent_event \<Rightarrow> buffers" where
  "track_delta bs e =
    (case ev_body e of
       TextDelta s d _ \<Rightarrow> let b = buffer_of False s bs in AList.update s (b\<lparr>db_content := db_content b @ d\<rparr>) bs
     | ThinkingDelta s d _ \<Rightarrow> let b = buffer_of True s bs in AList.update s (b\<lparr>db_content := db_content b @ d\<rparr>) bs
     | TextComplete s t \<Rightarrow> AList.update s ((buffer_of False s bs)\<lparr>db_content := t, db_complete := True\<rparr>) bs
     | ThinkingComplete s t \<Rightarrow> AList.update s ((buffer_of True s bs)\<lparr>db_content := t, db_complete := True\<rparr>) bs
     | _ \<Rightarrow> bs)"

definition incomplete_segment_events :: "string \<Rightarrow> datetime \<Rightarrow> buffers \<Rightarrow> agent_event list" where
  "incomplete_segment_events agent_name now bs =
     map (\<lambda>b. \<lparr>ev_created_at = now, ev_seq = 0, ev_agent_name = agent_name, ev_nested_for = [],
               ev_nested_call_id = [],
               ev_body = (if db_is_thinking b then ThinkingComplete (db_segment_id b) (db_content b)
                          else TextComplete (db_segment_id b) (db_content b))\<rparr>)
       (filter (\<lambda>b. db_content b \<noteq> [] \<and> \<not> db_complete b) (map snd bs))"

subsection \<open>The text of a segment\<close>

text \<open>What a reader of the whole stream would show for a segment: the deltas put together, or the
  complete text when it came, with what followed it.\<close>

fun segment_text :: "string \<Rightarrow> event_body list \<Rightarrow> string" where
  "segment_text s [] = []"
| "segment_text s (TextDelta s' d _ # es) = (if s' = s then segment_text s es @ d else segment_text s es)"
| "segment_text s (ThinkingDelta s' d _ # es) = (if s' = s then segment_text s es @ d else segment_text s es)"
| "segment_text s (TextComplete s' t # es) = (if s' = s then t else segment_text s es)"
| "segment_text s (ThinkingComplete s' t # es) = (if s' = s then t else segment_text s es)"
| "segment_text s (_ # es) = segment_text s es"

fun completes_segment :: "string \<Rightarrow> event_body \<Rightarrow> bool" where
  "completes_segment s (TextComplete s' _) \<longleftrightarrow> s' = s"
| "completes_segment s (ThinkingComplete s' _) \<longleftrightarrow> s' = s"
| "completes_segment s _ \<longleftrightarrow> False"

fun touches_segment :: "string \<Rightarrow> event_body \<Rightarrow> bool" where
  "touches_segment s (TextDelta s' _ _) \<longleftrightarrow> s' = s"
| "touches_segment s (ThinkingDelta s' _ _) \<longleftrightarrow> s' = s"
| "touches_segment s b \<longleftrightarrow> completes_segment s b"

definition tracked :: "agent_event list \<Rightarrow> buffers" where
  "tracked es = fold (\<lambda>e bs. track_delta bs e) es []"

lemma tracked_snoc: "tracked (es @ [e]) = track_delta (tracked es) e"
  by (simp add: tracked_def)

lemma tracked_distinct: "distinct (map fst (tracked es))"
proof (induction es rule: rev_induct)
  case (snoc e es)
  then show ?case
    by (simp add: tracked_snoc track_delta_def Let_def distinct_update split: event_body.split)
qed (simp add: tracked_def)

text \<open>One event changes the buffer of one segment.\<close>

fun segment_step :: "string \<Rightarrow> delta_buffer option \<Rightarrow> event_body \<Rightarrow> delta_buffer option" where
  "segment_step s b (TextDelta s' d _) = (if s' \<noteq> s then b else
     Some (case b of None \<Rightarrow> \<lparr>db_is_thinking = False, db_segment_id = s, db_content = d, db_complete = False\<rparr>
           | Some b \<Rightarrow> b\<lparr>db_content := db_content b @ d\<rparr>))"
| "segment_step s b (ThinkingDelta s' d _) = (if s' \<noteq> s then b else
     Some (case b of None \<Rightarrow> \<lparr>db_is_thinking = True, db_segment_id = s, db_content = d, db_complete = False\<rparr>
           | Some b \<Rightarrow> b\<lparr>db_content := db_content b @ d\<rparr>))"
| "segment_step s b (TextComplete s' t) = (if s' \<noteq> s then b else
     Some (case b of None \<Rightarrow> \<lparr>db_is_thinking = False, db_segment_id = s, db_content = t, db_complete = True\<rparr>
           | Some b \<Rightarrow> b\<lparr>db_content := t, db_complete := True\<rparr>))"
| "segment_step s b (ThinkingComplete s' t) = (if s' \<noteq> s then b else
     Some (case b of None \<Rightarrow> \<lparr>db_is_thinking = True, db_segment_id = s, db_content = t, db_complete = True\<rparr>
           | Some b \<Rightarrow> b\<lparr>db_content := t, db_complete := True\<rparr>))"
| "segment_step s b _ = b"

lemma track_delta_step: "map_of (track_delta bs e) s = segment_step s (map_of bs s) (ev_body e)"
  by (cases "ev_body e")
    (simp_all add: track_delta_def buffer_of_def Let_def update_conv split: option.split)

lemma tracked_step: "map_of (tracked es) s = foldl (segment_step s) None (map ev_body es)"
  by (induction es rule: rev_induct) (simp_all add: tracked_snoc track_delta_step tracked_def)

text \<open>The buffer holds the text of the stream so far (the text is defined on the reversed stream,
  newest event first).\<close>

lemma segment_buffer:
  "case foldl (segment_step s) None bodies of
     None \<Rightarrow> \<not> (\<exists>b\<in>set bodies. touches_segment s b) \<and> segment_text s (rev bodies) = []
   | Some b \<Rightarrow> db_segment_id b = s \<and> db_content b = segment_text s (rev bodies)
        \<and> db_complete b = (\<exists>b\<in>set bodies. completes_segment s b)"
proof (induction bodies rule: rev_induct)
  case (snoc e bodies)
  have c: "completes_segment s b \<Longrightarrow> touches_segment s b" for b by (cases b) simp_all
  show ?case
  proof (cases "foldl (segment_step s) None bodies")
    case None
    with snoc c show ?thesis by (cases e) auto
  next
    case (Some b)
    with snoc show ?thesis by (cases e) simp_all
  qed
qed simp

lemma tracked_buffer:
  assumes "map_of (tracked es) s = Some b"
  shows "db_segment_id b = s \<and> db_content b = segment_text s (rev (map ev_body es))
    \<and> db_complete b = (\<exists>e\<in>set es. completes_segment s (ev_body e))"
  using segment_buffer[of "map ev_body es" s] assms by (simp add: tracked_step)

lemma untracked:
  assumes "map_of (tracked es) s = None"
  shows "segment_text s (rev (map ev_body es)) = [] \<and> \<not> (\<exists>e\<in>set es. completes_segment s (ev_body e))"
proof -
  have c: "completes_segment s b \<Longrightarrow> touches_segment s b" for b by (cases b) simp_all
  show ?thesis using segment_buffer[of "map ev_body es" s] assms c by (auto simp: tracked_step)
qed

text \<open>Finishing a stream closes exactly the segments the provider left open: the closing events are
  one completion per segment that has text and no completion yet, with the text the deltas
  accumulated, and none for any other segment.\<close>

theorem open_segments_closed:
  assumes "closing = incomplete_segment_events name now (tracked es)"
  shows "distinct (map (eb_segment \<circ> ev_body) closing)
    \<and> (\<forall>s. (\<exists>c\<in>set closing. eb_segment (ev_body c) = s) \<longleftrightarrow>
          segment_text s (rev (map ev_body es)) \<noteq> [] \<and> \<not> (\<exists>e\<in>set es. completes_segment s (ev_body e)))
    \<and> (\<forall>c\<in>set closing. completes_segment (eb_segment (ev_body c)) (ev_body c)
          \<and> eb_text (ev_body c) = segment_text (eb_segment (ev_body c)) (rev (map ev_body es)))"
proof -
  let ?open = "filter (\<lambda>b. db_content b \<noteq> [] \<and> \<not> db_complete b) (map snd (tracked es))"
  let ?close = "\<lambda>b. \<lparr>ev_created_at = now, ev_seq = 0, ev_agent_name = name, ev_nested_for = [],
               ev_nested_call_id = [],
               ev_body = (if db_is_thinking b then ThinkingComplete (db_segment_id b) (db_content b)
                          else TextComplete (db_segment_id b) (db_content b))\<rparr>"
  have closing: "closing = map ?close ?open" by (simp add: assms incomplete_segment_events_def)
  have entry: "k = db_segment_id b \<and> db_content b = segment_text k (rev (map ev_body es))
      \<and> db_complete b = (\<exists>e\<in>set es. completes_segment k (ev_body e))" if "(k, b) \<in> set (tracked es)" for k b
    using tracked_buffer[of es k b] map_of_is_SomeI[OF tracked_distinct that] by simp
  have ids: "map (db_segment_id \<circ> snd) (tracked es) = map fst (tracked es)"
    using entry by (auto intro!: map_cong)
  have "distinct (map db_segment_id (map snd (tracked es)))"
    using tracked_distinct[of es] by (simp add: ids)
  then have "distinct (map db_segment_id ?open)" by (rule distinct_map_filter)
  moreover have "map (eb_segment \<circ> ev_body) closing = map db_segment_id ?open"
    unfolding closing map_map by (rule map_cong[OF refl]) simp
  ultimately have d: "distinct (map (eb_segment \<circ> ev_body) closing)" by simp
  have iff: "(\<exists>c\<in>set closing. eb_segment (ev_body c) = s) \<longleftrightarrow>
          segment_text s (rev (map ev_body es)) \<noteq> [] \<and> \<not> (\<exists>e\<in>set es. completes_segment s (ev_body e))" for s
  proof
    assume "\<exists>c\<in>set closing. eb_segment (ev_body c) = s"
    then obtain k b where b: "(k, b) \<in> set (tracked es)" "db_content b \<noteq> []" "\<not> db_complete b" "db_segment_id b = s"
      by (auto simp: closing split: if_splits)
    have "k = s" using entry[OF b(1)] b(4) by blast
    with entry[OF b(1)] b(2,3) show "segment_text s (rev (map ev_body es)) \<noteq> [] \<and> \<not> (\<exists>e\<in>set es. completes_segment s (ev_body e))"
      by metis
  next
    assume a: "segment_text s (rev (map ev_body es)) \<noteq> [] \<and> \<not> (\<exists>e\<in>set es. completes_segment s (ev_body e))"
    then obtain b where b: "map_of (tracked es) s = Some b" using untracked[of es s] by fastforce
    then have "b \<in> set ?open" using a entry[OF map_of_SomeD[OF b]] map_of_SomeD[OF b] by force
    then have "?close b \<in> set closing" by (simp add: closing)
    moreover have "db_segment_id b = s" using entry[OF map_of_SomeD[OF b]] by simp
    ultimately show "\<exists>c\<in>set closing. eb_segment (ev_body c) = s" by (intro bexI[of _ "?close b"]) simp_all
  qed
  have "completes_segment (eb_segment (ev_body c)) (ev_body c)
      \<and> eb_text (ev_body c) = segment_text (eb_segment (ev_body c)) (rev (map ev_body es))" if "c \<in> set closing" for c
    using that entry by (fastforce simp: closing)
  with d iff show ?thesis by blast
qed

definition sample_event :: "event_body \<Rightarrow> agent_event" where
  "sample_event b = \<lparr>ev_created_at = 0, ev_seq = 0, ev_agent_name = [], ev_nested_for = [],
     ev_nested_call_id = [], ev_body = b\<rparr>"

lemma open_segments_closed_witness:
  "\<exists>c\<in>set (incomplete_segment_events [] 5 (tracked [sample_event (TextDelta ''s'' ''a'' ''a''),
      sample_event (TextDelta ''s'' ''b'' ''ab''), sample_event (ThinkingComplete ''t'' ''x'')])).
     eb_segment (ev_body c) = ''s''"
proof -
  let ?es = "[sample_event (TextDelta ''s'' ''a'' ''a''), sample_event (TextDelta ''s'' ''b'' ''ab''),
      sample_event (ThinkingComplete ''t'' ''x'')]"
  have "segment_text ''s'' (rev (map ev_body ?es)) = ''ab''" "\<not> (\<exists>e\<in>set ?es. completes_segment ''s'' (ev_body e))"
    by (simp_all add: sample_event_def)
  with open_segments_closed[OF refl, of "[]" 5 ?es] show ?thesis by auto
qed

end
