(* ===== verification/Live_Projection.thy ===== *)
theory Live_Projection
  imports Agent_Events
begin

text \<open>
  What a client that reconnects is shown of the running turn, \<^verbatim>\<open>src/core/runtime/live_projection.py\<close>:
  the list of events and four dictionaries from keys to positions in it.  The reference
  definition below keeps the list alone and searches it; the indexed one is proved equal to it.
\<close>

type_synonym segment_key = "string \<times> string \<times> string \<times> string"
type_synonym call_key = "string \<times> string \<times> string"

record live_projection =
  lp_events :: "agent_event list"
  lp_segments :: "segment_key \<rightharpoonup> nat"
  lp_tools :: "call_key \<rightharpoonup> nat"
  lp_results :: "call_key \<rightharpoonup> nat"
  lp_subagents :: "string \<rightharpoonup> nat"

definition no_live_events :: live_projection where
  "no_live_events = \<lparr>lp_events = [], lp_segments = Map.empty, lp_tools = Map.empty, lp_results = Map.empty,
     lp_subagents = Map.empty\<rparr>"

definition clear_indexes :: "live_projection \<Rightarrow> live_projection" where
  "clear_indexes p = p\<lparr>lp_segments := Map.empty, lp_tools := Map.empty, lp_results := Map.empty,
     lp_subagents := Map.empty\<rparr>"

definition live_reset :: "agent_event \<Rightarrow> live_projection \<Rightarrow> live_projection" where
  "live_reset e p = clear_indexes (p\<lparr>lp_events := [e]\<rparr>)"

definition live_snapshot :: "(agent_event \<Rightarrow> bool) option \<Rightarrow> live_projection \<Rightarrow> agent_event list" where
  "live_snapshot incl p = (case incl of None \<Rightarrow> lp_events p | Some f \<Rightarrow> filter f (lp_events p))"

fun is_run_state :: "event_body \<Rightarrow> bool" where
  "is_run_state (RunState _) = True"
| "is_run_state _ = False"

definition segment_key_of :: "string \<Rightarrow> string \<Rightarrow> agent_event \<Rightarrow> segment_key" where
  "segment_key_of kind seg e = (kind, seg, ev_nested_for e, ev_nested_call_id e)"

definition call_key_of :: "string \<Rightarrow> agent_event \<Rightarrow> call_key" where
  "call_key_of c e = (c, ev_nested_for e, ev_nested_call_id e)"

text \<open>\<^verbatim>\<open>self._events[index] = event\<close>; an index out of range raises, which is \<^const>\<open>None\<close>.\<close>

definition set_event :: "nat \<Rightarrow> agent_event \<Rightarrow> live_projection \<Rightarrow> live_projection option" where
  "set_event i e p = (if i < length (lp_events p) then Some (p\<lparr>lp_events := (lp_events p)[i := e]\<rparr>) else None)"

definition add_event :: "agent_event \<Rightarrow> live_projection \<Rightarrow> live_projection" where
  "add_event e p = p\<lparr>lp_events := lp_events p @ [e]\<rparr>"

definition index_event :: "nat \<Rightarrow> agent_event \<Rightarrow> live_projection \<Rightarrow> live_projection" where
  "index_event i e p =
    (case ev_body e of
       TextDelta s _ _ \<Rightarrow> p\<lparr>lp_segments := (lp_segments p)(segment_key_of ''text'' s e \<mapsto> i)\<rparr>
     | ThinkingDelta s _ _ \<Rightarrow> p\<lparr>lp_segments := (lp_segments p)(segment_key_of ''thinking'' s e \<mapsto> i)\<rparr>
     | ToolCall c _ _ \<Rightarrow> p\<lparr>lp_tools := (lp_tools p)(call_key_of c e \<mapsto> i)\<rparr>
     | ToolResult c _ _ \<Rightarrow> p\<lparr>lp_results := (lp_results p)(call_key_of c e \<mapsto> i)\<rparr>
     | SubagentTask r _ _ _ _ _ _ _ _ _ _ \<Rightarrow> p\<lparr>lp_subagents := (lp_subagents p)(r \<mapsto> i)\<rparr>
     | _ \<Rightarrow> p)"

definition rebuild_indexes :: "live_projection \<Rightarrow> live_projection" where
  "rebuild_indexes p = fold (\<lambda>(i, e). index_event i e) (List.enumerate 0 (lp_events p)) (clear_indexes p)"

definition apply_segment :: "string \<Rightarrow> string \<Rightarrow> agent_event \<Rightarrow> live_projection \<Rightarrow> live_projection option" where
  "apply_segment kind seg e p =
    (case lp_segments p (segment_key_of kind seg e) of
       None \<Rightarrow> Some (add_event e (p\<lparr>lp_segments := (lp_segments p)(segment_key_of kind seg e \<mapsto> length (lp_events p))\<rparr>))
     | Some i \<Rightarrow> set_event i e p)"

definition apply_segment_complete ::
  "string \<Rightarrow> string \<Rightarrow> agent_event \<Rightarrow> live_projection \<Rightarrow> live_projection option" where
  "apply_segment_complete kind seg e p =
    (let p' = p\<lparr>lp_segments := (lp_segments p)(segment_key_of kind seg e := None)\<rparr> in
     case lp_segments p (segment_key_of kind seg e) of
       None \<Rightarrow> Some (add_event e p')
     | Some i \<Rightarrow> map_option rebuild_indexes (set_event i e p'))"

definition apply_tool_call :: "string \<Rightarrow> agent_event \<Rightarrow> live_projection \<Rightarrow> live_projection option" where
  "apply_tool_call c e p =
    (case lp_tools p (call_key_of c e) of
       None \<Rightarrow> Some (add_event e (p\<lparr>lp_tools := (lp_tools p)(call_key_of c e \<mapsto> length (lp_events p))\<rparr>))
     | Some i \<Rightarrow> set_event i e p)"

definition apply_tool_result :: "string \<Rightarrow> agent_event \<Rightarrow> live_projection \<Rightarrow> live_projection option" where
  "apply_tool_result c e p =
    (case lp_results p (call_key_of c e) of
       None \<Rightarrow> Some (add_event e (p\<lparr>lp_results := (lp_results p)(call_key_of c e \<mapsto> length (lp_events p))\<rparr>))
     | Some i \<Rightarrow> set_event i e p)"

definition apply_subagent :: "string \<Rightarrow> agent_event \<Rightarrow> live_projection \<Rightarrow> live_projection option" where
  "apply_subagent r e p =
    (case lp_subagents p r of
       None \<Rightarrow> Some (add_event e (p\<lparr>lp_subagents := (lp_subagents p)(r \<mapsto> length (lp_events p))\<rparr>))
     | Some i \<Rightarrow> set_event i e p)"

definition live_apply :: "agent_event \<Rightarrow> live_projection \<Rightarrow> live_projection option" where
  "live_apply e p =
    (case ev_body e of
       RunState _ \<Rightarrow> Some (rebuild_indexes (p\<lparr>lp_events := e # filter (\<lambda>x. \<not> is_run_state (ev_body x)) (lp_events p)\<rparr>))
     | UserMessage _ _ _ \<Rightarrow> Some (add_event e p)
     | TurnBoundary \<Rightarrow> Some (add_event e p)
     | TextDelta s _ _ \<Rightarrow> apply_segment ''text'' s e p
     | ThinkingDelta s _ _ \<Rightarrow> apply_segment ''thinking'' s e p
     | TextComplete s _ \<Rightarrow> apply_segment_complete ''text'' s e p
     | ThinkingComplete s _ \<Rightarrow> apply_segment_complete ''thinking'' s e p
     | ToolCall c _ _ \<Rightarrow> apply_tool_call c e p
     | ToolResult c _ _ \<Rightarrow> apply_tool_result c e p
     | SubagentTask r _ _ _ _ _ _ _ _ _ _ \<Rightarrow> apply_subagent r e p
     | Done \<Rightarrow> Some (if ev_nested_call_id e = [] then add_event e p else p)
     | ErrorEvent _ _ \<Rightarrow> Some (add_event e p))"

section \<open>The reference: a list searched by key\<close>

datatype show_key = KSegment segment_key | KCall call_key | KResult call_key | KSubagent string

definition event_key :: "agent_event \<Rightarrow> show_key option" where
  "event_key e =
    (case ev_body e of
       TextDelta s _ _ \<Rightarrow> Some (KSegment (segment_key_of ''text'' s e))
     | ThinkingDelta s _ _ \<Rightarrow> Some (KSegment (segment_key_of ''thinking'' s e))
     | ToolCall c _ _ \<Rightarrow> Some (KCall (call_key_of c e))
     | ToolResult c _ _ \<Rightarrow> Some (KResult (call_key_of c e))
     | SubagentTask r _ _ _ _ _ _ _ _ _ _ \<Rightarrow> Some (KSubagent r)
     | _ \<Rightarrow> None)"

definition has_key :: "show_key \<Rightarrow> agent_event list \<Rightarrow> bool" where
  "has_key k es \<longleftrightarrow> list_ex (\<lambda>x. event_key x = Some k) es"

definition replace_or_add :: "show_key \<Rightarrow> agent_event \<Rightarrow> agent_event list \<Rightarrow> agent_event list" where
  "replace_or_add k e es = (if has_key k es then map (\<lambda>x. if event_key x = Some k then e else x) es else es @ [e])"

definition reference_apply :: "agent_event \<Rightarrow> agent_event list \<Rightarrow> agent_event list" where
  "reference_apply e es =
    (case ev_body e of
       RunState _ \<Rightarrow> e # filter (\<lambda>x. \<not> is_run_state (ev_body x)) es
     | TextComplete s _ \<Rightarrow> replace_or_add (KSegment (segment_key_of ''text'' s e)) e es
     | ThinkingComplete s _ \<Rightarrow> replace_or_add (KSegment (segment_key_of ''thinking'' s e)) e es
     | Done \<Rightarrow> if ev_nested_call_id e = [] then es @ [e] else es
     | _ \<Rightarrow> (case event_key e of None \<Rightarrow> es @ [e] | Some k \<Rightarrow> replace_or_add k e es))"

section \<open>The indexes are the positions of the keys\<close>

fun position :: "live_projection \<Rightarrow> show_key \<Rightarrow> nat option" where
  "position p (KSegment k) = lp_segments p k"
| "position p (KCall k) = lp_tools p k"
| "position p (KResult k) = lp_results p k"
| "position p (KSubagent r) = lp_subagents p r"

definition keys_at :: "agent_event list \<Rightarrow> show_key \<Rightarrow> nat \<Rightarrow> bool" where
  "keys_at es k i \<longleftrightarrow> i < length es \<and> event_key (es ! i) = Some k"

definition live_ok :: "live_projection \<Rightarrow> bool" where
  "live_ok p \<longleftrightarrow> (\<forall>k i. position p k = Some i \<longleftrightarrow> keys_at (lp_events p) k i)"

text \<open>No two events of the list have the same key.\<close>

definition keys_once :: "agent_event list \<Rightarrow> bool" where
  "keys_once es \<longleftrightarrow> (\<forall>k i j. keys_at es k i \<longrightarrow> keys_at es k j \<longrightarrow> i = j)"

lemma live_okD: "live_ok p \<Longrightarrow> position p k = Some i \<longleftrightarrow> keys_at (lp_events p) k i"
  by (simp add: live_ok_def)

lemma live_ok_once: "live_ok p \<Longrightarrow> keys_once (lp_events p)"
  unfolding live_ok_def keys_once_def by (metis option.inject)

lemma position_index_event:
  "position (index_event i e p) k = (if event_key e = Some k then Some i else position p k)"
  by (cases k) (auto simp: index_event_def event_key_def split: event_body.split)

lemma events_index_event [simp]: "lp_events (index_event i e p) = lp_events p"
  by (simp add: index_event_def split: event_body.split)

lemma position_clear: "position (clear_indexes p) k = None"
  by (cases k) (simp_all add: clear_indexes_def)

lemma events_fold_index: "lp_events (fold (\<lambda>(i, e). index_event i e) ies p) = lp_events p"
  by (induction ies arbitrary: p) auto

lemma events_rebuild [simp]: "lp_events (rebuild_indexes p) = lp_events p"
  by (simp add: rebuild_indexes_def events_fold_index clear_indexes_def)

lemma position_fold_index:
  "position (fold (\<lambda>(i, e). index_event i e) ies p) k =
    (case List.find (\<lambda>(i, e). event_key e = Some k) (rev ies) of Some (i, e) \<Rightarrow> Some i | None \<Rightarrow> position p k)"
proof (induction ies rule: rev_induct)
  case (snoc ie ies)
  obtain i e where "ie = (i, e)" by fastforce
  with snoc show ?case by (simp add: position_index_event)
qed simp

lemma in_enumerate: "(i, e) \<in> set (List.enumerate 0 es) \<longleftrightarrow> i < length es \<and> es ! i = e"
  by (force simp: in_set_enumerate_eq)

text \<open>Rebuilding finds every position, when no key occurs twice.\<close>

lemma live_ok_rebuild:
  assumes "keys_once (lp_events p)"
  shows "live_ok (rebuild_indexes p)"
  unfolding live_ok_def
proof (intro allI)
  fix k i
  let ?ies = "List.enumerate 0 (lp_events p)"
  let ?found = "List.find (\<lambda>(i, e). event_key e = Some k) (rev ?ies)"
  have pos: "position (rebuild_indexes p) k = (case ?found of Some (i, e) \<Rightarrow> Some i | None \<Rightarrow> None)"
    unfolding rebuild_indexes_def position_fold_index position_clear by (rule refl)
  show "position (rebuild_indexes p) k = Some i \<longleftrightarrow> keys_at (lp_events (rebuild_indexes p)) k i"
  proof (cases ?found)
    case None
    then have "\<not> (\<exists>(i, e)\<in>set ?ies. event_key e = Some k)" by (auto simp: find_None_iff')
    with None show ?thesis by (auto simp: pos keys_at_def in_enumerate)
  next
    case (Some ie)
    obtain j e where ie: "ie = (j, e)" by fastforce
    with Some find_SomeD[OF Some] have "keys_at (lp_events p) k j" by (auto simp: keys_at_def in_enumerate)
    with assms have "keys_at (lp_events p) k i \<longleftrightarrow> i = j" unfolding keys_once_def by blast
    with Some ie show ?thesis by (auto simp: pos)
  qed
qed

lemma keys_at_append: "keys_at (es @ [e]) k i \<longleftrightarrow> keys_at es k i \<or> i = length es \<and> event_key e = Some k"
  by (auto simp: keys_at_def nth_append)

lemma keys_at_update:
  "i < length es \<Longrightarrow> keys_at (es[i := e]) k j \<longleftrightarrow> (if j = i then event_key e = Some k else keys_at es k j)"
  by (auto simp: keys_at_def nth_list_update)

text \<open>The three ways the list changes.\<close>

lemma add_keyless_ok: "live_ok p \<Longrightarrow> event_key e = None \<Longrightarrow> live_ok (add_event e p)"
proof -
  assume a: "live_ok p" "event_key e = None"
  have "position (add_event e p) k = position p k" for k by (cases k) (simp_all add: add_event_def)
  with a show ?thesis by (simp add: live_ok_def add_event_def keys_at_append)
qed

lemma add_keyed_ok:
  assumes "live_ok p" and "position p k = None" and "event_key e = Some k"
  shows "live_ok (add_event e (index_event (length (lp_events p)) e p))"
proof -
  let ?p = "index_event (length (lp_events p)) e p"
  have pos: "position (add_event e ?p) j = position ?p j" for j by (cases j) (simp_all add: add_event_def)
  have fresh: "\<not> keys_at (lp_events p) k i" for i using assms(1,2) unfolding live_ok_def by (metis option.distinct(1))
  have none: "\<not> keys_at (lp_events p) j (length (lp_events p))" for j by (simp add: keys_at_def)
  show ?thesis
    using assms(1,3) fresh none unfolding live_ok_def pos
    by (auto simp: position_index_event add_event_def keys_at_append)
qed

lemma replace_keyed_ok:
  assumes "live_ok p" and "position p k = Some i" and "event_key e = Some k"
  shows "\<exists>p'. set_event i e p = Some p' \<and> live_ok p' \<and> lp_events p' = (lp_events p)[i := e]"
proof -
  have at: "keys_at (lp_events p) k i" using assms(1,2) by (simp add: live_ok_def)
  then have i: "i < length (lp_events p)" by (simp add: keys_at_def)
  let ?p = "p\<lparr>lp_events := (lp_events p)[i := e]\<rparr>"
  have pos: "position ?p j = position p j" for j by (cases j) simp_all
  have "keys_at ((lp_events p)[i := e]) j n \<longleftrightarrow> keys_at (lp_events p) j n" for j n
    unfolding keys_at_update[OF i] using at assms(3) by (auto simp: keys_at_def)
  with assms(1) have "live_ok ?p" unfolding live_ok_def pos by simp
  with i show ?thesis by (simp add: set_event_def)
qed

text \<open>Position and search agree.\<close>

lemma position_has_key: "live_ok p \<Longrightarrow> position p k = None \<longleftrightarrow> \<not> has_key k (lp_events p)"
  unfolding live_ok_def has_key_def keys_at_def list_ex_length by (metis option.distinct(1) option.exhaust)

lemma update_is_replace:
  assumes "live_ok p" and "position p k = Some i"
  shows "(lp_events p)[i := e] = replace_or_add k e (lp_events p)"
proof -
  have at: "keys_at (lp_events p) k j \<longleftrightarrow> j = i" for j using assms unfolding live_ok_def by (metis option.inject)
  have "has_key k (lp_events p)" using position_has_key[OF assms(1), of k] assms(2) by auto
  moreover have "(lp_events p)[i := e] = map (\<lambda>x. if event_key x = Some k then e else x) (lp_events p)"
  proof (rule nth_equalityI)
    fix j assume "j < length ((lp_events p)[i := e])"
    then show "(lp_events p)[i := e] ! j = map (\<lambda>x. if event_key x = Some k then e else x) (lp_events p) ! j"
      using at[of j] by (cases "j = i") (simp_all add: keys_at_def)
  qed simp
  ultimately show ?thesis by (simp add: replace_or_add_def)
qed

lemma add_is_replace: "live_ok p \<Longrightarrow> position p k = None \<Longrightarrow> lp_events p @ [e] = replace_or_add k e (lp_events p)"
  by (simp add: replace_or_add_def position_has_key)

lemma complete_step:
  assumes ok: "live_ok p" and e: "event_key e = None"
  shows "\<exists>p'. apply_segment_complete kind seg e p = Some p' \<and> live_ok p'
    \<and> lp_events p' = replace_or_add (KSegment (segment_key_of kind seg e)) e (lp_events p)"
proof (cases "lp_segments p (segment_key_of kind seg e)")
  case None
  then have none: "position p (KSegment (segment_key_of kind seg e)) = None" by simp
  have "p\<lparr>lp_segments := (lp_segments p)(segment_key_of kind seg e := None)\<rparr> = p" using None by (simp add: fun_upd_idem)
  with None add_keyless_ok[OF ok e] add_is_replace[OF ok none, of e] show ?thesis
    by (simp add: apply_segment_complete_def Let_def add_event_def)
next
  case (Some i)
  then have pos: "position p (KSegment (segment_key_of kind seg e)) = Some i" by simp
  then have i: "i < length (lp_events p)" unfolding live_okD[OF ok] keys_at_def by simp
  have once: "keys_once ((lp_events p)[i := e])"
    using live_ok_once[OF ok] e unfolding keys_once_def keys_at_update[OF i] by (auto split: if_splits)
  let ?p = "p\<lparr>lp_segments := (lp_segments p)(segment_key_of kind seg e := None), lp_events := (lp_events p)[i := e]\<rparr>"
  have "apply_segment_complete kind seg e p = Some (rebuild_indexes ?p)"
    using Some i by (simp add: apply_segment_complete_def Let_def set_event_def)
  moreover have "live_ok (rebuild_indexes ?p)" using once by (intro live_ok_rebuild) simp
  ultimately show ?thesis using update_is_replace[OF ok pos, of e] by simp
qed

lemma keys_once_Cons:
  "keys_once (x # es) \<longleftrightarrow> keys_once es \<and> (\<forall>k. event_key x = Some k \<longrightarrow> \<not> has_key k es)"
proof -
  have 0: "keys_at (x # es) k 0 \<longleftrightarrow> event_key x = Some k" for k by (simp add: keys_at_def)
  have Suc: "keys_at (x # es) k (Suc j) \<longleftrightarrow> keys_at es k j" for k j by (simp add: keys_at_def)
  have has: "has_key k es \<longleftrightarrow> (\<exists>j. keys_at es k j)" for k by (auto simp: has_key_def keys_at_def list_ex_length)
  show ?thesis
  proof
    assume once: "keys_once (x # es)"
    have "i = j" if "keys_at es k i" "keys_at es k j" for k i j
      using once that Suc unfolding keys_once_def by (metis nat.inject)
    moreover have "\<not> keys_at es k j" if "event_key x = Some k" for k j
      using once that 0 Suc unfolding keys_once_def by (metis nat.distinct(1))
    ultimately show "keys_once es \<and> (\<forall>k. event_key x = Some k \<longrightarrow> \<not> has_key k es)"
      unfolding has keys_once_def by blast
  next
    assume a: "keys_once es \<and> (\<forall>k. event_key x = Some k \<longrightarrow> \<not> has_key k es)"
    show "keys_once (x # es)"
      unfolding keys_once_def
    proof (intro allI impI)
      fix k i j assume at: "keys_at (x # es) k i" "keys_at (x # es) k j"
      have first: "\<not> keys_at es k n" if "keys_at (x # es) k 0" for n using a that by (auto simp: 0 has)
      show "i = j"
      proof (cases i)
        case 0
        with at first show ?thesis by (cases j) (simp_all add: Suc)
      next
        case i: (Suc m)
        with at first obtain n where n: "j = Suc n" by (cases j) (auto simp: Suc)
        from at a show ?thesis unfolding i n Suc keys_once_def by blast
      qed
    qed
  qed
qed

lemma keys_once_filter: "keys_once es \<Longrightarrow> keys_once (filter q es)"
proof (induction es)
  case (Cons x es)
  have "has_key k es" if "has_key k (filter q es)" for k using that by (auto simp: has_key_def list_ex_iff)
  with Cons show ?case by (auto simp: keys_once_Cons)
qed simp

text \<open>The operations that index their event all have one form.\<close>

definition place_event :: "agent_event \<Rightarrow> nat option \<Rightarrow> live_projection \<Rightarrow> live_projection option" where
  "place_event e site p =
    (case site of None \<Rightarrow> Some (add_event e (index_event (length (lp_events p)) e p)) | Some i \<Rightarrow> set_event i e p)"

lemma place_event_eqs:
  "ev_body e = TextDelta s d t \<Longrightarrow> apply_segment ''text'' s e p = place_event e (position p (KSegment (segment_key_of ''text'' s e))) p"
  "ev_body e = ThinkingDelta s d t \<Longrightarrow>
     apply_segment ''thinking'' s e p = place_event e (position p (KSegment (segment_key_of ''thinking'' s e))) p"
  "ev_body e = ToolCall c n a \<Longrightarrow> apply_tool_call c e p = place_event e (position p (KCall (call_key_of c e))) p"
  "ev_body e = ToolResult c x y \<Longrightarrow> apply_tool_result c e p = place_event e (position p (KResult (call_key_of c e))) p"
  "ev_body e = SubagentTask r b1 b2 b3 b4 b5 b6 b7 b8 b9 b10 \<Longrightarrow> apply_subagent r e p = place_event e (position p (KSubagent r)) p"
  by (simp_all add: apply_segment_def apply_tool_call_def apply_tool_result_def apply_subagent_def place_event_def
      index_event_def split: option.split)

text \<open>A keyed event, whichever dictionary its key belongs to.\<close>

lemma keyed_step:
  assumes "live_ok p" and "event_key e = Some k"
  shows "\<exists>p'. place_event e (position p k) p = Some p' \<and> live_ok p' \<and> lp_events p' = replace_or_add k e (lp_events p)"
proof (cases "position p k")
  case None
  with add_keyed_ok[OF assms(1) None assms(2)] add_is_replace[OF assms(1) None, of e] show ?thesis
    by (simp add: add_event_def place_event_def)
next
  case (Some i)
  with replace_keyed_ok[OF assms(1) Some assms(2)] update_is_replace[OF assms(1) Some, of e] show ?thesis
    by (simp add: place_event_def)
qed

lemma live_apply_step:
  assumes ok: "live_ok p"
  shows "\<exists>p'. live_apply e p = Some p' \<and> live_ok p' \<and> lp_events p' = reference_apply e (lp_events p)"
proof (cases "event_key e")
  case (Some k)
  with keyed_step[OF ok Some] show ?thesis
    by (auto simp: event_key_def live_apply_def reference_apply_def place_event_eqs split: event_body.splits)
next
  case None
  note key_free = add_keyless_ok[OF ok None] complete_step[OF ok None]
  show ?thesis
  proof (cases "is_run_state (ev_body e)")
    case True
    then have "keys_once (e # filter (\<lambda>x. \<not> is_run_state (ev_body x)) (lp_events p))"
      using None keys_once_filter[OF live_ok_once[OF ok]] by (simp add: keys_once_Cons)
    with True show ?thesis
      by (cases "ev_body e") (auto simp: live_apply_def reference_apply_def intro: live_ok_rebuild)
  next
    case False
    with None ok key_free show ?thesis
      by (cases "ev_body e") (simp_all add: live_apply_def reference_apply_def event_key_def add_event_def)
  qed
qed

text \<open>What the runtime does with the projection: apply an event, or reset it to a run state.\<close>

datatype live_op = LApply agent_event | LReset agent_event

fun live_exec :: "live_op \<Rightarrow> live_projection option \<Rightarrow> live_projection option" where
  "live_exec (LApply e) s = Option.bind s (live_apply e)"
| "live_exec (LReset e) s = map_option (live_reset e) s"

definition live_run :: "live_op list \<Rightarrow> live_projection option" where
  "live_run ops = fold live_exec ops (Some no_live_events)"

fun reference_exec :: "live_op \<Rightarrow> agent_event list \<Rightarrow> agent_event list" where
  "reference_exec (LApply e) es = reference_apply e es"
| "reference_exec (LReset e) es = [e]"

text \<open>Resets carry a run state, as \<^verbatim>\<open>_publish_run_state\<close> makes them.\<close>

fun op_ok :: "live_op \<Rightarrow> bool" where
  "op_ok (LApply e) \<longleftrightarrow> True"
| "op_ok (LReset e) \<longleftrightarrow> is_run_state (ev_body e)"

lemma live_reset_ok: "is_run_state (ev_body e) \<Longrightarrow> live_ok (live_reset e p)"
proof -
  assume "is_run_state (ev_body e)"
  then have "event_key e = None" by (cases "ev_body e") (simp_all add: event_key_def)
  then show ?thesis
    by (auto simp: live_ok_def live_reset_def position_clear keys_at_def) (simp add: clear_indexes_def)
qed

lemma live_run_steps:
  assumes "list_all op_ok ops" and "live_ok p"
  shows "\<exists>p'. fold live_exec ops (Some p) = Some p' \<and> live_ok p' \<and> lp_events p' = fold reference_exec ops (lp_events p)"
  using assms
proof (induction ops arbitrary: p)
  case (Cons x ops)
  show ?case
  proof (cases x)
    case (LApply e)
    from live_apply_step[OF Cons.prems(2), of e] obtain p' where p': "live_apply e p = Some p'" "live_ok p'"
      "lp_events p' = reference_apply e (lp_events p)" by blast
    from Cons.IH[of p'] Cons.prems(1) p' LApply show ?thesis by simp
  next
    case (LReset e)
    with Cons.prems have "live_ok (live_reset e p)" by (intro live_reset_ok) simp
    from Cons.IH[OF _ this] Cons.prems(1) LReset show ?thesis
      by (simp add: live_reset_def clear_indexes_def)
  qed
qed simp

lemma no_live_events_ok: "live_ok no_live_events"
proof -
  have "position no_live_events k = None" for k by (cases k) (simp_all add: no_live_events_def)
  then show ?thesis by (simp add: live_ok_def keys_at_def no_live_events_def)
qed

text \<open>C22. The indexed projection is the reference one: for every sequence of events and resets no
  index is out of range, the events shown are exactly those of the list searched by key, every
  dictionary entry is the position of its key, and no call, result, sub-agent or open segment is
  shown twice.\<close>

theorem live_projection_is_reference:
  assumes "list_all op_ok ops"
  shows "\<exists>p. live_run ops = Some p \<and> live_snapshot None p = fold reference_exec ops []
    \<and> (\<forall>k i. position p k = Some i \<longleftrightarrow> i < length (lp_events p) \<and> event_key (lp_events p ! i) = Some k)
    \<and> (\<forall>i j. i < length (lp_events p) \<and> j < length (lp_events p) \<and> event_key (lp_events p ! i) \<noteq> None
          \<and> event_key (lp_events p ! i) = event_key (lp_events p ! j) \<longrightarrow> i = j)"
proof -
  obtain p where run: "live_run ops = Some p" and ok: "live_ok p" and ref: "lp_events p = fold reference_exec ops []"
    using live_run_steps[OF assms no_live_events_ok] by (auto simp: live_run_def no_live_events_def)
  have once: "\<forall>i j. i < length (lp_events p) \<and> j < length (lp_events p) \<and> event_key (lp_events p ! i) \<noteq> None
          \<and> event_key (lp_events p ! i) = event_key (lp_events p ! j) \<longrightarrow> i = j"
    using live_ok_once[OF ok] unfolding keys_once_def keys_at_def by (metis option.exhaust)
  have at: "\<forall>k i. position p k = Some i \<longleftrightarrow> i < length (lp_events p) \<and> event_key (lp_events p ! i) = Some k"
    using ok unfolding live_ok_def keys_at_def .
  have "live_snapshot None p = fold reference_exec ops []" using ref by (simp add: live_snapshot_def)
  with run at once show ?thesis by blast
qed

lemma live_projection_is_reference_witness:
  "\<exists>p. live_run [LReset (sample_event (RunState True)), LApply (sample_event (TextDelta ''s'' ''a'' ''a'')),
      LApply (sample_event (ToolCall ''c'' ''n'' [])), LApply (sample_event (TextComplete ''s'' ''ab''))] = Some p
    \<and> live_snapshot None p = [sample_event (RunState True), sample_event (TextComplete ''s'' ''ab''),
        sample_event (ToolCall ''c'' ''n'' [])]"
proof -
  let ?ops = "[LReset (sample_event (RunState True)), LApply (sample_event (TextDelta ''s'' ''a'' ''a'')),
      LApply (sample_event (ToolCall ''c'' ''n'' [])), LApply (sample_event (TextComplete ''s'' ''ab''))]"
  have "list_all op_ok ?ops" by (simp add: sample_event_def)
  moreover have "fold reference_exec ?ops [] = [sample_event (RunState True), sample_event (TextComplete ''s'' ''ab''),
        sample_event (ToolCall ''c'' ''n'' [])]"
    by (simp add: reference_apply_def sample_event_def event_key_def replace_or_add_def has_key_def segment_key_of_def)
  ultimately show ?thesis using live_projection_is_reference[of ?ops] by auto
qed

end
