(* ===== verification/Event_Log.thy ===== *)
theory Event_Log
  imports Live_Projection
begin

text \<open>
  The durable timeline of a session, \<^verbatim>\<open>src/service/agent/event_log.py\<close> over the table of
  \<^verbatim>\<open>src/model/agent/event_log.py\<close>: upserts that keep the first sequence number of a key, the head a
  session resumes from, and the pages a client reads backwards, extended to the start of a turn.
\<close>

record log_row =
  lr_session :: string
  lr_seq :: int
  lr_key :: string
  lr_payload :: string
  lr_created_at :: datetime

type_synonym log_value = "string \<times> int \<times> string \<times> datetime"

definition row_at :: "string \<Rightarrow> string \<Rightarrow> log_row \<Rightarrow> bool" where
  "row_at session k r \<longleftrightarrow> lr_session r = session \<and> lr_key r = k"

text \<open>One row of the \<^verbatim>\<open>INSERT ... ON CONFLICT DO UPDATE\<close>: SQLite takes the rows of the statement in
  order.\<close>

fun upsert_row :: "string \<Rightarrow> log_value \<Rightarrow> log_row list \<Rightarrow> log_row list" where
  "upsert_row session (k, seq, payload, at) db =
    (if list_ex (row_at session k) db
     then update_rows (row_at session k) (\<lambda>r. r\<lparr>lr_payload := payload, lr_created_at := at\<rparr>) db
     else db @ [\<lparr>lr_session = session, lr_seq = seq, lr_key = k, lr_payload = payload, lr_created_at = at\<rparr>])"

definition upsert_timeline_events :: "string \<Rightarrow> log_value list \<Rightarrow> log_row list \<Rightarrow> log_row list" where
  "upsert_timeline_events session values db = fold (upsert_row session) values db"

definition session_rows :: "string \<Rightarrow> log_row list \<Rightarrow> log_row list" where
  "session_rows session db = filter (\<lambda>r. lr_session r = session) db"

definition max_int :: "int \<Rightarrow> int list \<Rightarrow> int" where
  "max_int d xs = (if xs = [] then d else fold max (tl xs) (hd xs))"

definition load_timeline_head :: "string \<Rightarrow> log_row list \<Rightarrow> int \<times> (string \<times> int) list" where
  "load_timeline_head session db =
    (let item_seq = fold (\<lambda>r d. AList.update (lr_key r) (lr_seq r) d) (session_rows session db) []
     in (max_int 0 (map snd item_seq), item_seq))"

text \<open>The sub-agent event of a session that is not pooled; \<open>dump\<close> is \<^verbatim>\<open>model_dump_json\<close>.\<close>

definition persist_subagent_event_unpooled ::
  "(agent_event \<Rightarrow> string) \<Rightarrow> string \<Rightarrow> agent_event \<Rightarrow> log_row list \<Rightarrow> agent_event \<times> log_row list" where
  "persist_subagent_event_unpooled dump session e db =
    (let run_id = (case ev_body e of SubagentTask r _ _ _ _ _ _ _ _ _ _ \<Rightarrow> r | _ \<Rightarrow> []) in
     if run_id = [] then (e, db)
     else let k = ''sa:'' @ run_id;
              seq = (case List.find (row_at session k) db of
                       Some r \<Rightarrow> lr_seq r
                     | None \<Rightarrow> max_int 0 (map lr_seq (session_rows session db)) + 1);
              e = e\<lparr>ev_seq := seq\<rparr>
          in (e, upsert_row session (k, seq, dump e, ev_created_at e) db))"

section \<open>Pages\<close>

definition user_message_key_prefix :: string where
  "user_message_key_prefix = ''user_message:''"

text \<open>\<^verbatim>\<open>LIKE 'user_message:%'\<close>: the underscore stands for any character and ASCII letters match in
  either case.\<close>

definition like_user_message :: "string \<Rightarrow> bool" where
  "like_user_message k \<longleftrightarrow> length user_message_key_prefix \<le> length k
     \<and> list_all2 (\<lambda>p c. p = CHR ''_'' \<or> p = ascii_lower c) user_message_key_prefix (take (length user_message_key_prefix) k)"

definition starts_turn :: "string \<Rightarrow> bool" where
  "starts_turn k \<longleftrightarrow> take (length user_message_key_prefix) k = user_message_key_prefix"

lemma starts_turn_like: "starts_turn k \<Longrightarrow> like_user_message k"
proof -
  assume a: "starts_turn k"
  have self: "list_all2 (\<lambda>p c. p = CHR ''_'' \<or> p = ascii_lower c) user_message_key_prefix user_message_key_prefix"
    by (simp add: user_message_key_prefix_def ascii_lower_def)
  have "length (take (length user_message_key_prefix) k) = length user_message_key_prefix"
    using a by (simp add: starts_turn_def)
  then have "length user_message_key_prefix \<le> length k" by simp
  with a self show ?thesis by (simp add: like_user_message_def starts_turn_def)
qed

definition before_cursor :: "int option \<Rightarrow> log_row \<Rightarrow> bool" where
  "before_cursor before r \<longleftrightarrow> (case before of None \<Rightarrow> True | Some b \<Rightarrow> lr_seq r < b)"

text \<open>The rows of the page in ascending order.  \<^verbatim>\<open>ORDER BY seq\<close> is a stable sort; the sequence numbers
  of a session are distinct, so no tie is left to the database.\<close>

definition latest_rows :: "int option \<Rightarrow> int \<Rightarrow> log_row list \<Rightarrow> log_row list" where
  "latest_rows before limit rows =
     rev (take (nat (max 1 limit)) (rev (sort_key lr_seq (filter (before_cursor before) rows))))"

definition turn_start_before :: "int \<Rightarrow> log_row list \<Rightarrow> int option" where
  "turn_start_before first rows =
    (case filter (\<lambda>r. lr_seq r < first \<and> like_user_message (lr_key r)) rows of
       [] \<Rightarrow> None | rs \<Rightarrow> Some (max_int 0 (map lr_seq rs)))"

definition extend_to_turn :: "log_row list \<Rightarrow> log_row list \<Rightarrow> log_row list" where
  "extend_to_turn rows page =
    (if starts_turn (lr_key (hd page)) then page
     else case turn_start_before (lr_seq (hd page)) rows of
         None \<Rightarrow> page
       | Some start \<Rightarrow>
           if start < lr_seq (hd page)
           then sort_key lr_seq (filter (\<lambda>r. start \<le> lr_seq r \<and> lr_seq r < lr_seq (hd page)) rows) @ page
           else page)"

text \<open>\<open>loads\<close> is \<^verbatim>\<open>json.loads\<close>, \<^const>\<open>None\<close> where it raises: such a row, and one whose payload is not an
  object, is left out.\<close>

definition page_item :: "(string \<Rightarrow> json option) \<Rightarrow> log_row \<Rightarrow> (int \<times> dict) option" where
  "page_item loads r = (case loads (lr_payload r) of Some (JObj d) \<Rightarrow> Some (lr_seq r, d) | _ \<Rightarrow> None)"

definition fetch_timeline_page ::
  "(string \<Rightarrow> json option) \<Rightarrow> string \<Rightarrow> int option \<Rightarrow> int \<Rightarrow> log_row list \<Rightarrow> (int \<times> dict) list \<times> bool \<times> int option" where
  "fetch_timeline_page loads session before limit db =
    (let rows = session_rows session db;
         page = latest_rows before limit rows in
     if page = [] then ([], False, None)
     else let page = extend_to_turn rows page;
              first = lr_seq (hd page);
              has_more = list_ex (\<lambda>r. lr_seq r < first) rows
          in (List.map_filter (page_item loads) page, has_more, if has_more then Some first else None))"

section \<open>What an upsert changes\<close>

definition keys_of :: "log_row list \<Rightarrow> (string \<times> string) list" where
  "keys_of db = map (\<lambda>r. (lr_session r, lr_key r)) db"

definition identity_of :: "log_row \<Rightarrow> string \<times> string \<times> int" where
  "identity_of r = (lr_session r, lr_key r, lr_seq r)"

lemma identities_upsert_row:
  "map identity_of (upsert_row s (k, n, x, at) db) =
    map identity_of db @ (if list_ex (row_at s k) db then [] else [(s, k, n)])"
proof -
  have "map identity_of (update_rows (row_at s k) (\<lambda>r. r\<lparr>lr_payload := x, lr_created_at := at\<rparr>) db) = map identity_of db"
    by (rule map_update_rows_same) (simp add: identity_of_def)
  then show ?thesis by (simp add: identity_of_def)
qed

lemma upsert_timeline_Nil [simp]: "upsert_timeline_events s [] db = db"
  by (simp add: upsert_timeline_events_def)

lemma upsert_timeline_append:
  "upsert_timeline_events s (xs @ ys) db = upsert_timeline_events s ys (upsert_timeline_events s xs db)"
  by (simp add: upsert_timeline_events_def)

lemma update_row_at_commute:
  assumes "k \<noteq> k'"
  shows "update_rows (row_at s k) (\<lambda>r. r\<lparr>lr_payload := x, lr_created_at := a\<rparr>)
      (update_rows (row_at s k') (\<lambda>r. r\<lparr>lr_payload := y, lr_created_at := b\<rparr>) db) =
    update_rows (row_at s k') (\<lambda>r. r\<lparr>lr_payload := y, lr_created_at := b\<rparr>)
      (update_rows (row_at s k) (\<lambda>r. r\<lparr>lr_payload := x, lr_created_at := a\<rparr>) db)"
  using assms by (simp add: update_rows_def row_at_def)

lemma upsert_has: "list_ex (row_at s k) (upsert_row s (k', n, x, at) db) \<longleftrightarrow> k = k' \<or> list_ex (row_at s k) db"
proof -
  have has: "list_ex (row_at s k) db \<longleftrightarrow> (\<exists>n. (s, k, n) \<in> set (map identity_of db))" for db k
    by (auto simp: list_ex_iff row_at_def identity_of_def image_iff)
  show ?thesis unfolding has identities_upsert_row by auto
qed

section \<open>A page is the end of what lies before the cursor\<close>

definition in_order :: "log_row list \<Rightarrow> bool" where
  "in_order rows \<longleftrightarrow> sorted_wrt (\<lambda>a b. lr_seq a < lr_seq b) rows"

lemma in_order_sorted: "distinct (map lr_seq rows) \<Longrightarrow> in_order (sort_key lr_seq rows)"
proof -
  assume "distinct (map lr_seq rows)"
  then have "distinct (map lr_seq (sort_key lr_seq rows))"
    by (simp add: distinct_map)
  moreover have "sorted (map lr_seq (sort_key lr_seq rows))" by simp
  ultimately have "sorted_wrt (<) (map lr_seq (sort_key lr_seq rows))" by (simp add: strict_sorted_iff)
  then show ?thesis by (simp add: in_order_def sorted_wrt_map)
qed

lemma filter_before_head:
  assumes "in_order (xs @ y # ys)"
  shows "filter (\<lambda>r. lr_seq r < lr_seq y) (xs @ y # ys) = xs"
proof -
  have "\<forall>x\<in>set xs. lr_seq x < lr_seq y" "\<forall>z\<in>set ys. lr_seq y < lr_seq z"
    using assms by (auto simp: in_order_def sorted_wrt_append)
  then show ?thesis by (auto simp: filter_id_conv filter_empty_conv)
qed

lemma filter_cursor_prefix:
  assumes "in_order rows"
  shows "\<exists>zs. rows = filter (\<lambda>r. lr_seq r < b) rows @ zs"
  using assms
proof (induction rows)
  case (Cons r rows)
  show ?case
  proof (cases "lr_seq r < b")
    case True
    with Cons show ?thesis by (auto simp: in_order_def)
  next
    case False
    with Cons.prems have "filter (\<lambda>r. lr_seq r < b) rows = []" by (auto simp: in_order_def filter_empty_conv)
    with False show ?thesis by simp
  qed
qed simp

lemma in_order_filter: "in_order rows \<Longrightarrow> in_order (filter p rows)"
  by (simp add: in_order_def sorted_wrt_filter)

lemma latest_rows_suffix:
  "\<exists>xs. sort_key lr_seq (filter (before_cursor before) rows) = xs @ latest_rows before limit rows"
proof -
  let ?L = "sort_key lr_seq (filter (before_cursor before) rows)"
  have "latest_rows before limit rows = drop (length ?L - nat (max 1 limit)) ?L"
    by (simp add: latest_rows_def take_rev)
  then show ?thesis by (metis append_take_drop_id)
qed

lemma latest_rows_Nil: "latest_rows before limit rows = [] \<longleftrightarrow> filter (before_cursor before) rows = []"
proof -
  have "sort_key lr_seq (filter (before_cursor before) rows) = [] \<longleftrightarrow> filter (before_cursor before) rows = []"
    by (metis length_0_conv length_sort)
  then show ?thesis by (simp add: latest_rows_def)
qed

lemma max_int_Max: "xs \<noteq> [] \<Longrightarrow> max_int d xs = Max (set xs)"
  by (cases xs) (simp_all add: max_int_def Max.set_eq_fold[symmetric] del: Max_insert)

lemma max_int_ge: "x \<in> set xs \<Longrightarrow> x \<le> max_int d xs"
  using max_int_Max[of xs d] by (cases xs) auto

lemma max_int_in: "xs \<noteq> [] \<Longrightarrow> max_int d xs \<in> set xs"
  using max_int_Max[of xs d] Max_in[of "set xs"] by simp

lemma split_at_head:
  assumes order: "in_order rows" and split: "filter (before_cursor before) rows = xs @ p # ps"
  shows "before_cursor before p \<and> xs = filter (\<lambda>r. lr_seq r < lr_seq p) rows"
proof -
  have "p \<in> set (filter (before_cursor before) rows)" by (simp add: split)
  then have p: "before_cursor before p" by simp
  then have below: "(before_cursor before r \<and> lr_seq r < lr_seq p) \<longleftrightarrow> lr_seq r < lr_seq p" for r
    by (auto simp: before_cursor_def split: option.splits)
  have "in_order (xs @ p # ps)" using in_order_filter[OF order, of "before_cursor before"] by (simp add: split)
  then have "filter (\<lambda>r. lr_seq r < lr_seq p) (filter (before_cursor before) rows) = xs"
    unfolding split by (rule filter_before_head)
  with p show ?thesis by (simp add: below)
qed

text \<open>What lies between the turn start and the page joins them without a gap.\<close>

lemma extend_suffix:
  assumes order: "in_order (sort_key lr_seq rows)" and page: "page \<noteq> []"
    and split: "sort_key lr_seq (filter (before_cursor before) rows) = xs @ page"
  shows "\<exists>ys. sort_key lr_seq (filter (before_cursor before) rows) = ys @ extend_to_turn rows page"
proof (cases "turn_start_before (lr_seq (hd page)) rows")
  case None
  with split show ?thesis by (auto simp: extend_to_turn_def)
next
  case (Some start)
  let ?L = "sort_key lr_seq rows"
  let ?first = "lr_seq (hd page)"
  obtain p ps where ps: "page = p # ps" using page by (cases page) auto
  have "filter (before_cursor before) ?L = xs @ p # ps" using split ps by (simp add: filter_sort)
  from split_at_head[OF order this] have xs: "xs = filter (\<lambda>r. lr_seq r < ?first) ?L" by (simp add: ps)
  have "in_order xs" unfolding xs by (rule in_order_filter[OF order])
  then obtain zs where zs: "xs = filter (\<lambda>r. lr_seq r < start) xs @ zs" using filter_cursor_prefix by blast
  have "in_order (filter (\<lambda>r. lr_seq r < start) xs @ zs)" using \<open>in_order xs\<close> zs by simp
  then have "zs = filter (\<lambda>r. start \<le> lr_seq r) xs"
  proof -
    have "filter (\<lambda>r. start \<le> lr_seq r) (filter (\<lambda>r. lr_seq r < start) xs) = []" by (simp add: filter_empty_conv)
    moreover have "filter (\<lambda>r. start \<le> lr_seq r) zs = zs"
    proof (rule filter_True, rule ballI, rule ccontr)
      fix z assume z: "z \<in> set zs" "\<not> start \<le> lr_seq z"
      have "filter (\<lambda>r. lr_seq r < start) xs = filter (\<lambda>r. lr_seq r < start) xs @ filter (\<lambda>r. lr_seq r < start) zs"
        using arg_cong[OF zs, of "filter (\<lambda>r. lr_seq r < start)"] by simp
      then have "filter (\<lambda>r. lr_seq r < start) zs = []" by simp
      with z show False by (auto simp: filter_empty_conv)
    qed
    ultimately show ?thesis using arg_cong[OF zs, of "filter (\<lambda>r. start \<le> lr_seq r)"] by simp
  qed
  then have "zs = sort_key lr_seq (filter (\<lambda>r. start \<le> lr_seq r \<and> lr_seq r < ?first) rows)"
    unfolding xs filter_sort[symmetric] filter_filter by (simp add: conj.commute)
  with zs split Some show ?thesis by (auto simp: extend_to_turn_def)
qed

lemma extend_nonempty: "page \<noteq> [] \<Longrightarrow> extend_to_turn rows page \<noteq> []"
  by (auto simp: extend_to_turn_def split: option.split)

text \<open>Everything the page leaves is what lies before its first row.\<close>

lemma page_split:
  assumes order: "in_order (sort_key lr_seq rows)" and some: "filter (before_cursor before) rows \<noteq> []"
    and page: "page = extend_to_turn rows (latest_rows before limit rows)"
  shows "page \<noteq> [] \<and> before_cursor before (hd page) \<and> sort_key lr_seq (filter (before_cursor before) rows)
      = sort_key lr_seq (filter (\<lambda>r. lr_seq r < lr_seq (hd page)) rows) @ page"
proof -
  let ?L = "sort_key lr_seq rows"
  let ?latest = "latest_rows before limit rows"
  have latest: "?latest \<noteq> []" using some latest_rows_Nil by blast
  obtain xs where xs: "sort_key lr_seq (filter (before_cursor before) rows) = xs @ ?latest" using latest_rows_suffix by blast
  obtain ys where ys: "sort_key lr_seq (filter (before_cursor before) rows) = ys @ page"
    using extend_suffix[OF order latest xs] page by blast
  have "page \<noteq> []" using extend_nonempty[OF latest] page by simp
  then obtain p ps where ps: "page = p # ps" by (cases page) auto
  have "filter (before_cursor before) ?L = ys @ p # ps" using ys ps by (simp add: filter_sort)
  from split_at_head[OF order this] have "before_cursor before p" "ys = sort_key lr_seq (filter (\<lambda>r. lr_seq r < lr_seq p) rows)"
    by (simp_all add: filter_sort)
  with ys ps show ?thesis by simp
qed

section \<open>Reading the whole log back\<close>

text \<open>The client: the newest page, then the page before its cursor as long as there is more.\<close>

fun read_back ::
  "(string \<Rightarrow> json option) \<Rightarrow> string \<Rightarrow> int \<Rightarrow> log_row list \<Rightarrow> nat \<Rightarrow> int option \<Rightarrow> (int \<times> dict) list" where
  "read_back loads session limit db fuel before =
    (case fetch_timeline_page loads session before limit db of (items, again, next) \<Rightarrow>
       (case fuel of 0 \<Rightarrow> items
        | Suc n \<Rightarrow> if again then read_back loads session limit db n next @ items else items))"

declare read_back.simps [simp del]

lemma map_filter_append: "List.map_filter f (xs @ ys) = List.map_filter f xs @ List.map_filter f ys"
  by (simp add: map_filter_def)

lemma before_cursor_Some: "before_cursor (Some b) = (\<lambda>r. lr_seq r < b)"
  by (simp add: fun_eq_iff before_cursor_def)

lemma read_back_all:
  assumes order: "in_order (sort_key lr_seq (session_rows session db))"
    and fuel: "length (filter (before_cursor before) (session_rows session db)) \<le> fuel"
  shows "read_back loads session limit db fuel before =
    List.map_filter (page_item loads) (sort_key lr_seq (filter (before_cursor before) (session_rows session db)))"
  using fuel
proof (induction fuel arbitrary: before)
  case 0
  then have "filter (before_cursor before) (session_rows session db) = []" by simp
  moreover from this have "latest_rows before limit (session_rows session db) = []" by (simp only: latest_rows_Nil)
  ultimately show ?case by (simp add: read_back.simps fetch_timeline_page_def map_filter_def)
next
  case (Suc n)
  let ?rows = "session_rows session db"
  let ?page = "extend_to_turn ?rows (latest_rows before limit ?rows)"
  show ?case
  proof (cases "filter (before_cursor before) ?rows = []")
    case True
    then have "latest_rows before limit ?rows = []" by (simp only: latest_rows_Nil)
    with True show ?thesis by (simp add: read_back.simps fetch_timeline_page_def map_filter_def)
  next
    case False
    let ?rest = "filter (\<lambda>r. lr_seq r < lr_seq (hd ?page)) ?rows"
    have latest: "latest_rows before limit ?rows \<noteq> []" using False latest_rows_Nil by blast
    have split: "?page \<noteq> []" "sort_key lr_seq (filter (before_cursor before) ?rows) = sort_key lr_seq ?rest @ ?page"
      using page_split[OF order False refl] by simp_all
    have rest: "?rest = filter (before_cursor (Some (lr_seq (hd ?page)))) ?rows" by (simp only: before_cursor_Some)
    have "length (sort_key lr_seq ?rest) < length (sort_key lr_seq (filter (before_cursor before) ?rows))"
      using split by (simp del: length_sort)
    then have "length (filter (before_cursor (Some (lr_seq (hd ?page)))) ?rows) \<le> n" using Suc.prems rest by simp
    note IH = Suc.IH[OF this]
    show ?thesis
    proof (cases "list_ex (\<lambda>r. lr_seq r < lr_seq (hd ?page)) ?rows")
      case True
      with latest IH show ?thesis
        unfolding split(2) rest by (subst read_back.simps) (simp add: fetch_timeline_page_def Let_def map_filter_append)
    next
      case none: False
      then have "?rest = []" by (simp add: list_ex_iff filter_empty_conv)
      with none latest show ?thesis
        unfolding split(2) by (subst read_back.simps) (simp add: fetch_timeline_page_def Let_def)
    qed
  qed
qed

lemma page_starts_turn:
  assumes order: "in_order (sort_key lr_seq rows)" and page: "page \<noteq> []"
  shows "like_user_message (lr_key (hd (extend_to_turn rows page)))
    \<or> (\<forall>r\<in>set rows. lr_seq r < lr_seq (hd (extend_to_turn rows page)) \<longrightarrow> \<not> like_user_message (lr_key r))"
proof (cases "starts_turn (lr_key (hd page))")
  case True
  then show ?thesis by (simp add: extend_to_turn_def starts_turn_like)
next
  case no_start: False
  let ?starts = "filter (\<lambda>r. lr_seq r < lr_seq (hd page) \<and> like_user_message (lr_key r)) rows"
  show ?thesis
  proof (cases "?starts = []")
    case True
    then have "extend_to_turn rows page = page" by (simp add: extend_to_turn_def turn_start_before_def)
    with True show ?thesis by (auto simp: filter_empty_conv)
  next
    case False
    let ?start = "max_int 0 (map lr_seq ?starts)"
    have before: "turn_start_before (lr_seq (hd page)) rows = Some ?start"
      using False by (simp add: turn_start_before_def split: list.split)
    have "?start \<in> set (map lr_seq ?starts)" using False by (intro max_int_in) simp
    then obtain t where t: "t \<in> set rows" "lr_seq t = ?start" "?start < lr_seq (hd page)" "like_user_message (lr_key t)"
      by auto
    let ?gap = "filter (\<lambda>r. ?start \<le> lr_seq r \<and> lr_seq r < lr_seq (hd page)) (sort_key lr_seq rows)"
    have ext: "extend_to_turn rows page = ?gap @ page"
      using no_start before t by (simp add: extend_to_turn_def filter_sort)
    have "t \<in> set ?gap" using t by simp
    then obtain g gs where g: "?gap = g # gs" by (cases ?gap) auto
    then have "g \<in> set ?gap" by simp
    then have g_in: "g \<in> set (sort_key lr_seq rows)" "?start \<le> lr_seq g" by auto
    have "in_order ?gap" by (rule in_order_filter[OF order])
    then have after: "\<forall>x\<in>set gs. lr_seq g < lr_seq x" unfolding g by (simp add: in_order_def)
    have "t = g \<or> t \<in> set gs" using \<open>t \<in> set ?gap\<close> unfolding g by simp
    then have "g = t" using after t(2) g_in(2) by fastforce
    with ext g t(4) show ?thesis by simp
  qed
qed

text \<open>C25. Reading a timeline page by page, newest page first, gives every row of the session exactly
  once and in order, whatever the page size, in at most as many pages as there are rows; and no page
  starts inside a turn: its first row is a user message, or no user message comes before it.\<close>

theorem timeline_pages_cover:
  assumes "distinct (map lr_seq (session_rows session db))"
    and "length (session_rows session db) \<le> fuel"
  shows "read_back loads session limit db fuel None =
      List.map_filter (page_item loads) (sort_key lr_seq (session_rows session db))
    \<and> (\<forall>before page. page = extend_to_turn (session_rows session db) (latest_rows before limit (session_rows session db))
        \<and> filter (before_cursor before) (session_rows session db) \<noteq> [] \<longrightarrow>
          like_user_message (lr_key (hd page))
          \<or> (\<forall>r\<in>set (session_rows session db). lr_seq r < lr_seq (hd page) \<longrightarrow> \<not> like_user_message (lr_key r)))"
proof -
  have order: "in_order (sort_key lr_seq (session_rows session db))" by (rule in_order_sorted[OF assms(1)])
  have all: "filter (before_cursor None) (session_rows session db) = session_rows session db"
    by (simp add: before_cursor_def)
  have "read_back loads session limit db fuel None =
      List.map_filter (page_item loads) (sort_key lr_seq (session_rows session db))"
    using read_back_all[OF order, of None fuel] assms(2) unfolding all by blast
  then show ?thesis using page_starts_turn[OF order] latest_rows_Nil by blast
qed

definition sample_log :: "log_row list" where
  "sample_log = map (\<lambda>(n, k). \<lparr>lr_session = ''s'', lr_seq = n, lr_key = k, lr_payload = ''{}'', lr_created_at = 0\<rparr>)
     [(1, ''user_message:1''), (3, ''tc::c''), (2, ''text::t''), (4, ''user_message:4'')]"

lemma timeline_pages_cover_witness:
  "map fst (read_back (\<lambda>_. Some (JObj [])) ''s'' 2 sample_log 4 None) = [1, 2, 3, 4]"
proof -
  have rows: "session_rows ''s'' sample_log = sample_log" by (simp add: session_rows_def sample_log_def)
  have "distinct (map lr_seq (session_rows ''s'' sample_log))" "length (session_rows ''s'' sample_log) \<le> 4"
    by (simp_all add: rows, simp_all add: sample_log_def)
  from timeline_pages_cover[OF this, of "\<lambda>_. Some (JObj [])" 2]
  have "read_back (\<lambda>_. Some (JObj [])) ''s'' 2 sample_log 4 None =
      List.map_filter (page_item (\<lambda>_. Some (JObj []))) (sort_key lr_seq sample_log)"
    by (simp add: rows)
  then show ?thesis by (simp add: sample_log_def page_item_def map_filter_def)
qed

end
