(* ===== verification/Timeline.thy ===== *)
theory Timeline
  imports Event_Log
begin

text \<open>
  The writer of a session's timeline, \<^verbatim>\<open>TimelineLogWriter\<close> of \<^verbatim>\<open>src/core/runtime/timeline.py\<close>: one
  consumer task that takes rows from a queue, collapses a batch per key and upserts it, and callers
  that enqueue, flush and stop.  The tasks interleave at their awaits, so the writer is a step
  relation whose labels name the coroutine that runs; a step is what a coroutine does between two
  awaits.  The relation starts right after \<^verbatim>\<open>start()\<close> and follows one consumer task to its end.
\<close>

section \<open>Data\<close>

type_synonym timeline_row = log_value

definition row_key :: "timeline_row \<Rightarrow> string" where
  "row_key r = fst r"

text \<open>A barrier is the future of a flush call, named by the call.\<close>

datatype queue_item = QRow timeline_row | QBarrier nat | QStop

text \<open>What the consumer awaits: an item, or the upsert of a batch and then the end of the batch, a
  barrier, the stop marker, or the rows it drained after the stop marker.\<close>

datatype after_write = EndBatch | ThenBarrier nat | ThenDrain | ThenExit "nat list"

datatype consumer = Waiting | Writing "timeline_row list" after_write | Exited

text \<open>What a caller awaits.\<close>

datatype caller = AwaitTask | AwaitBarrier | AwaitTaskThenDrain | CallWrites "timeline_row list" "nat list" | Returned

text \<open>The last three fields are history: every row the writer accepted, every row whose upsert was
  attempted with its outcome, and how many rows had been accepted when a call was made.\<close>

record writer =
  tw_session :: string
  tw_queue :: "queue_item list"
  tw_consumer :: consumer
  tw_stopping :: bool
  tw_resolved :: "nat set"
  tw_calls :: "nat \<rightharpoonup> caller"
  tw_log :: "log_row list"
  tw_accepted :: "timeline_row list"
  tw_attempted :: "(timeline_row \<times> bool) list"
  tw_mark :: "nat \<Rightarrow> nat"

definition tw_started :: "string \<Rightarrow> log_row list \<Rightarrow> writer" where
  "tw_started session db = \<lparr>tw_session = session, tw_queue = [], tw_consumer = Waiting, tw_stopping = False,
     tw_resolved = {}, tw_calls = Map.empty, tw_log = db, tw_accepted = [], tw_attempted = [], tw_mark = \<lambda>_. 0\<rparr>"

definition consumer_alive :: "writer \<Rightarrow> bool" where
  "consumer_alive w \<longleftrightarrow> tw_consumer w \<noteq> Exited"

section \<open>Operations\<close>

text \<open>\<^verbatim>\<open>collapsed[row.item_key] = row\<close> keeps the place of the first row of a key and the row of the
  last.\<close>

definition collapse_rows :: "timeline_row list \<Rightarrow> timeline_row list" where
  "collapse_rows batch = map snd (fold (\<lambda>r d. AList.update (row_key r) r d) batch [])"

text \<open>\<^verbatim>\<open>_flush\<close>: \<open>ok\<close> is whether the upsert returned; when it raised, the exception is logged.\<close>

definition flush_rows :: "bool \<Rightarrow> timeline_row list \<Rightarrow> writer \<Rightarrow> writer" where
  "flush_rows ok batch w =
    w\<lparr>tw_log := (if ok \<and> batch \<noteq> [] then upsert_timeline_events (tw_session w) (collapse_rows batch) (tw_log w) else tw_log w),
      tw_attempted := tw_attempted w @ map (\<lambda>r. (r, ok)) batch\<rparr>"

text \<open>Take items until there is something to await: the loop of \<^verbatim>\<open>_process_batch\<close> and
  \<^verbatim>\<open>_process_item\<close>.\<close>

fun take_items :: "timeline_row list \<Rightarrow> queue_item list \<Rightarrow> timeline_row list \<times> after_write \<times> queue_item list" where
  "take_items rows [] = (rows, EndBatch, [])"
| "take_items rows (QRow r # q) = take_items (rows @ [r]) q"
| "take_items rows (QBarrier b # q) = (rows, ThenBarrier b, q)"
| "take_items rows (QStop # q) = (rows, ThenDrain, q)"

definition process_items :: "writer \<Rightarrow> writer" where
  "process_items w =
    (case take_items [] (tw_queue w) of (rows, k, q) \<Rightarrow> w\<lparr>tw_queue := q, tw_consumer := Writing rows k\<rparr>)"

fun queued_rows :: "queue_item list \<Rightarrow> timeline_row list" where
  "queued_rows [] = []"
| "queued_rows (QRow r # q) = r # queued_rows q"
| "queued_rows (_ # q) = queued_rows q"

fun queued_barriers :: "queue_item list \<Rightarrow> nat list" where
  "queued_barriers [] = []"
| "queued_barriers (QBarrier b # q) = b # queued_barriers q"
| "queued_barriers (_ # q) = queued_barriers q"

definition resolve_barriers :: "nat list \<Rightarrow> writer \<Rightarrow> writer" where
  "resolve_barriers bs w = w\<lparr>tw_resolved := tw_resolved w \<union> set bs\<rparr>"

text \<open>After the upsert.\<close>

fun after_flush :: "after_write \<Rightarrow> writer \<Rightarrow> writer" where
  "after_flush EndBatch w = w\<lparr>tw_consumer := Waiting\<rparr>"
| "after_flush (ThenBarrier b) w = process_items (resolve_barriers [b] w)"
| "after_flush ThenDrain w =
     w\<lparr>tw_queue := [], tw_consumer := Writing (queued_rows (tw_queue w)) (ThenExit (queued_barriers (tw_queue w)))\<rparr>"
| "after_flush (ThenExit bs) w = resolve_barriers bs (w\<lparr>tw_consumer := Exited\<rparr>)"

definition tw_enqueue :: "timeline_row \<Rightarrow> writer \<Rightarrow> bool \<times> writer" where
  "tw_enqueue r w =
    (if tw_stopping w then (False, w)
     else (True, w\<lparr>tw_queue := tw_queue w @ [QRow r], tw_accepted := tw_accepted w @ [r]\<rparr>))"

definition set_call :: "nat \<Rightarrow> caller \<Rightarrow> writer \<Rightarrow> writer" where
  "set_call c x w = w\<lparr>tw_calls := (tw_calls w)(c \<mapsto> x)\<rparr>"

definition mark_call :: "nat \<Rightarrow> writer \<Rightarrow> writer" where
  "mark_call c w = w\<lparr>tw_mark := (tw_mark w)(c := length (tw_accepted w))\<rparr>"

definition drain_remaining :: "nat \<Rightarrow> writer \<Rightarrow> writer" where
  "drain_remaining c w =
    set_call c (CallWrites (queued_rows (tw_queue w)) (queued_barriers (tw_queue w))) (w\<lparr>tw_queue := []\<rparr>)"

definition tw_flush :: "nat \<Rightarrow> writer \<Rightarrow> writer" where
  "tw_flush c w =
    (let w = mark_call c w in
     if tw_stopping w \<and> consumer_alive w then set_call c AwaitTask w
     else if \<not> consumer_alive w then drain_remaining c w
     else set_call c AwaitBarrier (w\<lparr>tw_queue := tw_queue w @ [QBarrier c]\<rparr>))"

definition tw_stop :: "nat \<Rightarrow> writer \<Rightarrow> writer" where
  "tw_stop c w =
    (let w = (mark_call c w)\<lparr>tw_stopping := True\<rparr> in
     if consumer_alive w then set_call c AwaitTaskThenDrain (w\<lparr>tw_queue := tw_queue w @ [QStop]\<rparr>)
     else drain_remaining c w)"

datatype writer_label = LEnqueue timeline_row | LFlush nat | LStop nat | LTake | LWritten bool
  | LResume nat | LCallWritten nat bool

inductive tw_step :: "writer \<Rightarrow> writer_label \<Rightarrow> writer \<Rightarrow> bool" where
  enqueue: "tw_step w (LEnqueue r) (snd (tw_enqueue r w))"
| flush: "tw_calls w c = None \<Longrightarrow> tw_step w (LFlush c) (tw_flush c w)"
| stop: "tw_calls w c = None \<Longrightarrow> tw_step w (LStop c) (tw_stop c w)"
| take: "tw_consumer w = Waiting \<Longrightarrow> tw_queue w \<noteq> [] \<Longrightarrow> tw_step w LTake (process_items w)"
| written: "tw_consumer w = Writing rows k \<Longrightarrow> tw_step w (LWritten ok) (after_flush k (flush_rows ok rows w))"
| task_ended: "tw_calls w c = Some AwaitTask \<Longrightarrow> \<not> consumer_alive w \<Longrightarrow> tw_step w (LResume c) (set_call c Returned w)"
| barrier_resolved: "tw_calls w c = Some AwaitBarrier \<Longrightarrow> c \<in> tw_resolved w \<Longrightarrow> tw_step w (LResume c) (set_call c Returned w)"
| final_drain: "tw_calls w c = Some AwaitTaskThenDrain \<Longrightarrow> \<not> consumer_alive w \<Longrightarrow> tw_step w (LResume c) (drain_remaining c w)"
| call_written: "tw_calls w c = Some (CallWrites rows bs) \<Longrightarrow>
    tw_step w (LCallWritten c ok) (set_call c Returned (resolve_barriers bs (flush_rows ok rows w)))"

inductive tw_reachable :: "string \<Rightarrow> log_row list \<Rightarrow> writer \<Rightarrow> bool" for session db where
  start: "tw_reachable session db (tw_started session db)"
| step: "tw_reachable session db w \<Longrightarrow> tw_step w l w' \<Longrightarrow> tw_reachable session db w'"

inductive_cases tw_stepE: "tw_step w l w'"

section \<open>Collapsing a batch changes nothing\<close>

text \<open>Rows with one key carry one sequence number.\<close>

definition seq_consistent :: "timeline_row list \<Rightarrow> bool" where
  "seq_consistent rows \<longleftrightarrow> (\<forall>a\<in>set rows. \<forall>b\<in>set rows. row_key a = row_key b \<longrightarrow> fst (snd a) = fst (snd b))"

lemma seq_consistent_subset: "seq_consistent xs \<Longrightarrow> set ys \<subseteq> set xs \<Longrightarrow> seq_consistent ys"
  unfolding seq_consistent_def by blast

lemma upsert_row_again:
  "upsert_row s (k, n, y, b) (upsert_row s (k, n', x, a) db) = (upsert_row s (k, n', y, b) db)"
proof -
  have mem: "list_ex (row_at s k) (update_rows (row_at s k) (\<lambda>r. r\<lparr>lr_payload := x, lr_created_at := a\<rparr>) db)"
    if "list_ex (row_at s k) db" for x a
    using upsert_has[of s k k n' x a db] that by simp
  show ?thesis
  proof (cases "list_ex (row_at s k) db")
    case True
    with mem[OF True] show ?thesis by (simp add: update_rows_def row_at_def)
  next
    case False
    then have "update_rows (row_at s k) f db = db" for f by (intro update_rows_id) (auto simp: list_ex_iff)
    with False show ?thesis by (simp add: update_rows_def row_at_def)
  qed
qed

text \<open>An upsert of a key that is present moves before upserts of other keys.\<close>

lemma upsert_row_commute:
  assumes "list_ex (row_at s k) db" and "k \<noteq> k'"
  shows "upsert_row s (k, n, x, a) (upsert_row s (k', n', y, b) db) = upsert_row s (k', n', y, b) (upsert_row s (k, n, x, a) db)"
proof -
  have 1: "list_ex (row_at s k) (upsert_row s (k', n', y, b) db)" using assms(1) by (simp only: upsert_has) simp
  have 2: "list_ex (row_at s k') (upsert_row s (k, n, x, a) db) = list_ex (row_at s k') db"
    using assms(2) by (simp only: upsert_has) simp
  show ?thesis
  proof (cases "list_ex (row_at s k') db")
    case True
    with 1 2 assms show ?thesis by (simp add: update_row_at_commute)
  next
    case False
    with 1 2 assms show ?thesis by (simp add: row_at_def update_rows_def)
  qed
qed

lemma upsert_front:
  assumes "list_ex (row_at s (row_key r)) db" and "\<forall>x\<in>set xs. row_key x \<noteq> row_key r"
  shows "upsert_row s r (upsert_timeline_events s xs db) = upsert_timeline_events s xs (upsert_row s r db)"
  using assms
proof (induction xs arbitrary: db)
  case (Cons x xs)
  obtain k n y b where x: "x = (k, n, y, b)" by (cases x) auto
  obtain k' n' y' b' where r: "r = (k', n', y', b')" by (cases r) auto
  have "list_ex (row_at s (row_key r)) (upsert_row s x db)"
    using Cons.prems(1) unfolding x upsert_has by simp
  from Cons.IH[OF this] Cons.prems have "upsert_row s r (upsert_timeline_events s xs (upsert_row s x db))
    = upsert_timeline_events s xs (upsert_row s r (upsert_row s x db))" by simp
  also have "upsert_row s r (upsert_row s x db) = upsert_row s x (upsert_row s r db)"
    using Cons.prems unfolding x r row_key_def by (intro upsert_row_commute) auto
  finally show ?case by (simp add: upsert_timeline_events_def)
qed simp

definition keyed_rows :: "(string \<times> timeline_row) list \<Rightarrow> bool" where
  "keyed_rows d \<longleftrightarrow> distinct (map fst d) \<and> (\<forall>(k, r)\<in>set d. row_key r = k)"

lemma upsert_update:
  assumes "keyed_rows d" and "\<forall>x\<in>snd ` set d. row_key x = row_key r \<longrightarrow> fst (snd x) = fst (snd r)"
  shows "upsert_timeline_events s (map snd (AList.update (row_key r) r d)) db =
    upsert_row s r (upsert_timeline_events s (map snd d) db)"
  using assms
proof (induction d arbitrary: db)
  case (Cons e d)
  obtain k x where e: "e = (k, x)" by (cases e) auto
  have k: "row_key x = k" using Cons.prems by (simp add: e keyed_rows_def)
  show ?case
  proof (cases "k = row_key r")
    case True
    obtain kr n y b where r': "r = (kr, n, y, b)" by (cases r)
    obtain kx n' y' b' where x': "x = (kx, n', y', b')" by (cases x)
    have keys: "kr = k" "kx = k" using True k by (simp_all add: row_key_def r' x')
    have "row_key x = row_key r \<longrightarrow> fst (snd x) = fst (snd r)" using Cons.prems(2) by (simp add: e)
    then have "n' = n" using True k by (simp add: r' x')
    note r = r'[unfolded keys] and x = x'[unfolded keys this]
    have "list_ex (row_at s (row_key r)) (upsert_row s x db)" unfolding x upsert_has by (simp add: True)
    moreover have "\<forall>z\<in>set (map snd d). row_key z \<noteq> row_key r"
      using Cons.prems(1) True by (force simp: e keyed_rows_def)
    ultimately have "upsert_row s r (upsert_timeline_events s (map snd d) (upsert_row s x db))
      = upsert_timeline_events s (map snd d) (upsert_row s r (upsert_row s x db))" by (rule upsert_front)
    also have "upsert_row s r (upsert_row s x db) = upsert_row s r db" unfolding x r by (rule upsert_row_again)
    finally show ?thesis using True by (simp add: e upsert_timeline_events_def)
  next
    case False
    with Cons show ?thesis by (simp add: e keyed_rows_def upsert_timeline_events_def)
  qed
qed (simp add: upsert_timeline_events_def)

lemma set_update_sub: "set (AList.update k v d) \<subseteq> insert (k, v) (set d)"
  by (induction d) auto

lemma upsert_collapse:
  assumes "seq_consistent batch"
  shows "upsert_timeline_events s (collapse_rows batch) db = upsert_timeline_events s batch db"
proof -
  let ?d = "\<lambda>batch. fold (\<lambda>r d. AList.update (row_key r) r d) batch []"
  have "keyed_rows (?d batch) \<and> snd ` set (?d batch) \<subseteq> set batch
    \<and> upsert_timeline_events s (map snd (?d batch)) db = upsert_timeline_events s batch db"
    using assms
  proof (induction batch rule: rev_induct)
    case (snoc r batch)
    have "seq_consistent batch" using snoc.prems by (rule seq_consistent_subset) auto
    note IH = snoc.IH[OF this]
    have "\<forall>x\<in>snd ` set (?d batch). row_key x = row_key r \<longrightarrow> fst (snd x) = fst (snd r)"
    proof (intro ballI impI)
      fix x assume "x \<in> snd ` set (?d batch)" "row_key x = row_key r"
      moreover from this IH have "x \<in> set (batch @ [r])" by auto
      ultimately show "fst (snd x) = fst (snd r)" using snoc.prems unfolding seq_consistent_def by (meson in_set_conv_decomp)
    qed
    with IH have up: "upsert_timeline_events s (map snd (?d (batch @ [r]))) db = upsert_timeline_events s (batch @ [r]) db"
      using upsert_update[of "?d batch" r s db] by (simp add: upsert_timeline_append) (simp add: upsert_timeline_events_def)
    have sub: "set (?d (batch @ [r])) \<subseteq> insert (row_key r, r) (set (?d batch))"
      by (simp add: set_update_sub)
    have "distinct (map fst (?d (batch @ [r])))" using IH by (simp add: keyed_rows_def distinct_update)
    moreover have "\<forall>(k, x)\<in>set (?d (batch @ [r])). row_key x = k" using IH sub by (fastforce simp: keyed_rows_def)
    moreover have "snd ` set (?d (batch @ [r])) \<subseteq> set (batch @ [r])" using IH sub by fastforce
    ultimately have "keyed_rows (?d (batch @ [r]))" "snd ` set (?d (batch @ [r])) \<subseteq> set (batch @ [r])"
      by (simp_all only: keyed_rows_def)
    with up show ?case by blast
  qed (simp add: keyed_rows_def)
  then show ?thesis by (simp add: collapse_rows_def)
qed

section \<open>Nothing accepted is lost\<close>

fun inflight :: "consumer \<Rightarrow> timeline_row list" where
  "inflight (Writing rows k) = rows"
| "inflight _ = []"

fun past_stop :: "consumer \<Rightarrow> bool" where
  "past_stop (Writing rows ThenDrain) \<longleftrightarrow> True"
| "past_stop (Writing rows (ThenExit bs)) \<longleftrightarrow> True"
| "past_stop Exited \<longleftrightarrow> True"
| "past_stop _ \<longleftrightarrow> False"

text \<open>Nothing follows a stop marker but stop markers.\<close>

fun closed_after_stop :: "queue_item list \<Rightarrow> bool" where
  "closed_after_stop [] \<longleftrightarrow> True"
| "closed_after_stop (QStop # q) \<longleftrightarrow> list_all ((=) QStop) q"
| "closed_after_stop (_ # q) \<longleftrightarrow> closed_after_stop q"

text \<open>A barrier of the queue has all the rows accepted before its call in front of it; \<open>n\<close> rows are
  ahead of the queue.\<close>

fun barriers_behind :: "(nat \<Rightarrow> nat) \<Rightarrow> nat \<Rightarrow> queue_item list \<Rightarrow> bool" where
  "barriers_behind m n [] \<longleftrightarrow> True"
| "barriers_behind m n (QRow r # q) \<longleftrightarrow> barriers_behind m (Suc n) q"
| "barriers_behind m n (QBarrier b # q) \<longleftrightarrow> m b \<le> n \<and> barriers_behind m n q"
| "barriers_behind m n (QStop # q) \<longleftrightarrow> barriers_behind m n q"

fun written_ok :: "(nat \<Rightarrow> nat) \<Rightarrow> nat \<Rightarrow> consumer \<Rightarrow> bool" where
  "written_ok m n (Writing rows (ThenBarrier b)) \<longleftrightarrow> m b \<le> n + length rows"
| "written_ok m n (Writing rows (ThenExit bs)) \<longleftrightarrow> bs = []"
| "written_ok m n _ \<longleftrightarrow> True"

fun call_ok :: "bool \<Rightarrow> bool \<Rightarrow> nat \<Rightarrow> nat \<Rightarrow> caller \<Rightarrow> bool" where
  "call_ok stopping alive m n AwaitTask \<longleftrightarrow> stopping"
| "call_ok stopping alive m n AwaitTaskThenDrain \<longleftrightarrow> stopping"
| "call_ok stopping alive m n AwaitBarrier \<longleftrightarrow> True"
| "call_ok stopping alive m n (CallWrites rows bs) \<longleftrightarrow> rows = [] \<and> bs = [] \<and> \<not> alive"
| "call_ok stopping alive m n Returned \<longleftrightarrow> m \<le> n"

lemma call_ok_mono:
  "call_ok st al m n x \<Longrightarrow> n \<le> n' \<Longrightarrow> (st \<Longrightarrow> st') \<Longrightarrow> (al' \<Longrightarrow> al) \<Longrightarrow> call_ok st' al' m n' x"
  by (cases x) auto

definition calls_ok :: "writer \<Rightarrow> bool" where
  "calls_ok w \<longleftrightarrow> (\<forall>c x. tw_calls w c = Some x \<longrightarrow> tw_mark w c \<le> length (tw_accepted w)
     \<and> call_ok (tw_stopping w) (consumer_alive w) (tw_mark w c) (length (tw_attempted w)) x)"

definition tw_ok :: "log_row list \<Rightarrow> writer \<Rightarrow> bool" where
  "tw_ok db w \<longleftrightarrow>
    map fst (tw_attempted w) @ inflight (tw_consumer w) @ queued_rows (tw_queue w) = tw_accepted w
    \<and> closed_after_stop (tw_queue w)
    \<and> (QStop \<in> set (tw_queue w) \<longrightarrow> tw_stopping w)
    \<and> (past_stop (tw_consumer w) \<longrightarrow> tw_stopping w \<and> list_all ((=) QStop) (tw_queue w))
    \<and> barriers_behind (tw_mark w) (length (tw_attempted w) + length (inflight (tw_consumer w))) (tw_queue w)
    \<and> written_ok (tw_mark w) (length (tw_attempted w)) (tw_consumer w)
    \<and> (\<forall>b\<in>tw_resolved w. tw_mark w b \<le> length (tw_attempted w))
    \<and> (\<forall>b. QBarrier b \<in> set (tw_queue w) \<or> tw_consumer w \<in> (\<lambda>rows. Writing rows (ThenBarrier b)) ` UNIV
          \<or> b \<in> tw_resolved w \<longrightarrow> tw_calls w b \<noteq> None)
    \<and> calls_ok w
    \<and> (seq_consistent (tw_accepted w) \<longrightarrow>
        tw_log w = upsert_timeline_events (tw_session w) (map fst (filter snd (tw_attempted w))) db)"

lemma calls_okI:
  assumes "calls_ok w" and "tw_calls w' = tw_calls w" and "tw_mark w' = tw_mark w"
    and "length (tw_accepted w) \<le> length (tw_accepted w')" and "length (tw_attempted w) \<le> length (tw_attempted w')"
    and "tw_stopping w \<Longrightarrow> tw_stopping w'" and "consumer_alive w' \<Longrightarrow> consumer_alive w"
  shows "calls_ok w'"
  unfolding calls_ok_def
proof (intro allI impI)
  fix c x assume "tw_calls w' c = Some x"
  then have c: "tw_mark w c \<le> length (tw_accepted w)"
    "call_ok (tw_stopping w) (consumer_alive w) (tw_mark w c) (length (tw_attempted w)) x"
    using assms(1,2) by (simp_all add: calls_ok_def)
  from call_ok_mono[OF c(2) assms(5,6,7)] c(1) assms(3,4)
  show "tw_mark w' c \<le> length (tw_accepted w')
      \<and> call_ok (tw_stopping w') (consumer_alive w') (tw_mark w' c) (length (tw_attempted w')) x" by simp
qed

lemma queued_rows_append [simp]: "queued_rows (q @ q') = queued_rows q @ queued_rows q'"
  by (induction q rule: queued_rows.induct) auto

lemma barriers_behind_append [simp]:
  "barriers_behind m n (q @ q') \<longleftrightarrow> barriers_behind m n q \<and> barriers_behind m (n + length (queued_rows q)) q'"
  by (induction m n q rule: barriers_behind.induct) auto

lemma closed_append: "closed_after_stop q \<Longrightarrow> QStop \<notin> set q \<Longrightarrow> closed_after_stop (q @ [x])"
  by (induction q rule: closed_after_stop.induct) (cases x; simp)+

lemma closed_append_stop: "closed_after_stop q \<Longrightarrow> closed_after_stop (q @ [QStop])"
  by (induction q rule: closed_after_stop.induct) auto

lemma only_stops: "list_all ((=) QStop) q \<Longrightarrow> queued_rows q = [] \<and> queued_barriers q = [] \<and> closed_after_stop q
    \<and> barriers_behind m n q \<and> QBarrier b \<notin> set q"
  by (induction q rule: queued_rows.induct) auto

lemma take_items_spec:
  "take_items rows q = (rows', k, q') \<Longrightarrow>
    rows' @ queued_rows q' = rows @ queued_rows q
    \<and> (closed_after_stop q \<longrightarrow> closed_after_stop q' \<and> (k = ThenDrain \<longrightarrow> list_all ((=) QStop) q'))
    \<and> set q' \<subseteq> set q \<and> (k = ThenDrain \<longrightarrow> QStop \<in> set q) \<and> (\<forall>b. k = ThenBarrier b \<longrightarrow> QBarrier b \<in> set q)
    \<and> (barriers_behind m (n + length rows) q \<longrightarrow> barriers_behind m (n + length rows') q'
        \<and> (\<forall>b. k = ThenBarrier b \<longrightarrow> m b \<le> n + length rows'))
    \<and> (\<forall>bs. k \<noteq> ThenExit bs)"
proof (induction rows q rule: take_items.induct)
  case (4 rows q)
  then show ?case using only_stops[of q] by (auto simp: list_all_iff)
qed auto

lemma barriers_behind_mark:
  "QBarrier c \<notin> set q \<Longrightarrow> barriers_behind (m(c := x)) n q \<longleftrightarrow> barriers_behind m n q"
  by (induction m n q rule: barriers_behind.induct) auto

lemma written_ok_mark:
  "x \<notin> (\<lambda>rows. Writing rows (ThenBarrier c)) ` UNIV \<Longrightarrow> written_ok (m(c := y)) n x \<longleftrightarrow> written_ok m n x"
  by (cases "(m, n, x)" rule: written_ok.cases) auto

lemma tw_calls_ok: "tw_ok db w \<Longrightarrow> calls_ok w"
  by (simp add: tw_ok_def)

lemma started_ok: "tw_ok db (tw_started session db)"
  by (auto simp: tw_ok_def tw_started_def calls_ok_def)

lemma enqueue_ok:
  assumes "tw_ok db w"
  shows "tw_ok db (snd (tw_enqueue r w))"
proof (cases "tw_stopping w")
  case False
  have "QStop \<notin> set (tw_queue w)" "\<not> past_stop (tw_consumer w)" using assms False by (auto simp: tw_ok_def)
  moreover have "seq_consistent (tw_accepted w @ [r]) \<Longrightarrow> seq_consistent (tw_accepted w)"
    by (rule seq_consistent_subset) auto
  moreover have "calls_ok (snd (tw_enqueue r w))"
    by (rule calls_okI[OF tw_calls_ok[OF assms]]) (simp_all add: tw_enqueue_def consumer_alive_def False)
  ultimately show ?thesis
    using assms False unfolding tw_ok_def by (simp add: tw_enqueue_def closed_append)
qed (use assms in \<open>simp add: tw_enqueue_def\<close>)

lemma mark_ok:
  assumes "tw_ok db w" and "tw_calls w c = None"
  shows "tw_ok db (mark_call c w)"
proof -
  have free: "QBarrier c \<notin> set (tw_queue w)" "tw_consumer w \<notin> (\<lambda>rows. Writing rows (ThenBarrier c)) ` UNIV"
    "c \<notin> tw_resolved w"
    using assms unfolding tw_ok_def by blast+
  have "calls_ok w" using assms(1) by (simp add: tw_ok_def)
  with assms(2) have calls: "calls_ok (mark_call c w)"
    by (auto simp: calls_ok_def mark_call_def consumer_alive_def)
  have resolved: "\<forall>b\<in>tw_resolved w. tw_mark (mark_call c w) b \<le> length (tw_attempted w)"
    using assms(1) free(3) by (auto simp: tw_ok_def mark_call_def)
  show ?thesis
    using assms free calls resolved unfolding tw_ok_def
    by (simp add: mark_call_def barriers_behind_mark written_ok_mark)
qed

lemma set_call_ok:
  assumes "tw_ok db w" and "tw_mark w c \<le> length (tw_accepted w)" 
    and "call_ok (tw_stopping w) (consumer_alive w) (tw_mark w c) (length (tw_attempted w)) x"
  shows "tw_ok db (set_call c x w)"
proof -
  have "calls_ok w" using assms(1) by (simp add: tw_ok_def)
  with assms(2,3) have "calls_ok (set_call c x w)"
    by (auto simp: calls_ok_def set_call_def consumer_alive_def)
  with assms(1) show ?thesis unfolding tw_ok_def by (simp add: set_call_def)
qed

lemma push_barrier_ok:
  assumes "tw_ok db w" and "\<not> tw_stopping w" and "tw_calls w c \<noteq> None" and "tw_mark w c \<le> length (tw_accepted w)"
  shows "tw_ok db (w\<lparr>tw_queue := tw_queue w @ [QBarrier c]\<rparr>)"
proof -
  have len: "length (tw_accepted w) = length (tw_attempted w) + length (inflight (tw_consumer w)) + length (queued_rows (tw_queue w))"
    using assms(1) unfolding tw_ok_def by (metis add.assoc length_append length_map)
  have "QStop \<notin> set (tw_queue w)" "\<not> past_stop (tw_consumer w)" using assms(1,2) by (auto simp: tw_ok_def)
  moreover have "calls_ok (w\<lparr>tw_queue := tw_queue w @ [QBarrier c]\<rparr>)"
    by (rule calls_okI[OF tw_calls_ok[OF assms(1)]]) (simp_all add: consumer_alive_def)
  ultimately show ?thesis using assms len unfolding tw_ok_def by (simp add: closed_append)
qed

lemma push_stop_ok:
  assumes "tw_ok db w"
  shows "tw_ok db (w\<lparr>tw_stopping := True, tw_queue := tw_queue w @ [QStop]\<rparr>)" "tw_ok db (w\<lparr>tw_stopping := True\<rparr>)"
proof -
  have calls: "calls_ok (w\<lparr>tw_stopping := True, tw_queue := tw_queue w @ [QStop]\<rparr>)" "calls_ok (w\<lparr>tw_stopping := True\<rparr>)"
    by (rule calls_okI[OF tw_calls_ok[OF assms]]; simp add: consumer_alive_def)+
  show "tw_ok db (w\<lparr>tw_stopping := True, tw_queue := tw_queue w @ [QStop]\<rparr>)"
    using assms calls(1) unfolding tw_ok_def by (simp add: closed_append_stop)
  show "tw_ok db (w\<lparr>tw_stopping := True\<rparr>)"
    using assms calls(2) unfolding tw_ok_def by simp
qed

lemma drain_ok:
  assumes "tw_ok db w" and "\<not> consumer_alive w" and "tw_mark w c \<le> length (tw_accepted w)"
  shows "tw_ok db (drain_remaining c w)"
proof -
  have stops: "list_all ((=) QStop) (tw_queue w)" using assms(1,2) by (auto simp: tw_ok_def consumer_alive_def)
  have "calls_ok (w\<lparr>tw_queue := []\<rparr>)"
    by (rule calls_okI[OF tw_calls_ok[OF assms(1)]]) (simp_all add: consumer_alive_def)
  then have "tw_ok db (w\<lparr>tw_queue := []\<rparr>)"
    using assms(1) only_stops[OF stops] unfolding tw_ok_def by simp
  then show ?thesis
    unfolding drain_remaining_def using assms only_stops[OF stops] by (intro set_call_ok) (simp_all add: consumer_alive_def)
qed

lemma set_call_queue: "set_call c x (w\<lparr>tw_queue := q\<rparr>) = (set_call c x w)\<lparr>tw_queue := q\<rparr>"
  by (cases w) (simp add: set_call_def)

lemma set_call_same [simp]: "tw_queue (set_call c x w) = tw_queue w" "tw_stopping (set_call c x w) = tw_stopping w"
    "tw_calls (set_call c x w) c = Some x" "tw_mark (set_call c x w) = tw_mark w"
    "tw_accepted (set_call c x w) = tw_accepted w" "tw_consumer (set_call c x w) = tw_consumer w"
  by (simp_all add: set_call_def)

lemma stopping_set_call: "tw_stopping w \<Longrightarrow> set_call c x w\<lparr>tw_stopping := True, tw_queue := q\<rparr> = set_call c x (w\<lparr>tw_queue := q\<rparr>)"
  by (cases w) (simp add: set_call_def)

lemma flush_ok:
  assumes "tw_ok db w" and "tw_calls w c = None"
  shows "tw_ok db (tw_flush c w)"
proof -
  let ?w = "mark_call c w"
  have ok: "tw_ok db ?w" by (rule mark_ok[OF assms])
  have m: "tw_mark ?w c \<le> length (tw_accepted ?w)" by (simp add: mark_call_def)
  have "tw_ok db (set_call c AwaitBarrier ?w)" by (rule set_call_ok[OF ok m]) simp
  from push_barrier_ok[OF this, of c] have "\<not> tw_stopping ?w \<Longrightarrow> tw_ok db (set_call c AwaitBarrier (?w\<lparr>tw_queue := tw_queue ?w @ [QBarrier c]\<rparr>))"
    using m by (simp add: set_call_queue)
  moreover have "tw_stopping ?w \<Longrightarrow> tw_ok db (set_call c AwaitTask ?w)" by (rule set_call_ok[OF ok m]) simp
  moreover have "\<not> consumer_alive ?w \<Longrightarrow> tw_ok db (drain_remaining c ?w)" by (rule drain_ok[OF ok _ m])
  ultimately show ?thesis by (auto simp: tw_flush_def Let_def)
qed

lemma stop_ok:
  assumes "tw_ok db w" and "tw_calls w c = None"
  shows "tw_ok db (tw_stop c w)"
proof -
  let ?w = "mark_call c w\<lparr>tw_stopping := True\<rparr>"
  have ok: "tw_ok db ?w" by (rule push_stop_ok(2)[OF mark_ok[OF assms]])
  have m: "tw_mark ?w c \<le> length (tw_accepted ?w)" by (simp add: mark_call_def)
  have "tw_ok db (set_call c AwaitTaskThenDrain ?w)" by (rule set_call_ok[OF ok m]) simp
  from push_stop_ok(1)[OF this] have "tw_ok db (set_call c AwaitTaskThenDrain (?w\<lparr>tw_queue := tw_queue ?w @ [QStop]\<rparr>))"
    by (simp add: stopping_set_call)
  moreover have "\<not> consumer_alive ?w \<Longrightarrow> tw_ok db (drain_remaining c ?w)" by (rule drain_ok[OF ok _ m])
  ultimately show ?thesis by (simp add: tw_stop_def Let_def)
qed

lemma process_ok:
  assumes "tw_ok db w" and "tw_consumer w = Waiting"
  shows "tw_ok db (process_items w)"
proof -
  obtain rows k q where t: "take_items [] (tw_queue w) = (rows, k, q)" by (cases "take_items [] (tw_queue w)")
  note spec = take_items_spec[OF t, of "tw_mark w" "length (tw_attempted w)", simplified]
  have eq: "process_items w = w\<lparr>tw_queue := q, tw_consumer := Writing rows k\<rparr>" by (simp add: process_items_def t)
  have calls: "calls_ok (w\<lparr>tw_queue := q, tw_consumer := Writing rows k\<rparr>)"
    by (rule calls_okI[OF tw_calls_ok[OF assms(1)]]) (simp_all add: consumer_alive_def assms(2))
  note ok = assms(1)[unfolded tw_ok_def assms(2), simplified]
  have barriers: "\<forall>b. (QBarrier b \<in> set q \<longrightarrow> QBarrier b \<in> set (tw_queue w))
      \<and> (Writing rows k \<in> range (\<lambda>rows. Writing rows (ThenBarrier b)) \<longrightarrow> QBarrier b \<in> set (tw_queue w))"
    using spec by auto
  have k: "past_stop (Writing rows k) \<Longrightarrow> k = ThenDrain" using spec by (cases k) auto
  have "written_ok (tw_mark w) (length (tw_attempted w)) (Writing rows k)" using spec ok by (cases k) auto
  with ok spec barriers calls k show ?thesis unfolding eq tw_ok_def by auto
qed

lemma flush_rows_ok:
  assumes "tw_ok db w" and "tw_consumer w = Writing rows k"
  shows "tw_ok db (flush_rows ok rows w\<lparr>tw_consumer := Writing [] k\<rparr>)"
proof -
  let ?w = "flush_rows ok rows w\<lparr>tw_consumer := Writing [] k\<rparr>"
  have "map fst (tw_attempted w) @ rows @ queued_rows (tw_queue w) = tw_accepted w"
    using assms by (simp add: tw_ok_def)
  from arg_cong[OF this, of set] have "set rows \<subseteq> set (tw_accepted w)" by auto
  then have sub: "seq_consistent (tw_accepted w) \<Longrightarrow> seq_consistent rows" by (rule seq_consistent_subset[rotated])
  have ok: "filter snd (map (\<lambda>r. (r, ok)) rows) = (if ok then map (\<lambda>r. (r, ok)) rows else [])"
    by (simp add: filter_map comp_def)
  have log: "seq_consistent (tw_accepted w) \<Longrightarrow>
      tw_log ?w = upsert_timeline_events (tw_session w) (map fst (filter snd (tw_attempted ?w))) db"
    using assms sub unfolding tw_ok_def
    by (simp add: flush_rows_def upsert_collapse upsert_timeline_append ok comp_def)
  have "written_ok (tw_mark w) (length (tw_attempted w) + length rows) (Writing [] k)"
    using assms by (cases k) (auto simp: tw_ok_def)
  moreover have "past_stop (Writing [] k) = past_stop (Writing rows k)" by (cases k) simp_all
  moreover have "calls_ok ?w"
    by (rule calls_okI[OF tw_calls_ok[OF assms(1)]]) (simp_all add: consumer_alive_def assms(2) flush_rows_def)
  ultimately show ?thesis using assms log
    unfolding tw_ok_def by (auto simp: flush_rows_def comp_def)
qed

lemma after_flush_ok:
  assumes "tw_ok db w" and "tw_consumer w = Writing [] k"
  shows "tw_ok db (after_flush k w)"
proof (cases k)
  case EndBatch
  have "calls_ok (w\<lparr>tw_consumer := Waiting\<rparr>)"
    by (rule calls_okI[OF tw_calls_ok[OF assms(1)]]) (simp_all add: consumer_alive_def assms(2))
  with assms EndBatch show ?thesis unfolding tw_ok_def by auto
next
  case (ThenBarrier b)
  let ?w = "resolve_barriers [b] w\<lparr>tw_consumer := Waiting\<rparr>"
  have "tw_calls w b \<noteq> None" using assms ThenBarrier unfolding tw_ok_def by blast
  moreover have "calls_ok ?w"
    by (rule calls_okI[OF tw_calls_ok[OF assms(1)]]) (simp_all add: consumer_alive_def assms(2) resolve_barriers_def)
  ultimately have "tw_ok db ?w" using assms ThenBarrier unfolding tw_ok_def by (auto simp: resolve_barriers_def)
  then have "tw_ok db (process_items ?w)" by (rule process_ok) simp
  moreover have "process_items ?w = process_items (resolve_barriers [b] w)"
    by (simp add: process_items_def split: prod.split)
  ultimately show ?thesis using ThenBarrier by simp
next
  case ThenDrain
  then have "list_all ((=) QStop) (tw_queue w)" using assms by (simp add: tw_ok_def)
  note stops = only_stops[OF this]
  have "calls_ok (after_flush ThenDrain w)"
    by (rule calls_okI[OF tw_calls_ok[OF assms(1)]]) (simp_all add: consumer_alive_def assms(2))
  with assms ThenDrain stops show ?thesis unfolding tw_ok_def by auto
next
  case (ThenExit bs)
  then have bs: "bs = []" using assms by (simp add: tw_ok_def)
  have "calls_ok (after_flush (ThenExit []) w)"
    by (rule calls_okI[OF tw_calls_ok[OF assms(1)]]) (simp_all add: consumer_alive_def assms(2) resolve_barriers_def)
  with assms ThenExit bs show ?thesis unfolding tw_ok_def by (auto simp: resolve_barriers_def)
qed

lemma after_flush_consumer: "after_flush k w = after_flush k (w\<lparr>tw_consumer := x\<rparr>)"
  by (cases k) (auto simp: process_items_def resolve_barriers_def split: prod.split)

lemma exited_all_attempted:
  assumes "tw_ok db w" and "\<not> consumer_alive w"
  shows "map fst (tw_attempted w) = tw_accepted w"
proof -
  have "list_all ((=) QStop) (tw_queue w)" "tw_consumer w = Exited"
    using assms by (auto simp: tw_ok_def consumer_alive_def)
  with assms(1) show ?thesis using only_stops[of "tw_queue w"] unfolding tw_ok_def by simp
qed

lemma call_bound: "tw_ok db w \<Longrightarrow> tw_calls w c = Some x \<Longrightarrow> tw_mark w c \<le> length (tw_accepted w)
    \<and> call_ok (tw_stopping w) (consumer_alive w) (tw_mark w c) (length (tw_attempted w)) x"
  by (simp add: tw_ok_def calls_ok_def)

lemma exited_return_ok:
  assumes "tw_ok db w" and "tw_calls w c = Some x" and "\<not> consumer_alive w"
  shows "tw_ok db (set_call c Returned w)"
proof -
  have "length (tw_attempted w) = length (tw_accepted w)"
    using arg_cong[OF exited_all_attempted[OF assms(1,3)], of length] by simp
  with call_bound[OF assms(1,2)] show ?thesis by (intro set_call_ok[OF assms(1)]) simp_all
qed

lemma step_ok [inv_intros]:
  assumes "tw_step w l w'" and ok: "tw_ok db w"
  shows "tw_ok db w'"
  using assms(1)
proof (cases rule: tw_step.cases)
  case (written rows k x)
  show ?thesis unfolding written(2)
    by (subst after_flush_consumer, rule after_flush_ok[OF flush_rows_ok[OF ok written(3)]]) simp
next
  case (task_ended c)
  show ?thesis unfolding task_ended(2) by (rule exited_return_ok[OF ok task_ended(3,4)])
next
  case (barrier_resolved c)
  have "tw_mark w c \<le> length (tw_attempted w)" using ok barrier_resolved(4) by (simp add: tw_ok_def)
  then show ?thesis unfolding barrier_resolved(2)
    using call_bound[OF ok barrier_resolved(3)] by (intro set_call_ok[OF ok]) simp_all
next
  case (call_written c rows bs x)
  with call_bound[OF ok call_written(3)] have idle: "rows = []" "bs = []" "\<not> consumer_alive w" by auto
  then have "resolve_barriers bs (flush_rows x rows w) = w" by (simp add: resolve_barriers_def flush_rows_def)
  then show ?thesis unfolding call_written(2) using exited_return_ok[OF ok call_written(3) idle(3)] by simp
next
  case (final_drain c)
  show ?thesis unfolding final_drain(2) using call_bound[OF ok final_drain(3)] by (intro drain_ok[OF ok final_drain(4)]) simp
qed (auto intro!: enqueue_ok flush_ok stop_ok process_ok ok)

lemma session_step: "tw_step w l w' \<Longrightarrow> tw_session w' = tw_session w"
proof (induction rule: tw_step.induct)
  case (written w rows k ok)
  then show ?case
    by (cases k) (simp_all add: flush_rows_def process_items_def resolve_barriers_def split: prod.split)
qed (simp_all add: tw_enqueue_def tw_flush_def tw_stop_def Let_def set_call_def mark_call_def drain_remaining_def
    process_items_def flush_rows_def resolve_barriers_def split: prod.split)

lemma writer_reachable_ok: "tw_reachable session db w \<Longrightarrow> tw_ok db w \<and> tw_session w = session"
  by (induction rule: tw_reachable.induct) (auto intro: started_ok step_ok simp: session_step, simp add: tw_started_def)

section \<open>No caller waits forever\<close>

definition tw_live :: "writer \<Rightarrow> bool" where
  "tw_live w \<longleftrightarrow>
    (tw_stopping w \<and> consumer_alive w \<longrightarrow> QStop \<in> set (tw_queue w) \<or> past_stop (tw_consumer w))
    \<and> (\<forall>c. tw_calls w c = Some AwaitBarrier \<longrightarrow> QBarrier c \<in> set (tw_queue w)
          \<or> (\<exists>rows. tw_consumer w = Writing rows (ThenBarrier c)) \<or> c \<in> tw_resolved w)"

lemma take_items_keeps:
  "take_items rows q = (rows', k, q') \<Longrightarrow>
    (QStop \<in> set q \<longrightarrow> QStop \<in> set q' \<or> k = ThenDrain) \<and> (QBarrier b \<in> set q \<longrightarrow> QBarrier b \<in> set q' \<or> k = ThenBarrier b)"
  by (induction rows q rule: take_items.induct) auto

lemma process_live:
  assumes "tw_live w" and "\<not> past_stop (tw_consumer w)" and "consumer_alive w"
    and "\<And>b. (\<exists>rows. tw_consumer w = Writing rows (ThenBarrier b)) \<Longrightarrow> b \<in> tw_resolved w"
  shows "tw_live (process_items w)"
proof -
  obtain rows k q where t: "take_items [] (tw_queue w) = (rows, k, q)" by (cases "take_items [] (tw_queue w)")
  have keeps: "QStop \<in> set (tw_queue w) \<longrightarrow> QStop \<in> set q \<or> k = ThenDrain"
    "\<And>b. QBarrier b \<in> set (tw_queue w) \<longrightarrow> QBarrier b \<in> set q \<or> k = ThenBarrier b"
    using take_items_keeps[OF t] by blast+
  have eq: "process_items w = w\<lparr>tw_queue := q, tw_consumer := Writing rows k\<rparr>" by (simp add: process_items_def t)
  have "tw_stopping w \<longrightarrow> QStop \<in> set q \<or> past_stop (Writing rows k)" using assms keeps(1) by (auto simp: tw_live_def)
  moreover have "QBarrier c \<in> set q \<or> k = ThenBarrier c \<or> c \<in> tw_resolved w" if "tw_calls w c = Some AwaitBarrier" for c
    using assms(1)[unfolded tw_live_def] keeps(2)[of c] assms(4)[of c] that by blast
  ultimately show ?thesis unfolding eq tw_live_def by simp
qed

lemma written_live:
  assumes live: "tw_live w" and ok: "tw_ok db w" and k: "tw_consumer w = Writing rows k"
  shows "tw_live (after_flush k (flush_rows x rows w))"
proof (cases k)
  case EndBatch
  with live k show ?thesis by (auto simp: tw_live_def flush_rows_def consumer_alive_def)
next
  case (ThenBarrier b)
  let ?w = "resolve_barriers [b] (flush_rows x rows w)"
  have "tw_live ?w" using live k ThenBarrier
    by (auto simp: tw_live_def flush_rows_def resolve_barriers_def consumer_alive_def)
  from process_live[OF this] k ThenBarrier show ?thesis
    by (simp add: flush_rows_def resolve_barriers_def consumer_alive_def)
next
  case ThenDrain
  then have "list_all ((=) QStop) (tw_queue w)" using ok k by (simp add: tw_ok_def)
  then have "QBarrier c \<notin> set (tw_queue w)" for c using only_stops by blast
  with live k ThenDrain show ?thesis by (auto simp: tw_live_def flush_rows_def consumer_alive_def)
next
  case (ThenExit bs)
  with live k show ?thesis by (auto simp: tw_live_def flush_rows_def resolve_barriers_def consumer_alive_def)
qed

lemma drain_live:
  assumes live: "tw_live w" and ok: "tw_ok db w" and dead: "\<not> consumer_alive w"
  shows "tw_live (drain_remaining c w)"
proof -
  have "list_all ((=) QStop) (tw_queue w)" using ok dead by (auto simp: tw_ok_def consumer_alive_def)
  then have "QBarrier c \<notin> set (tw_queue w)" for c using only_stops by blast
  with live dead show ?thesis
    by (auto simp: tw_live_def drain_remaining_def set_call_def consumer_alive_def)
qed

lemma step_live [inv_intros]:
  assumes "tw_step w l w'" and live: "tw_live w" and ok: "tw_ok db w"
  shows "tw_live w'"
  using assms(1)
proof (cases rule: tw_step.cases)
  case (enqueue r)
  with live show ?thesis by (auto simp: tw_live_def tw_enqueue_def consumer_alive_def)
next
  case (flush c)
  have m: "tw_live (mark_call c w)" "tw_ok db (mark_call c w)" using live mark_ok[OF ok flush(3)]
    by (simp_all add: tw_live_def mark_call_def consumer_alive_def)
  show ?thesis
  proof (cases "consumer_alive w")
    case True
    with m(1) flush show ?thesis
      by (auto simp: tw_flush_def Let_def tw_live_def set_call_def mark_call_def consumer_alive_def)
  next
    case False
    then have "\<not> consumer_alive (mark_call c w)" by (simp add: consumer_alive_def mark_call_def)
    with drain_live[OF m this] flush show ?thesis by (simp add: tw_flush_def Let_def)
  qed
next
  case (stop c)
  let ?w = "mark_call c w\<lparr>tw_stopping := True\<rparr>"
  show ?thesis
  proof (cases "consumer_alive w")
    case True
    with live stop show ?thesis
      by (auto simp: tw_stop_def Let_def tw_live_def set_call_def mark_call_def consumer_alive_def)
  next
    case False
    then have "tw_live ?w" "\<not> consumer_alive ?w" "tw_ok db ?w"
      using live push_stop_ok(2)[OF mark_ok[OF ok stop(3)]] by (simp_all add: tw_live_def mark_call_def consumer_alive_def)
    with drain_live[of ?w db c] stop show ?thesis by (simp add: tw_stop_def Let_def)
  qed
next
  case take
  then show ?thesis unfolding take(2) using live by (intro process_live) (simp_all add: consumer_alive_def)
next
  case (written rows k x)
  then show ?thesis using written_live[OF live ok written(3)] by simp
next
  case (final_drain c)
  then show ?thesis using drain_live[OF live ok] by simp
qed (use live in \<open>auto simp: tw_live_def set_call_def consumer_alive_def resolve_barriers_def flush_rows_def\<close>)

lemma reachable_live: "tw_reachable session db w \<Longrightarrow> tw_live w"
proof (induction rule: tw_reachable.induct)
  case (step w l w')
  then show ?case using writer_reachable_ok step_live by blast
qed (simp add: tw_live_def tw_started_def)

definition serves :: "nat \<Rightarrow> writer_label \<Rightarrow> bool" where
  "serves c l \<longleftrightarrow> l = LTake \<or> l = LResume c \<or> (\<exists>ok. l = LWritten ok \<or> l = LCallWritten c ok)"

lemma alive_serves:
  assumes "consumer_alive w" and "tw_queue w \<noteq> [] \<or> tw_consumer w \<noteq> Waiting"
  shows "\<exists>l w'. tw_step w l w' \<and> serves c l"
proof (cases "tw_consumer w")
  case Waiting
  with assms tw_step.take[OF Waiting] show ?thesis by (auto simp: serves_def)
next
  case (Writing rows k)
  from tw_step.written[OF this] show ?thesis by (auto simp: serves_def)
qed (use assms in \<open>simp add: consumer_alive_def\<close>)

lemma call_served:
  assumes live: "tw_live w" and ok: "tw_ok db w" and call: "tw_calls w c = Some x" and wait: "x \<noteq> Returned"
  shows "\<exists>l w'. tw_step w l w' \<and> serves c l"
proof -
  have stopping: "\<exists>l w'. tw_step w l w' \<and> serves c l" if "tw_stopping w" "consumer_alive w"
    using live that by (intro alive_serves) (auto simp: tw_live_def)
  show ?thesis
  proof (cases x)
    case AwaitTask
    then have "tw_stopping w" using call_bound[OF ok call] by simp
    with stopping tw_step.task_ended[of w c] call AwaitTask show ?thesis by (auto simp: serves_def)
  next
    case AwaitTaskThenDrain
    then have "tw_stopping w" using call_bound[OF ok call] by simp
    with stopping tw_step.final_drain[of w c] call AwaitTaskThenDrain show ?thesis by (auto simp: serves_def)
  next
    case AwaitBarrier
    show ?thesis
    proof (cases "c \<in> tw_resolved w")
      case True
      with tw_step.barrier_resolved[of w c] call AwaitBarrier show ?thesis by (auto simp: serves_def)
    next
      case False
      then have q: "QBarrier c \<in> set (tw_queue w) \<or> (\<exists>rows. tw_consumer w = Writing rows (ThenBarrier c))"
        using live call AwaitBarrier by (auto simp: tw_live_def)
      have "consumer_alive w"
        using q ok only_stops[of "tw_queue w"] by (auto simp: tw_ok_def consumer_alive_def)
      then show ?thesis using q by (intro alive_serves) auto
    qed
  next
    case (CallWrites rows bs)
    with tw_step.call_written[of w c rows bs] call show ?thesis by (auto simp: serves_def)
  qed (use wait in simp)
qed

text \<open>C23. Whatever the interleaving of producers, flushes and stops with the writer task, and whichever
  upserts fail, the batched log refines row by row upserts: the rows attempted, in flight and queued
  are together the accepted rows in order; the log is the one sequential upserts of the attempted
  rows that did not fail would give; a flush or stop that returned left no row accepted before it
  unattempted, and one that has not returned is never stuck; once the task has ended every accepted
  row was attempted.\<close>

theorem timeline_writer_refines:
  assumes "tw_reachable session db w"
  shows "map fst (tw_attempted w) @ inflight (tw_consumer w) @ queued_rows (tw_queue w) = tw_accepted w
    \<and> (seq_consistent (tw_accepted w) \<longrightarrow>
        tw_log w = fold (upsert_row session) (map fst (filter snd (tw_attempted w))) db)
    \<and> (\<forall>c. tw_calls w c = Some Returned \<longrightarrow>
        take (tw_mark w c) (tw_accepted w) = map fst (take (tw_mark w c) (tw_attempted w)))
    \<and> (\<forall>c x. tw_calls w c = Some x \<and> x \<noteq> Returned \<longrightarrow> (\<exists>l w'. tw_step w l w' \<and> serves c l))
    \<and> (\<not> consumer_alive w \<longrightarrow> map fst (tw_attempted w) = tw_accepted w)"
proof -
  note ok = writer_reachable_ok[OF assms, THEN conjunct1]
  have order: "map fst (tw_attempted w) @ inflight (tw_consumer w) @ queued_rows (tw_queue w) = tw_accepted w"
    using ok unfolding tw_ok_def by (elim conjE)
  have log: "seq_consistent (tw_accepted w) \<longrightarrow>
        tw_log w = fold (upsert_row session) (map fst (filter snd (tw_attempted w))) db"
    using ok unfolding tw_ok_def writer_reachable_ok[OF assms, THEN conjunct2] upsert_timeline_events_def by (elim conjE)
  have returned: "take (tw_mark w c) (tw_accepted w) = map fst (take (tw_mark w c) (tw_attempted w))"
    if "tw_calls w c = Some Returned" for c
    using call_bound[OF ok that] by (simp add: order[symmetric] take_map)
  have served: "\<exists>l w'. tw_step w l w' \<and> serves c l" if "tw_calls w c = Some x \<and> x \<noteq> Returned" for c x
    using call_served[OF reachable_live[OF assms] ok] that by blast
  show ?thesis
    using order log returned served exited_all_attempted[OF ok] by blast
qed

definition sample_writer_run :: writer where
  "sample_writer_run =
    after_flush (ThenBarrier 7) (flush_rows True [(''a'', 1, ''x'', 0), (''b'', 2, ''y'', 0), (''a'', 1, ''z'', 1)]
      (process_items (tw_flush 7 (snd (tw_enqueue (''a'', 1, ''z'', 1) (snd (tw_enqueue (''b'', 2, ''y'', 0)
        (snd (tw_enqueue (''a'', 1, ''x'', 0) (tw_started ''s'' []))))))))))"

lemma sample_writer_reachable: "tw_reachable ''s'' [] sample_writer_run"
proof -
  let ?r = "\<lambda>r w. snd (tw_enqueue r w)"
  let ?w3 = "?r (''a'', 1, ''z'', 1) (?r (''b'', 2, ''y'', 0) (?r (''a'', 1, ''x'', 0) (tw_started ''s'' [])))"
  have 3: "tw_reachable ''s'' [] ?w3"
    by (rule tw_reachable.step[OF tw_reachable.step[OF tw_reachable.step[OF tw_reachable.start tw_step.enqueue]
          tw_step.enqueue] tw_step.enqueue])
  have "tw_calls ?w3 7 = None" by (simp add: tw_enqueue_def tw_started_def)
  from tw_reachable.step[OF 3 tw_step.flush[OF this]] have 4: "tw_reachable ''s'' [] (tw_flush 7 ?w3)" .
  note run_defs = tw_flush_def Let_def mark_call_def set_call_def consumer_alive_def tw_enqueue_def tw_started_def
  have "tw_consumer (tw_flush 7 ?w3) = Waiting" "tw_queue (tw_flush 7 ?w3) \<noteq> []" by (simp_all add: run_defs)
  from tw_reachable.step[OF 4 tw_step.take[OF this]] have 5: "tw_reachable ''s'' [] (process_items (tw_flush 7 ?w3))" .
  have "tw_consumer (process_items (tw_flush 7 ?w3)) = Writing [(''a'', 1, ''x'', 0), (''b'', 2, ''y'', 0), (''a'', 1, ''z'', 1)] (ThenBarrier 7)"
    by (simp add: process_items_def run_defs)
  from tw_reachable.step[OF 5 tw_step.written[OF this, of True]] show ?thesis by (simp add: sample_writer_run_def)
qed

lemma timeline_writer_refines_witness:
  "tw_log sample_writer_run = fold (upsert_row ''s'') [(''a'', 1, ''x'', 0), (''b'', 2, ''y'', 0), (''a'', 1, ''z'', 1)] []
    \<and> tw_log sample_writer_run \<noteq> []"
proof -
  have att: "tw_attempted sample_writer_run = map (\<lambda>r. (r, True)) [(''a'', 1, ''x'', 0), (''b'', 2, ''y'', 0), (''a'', 1, ''z'', 1)]"
    "tw_accepted sample_writer_run = [(''a'', 1, ''x'', 0), (''b'', 2, ''y'', 0), (''a'', 1, ''z'', 1)]"
    by (simp_all add: sample_writer_run_def process_items_def flush_rows_def resolve_barriers_def tw_flush_def
        mark_call_def set_call_def consumer_alive_def tw_enqueue_def tw_started_def)
  then have "seq_consistent (tw_accepted sample_writer_run)" by (simp add: seq_consistent_def row_key_def)
  with timeline_writer_refines[OF sample_writer_reachable] att show ?thesis by simp
qed

end
