(* ===== verification/Event_Bus.thy ===== *)
theory Event_Bus
  imports Timeline
begin

text \<open>
  The event bus of a session, the second part of \<^verbatim>\<open>AgentSession\<close> in \<^verbatim>\<open>src/core/runtime/session.py\<close>:
  every event is stamped with its place on the timeline, applied to the live projection, delivered to
  the subscribers and handed to the timeline writer.
\<close>

section \<open>State\<close>

text \<open>The queue of a subscriber holds events and, at the end, the closing marker \<^const>\<open>None\<close>.\<close>

record bus =
  bs_seq :: int
  bs_item_seq :: "(string \<times> int) list"
  bs_loaded :: bool
  bs_live :: live_projection
  bs_subscribers :: "(nat \<times> agent_event option list) list"
  bs_writer :: writer

definition new_bus :: "string \<Rightarrow> log_row list \<Rightarrow> bus" where
  "new_bus session db = \<lparr>bs_seq = 0, bs_item_seq = [], bs_loaded = False, bs_live = no_live_events,
     bs_subscribers = [], bs_writer = tw_started session db\<rparr>"

definition subscriber_rebase_threshold :: nat where
  "subscriber_rebase_threshold = 512"

section \<open>Operations\<close>

text \<open>\<^verbatim>\<open>self._item_seq.setdefault(key, seq)\<close>.\<close>

fun set_default :: "string \<times> int \<Rightarrow> (string \<times> int) list \<Rightarrow> (string \<times> int) list" where
  "set_default (k, n) d = (if map_of d k = None then d @ [(k, n)] else d)"

definition ensure_timeline_loaded :: "string \<Rightarrow> log_row list \<Rightarrow> bus \<Rightarrow> bus" where
  "ensure_timeline_loaded session db b =
    (if bs_loaded b then b
     else case load_timeline_head session db of (max_seq, item_seq) \<Rightarrow>
       b\<lparr>bs_seq := max (bs_seq b) max_seq, bs_item_seq := fold set_default item_seq (bs_item_seq b), bs_loaded := True,
         bs_writer := (if consumer_alive (bs_writer b) then bs_writer b else tw_started session db)\<rparr>)"

definition stamp_event :: "agent_event \<Rightarrow> bus \<Rightarrow> agent_event \<times> string option \<times> bus" where
  "stamp_event e b =
    (if is_run_state (ev_body e) \<or> ev_body e = Done then (e, None, b)
     else case timeline_item_key e of
         None \<Rightarrow>
           let n = bs_seq b + 1; e = e\<lparr>ev_seq := n\<rparr> in
           (e, if is_persistable e then Some (event_type_value (ev_body e) @ '':'' @ show_int n) else None, b\<lparr>bs_seq := n\<rparr>)
       | Some k \<Rightarrow>
           let (n, b) = (case map_of (bs_item_seq b) k of
                 Some n \<Rightarrow> (n, b)
               | None \<Rightarrow> (bs_seq b + 1, b\<lparr>bs_seq := bs_seq b + 1, bs_item_seq := bs_item_seq b @ [(k, bs_seq b + 1)]\<rparr>));
             e = e\<lparr>ev_seq := n\<rparr> in
           (e, if is_persistable e then Some k else None, b))"

definition enqueue_or_rebase :: "live_projection \<Rightarrow> agent_event \<Rightarrow> agent_event option list \<Rightarrow> agent_event option list" where
  "enqueue_or_rebase live e q =
    (if length q < subscriber_rebase_threshold then q @ [Some e]
     else map Some (if ev_body e = RunState False
                    then live_snapshot (Some (\<lambda>x. \<not> is_run_state (ev_body x))) live @ [e]
                    else live_snapshot None live))"

definition deliver :: "agent_event \<Rightarrow> bus \<Rightarrow> bus" where
  "deliver e b = b\<lparr>bs_subscribers := map (\<lambda>(c, q). (c, enqueue_or_rebase (bs_live b) e q)) (bs_subscribers b)\<rparr>"

text \<open>\<open>dump\<close> is \<^verbatim>\<open>model_dump_json\<close>; the projection of an event that would raise gives \<^const>\<open>None\<close>.\<close>

definition publish_external ::
  "(agent_event \<Rightarrow> string) \<Rightarrow> agent_event \<Rightarrow> bus \<Rightarrow> (bool \<times> bus) option" where
  "publish_external dump e b =
    (case stamp_event e b of (e, persist_key, b) \<Rightarrow>
       (case live_apply e (bs_live b) of
          None \<Rightarrow> None
        | Some live \<Rightarrow>
            let b = deliver e (b\<lparr>bs_live := live\<rparr>) in
            (case persist_key of
               Some k \<Rightarrow>
                 if bs_loaded b
                 then case tw_enqueue (k, ev_seq e, dump e, ev_created_at e) (bs_writer b) of
                        (ok, w) \<Rightarrow> Some (ok, b\<lparr>bs_writer := w\<rparr>)
                 else Some (False, b)
             | None \<Rightarrow> Some (True, b))))"

definition publish_run_state :: "bool \<Rightarrow> datetime \<Rightarrow> bus \<Rightarrow> bus option" where
  "publish_run_state running now b =
    (let e = \<lparr>ev_created_at = now, ev_seq = 0, ev_agent_name = [], ev_nested_for = [], ev_nested_call_id = [],
              ev_body = RunState running\<rparr> in
     case (if running then Some (live_reset e (bs_live b)) else live_apply e (bs_live b)) of
       None \<Rightarrow> None
     | Some live \<Rightarrow>
         let b = deliver e (b\<lparr>bs_live := live\<rparr>) in
         Some (if running then b else b\<lparr>bs_live := live_reset e (bs_live b)\<rparr>))"

definition bus_subscribe :: "nat \<Rightarrow> (agent_event \<Rightarrow> bool) option \<Rightarrow> bus \<Rightarrow> bus" where
  "bus_subscribe c incl b = b\<lparr>bs_subscribers := bs_subscribers b @ [(c, map Some (live_snapshot incl (bs_live b)))]\<rparr>"

definition bus_unsubscribe :: "nat \<Rightarrow> bus \<Rightarrow> bus" where
  "bus_unsubscribe c b = b\<lparr>bs_subscribers := filter (\<lambda>(d, q). d \<noteq> c) (bs_subscribers b)\<rparr>"

text \<open>The queues closed by the session, with their last marker; the bus forgets them.\<close>

definition close_subscribers :: "bus \<Rightarrow> (nat \<times> agent_event option list) list \<times> bus" where
  "close_subscribers b = (map (\<lambda>(c, q). (c, q @ [None])) (bs_subscribers b), b\<lparr>bs_subscribers := []\<rparr>)"

datatype bus_op = Publish agent_event | RunStateOp bool datetime | Subscribe nat "(agent_event \<Rightarrow> bool) option"
  | Unsubscribe nat

fun bus_exec :: "(agent_event \<Rightarrow> string) \<Rightarrow> bus_op \<Rightarrow> bus option \<Rightarrow> bus option" where
  "bus_exec dump (Publish e) s = Option.bind s (\<lambda>b. map_option snd (publish_external dump e b))"
| "bus_exec dump (RunStateOp r now) s = Option.bind s (publish_run_state r now)"
| "bus_exec dump (Subscribe c f) s = map_option (bus_subscribe c f) s"
| "bus_exec dump (Unsubscribe c) s = map_option (bus_unsubscribe c) s"

definition bus_run :: "(agent_event \<Rightarrow> string) \<Rightarrow> bus_op list \<Rightarrow> bus \<Rightarrow> bus option" where
  "bus_run dump ops b = fold (bus_exec dump) ops (Some b)"

section \<open>Numerals are read back\<close>

definition digit_val :: "char \<Rightarrow> nat" where
  "digit_val c = of_char c - 48"

lemma digit_val_char: "d < 10 \<Longrightarrow> digit_val (digit_char d) = d"
proof -
  have "\<forall>d\<in>set [0..<10]. digit_val (digit_char d) = d" by (simp add: upt_rec digit_val_def digit_char_def hex_digits_def)
  then show "d < 10 \<Longrightarrow> digit_val (digit_char d) = d" by simp
qed

lemma read_show_nat: "foldl (\<lambda>a c. 10 * a + digit_val c) 0 (show_nat n) = n"
proof (induction n rule: show_nat.induct)
  case (1 n)
  then show ?case by (subst show_nat.simps) (simp add: digit_val_char)
qed

lemma show_nat_inj: "show_nat m = show_nat n \<Longrightarrow> m = n"
  using read_show_nat by metis

lemma show_nat_digits: "c \<in> set (show_nat n) \<Longrightarrow> c \<noteq> CHR ''-''"
proof (induction n rule: show_nat.induct)
  case (1 n)
  have "\<forall>d\<in>set [0..<10]. digit_char d \<noteq> CHR ''-''" by (simp add: upt_rec digit_char_def hex_digits_def)
  then have "digit_char (n mod 10) \<noteq> CHR ''-''" "n < 10 \<Longrightarrow> digit_char n \<noteq> CHR ''-''" by simp_all
  with 1 show ?case by (subst (asm) show_nat.simps) (auto split: if_splits)
qed

lemma show_int_inj:
  assumes "show_int i = show_int j"
  shows "i = j"
proof -
  have minus: "show_nat n \<noteq> CHR ''-'' # x" for n x using show_nat_digits[of "CHR ''-''" n] by auto
  show ?thesis
  proof (cases "i < 0"; cases "j < 0")
    assume s: "i < 0" "j < 0"
    with assms have "show_nat (nat (- i)) = show_nat (nat (- j))" by (simp add: show_int_def)
    from show_nat_inj[OF this] s show ?thesis by simp
  next
    assume s: "\<not> i < 0" "\<not> j < 0"
    with assms have "show_nat (nat i) = show_nat (nat j)" by (simp add: show_int_def)
    from show_nat_inj[OF this] s show ?thesis by simp
  qed (use assms minus minus[symmetric] in \<open>simp_all add: show_int_def\<close>)
qed

section \<open>One identity space\<close>

definition keyless_types :: "string list" where
  "keyless_types = [''user_message'', ''turn_boundary'', ''error'']"

text \<open>The keys made for events without an id of their own end in their sequence number.\<close>

definition keyless_key :: "string \<Rightarrow> bool" where
  "keyless_key k \<longleftrightarrow> (\<exists>t\<in>set keyless_types. \<exists>x. k = t @ '':'' @ x)"

definition numbered :: "string \<Rightarrow> int \<Rightarrow> bool" where
  "numbered k n \<longleftrightarrow> (\<exists>t\<in>set keyless_types. k = t @ '':'' @ show_int n)"

definition identities_ok :: "(string \<times> int) set \<Rightarrow> bool" where
  "identities_ok P \<longleftrightarrow> (\<forall>(k, n)\<in>P. (\<forall>(k', n')\<in>P. k = k' \<longleftrightarrow> n = n') \<and> (keyless_key k \<longrightarrow> numbered k n))"

definition log_pairs :: "string \<Rightarrow> log_row list \<Rightarrow> (string \<times> int) list" where
  "log_pairs session db = map (\<lambda>r. (lr_key r, lr_seq r)) (session_rows session db)"

definition log_ok :: "string \<Rightarrow> log_row list \<Rightarrow> bool" where
  "log_ok session db \<longleftrightarrow> distinct (map fst (log_pairs session db)) \<and> identities_ok (set (log_pairs session db))"

definition row_pair :: "timeline_row \<Rightarrow> string \<times> int" where
  "row_pair r = (row_key r, fst (snd r))"

definition bus_pairs :: "string \<Rightarrow> log_row list \<Rightarrow> bus \<Rightarrow> (string \<times> int) set" where
  "bus_pairs session db b = set (log_pairs session db) \<union> set (bs_item_seq b) \<union> row_pair ` set (tw_accepted (bs_writer b))"

definition bus_ok :: "string \<Rightarrow> log_row list \<Rightarrow> bus \<Rightarrow> bool" where
  "bus_ok session db b \<longleftrightarrow>
    identities_ok (bus_pairs session db b)
    \<and> (\<forall>(k, n)\<in>bus_pairs session db b. n \<le> bs_seq b \<and> ((k, n) \<in> set (bs_item_seq b) \<or> keyless_key k))
    \<and> bs_loaded b \<and> live_ok (bs_live b)"

lemma one_number: "identities_ok P \<Longrightarrow> (k, n) \<in> P \<Longrightarrow> (k, n') \<in> P \<Longrightarrow> n = n'"
  unfolding identities_ok_def by fastforce

lemma identities_subset: "identities_ok P \<Longrightarrow> Q \<subseteq> P \<Longrightarrow> identities_ok Q"
  unfolding identities_ok_def by blast

lemma identities_insert:
  assumes "identities_ok P" and "\<forall>(k', n')\<in>P. k' \<noteq> k \<and> n' \<noteq> n" and "keyless_key k \<longrightarrow> numbered k n"
  shows "identities_ok (insert (k, n) P)"
  using assms unfolding identities_ok_def by fastforce

lemma keyless_same: "t \<in> set keyless_types \<Longrightarrow> t' \<in> set keyless_types \<Longrightarrow> t @ '':'' @ x = t' @ '':'' @ y \<Longrightarrow> x = y"
  by (auto simp: keyless_types_def)

lemma numbered_seq: "t \<in> set keyless_types \<Longrightarrow> numbered (t @ '':'' @ show_int n) m \<Longrightarrow> m = n"
  unfolding numbered_def by (metis keyless_same show_int_inj)

lemma item_key_not_keyless: "timeline_item_key e = Some k \<Longrightarrow> \<not> keyless_key k"
  by (auto simp: timeline_item_key_def Let_def keyless_key_def keyless_types_def split: event_body.splits)

lemma keyless_event_type:
  "timeline_item_key e = None \<Longrightarrow> \<not> is_run_state (ev_body e) \<Longrightarrow> ev_body e \<noteq> Done \<Longrightarrow>
    event_type_value (ev_body e) \<in> set keyless_types"
  by (auto simp: timeline_item_key_def Let_def keyless_types_def split: event_body.splits)

text \<open>A fresh pair.\<close>

lemma fresh_pair:
  assumes ok: "bus_ok session db b" and k: "k \<notin> fst ` set (bs_item_seq b)"
    and kind: "keyless_key k \<longrightarrow> numbered k (bs_seq b + 1)"
  shows "identities_ok (insert (k, bs_seq b + 1) (bus_pairs session db b))"
proof (rule identities_insert)
  show "identities_ok (bus_pairs session db b)" using ok by (simp add: bus_ok_def)
  show "\<forall>(k', n')\<in>bus_pairs session db b. k' \<noteq> k \<and> n' \<noteq> bs_seq b + 1"
  proof (clarify, intro conjI)
    fix k' n' assume p: "(k', n') \<in> bus_pairs session db b"
    then have n: "n' \<le> bs_seq b" and or: "(k', n') \<in> set (bs_item_seq b) \<or> keyless_key k'"
      using ok by (auto simp: bus_ok_def)
    from n show "n' \<noteq> bs_seq b + 1" by simp
    show "k' \<noteq> k"
    proof
      assume "k' = k"
      moreover from this or k have "keyless_key k'" by force
      moreover from this p ok have "numbered k' n'" by (auto simp: bus_ok_def identities_ok_def)
      ultimately have "numbered k n'" "numbered k (bs_seq b + 1)" using kind by simp_all
      then have "n' = bs_seq b + 1" unfolding numbered_def by (metis keyless_same show_int_inj)
      with n show False by simp
    qed
  qed
qed (rule kind)

lemma stamp_ok:
  assumes ok: "bus_ok session db b" and stamp: "stamp_event e b = (e', key, b')"
  shows "bus_ok session db b' \<and> bs_live b' = bs_live b \<and> bs_writer b' = bs_writer b
    \<and> (\<forall>k. key = Some k \<longrightarrow> identities_ok (insert (k, ev_seq e') (bus_pairs session db b'))
          \<and> ev_seq e' \<le> bs_seq b' \<and> ((k, ev_seq e') \<in> set (bs_item_seq b') \<or> keyless_key k))"
proof (cases "is_run_state (ev_body e) \<or> ev_body e = Done")
  case True
  with ok stamp show ?thesis by (auto simp: stamp_event_def)
next
  case False
  show ?thesis
  proof (cases "timeline_item_key e")
    case None
    let ?k = "event_type_value (ev_body e) @ '':'' @ show_int (bs_seq b + 1)"
    have t: "event_type_value (ev_body e) \<in> set keyless_types" using keyless_event_type[OF None] False by blast
    then have k: "keyless_key ?k" "numbered ?k (bs_seq b + 1)" unfolding keyless_key_def numbered_def by blast+
    have notin: "?k \<notin> fst ` set (bs_item_seq b)"
    proof
      assume "?k \<in> fst ` set (bs_item_seq b)"
      then obtain n where n: "(?k, n) \<in> bus_pairs session db b" by (force simp: bus_pairs_def)
      with ok k(1) have "numbered ?k n" "n \<le> bs_seq b" by (auto simp: bus_ok_def identities_ok_def)
      with numbered_seq[OF t] show False by force
    qed
    have pairs: "bus_pairs session db (b\<lparr>bs_seq := bs_seq b + 1\<rparr>) = bus_pairs session db b" by (simp add: bus_pairs_def)
    have eqs: "e' = e\<lparr>ev_seq := bs_seq b + 1\<rparr>" "b' = b\<lparr>bs_seq := bs_seq b + 1\<rparr>"
      "key = (if is_persistable e' then Some ?k else None)"
      using stamp False None by (auto simp: stamp_event_def Let_def is_persistable_def)
    have "bus_ok session db b'" using ok unfolding eqs bus_ok_def pairs by fastforce
    with fresh_pair[OF ok notin] k show ?thesis by (simp add: eqs pairs)
  next
    case (Some k)
    note plain = item_key_not_keyless[OF Some]
    show ?thesis
    proof (cases "map_of (bs_item_seq b) k")
      case (Some n)
      then have n: "(k, n) \<in> set (bs_item_seq b)" by (rule map_of_SomeD)
      then have p: "(k, n) \<in> bus_pairs session db b" by (simp add: bus_pairs_def)
      have eqs: "e' = e\<lparr>ev_seq := n\<rparr>" "b' = b" "key = (if is_persistable e' then Some k else None)"
        using stamp False \<open>timeline_item_key e = Some k\<close> Some by (auto simp: stamp_event_def Let_def is_persistable_def)
      have "insert (k, n) (bus_pairs session db b) = bus_pairs session db b" using p by blast
      moreover have "identities_ok (bus_pairs session db b)" "n \<le> bs_seq b" using ok p by (auto simp: bus_ok_def)
      ultimately show ?thesis using ok n by (simp add: eqs)
    next
      case None
      let ?b = "b\<lparr>bs_seq := bs_seq b + 1, bs_item_seq := bs_item_seq b @ [(k, bs_seq b + 1)]\<rparr>"
      have eqs: "e' = e\<lparr>ev_seq := bs_seq b + 1\<rparr>" "b' = ?b" "key = (if is_persistable e' then Some k else None)"
        using stamp False \<open>timeline_item_key e = Some k\<close> None by (auto simp: stamp_event_def Let_def is_persistable_def)
      have pairs: "bus_pairs session db ?b = insert (k, bs_seq b + 1) (bus_pairs session db b)"
        by (auto simp: bus_pairs_def)
      have notin: "k \<notin> fst ` set (bs_item_seq b)" using None by (simp add: map_of_eq_None_iff)
      have ids: "identities_ok (bus_pairs session db ?b)"
        unfolding pairs by (rule fresh_pair[OF ok notin]) (simp add: plain)
      have "\<forall>(k', n)\<in>bus_pairs session db ?b. n \<le> bs_seq b + 1 \<and> ((k', n) \<in> set (bs_item_seq ?b) \<or> keyless_key k')"
        unfolding pairs using ok by (fastforce simp: bus_ok_def)
      then have "bus_ok session db ?b" using ids ok by (simp add: bus_ok_def)
      with ids show ?thesis by (simp add: eqs pairs)
    qed
  qed
qed

lemma bus_ok_cong:
  assumes "bus_ok session db b" and "bs_seq b' = bs_seq b" and "bs_item_seq b' = bs_item_seq b" and "bs_loaded b'"
    and "bs_writer b' = bs_writer b" and "live_ok (bs_live b')"
  shows "bus_ok session db b'"
  using assms unfolding bus_ok_def bus_pairs_def by simp

lemma publish_ok:
  assumes ok: "bus_ok session db b"
  shows "\<exists>r b'. publish_external dump e b = Some (r, b') \<and> bus_ok session db b'"
proof -
  obtain e' key b1 where stamp: "stamp_event e b = (e', key, b1)" by (cases "stamp_event e b")
  note s = stamp_ok[OF ok stamp]
  then have b1: "bus_ok session db b1" and "live_ok (bs_live b1)" by (auto simp: bus_ok_def)
  then obtain live where live: "live_apply e' (bs_live b1) = Some live" "live_ok live" using live_apply_step by blast
  let ?b = "deliver e' (b1\<lparr>bs_live := live\<rparr>)"
  have loaded: "bs_loaded b1" using b1 by (simp add: bus_ok_def)
  have b: "bus_ok session db ?b" using b1 live(2) loaded by (rule_tac bus_ok_cong[OF b1]) (simp_all add: deliver_def)
  show ?thesis
  proof (cases key)
    case None
    with stamp live have "publish_external dump e b = Some (True, ?b)" by (simp add: publish_external_def Let_def)
    with b show ?thesis by blast
  next
    case (Some k)
    let ?row = "(k, ev_seq e', dump e', ev_created_at e')"
    let ?b' = "?b\<lparr>bs_writer := snd (tw_enqueue ?row (bs_writer ?b))\<rparr>"
    have "publish_external dump e b = Some (fst (tw_enqueue ?row (bs_writer ?b)), ?b')"
      using stamp live Some loaded by (simp add: publish_external_def Let_def deliver_def split: prod.split)
    moreover have "bus_ok session db ?b'"
    proof (cases "tw_stopping (bs_writer ?b)")
      case True
      then have "?b' = ?b" by (simp add: tw_enqueue_def)
      with b show ?thesis by simp
    next
      case False
      have pairs: "bus_pairs session db ?b' = insert (k, ev_seq e') (bus_pairs session db ?b)"
        using False by (auto simp: bus_pairs_def tw_enqueue_def row_pair_def row_key_def)
      have pb: "bus_pairs session db ?b = bus_pairs session db b1" by (simp add: bus_pairs_def deliver_def)
      have "identities_ok (bus_pairs session db ?b')" using s Some unfolding pairs pb by simp
      moreover have "ev_seq e' \<le> bs_seq ?b' \<and> ((k, ev_seq e') \<in> set (bs_item_seq ?b') \<or> keyless_key k)"
        using s Some by (simp add: deliver_def)
      moreover have "bs_seq ?b' = bs_seq ?b" "bs_item_seq ?b' = bs_item_seq ?b" "bs_loaded ?b'" "live_ok (bs_live ?b')"
        using loaded live(2) by (simp_all add: deliver_def)
      ultimately show ?thesis using b unfolding bus_ok_def pairs by simp
    qed
    ultimately show ?thesis by blast
  qed
qed

lemma update_new: "k \<notin> fst ` set d \<Longrightarrow> AList.update k v d = d @ [(k, v)]"
  by (induction d) auto

lemma fold_update_fresh:
  "distinct (map fst (d @ map (\<lambda>r. (lr_key r, lr_seq r)) rows)) \<Longrightarrow>
    fold (\<lambda>r d. AList.update (lr_key r) (lr_seq r) d) rows d = d @ map (\<lambda>r. (lr_key r, lr_seq r)) rows"
proof (induction rows arbitrary: d)
  case (Cons r rows)
  have "AList.update (lr_key r) (lr_seq r) d = d @ [(lr_key r, lr_seq r)]"
    using Cons.prems by (intro update_new) auto
  with Cons show ?case by simp
qed simp

lemma fold_default_fresh: "distinct (map fst (d @ xs)) \<Longrightarrow> fold set_default xs d = d @ xs"
proof (induction xs arbitrary: d)
  case (Cons x xs)
  obtain k n where x: "x = (k, n)" by (cases x)
  have "map_of d k = None" using Cons.prems by (simp add: x map_of_eq_None_iff)
  with Cons show ?case by (simp add: x)
qed simp

lemma loaded_ok:
  assumes "log_ok session db"
  shows "bus_ok session db (ensure_timeline_loaded session db (new_bus session db))"
proof -
  let ?pairs = "log_pairs session db"
  let ?b = "ensure_timeline_loaded session db (new_bus session db)"
  have d: "distinct (map fst ?pairs)" using assms by (simp add: log_ok_def)
  have head: "load_timeline_head session db = (max_int 0 (map snd ?pairs), ?pairs)"
    using fold_update_fresh[of "[]" "session_rows session db"] d by (simp add: load_timeline_head_def log_pairs_def)
  have b: "bs_item_seq ?b = ?pairs" "bs_seq ?b = max 0 (max_int 0 (map snd ?pairs))" "bs_loaded ?b"
    "bs_live ?b = no_live_events" "tw_accepted (bs_writer ?b) = []"
    using fold_default_fresh[of "[]" ?pairs] d
    by (simp_all add: ensure_timeline_loaded_def new_bus_def head tw_started_def consumer_alive_def)
  then have pairs: "bus_pairs session db ?b = set ?pairs" by (simp add: bus_pairs_def)
  have "n \<le> bs_seq ?b" if "(k, n) \<in> set ?pairs" for k n
    using max_int_ge[of n "map snd ?pairs" 0] that by (force simp: b)
  then show ?thesis using assms no_live_events_ok unfolding bus_ok_def pairs by (auto simp: b log_ok_def)
qed

lemma exec_ok:
  assumes "bus_ok session db b"
  shows "\<exists>b'. bus_exec dump x (Some b) = Some b' \<and> bus_ok session db b'"
proof -
  have same: "bs_loaded b" "live_ok (bs_live b)" using assms by (simp_all add: bus_ok_def)
  show ?thesis
proof (cases x)
  case (Publish e)
  with publish_ok[OF assms, of dump e] show ?thesis by auto
next
  case (RunStateOp r now)
  let ?e = "\<lparr>ev_created_at = now, ev_seq = 0, ev_agent_name = [], ev_nested_for = [], ev_nested_call_id = [],
              ev_body = RunState r\<rparr>"
  have reset: "live_ok (live_reset ?e p)" for p by (rule live_reset_ok) simp
  have "live_ok (bs_live b)" using assms by (simp add: bus_ok_def)
  then obtain live where "live_apply ?e (bs_live b) = Some live" "live_ok live" using live_apply_step by blast
  have cong: "bus_ok session db b'" if "bs_seq b' = bs_seq b" "bs_item_seq b' = bs_item_seq b"
      "bs_loaded b' = bs_loaded b" "bs_writer b' = bs_writer b" "live_ok (bs_live b')" for b'
    using that assms by (intro bus_ok_cong[OF assms]) (simp_all add: bus_ok_def)
  have "\<exists>b'. publish_run_state r now b = Some b' \<and> bus_ok session db b'"
  proof (cases r)
    case True
    with reset show ?thesis by (auto simp: publish_run_state_def Let_def deliver_def intro!: cong)
  next
    case False
    with reset \<open>live_apply ?e (bs_live b) = Some live\<close> show ?thesis
      by (auto simp: publish_run_state_def Let_def deliver_def intro!: cong)
  qed
  with RunStateOp show ?thesis by simp
next
  case (Subscribe c f)
  have "bus_ok session db (bus_subscribe c f b)"
    using same by (intro bus_ok_cong[OF assms]) (simp_all add: bus_subscribe_def)
  with Subscribe show ?thesis by simp
next
  case (Unsubscribe c)
  have "bus_ok session db (bus_unsubscribe c b)"
    using same by (intro bus_ok_cong[OF assms]) (simp_all add: bus_unsubscribe_def)
  with Unsubscribe show ?thesis by simp
qed
qed

lemma run_ok: "bus_ok session db b \<Longrightarrow> \<exists>b'. fold (bus_exec dump) ops (Some b) = Some b' \<and> bus_ok session db b'"
proof (induction ops arbitrary: b)
  case (Cons x ops)
  from exec_ok[OF Cons.prems] obtain b' where "bus_exec dump x (Some b) = Some b'" "bus_ok session db b'" by blast
  with Cons.IH[of b'] show ?case by simp
qed simp

text \<open>What an upsert adds to the identities of the log.\<close>

lemma log_pairs_upsert:
  "log_pairs s (upsert_row s r db) = log_pairs s db @ (if list_ex (row_at s (row_key r)) db then [] else [row_pair r])"
proof -
  obtain k n x a where r: "r = (k, n, x, a)" by (cases r)
  have pairs: "log_pairs s db = map snd (filter (\<lambda>i. fst i = s) (map identity_of db))" for db
    by (simp add: log_pairs_def session_rows_def identity_of_def filter_map comp_def)
  show ?thesis unfolding pairs r identities_upsert_row by (simp add: row_pair_def row_key_def)
qed

lemma log_pairs_fold:
  "set (log_pairs s (fold (upsert_row s) rows db)) \<subseteq> set (log_pairs s db) \<union> row_pair ` set rows
    \<and> (distinct (map fst (log_pairs s db)) \<longrightarrow> distinct (map fst (log_pairs s (fold (upsert_row s) rows db))))"
proof (induction rows arbitrary: db)
  case (Cons r rows)
  have mem: "list_ex (row_at s k) db \<longleftrightarrow> k \<in> fst ` set (log_pairs s db)" for k
    by (force simp: list_ex_iff row_at_def log_pairs_def session_rows_def)
  have "distinct (map fst (log_pairs s db)) \<Longrightarrow> distinct (map fst (log_pairs s (upsert_row s r db)))"
    using mem[of "row_key r"] by (simp add: log_pairs_upsert row_pair_def)
  moreover have "set (log_pairs s (upsert_row s r db)) \<subseteq> insert (row_pair r) (set (log_pairs s db))"
    by (auto simp: log_pairs_upsert)
  ultimately show ?case using Cons.IH[of "upsert_row s r db"] by fastforce
qed simp

lemma log_ok_seqs: "log_ok s db \<Longrightarrow> distinct (map lr_seq (session_rows s db))"
proof -
  assume ok: "log_ok s db"
  have "inj_on snd (set (log_pairs s db))" using ok by (fastforce simp: log_ok_def identities_ok_def inj_on_def)
  moreover have "distinct (log_pairs s db)" using ok by (simp add: log_ok_def distinct_map)
  ultimately have "distinct (map snd (log_pairs s db))" by (simp add: distinct_map)
  then show ?thesis by (simp add: log_pairs_def comp_def)
qed


definition sample_timeline :: "log_row list" where
  "sample_timeline = map (\<lambda>(n, k). \<lparr>lr_session = ''s'', lr_seq = n, lr_key = k, lr_payload = ''{}'', lr_created_at = 0\<rparr>)
     [(4, ''tc::c''), (5, ''sa:r'')]"

lemma sample_timeline_ok: "log_ok ''s'' sample_timeline"
  by (simp add: log_ok_def sample_timeline_def log_pairs_def session_rows_def identities_ok_def keyless_key_def keyless_types_def)


section \<open>An event published before the timeline is loaded\<close>

definition subagent_update :: "string \<Rightarrow> event_body" where
  "subagent_update r = SubagentTask r [] [] [] T_RUNNING [] [] 0 0 False []"

text \<open>A session that publishes first and loads after keeps the number it made up: the row of the log
  has number 5, the session goes on with number 1 for the same key.\<close>

lemma early_event_splits_seq:
  "\<exists>b e. bus_run (\<lambda>_. []) [Publish (sample_event (subagent_update ''r''))] (new_bus ''s'' sample_timeline) = Some b
    \<and> fst (stamp_event (sample_event (subagent_update ''r'')) (ensure_timeline_loaded ''s'' sample_timeline b)) = e
    \<and> ev_seq e = 1 \<and> (''sa:r'', 5) \<in> set (log_pairs ''s'' sample_timeline)"
  by (simp add: bus_run_def publish_external_def stamp_event_def sample_event_def subagent_update_def timeline_item_key_def
      new_bus_def live_apply_def apply_subagent_def no_live_events_def Let_def is_persistable_def control_types_def
      delta_types_def deliver_def ensure_timeline_loaded_def load_timeline_head_def sample_timeline_def session_rows_def
      log_pairs_def)

end
