(* ===== verification/Task_Runtime.thy ===== *)
theory Task_Runtime
  imports Event_Bus Formats
begin

text \<open>
  How the runtime of an agent consumes its notifications, \<^verbatim>\<open>src/core/task_runtime/\<close>: the drain loop
  \<^verbatim>\<open>run_until_idle\<close>, the interruptible stream and its trigger; the signals of
  \<^verbatim>\<open>src/core/runtime/notification_dispatch.py\<close>; the resumption prompts of
  \<^verbatim>\<open>src/core/delegation/notifications.py\<close>; and the idle times of \<^verbatim>\<open>src/core/runtime/streaming.py\<close>.
\<close>

section \<open>Resumption prompts\<close>

definition nl2 :: string where
  "nl2 = [newline, newline]"

text \<open>\<^verbatim>\<open>str.rstrip()\<close>.\<close>

definition truncate_with_marker :: "string \<Rightarrow> nat \<Rightarrow> string \<Rightarrow> string" where
  "truncate_with_marker s limit marker =
    (if length s \<le> limit then s
     else let suffix = nl2 @ marker; body_limit = max 1 (int limit - int (length suffix))
          in rstrip_by py_space (take (nat body_limit) s) @ suffix)"

definition fit_text_input :: "string \<Rightarrow> string" where
  "fit_text_input s =
     truncate_with_marker (if str_strip s \<noteq> [] then str_strip s else ''Task context is available.'')
       max_agent_text_input_chars ''[Task resumption context truncated to fit input limits.]''"

definition sandbox_error_preview_chars :: nat where
  "sandbox_error_preview_chars = 1000"

definition truncate_inline :: "json \<Rightarrow> nat \<Rightarrow> string" where
  "truncate_inline v limit =
    (let s = str_strip (sanitize_context_text (text_field v)) in
     if s = [] then [] else truncate_with_marker s limit ''[Preview truncated.]'')"

definition resumption_header :: string where
  "resumption_header = TASK_RESUMPTION_CONTEXT_HEADER @ nl2 @
     ''This is task context, not a new user request. '' @
     ''Continue from the completed background work without mentioning how this context was delivered.''"

definition str_or :: "string \<Rightarrow> string \<Rightarrow> string" where
  "str_or s d = (if s \<noteq> [] then s else d)"

definition subagent_finished_prompt :: "notification_snapshot \<Rightarrow> string" where
  "subagent_finished_prompt n =
    (let payload = sn_payload n;
         status = str_or (text_field (dict_get payload ''status'')) ''unknown'';
         agent_code = text_field (dict_get payload ''agent_code'');
         agent_name = str_or (text_field (dict_get payload ''agent_name'')) (str_or agent_code ''subagent'');
         run_id = str_or (text_field (dict_get payload ''run_id'')) (sn_run_id n)
     in join_with nl2
          [resumption_header,
           ''## Event'' @ nl2 @ join_with [newline]
             [''- kind: delegated_task_completed'', ''- run_id: '' @ run_id,
              ''- agent_code: '' @ str_or agent_code ''unknown'', ''- subagent: '' @ agent_name, ''- status: '' @ status],
           ''## Next Step'' @ nl2 @
             ''Call `read_subagent_task(run_id, offset=0)` and repeat with `offset=next_offset` '' @
             ''until the response omits `next_offset` to read the full result/error. '' @
             ''Report to the user only when there is a useful conclusion, coordination update, or next action.''])"

text \<open>\<^verbatim>\<open>int(value or 0)\<close> of the integers the writer stores.\<close>

fun int_field :: "json \<Rightarrow> int" where
  "int_field (JInt i) = i"
| "int_field _ = 0"

definition sandbox_async_job_prompt :: "notification_snapshot \<Rightarrow> string" where
  "sandbox_async_job_prompt n =
    (let payload = sn_payload n;
         status = str_or (text_field (dict_get payload ''status'')) ''unknown'';
         output_file = text_field (dict_get payload ''output_file'');
         error_preview = truncate_inline (dict_get payload ''error'') sandbox_error_preview_chars;
         exit_lines = (case dict_get payload ''exit_code'' of JNull \<Rightarrow> []
                       | JInt i \<Rightarrow> [''- exit_code: '' @ show_int i] | v \<Rightarrow> [''- exit_code: '' @ text_field v]);
         file_lines = (if output_file = [] then []
           else [''- output_file: '' @ output_file,
                 ''- output_lines: '' @ show_int (int_field (dict_get payload ''output_lines'')),
                 ''- output_bytes: '' @ show_int (int_field (dict_get payload ''output_bytes''))])
     in join_with nl2
          ([resumption_header,
            ''## Event'' @ nl2 @ join_with [newline]
              ([''- kind: async_command_completed'', ''- run_id: '' @ sn_run_id n, ''- status: '' @ status]
                @ exit_lines @ file_lines)]
           @ (if error_preview = [] then [] else [''## Error Preview'' @ nl2 @ error_preview])
           @ [''## Next Step'' @ nl2 @
              ''The async command has reached a terminal state. If `output_lines` is greater than 0 and the result matters, '' @
              ''read it with `read_sandbox_command_output` using `output_file` and `start_line: 1`, then continue the task.'']))"

text \<open>\<^const>\<open>None\<close> is the \<^verbatim>\<open>ValueError\<close> for a user message.\<close>

definition notification_prompt :: "notification_snapshot \<Rightarrow> string option" where
  "notification_prompt n =
    (case sn_kind n of
       USER_MESSAGE \<Rightarrow> None
     | SANDBOX_ASYNC_JOB_FINISHED \<Rightarrow> Some (fit_text_input (sandbox_async_job_prompt n))
     | SUBAGENT_FINISHED \<Rightarrow> Some (fit_text_input (subagent_finished_prompt n)))"

text \<open>A prompt is always an acceptable text input.\<close>

lemma length_rstrip_by: "length (rstrip_by p xs) \<le> length xs"
  by (simp add: rstrip_by_def) (metis length_dropWhile_le length_rev)

lemma truncate_bound:
  assumes "length marker + 3 \<le> limit"
  shows "length (truncate_with_marker s limit marker) \<le> limit"
proof (cases "length s \<le> limit")
  case False
  have l: "length (nl2 @ marker) = length marker + 2" by (simp add: nl2_def)
  have m: "nat (max 1 (int limit - int (length (nl2 @ marker)))) = limit - (length marker + 2)"
    unfolding l using assms by simp
  have "length (rstrip_by py_space (take (limit - (length marker + 2)) s)) \<le> limit - (length marker + 2)"
    by (rule order.trans[OF length_rstrip_by]) simp
  with False assms l show ?thesis unfolding truncate_with_marker_def Let_def m by simp
qed (simp add: truncate_with_marker_def)

lemma fit_text_bound: "length (fit_text_input s) \<le> max_agent_text_input_chars"
  unfolding fit_text_input_def by (rule truncate_bound) (simp add: max_agent_text_input_chars_def)

section \<open>Triggers\<close>

record turn_trigger =
  tt_content :: "input_part list"
  tt_notification :: "notification_snapshot option"
  tt_emit_user_event :: bool

definition is_user_message_snapshot :: "notification_snapshot \<Rightarrow> bool" where
  "is_user_message_snapshot n \<longleftrightarrow> sn_kind n = USER_MESSAGE"

definition content_is_retrieval_input :: "turn_trigger \<Rightarrow> bool" where
  "content_is_retrieval_input t = (case tt_notification t of None \<Rightarrow> True | Some n \<Rightarrow> is_user_message_snapshot n)"

definition build_turn_input_item :: "turn_trigger \<Rightarrow> json" where
  "build_turn_input_item t =
     build_user_message_item (tt_content t) (if content_is_retrieval_input t then [] else TASK_RESUMPTION_CONTEXT_ITEM_ID)"

definition media_of :: "json \<Rightarrow> image_media option" where
  "media_of v = (case v of JStr s \<Rightarrow> List.find (\<lambda>m. media_type_value m = s) [PNG, JPEG, WEBP] | _ \<Rightarrow> None)"

definition detail_of :: "json option \<Rightarrow> image_detail option" where
  "detail_of v = (case v of None \<Rightarrow> Some D_AUTO
     | Some (JStr s) \<Rightarrow> List.find (\<lambda>d. detail_value d = s) [D_AUTO, D_LOW, D_HIGH] | Some _ \<Rightarrow> None)"

text \<open>One stored part: no part, a part, or an exception (the outer \<^const>\<open>None\<close>).\<close>

definition part_of_raw :: "(string \<Rightarrow> bool) \<Rightarrow> json \<Rightarrow> input_part option option" where
  "part_of_raw decodes raw =
    (case raw of
       JObj d \<Rightarrow>
         let t = (case map_of d ''type'' of None \<Rightarrow> JStr [] | Some v \<Rightarrow> v) in
         if t = JStr ''text''
         then (let v = dict_get d ''text'' in
               if \<not> truthy v then Some None
               else (case v of JStr s \<Rightarrow> if str_strip s = [] then Some None else map_option Some (make_text_part (str_strip s))
                     | _ \<Rightarrow> None))
         else if t = JStr ''image''
         then (if truthy (dict_get d ''media_type'') \<and> truthy (dict_get d ''data'')
               then (case (media_of (dict_get d ''media_type''), dict_get d ''data'', detail_of (map_of d ''detail'')) of
                       (Some m, JStr x, Some y) \<Rightarrow> map_option Some (make_image_part decodes m x y)
                     | _ \<Rightarrow> None)
               else Some None)
         else Some None
     | _ \<Rightarrow> None)"

fun parts_of_raw :: "(string \<Rightarrow> bool) \<Rightarrow> json list \<Rightarrow> input_part list option" where
  "parts_of_raw decodes [] = Some []"
| "parts_of_raw decodes (r # rs) =
    (case part_of_raw decodes r of
       None \<Rightarrow> None
     | Some p \<Rightarrow> map_option (\<lambda>ps. (case p of None \<Rightarrow> ps | Some x \<Rightarrow> x # ps)) (parts_of_raw decodes rs))"

definition text_input_content :: "string \<Rightarrow> input_part list option" where
  "text_input_content s = map_option (\<lambda>p. [p]) (make_text_part s)"

text \<open>\<open>ellipsis\<close> is the one-character text the code falls back to, which is not a code point below
  256.\<close>

definition content_for_notification ::
  "(string \<Rightarrow> bool) \<Rightarrow> string \<Rightarrow> notification_snapshot \<Rightarrow> input_part list option" where
  "content_for_notification decodes ellipsis n =
    (if is_user_message_snapshot n
     then (case parts_of_raw decodes (case sn_user_content n of None \<Rightarrow> [] | Some c \<Rightarrow> c) of
             None \<Rightarrow> None
           | Some parts \<Rightarrow> if parts \<noteq> [] then Some parts else text_input_content (str_or (sn_user_display_text n) ellipsis))
     else (case notification_prompt n of None \<Rightarrow> None | Some p \<Rightarrow> text_input_content p))"

definition trigger_for_notification ::
  "(string \<Rightarrow> bool) \<Rightarrow> string \<Rightarrow> notification_snapshot \<Rightarrow> turn_trigger option" where
  "trigger_for_notification decodes ellipsis n =
     map_option (\<lambda>c. \<lparr>tt_content = c, tt_notification = Some n, tt_emit_user_event = False\<rparr>)
       (content_for_notification decodes ellipsis n)"

section \<open>The drain loop\<close>

datatype turn_outcome = TurnDone | TurnInterrupted | TurnCancelled | TurnFailed string

text \<open>A turn is the outcome of \<^verbatim>\<open>run_turn\<close> and what other tasks do to the notifications while it runs.
  The list of turns is the script of the environment: the loop takes one entry per claimed
  notification; \<open>Busy\<close> means it is in a turn when the script ends.\<close>

type_synonym turn = "turn_outcome \<times> notification_op list"

datatype drain_end = Idle | Cancelled | Busy | RaisedError string

definition handling_failed :: string where
  "handling_failed = ''notification handling failed''"

definition close_turn :: "turn_outcome \<Rightarrow> string \<Rightarrow> datetime \<Rightarrow> notification list \<Rightarrow> notification list" where
  "close_turn outcome k now rows =
    (case outcome of
       TurnDone \<Rightarrow> snd (complete_notification k now rows)
     | TurnInterrupted \<Rightarrow> snd (complete_notification k now rows)
     | TurnCancelled \<Rightarrow> snd (release_notification k now rows)
     | TurnFailed e \<Rightarrow> snd (fail_notification k (str_or e handling_failed) now rows))"

fun drain_loop ::
  "(notification_snapshot \<Rightarrow> turn_trigger option) \<Rightarrow> string \<Rightarrow> string \<Rightarrow> string \<Rightarrow> datetime \<Rightarrow> turn list
     \<Rightarrow> notification list \<Rightarrow> drain_end \<times> turn_trigger list \<times> notification list" where
  "drain_loop mk err session inst now [] rows =
    (case claim_next_pending session None (Some inst) now rows of
       (None, rows) \<Rightarrow> (Idle, [], rows)
     | (Some n, rows) \<Rightarrow> (Busy, [], rows))"
| "drain_loop mk err session inst now ((outcome, ops) # turns) rows =
    (case claim_next_pending session None (Some inst) now rows of
       (None, rows) \<Rightarrow> (Idle, [], rows)
     | (Some n, rows) \<Rightarrow>
         (case mk n of
            None \<Rightarrow> drain_loop mk err session inst now turns (close_turn (TurnFailed err) (sn_id n) now rows)
          | Some t \<Rightarrow>
              let rows = close_turn outcome (sn_id n) now (notification_run ops rows) in
              if outcome = TurnCancelled then (Cancelled, [t], rows)
              else (case drain_loop mk err session inst now turns rows of (fin, ts, rows) \<Rightarrow> (fin, t # ts, rows))))"

text \<open>The initial turn is not a notification: an exception of it leaves the loop.\<close>

definition run_until_idle ::
  "(notification_snapshot \<Rightarrow> turn_trigger option) \<Rightarrow> string \<Rightarrow> string \<Rightarrow> string \<Rightarrow> datetime
     \<Rightarrow> (input_part list \<times> turn) option \<Rightarrow> turn list \<Rightarrow> notification list
     \<Rightarrow> drain_end \<times> turn_trigger list \<times> notification list" where
  "run_until_idle mk err session inst now initial turns rows =
    (case initial of
       None \<Rightarrow> drain_loop mk err session inst now turns rows
     | Some (content, outcome, ops) \<Rightarrow>
         let rows = notification_run ops rows;
             t = \<lparr>tt_content = content, tt_notification = None, tt_emit_user_event = False\<rparr> in
         (case outcome of
            TurnCancelled \<Rightarrow> (Cancelled, [t], rows)
          | TurnFailed e \<Rightarrow> (RaisedError e, [t], rows)
          | _ \<Rightarrow> (case drain_loop mk err session inst now turns rows of (fin, ts, rows) \<Rightarrow> (fin, t # ts, rows))))"

subsection \<open>Every claimed notification is settled\<close>

definition settled_row :: "turn_outcome \<Rightarrow> datetime \<Rightarrow> notification \<Rightarrow> notification" where
  "settled_row outcome now n =
    (claimed_row now n)\<lparr>nt_status := (case outcome of TurnFailed e \<Rightarrow> N_FAILED | _ \<Rightarrow> N_COMPLETED),
       nt_error := (case outcome of TurnFailed e \<Rightarrow> str_or e handling_failed | _ \<Rightarrow> []),
       nt_updated_at := now, nt_finished_at := Some now\<rparr>"

lemma close_claimed:
  assumes u: "unique_ok rows" and n: "n \<in> set rows" and alive: "outcome \<noteq> TurnCancelled"
  shows "close_turn outcome (nt_id n) now (map (\<lambda>r. if r = n then claimed_row now n else r) rows) =
    map (\<lambda>r. if r = n then settled_row outcome now n else r) rows"
proof -
  let ?rows = "map (\<lambda>r. if r = n then claimed_row now n else r) rows"
  have d: "distinct (map nt_id rows)" using u by (simp add: unique_ok_def)
  have ids: "map nt_id ?rows = map nt_id rows" by (simp add: claimed_row_def)
  have only: "r = n" if "r \<in> set rows" "nt_id r = nt_id n" for r
    using that n d by (auto simp: distinct_map inj_on_def)
  have c: "claimed_row now n \<in> set ?rows" "nt_status (claimed_row now n) = N_PROCESSING" "nt_id (claimed_row now n) = nt_id n"
    using n by (auto simp: claimed_row_def)
  have find: "find_notification (nt_id n) ?rows = Some (claimed_row now n)"
  proof (cases "find_notification (nt_id n) ?rows")
    case None
    with c show ?thesis unfolding find_notification_def find_None_iff' by metis
  next
    case (Some x)
    then have x: "x \<in> set ?rows" "nt_id x = nt_id n" using find_SomeD unfolding find_notification_def by fastforce+
    then have "x = claimed_row now n" using only by (auto split: if_splits)
    with Some show ?thesis by simp
  qed
  have upd: "update_rows (\<lambda>r. nt_id r = nt_id n \<and> nt_status r = N_PROCESSING) f ?rows
      = map (\<lambda>r. if r = n then f (claimed_row now n) else r) rows" for f
    using only c by (auto simp: update_rows_def)
  have guard: "guarded_update (\<lambda>r. nt_id r = nt_id n \<and> nt_status r = N_PROCESSING) f ?rows
      = Some (map (\<lambda>r. if r = n then f (claimed_row now n) else r) rows)" for f
    using guarded_update_one[of ?rows "claimed_row now n" "\<lambda>r. nt_status r = N_PROCESSING" f] c d ids
    by (simp only: upd)
  have finish: "snd (finish_notification (nt_id n) st e now ?rows) =
      map (\<lambda>r. if r = n then (claimed_row now n)\<lparr>nt_status := st, nt_error := e, nt_updated_at := now,
        nt_finished_at := Some now\<rparr> else r) rows" for st e
    by (simp add: finish_notification_def find c(2) guard terminal_statuses_def)
  note defs = close_turn_def complete_notification_def fail_notification_def finish settled_row_def
  show ?thesis
  proof (cases outcome)
    case TurnCancelled
    with alive show ?thesis by simp
  qed (simp_all only: defs turn_outcome.case)
qed

definition settles :: "string \<Rightarrow> string \<Rightarrow> notification \<Rightarrow> notification \<Rightarrow> bool" where
  "settles session inst r r' \<longleftrightarrow>
    (if pending_for session None (Some inst) r
     then same_identity r r' \<and> nt_status r' \<in> {N_COMPLETED, N_FAILED} \<and> nt_started_at r' \<noteq> None \<and> nt_finished_at r' \<noteq> None
     else r' = r)"

lemma settled_facts:
  "same_identity r (settled_row oc now r)" "nt_status (settled_row oc now r) \<in> {N_COMPLETED, N_FAILED}"
  "nt_started_at (settled_row oc now r) = Some now" "nt_finished_at (settled_row oc now r) = Some now"
  "nt_id (settled_row oc now r) = nt_id r" "nt_kind (settled_row oc now r) = nt_kind r"
  "nt_run_id (settled_row oc now r) = nt_run_id r"
  by (cases oc; simp add: settled_row_def same_identity_def claimed_row_def)+

lemma settles_trans:
  assumes "n \<in> set rows" and "pending_for session None (Some inst) n"
    and "list_all2 (settles session inst) (map (\<lambda>r. if r = n then settled_row oc now n else r) rows) rows'"
  shows "list_all2 (settles session inst) rows rows'"
  unfolding list_all2_conv_all_nth
proof (intro conjI allI impI)
  show "length rows = length rows'" using assms(3) by (auto dest: list_all2_lengthD)
  fix i assume i: "i < length rows"
  then have s: "settles session inst (if rows ! i = n then settled_row oc now n else rows ! i) (rows' ! i)"
    using assms(3) by (auto simp: list_all2_conv_all_nth)
  show "settles session inst (rows ! i) (rows' ! i)"
  proof (cases "rows ! i = n")
    case True
    have "\<not> pending_for session None (Some inst) (settled_row oc now n)"
      using settled_facts(2)[of oc now n] by (auto simp: pending_for_def)
    with s True have "rows' ! i = settled_row oc now n" by (simp add: settles_def)
    with True assms(2) show ?thesis using settled_facts by (simp add: settles_def)
  qed (use s in simp)
qed

lemma pending_decreases:
  assumes "distinct (map nt_id rows)" and "n \<in> set rows" and "pending_for session None (Some inst) n"
  shows "length (filter (pending_for session None (Some inst)) (map (\<lambda>r. if r = n then settled_row oc now n else r) rows))
    < length (filter (pending_for session None (Some inst)) rows)"
  using assms(1,2)
proof (induction rows)
  case (Cons r rows)
  have np: "\<not> pending_for session None (Some inst) (settled_row oc now n)"
    using settled_facts(2)[of oc now n] by (auto simp: pending_for_def)
  show ?case
  proof (cases "r = n")
    case True
    then have "n \<notin> set rows" using Cons.prems(1) by auto
    then have "map (\<lambda>r. if r = n then settled_row oc now n else r) rows = rows" by (induction rows) auto
    with True np assms(3) show ?thesis by simp
  next
    case False
    with Cons show ?thesis by simp
  qed
qed simp

lemma unique_settled: "unique_ok rows \<Longrightarrow> unique_ok (map (\<lambda>r. if r = n then settled_row oc now n else r) rows)"
proof -
  have same: "map f (map (\<lambda>r. if r = n then settled_row oc now n else r) rows) = map f rows"
    if "f (settled_row oc now n) = f n" for f :: "notification \<Rightarrow> 'a" using that by simp
  show "unique_ok rows \<Longrightarrow> unique_ok (map (\<lambda>r. if r = n then settled_row oc now n else r) rows)"
    unfolding unique_ok_def by (simp only: same settled_facts(5,6,7))
qed

definition undisturbed :: "turn \<Rightarrow> bool" where
  "undisturbed t \<longleftrightarrow> snd t = [] \<and> fst t \<noteq> TurnCancelled"

lemma claim_order_Nil: "claim_order xs = [] \<longleftrightarrow> xs = []"
  unfolding claim_order_def by (metis length_0_conv length_sort)

lemma drain_step:
  assumes u: "unique_ok rows" and t: "undisturbed (outcome, ops)"
  shows "(\<not> has_pending_notification session None (Some inst) rows
        \<and> drain_loop mk err session inst now ((outcome, ops) # turns) rows = (Idle, [], rows))
    \<or> (\<exists>n oc. n \<in> set rows \<and> pending_for session None (Some inst) n \<and>
        (\<exists>pre. length pre \<le> 1 \<and> drain_loop mk err session inst now ((outcome, ops) # turns) rows =
          (case drain_loop mk err session inst now turns (map (\<lambda>r. if r = n then settled_row oc now n else r) rows) of
            (fin, ts, rows) \<Rightarrow> (fin, pre @ ts, rows))))"
proof (cases "claim_next_pending session None (Some inst) now rows")
  case (Pair sn rows1)
  note best = claim_next_cases[OF u, of session None "Some inst" now]
  show ?thesis
  proof (cases sn)
    case None
    have "\<not> has_pending_notification session None (Some inst) rows"
    proof
      assume "has_pending_notification session None (Some inst) rows"
      then have "filter (pending_for session None (Some inst)) rows \<noteq> []"
        by (auto simp: has_pending_notification_def filter_empty_conv)
      then have "claim_order (filter (pending_for session None (Some inst)) rows) \<noteq> []"
        by (simp only: claim_order_Nil not_False_eq_True simp_thms)
      with best Pair None show False by (simp split: list.splits)
    qed
    moreover have "rows1 = rows" using best Pair None by (simp split: list.splits)
    ultimately show ?thesis using Pair None by simp
  next
    case (Some s)
    then obtain n rest where order: "claim_order (filter (pending_for session None (Some inst)) rows) = n # rest"
      using best Pair by (auto split: list.splits)
    have n: "n \<in> set rows" "pending_for session None (Some inst) n" using claim_order_hd[OF order] by auto
    have s: "sn_id s = nt_id n" using best Pair Some order by (simp add: snapshot_from_notification_def Let_def claimed_row_def)
    have only: "r = n" if "r \<in> set rows" "nt_id r = nt_id n" for r
      using that n(1) u by (auto simp: unique_ok_def distinct_map inj_on_def)
    have rows1: "rows1 = map (\<lambda>r. if r = n then claimed_row now n else r) rows"
      using best Pair Some order only n(2) by (auto simp: update_rows_def pending_for_def)
    have close: "close_turn oc (sn_id s) now rows1 = map (\<lambda>r. if r = n then settled_row oc now n else r) rows"
      if "oc \<noteq> TurnCancelled" for oc
      unfolding s rows1 by (rule close_claimed[OF u n(1) that])
    have run: "notification_run ops rows1 = rows1" using t by (simp add: undisturbed_def notification_run_def)
    show ?thesis
    proof (cases "mk s")
      case None
      with Pair Some close[of "TurnFailed err"] n show ?thesis
        by (intro disjI2 exI[of _ n] exI[of _ "TurnFailed err"] conjI exI[of _ "[]"]) (auto split: prod.split)
    next
      case (Some x)
      have alive: "outcome \<noteq> TurnCancelled" using t by (simp add: undisturbed_def)
      with Pair Some \<open>sn = Some s\<close> close[OF alive] n run show ?thesis
        by (intro disjI2 exI[of _ n] exI[of _ outcome] conjI exI[of _ "[x]"]) (auto split: prod.split)
    qed
  qed
qed

lemma drain_settles_all:
  assumes "unique_ok rows" and "list_all undisturbed turns"
    and "length (filter (pending_for session None (Some inst)) rows) \<le> length turns"
  shows "\<exists>ts rows'. drain_loop mk err session inst now turns rows = (Idle, ts, rows')
    \<and> list_all2 (settles session inst) rows rows' \<and> length ts \<le> length (filter (pending_for session None (Some inst)) rows)"
  using assms
proof (induction turns arbitrary: rows)
  case Nil
  then have none: "\<forall>r\<in>set rows. \<not> pending_for session None (Some inst) r" by (simp add: filter_empty_conv)
  then have "claim_order (filter (pending_for session None (Some inst)) rows) = []"
    by (simp add: claim_order_Nil filter_False)
  then have "claim_next_pending session None (Some inst) now rows = (None, rows)"
    by (simp add: claim_next_cases[OF Nil.prems(1)])
  with none show ?case by (auto simp: list_all2_conv_all_nth settles_def)
next
  case (Cons t turns)
  obtain outcome ops where t: "t = (outcome, ops)" by (cases t)
  have "undisturbed (outcome, ops)" using Cons.prems(2) t by simp
  from drain_step[OF Cons.prems(1) this, of session inst mk err now turns] show ?case
  proof (elim disjE conjE exE)
    assume "\<not> has_pending_notification session None (Some inst) rows"
      "drain_loop mk err session inst now ((outcome, ops) # turns) rows = (Idle, [], rows)"
    then show ?thesis by (auto simp: t list_all2_conv_all_nth settles_def has_pending_notification_def)
  next
    fix n oc pre
    assume n: "n \<in> set rows" "pending_for session None (Some inst) n"
      and pre: "length pre \<le> 1"
      and eq: "drain_loop mk err session inst now ((outcome, ops) # turns) rows =
          (case drain_loop mk err session inst now turns (map (\<lambda>r. if r = n then settled_row oc now n else r) rows) of
            (fin, ts, rows) \<Rightarrow> (fin, pre @ ts, rows))"
    let ?rows = "map (\<lambda>r. if r = n then settled_row oc now n else r) rows"
    let ?pending = "\<lambda>rows. length (filter (pending_for session None (Some inst)) rows)"
    have less: "?pending ?rows < ?pending rows"
      using Cons.prems(1) n by (intro pending_decreases) (simp_all add: unique_ok_def)
    have "list_all undisturbed turns" "?pending ?rows \<le> length turns" using Cons.prems(2,3) less t by simp_all
    from Cons.IH[OF unique_settled[OF Cons.prems(1)] this] obtain ts rows' where
      IH: "drain_loop mk err session inst now turns ?rows = (Idle, ts, rows')"
        "list_all2 (settles session inst) ?rows rows'" "length ts \<le> ?pending ?rows" by blast
    have "drain_loop mk err session inst now (t # turns) rows = (Idle, pre @ ts, rows')" using eq IH(1) t by simp
    moreover have "length (pre @ ts) \<le> ?pending rows" using pre IH(3) less by simp
    ultimately show ?thesis using settles_trans[OF n IH(2)] by blast
  qed
qed



section \<open>The interruptible stream\<close>

text \<open>A round of \<^verbatim>\<open>asyncio.wait\<close>: what the stream delivered, and, when the signal task is done, whether a
  notification is pending.\<close>

datatype stream_item = NoEvent | StreamEvent event_body | StreamEnd | StreamRaised

type_synonym stream_round = "stream_item \<times> bool option"

datatype stream_end = Interrupted | Exhausted | Raised | Streaming

definition next_pending :: "event_body \<Rightarrow> nat \<Rightarrow> nat" where
  "next_pending e n = (case e of ToolCall _ _ _ \<Rightarrow> n + 1 | ToolResult _ _ _ \<Rightarrow> n - 1 | _ \<Rightarrow> n)"

fun interruptible_loop :: "nat \<Rightarrow> bool \<Rightarrow> stream_round list \<Rightarrow> event_body list \<times> stream_end" where
  "interruptible_loop n deferred [] = ([], Streaming)"
| "interruptible_loop n deferred ((x, sig) # rounds) =
    (case x of
       StreamEnd \<Rightarrow> ([], Exhausted)
     | StreamRaised \<Rightarrow> ([], Raised)
     | NoEvent \<Rightarrow>
         if sig = Some True \<and> n = 0 then ([], Interrupted)
         else interruptible_loop n (deferred \<or> sig = Some True) rounds
     | StreamEvent e \<Rightarrow>
         let n = next_pending e n in
         if deferred \<and> n = 0 then ([e], Interrupted)
         else if sig = Some True \<and> n = 0 then ([e], Interrupted)
         else (case interruptible_loop n (deferred \<or> sig = Some True) rounds of (es, fin) \<Rightarrow> (e # es, fin)))"

definition iter_interruptible_events :: "bool \<Rightarrow> stream_round list \<Rightarrow> event_body list \<times> stream_end" where
  "iter_interruptible_events pending_at_start rounds =
    (if pending_at_start then ([], Interrupted) else interruptible_loop 0 False rounds)"

fun stream_events :: "stream_round list \<Rightarrow> event_body list" where
  "stream_events [] = []"
| "stream_events ((StreamEvent e, _) # rounds) = e # stream_events rounds"
| "stream_events (_ # rounds) = stream_events rounds"

definition open_calls :: "nat \<Rightarrow> event_body list \<Rightarrow> nat" where
  "open_calls n es = fold next_pending es n"

lemma open_calls_simps [simp]: "open_calls n [] = n" "open_calls n (e # es) = open_calls (next_pending e n) es"
  by (simp_all add: open_calls_def)

lemma loop_prefix: "interruptible_loop n d rounds = (es, fin) \<Longrightarrow> prefix es (stream_events rounds)"
proof (induction n d rounds arbitrary: es fin rule: interruptible_loop.induct)
  case (2 n d x sig rounds)
  then show ?case by (auto simp: Let_def split: stream_item.splits if_splits prod.splits)
qed auto

lemma loop_interrupted_safe: "interruptible_loop n d rounds = (es, Interrupted) \<Longrightarrow> open_calls n es = 0"
proof (induction n d rounds arbitrary: es rule: interruptible_loop.induct)
  case (2 n d x sig rounds)
  then show ?case by (auto simp: Let_def split: stream_item.splits if_splits prod.splits)
qed auto

lemma ex_nth_Cons: "\<exists>j\<le>Suc m. P ((x # xs) ! j) \<Longrightarrow> P x \<or> (\<exists>j\<le>m. P (xs ! j))"
proof -
  assume "\<exists>j\<le>Suc m. P ((x # xs) ! j)"
  then obtain j where j: "j \<le> Suc m" "P ((x # xs) ! j)" by blast
  then show ?thesis by (cases j) auto
qed

text \<open>A stream that goes on after a pending notification was seen is inside tool calls.\<close>

lemma loop_masked:
  assumes "interruptible_loop n d rounds = (es, Streaming)" and "d \<longrightarrow> 0 < n"
    and "k < length rounds" and "d \<or> (\<exists>j\<le>k. snd (rounds ! j) = Some True)"
  shows "0 < open_calls n (stream_events (take (Suc k) rounds))"
  using assms
proof (induction n d rounds arbitrary: es k rule: interruptible_loop.induct)
  case (2 n d x sig rounds)
  show ?case
  proof (cases x)
    case NoEvent
    let ?d = "d \<or> sig = Some True"
    have loop: "interruptible_loop n ?d rounds = (es, Streaming)" "?d \<longrightarrow> 0 < n"
      using 2(3,4) NoEvent by (auto split: if_splits)
    show ?thesis
    proof (cases k)
      case 0
      with 2(6) loop(2) NoEvent show ?thesis by auto
    next
      case (Suc m)
      have "?d \<or> (\<exists>j\<le>m. snd (rounds ! j) = Some True)"
        using 2(6) ex_nth_Cons[of m "\<lambda>r. snd r = Some True" "(x, sig)" rounds] unfolding Suc snd_conv by blast
      moreover have "\<not> (sig = Some True \<and> n = 0)" using 2(3) NoEvent by (auto split: if_splits)
      moreover have "m < length rounds" using 2(5) Suc by simp
      ultimately have "0 < open_calls n (stream_events (take (Suc m) rounds))" using 2(1)[OF NoEvent _ loop] by blast
      then show ?thesis using NoEvent Suc by simp
    qed
  next
    case (StreamEvent e)
    let ?d = "d \<or> sig = Some True"
    let ?n = "next_pending e n"
    obtain es' where loop: "interruptible_loop ?n ?d rounds = (es', Streaming)" "?d \<longrightarrow> 0 < ?n"
      using 2(3) StreamEvent by (auto simp: Let_def split: if_splits prod.splits)
    show ?thesis
    proof (cases k)
      case 0
      with 2(6) loop(2) StreamEvent show ?thesis by auto
    next
      case (Suc m)
      have "?d \<or> (\<exists>j\<le>m. snd (rounds ! j) = Some True)"
        using 2(6) ex_nth_Cons[of m "\<lambda>r. snd r = Some True" "(x, sig)" rounds] unfolding Suc snd_conv by blast
      moreover have "\<not> (d \<and> ?n = 0)" "\<not> (sig = Some True \<and> ?n = 0)"
        using 2(3) StreamEvent by (auto simp: Let_def split: if_splits)
      moreover have "m < length rounds" using 2(5) Suc by simp
      ultimately have "0 < open_calls ?n (stream_events (take (Suc m) rounds))"
        using 2(2)[OF StreamEvent refl _ _ loop] by blast
      then show ?thesis using StreamEvent Suc by simp
    qed
  qed (use 2(3) in simp_all)
qed simp



section \<open>Signals\<close>

text \<open>The versions and the events of \<^verbatim>\<open>notification_dispatch.py\<close>; an event is its flag.\<close>

record dispatch =
  dp_versions :: "string \<rightharpoonup> nat"
  dp_signals :: "string \<rightharpoonup> bool"

definition target_notification_version :: "string \<Rightarrow> dispatch \<Rightarrow> nat" where
  "target_notification_version t d = (case dp_versions d t of None \<Rightarrow> 0 | Some v \<Rightarrow> v)"

definition signal_target_notifications :: "string \<Rightarrow> dispatch \<Rightarrow> dispatch" where
  "signal_target_notifications t d =
     d\<lparr>dp_versions := (dp_versions d)(t \<mapsto> target_notification_version t d + 1),
       dp_signals := (case dp_signals d t of None \<Rightarrow> dp_signals d | Some f \<Rightarrow> (dp_signals d)(t \<mapsto> True))\<rparr>"

definition forget_target_notifications :: "string \<Rightarrow> dispatch \<Rightarrow> dispatch" where
  "forget_target_notifications t d =
     d\<lparr>dp_versions := (dp_versions d)(t := None), dp_signals := (dp_signals d)(t := None)\<rparr>"

text \<open>\<^verbatim>\<open>wait_for_target_notifications\<close> of one waiter: at the version test, between clearing the event and
  waiting for it, waiting, or returned.\<close>

datatype signal_waiter = AtTest nat | BeforeWait nat | InWait nat | WaitReturned bool

definition wait_begin :: "string \<Rightarrow> nat option \<Rightarrow> dispatch \<Rightarrow> signal_waiter \<times> dispatch" where
  "wait_begin t after d =
    (AtTest (case after of None \<Rightarrow> target_notification_version t d | Some v \<Rightarrow> v),
     d\<lparr>dp_signals := (case dp_signals d t of None \<Rightarrow> (dp_signals d)(t \<mapsto> False) | Some f \<Rightarrow> dp_signals d)\<rparr>)"

inductive signal_step :: "string \<Rightarrow> signal_waiter \<times> dispatch \<Rightarrow> signal_waiter \<times> dispatch \<Rightarrow> bool" for t where
  seen: "target_notification_version t d \<noteq> v \<Longrightarrow> signal_step t (AtTest v, d) (WaitReturned True, d)"
| clear: "target_notification_version t d = v \<Longrightarrow> dp_signals d t = Some f \<Longrightarrow>
    signal_step t (AtTest v, d) (BeforeWait v, d\<lparr>dp_signals := (dp_signals d)(t \<mapsto> False)\<rparr>)"
| sleep: "dp_signals d t \<noteq> Some True \<Longrightarrow> signal_step t (BeforeWait v, d) (InWait v, d)"
| awake: "dp_signals d t = Some True \<Longrightarrow> signal_step t (BeforeWait v, d) (AtTest v, d)"
| expire: "signal_step t (InWait v, d) (WaitReturned False, d)"
| signal: "signal_step t (w, d) (case w of InWait v \<Rightarrow> AtTest v | _ \<Rightarrow> w, signal_target_notifications t d)"
| signal_other: "u \<noteq> t \<Longrightarrow> signal_step t (w, d) (w, signal_target_notifications u d)"

text \<open>The only waiter of a target never sleeps on a version that has changed.\<close>

definition waiter_ok :: "string \<Rightarrow> signal_waiter \<times> dispatch \<Rightarrow> bool" where
  "waiter_ok t s = (case s of (w, d) \<Rightarrow>
    dp_signals d t \<noteq> None \<and>
    (case w of InWait v \<Rightarrow> target_notification_version t d = v
     | BeforeWait v \<Rightarrow> target_notification_version t d = v \<or> dp_signals d t = Some True
     | _ \<Rightarrow> True))"

lemma version_signal:
  "target_notification_version t (signal_target_notifications u d) =
    (if t = u then target_notification_version t d + 1 else target_notification_version t d)"
  by (simp add: target_notification_version_def signal_target_notifications_def)

lemma version_flags: "target_notification_version t (d\<lparr>dp_signals := x\<rparr>) = target_notification_version t d"
  by (simp add: target_notification_version_def)

lemma flag_signal:
  "dp_signals (signal_target_notifications u d) t =
    (if t = u then map_option (\<lambda>f. True) (dp_signals d u) else dp_signals d t)"
  by (simp add: signal_target_notifications_def split: option.split)

lemma waiter_step [inv_intros]: "signal_step t s s' \<Longrightarrow> waiter_ok t s \<Longrightarrow> waiter_ok t s'"
  by (induction rule: signal_step.induct)
    (auto simp: waiter_ok_def version_signal flag_signal version_flags split: signal_waiter.splits)

lemma no_lost_signal:
  assumes "(signal_step t)\<^sup>*\<^sup>* (wait_begin t after d) (InWait v, d')"
  shows "target_notification_version t d' = v"
proof -
  have "waiter_ok t (wait_begin t after d)" by (auto simp: waiter_ok_def wait_begin_def split: option.splits)
  with assms have "waiter_ok t (InWait v, d')" by (induction rule: rtranclp_induct) (auto intro: waiter_step)
  then show ?thesis by (simp add: waiter_ok_def)
qed

section \<open>Idle times and scopes of a stream\<close>

definition tool_event_idle_timeout_seconds :: int where
  "tool_event_idle_timeout_seconds = 450"

definition event_timeout_seconds :: "int \<Rightarrow> int \<Rightarrow> int" where
  "event_timeout_seconds model_timeout pending =
    (if pending \<le> 0 then model_timeout else max model_timeout tool_event_idle_timeout_seconds)"

text \<open>\<open>name\<close> is the name of a run item event, \<^const>\<open>None\<close> for other stream events.\<close>

definition next_pending_tool_calls :: "int \<Rightarrow> string option \<Rightarrow> int" where
  "next_pending_tool_calls current name =
    (case name of None \<Rightarrow> current
     | Some n \<Rightarrow> if n = ''tool_called'' then current + 1
                else if n = ''tool_output'' \<and> current > 0 then current - 1 else current)"

text \<open>The characters \<^verbatim>\<open>str.isalnum\<close> accepts, up to code point 255.\<close>

definition py_alnum :: "char \<Rightarrow> bool" where
  "py_alnum c \<longleftrightarrow> (let n = (of_char c :: nat) in
     (48 \<le> n \<and> n \<le> 57) \<or> (65 \<le> n \<and> n \<le> 90) \<or> (97 \<le> n \<and> n \<le> 122) \<or>
     n \<in> {170, 178, 179, 181, 185, 186, 188, 189, 190} \<or> (192 \<le> n \<and> n \<noteq> 215 \<and> n \<noteq> 247))"

definition next_segment_scope :: "string \<Rightarrow> string \<Rightarrow> string" where
  "next_segment_scope uuid_hex owner =
    (let normalized = map (\<lambda>c. if py_alnum c then c else CHR ''_'') (str_strip owner);
         safe = str_or (strip_by (\<lambda>c. c = CHR ''_'') normalized) ''agent''
     in ''turn_'' @ safe @ ''_'' @ uuid_hex)"

definition subagent_instance_prefix :: string where
  "subagent_instance_prefix = ''subagent:''"

definition main_agent_instance_id :: "string \<Rightarrow> int \<Rightarrow> string \<Rightarrow> string" where
  "main_agent_instance_id session_id user_id agent_code =
     main_agent_prefix @ session_id @ '':'' @ show_int user_id @ '':'' @ agent_code"

definition subagent_instance_id :: "string \<Rightarrow> string" where
  "subagent_instance_id run_id = subagent_instance_prefix @ run_id"

definition is_main_agent_instance :: "string \<Rightarrow> bool" where
  "is_main_agent_instance i \<longleftrightarrow> take 5 i = main_agent_prefix"

lemma instance_ids:
  "is_main_agent_instance (main_agent_instance_id s u c)" "\<not> is_main_agent_instance (subagent_instance_id r)"
  by (simp_all add: is_main_agent_instance_def main_agent_instance_id_def subagent_instance_id_def
      subagent_instance_prefix_def main_agent_prefix_def)

text \<open>The context of a running agent, \<^verbatim>\<open>AgentRuntimeContext\<close> of \<^verbatim>\<open>src/core/runtime/context.py\<close>.\<close>

record runtime_context =
  rx_session :: string
  rx_user :: int
  rx_agent_code :: string
  rx_instance :: string
  rx_project :: "int option"
  rx_container :: "int option"
  rx_generation :: int
  rx_skills :: "string list"
  rx_targets :: "string list"
  rx_actions :: "string list"
  rx_scope :: string

end
