(* ===== verification/App_Db.thy ===== *)
theory App_Db
  imports Work_Findings Event_Bus Subordinates Async_Jobs
begin

text \<open>
  The application database as the session and project services see it: the rows of
  \<^verbatim>\<open>src/model/agent/sessions.py\<close> and \<^verbatim>\<open>src/model/work_project/projects.py\<close>, the tables they refer
  to, the rule of access to sessions and projects, and the integrity of all of it.
\<close>

section \<open>Rows\<close>

datatype user_role = ADMIN | USER

datatype session_type = CHAT | PROJECT_SESSION

datatype project_status = W_WORKING | W_COMPLETED | W_CANCELED

datatype project_type = PENETRATION_TEST | SOURCE_CODE_AUDIT

datatype project_task_status = TODO | IN_PROGRESS | BLOCKED | DONE_TASK

datatype container_status = C_CREATED | C_RUNNING | C_PAUSED | C_STOPPED | C_ERROR

datatype egress_mode = DIRECT | PROXY | TOR

datatype proxy_type = HTTP_PROXY | HTTPS_PROXY | SOCKS5_PROXY

record system_user =
  us_id :: int
  us_role :: user_role
  us_username :: string
  us_email :: string
  us_password :: string
  us_created_at :: datetime
  us_updated_at :: datetime

record managed_host =
  mh_id :: int
  mh_display_name :: string
  mh_ip :: string
  mh_ssh_port :: int
  mh_account :: string
  mh_password :: string
  mh_created_at :: datetime
  mh_updated_at :: datetime

record sandbox_image =
  im_id :: int
  im_name :: string
  im_control_port :: int
  im_tor :: bool
  im_created_at :: datetime
  im_updated_at :: datetime

record egress_proxy =
  px_id :: int
  px_type :: proxy_type
  px_host :: string
  px_port :: int
  px_account :: string
  px_password :: string
  px_created_at :: datetime
  px_updated_at :: datetime

record port_mapping =
  pm_container :: int
  pm_host :: int
  pm_protocol :: string

record container =
  ct_id :: int
  ct_owner :: int
  ct_status :: container_status
  ct_updated_at :: datetime
  ct_host :: int
  ct_image :: int
  ct_mode :: egress_mode
  ct_proxy :: "int option"
  ct_name :: string
  ct_hash :: string
  ct_token :: string
  ct_ports :: "port_mapping list"
  ct_control_port :: int
  ct_created_at :: datetime

text \<open>Of the tables of the SDK the components read the identifiers and the times.\<close>

record sdk_session =
  sk_id :: string
  sk_created_at :: datetime
  sk_updated_at :: datetime

record session_meta =
  sm_session_id :: string
  sm_type :: session_type
  sm_title :: string
  sm_agent_code :: string
  sm_owner :: int
  sm_project :: "int option"
  sm_selected :: "int option"
  sm_selected_generation :: int
  sm_running :: bool
  sm_runtime_agent :: string
  sm_runtime_container :: "int option"
  sm_runtime_generation :: int
  sm_started_at :: "datetime option"
  sm_finished_at :: "datetime option"
  sm_error :: string
  sm_created_at :: datetime

record project_task =
  wt_id :: string
  wt_title :: string
  wt_status :: project_task_status
  wt_assignee :: string
  wt_progress :: rat
  wt_summary :: string

record summary_content =
  sc_task_id :: string
  sc_task_title :: string
  sc_progress :: rat
  sc_status :: string
  sc_findings :: "string list"
  sc_decisions :: "string list"
  sc_blockers :: "string list"
  sc_next_steps :: "string list"
  sc_notes :: string

text \<open>The slots of \<^verbatim>\<open>agent_summaries\<close> by agent code, each with the time it was written.\<close>

record project =
  pj_id :: int
  pj_name :: string
  pj_description :: string
  pj_tasks :: "project_task list"
  pj_summaries :: "(string \<times> summary_content \<times> datetime) list"
  pj_progress :: rat
  pj_status :: project_status
  pj_type :: project_type
  pj_created_at :: datetime
  pj_updated_at :: datetime

record project_owner =
  ow_project :: int
  ow_user :: int
  ow_position :: nat

record project_container =
  bd_project :: int
  bd_container :: int
  bd_position :: nat

text \<open>Messages are pairs of identifier and session; of the compactions only the session matters
  here.\<close>

record app_db =
  ad_users :: "system_user list"
  ad_containers :: "container list"
  ad_sdk :: "sdk_session list"
  ad_messages :: "(int \<times> string) list"
  ad_message_meta :: "int list"
  ad_metas :: "session_meta list"
  ad_log :: "log_row list"
  ad_notices :: "notification list"
  ad_tasks :: "subordinate_task list"
  ad_jobs :: "async_job list"
  ad_compactions :: "string list"
  ad_projects :: "project list"
  ad_owners :: "project_owner list"
  ad_bindings :: "project_container list"
  ad_graph :: graph_db
  ad_hosts :: "managed_host list"
  ad_images :: "sandbox_image list"
  ad_proxies :: "egress_proxy list"

section \<open>Access\<close>

definition get_meta :: "string \<Rightarrow> app_db \<Rightarrow> session_meta option" where
  "get_meta s db = List.find (\<lambda>m. sm_session_id m = s) (ad_metas db)"

definition get_project :: "int \<Rightarrow> app_db \<Rightarrow> project option" where
  "get_project k db = get_row pj_id k (ad_projects db)"

definition is_project_owner :: "int \<Rightarrow> int \<Rightarrow> app_db \<Rightarrow> bool" where
  "is_project_owner k user db \<longleftrightarrow> list_ex (\<lambda>w. ow_project w = k \<and> ow_user w = user) (ad_owners db)"

definition can_access_work_project :: "int \<Rightarrow> int \<Rightarrow> user_role \<Rightarrow> app_db \<Rightarrow> bool" where
  "can_access_work_project k user role db \<longleftrightarrow>
     (if get_project k db = None then False else if role = ADMIN then True else is_project_owner k user db)"

definition can_access_meta :: "session_meta \<Rightarrow> int \<Rightarrow> user_role \<Rightarrow> app_db \<Rightarrow> bool" where
  "can_access_meta m user role db \<longleftrightarrow>
    (case sm_project m of
       None \<Rightarrow> sm_owner m = user
     | Some k \<Rightarrow>
         if get_project k db = None then False else if role = ADMIN then True else is_project_owner k user db)"

definition can_access_session :: "string \<Rightarrow> int \<Rightarrow> user_role \<Rightarrow> app_db \<Rightarrow> bool" where
  "can_access_session s user role db \<longleftrightarrow> (case get_meta s db of None \<Rightarrow> False | Some m \<Rightarrow> can_access_meta m user role db)"

definition get_accessible_session_meta :: "string \<Rightarrow> int \<Rightarrow> user_role \<Rightarrow> app_db \<Rightarrow> session_meta option" where
  "get_accessible_session_meta s user role db =
    (case get_meta s db of None \<Rightarrow> None | Some m \<Rightarrow> if can_access_meta m user role db then Some m else None)"

definition project_id_for_session :: "string \<Rightarrow> app_db \<Rightarrow> int option" where
  "project_id_for_session s db = (case get_meta s db of None \<Rightarrow> None | Some m \<Rightarrow> sm_project m)"

section \<open>Progress and status of a project\<close>

text \<open>\<^verbatim>\<open>round(x, 2)\<close>: to the nearest hundredth, ties to the even one.\<close>

definition round_half_even :: "rat \<Rightarrow> int" where
  "round_half_even x =
    (let n = floor x; d = x - of_int n in
     if d < 1 / 2 then n else if 1 / 2 < d then n + 1 else if even n then n else n + 1)"

definition round2 :: "rat \<Rightarrow> rat" where
  "round2 x = of_int (round_half_even (100 * x)) / 100"

definition calculate_work_project_progress :: "project_task list \<Rightarrow> rat" where
  "calculate_work_project_progress tasks =
    (if tasks = [] then 0 else round2 (sum_list (map wt_progress tasks) / of_nat (length tasks)))"

definition derive_work_project_status :: "project_task list \<Rightarrow> project_status \<Rightarrow> project_status" where
  "derive_work_project_status tasks current =
    (if current = W_CANCELED then W_CANCELED
     else if tasks = [] then W_WORKING
     else if list_all (\<lambda>t. wt_status t = DONE_TASK) tasks then W_COMPLETED else W_WORKING)"

text \<open>The status and the progress a stored project shows are those of its tasks.\<close>

definition project_consistent :: "project \<Rightarrow> bool" where
  "project_consistent p \<longleftrightarrow> pj_progress p = calculate_work_project_progress (pj_tasks p)
     \<and> derive_work_project_status (pj_tasks p) (pj_status p) = pj_status p"

section \<open>Integrity\<close>

definition sdk_ids :: "app_db \<Rightarrow> string set" where
  "sdk_ids db = sk_id ` set (ad_sdk db)"

definition project_ids :: "app_db \<Rightarrow> int set" where
  "project_ids db = pj_id ` set (ad_projects db)"

text \<open>The type of a session says whether it belongs to a project, which then exists.\<close>

definition meta_ok :: "app_db \<Rightarrow> session_meta \<Rightarrow> bool" where
  "meta_ok db m \<longleftrightarrow> sm_session_id m \<in> sdk_ids db
     \<and> (case sm_project m of None \<Rightarrow> sm_type m = CHAT | Some k \<Rightarrow> sm_type m = PROJECT_SESSION \<and> k \<in> project_ids db)"

definition sessions_ok :: "app_db \<Rightarrow> bool" where
  "sessions_ok db \<longleftrightarrow>
     distinct (map sk_id (ad_sdk db)) \<and> distinct (map sm_session_id (ad_metas db)) \<and> (\<forall>m\<in>set (ad_metas db). meta_ok db m)
     \<and> snd ` set (ad_messages db) \<subseteq> sdk_ids db \<and> set (ad_message_meta db) \<subseteq> fst ` set (ad_messages db)
     \<and> lr_session ` set (ad_log db) \<subseteq> sdk_ids db \<and> nt_session_id ` set (ad_notices db) \<subseteq> sdk_ids db
     \<and> tk_session_id ` set (ad_tasks db) \<subseteq> sdk_ids db \<and> set (ad_compactions db) \<subseteq> sdk_ids db"

definition owner_key :: "project_owner \<Rightarrow> int \<times> int" where
  "owner_key w = (ow_project w, ow_user w)"

text \<open>A project has at most one container and a container at most one project.\<close>

definition projects_ok :: "app_db \<Rightarrow> bool" where
  "projects_ok db \<longleftrightarrow>
     distinct (map pj_id (ad_projects db)) \<and> (\<forall>k\<in>project_ids db. 0 < k) \<and> distinct (map owner_key (ad_owners db))
     \<and> distinct (map bd_project (ad_bindings db)) \<and> distinct (map bd_container (ad_bindings db))
     \<and> (\<forall>w\<in>set (ad_owners db). ow_project w \<in> project_ids db \<and> ow_user w \<in> us_id ` set (ad_users db))
     \<and> (\<forall>b\<in>set (ad_bindings db). bd_project b \<in> project_ids db \<and> bd_container b \<in> ct_id ` set (ad_containers db))
     \<and> gd_projects (ad_graph db) = map pj_id (ad_projects db) \<and> graph_ok (ad_graph db)
     \<and> (\<forall>p\<in>set (ad_projects db). project_consistent p)"

definition app_ok :: "app_db \<Rightarrow> bool" where
  "app_ok db \<longleftrightarrow> sessions_ok db \<and> projects_ok db"

definition empty_app :: "system_user list \<Rightarrow> container list \<Rightarrow> app_db" where
  "empty_app users containers =
     \<lparr>ad_users = users, ad_containers = containers, ad_sdk = [], ad_messages = [], ad_message_meta = [], ad_metas = [],
      ad_log = [], ad_notices = [], ad_tasks = [], ad_jobs = [], ad_compactions = [], ad_projects = [], ad_owners = [],
      ad_bindings = [], ad_graph = \<lparr>gd_projects = [], gd_assets = [], gd_edges = [], gd_paths = [], gd_steps = [],
        gd_findings = []\<rparr>, ad_hosts = [], ad_images = [], ad_proxies = []\<rparr>"

text \<open>Rows for the examples.\<close>

definition plain_user :: "int \<Rightarrow> string \<Rightarrow> system_user" where
  "plain_user i name = \<lparr>us_id = i, us_role = USER, us_username = name, us_email = [], us_password = [], us_created_at = 0,
     us_updated_at = 0\<rparr>"

definition plain_container :: "int \<Rightarrow> int \<Rightarrow> container" where
  "plain_container i owner = \<lparr>ct_id = i, ct_owner = owner, ct_status = C_RUNNING, ct_updated_at = 3, ct_host = 1, ct_image = 1,
     ct_mode = DIRECT, ct_proxy = None, ct_name = [], ct_hash = [], ct_token = [], ct_ports = [], ct_control_port = 0,
     ct_created_at = 0\<rparr>"

lemma empty_app_ok: "app_ok (empty_app users containers)"
  by (simp add: app_ok_def sessions_ok_def projects_ok_def empty_app_def graph_ok_def table_ok_def project_ids_def)

lemma find_key_iff: "distinct (map f rows) \<Longrightarrow> List.find (\<lambda>r. f r = k) rows = Some r \<longleftrightarrow> r \<in> set rows \<and> f r = k"
  by (induction rows) (auto simp: image_iff)

lemma get_metaD: "get_meta s db = Some m \<Longrightarrow> m \<in> set (ad_metas db) \<and> sm_session_id m = s"
  unfolding get_meta_def by (rule find_SomeD)

lemma get_projectD: "get_project k db = Some p \<Longrightarrow> p \<in> set (ad_projects db) \<and> pj_id p = k"
  unfolding get_project_def by (rule get_rowD)

lemma get_project_iff: "get_project k db \<noteq> None \<longleftrightarrow> k \<in> project_ids db"
  by (auto simp: get_project_def get_row_None project_ids_def)

lemma get_meta_iff:
  "distinct (map sm_session_id (ad_metas db)) \<Longrightarrow> get_meta s db = Some m \<longleftrightarrow> m \<in> set (ad_metas db) \<and> sm_session_id m = s"
  unfolding get_meta_def by (rule find_key_iff)

lemma accessible_meta_iff:
  "(\<exists>m. get_accessible_session_meta s user role db = Some m) \<longleftrightarrow> can_access_session s user role db"
  by (simp add: get_accessible_session_meta_def can_access_session_def split: option.splits)

lemma can_access_project_session:
  "sm_project m = Some k \<Longrightarrow> can_access_meta m user role db = can_access_work_project k user role db"
  by (simp add: can_access_meta_def can_access_work_project_def)

text \<open>The rounded mean of values from 0 to 100 is such a value.\<close>

lemma round_half_even_mono_bounds:
  assumes "0 \<le> x" and "x \<le> of_int n"
  shows "0 \<le> round_half_even x" and "round_half_even x \<le> n"
proof -
  have f: "0 \<le> floor x" using assms(1) by simp
  have d: "floor x = n \<or> floor x + 1 \<le> n" using assms(2) by linarith
  have "floor x = n \<Longrightarrow> x - of_int (floor x) = 0" using assms(2) by linarith
  then show "0 \<le> round_half_even x" "round_half_even x \<le> n"
    using f d by (auto simp: round_half_even_def Let_def)
qed

lemma round2_bounds:
  assumes "0 \<le> x" and "x \<le> 100"
  shows "0 \<le> round2 x" and "round2 x \<le> 100"
proof -
  have "0 \<le> round_half_even (100 * x)" "round_half_even (100 * x) \<le> 10000"
    using round_half_even_mono_bounds[of "100 * x" 10000] assms by auto
  then show "0 \<le> round2 x" "round2 x \<le> 100" by (auto simp: round2_def)
qed

lemma sum_list_bounds: "\<forall>x\<in>set xs. 0 \<le> f x \<and> f x \<le> (c::rat) \<Longrightarrow> 0 \<le> sum_list (map f xs) \<and> sum_list (map f xs) \<le> c * of_nat (length xs)"
  by (induction xs) (auto simp: algebra_simps)

lemma progress_bounds:
  assumes "\<forall>t\<in>set tasks. 0 \<le> wt_progress t \<and> wt_progress t \<le> 100"
  shows "0 \<le> calculate_work_project_progress tasks" and "calculate_work_project_progress tasks \<le> 100"
proof -
  have "0 \<le> sum_list (map wt_progress tasks) / of_nat (length tasks)"
    and "tasks \<noteq> [] \<Longrightarrow> sum_list (map wt_progress tasks) / of_nat (length tasks) \<le> 100"
    using sum_list_bounds[OF assms] by (auto simp: divide_simps)
  then show "0 \<le> calculate_work_project_progress tasks" "calculate_work_project_progress tasks \<le> 100"
    using round2_bounds[of "sum_list (map wt_progress tasks) / of_nat (length tasks)"]
    by (auto simp: calculate_work_project_progress_def)
qed

end
