(* ===== verification/Resources.thy ===== *)
theory Resources
  imports App_Db
begin

text \<open>
  The resources a workspace is made of: managed hosts with their trusted keys
  (\<^verbatim>\<open>src/service/host/hosts.py\<close>), images (\<^verbatim>\<open>src/service/sandbox/images.py\<close>), egress proxies
  (\<^verbatim>\<open>src/service/egress_proxy/proxies.py\<close>) and users (\<^verbatim>\<open>src/service/system_user/users.py\<close>), with the
  requests of the schemas.  \<open>alloc\<close> is the identifier the database gives to a new row; \<open>like pat col\<close>
  its case-insensitive match.
\<close>

section \<open>Requests\<close>

record host_request =
  hq_display_name :: string
  hq_ip :: string
  hq_port :: int
  hq_account :: string
  hq_password :: string

record host_update =
  hu_display_name :: "string option"
  hu_ip :: "string option"
  hu_port :: "int option"
  hu_account :: "string option"
  hu_password :: "string option"

definition text_within :: "nat \<Rightarrow> nat \<Rightarrow> string \<Rightarrow> bool" where
  "text_within low high s \<longleftrightarrow> low \<le> length s \<and> length s \<le> high"

definition port_number :: "int \<Rightarrow> bool" where
  "port_number p \<longleftrightarrow> 1 \<le> p \<and> p \<le> 65535"

text \<open>\<open>canon\<close> is \<^verbatim>\<open>ipaddress.ip_address\<close>, printed.\<close>

definition validate_host_request :: "(string \<Rightarrow> string option) \<Rightarrow> host_request \<Rightarrow> host_request option" where
  "validate_host_request canon raw =
    (let r = raw\<lparr>hq_display_name := str_strip (hq_display_name raw), hq_ip := str_strip (hq_ip raw),
                 hq_account := str_strip (hq_account raw)\<rparr>
     in if text_within 0 128 (hq_display_name r) \<and> text_within 1 255 (hq_ip r) \<and> port_number (hq_port r)
           \<and> text_within 1 128 (hq_account r) \<and> text_within 1 512 (hq_password r)
        then map_option (\<lambda>ip. r\<lparr>hq_ip := ip\<rparr>) (canon (hq_ip r)) else None)"

definition opt_within :: "nat \<Rightarrow> nat \<Rightarrow> string option \<Rightarrow> bool" where
  "opt_within low high s \<longleftrightarrow> (case s of None \<Rightarrow> True | Some s \<Rightarrow> text_within low high s)"

definition validate_host_update :: "(string \<Rightarrow> string option) \<Rightarrow> host_update \<Rightarrow> host_update option" where
  "validate_host_update canon raw =
    (let r = raw\<lparr>hu_display_name := map_option str_strip (hu_display_name raw), hu_ip := map_option str_strip (hu_ip raw),
                 hu_account := map_option str_strip (hu_account raw)\<rparr>
     in if opt_within 0 128 (hu_display_name r) \<and> opt_within 1 255 (hu_ip r)
           \<and> (case hu_port r of None \<Rightarrow> True | Some p \<Rightarrow> port_number p)
           \<and> opt_within 1 128 (hu_account r) \<and> opt_within 1 512 (hu_password r)
           \<and> \<not> (hu_ip r = None \<and> hu_port r = None \<and> hu_account r = None \<and> hu_password r = None \<and> hu_display_name r = None)
        then (case hu_ip r of
                None \<Rightarrow> Some r
              | Some ip \<Rightarrow> map_option (\<lambda>ip. r\<lparr>hu_ip := Some ip\<rparr>) (canon ip))
        else None)"

fun normalize_image_names :: "string list \<Rightarrow> string list \<Rightarrow> string list" where
  "normalize_image_names seen [] = []"
| "normalize_image_names seen (x # xs) =
    (let name = str_strip x in
     if name = [] \<or> name \<in> set seen then normalize_image_names seen xs
     else name # normalize_image_names (name # seen) xs)"

definition validate_pull_request :: "string list \<Rightarrow> string list option" where
  "validate_pull_request names =
    (if names = [] \<or> 100 < length names then None
     else let r = normalize_image_names [] names in if r = [] then None else Some r)"

record proxy_request =
  pr_type :: proxy_type
  pr_host :: string
  pr_port :: int
  pr_account :: string
  pr_password :: string

record proxy_update =
  pu_type :: "proxy_type option"
  pu_host :: "string option"
  pu_port :: "int option"
  pu_account :: "string option"
  pu_password :: "string option"

definition validate_proxy_request :: "proxy_request \<Rightarrow> proxy_request option" where
  "validate_proxy_request raw =
    (let r = raw\<lparr>pr_host := str_strip (pr_host raw), pr_account := str_strip (pr_account raw)\<rparr>
     in if text_within 1 255 (pr_host r) \<and> port_number (pr_port r) \<and> text_within 0 255 (pr_account r)
           \<and> text_within 0 512 (pr_password r) then Some r else None)"

definition validate_proxy_update :: "proxy_update \<Rightarrow> proxy_update option" where
  "validate_proxy_update raw =
    (let r = raw\<lparr>pu_host := map_option str_strip (pu_host raw), pu_account := map_option str_strip (pu_account raw)\<rparr>
     in if opt_within 1 255 (pu_host r) \<and> (case pu_port r of None \<Rightarrow> True | Some p \<Rightarrow> port_number p)
           \<and> opt_within 0 255 (pu_account r) \<and> opt_within 0 512 (pu_password r)
           \<and> \<not> (pu_type r = None \<and> pu_host r = None \<and> pu_port r = None \<and> pu_account r = None \<and> pu_password r = None)
        then Some r else None)"

record image_request =
  iq_name :: string
  iq_port :: int
  iq_tor :: bool

definition validate_image_request :: "image_request \<Rightarrow> image_request option" where
  "validate_image_request raw =
    (let r = raw\<lparr>iq_name := str_strip (iq_name raw)\<rparr>
     in if text_within 1 255 (iq_name r) \<and> port_number (iq_port r) then Some r else None)"

record user_request =
  uq_username :: string
  uq_password :: string
  uq_email :: string
  uq_role :: user_role

record user_update =
  uu_username :: "string option"
  uu_password :: "string option"
  uu_email :: "string option"
  uu_role :: "user_role option"

definition validate_user_request :: "user_request \<Rightarrow> user_request option" where
  "validate_user_request r =
    (if text_within 1 64 (uq_username r) \<and> text_within 1 128 (uq_password r) \<and> text_within 0 255 (uq_email r)
     then Some r else None)"

definition validate_user_update :: "user_update \<Rightarrow> user_update option" where
  "validate_user_update r =
    (if opt_within 1 64 (uu_username r) \<and> opt_within 1 128 (uu_password r) \<and> opt_within 0 255 (uu_email r)
        \<and> \<not> (uu_username r = None \<and> uu_password r = None \<and> uu_email r = None \<and> uu_role r = None)
     then Some r else None)"

section \<open>Managed hosts\<close>

datatype deletion = Deleted | Not_Found string | Refused_Deletion string | Deletion_Raised

definition default_local_host_id :: int where
  "default_local_host_id = 1"

text \<open>\<open>local_name\<close> is the display name of the local host, a text of the source outside of the byte strings here.\<close>

definition display_name_or_default :: "string \<Rightarrow> string \<Rightarrow> string \<Rightarrow> bool \<Rightarrow> string" where
  "display_name_or_default local_name display_name ip is_local =
    (let normalized = str_strip display_name in
     if normalized \<noteq> [] then normalized else if is_local then local_name else ''SSH-'' @ ip)"

definition create_managed_host ::
  "(int list \<Rightarrow> int) \<Rightarrow> string \<Rightarrow> host_request \<Rightarrow> datetime \<Rightarrow> app_db \<Rightarrow> managed_host \<times> app_db" where
  "create_managed_host alloc local_name r now db =
    (let h = \<lparr>mh_id = alloc (map mh_id (ad_hosts db)),
              mh_display_name = display_name_or_default local_name (hq_display_name r) (hq_ip r) False, mh_ip = hq_ip r,
              mh_ssh_port = hq_port r, mh_account = hq_account r, mh_password = hq_password r, mh_created_at = now,
              mh_updated_at = now\<rparr>
     in (h, db\<lparr>ad_hosts := ad_hosts db @ [h]\<rparr>))"

text \<open>The fields in the order of the loop: the display name is made before the address is set.\<close>

definition apply_host_update :: "string \<Rightarrow> host_update \<Rightarrow> datetime \<Rightarrow> managed_host \<Rightarrow> managed_host" where
  "apply_host_update local_name u now h =
    (let h = (case hu_display_name u of
                None \<Rightarrow> h
              | Some d \<Rightarrow> h\<lparr>mh_display_name := display_name_or_default local_name d (mh_ip h) (mh_id h = default_local_host_id)\<rparr>);
         h = (case hu_ip u of None \<Rightarrow> h | Some v \<Rightarrow> h\<lparr>mh_ip := v\<rparr>);
         h = (case hu_port u of None \<Rightarrow> h | Some v \<Rightarrow> h\<lparr>mh_ssh_port := v\<rparr>);
         h = (case hu_account u of None \<Rightarrow> h | Some v \<Rightarrow> h\<lparr>mh_account := v\<rparr>);
         h = (case hu_password u of None \<Rightarrow> h | Some v \<Rightarrow> h\<lparr>mh_password := v\<rparr>)
     in h\<lparr>mh_updated_at := now\<rparr>)"

definition update_managed_host ::
  "string \<Rightarrow> int \<Rightarrow> host_update \<Rightarrow> datetime \<Rightarrow> app_db \<Rightarrow> managed_host option \<times> app_db" where
  "update_managed_host local_name k u now db =
    (case get_row mh_id k (ad_hosts db) of
       None \<Rightarrow> (None, db)
     | Some h \<Rightarrow> let h' = apply_host_update local_name u now h in (Some h', db\<lparr>ad_hosts := put_row mh_id h' (ad_hosts db)\<rparr>))"

text \<open>The final DELETE; a container that still refers to the row refuses it.\<close>

definition delete_host_row :: "int \<Rightarrow> app_db \<Rightarrow> deletion \<times> app_db" where
  "delete_host_row k db =
    (if k \<in> set (map ct_host (ad_containers db)) then (Deletion_Raised, db)
     else (Deleted, db\<lparr>ad_hosts := filter (\<lambda>h. mh_id h \<noteq> k) (ad_hosts db)\<rparr>))"

definition delete_managed_host :: "int \<Rightarrow> app_db \<Rightarrow> deletion \<times> app_db" where
  "delete_managed_host k db =
    (if k = default_local_host_id then (Refused_Deletion ''default local host cannot be deleted'', db)
     else if get_row mh_id k (ad_hosts db) = None then (Not_Found ''managed host not found'', db)
     else if list_ex (\<lambda>c. ct_host c = k) (ad_containers db) then (Refused_Deletion ''managed host is used by sandbox containers'', db)
     else delete_host_row k db)"

definition keyword_rows :: "(string \<Rightarrow> string \<Rightarrow> bool) \<Rightarrow> string \<Rightarrow> ('r \<Rightarrow> string list) \<Rightarrow> 'r list \<Rightarrow> 'r list" where
  "keyword_rows like keyword cols rows =
    (let keyword = str_strip keyword; pat = ''%'' @ keyword @ ''%'' in
     if keyword = [] then rows else filter (\<lambda>r. list_ex (like pat) (cols r)) rows)"

definition query_managed_hosts ::
  "(string \<Rightarrow> string \<Rightarrow> bool) \<Rightarrow> int \<Rightarrow> int \<Rightarrow> string \<Rightarrow> app_db \<Rightarrow> managed_host page" where
  "query_managed_hosts like page limit keyword db =
     paginate_statement page limit (keyword_rows like keyword
       (\<lambda>h. [mh_ip h, mh_display_name h, mh_account h, show_int (mh_ssh_port h)]) (sort_key mh_id (ad_hosts db)))"

definition ensure_local_managed_host :: "string \<Rightarrow> string \<Rightarrow> datetime \<Rightarrow> app_db \<Rightarrow> managed_host \<times> app_db" where
  "ensure_local_managed_host local_name username now db =
    (case get_row mh_id default_local_host_id (ad_hosts db) of
       None \<Rightarrow>
         let h = \<lparr>mh_id = default_local_host_id, mh_display_name = local_name, mh_ip = ''127.0.0.1'', mh_ssh_port = 22,
                  mh_account = username, mh_password = [], mh_created_at = now, mh_updated_at = now\<rparr>
         in (h, db\<lparr>ad_hosts := ad_hosts db @ [h]\<rparr>)
     | Some h \<Rightarrow>
         if mh_display_name h = []
         then let h' = h\<lparr>mh_display_name := local_name, mh_updated_at := now\<rparr>
              in (h', db\<lparr>ad_hosts := put_row mh_id h' (ad_hosts db)\<rparr>)
         else (h, db))"

definition list_managed_host_images :: "int \<Rightarrow> app_db \<Rightarrow> string list option" where
  "list_managed_host_images k db = (if get_row mh_id k (ad_hosts db) = None then None else Some [])"

definition pull_managed_host_images :: "int \<Rightarrow> string list \<Rightarrow> app_db \<Rightarrow> (string \<times> bool \<times> string) list option" where
  "pull_managed_host_images k names db =
    (if get_row mh_id k (ad_hosts db) = None then None
     else Some (map (\<lambda>n. (n, False, ''Docker is disabled; use a local tool workspace'')) names))"

definition delete_managed_host_image :: "int \<Rightarrow> app_db \<Rightarrow> string" where
  "delete_managed_host_image k db =
    (if get_row mh_id k (ad_hosts db) = None then ''managed host not found''
     else ''Docker image management is disabled in portable mode'')"

subsection \<open>Trusted keys\<close>

text \<open>The file of the trusted keys, read as text: \<^verbatim>\<open>\r\n\<close> and \<^verbatim>\<open>\r\<close> are line feeds.\<close>

fun universal_newlines :: "string \<Rightarrow> string" where
  "universal_newlines [] = []"
| "universal_newlines (c # cs) =
    (if c = CHR 0x0D then CHR 0x0A # (case cs of d # ds \<Rightarrow> if d = CHR 0x0A then universal_newlines ds else universal_newlines cs | [] \<Rightarrow> [])
     else c # universal_newlines cs)"

definition line_break :: "char \<Rightarrow> bool" where
  "line_break c \<longleftrightarrow> (of_char c :: nat) \<in> {10, 11, 12, 13, 28, 29, 30, 133}"

fun lines_from :: "string \<Rightarrow> string \<Rightarrow> string list" where
  "lines_from cur [] = (if cur = [] then [] else [cur])"
| "lines_from cur (c # cs) = (if line_break c then cur # lines_from [] cs else lines_from (cur @ [c]) cs)"

definition splitlines :: "string \<Rightarrow> string list" where
  "splitlines s = lines_from [] s"

definition known_host_marker :: "managed_host \<Rightarrow> string" where
  "known_host_marker h = (if mh_ssh_port h = 22 then mh_ip h else ''['' @ mh_ip h @ '']:'' @ show_int (mh_ssh_port h))"

definition write_known_host_key :: "managed_host \<Rightarrow> string \<Rightarrow> string \<Rightarrow> string" where
  "write_known_host_key h public_key file =
    (let marker = known_host_marker h;
         kept = filter (\<lambda>l. \<not> prefix (marker @ '' '') l) (splitlines (universal_newlines file));
         kept = kept @ [marker @ '' '' @ public_key]
     in join_with [CHR 0x0A] kept @ [CHR 0x0A])"

definition known_hosts_contains :: "string \<Rightarrow> string \<Rightarrow> string \<Rightarrow> bool" where
  "known_hosts_contains marker public_key file \<longleftrightarrow>
     marker @ '' '' @ public_key \<in> set (splitlines (universal_newlines file))"

text \<open>What \<^verbatim>\<open>asyncssh\<close> reports of a server: the exported public key, its algorithm and fingerprint.\<close>

record server_key =
  sk_public :: string
  sk_algorithm :: string
  sk_fingerprint :: string

record host_key_view =
  hk_host :: int
  hk_endpoint :: string
  hk_algorithm :: string
  hk_fingerprint :: string
  hk_public :: string
  hk_trusted :: bool

definition managed_host_key_schema :: "managed_host \<Rightarrow> server_key \<Rightarrow> bool option \<Rightarrow> string \<Rightarrow> host_key_view" where
  "managed_host_key_schema h key trusted file =
     \<lparr>hk_host = mh_id h, hk_endpoint = known_host_marker h, hk_algorithm = sk_algorithm key, hk_fingerprint = sk_fingerprint key,
      hk_public = sk_public key,
      hk_trusted = (case trusted of Some b \<Rightarrow> b | None \<Rightarrow> known_hosts_contains (known_host_marker h) (sk_public key) file)\<rparr>"

text \<open>\<open>fetch\<close> asks the server of a host for its key; \<^const>\<open>None\<close> is an error.\<close>

definition preview_managed_host_key ::
  "(managed_host \<Rightarrow> server_key option) \<Rightarrow> int \<Rightarrow> string \<Rightarrow> app_db \<Rightarrow> (string + host_key_view option)" where
  "preview_managed_host_key fetch k file db =
    (case get_row mh_id k (ad_hosts db) of
       None \<Rightarrow> Inr None
     | Some h \<Rightarrow>
         (case fetch h of None \<Rightarrow> Inl ''SSH server did not present a host key''
          | Some key \<Rightarrow> Inr (Some (managed_host_key_schema h key None file))))"

definition trust_managed_host_key ::
  "(managed_host \<Rightarrow> server_key option) \<Rightarrow> int \<Rightarrow> string \<Rightarrow> string \<Rightarrow> app_db \<Rightarrow> (string + host_key_view option) \<times> string" where
  "trust_managed_host_key fetch k fingerprint file db =
    (case get_row mh_id k (ad_hosts db) of
       None \<Rightarrow> (Inr None, file)
     | Some h \<Rightarrow>
         (case fetch h of
            None \<Rightarrow> (Inl ''SSH server did not present a host key'', file)
          | Some key \<Rightarrow>
              if sk_fingerprint key \<noteq> str_strip fingerprint
              then (Inl ''host key fingerprint changed; refresh and verify again'', file)
              else let file' = write_known_host_key h (sk_public key) file
                   in (Inr (Some (managed_host_key_schema h key (Some True) file')), file')))"

section \<open>Images\<close>

definition create_sandbox_image :: "(int list \<Rightarrow> int) \<Rightarrow> image_request \<Rightarrow> datetime \<Rightarrow> app_db \<Rightarrow> sandbox_image \<times> app_db" where
  "create_sandbox_image alloc r now db =
    (let im = \<lparr>im_id = alloc (map im_id (ad_images db)), im_name = iq_name r, im_control_port = iq_port r, im_tor = iq_tor r,
               im_created_at = now, im_updated_at = now\<rparr>
     in (im, db\<lparr>ad_images := ad_images db @ [im]\<rparr>))"

definition delete_image_row :: "int \<Rightarrow> app_db \<Rightarrow> deletion \<times> app_db" where
  "delete_image_row k db =
    (if k \<in> set (map ct_image (ad_containers db)) then (Deletion_Raised, db)
     else (Deleted, db\<lparr>ad_images := filter (\<lambda>im. im_id im \<noteq> k) (ad_images db)\<rparr>))"

definition delete_sandbox_image :: "int \<Rightarrow> app_db \<Rightarrow> deletion \<times> app_db" where
  "delete_sandbox_image k db =
    (if get_row im_id k (ad_images db) = None then (Not_Found ''sandbox image not found'', db)
     else if list_ex (\<lambda>c. ct_image c = k) (ad_containers db) then (Refused_Deletion ''sandbox image is used by sandbox containers'', db)
     else delete_image_row k db)"

definition query_sandbox_images ::
  "(string \<Rightarrow> string \<Rightarrow> bool) \<Rightarrow> int \<Rightarrow> int \<Rightarrow> string \<Rightarrow> app_db \<Rightarrow> sandbox_image page" where
  "query_sandbox_images like page limit keyword db =
     paginate_statement page limit (keyword_rows like keyword (\<lambda>im. [im_name im]) (sort_key im_id (ad_images db)))"

section \<open>Egress proxies\<close>

fun proxy_type_value :: "proxy_type \<Rightarrow> string" where
  "proxy_type_value HTTP_PROXY = ''http''"
| "proxy_type_value HTTPS_PROXY = ''https''"
| "proxy_type_value SOCKS5_PROXY = ''socks5''"

fun proxy_type_name :: "proxy_type \<Rightarrow> string" where
  "proxy_type_name HTTP_PROXY = ''HTTP''"
| "proxy_type_name HTTPS_PROXY = ''HTTPS''"
| "proxy_type_name SOCKS5_PROXY = ''SOCKS5''"

definition create_egress_proxy :: "(int list \<Rightarrow> int) \<Rightarrow> proxy_request \<Rightarrow> datetime \<Rightarrow> app_db \<Rightarrow> egress_proxy \<times> app_db" where
  "create_egress_proxy alloc r now db =
    (let p = \<lparr>px_id = alloc (map px_id (ad_proxies db)), px_type = pr_type r, px_host = pr_host r, px_port = pr_port r,
              px_account = pr_account r, px_password = pr_password r, px_created_at = now, px_updated_at = now\<rparr>
     in (p, db\<lparr>ad_proxies := ad_proxies db @ [p]\<rparr>))"

definition or_keep :: "'a option \<Rightarrow> 'a \<Rightarrow> 'a" where
  "or_keep v old = (case v of None \<Rightarrow> old | Some x \<Rightarrow> x)"

definition update_egress_proxy :: "int \<Rightarrow> proxy_update \<Rightarrow> datetime \<Rightarrow> app_db \<Rightarrow> egress_proxy option \<times> app_db" where
  "update_egress_proxy k u now db =
    (case get_row px_id k (ad_proxies db) of
       None \<Rightarrow> (None, db)
     | Some p \<Rightarrow>
         let p' = p\<lparr>px_type := or_keep (pu_type u) (px_type p), px_host := or_keep (pu_host u) (px_host p),
                    px_port := or_keep (pu_port u) (px_port p), px_account := or_keep (pu_account u) (px_account p),
                    px_password := or_keep (pu_password u) (px_password p), px_updated_at := now\<rparr>
         in (Some p', db\<lparr>ad_proxies := put_row px_id p' (ad_proxies db)\<rparr>))"

definition egress_proxy_has_sandbox_containers :: "int \<Rightarrow> app_db \<Rightarrow> bool" where
  "egress_proxy_has_sandbox_containers k db \<longleftrightarrow> list_ex (\<lambda>c. ct_mode c = PROXY \<and> ct_proxy c = Some k) (ad_containers db)"

definition delete_proxy_row :: "int \<Rightarrow> app_db \<Rightarrow> deletion \<times> app_db" where
  "delete_proxy_row k db =
    (if Some k \<in> set (map ct_proxy (ad_containers db)) then (Deletion_Raised, db)
     else (Deleted, db\<lparr>ad_proxies := filter (\<lambda>p. px_id p \<noteq> k) (ad_proxies db)\<rparr>))"

definition delete_egress_proxy :: "int \<Rightarrow> app_db \<Rightarrow> deletion \<times> app_db" where
  "delete_egress_proxy k db =
    (if get_row px_id k (ad_proxies db) = None then (Not_Found ''egress proxy not found'', db)
     else if egress_proxy_has_sandbox_containers k db then (Refused_Deletion ''egress proxy is used by sandbox containers'', db)
     else delete_proxy_row k db)"

definition query_egress_proxies ::
  "(string \<Rightarrow> string \<Rightarrow> bool) \<Rightarrow> int \<Rightarrow> int \<Rightarrow> string \<Rightarrow> app_db \<Rightarrow> egress_proxy page" where
  "query_egress_proxies like page limit keyword db =
     paginate_statement page limit (keyword_rows like keyword
       (\<lambda>p. [px_host p, px_account p, proxy_type_name (px_type p), show_int (px_port p)]) (sort_key px_id (ad_proxies db)))"

definition query_egress_proxy_by_id :: "int \<Rightarrow> app_db \<Rightarrow> egress_proxy option" where
  "query_egress_proxy_by_id k db = get_row px_id k (ad_proxies db)"

text \<open>\<open>quote\<close> is \<^verbatim>\<open>urllib.parse.quote\<close> with no safe character, \<open>b64\<close> the Base64 text of the UTF-8 bytes.\<close>

definition egress_proxy_upstream :: "(string \<Rightarrow> string) \<Rightarrow> egress_proxy \<Rightarrow> string" where
  "egress_proxy_upstream quote p =
    ((if px_account p \<noteq> [] then quote (px_account p) @ '':'' @ quote (px_password p) @ ''@'' else [])
     @ px_host p @ '':'' @ show_int (px_port p))"

definition proxy_authorization_header :: "(string \<Rightarrow> string) \<Rightarrow> egress_proxy \<Rightarrow> string" where
  "proxy_authorization_header b64 p =
    (if px_account p = [] then [] else ''Basic '' @ b64 (px_account p @ '':'' @ px_password p))"

section \<open>Users\<close>

text \<open>\<open>hash\<close> is \<^verbatim>\<open>_hash_password\<close> with the salt of the call.\<close>

definition create_system_user ::
  "(int list \<Rightarrow> int) \<Rightarrow> (string \<Rightarrow> string) \<Rightarrow> user_request \<Rightarrow> datetime \<Rightarrow> app_db \<Rightarrow> system_user \<times> app_db" where
  "create_system_user alloc hash r now db =
    (let u = \<lparr>us_id = alloc (map us_id (ad_users db)), us_role = uq_role r, us_username = uq_username r, us_email = uq_email r,
              us_password = hash (uq_password r), us_created_at = now, us_updated_at = now\<rparr>
     in (u, db\<lparr>ad_users := ad_users db @ [u]\<rparr>))"

text \<open>The rows of owners go with the user; a container of the user refuses the deletion.\<close>

definition delete_system_user :: "int \<Rightarrow> app_db \<Rightarrow> deletion \<times> app_db" where
  "delete_system_user k db =
    (if get_row us_id k (ad_users db) = None then (Not_Found ''system user not found'', db)
     else if k \<in> set (map ct_owner (ad_containers db)) then (Deletion_Raised, db)
     else (Deleted, db\<lparr>ad_users := filter (\<lambda>u. us_id u \<noteq> k) (ad_users db),
            ad_owners := filter (\<lambda>w. ow_user w \<noteq> k) (ad_owners db)\<rparr>))"

definition update_system_user ::
  "(string \<Rightarrow> string) \<Rightarrow> int \<Rightarrow> user_update \<Rightarrow> datetime \<Rightarrow> app_db \<Rightarrow> system_user option \<times> app_db" where
  "update_system_user hash k u now db =
    (case get_row us_id k (ad_users db) of
       None \<Rightarrow> (None, db)
     | Some r \<Rightarrow>
         let r' = r\<lparr>us_role := or_keep (uu_role u) (us_role r), us_email := or_keep (uu_email u) (us_email r),
                    us_username := or_keep (uu_username u) (us_username r),
                    us_password := or_keep (map_option hash (uu_password u)) (us_password r), us_updated_at := now\<rparr>
         in (Some r', db\<lparr>ad_users := put_row us_id r' (ad_users db)\<rparr>))"

definition query_system_user_by_username :: "string \<Rightarrow> app_db \<Rightarrow> system_user option" where
  "query_system_user_by_username name db = List.find (\<lambda>u. us_username u = name) (ad_users db)"

definition query_system_user_by_id :: "int \<Rightarrow> app_db \<Rightarrow> system_user option" where
  "query_system_user_by_id k db = get_row us_id k (ad_users db)"

definition query_system_users ::
  "(string \<Rightarrow> string \<Rightarrow> bool) \<Rightarrow> int \<Rightarrow> int \<Rightarrow> string \<Rightarrow> app_db \<Rightarrow> system_user page" where
  "query_system_users like page limit keyword db =
     paginate_statement page limit (keyword_rows like keyword (\<lambda>u. [us_email u, us_username u]) (sort_key us_id (ad_users db)))"

section \<open>Trusting a key\<close>

lemma lines_of_line: "\<not> list_ex line_break l \<Longrightarrow> lines_from cur (l @ rest) = lines_from (cur @ l) rest"
  by (induction l arbitrary: cur) auto

lemma lines_of_text:
  "\<forall>l\<in>set ls. \<not> list_ex line_break l \<Longrightarrow> lines_from [] (concat (map (\<lambda>l. l @ [CHR 0x0A]) ls)) = ls"
proof (induction ls)
  case (Cons l ls)
  have "line_break (CHR 0x0A)" by (simp add: line_break_def)
  with Cons show ?case using lines_of_line[of l "[]" "CHR 0x0A # concat (map (\<lambda>l. l @ [CHR 0x0A]) ls)"] by simp
qed simp

lemma joined_lines: "ls \<noteq> [] \<Longrightarrow> join_with [CHR 0x0A] ls @ [CHR 0x0A] = concat (map (\<lambda>l. l @ [CHR 0x0A]) ls)"
  by (induction "[CHR 0x0A]" ls rule: join_with.induct) auto

lemma lines_no_break: "\<not> list_ex line_break cur \<Longrightarrow> l \<in> set (lines_from cur s) \<Longrightarrow> \<not> list_ex line_break l"
  by (induction cur s rule: lines_from.induct) (auto split: if_splits)

lemma universal_newlines_id: "CHR 0x0D \<notin> set s \<Longrightarrow> universal_newlines s = s"
  by (induction s rule: universal_newlines.induct) auto

lemma no_return_in_lines: "\<not> list_ex line_break l \<Longrightarrow> CHR 0x0D \<notin> set l"
  by (induction l) (auto simp: line_break_def)

lemma written_lines:
  assumes "\<not> list_ex line_break (known_host_marker h)" and "\<not> list_ex line_break key"
  shows "splitlines (universal_newlines (write_known_host_key h key file)) =
    filter (\<lambda>l. \<not> prefix (known_host_marker h @ '' '') l) (splitlines (universal_newlines file)) @ [known_host_marker h @ '' '' @ key]"
proof -
  let ?ls = "filter (\<lambda>l. \<not> prefix (known_host_marker h @ '' '') l) (splitlines (universal_newlines file)) @ [known_host_marker h @ '' '' @ key]"
  have "\<not> line_break CHR '' ''" by (simp add: line_break_def)
  then have ok: "\<forall>l\<in>set ?ls. \<not> list_ex line_break l"
    using assms lines_no_break[of "[]"] by (auto simp: splitlines_def)
  then have r: "\<forall>l\<in>set ?ls. CHR 0x0D \<notin> set l" using no_return_in_lines by blast
  have w: "write_known_host_key h key file = concat (map (\<lambda>l. l @ [CHR 0x0A]) ?ls)"
    unfolding write_known_host_key_def Let_def using joined_lines[of ?ls] by simp
  then have "CHR 0x0D \<notin> set (write_known_host_key h key file)" using r by auto
  then show ?thesis using lines_of_text[OF ok] w by (simp add: universal_newlines_id splitlines_def)
qed

text \<open>Trusting a key pins it.  A key is written only when it carries the fingerprint the user confirmed; then it
  is the only key of the endpoint in the file, the lines of other endpoints are as before, and it is found again
  later.  Any other outcome leaves the file alone.  (The exported key must be one line: a text that ends in a line
  break is never found again.)\<close>

theorem trust_pins_key:
  assumes marker: "\<not> list_ex line_break (known_host_marker h)" and h: "get_row mh_id k (ad_hosts db) = Some h"
  shows "let (r, file') = trust_managed_host_key fetch k fingerprint file db;
      old = splitlines (universal_newlines file); new = splitlines (universal_newlines file') in
    (case r of
      Inr (Some v) \<Rightarrow> \<exists>key. fetch h = Some key \<and> sk_fingerprint key = str_strip fingerprint
        \<and> (\<not> list_ex line_break (sk_public key) \<longrightarrow>
             filter (prefix (known_host_marker h @ '' '')) new = [known_host_marker h @ '' '' @ sk_public key]
             \<and> filter (\<lambda>l. \<not> prefix (known_host_marker h @ '' '') l) new = filter (\<lambda>l. \<not> prefix (known_host_marker h @ '' '') l) old
             \<and> known_hosts_contains (known_host_marker h) (sk_public key) file')
        \<and> (list_ex line_break (sk_public key) \<longrightarrow> \<not> known_hosts_contains (known_host_marker h) (sk_public key) file')
    | _ \<Rightarrow> file' = file)"
proof -
  have no: "\<not> known_hosts_contains m key f" if "list_ex line_break key" for m key f
  proof
    assume "known_hosts_contains m key f"
    then have "\<not> list_ex line_break (m @ '' '' @ key)"
      using lines_no_break[of "[]" "m @ '' '' @ key" "universal_newlines f"]
      unfolding known_hosts_contains_def splitlines_def by (simp del: list_ex_append append.append_Cons append_Cons)
    with that show False by (simp add: list_ex_iff)
  qed
  have yes: "filter (prefix (known_host_marker h @ '' '')) (splitlines (universal_newlines f')) = [known_host_marker h @ '' '' @ key]
      \<and> filter (\<lambda>l. \<not> prefix (known_host_marker h @ '' '') l) (splitlines (universal_newlines f'))
        = filter (\<lambda>l. \<not> prefix (known_host_marker h @ '' '') l) (splitlines (universal_newlines file))
      \<and> known_hosts_contains (known_host_marker h) key f'"
    if "\<not> list_ex line_break key" "f' = write_known_host_key h key file" for key f'
    unfolding known_hosts_contains_def that(2) written_lines[OF marker that(1)] by simp
  show ?thesis
    unfolding trust_managed_host_key_def h using no yes
    by (simp add: Let_def split: option.split)
qed

definition sample_host :: managed_host where
  "sample_host = \<lparr>mh_id = 2, mh_display_name = ''h'', mh_ip = ''g'', mh_ssh_port = 9, mh_account = ''root'',
     mh_password = ''p'', mh_created_at = 0, mh_updated_at = 0\<rparr>"

lemma trust_pins_key_witness:
  "let db = (empty_app [] [])\<lparr>ad_hosts := [sample_host]\<rparr>;
       key = \<lparr>sk_public = ''rsa A'', sk_algorithm = ''rsa'', sk_fingerprint = ''f''\<rparr>;
       txt0 = ''[g]:9 rsa O'' @ [CHR 0x0A] @ ''h rsa Q'' @ [CHR 0x0A];
       (r, txt1) = trust_managed_host_key (\<lambda>_. Some key) 2 '' f '' txt0 db
   in known_hosts_contains (known_host_marker sample_host) (sk_public key) txt1
      \<and> txt1 = ''h rsa Q'' @ [CHR 0x0A] @ ''[g]:9 rsa A'' @ [CHR 0x0A]"
proof -
  define db where "db = (empty_app [] [])\<lparr>ad_hosts := [sample_host]\<rparr>"
  define key where "key = \<lparr>sk_public = ''rsa A'', sk_algorithm = ''rsa'', sk_fingerprint = ''f''\<rparr>"
  define txt0 where "txt0 = ''[g]:9 rsa O'' @ [CHR 0x0A] @ ''h rsa Q'' @ [CHR 0x0A]"
  define t where "t = trust_managed_host_key (\<lambda>_. Some key) 2 '' f '' txt0 db"
  have h: "get_row mh_id 2 (ad_hosts db) = Some sample_host" unfolding db_def by code_simp
  have m: "\<not> list_ex line_break (known_host_marker sample_host)" by code_simp
  have k: "\<not> list_ex line_break (sk_public key)" unfolding key_def by code_simp
  have f: "snd t = ''h rsa Q'' @ [CHR 0x0A] @ ''[g]:9 rsa A'' @ [CHR 0x0A]"
    unfolding t_def key_def txt0_def db_def by code_simp
  have "\<not> isl (fst t) \<and> (case fst t of Inr None \<Rightarrow> False | _ \<Rightarrow> True)"
    unfolding t_def key_def txt0_def db_def by code_simp
  then obtain v where "fst t = Inr (Some v)" by (auto split: sum.splits option.splits)
  then have eq: "t = (Inr (Some v), snd t)" by (simp add: prod_eq_iff)
  have "known_hosts_contains (known_host_marker sample_host) (sk_public key) (snd t)"
    using trust_pins_key[OF m h, of "\<lambda>_. Some key" "'' f ''" txt0] k
    unfolding t_def[symmetric] Let_def by (subst (asm) eq) auto
  with f show ?thesis unfolding Let_def db_def[symmetric] key_def[symmetric] txt0_def[symmetric] t_def[symmetric]
    by (simp add: case_prod_beta)
qed

end
