(* ===== verification/Sessions.thy ===== *)
theory Sessions
  imports App_Db
begin

text \<open>
  Agent sessions, \<^verbatim>\<open>src/service/agent/sessions.py\<close>: every operation is one or several transactions on
  the application database.  Identifiers, the current time and the codes of the registered agents are
  arguments.  A session that is cancelled or discarded is idle, so the agent pool only changes rows.
\<close>

section \<open>Titles\<close>

definition title_max_len :: nat where
  "title_max_len = 80"

definition spaced_lines :: "string \<Rightarrow> string" where
  "spaced_lines s = map (\<lambda>c. if c = CHR 0x0A then CHR '' '' else c) (str_strip s)"

definition truncate_title :: "string \<Rightarrow> string" where
  "truncate_title s =
    (let v = spaced_lines s in if length v \<le> title_max_len then v else take (title_max_len - 1) v @ ''...'')"

definition truncate_error :: "string \<Rightarrow> string" where
  "truncate_error s = (let v = spaced_lines s in if length v \<le> 500 then v else take 499 v @ ''...'')"

definition resolve_title :: "session_meta option \<Rightarrow> string" where
  "resolve_title m =
    (case m of
       None \<Rightarrow> []
     | Some m \<Rightarrow> if sm_title m \<noteq> [] then sm_title m
                 else if sm_type m = PROJECT_SESSION then ''Project session'' else ''Untitled session'')"

text \<open>The validator of a title request: stripped, then from 1 to 80 characters.\<close>

definition validate_title_request :: "string \<Rightarrow> string option" where
  "validate_title_request raw = (let t = str_strip raw in if t = [] \<or> 80 < length t then None else Some t)"

section \<open>Summaries\<close>

record session_summary_row =
  ss_session_id :: string
  ss_type :: session_type
  ss_title :: string
  ss_agent_code :: string
  ss_owner :: int
  ss_project :: "int option"
  ss_selected :: "int option"
  ss_selected_generation :: int
  ss_running :: bool
  ss_runtime_agent :: string
  ss_runtime_container :: "int option"
  ss_runtime_generation :: int
  ss_started_at :: "datetime option"
  ss_finished_at :: "datetime option"
  ss_error :: string
  ss_message_count :: nat
  ss_created_at :: datetime
  ss_updated_at :: datetime

definition message_count :: "string \<Rightarrow> app_db \<Rightarrow> nat" where
  "message_count s db = length (filter (\<lambda>(_, t). t = s) (ad_messages db))"

definition summary_from_row :: "sdk_session \<Rightarrow> nat \<Rightarrow> session_meta option \<Rightarrow> session_summary_row" where
  "summary_from_row r n m =
    \<lparr>ss_session_id = sk_id r, ss_type = (case m of None \<Rightarrow> CHAT | Some m \<Rightarrow> sm_type m), ss_title = resolve_title m,
      ss_agent_code = (case m of None \<Rightarrow> [] | Some m \<Rightarrow> sm_agent_code m),
      ss_owner = (case m of None \<Rightarrow> 0 | Some m \<Rightarrow> sm_owner m),
      ss_project = Option.bind m sm_project, ss_selected = Option.bind m sm_selected,
      ss_selected_generation = (case m of None \<Rightarrow> 0 | Some m \<Rightarrow> sm_selected_generation m),
      ss_running = (case m of None \<Rightarrow> False | Some m \<Rightarrow> sm_running m),
      ss_runtime_agent = (case m of None \<Rightarrow> [] | Some m \<Rightarrow> sm_runtime_agent m),
      ss_runtime_container = Option.bind m sm_runtime_container,
      ss_runtime_generation = (case m of None \<Rightarrow> 0 | Some m \<Rightarrow> sm_runtime_generation m),
      ss_started_at = Option.bind m sm_started_at, ss_finished_at = Option.bind m sm_finished_at,
      ss_error = (case m of None \<Rightarrow> [] | Some m \<Rightarrow> sm_error m), ss_message_count = n,
      ss_created_at = sk_created_at r, ss_updated_at = sk_updated_at r\<rparr>"

text \<open>The statement joins the session with its own row.\<close>

definition session_summary_by_id :: "string \<Rightarrow> app_db \<Rightarrow> session_summary_row option" where
  "session_summary_by_id s db =
    (case List.find (\<lambda>r. sk_id r = s \<and> get_meta s db \<noteq> None) (ad_sdk db) of
       None \<Rightarrow> None | Some r \<Rightarrow> Some (summary_from_row r (message_count s db) (get_meta s db)))"

definition session_summary :: "string \<Rightarrow> int \<Rightarrow> user_role \<Rightarrow> app_db \<Rightarrow> session_summary_row option" where
  "session_summary s user role db =
    (if \<not> can_access_session s user role db then None else session_summary_by_id s db)"

definition bootstrap_session_id :: string where
  "bootstrap_session_id = ''__bootstrap__''"

definition listed_meta :: "int \<Rightarrow> user_role \<Rightarrow> int option \<Rightarrow> app_db \<Rightarrow> session_meta \<Rightarrow> bool" where
  "listed_meta user role project db m \<longleftrightarrow>
    (case project of
       None \<Rightarrow> sm_project m = None \<and> sm_owner m = user
     | Some k \<Rightarrow> sm_project m = Some k \<and> (role = ADMIN \<or> is_project_owner k user db))"

text \<open>Sessions updated at the same time keep the order of the table; the database promises none.\<close>

definition list_sessions :: "nat \<Rightarrow> int \<Rightarrow> user_role \<Rightarrow> int option \<Rightarrow> app_db \<Rightarrow> session_summary_row list" where
  "list_sessions limit user role project db =
    (let joined = filter (\<lambda>r. sk_id r \<noteq> bootstrap_session_id
                      \<and> list_ex (\<lambda>m. sm_session_id m = sk_id r \<and> listed_meta user role project db m) (ad_metas db)) (ad_sdk db);
         rows = take limit (sort_key (\<lambda>r. - sk_updated_at r) joined)
     in map (\<lambda>r. summary_from_row r (message_count (sk_id r) db) (get_meta (sk_id r) db)) rows)"

definition list_running_sessions :: "app_db \<Rightarrow> session_meta list" where
  "list_running_sessions db = filter sm_running (ad_metas db)"

section \<open>Writing session rows\<close>

definition default_agent_code :: string where
  "default_agent_code = ''cso''"

definition set_meta :: "string \<Rightarrow> (session_meta \<Rightarrow> session_meta) \<Rightarrow> app_db \<Rightarrow> app_db" where
  "set_meta s f db = db\<lparr>ad_metas := update_rows (\<lambda>m. sm_session_id m = s) f (ad_metas db)\<rparr>"

definition ensure_sdk_session_row :: "string \<Rightarrow> datetime \<Rightarrow> app_db \<Rightarrow> app_db" where
  "ensure_sdk_session_row s now db =
    (if s \<in> set (map sk_id (ad_sdk db)) then db
     else db\<lparr>ad_sdk := ad_sdk db @ [\<lparr>sk_id = s, sk_created_at = now, sk_updated_at = now\<rparr>]\<rparr>)"

definition new_meta :: "string \<Rightarrow> session_type \<Rightarrow> string \<Rightarrow> int \<Rightarrow> int option \<Rightarrow> datetime \<Rightarrow> session_meta" where
  "new_meta s ty title owner project now =
     \<lparr>sm_session_id = s, sm_type = ty, sm_title = title, sm_agent_code = default_agent_code, sm_owner = owner,
      sm_project = project, sm_selected = None, sm_selected_generation = 0, sm_running = False, sm_runtime_agent = [],
      sm_runtime_container = None, sm_runtime_generation = 0, sm_started_at = None, sm_finished_at = None,
      sm_error = [], sm_created_at = now\<rparr>"

text \<open>An insert; \<^const>\<open>None\<close> is a violated primary or foreign key.\<close>

definition insert_meta :: "session_meta \<Rightarrow> app_db \<Rightarrow> app_db option" where
  "insert_meta m db =
    (if sm_session_id m \<in> set (map sm_session_id (ad_metas db)) \<or> sm_session_id m \<notin> set (map sk_id (ad_sdk db))
        \<or> (case sm_project m of None \<Rightarrow> False | Some k \<Rightarrow> k \<notin> set (map pj_id (ad_projects db))) then None
     else Some (db\<lparr>ad_metas := ad_metas db @ [m]\<rparr>))"

definition create_session :: "int \<Rightarrow> string \<Rightarrow> datetime \<Rightarrow> app_db \<Rightarrow> (string \<times> app_db) option" where
  "create_session user fresh now db =
     map_option (Pair fresh) (insert_meta (new_meta fresh CHAT [] user None now) (ensure_sdk_session_row fresh now db))"

definition update_session_title ::
  "string \<Rightarrow> string \<Rightarrow> int \<Rightarrow> user_role \<Rightarrow> app_db \<Rightarrow> session_summary_row option \<times> app_db" where
  "update_session_title s title user role db =
    (case get_meta s db of
       None \<Rightarrow> (None, db)
     | Some m \<Rightarrow>
         if \<not> can_access_meta m user role db then (None, db)
         else let db' = set_meta s (\<lambda>m. m\<lparr>sm_title := title\<rparr>) db in (session_summary s user role db', db'))"

text \<open>\<open>Inl\<close> is the \<^verbatim>\<open>PermissionError\<close>.\<close>

definition ensure_chat_session_meta ::
  "string list \<Rightarrow> string \<Rightarrow> string \<Rightarrow> string option \<Rightarrow> int \<Rightarrow> user_role \<Rightarrow> app_db \<Rightarrow> (string + string) \<times> app_db" where
  "ensure_chat_session_meta codes s user_text requested user role db =
    (case get_meta s db of
       None \<Rightarrow> (Inl ''agent session not found'', db)
     | Some m \<Rightarrow>
         if \<not> can_access_meta m user role db then (Inl ''agent session not found'', db)
         else
           let existing = (if sm_agent_code m \<in> set codes then sm_agent_code m else []);
               override = (case requested of None \<Rightarrow> [] | Some c \<Rightarrow> c);
               resolved = (if override \<noteq> [] then override else if existing \<noteq> [] then existing else default_agent_code);
               titled = (\<lambda>m. if sm_title m = [] then m\<lparr>sm_title := truncate_title user_text\<rparr> else m)
           in (Inr resolved,
               if sm_agent_code m \<noteq> resolved then set_meta s (\<lambda>m. titled (m\<lparr>sm_agent_code := resolved\<rparr>)) db
               else if sm_title m = [] then set_meta s titled db else db))"

definition mark_session_running ::
  "string \<Rightarrow> string \<Rightarrow> int option \<Rightarrow> int \<Rightarrow> datetime \<Rightarrow> app_db \<Rightarrow> app_db" where
  "mark_session_running s agent_code container generation now db =
     set_meta s (\<lambda>m. m\<lparr>sm_running := True, sm_runtime_agent := agent_code, sm_runtime_container := container,
       sm_runtime_generation := generation, sm_started_at := Some now, sm_finished_at := None, sm_error := []\<rparr>) db"

definition update_session_sandbox_container ::
  "string \<Rightarrow> int option \<Rightarrow> int \<Rightarrow> int \<Rightarrow> user_role \<Rightarrow> app_db \<Rightarrow> session_summary_row option \<times> app_db" where
  "update_session_sandbox_container s container generation user role db =
    (case get_meta s db of
       None \<Rightarrow> (None, db)
     | Some m \<Rightarrow>
         if \<not> can_access_meta m user role db then (None, db)
         else let db' = set_meta s (\<lambda>m. m\<lparr>sm_selected := container, sm_selected_generation := generation\<rparr>) db
              in (session_summary s user role db', db'))"

definition has_outstanding_session_work :: "string \<Rightarrow> app_db \<Rightarrow> bool" where
  "has_outstanding_session_work s db \<longleftrightarrow> has_active_session_notifications s (ad_notices db)"

definition stopped_meta :: "string \<Rightarrow> datetime \<Rightarrow> session_meta \<Rightarrow> session_meta" where
  "stopped_meta error now m = m\<lparr>sm_running := False, sm_finished_at := Some now, sm_error := truncate_error error\<rparr>"

definition finish_session_run :: "string \<Rightarrow> string \<Rightarrow> datetime \<Rightarrow> app_db \<Rightarrow> app_db" where
  "finish_session_run s error now db = set_meta s (stopped_meta error now) db"

definition force_mark_session_stopped :: "string \<Rightarrow> string \<Rightarrow> datetime \<Rightarrow> app_db \<Rightarrow> app_db" where
  "force_mark_session_stopped s error now db = set_meta s (stopped_meta error now) db"

definition mark_session_stopped :: "string \<Rightarrow> string \<Rightarrow> datetime \<Rightarrow> app_db \<Rightarrow> app_db" where
  "mark_session_stopped s error now db =
    (if has_outstanding_session_work s db then db else finish_session_run s error now db)"

definition mark_sessions_stopped :: "string list \<Rightarrow> string \<Rightarrow> datetime \<Rightarrow> app_db \<Rightarrow> app_db" where
  "mark_sessions_stopped ss error now db =
     db\<lparr>ad_metas := update_rows (\<lambda>m. sm_session_id m \<in> set ss \<and> \<not> has_outstanding_session_work (sm_session_id m) db)
       (stopped_meta error now) (ad_metas db)\<rparr>"

section \<open>Cancelling and deleting\<close>

definition session_cancel_message :: string where
  "session_cancel_message = ''Agent session tasks canceled by user.''"

text \<open>The rows of a session's sub-agents and background commands; \<open>msg\<close> is the message on a
  cancelled command.\<close>

definition cancel_session_subagent_rows :: "string \<Rightarrow> datetime \<Rightarrow> app_db \<Rightarrow> app_db" where
  "cancel_session_subagent_rows s now db =
    (let d = snd (cancel_running_subagent_tasks_for_session s subagent_cancel_message now
               \<lparr>sd_tasks = ad_tasks db, sd_ledger = ad_notices db\<rparr>)
     in db\<lparr>ad_tasks := sd_tasks d, ad_notices := sd_ledger d\<rparr>)"

definition cancel_session_command_rows :: "string \<Rightarrow> string \<Rightarrow> datetime \<Rightarrow> app_db \<Rightarrow> app_db" where
  "cancel_session_command_rows msg s now db =
    (let d = snd (cancel_running_async_jobs_for_session s msg now \<lparr>jd_jobs = ad_jobs db, jd_ledger = ad_notices db\<rparr>)
     in db\<lparr>ad_jobs := jd_jobs d, ad_notices := jd_ledger d\<rparr>)"

definition cancel_all_session_work :: "string \<Rightarrow> string \<Rightarrow> datetime \<Rightarrow> app_db \<Rightarrow> app_db" where
  "cancel_all_session_work msg s now db =
    (let db = cancel_session_command_rows msg s now (cancel_session_subagent_rows s now db);
         db = db\<lparr>ad_notices := snd (cancel_session_notifications s None session_cancel_message now (ad_notices db))\<rparr>
     in force_mark_session_stopped s [] now db)"

definition discard_session :: "bool \<Rightarrow> string \<Rightarrow> string \<Rightarrow> datetime \<Rightarrow> app_db \<Rightarrow> app_db" where
  "discard_session pooled msg s now db =
    (if pooled then cancel_all_session_work msg s now db else force_mark_session_stopped s [] now db)"

text \<open>One DELETE; the foreign keys take the rest along.\<close>

definition delete_session_records :: "string \<Rightarrow> app_db \<Rightarrow> bool \<times> app_db" where
  "delete_session_records s db =
    (let messages = filter (\<lambda>(_, t). t \<noteq> s) (ad_messages db) in
     (s \<in> set (map sk_id (ad_sdk db)),
      db\<lparr>ad_sdk := filter (\<lambda>r. sk_id r \<noteq> s) (ad_sdk db), ad_messages := messages,
         ad_message_meta := filter (\<lambda>k. k \<notin> set (map fst (filter (\<lambda>(_, t). t = s) (ad_messages db)))) (ad_message_meta db),
         ad_metas := filter (\<lambda>m. sm_session_id m \<noteq> s) (ad_metas db),
         ad_log := filter (\<lambda>r. lr_session r \<noteq> s) (ad_log db),
         ad_notices := filter (\<lambda>n. nt_session_id n \<noteq> s) (ad_notices db),
         ad_tasks := filter (\<lambda>t. tk_session_id t \<noteq> s) (ad_tasks db),
         ad_compactions := filter (\<lambda>t. t \<noteq> s) (ad_compactions db)\<rparr>))"

definition delete_session ::
  "bool \<Rightarrow> string \<Rightarrow> string \<Rightarrow> int \<Rightarrow> user_role \<Rightarrow> bool \<Rightarrow> datetime \<Rightarrow> app_db \<Rightarrow> bool \<times> app_db" where
  "delete_session pooled msg s user role allow_project_session now db =
    (if s = [] then (False, db)
     else case get_meta s db of
         None \<Rightarrow> (False, db)
       | Some m \<Rightarrow>
           if \<not> can_access_meta m user role db then (False, db)
           else if sm_project m \<noteq> None \<and> \<not> allow_project_session then (False, db)
           else delete_session_records s (discard_session pooled msg s now
                  (cancel_session_command_rows msg s now (cancel_session_subagent_rows s now db))))"

definition cancel_sessions :: "string \<Rightarrow> string list \<Rightarrow> string \<Rightarrow> datetime \<Rightarrow> app_db \<Rightarrow> app_db" where
  "cancel_sessions msg ss reason now db =
    (let db = fold (\<lambda>s. cancel_all_session_work msg s now) ss db
     in if ss = [] then db else mark_sessions_stopped ss reason now db)"

section \<open>Replaying the timeline\<close>

text \<open>\<open>loads\<close> is \<^verbatim>\<open>json.loads\<close> and \<open>validate\<close> the event adapter; \<^const>\<open>None\<close> where they raise.  The
  timeline writer of a pooled session has been flushed.\<close>

definition replay_session_events_page ::
  "(string \<Rightarrow> json option) \<Rightarrow> (dict \<Rightarrow> agent_event option) \<Rightarrow> string \<Rightarrow> int \<Rightarrow> user_role \<Rightarrow> int option \<Rightarrow> int
     \<Rightarrow> app_db \<Rightarrow> (agent_event list \<times> bool \<times> int option) option" where
  "replay_session_events_page loads validate s user role before limit db =
    (if \<not> can_access_session s user role db then None
     else case fetch_timeline_page loads s before (max 1 limit) (ad_log db) of
       (items, has_more, next) \<Rightarrow>
         Some (List.map_filter (\<lambda>(seq, d). validate (AList.update ''seq'' (JInt seq) d)) items, has_more, next))"

definition default_replay_event_page_size :: int where
  "default_replay_event_page_size = 80"

definition replay_session_events where
  "replay_session_events loads validate s user role db =
     replay_session_events_page loads validate s user role None default_replay_event_page_size db"


section \<open>What the operations keep\<close>

lemma ids_simps [simp]:
  "sdk_ids (db\<lparr>ad_metas := a\<rparr>) = sdk_ids db" "project_ids (db\<lparr>ad_metas := a\<rparr>) = project_ids db"
  "sdk_ids (db\<lparr>ad_tasks := t\<rparr>) = sdk_ids db" "project_ids (db\<lparr>ad_tasks := t\<rparr>) = project_ids db"
  "sdk_ids (db\<lparr>ad_jobs := j\<rparr>) = sdk_ids db" "project_ids (db\<lparr>ad_jobs := j\<rparr>) = project_ids db"
  "sdk_ids (db\<lparr>ad_notices := n\<rparr>) = sdk_ids db" "project_ids (db\<lparr>ad_notices := n\<rparr>) = project_ids db"
  by (simp_all add: sdk_ids_def project_ids_def)

lemma projects_ok_sessions [simp]:
  "projects_ok (db\<lparr>ad_metas := a\<rparr>) = projects_ok db" "projects_ok (db\<lparr>ad_tasks := t\<rparr>) = projects_ok db"
  "projects_ok (db\<lparr>ad_jobs := j\<rparr>) = projects_ok db" "projects_ok (db\<lparr>ad_notices := n\<rparr>) = projects_ok db"
  "projects_ok (db\<lparr>ad_sdk := r\<rparr>) = projects_ok db"
  by (simp_all add: projects_ok_def project_ids_def)

lemma meta_ok_cong:
  "sm_session_id m' = sm_session_id m \<Longrightarrow> sm_type m' = sm_type m \<Longrightarrow> sm_project m' = sm_project m
     \<Longrightarrow> sdk_ids db' = sdk_ids db \<Longrightarrow> project_ids db' = project_ids db \<Longrightarrow> meta_ok db' m' = meta_ok db m"
  by (simp add: meta_ok_def split: option.split)

lemma meta_ok_rows [simp]:
  "meta_ok (db\<lparr>ad_metas := a\<rparr>) m = meta_ok db m" "meta_ok (db\<lparr>ad_tasks := t\<rparr>) m = meta_ok db m"
  "meta_ok (db\<lparr>ad_jobs := j\<rparr>) m = meta_ok db m" "meta_ok (db\<lparr>ad_notices := n\<rparr>) m = meta_ok db m"
  by (rule meta_ok_cong; simp)+

lemma update_metas_ok:
  assumes ok: "app_ok db"
    and same: "\<And>m. sm_session_id (f m) = sm_session_id m \<and> sm_type (f m) = sm_type m \<and> sm_project (f m) = sm_project m"
  shows "app_ok (db\<lparr>ad_metas := update_rows p f (ad_metas db)\<rparr>)"
proof -
  let ?db = "db\<lparr>ad_metas := update_rows p f (ad_metas db)\<rparr>"
  have "meta_ok ?db m" if m: "m \<in> set (update_rows p f (ad_metas db))" for m
    using m
  proof (rule in_update_rowsE)
    fix r
    assume r: "r \<in> set (ad_metas db)" "m = (if p r then f r else r)"
    have "meta_ok db r" using ok r(1) by (simp add: app_ok_def sessions_ok_def)
    then show ?thesis using r(2) same by (simp add: meta_ok_cong[of "f r" r db db])
  qed
  with ok same show ?thesis by (simp add: app_ok_def sessions_ok_def map_update_rows_same)
qed

lemma set_meta_ok [inv_intros]:
  assumes "app_ok db"
    and "\<And>m. sm_session_id (f m) = sm_session_id m \<and> sm_type (f m) = sm_type m \<and> sm_project (f m) = sm_project m"
  shows "app_ok (set_meta s f db)"
  unfolding set_meta_def using assms by (rule update_metas_ok)

lemma session_steps_ok [inv_intros]:
  assumes "app_ok db"
  shows "app_ok (mark_session_running s a c g now db)" and "app_ok (finish_session_run s e now db)"
    and "app_ok (force_mark_session_stopped s e now db)" and "app_ok (mark_session_stopped s e now db)"
    and "app_ok (mark_sessions_stopped ss e now db)" and "app_ok (snd (update_session_title s t u r db))"
    and "app_ok (snd (update_session_sandbox_container s c g u r db))"
    and "app_ok (snd (ensure_chat_session_meta codes s text req u r db))"
proof -
  show "app_ok (mark_session_running s a c g now db)"
    unfolding mark_session_running_def by (rule set_meta_ok[OF assms]) simp
  show fin: "app_ok (finish_session_run s e now db)"
    unfolding finish_session_run_def by (rule set_meta_ok[OF assms]) (simp add: stopped_meta_def)
  show "app_ok (force_mark_session_stopped s e now db)"
    unfolding force_mark_session_stopped_def by (rule set_meta_ok[OF assms]) (simp add: stopped_meta_def)
  show "app_ok (mark_session_stopped s e now db)" using assms fin by (simp add: mark_session_stopped_def)
  show "app_ok (mark_sessions_stopped ss e now db)"
    unfolding mark_sessions_stopped_def by (rule update_metas_ok[OF assms]) (simp add: stopped_meta_def)
  show "app_ok (snd (update_session_title s t u r db))"
    using set_meta_ok[OF assms, of "\<lambda>m. m\<lparr>sm_title := t\<rparr>" s] assms
    by (simp add: update_session_title_def Let_def split: option.split)
  show "app_ok (snd (update_session_sandbox_container s c g u r db))"
    using set_meta_ok[OF assms, of "\<lambda>m. m\<lparr>sm_selected := c, sm_selected_generation := g\<rparr>" s] assms
    by (simp add: update_session_sandbox_container_def Let_def split: option.split)
  show "app_ok (snd (ensure_chat_session_meta codes s text req u r db))"
    using assms by (auto simp: ensure_chat_session_meta_def Let_def split: option.split intro!: set_meta_ok)
qed

lemma insert_meta_ok [inv_intros]:
  assumes "app_ok db" and "insert_meta m db = Some db'"
    and "case sm_project m of None \<Rightarrow> sm_type m = CHAT | Some k \<Rightarrow> sm_type m = PROJECT_SESSION"
  shows "app_ok db'"
proof -
  have db': "db' = db\<lparr>ad_metas := ad_metas db @ [m]\<rparr>" and "sm_session_id m \<notin> set (map sm_session_id (ad_metas db))"
    and "meta_ok db m"
    using assms(2,3) by (auto simp: insert_meta_def meta_ok_def sdk_ids_def project_ids_def split: if_splits option.splits)
  with assms(1) show ?thesis by (simp add: app_ok_def sessions_ok_def)
qed

lemma meta_ok_mono: "meta_ok db m \<Longrightarrow> sdk_ids db \<subseteq> sdk_ids db' \<Longrightarrow> project_ids db \<subseteq> project_ids db' \<Longrightarrow> meta_ok db' m"
  by (auto simp: meta_ok_def split: option.splits)

lemma ensure_sdk_ok [inv_intros]:
  assumes "app_ok db"
  shows "app_ok (ensure_sdk_session_row s now db)"
proof (cases "s \<in> set (map sk_id (ad_sdk db))")
  case False
  let ?db = "db\<lparr>ad_sdk := ad_sdk db @ [\<lparr>sk_id = s, sk_created_at = now, sk_updated_at = now\<rparr>]\<rparr>"
  have ids: "sdk_ids ?db = insert s (sdk_ids db)" "project_ids ?db = project_ids db"
    by (auto simp: sdk_ids_def project_ids_def)
  have "meta_ok ?db m" if "meta_ok db m" for m using that by (rule meta_ok_mono) (auto simp: ids)
  with assms False ids show ?thesis
    by (auto simp: app_ok_def sessions_ok_def ensure_sdk_session_row_def)
qed (use assms in \<open>simp add: ensure_sdk_session_row_def\<close>)

lemma create_session_ok [inv_intros]: "app_ok db \<Longrightarrow> create_session u k now db = Some (s, db') \<Longrightarrow> app_ok db'"
  by (auto simp: create_session_def new_meta_def intro: insert_meta_ok[OF ensure_sdk_ok])

subsection \<open>The rows of background work\<close>

lemma resolve_sessions: "map nt_session_id (ledger_resolve k b rows) = map nt_session_id rows"
  by (auto simp: ledger_resolve_def resolve_obligation_def resolve_row_def case_prod_beta split: option.split
      intro!: map_update_rows_same)

lemma resolve_all_sessions: "map nt_session_id (fold (\<lambda>x. ledger_resolve (key x) (arg x)) xs rows) = map nt_session_id rows"
  by (induction xs arbitrary: rows) (simp_all add: resolve_sessions)

lemma subagent_rows_eq:
  "cancel_session_subagent_rows s now db =
     db\<lparr>ad_tasks := update_rows (running_matches (Some s) None) (canceled_task subagent_cancel_message now) (ad_tasks db),
        ad_notices := fold (\<lambda>t. ledger_resolve (SUBAGENT_FINISHED, tk_run_id t) (False, None, subagent_cancel_message, now))
          (filter (running_matches (Some s) None) (ad_tasks db)) (ad_notices db)\<rparr>"
  by (simp add: cancel_session_subagent_rows_def cancel_running_subagent_tasks_for_session_def cancel_running_rows_def Let_def)

lemma command_rows_eq:
  "cancel_session_command_rows msg s now db =
     db\<lparr>ad_jobs := update_rows (job_matches (Some s) None None) (canceled_job msg now) (ad_jobs db),
        ad_notices := fold (\<lambda>j. ledger_resolve (SANDBOX_ASYNC_JOB_FINISHED, aj_run_id j) (False, None, msg, now))
          (filter (job_matches (Some s) None None) (ad_jobs db)) (ad_notices db)\<rparr>"
  by (simp add: cancel_session_command_rows_def cancel_running_async_jobs_for_session_def cancel_running_jobs_def Let_def)

lemma same_session_set: "map f rows' = map f rows \<Longrightarrow> f ` set rows' = f ` set rows"
  by (metis set_map)

lemma subagent_rows_ok [inv_intros]:
  assumes "app_ok db"
  shows "app_ok (cancel_session_subagent_rows s now db)"
proof -
  let ?f = "canceled_task subagent_cancel_message now" and ?p = "running_matches (Some s) None"
  have t: "tk_session_id ` set (update_rows ?p ?f (ad_tasks db)) = tk_session_id ` set (ad_tasks db)"
    by (rule same_session_set, rule map_update_rows_same) (simp add: canceled_task_def)
  note n = same_session_set[OF resolve_all_sessions]
  from assms t show ?thesis unfolding subagent_rows_eq by (simp add: app_ok_def sessions_ok_def n)
qed

lemma command_rows_ok [inv_intros]:
  assumes "app_ok db"
  shows "app_ok (cancel_session_command_rows msg s now db)"
proof -
  note n = same_session_set[OF resolve_all_sessions]
  from assms show ?thesis unfolding command_rows_eq by (simp add: app_ok_def sessions_ok_def n)
qed

lemma notices_ok:
  assumes "app_ok db" and "nt_session_id ` set n \<subseteq> nt_session_id ` set (ad_notices db)"
  shows "app_ok (db\<lparr>ad_notices := n\<rparr>)"
  using assms by (simp add: app_ok_def sessions_ok_def) (meson order_trans)

lemma cancel_all_ok [inv_intros]: "app_ok db \<Longrightarrow> app_ok (cancel_all_session_work msg s now db)"
  unfolding cancel_all_session_work_def Let_def
  by (intro session_steps_ok notices_ok command_rows_ok subagent_rows_ok)
    (auto simp: cancel_session_notifications_def cancel_notifications_def Let_def cancel_row_def update_rows_def)

lemma discard_ok [inv_intros]: "app_ok db \<Longrightarrow> app_ok (discard_session pooled msg s now db)"
  by (simp add: discard_session_def cancel_all_ok session_steps_ok)

lemma delete_records_ok [inv_intros]:
  assumes "app_ok db"
  shows "app_ok (snd (delete_session_records s db))"
proof -
  let ?db = "snd (delete_session_records s db)"
  have ids: "sdk_ids ?db = sdk_ids db - {s}" "project_ids ?db = project_ids db"
    by (auto simp: delete_session_records_def Let_def sdk_ids_def project_ids_def)
  have p: "projects_ok ?db"
    using assms by (simp add: app_ok_def projects_ok_def delete_session_records_def Let_def project_ids_def)
  have rows: "ad_sdk ?db = filter (\<lambda>r. sk_id r \<noteq> s) (ad_sdk db)" "ad_messages ?db = filter (\<lambda>(_, t). t \<noteq> s) (ad_messages db)"
    "ad_metas ?db = filter (\<lambda>m. sm_session_id m \<noteq> s) (ad_metas db)" "ad_log ?db = filter (\<lambda>r. lr_session r \<noteq> s) (ad_log db)"
    "ad_notices ?db = filter (\<lambda>n. nt_session_id n \<noteq> s) (ad_notices db)"
    "ad_tasks ?db = filter (\<lambda>t. tk_session_id t \<noteq> s) (ad_tasks db)" "ad_compactions ?db = filter (\<lambda>t. t \<noteq> s) (ad_compactions db)"
    by (simp_all add: delete_session_records_def Let_def)
  have m: "meta_ok ?db m" if "meta_ok db m" "sm_session_id m \<noteq> s" for m
    using that unfolding meta_ok_def ids by simp
  have ok: "sessions_ok db" using assms by (simp add: app_ok_def)
  have meta: "set (ad_message_meta ?db) \<subseteq> fst ` set (ad_messages ?db)"
  proof
    fix k
    assume "k \<in> set (ad_message_meta ?db)"
    then have k: "k \<in> set (ad_message_meta db)" "\<forall>t. (k, t) \<in> set (ad_messages db) \<longrightarrow> t \<noteq> s"
      by (auto simp: delete_session_records_def Let_def image_iff)
    then obtain t where "(k, t) \<in> set (ad_messages db)" using ok by (auto simp: sessions_ok_def)
    with k(2) show "k \<in> fst ` set (ad_messages ?db)" by (force simp: rows image_iff)
  qed
  have subset: "f ` set (filter (\<lambda>x. f x \<noteq> s) xs) \<subseteq> sdk_ids db - {s}" if "f ` set xs \<subseteq> sdk_ids db" for f :: "'z \<Rightarrow> string" and xs
    using that by auto
  have msgs: "snd ` set (filter (\<lambda>(_, t). t \<noteq> s) (ad_messages db)) \<subseteq> sdk_ids db - {s}"
    using ok subset[of snd "ad_messages db"] by (simp add: sessions_ok_def case_prod_beta)
  have comp: "set (filter (\<lambda>t. t \<noteq> s) (ad_compactions db)) \<subseteq> sdk_ids db - {s}"
    using ok by (auto simp: sessions_ok_def)
  show ?thesis
    unfolding app_ok_def sessions_ok_def
    using ok p m meta msgs comp subset[of lr_session "ad_log db"] subset[of nt_session_id "ad_notices db"]
      subset[of tk_session_id "ad_tasks db"]
    by (simp add: sessions_ok_def ids rows distinct_map_filter)
qed

lemma delete_session_ok [inv_intros]: "app_ok db \<Longrightarrow> app_ok (snd (delete_session pooled msg s u r allow now db))"
  by (simp add: delete_session_def delete_records_ok discard_ok command_rows_ok subagent_rows_ok split: option.split)

lemma cancel_sessions_ok [inv_intros]: "app_ok db \<Longrightarrow> app_ok (cancel_sessions msg ss reason now db)"
proof -
  assume ok: "app_ok db"
  have "app_ok (fold (\<lambda>s. cancel_all_session_work msg s now) ss db)"
    using ok by (induction ss arbitrary: db) (simp_all add: cancel_all_ok)
  with ok show ?thesis by (simp add: cancel_sessions_def Let_def session_steps_ok)
qed

section \<open>Who sees which session\<close>

lemma listed_iff_accessible:
  assumes "app_ok db" and "m \<in> set (ad_metas db)"
  shows "listed_meta user role project db m \<longleftrightarrow> can_access_meta m user role db \<and> sm_project m = project"
proof (cases project)
  case (Some k)
  have "k \<in> project_ids db" if "sm_project m = Some k"
    using assms that by (auto simp: app_ok_def sessions_ok_def meta_ok_def)
  with Some show ?thesis using get_project_iff[of k db] by (auto simp: listed_meta_def can_access_meta_def)
qed (auto simp: listed_meta_def can_access_meta_def)

lemma summary_found:
  assumes "app_ok db"
  shows "session_summary s user role db = Some x \<longleftrightarrow>
    (\<exists>r\<in>set (ad_sdk db). \<exists>m\<in>set (ad_metas db). sk_id r = s \<and> sm_session_id m = s \<and> can_access_meta m user role db
        \<and> x = summary_from_row r (message_count s db) (Some m))"
proof (cases "get_meta s db")
  case (Some m)
  have dist: "distinct (map sk_id (ad_sdk db))" "distinct (map sm_session_id (ad_metas db))"
    using assms by (simp_all add: app_ok_def sessions_ok_def)
  have "s \<in> sdk_ids db" using assms get_metaD[OF Some] by (auto simp: app_ok_def sessions_ok_def meta_ok_def)
  then obtain r where r: "r \<in> set (ad_sdk db)" "sk_id r = s" by (auto simp: sdk_ids_def)
  then have f: "List.find (\<lambda>r. sk_id r = s) (ad_sdk db) = Some r" by (simp add: find_key_iff[OF dist(1)])
  have r1: "r' = r" if "r' \<in> set (ad_sdk db)" "sk_id r' = s" for r'
    using find_key_iff[OF dist(1), of s r'] f that by simp
  have m1: "m' = m" if "m' \<in> set (ad_metas db)" "sm_session_id m' = s" for m'
    using get_meta_iff[OF dist(2), of s m'] Some that by simp
  have "(\<exists>r\<in>set (ad_sdk db). \<exists>m\<in>set (ad_metas db). sk_id r = s \<and> sm_session_id m = s \<and> can_access_meta m user role db
        \<and> x = summary_from_row r (message_count s db) (Some m)) \<longleftrightarrow>
      can_access_meta m user role db \<and> x = summary_from_row r (message_count s db) (Some m)"
    using r r1 m1 get_metaD[OF Some] by blast
  moreover have "session_summary s user role db =
      (if can_access_meta m user role db then Some (summary_from_row r (message_count s db) (Some m)) else None)"
    by (simp add: session_summary_def can_access_session_def session_summary_by_id_def Some f)
  ultimately show ?thesis by auto
next
  case None
  then have "sm_session_id m \<noteq> s" if "m \<in> set (ad_metas db)" for m
    using that by (simp add: get_meta_def find_None_iff')
  with None show ?thesis by (auto simp: session_summary_def can_access_session_def)
qed

lemma in_list_sessions:
  assumes "length (ad_sdk db) \<le> limit"
  shows "x \<in> set (list_sessions limit user role project db) \<longleftrightarrow>
    (\<exists>r\<in>set (ad_sdk db). sk_id r \<noteq> bootstrap_session_id
       \<and> (\<exists>m\<in>set (ad_metas db). sm_session_id m = sk_id r \<and> listed_meta user role project db m)
       \<and> x = summary_from_row r (message_count (sk_id r) db) (get_meta (sk_id r) db))"
proof -
  define joined where "joined = filter (\<lambda>r. sk_id r \<noteq> bootstrap_session_id
      \<and> list_ex (\<lambda>m. sm_session_id m = sk_id r \<and> listed_meta user role project db m) (ad_metas db)) (ad_sdk db)"
  have "length joined \<le> limit" using assms length_filter_le[of _ "ad_sdk db"] unfolding joined_def by (meson le_trans)
  then have "take limit (sort_key (\<lambda>r. - sk_updated_at r) joined) = sort_key (\<lambda>r. - sk_updated_at r) joined" by simp
  then show ?thesis
    by (auto simp: list_sessions_def joined_def[symmetric] image_iff) (auto simp: joined_def list_ex_iff)
qed

definition sample_sessions :: app_db where
  "sample_sessions =
    (let db = empty_app [plain_user 1 ''u''] [] in
     case create_session 1 ''a'' 10 db of None \<Rightarrow> db
     | Some (_, db) \<Rightarrow> (case create_session 2 ''b'' 20 db of None \<Rightarrow> db | Some (_, db) \<Rightarrow> db))"

lemma sample_sessions_ok: "app_ok sample_sessions"
proof -
  obtain s1 d1 where 1: "create_session 1 ''a'' 10 (empty_app [plain_user 1 ''u''] []) = Some (s1, d1)"
    by (simp add: create_session_def insert_meta_def ensure_sdk_session_row_def new_meta_def empty_app_def)
  have d1: "app_ok d1" by (rule create_session_ok[OF empty_app_ok 1])
  show ?thesis
    using d1 create_session_ok[OF d1] by (simp add: sample_sessions_def 1 split: option.split)
qed

text \<open>C28. The list of sessions and the summary of one session follow the same rule of access: with a
  limit that does not cut, the list a user gets of the chats or of a project holds exactly the
  sessions, other than the bootstrap session, whose own summary the user may read and that belong to
  what was asked for, each with the same contents.\<close>

theorem session_list_exact:
  assumes ok: "app_ok db" and limit: "length (ad_sdk db) \<le> limit"
  shows "set (list_sessions limit user role project db) =
    {x. \<exists>s. s \<noteq> bootstrap_session_id \<and> session_summary s user role db = Some x \<and> ss_project x = project}"
proof (rule set_eqI)
  fix x
  have key: "distinct (map sm_session_id (ad_metas db))" using ok by (simp add: app_ok_def sessions_ok_def)
  have proj: "ss_project (summary_from_row r n (Some m)) = sm_project m" for r n m
    by (simp add: summary_from_row_def)
  have meta: "get_meta (sm_session_id m) db = Some m" if "m \<in> set (ad_metas db)" for m
    using get_meta_iff[OF key] that by blast
  have "x \<in> set (list_sessions limit user role project db) \<longleftrightarrow>
      (\<exists>r\<in>set (ad_sdk db). \<exists>m\<in>set (ad_metas db). sk_id r \<noteq> bootstrap_session_id \<and> sm_session_id m = sk_id r
         \<and> can_access_meta m user role db \<and> sm_project m = project
         \<and> x = summary_from_row r (message_count (sk_id r) db) (Some m))"
    unfolding in_list_sessions[OF limit]
  proof (intro bex_cong refl iffI)
    fix r
    assume "sk_id r \<noteq> bootstrap_session_id \<and> (\<exists>m\<in>set (ad_metas db). sm_session_id m = sk_id r \<and> listed_meta user role project db m)
      \<and> x = summary_from_row r (message_count (sk_id r) db) (get_meta (sk_id r) db)"
    then obtain m where m: "m \<in> set (ad_metas db)" "sm_session_id m = sk_id r" "listed_meta user role project db m"
      and "sk_id r \<noteq> bootstrap_session_id" "x = summary_from_row r (message_count (sk_id r) db) (get_meta (sk_id r) db)"
      by blast
    with meta[OF m(1)] listed_iff_accessible[OF ok m(1)]
    show "\<exists>m\<in>set (ad_metas db). sk_id r \<noteq> bootstrap_session_id \<and> sm_session_id m = sk_id r \<and> can_access_meta m user role db
         \<and> sm_project m = project \<and> x = summary_from_row r (message_count (sk_id r) db) (Some m)" by auto
  next
    fix r
    assume "\<exists>m\<in>set (ad_metas db). sk_id r \<noteq> bootstrap_session_id \<and> sm_session_id m = sk_id r \<and> can_access_meta m user role db
         \<and> sm_project m = project \<and> x = summary_from_row r (message_count (sk_id r) db) (Some m)"
    then obtain m where m: "m \<in> set (ad_metas db)" "sm_session_id m = sk_id r" "can_access_meta m user role db"
      "sm_project m = project" and "sk_id r \<noteq> bootstrap_session_id" "x = summary_from_row r (message_count (sk_id r) db) (Some m)"
      by blast
    with meta[OF m(1)] listed_iff_accessible[OF ok m(1)]
    show "sk_id r \<noteq> bootstrap_session_id \<and> (\<exists>m\<in>set (ad_metas db). sm_session_id m = sk_id r \<and> listed_meta user role project db m)
      \<and> x = summary_from_row r (message_count (sk_id r) db) (get_meta (sk_id r) db)" by auto
  qed
  also have "\<dots> \<longleftrightarrow> (\<exists>s. s \<noteq> bootstrap_session_id \<and> session_summary s user role db = Some x \<and> ss_project x = project)"
    unfolding summary_found[OF ok] using proj by fastforce
  finally show "x \<in> set (list_sessions limit user role project db) \<longleftrightarrow>
      x \<in> {x. \<exists>s. s \<noteq> bootstrap_session_id \<and> session_summary s user role db = Some x \<and> ss_project x = project}"
    by simp
qed

lemma session_list_exact_witness:
  "set (list_sessions 2 1 USER None sample_sessions) =
     {x. \<exists>s. s \<noteq> bootstrap_session_id \<and> session_summary s 1 USER sample_sessions = Some x \<and> ss_project x = None}
   \<and> map ss_session_id (list_sessions 2 1 USER None sample_sessions) = [''a'']"
proof -
  have "length (ad_sdk sample_sessions) \<le> 2"
    by (simp add: sample_sessions_def create_session_def insert_meta_def ensure_sdk_session_row_def new_meta_def empty_app_def)
  then show ?thesis using session_list_exact[OF sample_sessions_ok, of 2 1 USER None]
    by (simp add: sample_sessions_def create_session_def insert_meta_def ensure_sdk_session_row_def new_meta_def
        empty_app_def list_sessions_def bootstrap_session_id_def listed_meta_def summary_from_row_def)
qed

section \<open>A cancelled session is at rest\<close>

text \<open>The steps of a cancellation leave every notification as it is or cancel it.\<close>

definition only_cancels :: "notification list \<Rightarrow> notification list \<Rightarrow> bool" where
  "only_cancels rows rows' \<longleftrightarrow> list_all2 (\<lambda>n m. nt_session_id m = nt_session_id n
     \<and> (nt_status m = nt_status n \<or> nt_status m = N_CANCELED)) rows rows'"

lemma only_cancels_refl: "only_cancels rows rows"
  by (simp add: only_cancels_def list_all2_refl)

lemma only_cancels_trans: "only_cancels a b \<Longrightarrow> only_cancels b c \<Longrightarrow> only_cancels a c"
  unfolding only_cancels_def by (rule list_all2_trans) auto

lemma only_cancels_update:
  "(\<And>n. nt_session_id (f n) = nt_session_id n \<and> nt_status (f n) = N_CANCELED) \<Longrightarrow> only_cancels rows (update_rows p f rows)"
  unfolding only_cancels_def by (induction rows) auto

lemma only_cancels_resolve: "only_cancels rows (ledger_resolve k (False, p, e, now) rows)"
  by (auto simp: ledger_resolve_def resolve_obligation_def only_cancels_refl resolve_row_def split: option.split
      intro!: only_cancels_update)

lemma only_cancels_resolve_all: "only_cancels rows (fold (\<lambda>x. ledger_resolve (key x) (False, p, e, now)) xs rows)"
proof (induction xs arbitrary: rows)
  case (Cons x xs)
  show ?case using only_cancels_trans[OF only_cancels_resolve Cons] by simp
qed (simp add: only_cancels_refl)

lemma outstanding_after:
  assumes "only_cancels rows rows'" and "has_active_session_notifications s rows'"
  shows "has_active_session_notifications s rows"
proof -
  from assms(2) obtain m where m: "m \<in> set rows'" "nt_session_id m = s" "nt_status m \<in> set outstanding_statuses"
    by (auto simp: has_active_session_notifications_def)
  from assms(1) m(1) obtain n where "n \<in> set rows" "nt_session_id m = nt_session_id n"
    "nt_status m = nt_status n \<or> nt_status m = N_CANCELED"
    unfolding only_cancels_def by (auto simp: list_all2_conv_all_nth in_set_conv_nth) metis
  with m show ?thesis by (auto simp: has_active_session_notifications_def outstanding_statuses_def)
qed

definition settled :: "string \<Rightarrow> app_db \<Rightarrow> bool" where
  "settled s db \<longleftrightarrow> (\<forall>t\<in>set (ad_tasks db). tk_session_id t = s \<longrightarrow> tk_status t \<noteq> T_RUNNING)
     \<and> (\<forall>j\<in>set (ad_jobs db). aj_session_id j = s \<longrightarrow> aj_status j \<noteq> J_RUNNING) \<and> \<not> has_outstanding_session_work s db"

lemma cancel_all_rows:
  "ad_tasks (cancel_all_session_work msg s now db) =
     update_rows (running_matches (Some s) None) (canceled_task subagent_cancel_message now) (ad_tasks db)"
  "ad_jobs (cancel_all_session_work msg s now db) =
     update_rows (job_matches (Some s) None None) (canceled_job msg now) (ad_jobs db)"
  "ad_metas (cancel_all_session_work msg s now db) =
     update_rows (\<lambda>m. sm_session_id m = s) (stopped_meta [] now) (ad_metas db)"
  by (simp_all add: cancel_all_session_work_def Let_def subagent_rows_eq command_rows_eq force_mark_session_stopped_def
      set_meta_def)

lemma update_rows_all:
  assumes "\<And>r. p r \<Longrightarrow> q (f r)" and "\<And>r. \<not> p r \<Longrightarrow> q r"
  shows "\<forall>x\<in>set (update_rows p f rows). q x"
  using assms by (induction rows) auto

lemma cancel_all_notices:
  "only_cancels (ad_notices db) (ad_notices (cancel_all_session_work msg s now db))"
  "\<not> has_active_session_notifications s (ad_notices (cancel_all_session_work msg s now db))"
proof -
  define l where "l = ad_notices (cancel_session_command_rows msg s now (cancel_session_subagent_rows s now db))"
  have 1: "only_cancels (ad_notices db) l"
    unfolding l_def subagent_rows_eq command_rows_eq
    using only_cancels_trans[OF only_cancels_resolve_all only_cancels_resolve_all] by simp
  have l': "ad_notices (cancel_all_session_work msg s now db) =
      update_rows (cancel_matches s None False False outstanding_statuses) (cancel_row session_cancel_message now) l"
    by (simp add: cancel_all_session_work_def Let_def force_mark_session_stopped_def set_meta_def l_def
        cancel_session_notifications_def cancel_notifications_def)
  have "only_cancels l (ad_notices (cancel_all_session_work msg s now db))"
    unfolding l' by (rule only_cancels_update) (simp add: cancel_row_def)
  with 1 show "only_cancels (ad_notices db) (ad_notices (cancel_all_session_work msg s now db))" by (rule only_cancels_trans)
  show "\<not> has_active_session_notifications s (ad_notices (cancel_all_session_work msg s now db))"
  proof -
    have "\<forall>n\<in>set (ad_notices (cancel_all_session_work msg s now db)).
        \<not> (nt_session_id n = s \<and> nt_status n \<in> set outstanding_statuses)"
      unfolding l' by (rule update_rows_all) (auto simp: cancel_matches_def cancel_row_def outstanding_statuses_def)
    then show ?thesis by (auto simp: has_active_session_notifications_def)
  qed
qed

lemma canceled_rows_rest:
  "\<forall>t\<in>set (update_rows (running_matches (Some s) None) (canceled_task e now) ts). tk_session_id t = s \<longrightarrow> tk_status t \<noteq> T_RUNNING"
  "\<forall>j\<in>set (update_rows (job_matches (Some s) None None) (canceled_job e now) js). aj_session_id j = s \<longrightarrow> aj_status j \<noteq> J_RUNNING"
  by (rule update_rows_all; auto simp: running_matches_def canceled_task_def)
    (rule update_rows_all; auto simp: job_matches_def canceled_job_def)

lemma cancel_all_settles: "settled s (cancel_all_session_work msg s now db)"
  using cancel_all_notices(2) canceled_rows_rest
  unfolding settled_def has_outstanding_session_work_def cancel_all_rows by blast

lemma cancel_all_keeps_settled:
  assumes "settled s db"
  shows "settled s (cancel_all_session_work msg r now db)"
proof -
  let ?db = "cancel_all_session_work msg r now db"
  have "tk_status t \<noteq> T_RUNNING" if t: "t \<in> set (ad_tasks ?db)" "tk_session_id t = s" for t
    using t(1) unfolding cancel_all_rows
    by (rule in_update_rowsE) (use t(2) assms in \<open>auto simp: settled_def canceled_task_def split: if_splits\<close>)
  moreover have "aj_status j \<noteq> J_RUNNING" if j: "j \<in> set (ad_jobs ?db)" "aj_session_id j = s" for j
    using j(1) unfolding cancel_all_rows
    by (rule in_update_rowsE) (use j(2) assms in \<open>auto simp: settled_def canceled_job_def split: if_splits\<close>)
  moreover have "\<not> has_active_session_notifications s (ad_notices ?db)"
    using outstanding_after[OF cancel_all_notices(1)] assms by (auto simp: settled_def has_outstanding_session_work_def)
  ultimately show ?thesis by (simp add: settled_def has_outstanding_session_work_def)
qed

lemma filter_update_other:
  "(\<And>r. p r \<Longrightarrow> \<not> q r) \<Longrightarrow> (\<And>r. p r \<Longrightarrow> \<not> q (f r)) \<Longrightarrow> filter q (update_rows p f rows) = filter q rows"
  by (induction rows) auto

lemma cancel_all_others:
  assumes "s \<in> S"
  shows "filter (\<lambda>t. tk_session_id t \<notin> S) (ad_tasks (cancel_all_session_work msg s now db)) = filter (\<lambda>t. tk_session_id t \<notin> S) (ad_tasks db)"
    and "filter (\<lambda>j. aj_session_id j \<notin> S) (ad_jobs (cancel_all_session_work msg s now db)) = filter (\<lambda>j. aj_session_id j \<notin> S) (ad_jobs db)"
    and "filter (\<lambda>m. sm_session_id m \<notin> S) (ad_metas (cancel_all_session_work msg s now db)) = filter (\<lambda>m. sm_session_id m \<notin> S) (ad_metas db)"
  using assms
  by (auto simp: cancel_all_rows running_matches_def job_matches_def canceled_task_def canceled_job_def stopped_meta_def
      intro!: filter_update_other)

lemma cancel_fold:
  assumes "set ss \<subseteq> S"
  shows "\<forall>s. s \<in> set ss \<or> settled s db \<longrightarrow> settled s (fold (\<lambda>s. cancel_all_session_work msg s now) ss db)"
    and "filter (\<lambda>t. tk_session_id t \<notin> S) (ad_tasks (fold (\<lambda>s. cancel_all_session_work msg s now) ss db)) = filter (\<lambda>t. tk_session_id t \<notin> S) (ad_tasks db)"
    and "filter (\<lambda>j. aj_session_id j \<notin> S) (ad_jobs (fold (\<lambda>s. cancel_all_session_work msg s now) ss db)) = filter (\<lambda>j. aj_session_id j \<notin> S) (ad_jobs db)"
    and "filter (\<lambda>m. sm_session_id m \<notin> S) (ad_metas (fold (\<lambda>s. cancel_all_session_work msg s now) ss db)) = filter (\<lambda>m. sm_session_id m \<notin> S) (ad_metas db)"
  using assms
  by (induction ss arbitrary: db) (auto simp: cancel_all_others cancel_all_settles cancel_all_keeps_settled)

text \<open>C29. Cancelling a list of sessions puts exactly these to rest: afterwards none of them has a running
  sub-agent, a running background command or an outstanding notification, its row is stopped with the
  given reason, whatever was outstanding before; the tasks, commands and rows of every other session
  are as they were.\<close>

theorem cancel_sessions_settle:
  "let db' = cancel_sessions msg ss reason now db in
    (\<forall>s\<in>set ss. settled s db')
    \<and> (\<forall>m\<in>set (ad_metas db'). sm_session_id m \<in> set ss \<longrightarrow>
         \<not> sm_running m \<and> sm_error m = truncate_error reason \<and> sm_finished_at m = Some now)
    \<and> filter (\<lambda>t. tk_session_id t \<notin> set ss) (ad_tasks db') = filter (\<lambda>t. tk_session_id t \<notin> set ss) (ad_tasks db)
    \<and> filter (\<lambda>j. aj_session_id j \<notin> set ss) (ad_jobs db') = filter (\<lambda>j. aj_session_id j \<notin> set ss) (ad_jobs db)
    \<and> filter (\<lambda>m. sm_session_id m \<notin> set ss) (ad_metas db') = filter (\<lambda>m. sm_session_id m \<notin> set ss) (ad_metas db)"
proof (cases "ss = []")
  case False
  let ?db = "cancel_sessions msg ss reason now db"
  define d where "d = fold (\<lambda>s. cancel_all_session_work msg s now) ss db"
  note d = cancel_fold[OF order_refl, where ss = ss and db = db and msg = msg and now = now, folded d_def]
  let ?p = "\<lambda>m. sm_session_id m \<in> set ss \<and> \<not> has_outstanding_session_work (sm_session_id m) d"
  have eq: "?db = d\<lparr>ad_metas := update_rows ?p (stopped_meta reason now) (ad_metas d)\<rparr>"
    using False by (simp add: cancel_sessions_def Let_def d_def mark_sessions_stopped_def)
  have rest: "settled s ?db = settled s d" for s
    by (simp add: eq settled_def has_outstanding_session_work_def)
  have "\<not> has_outstanding_session_work s d" if "s \<in> set ss" for s using d(1) that by (auto simp: settled_def)
  then have "\<forall>m\<in>set (ad_metas ?db). sm_session_id m \<in> set ss \<longrightarrow>
      \<not> sm_running m \<and> sm_error m = truncate_error reason \<and> sm_finished_at m = Some now"
    unfolding eq by simp (rule update_rows_all; simp add: stopped_meta_def)
  moreover have "filter (\<lambda>m. sm_session_id m \<notin> set ss) (ad_metas ?db) = filter (\<lambda>m. sm_session_id m \<notin> set ss) (ad_metas d)"
    by (simp add: eq) (rule filter_update_other; simp add: stopped_meta_def)
  moreover have "ad_tasks ?db = ad_tasks d" "ad_jobs ?db = ad_jobs d" by (simp_all add: eq)
  ultimately show ?thesis using d rest by (simp add: Let_def)
qed (simp add: cancel_sessions_def)

lemma cancel_sessions_settle_witness:
  "settled ''a'' (cancel_sessions ''stopped'' [''a''] ''WorkProject canceled.'' 9 sample_sessions)"
  using cancel_sessions_settle[where msg = "''stopped''" and ss = "[''a'']" and reason = "''WorkProject canceled.''"
      and now = 9 and db = sample_sessions]
  by (simp add: Let_def)

end
