(* ===== verification/Work_Projects.thy ===== *)
theory Work_Projects
  imports Sessions
begin

text \<open>
  Work projects, \<^verbatim>\<open>src/service/work_project/projects.py\<close> with the requests of
  \<^verbatim>\<open>src/schema/work_project/projects.py\<close>: metadata with owners, execution workspace and scope assets,
  the life cycle, and the sessions of a project.  \<open>alloc\<close> is the identifier the database gives to a new
  row of a table that holds the given ones.
\<close>

section \<open>Requests\<close>

record metadata_request =
  mr_name :: string
  mr_description :: string
  mr_owners :: "int list"
  mr_container :: "int option"
  mr_assets :: "asset_request list"
  mr_type :: project_type

definition unique_positive_ids :: "int list \<Rightarrow> int list" where
  "unique_positive_ids vs = dedup (filter (\<lambda>v. 0 < v) vs)"

fun validate_assets :: "(string \<Rightarrow> string option) \<Rightarrow> asset_request list \<Rightarrow> asset_request list option" where
  "validate_assets canon [] = Some []"
| "validate_assets canon (r # rs) =
    (case validate_asset_request canon r of
       Inl _ \<Rightarrow> None
     | Inr r' \<Rightarrow> map_option (Cons r') (validate_assets canon rs))"

definition validate_metadata_request :: "(string \<Rightarrow> string option) \<Rightarrow> metadata_request \<Rightarrow> metadata_request option" where
  "validate_metadata_request canon raw =
    (let name = str_strip (mr_name raw); description = str_strip (mr_description raw) in
     if name = [] \<or> 255 < length name \<or> 2000 < length description \<or> 100 < length (mr_owners raw)
        \<or> \<not> positive_ref (mr_container raw) \<or> mr_assets raw = [] \<or> 500 < length (mr_assets raw) then None
     else case validate_assets canon (mr_assets raw) of
         None \<Rightarrow> None
       | Some assets \<Rightarrow>
           Some (raw\<lparr>mr_name := name, mr_description := description, mr_owners := unique_positive_ids (mr_owners raw),
                     mr_assets := assets\<rparr>))"

definition can_create_work_project_session :: "project_status \<Rightarrow> bool" where
  "can_create_work_project_session st \<longleftrightarrow> st \<noteq> W_CANCELED"

definition can_cancel_work_project :: "project_status \<Rightarrow> bool" where
  "can_cancel_work_project st \<longleftrightarrow> st \<noteq> W_CANCELED"

definition can_retry_work_project :: "project_status \<Rightarrow> bool" where
  "can_retry_work_project st \<longleftrightarrow> st = W_CANCELED"

fun duplicate_from :: "(asset_type \<times> string) set \<Rightarrow> asset_request list \<Rightarrow> string" where
  "duplicate_from seen [] = []"
| "duplicate_from seen (r # rs) =
    (if request_identity r \<in> seen then asset_type_value (ar_type r) @ '':'' @ request_identifier r
     else duplicate_from (insert (request_identity r) seen) rs)"

definition duplicate_asset_identity :: "asset_request list \<Rightarrow> string" where
  "duplicate_asset_identity rs = duplicate_from {} rs"

definition validate_metadata_static :: "metadata_request \<Rightarrow> string" where
  "validate_metadata_static req =
    (if mr_assets req = [] then ''at least one asset is required''
     else let dup = duplicate_asset_identity (mr_assets req) in
       if dup \<noteq> [] then ''duplicate asset: '' @ dup else [])"

text \<open>The last check of the container asks for a running one unless the project is bound to it; the
  binding it looks at is the one of another project, so it is always absent here.\<close>

definition validate_metadata_for_write :: "metadata_request \<Rightarrow> int \<Rightarrow> user_role \<Rightarrow> int option \<Rightarrow> app_db \<Rightarrow> string" where
  "validate_metadata_for_write req user role project db =
    (let static = validate_metadata_static req;
         missing = sort (dedup (filter (\<lambda>k. k \<notin> set (map us_id (ad_users db))) (mr_owners req))) in
     if static \<noteq> [] then static
     else if mr_owners req \<noteq> [] \<and> missing \<noteq> []
     then ''selected owners not found: '' @ join_with '', '' (map show_int missing)
     else case mr_container req of
         None \<Rightarrow> []
       | Some c \<Rightarrow>
           (case get_row ct_id c (ad_containers db) of
              None \<Rightarrow> ''selected execution workspace not found''
            | Some ct \<Rightarrow>
                let existing_binding = List.find (\<lambda>b. bd_container b = c \<and> bd_project b \<noteq> or_else_int project (- 1)) (ad_bindings db) in
                if role \<noteq> ADMIN \<and> ct_owner ct \<noteq> user then ''selected execution workspace is not available to current user''
                else if existing_binding \<noteq> None then ''selected execution workspace is already bound to another project''
                else if ct_status ct \<noteq> C_RUNNING \<and> existing_binding = None then ''selected execution workspace is not running''
                else []))"

section \<open>Rows of a project\<close>

text \<open>Inserts; \<^const>\<open>None\<close> is an \<^verbatim>\<open>IntegrityError\<close>.\<close>

definition insert_owner :: "project_owner \<Rightarrow> app_db \<Rightarrow> app_db option" where
  "insert_owner w db =
    (if owner_key w \<notin> set (map owner_key (ad_owners db)) \<and> ow_project w \<in> set (map pj_id (ad_projects db))
        \<and> ow_user w \<in> set (map us_id (ad_users db)) then Some (db\<lparr>ad_owners := ad_owners db @ [w]\<rparr>) else None)"

fun add_owner_rows :: "int \<Rightarrow> nat \<Rightarrow> int list \<Rightarrow> app_db \<Rightarrow> app_db option" where
  "add_owner_rows k i [] db = Some db"
| "add_owner_rows k i (u # us) db =
    Option.bind (insert_owner \<lparr>ow_project = k, ow_user = u, ow_position = i\<rparr> db) (add_owner_rows k (i + 1) us)"

definition set_project_owner_rows :: "int \<Rightarrow> int list \<Rightarrow> app_db \<Rightarrow> app_db option" where
  "set_project_owner_rows k owners db = add_owner_rows k 0 owners db"

definition replace_project_owners :: "int \<Rightarrow> int list \<Rightarrow> app_db \<Rightarrow> app_db option" where
  "replace_project_owners k owners db =
     set_project_owner_rows k owners (db\<lparr>ad_owners := filter (\<lambda>w. ow_project w \<noteq> k) (ad_owners db)\<rparr>)"

definition set_project_sandbox_container_row :: "int \<Rightarrow> int option \<Rightarrow> app_db \<Rightarrow> app_db option" where
  "set_project_sandbox_container_row k container db =
    (case container of
       None \<Rightarrow> Some db
     | Some c \<Rightarrow>
         if (k, c) \<in> set (map (\<lambda>b. (bd_project b, bd_container b)) (ad_bindings db))
            \<or> k \<notin> set (map pj_id (ad_projects db)) \<or> c \<notin> set (map ct_id (ad_containers db)) then None
         else Some (db\<lparr>ad_bindings := ad_bindings db @ [\<lparr>bd_project = k, bd_container = c, bd_position = 0\<rparr>]\<rparr>))"

definition replace_project_sandbox_container :: "int \<Rightarrow> int option \<Rightarrow> app_db \<Rightarrow> app_db option" where
  "replace_project_sandbox_container k container db =
    (let links = filter (\<lambda>b. bd_project b = k) (ad_bindings db) in
     if length links = 1 \<and> Some (bd_container (hd links)) = container then Some db
     else set_project_sandbox_container_row k container
            (db\<lparr>ad_bindings := filter (\<lambda>b. bd_project b \<noteq> k) (ad_bindings db)\<rparr>))"

definition sandbox_container_id_for_project :: "int \<Rightarrow> app_db \<Rightarrow> int option" where
  "sandbox_container_id_for_project k db =
    (case sort_key bd_position (filter (\<lambda>b. bd_project b = k) (ad_bindings db)) of [] \<Rightarrow> None | b # _ \<Rightarrow> Some (bd_container b))"

text \<open>\<^verbatim>\<open>int(updated_at.timestamp() * 1000000)\<close>: instants count microseconds.\<close>

definition status_generation :: "container \<Rightarrow> int" where
  "status_generation c = ct_updated_at c"

definition generation_of :: "int option \<Rightarrow> app_db \<Rightarrow> int" where
  "generation_of container db =
    (case container of None \<Rightarrow> 0 | Some c \<Rightarrow>
       (case get_row ct_id c (ad_containers db) of None \<Rightarrow> 0 | Some ct \<Rightarrow> status_generation ct))"

definition sync_project_session_sandbox_selection :: "int \<Rightarrow> int option \<Rightarrow> app_db \<Rightarrow> app_db" where
  "sync_project_session_sandbox_selection k container db =
     db\<lparr>ad_metas := update_rows (\<lambda>m. sm_project m = Some k)
       (\<lambda>m. m\<lparr>sm_selected := container, sm_selected_generation := generation_of container db\<rparr>) (ad_metas db)\<rparr>"

section \<open>Scope assets\<close>

definition new_scope_asset :: "(int list \<Rightarrow> int) \<Rightarrow> int \<Rightarrow> asset_request \<Rightarrow> datetime \<Rightarrow> graph_db \<Rightarrow> asset" where
  "new_scope_asset alloc k r now g =
     apply_asset_request r now (blank_asset (alloc (map as_id (gd_assets g))) k O_SCOPE [] [] now)"

fun set_asset_rows ::
  "(int list \<Rightarrow> int) \<Rightarrow> int \<Rightarrow> datetime \<Rightarrow> (asset_type \<times> string) set \<Rightarrow> asset_request list \<Rightarrow> graph_db \<Rightarrow> graph_db option" where
  "set_asset_rows alloc k now seen [] g = Some g"
| "set_asset_rows alloc k now seen (r # rs) g =
    (if request_identity r \<in> seen then set_asset_rows alloc k now seen rs g
     else Option.bind (insert_asset (new_scope_asset alloc k r now g) g)
            (set_asset_rows alloc k now (insert (request_identity r) seen) rs))"

definition claimed_asset :: "asset_request \<Rightarrow> datetime \<Rightarrow> asset \<Rightarrow> asset" where
  "claimed_asset r now old =
    (keep_extra r old (apply_asset_request r now old))\<lparr>as_origin := O_SCOPE, as_agent := [], as_session := []\<rparr>"

fun claim_assets ::
  "(int list \<Rightarrow> int) \<Rightarrow> int \<Rightarrow> datetime \<Rightarrow> (asset_type \<times> string) set \<Rightarrow> asset_request list \<Rightarrow> graph_db \<Rightarrow> graph_db option" where
  "claim_assets alloc k now seen [] g = Some g"
| "claim_assets alloc k now seen (r # rs) g =
    (if request_identity r \<in> seen then claim_assets alloc k now seen rs g
     else Option.bind
       (case get_asset_by_identity k (ar_type r) (request_identifier r) g of
          None \<Rightarrow> insert_asset (new_scope_asset alloc k r now g) g
        | Some old \<Rightarrow> put_asset (claimed_asset r now old) g)
       (claim_assets alloc k now (insert (request_identity r) seen) rs))"

definition drop_scope_asset :: "int \<Rightarrow> asset \<Rightarrow> graph_db \<Rightarrow> graph_db" where
  "drop_scope_asset k a g =
    (let g1 = g\<lparr>gd_findings := update_rows (\<lambda>f. fr_asset (fd_body f) = Some (as_id a)) unlink_asset (gd_findings g)\<rparr>
     in delete_asset_row (as_id a) (purge_edges_touching_asset k (as_id a) g1))"

text \<open>The rows read at the start that are scope and were not named are dropped at the end.\<close>

definition unnamed_scope :: "int \<Rightarrow> asset_request list \<Rightarrow> asset \<Rightarrow> bool" where
  "unnamed_scope k rs a \<longleftrightarrow> as_project a = k \<and> \<not> (as_origin a \<noteq> O_SCOPE \<or> (as_type a, as_identifier a) \<in> request_identity ` set rs)"

definition upsert_project_assets ::
  "(int list \<Rightarrow> int) \<Rightarrow> int \<Rightarrow> asset_request list \<Rightarrow> datetime \<Rightarrow> graph_db \<Rightarrow> graph_db option" where
  "upsert_project_assets alloc k rs now g =
     map_option (fold (drop_scope_asset k) (filter (unnamed_scope k rs) (gd_assets g))) (claim_assets alloc k now {} rs g)"

definition on_graph :: "(graph_db \<Rightarrow> graph_db option) \<Rightarrow> app_db \<Rightarrow> app_db option" where
  "on_graph f db = map_option (\<lambda>g. db\<lparr>ad_graph := g\<rparr>) (f (ad_graph db))"

section \<open>What a project shows\<close>

record project_view =
  pv_project :: project
  pv_owners :: "system_user list"
  pv_container :: "(container \<times> bool) option"
  pv_assets :: "asset list"
  pv_session_count :: nat
  pv_can_create_session :: bool
  pv_can_cancel :: bool
  pv_can_retry :: bool

definition owners_for_project :: "int \<Rightarrow> app_db \<Rightarrow> system_user list" where
  "owners_for_project k db =
    (if k \<le> 0 then []
     else List.map_filter (\<lambda>w. get_row us_id (ow_user w) (ad_users db))
       (sort_key ow_position (sort_key ow_user (filter (\<lambda>w. ow_project w = k) (ad_owners db)))))"

definition sandbox_container_can_manage :: "container \<Rightarrow> int \<Rightarrow> user_role \<Rightarrow> bool" where
  "sandbox_container_can_manage c user role \<longleftrightarrow> role = ADMIN \<or> ct_owner c = user"

definition sandbox_container_for_project :: "int \<Rightarrow> int \<Rightarrow> user_role \<Rightarrow> app_db \<Rightarrow> (container \<times> bool) option" where
  "sandbox_container_for_project k user role db =
    (if k \<le> 0 then None
     else case List.map_filter (\<lambda>b. get_row ct_id (bd_container b) (ad_containers db))
         (sort_key bd_position (filter (\<lambda>b. bd_project b = k) (ad_bindings db))) of
       [] \<Rightarrow> None | c # _ \<Rightarrow> Some (c, sandbox_container_can_manage c user role))"

definition assets_for_project :: "int \<Rightarrow> app_db \<Rightarrow> asset list" where
  "assets_for_project k db =
    (if k \<le> 0 then [] else sort_key as_id (filter (\<lambda>a. as_project a = k) (gd_assets (ad_graph db))))"

definition project_session_count :: "int \<Rightarrow> app_db \<Rightarrow> nat" where
  "project_session_count k db =
    (if k \<le> 0 then 0 else length (filter (\<lambda>m. sm_project m = Some k) (ad_metas db)))"

definition project_view_of :: "project \<Rightarrow> int \<Rightarrow> user_role \<Rightarrow> app_db \<Rightarrow> project_view" where
  "project_view_of p user role db =
     \<lparr>pv_project = p, pv_owners = owners_for_project (pj_id p) db,
      pv_container = sandbox_container_for_project (pj_id p) user role db,
      pv_assets = assets_for_project (pj_id p) db, pv_session_count = project_session_count (pj_id p) db,
      pv_can_create_session = can_create_work_project_session (pj_status p),
      pv_can_cancel = can_cancel_work_project (pj_status p), pv_can_retry = can_retry_work_project (pj_status p)\<rparr>"

fun project_status_name :: "project_status \<Rightarrow> string" where
  "project_status_name W_WORKING = ''WORKING''"
| "project_status_name W_COMPLETED = ''COMPLETED''"
| "project_status_name W_CANCELED = ''CANCELED''"

fun project_type_name :: "project_type \<Rightarrow> string" where
  "project_type_name PENETRATION_TEST = ''PENETRATION_TEST''"
| "project_type_name SOURCE_CODE_AUDIT = ''SOURCE_CODE_AUDIT''"

text \<open>\<open>like pat col\<close> is the case-insensitive match of the database.\<close>

definition query_work_projects ::
  "(string \<Rightarrow> string \<Rightarrow> bool) \<Rightarrow> int \<Rightarrow> int \<Rightarrow> string \<Rightarrow> int option \<Rightarrow> int \<Rightarrow> user_role \<Rightarrow> app_db \<Rightarrow> project_view page" where
  "query_work_projects like page limit keyword owner user role db =
    (let keyword = str_strip keyword; pat = ''%'' @ keyword @ ''%'';
         rows = sort_key pj_id (ad_projects db);
         rows = (if keyword = [] then rows
                 else filter (\<lambda>p. like pat (pj_name p) \<or> like pat (pj_description p)
                     \<or> like pat (project_status_name (pj_status p)) \<or> like pat (project_type_name (pj_type p))) rows);
         rows = (case owner of None \<Rightarrow> rows | Some u \<Rightarrow> filter (\<lambda>p. is_project_owner (pj_id p) u db) rows);
         p = paginate_statement page limit rows
     in paginated_payload p (map (\<lambda>p. project_view_of p user role db) (pg_items p)))"

definition query_work_projects_for_user where
  "query_work_projects_for_user like page limit keyword user role db =
     query_work_projects like page limit keyword (if role = ADMIN then None else Some user) user role db"

record record_snapshot =
  rs_project :: project_view
  rs_assets :: "asset list"
  rs_findings :: "finding list"
  rs_graph :: graph_snapshot

definition get_work_project_record_snapshot_for_user :: "int \<Rightarrow> int \<Rightarrow> user_role \<Rightarrow> app_db \<Rightarrow> record_snapshot option" where
  "get_work_project_record_snapshot_for_user k user role db =
    (if \<not> can_access_work_project k user role db then None
     else case get_project k db of
         None \<Rightarrow> None
       | Some p \<Rightarrow>
           let view = project_view_of p user role db in
           Some \<lparr>rs_project = view, rs_assets = pv_assets view,
             rs_findings = sort_key fd_id (filter (\<lambda>f. fd_project f = k) (gd_findings (ad_graph db))),
             rs_graph = get_graph_snapshot k (ad_graph db)\<rparr>)"

section \<open>Writing projects\<close>

datatype project_error = Metadata_Invalid string | Integrity_Error

text \<open>A transaction that raises is rolled back.\<close>

definition commit :: "app_db \<Rightarrow> (app_db \<Rightarrow> 'a) \<Rightarrow> app_db option \<Rightarrow> (project_error + 'a) \<times> app_db" where
  "commit db f r = (case r of None \<Rightarrow> (Inl Integrity_Error, db) | Some db' \<Rightarrow> (Inr (f db'), db'))"

definition insert_project :: "project \<Rightarrow> app_db \<Rightarrow> app_db" where
  "insert_project p db =
     db\<lparr>ad_projects := ad_projects db @ [p], ad_graph := (ad_graph db)\<lparr>gd_projects := gd_projects (ad_graph db) @ [pj_id p]\<rparr>\<rparr>"

definition put_project :: "project \<Rightarrow> app_db \<Rightarrow> app_db" where
  "put_project p db = db\<lparr>ad_projects := put_row pj_id p (ad_projects db)\<rparr>"

definition create_work_project ::
  "(int list \<Rightarrow> int) \<Rightarrow> metadata_request \<Rightarrow> int \<Rightarrow> user_role \<Rightarrow> datetime \<Rightarrow> app_db
     \<Rightarrow> (project_error + project_view) \<times> app_db" where
  "create_work_project alloc req user role now db =
    (let invalid = validate_metadata_for_write req user role None db;
         k = alloc (map pj_id (ad_projects db));
         p = \<lparr>pj_id = k, pj_name = mr_name req, pj_description = mr_description req, pj_tasks = [], pj_summaries = [],
              pj_progress = 0, pj_status = W_WORKING, pj_type = mr_type req, pj_created_at = now, pj_updated_at = now\<rparr>
     in if invalid \<noteq> [] then (Inl (Metadata_Invalid invalid), db)
        else commit db (project_view_of p user role)
          (Option.bind (set_project_owner_rows k (mr_owners req) (insert_project p db)) (\<lambda>db.
           Option.bind (set_project_sandbox_container_row k (mr_container req) db)
             (on_graph (set_asset_rows alloc k now {} (mr_assets req))))))"

definition update_work_project_metadata ::
  "(int list \<Rightarrow> int) \<Rightarrow> int \<Rightarrow> metadata_request \<Rightarrow> int \<Rightarrow> user_role \<Rightarrow> datetime \<Rightarrow> app_db
     \<Rightarrow> (project_error + project_view option) \<times> app_db" where
  "update_work_project_metadata alloc k req user role now db =
    (case get_project k db of
       None \<Rightarrow> (Inr None, db)
     | Some p \<Rightarrow>
         let invalid = validate_metadata_for_write req user role (Some k) db;
             p' = p\<lparr>pj_name := mr_name req, pj_description := mr_description req, pj_type := mr_type req, pj_updated_at := now\<rparr>
         in if invalid \<noteq> [] then (Inl (Metadata_Invalid invalid), db)
            else commit db (\<lambda>db. Some (project_view_of p' user role db))
              (Option.bind (replace_project_owners k (mr_owners req) (put_project p' db)) (\<lambda>db.
               Option.bind (replace_project_sandbox_container k (mr_container req) db) (\<lambda>db.
               map_option (sync_project_session_sandbox_selection k (mr_container req))
                 (on_graph (upsert_project_assets alloc k (mr_assets req) now) db)))))"

definition project_session_ids :: "int \<Rightarrow> app_db \<Rightarrow> string list" where
  "project_session_ids k db = map sm_session_id (filter (\<lambda>m. sm_project m = Some k) (ad_metas db))"

definition cancel_work_project ::
  "string \<Rightarrow> int \<Rightarrow> int \<Rightarrow> user_role \<Rightarrow> datetime \<Rightarrow> app_db \<Rightarrow> (project_view option \<times> bool) \<times> app_db" where
  "cancel_work_project msg k user role now db =
    (case get_project k db of
       None \<Rightarrow> ((None, False), db)
     | Some p \<Rightarrow>
         if \<not> can_cancel_work_project (pj_status p) then ((Some (project_view_of p user role db), False), db)
         else
           let p' = p\<lparr>pj_status := W_CANCELED, pj_updated_at := now\<rparr>; db' = put_project p' db
           in ((Some (project_view_of p' user role db'), True),
               cancel_sessions msg (project_session_ids k db) ''WorkProject canceled.'' now db'))"

definition retry_work_project ::
  "int \<Rightarrow> int \<Rightarrow> user_role \<Rightarrow> datetime \<Rightarrow> app_db \<Rightarrow> (project_view option \<times> bool) \<times> app_db" where
  "retry_work_project k user role now db =
    (case get_project k db of
       None \<Rightarrow> ((None, False), db)
     | Some p \<Rightarrow>
         if \<not> can_retry_work_project (pj_status p) then ((Some (project_view_of p user role db), False), db)
         else
           let p' = p\<lparr>pj_status := derive_work_project_status (pj_tasks p) W_WORKING, pj_updated_at := now\<rparr>;
               db' = put_project p' db
           in ((Some (project_view_of p' user role db'), True), db'))"

text \<open>Deleting the row takes owners, container and records along; a session that still refers to the
  project refuses it.\<close>

definition delete_project_rows :: "int \<Rightarrow> app_db \<Rightarrow> app_db option" where
  "delete_project_rows k db =
    (if Some k \<in> set (map sm_project (ad_metas db)) then None
     else Some (db\<lparr>ad_projects := filter (\<lambda>p. pj_id p \<noteq> k) (ad_projects db),
       ad_owners := filter (\<lambda>w. ow_project w \<noteq> k) (ad_owners db),
       ad_bindings := filter (\<lambda>b. bd_project b \<noteq> k) (ad_bindings db), ad_graph := delete_project_row k (ad_graph db)\<rparr>))"

definition delete_work_project ::
  "(string \<Rightarrow> bool) \<Rightarrow> string \<Rightarrow> int \<Rightarrow> datetime \<Rightarrow> app_db \<Rightarrow> (project_error + bool) \<times> app_db" where
  "delete_work_project pooled msg k now db =
    (if get_project k db = None then (Inr False, db)
     else
       let db1 = fold (\<lambda>s db. snd (delete_session (pooled s) msg s 0 ADMIN True now db)) (project_session_ids k db) db
       in if get_project k db1 = None then (Inr True, db1) else commit db1 (\<lambda>_. True) (delete_project_rows k db1))"

section \<open>Sessions of a project\<close>

text \<open>\<^verbatim>\<open>^session (?P<number>\d+)$\<close>: the dollar also matches before a final line break.\<close>

definition project_session_title_pattern :: "string \<Rightarrow> nat option" where
  "project_session_title_pattern t =
    (if take 8 t \<noteq> ''session '' then None
     else let d = drop 8 t; d = (if d \<noteq> [] \<and> last d = CHR 0x0A then butlast d else d)
          in if d = [] \<or> \<not> list_all is_digit d then None
             else Some (foldl (\<lambda>n c. 10 * n + digit_val c) 0 d))"

definition next_project_session_title :: "int \<Rightarrow> app_db \<Rightarrow> string" where
  "next_project_session_title k db =
    (let titles = map sm_title (filter (\<lambda>m. sm_project m = Some k) (ad_metas db));
         max_number = fold (\<lambda>t n. case project_session_title_pattern t of None \<Rightarrow> n | Some i \<Rightarrow> max n i) titles 0
     in ''session '' @ show_nat (max_number + 1))"

datatype session_create_result = Session_Created string | Project_Not_Found | Project_Inactive

definition create_work_project_session ::
  "int \<Rightarrow> int \<Rightarrow> user_role \<Rightarrow> string \<Rightarrow> datetime \<Rightarrow> app_db \<Rightarrow> (project_error + session_create_result) \<times> app_db" where
  "create_work_project_session k owner role fresh now db =
    (if \<not> can_access_work_project k owner role db then (Inr Project_Not_Found, db)
     else case get_project k db of
         None \<Rightarrow> (Inr Project_Not_Found, db)
       | Some p \<Rightarrow>
           if \<not> can_create_work_project_session (pj_status p) then (Inr Project_Inactive, db)
           else
             let container = sandbox_container_id_for_project k db;
                 m = (new_meta fresh PROJECT_SESSION (next_project_session_title k db) owner (Some k) now)
                       \<lparr>sm_selected := container, sm_selected_generation := generation_of container db\<rparr>
             in commit db (\<lambda>_. Session_Created fresh) (insert_meta m (ensure_sdk_session_row fresh now db)))"

definition list_work_project_sessions :: "int \<Rightarrow> int \<Rightarrow> user_role \<Rightarrow> app_db \<Rightarrow> session_summary_row list option" where
  "list_work_project_sessions k user role db =
    (if \<not> can_access_work_project k user role db then None else Some (list_sessions 100 user role (Some k) db))"

definition can_run_work_project_session :: "string \<Rightarrow> int \<Rightarrow> user_role \<Rightarrow> app_db \<Rightarrow> bool" where
  "can_run_work_project_session s user role db \<longleftrightarrow>
    (case get_meta s db of
       None \<Rightarrow> False
     | Some m \<Rightarrow>
         (case sm_project m of
            None \<Rightarrow> True
          | Some k \<Rightarrow>
              if \<not> can_access_work_project k user role db then False
              else (case get_project k db of None \<Rightarrow> False | Some p \<Rightarrow> can_create_work_project_session (pj_status p))))"

definition delete_work_project_session ::
  "bool \<Rightarrow> string \<Rightarrow> int \<Rightarrow> string \<Rightarrow> int \<Rightarrow> user_role \<Rightarrow> datetime \<Rightarrow> app_db \<Rightarrow> bool option \<times> app_db" where
  "delete_work_project_session pooled msg k s user role now db =
    (if \<not> can_access_work_project k user role db then (None, db)
     else case get_meta s db of
         None \<Rightarrow> (if get_project k db = None then None else Some False, db)
       | Some m \<Rightarrow>
           if sm_project m \<noteq> Some k then (if get_project k db = None then None else Some False, db)
           else map_prod Some id (delete_session pooled msg s user role True now db))"

definition work_project_allows_sandbox_container :: "int \<Rightarrow> int \<Rightarrow> int \<Rightarrow> user_role \<Rightarrow> app_db \<Rightarrow> bool" where
  "work_project_allows_sandbox_container k c user role db \<longleftrightarrow>
    (if \<not> can_access_work_project k user role db then False
     else sandbox_container_id_for_project k db = Some c
       \<and> (case get_row ct_id c (ad_containers db) of None \<Rightarrow> False | Some ct \<Rightarrow> ct_status ct = C_RUNNING))"

end
