(* ===== verification/Project_Rows.thy ===== *)
theory Project_Rows
  imports Work_Projects
begin

text \<open>
  What the operations of \<^verbatim>\<open>src/service/work_project/projects.py\<close> do to the rows of a project: the assets
  of its scope, its owners and its container, and the integrity of the application database.
\<close>

section \<open>The scope of a project\<close>

text \<open>What the database promises of a new identifier.\<close>

definition allocates :: "(int list \<Rightarrow> int) \<Rightarrow> bool" where
  "allocates alloc \<longleftrightarrow> (\<forall>ks. alloc ks \<notin> set ks \<and> 0 < alloc ks)"

definition sample_alloc :: "int list \<Rightarrow> int" where
  "sample_alloc ks = 1 + max_int 0 (0 # ks)"

lemma sample_alloc: "allocates sample_alloc"
proof -
  have "k < sample_alloc ks" if "k \<in> set (0 # ks)" for k ks
    using max_int_ge[OF that, of 0] by (simp add: sample_alloc_def)
  then show ?thesis unfolding allocates_def by (metis less_irrefl list.set_intros)
qed

definition asset_identity :: "asset \<Rightarrow> asset_type \<times> string" where
  "asset_identity a = (as_type a, as_identifier a)"

definition scope_of :: "int \<Rightarrow> graph_db \<Rightarrow> (asset_type \<times> string) set" where
  "scope_of k g = asset_identity ` {a \<in> set (gd_assets g). as_project a = k \<and> as_origin a = O_SCOPE}"

text \<open>The assets of the project with one of the given identities.\<close>

definition named :: "int \<Rightarrow> (asset_type \<times> string) set \<Rightarrow> asset \<Rightarrow> bool" where
  "named k ids a \<longleftrightarrow> as_project a = k \<and> asset_identity a \<in> ids"

lemma new_scope_facts [simp]:
  "as_project (new_scope_asset alloc k r now g) = k" "as_origin (new_scope_asset alloc k r now g) = O_SCOPE"
  "asset_identity (new_scope_asset alloc k r now g) = request_identity r"
  "as_id (new_scope_asset alloc k r now g) = alloc (map as_id (gd_assets g))"
  by (simp_all add: new_scope_asset_def apply_asset_request_def blank_asset_def asset_identity_def request_identity_def)

lemma claimed_facts [simp]:
  "as_project (claimed_asset r now a) = as_project a" "as_id (claimed_asset r now a) = as_id a"
  "as_origin (claimed_asset r now a) = O_SCOPE" "asset_identity (claimed_asset r now a) = request_identity r"
  by (simp_all add: claimed_asset_def keep_extra_def apply_asset_request_def asset_identity_def request_identity_def)

lemma insert_scope_ok:
  assumes "graph_ok g" and "insert_asset (new_scope_asset alloc k r now g) g = Some g'"
  shows "graph_ok g'"
proof (rule insert_asset_ok[OF assms])
  have "k \<in> set (gd_projects g)" using assms(2) by (auto simp: insert_asset_def asset_fits_def split: if_splits)
  then show "asset_ok g (new_scope_asset alloc k r now g)"
    using identifier_applied[of r now] by (simp add: asset_ok_def) (simp add: new_scope_asset_def)
qed

lemma put_claimed_ok:
  assumes ok: "graph_ok g" and old: "old \<in> set (gd_assets g)" and put: "put_asset (claimed_asset r now old) g = Some g'"
  shows "graph_ok g'"
proof (rule put_asset_ok[OF ok put])
  have "as_project old \<in> set (gd_projects g)" using graph_okD(6)[OF ok old] by (simp add: asset_ok_def)
  then show "asset_ok g (claimed_asset r now old)"
    using identifier_applied[of r now old] by (simp add: asset_ok_def) (simp add: claimed_asset_def keep_extra_def)
  show "\<exists>b\<in>set (gd_assets g). as_id b = as_id (claimed_asset r now old) \<and> as_project b = as_project (claimed_asset r now old)"
    using old by auto
qed

lemma filter_put_row:
  "(\<And>b. b \<in> set xs \<Longrightarrow> rid b = rid a \<Longrightarrow> \<not> q b) \<Longrightarrow> \<not> q a \<Longrightarrow> filter q (put_row rid a xs) = filter q xs"
  unfolding put_row_def by (induction xs) auto

text \<open>One request of the list: the named asset is now scope, the other assets are as before.\<close>

definition claim_one ::
  "(int list \<Rightarrow> int) \<Rightarrow> int \<Rightarrow> datetime \<Rightarrow> asset_request \<Rightarrow> graph_db \<Rightarrow> graph_db option" where
  "claim_one alloc k now r g =
    (case get_asset_by_identity k (ar_type r) (request_identifier r) g of
       None \<Rightarrow> insert_asset (new_scope_asset alloc k r now g) g
     | Some old \<Rightarrow> put_asset (claimed_asset r now old) g)"

lemma claim_assets_Cons:
  "claim_assets alloc k now seen (r # rs) g =
    (if request_identity r \<in> seen then claim_assets alloc k now seen rs g
     else Option.bind (claim_one alloc k now r g) (claim_assets alloc k now (insert (request_identity r) seen) rs))"
  by (simp add: claim_one_def)

lemma claim_one:
  assumes ok: "graph_ok g" and c: "claim_one alloc k now r g = Some g'"
  shows "graph_ok g'" and "gd_projects g' = gd_projects g"
    and "\<exists>a\<in>set (gd_assets g'). named k {request_identity r} a \<and> as_origin a = O_SCOPE"
    and "filter (\<lambda>a. \<not> named k {request_identity r} a) (gd_assets g')
         = filter (\<lambda>a. \<not> named k {request_identity r} a) (gd_assets g)"
proof -
  have "graph_ok g' \<and> gd_projects g' = gd_projects g
    \<and> (\<exists>a\<in>set (gd_assets g'). named k {request_identity r} a \<and> as_origin a = O_SCOPE)
    \<and> filter (\<lambda>a. \<not> named k {request_identity r} a) (gd_assets g')
       = filter (\<lambda>a. \<not> named k {request_identity r} a) (gd_assets g)"
  proof (cases "get_asset_by_identity k (ar_type r) (request_identifier r) g")
    case None
    with c have i: "insert_asset (new_scope_asset alloc k r now g) g = Some g'" by (simp add: claim_one_def)
    then have "gd_assets g' = gd_assets g @ [new_scope_asset alloc k r now g]" "gd_projects g' = gd_projects g"
      by (auto simp: insert_asset_def split: if_splits)
    with insert_scope_ok[OF ok i] show ?thesis by (simp add: named_def)
  next
    case (Some old)
    with c have p: "put_asset (claimed_asset r now old) g = Some g'" by (simp add: claim_one_def)
    have old: "old \<in> set (gd_assets g)" "asset_key old = (k, request_identity r)"
      using find_SomeD[OF Some[unfolded get_asset_by_identity_def]] by (simp_all add: request_identity_def)
    then have n: "named k {request_identity r} old" by (simp add: named_def asset_key_def asset_identity_def)
    have g': "gd_assets g' = put_row as_id (claimed_asset r now old) (gd_assets g)" "gd_projects g' = gd_projects g"
      using p by (auto simp: put_asset_def split: if_splits)
    have "b = old" if "b \<in> set (gd_assets g)" "as_id b = as_id old" for b
      using graph_okD(1)[OF ok] that old(1) by (auto simp: table_ok_def distinct_map dest: inj_onD)
    then have "filter (\<lambda>a. \<not> named k {request_identity r} a) (put_row as_id (claimed_asset r now old) (gd_assets g))
        = filter (\<lambda>a. \<not> named k {request_identity r} a) (gd_assets g)"
      using n by (intro filter_put_row) (auto simp: named_def)
    moreover have "claimed_asset r now old \<in> set (gd_assets g')"
      unfolding g'(1) by (rule put_row_member[OF old(1)]) simp
    moreover have "named k {request_identity r} (claimed_asset r now old)" using n by (simp add: named_def)
    moreover have "as_origin (claimed_asset r now old) = O_SCOPE" by simp
    ultimately show ?thesis using put_claimed_ok[OF ok old(1) p] g' by metis
  qed
  then show "graph_ok g'" "gd_projects g' = gd_projects g"
    "\<exists>a\<in>set (gd_assets g'). named k {request_identity r} a \<and> as_origin a = O_SCOPE"
    "filter (\<lambda>a. \<not> named k {request_identity r} a) (gd_assets g')
       = filter (\<lambda>a. \<not> named k {request_identity r} a) (gd_assets g)"
    by auto
qed

lemma filter_sub: "(\<And>x. p x \<Longrightarrow> q x) \<Longrightarrow> filter p xs = filter p (filter q xs)"
  by (induction xs) auto

lemma claim_assets:
  assumes "graph_ok g" and "claim_assets alloc k now seen rs g = Some g'"
  shows "graph_ok g' \<and> gd_projects g' = gd_projects g
    \<and> (\<forall>x\<in>request_identity ` set rs - seen. \<exists>a\<in>set (gd_assets g'). named k {x} a \<and> as_origin a = O_SCOPE)
    \<and> filter (\<lambda>a. \<not> named k (request_identity ` set rs - seen) a) (gd_assets g')
      = filter (\<lambda>a. \<not> named k (request_identity ` set rs - seen) a) (gd_assets g)"
  using assms
proof (induction rs arbitrary: seen g)
  case (Cons r rs)
  show ?case
  proof (cases "request_identity r \<in> seen")
    case True
    then have "request_identity ` set (r # rs) - seen = request_identity ` set rs - seen" by auto
    with Cons.IH[OF Cons.prems(1), of seen] Cons.prems(2) True show ?thesis by simp
  next
    case False
    then obtain g1 where g1: "claim_one alloc k now r g = Some g1"
      and rest: "claim_assets alloc k now (insert (request_identity r) seen) rs g1 = Some g'"
      using Cons.prems(2) by (auto simp: claim_assets_Cons bind_eq_Some_conv simp del: claim_assets.simps)
    let ?Q = "request_identity ` set rs - insert (request_identity r) seen" and ?r = "request_identity r"
    note one = claim_one[OF Cons.prems(1) g1]
    note IH = Cons.IH[OF one(1) rest]
    have Q: "request_identity ` set (r # rs) - seen = insert ?r ?Q" using False by auto
    have n: "named k (insert ?r ?Q) a \<longleftrightarrow> named k {?r} a \<or> named k ?Q a" for a by (auto simp: named_def)
    have split: "filter (\<lambda>a. \<not> named k (insert ?r ?Q) a) xs
        = filter (\<lambda>a. \<not> named k {?r} a) (filter (\<lambda>a. \<not> named k ?Q a) xs)" for xs
      unfolding n by (induction xs) auto
    have split': "filter (\<lambda>a. \<not> named k (insert ?r ?Q) a) xs
        = filter (\<lambda>a. \<not> named k ?Q a) (filter (\<lambda>a. \<not> named k {?r} a) xs)" for xs
      unfolding n by (induction xs) auto
    have eq: "filter (\<lambda>a. \<not> named k (insert ?r ?Q) a) (gd_assets g') = filter (\<lambda>a. \<not> named k (insert ?r ?Q) a) (gd_assets g)"
      using IH one(4) split[of "gd_assets g'"] split[of "gd_assets g1"] split'[of "gd_assets g1"] split'[of "gd_assets g"]
      by simp
    obtain a where a: "a \<in> set (gd_assets g1)" "named k {?r} a" "as_origin a = O_SCOPE" using one(3) by blast
    then have "a \<in> set (filter (\<lambda>a. \<not> named k ?Q a) (gd_assets g1))" by (auto simp: named_def)
    then have "a \<in> set (filter (\<lambda>a. \<not> named k ?Q a) (gd_assets g'))" using IH by simp
    then have "a \<in> set (gd_assets g')" by simp
    then show ?thesis using IH a one(2) eq unfolding Q by (metis (no_types, lifting) insert_iff)
  qed
qed simp

lemma drop_scope_eq:
  "graph_ok g \<Longrightarrow> a \<in> set (gd_assets g) \<Longrightarrow> as_project a = k \<Longrightarrow> drop_scope_asset k a g = delete_asset_row (as_id a) g"
  using purge_before_delete[of g a "as_id a"] by (simp add: drop_scope_asset_def Let_def)

lemma drop_all:
  assumes "graph_ok g" and "set as \<subseteq> set (gd_assets g)" and "distinct (map as_id as)" and "\<forall>a\<in>set as. as_project a = k"
  shows "graph_ok (fold (drop_scope_asset k) as g) \<and> gd_projects (fold (drop_scope_asset k) as g) = gd_projects g
    \<and> gd_assets (fold (drop_scope_asset k) as g) = filter (\<lambda>b. as_id b \<notin> as_id ` set as) (gd_assets g)"
  using assms
proof (induction as arbitrary: g)
  case (Cons a as)
  let ?g = "delete_asset_row (as_id a) g"
  have rows: "gd_assets ?g = filter (\<lambda>b. as_id b \<noteq> as_id a) (gd_assets g)" "gd_projects ?g = gd_projects g"
    by (simp_all add: delete_asset_row_def delete_edge_rows_def Let_def)
  have d: "drop_scope_asset k a g = ?g" using Cons.prems by (intro drop_scope_eq) auto
  have "set as \<subseteq> set (gd_assets ?g)" using Cons.prems(2,3) by (auto simp: rows image_iff)
  with Cons.IH[OF delete_asset_row_ok[OF Cons.prems(1), of "as_id a"]] Cons.prems
  show ?case by (auto simp: d rows intro!: filter_cong)
qed simp

lemma upsert_project_assets:
  assumes ok: "graph_ok g" and up: "upsert_project_assets alloc k rs now g = Some g'"
  shows "graph_ok g'" and "gd_projects g' = gd_projects g" and "scope_of k g' = request_identity ` set rs"
    and "filter (\<lambda>a. as_project a \<noteq> k \<or> as_origin a \<noteq> O_SCOPE \<and> \<not> named k (request_identity ` set rs) a) (gd_assets g')
      = filter (\<lambda>a. as_project a \<noteq> k \<or> as_origin a \<noteq> O_SCOPE \<and> \<not> named k (request_identity ` set rs) a) (gd_assets g)"
proof -
  let ?ids = "request_identity ` set rs" and ?gone = "filter (unnamed_scope k rs) (gd_assets g)"
  obtain g1 where c: "claim_assets alloc k now {} rs g = Some g1" and g': "g' = fold (drop_scope_asset k) ?gone g1"
    using up by (auto simp: upsert_project_assets_def)
  have claim: "graph_ok g1" "gd_projects g1 = gd_projects g"
    "\<forall>x\<in>?ids. \<exists>a\<in>set (gd_assets g1). named k {x} a \<and> as_origin a = O_SCOPE"
    and same: "filter (\<lambda>a. \<not> named k ?ids a) (gd_assets g1) = filter (\<lambda>a. \<not> named k ?ids a) (gd_assets g)"
    using claim_assets[OF ok c] by simp_all
  have un: "unnamed_scope k rs a \<longleftrightarrow> as_project a = k \<and> as_origin a = O_SCOPE \<and> \<not> named k ?ids a" for a
    by (auto simp: unnamed_scope_def named_def asset_identity_def)
  have gone: "?gone = filter (unnamed_scope k rs) (gd_assets g1)"
  proof -
    have "filter (unnamed_scope k rs) xs = filter (unnamed_scope k rs) (filter (\<lambda>a. \<not> named k ?ids a) xs)" for xs
      by (induction xs) (auto simp: un)
    with same show ?thesis by metis
  qed
  have dist: "distinct (map as_id (gd_assets g1))" using graph_okD(1)[OF claim(1)] by (simp add: table_ok_def)
  have drop: "graph_ok g'" "gd_projects g' = gd_projects g1"
    "gd_assets g' = filter (\<lambda>b. as_id b \<notin> as_id ` set ?gone) (gd_assets g1)"
  proof -
    have "set ?gone \<subseteq> set (gd_assets g1)" "distinct (map as_id ?gone)" "\<forall>a\<in>set ?gone. as_project a = k"
      unfolding gone using dist by (auto simp: un distinct_map_filter)
    then show "graph_ok g'" "gd_projects g' = gd_projects g1"
      "gd_assets g' = filter (\<lambda>b. as_id b \<notin> as_id ` set ?gone) (gd_assets g1)"
      unfolding g' by (simp_all only: drop_all[OF claim(1)])
  qed
  have id: "as_id b \<in> as_id ` set ?gone \<longleftrightarrow> unnamed_scope k rs b" if "b \<in> set (gd_assets g1)" for b
  proof -
    have eq: "c = b" if "c \<in> set (gd_assets g1)" "as_id c = as_id b" for c
      using that dist \<open>b \<in> set (gd_assets g1)\<close> by (simp add: distinct_map inj_on_def)
    show ?thesis
    proof
      assume "as_id b \<in> as_id ` set ?gone"
      then obtain c where "c \<in> set (gd_assets g1)" "unnamed_scope k rs c" "as_id b = as_id c" unfolding gone by auto
      with eq[of c] show "unnamed_scope k rs b" by simp
    next
      assume "unnamed_scope k rs b"
      then show "as_id b \<in> as_id ` set ?gone" unfolding gone using that by simp
    qed
  qed
  then have left: "gd_assets g' = filter (\<lambda>b. \<not> unnamed_scope k rs b) (gd_assets g1)"
    unfolding drop(3) by (intro filter_cong) auto
  show "graph_ok g'" "gd_projects g' = gd_projects g" using drop claim(2) by simp_all
  show "scope_of k g' = ?ids"
  proof (intro equalityI subsetI)
    fix x
    assume "x \<in> scope_of k g'"
    then show "x \<in> ?ids" by (auto simp: scope_of_def left un named_def)
  next
    fix x
    assume x: "x \<in> ?ids"
    with claim(3) obtain a where a: "a \<in> set (gd_assets g1)" "named k {x} a" "as_origin a = O_SCOPE" by blast
    with x have "\<not> unnamed_scope k rs a" by (auto simp: un named_def)
    with a show "x \<in> scope_of k g'" by (auto simp: scope_of_def left named_def image_iff)
  qed
  let ?p = "\<lambda>a. as_project a \<noteq> k \<or> as_origin a \<noteq> O_SCOPE \<and> \<not> named k ?ids a"
  have "filter ?p (gd_assets g') = filter ?p (gd_assets g1)"
    unfolding left by (rule filter_sub[symmetric]) (auto simp: un)
  also have "\<dots> = filter ?p (filter (\<lambda>a. \<not> named k ?ids a) (gd_assets g1))"
    by (rule filter_sub) (auto simp: named_def)
  also have "\<dots> = filter ?p (gd_assets g)"
    unfolding same by (rule filter_sub[symmetric]) (auto simp: named_def)
  finally show "filter ?p (gd_assets g') = filter ?p (gd_assets g)" .
qed

section \<open>Integrity of the rows of a project\<close>

lemma ids_of_project_tables [simp]:
  "sdk_ids (db\<lparr>ad_owners := w\<rparr>) = sdk_ids db" "project_ids (db\<lparr>ad_owners := w\<rparr>) = project_ids db"
  "sdk_ids (db\<lparr>ad_bindings := b\<rparr>) = sdk_ids db" "project_ids (db\<lparr>ad_bindings := b\<rparr>) = project_ids db"
  "sdk_ids (db\<lparr>ad_graph := g\<rparr>) = sdk_ids db" "project_ids (db\<lparr>ad_graph := g\<rparr>) = project_ids db"
  "sdk_ids (db\<lparr>ad_projects := p\<rparr>) = sdk_ids db"
  by (simp_all add: sdk_ids_def project_ids_def)

lemma meta_ok_project_tables [simp]:
  "meta_ok (db\<lparr>ad_owners := w\<rparr>) m = meta_ok db m" "meta_ok (db\<lparr>ad_bindings := b\<rparr>) m = meta_ok db m"
  "meta_ok (db\<lparr>ad_graph := g\<rparr>) m = meta_ok db m"
  by (rule meta_ok_cong; simp)+

lemma sessions_ok_project_tables [simp]:
  "sessions_ok (db\<lparr>ad_owners := w\<rparr>) = sessions_ok db" "sessions_ok (db\<lparr>ad_bindings := b\<rparr>) = sessions_ok db"
  "sessions_ok (db\<lparr>ad_graph := g\<rparr>) = sessions_ok db"
  by (simp_all add: sessions_ok_def)

lemma sessions_ok_projects:
  assumes "sessions_ok db" and "project_ids db \<subseteq> project_ids (db\<lparr>ad_projects := ps\<rparr>)"
  shows "sessions_ok (db\<lparr>ad_projects := ps\<rparr>)"
proof -
  have "meta_ok (db\<lparr>ad_projects := ps\<rparr>) m" if "meta_ok db m" for m
    using meta_ok_mono[OF that _ assms(2)] by simp
  with assms(1) show ?thesis by (simp add: sessions_ok_def)
qed

lemma graph_more_projects:
  assumes ok: "graph_ok g"
  shows "graph_ok (g\<lparr>gd_projects := gd_projects g @ [k]\<rparr>)"
proof -
  have kept: "refs_kept g (g\<lparr>gd_projects := gd_projects g @ [k]\<rparr>)" by (rule refs_kept_more) auto
  show ?thesis by (rule graph_okI[OF ok kept]) (use graph_okD[OF ok] in simp_all)
qed

lemma insert_project_ok:
  assumes ok: "app_ok db" and new: "pj_id p \<notin> project_ids db" "0 < pj_id p" and p: "project_consistent p"
  shows "app_ok (insert_project p db)"
proof -
  have ids: "project_ids (insert_project p db) = insert (pj_id p) (project_ids db)"
    by (auto simp: insert_project_def project_ids_def)
  have "sessions_ok (insert_project p db)"
    using ok sessions_ok_projects[of db "ad_projects db @ [p]"]
    by (auto simp: insert_project_def app_ok_def project_ids_def)
  moreover have "projects_ok (insert_project p db)"
    using ok new p graph_more_projects[of "ad_graph db" "pj_id p"] ids
    by (auto simp: app_ok_def projects_ok_def insert_project_def) (auto simp: project_ids_def)
  ultimately show ?thesis by (simp add: app_ok_def)
qed

lemma put_project_ok:
  assumes ok: "app_ok db" and p: "project_consistent p"
  shows "app_ok (put_project p db)"
proof -
  have map: "map pj_id (put_row pj_id p (ad_projects db)) = map pj_id (ad_projects db)" by (rule map_rid_put_row)
  then have ids: "project_ids (put_project p db) = project_ids db"
    unfolding put_project_def project_ids_def by (simp flip: set_map)
  have "sessions_ok (put_project p db)"
    using ok ids sessions_ok_projects[of db "put_row pj_id p (ad_projects db)"] by (simp add: put_project_def app_ok_def)
  moreover have "\<forall>q\<in>set (put_row pj_id p (ad_projects db)). project_consistent q"
    using set_put_row p ok by (metis app_ok_def projects_ok_def)
  then have "projects_ok (put_project p db)"
    using ok ids map by (simp add: app_ok_def projects_ok_def) (simp add: put_project_def)
  ultimately show ?thesis by (simp add: app_ok_def)
qed

lemma put_project_simps [simp]:
  "ad_owners (put_project p db) = ad_owners db" "ad_bindings (put_project p db) = ad_bindings db"
  "ad_graph (put_project p db) = ad_graph db" "ad_metas (put_project p db) = ad_metas db"
  "ad_containers (put_project p db) = ad_containers db" "ad_users (put_project p db) = ad_users db"
  by (simp_all add: put_project_def)

lemma insert_project_simps [simp]:
  "ad_owners (insert_project p db) = ad_owners db" "ad_bindings (insert_project p db) = ad_bindings db"
  "ad_metas (insert_project p db) = ad_metas db" "ad_containers (insert_project p db) = ad_containers db"
  by (simp_all add: insert_project_def)

lemma graph_rows_ok:
  "app_ok db \<Longrightarrow> graph_ok g \<Longrightarrow> gd_projects g = gd_projects (ad_graph db) \<Longrightarrow> app_ok (db\<lparr>ad_graph := g\<rparr>)"
  by (simp add: app_ok_def projects_ok_def)

subsection \<open>Owners\<close>

lemma owners_subset_ok: "app_ok db \<Longrightarrow> app_ok (db\<lparr>ad_owners := filter q (ad_owners db)\<rparr>)"
  by (auto simp: app_ok_def projects_ok_def distinct_map_filter)

lemma insert_owner_ok: "app_ok db \<Longrightarrow> insert_owner w db = Some db' \<Longrightarrow> app_ok db' \<and> db' = db\<lparr>ad_owners := ad_owners db @ [w]\<rparr>"
  by (auto simp: insert_owner_def app_ok_def projects_ok_def project_ids_def split: if_splits)

definition owner_rows :: "int \<Rightarrow> nat \<Rightarrow> int list \<Rightarrow> project_owner list" where
  "owner_rows k i us = map (\<lambda>(j, u). \<lparr>ow_project = k, ow_user = u, ow_position = j\<rparr>) (enumerate i us)"

lemma add_owner_rows:
  "app_ok db \<Longrightarrow> add_owner_rows k i us db = Some db' \<Longrightarrow> app_ok db' \<and> db' = db\<lparr>ad_owners := ad_owners db @ owner_rows k i us\<rparr>"
proof (induction us arbitrary: i db)
  case (Cons u us)
  let ?w = "\<lparr>ow_project = k, ow_user = u, ow_position = i\<rparr>"
  from Cons.prems(2) obtain d where d: "insert_owner ?w db = Some d" "add_owner_rows k (i + 1) us d = Some db'"
    by (auto simp: bind_eq_Some_conv)
  note one = insert_owner_ok[OF Cons.prems(1) d(1)]
  then have eq: "d = db\<lparr>ad_owners := ad_owners db @ [?w]\<rparr>" and "app_ok d" by (rule conjunct2, rule conjunct1)
  from Cons.IH[OF this(2) d(2)] show ?case unfolding eq by (auto simp: owner_rows_def)
qed (simp add: owner_rows_def)

lemma owner_rows_users: "map ow_user (owner_rows k i us) = us" "filter (\<lambda>w. ow_project w = k) (owner_rows k i us) = owner_rows k i us"
  "filter (\<lambda>w. ow_project w \<noteq> k) (owner_rows k i us) = []"
  by (induction us arbitrary: i) (simp_all add: owner_rows_def)

lemma replace_owners:
  assumes "app_ok db" and "replace_project_owners k us db = Some db'"
  shows "app_ok db' \<and> db' = db\<lparr>ad_owners := filter (\<lambda>w. ow_project w \<noteq> k) (ad_owners db) @ owner_rows k 0 us\<rparr>"
  using add_owner_rows[OF owners_subset_ok[OF assms(1)] assms(2)[unfolded replace_project_owners_def set_project_owner_rows_def]]
  by auto

subsection \<open>The container\<close>

definition bound_elsewhere :: "int \<Rightarrow> int option \<Rightarrow> app_db \<Rightarrow> bool" where
  "bound_elsewhere k container db \<longleftrightarrow> (\<exists>b\<in>set (ad_bindings db). Some (bd_container b) = container \<and> bd_project b \<noteq> k)"

definition binding_rows :: "int \<Rightarrow> int option \<Rightarrow> project_container list" where
  "binding_rows k container = (case container of None \<Rightarrow> [] | Some c \<Rightarrow> [\<lparr>bd_project = k, bd_container = c, bd_position = 0\<rparr>])"

lemma bindings_subset_ok: "app_ok db \<Longrightarrow> app_ok (db\<lparr>ad_bindings := filter q (ad_bindings db)\<rparr>)"
  by (auto simp: app_ok_def projects_ok_def distinct_map_filter)

lemma set_container_row:
  assumes ok: "app_ok db" and free: "\<not> bound_elsewhere k container db" "\<forall>b\<in>set (ad_bindings db). bd_project b \<noteq> k"
    and res: "set_project_sandbox_container_row k container db = Some db'"
  shows "app_ok db' \<and> db' = db\<lparr>ad_bindings := ad_bindings db @ binding_rows k container\<rparr>"
proof (cases container)
  case (Some c)
  let ?b = "\<lparr>bd_project = k, bd_container = c, bd_position = 0\<rparr>"
  have db': "db' = db\<lparr>ad_bindings := ad_bindings db @ [?b]\<rparr>" and fk: "k \<in> project_ids db" "c \<in> ct_id ` set (ad_containers db)"
    using res Some by (auto simp: set_project_sandbox_container_row_def project_ids_def split: if_splits)
  have "k \<notin> bd_project ` set (ad_bindings db)" "c \<notin> bd_container ` set (ad_bindings db)"
    using free Some by (auto simp: bound_elsewhere_def)
  with ok fk have "app_ok db'" unfolding db' by (auto simp: app_ok_def projects_ok_def)
  with db' Some show ?thesis by (simp add: binding_rows_def)
qed (use ok res in \<open>simp add: set_project_sandbox_container_row_def binding_rows_def\<close>)

lemma replace_container:
  assumes ok: "app_ok db" and free: "\<not> bound_elsewhere k container db"
    and res: "replace_project_sandbox_container k container db = Some db'"
  shows "app_ok db'" and "db' = db\<lparr>ad_bindings := ad_bindings db'\<rparr>"
    and "sandbox_container_id_for_project k db' = container"
    and "filter (\<lambda>b. bd_project b \<noteq> k) (ad_bindings db') = filter (\<lambda>b. bd_project b \<noteq> k) (ad_bindings db)"
proof -
  let ?links = "filter (\<lambda>b. bd_project b = k) (ad_bindings db)"
  have "app_ok db' \<and> db' = db\<lparr>ad_bindings := ad_bindings db'\<rparr> \<and> sandbox_container_id_for_project k db' = container
    \<and> filter (\<lambda>b. bd_project b \<noteq> k) (ad_bindings db') = filter (\<lambda>b. bd_project b \<noteq> k) (ad_bindings db)"
  proof (cases "length ?links = 1 \<and> Some (bd_container (hd ?links)) = container")
    case True
    then obtain b where "?links = [b]" "Some (bd_container b) = container" by (cases ?links) auto
    with ok res show ?thesis by (auto simp: replace_project_sandbox_container_def Let_def sandbox_container_id_for_project_def)
  next
    case False
    let ?d = "db\<lparr>ad_bindings := filter (\<lambda>b. bd_project b \<noteq> k) (ad_bindings db)\<rparr>"
    have r: "set_project_sandbox_container_row k container ?d = Some db'"
      using res unfolding replace_project_sandbox_container_def Let_def if_not_P[OF False] .
    have "\<not> bound_elsewhere k container ?d" using free by (auto simp: bound_elsewhere_def)
    from set_container_row[OF bindings_subset_ok[OF ok] this _ r]
    have "app_ok db' \<and> db' = ?d\<lparr>ad_bindings := ad_bindings ?d @ binding_rows k container\<rparr>" by auto
    then show ?thesis
      by (auto simp: sandbox_container_id_for_project_def binding_rows_def split: option.split)
  qed
  then show "app_ok db'" "db' = db\<lparr>ad_bindings := ad_bindings db'\<rparr>" "sandbox_container_id_for_project k db' = container"
    "filter (\<lambda>b. bd_project b \<noteq> k) (ad_bindings db') = filter (\<lambda>b. bd_project b \<noteq> k) (ad_bindings db)" by auto
qed

end
