(* ===== verification/Workspaces.thy ===== *)
theory Workspaces
  imports Resources Project_Rows
begin

text \<open>
  The execution workspaces: their life cycle (\<^verbatim>\<open>src/service/sandbox/lifecycle.py\<close>), what is shown of
  them (\<^verbatim>\<open>src/service/sandbox/records.py\<close>) and which of them a session may use
  (\<^verbatim>\<open>src/service/sandbox/status.py\<close>).  Making and removing the directory of a workspace, on this
  machine or over SSH, is a parameter that says how it ends.
\<close>

section \<open>Requests\<close>

record container_request =
  cq_host :: int
  cq_image :: int
  cq_mode :: egress_mode
  cq_proxy :: "int option"
  cq_owner :: "int option"
  cq_ports :: "port_mapping list"

definition validate_port_mapping :: "port_mapping \<Rightarrow> port_mapping option" where
  "validate_port_mapping raw =
    (let m = raw\<lparr>pm_protocol := str_lower (str_strip (pm_protocol raw))\<rparr>
     in if port_number (pm_container m) \<and> port_number (pm_host m) \<and> pm_protocol m \<in> {''tcp'', ''udp''} then Some m else None)"

definition validate_egress_contract :: "egress_mode \<Rightarrow> int option \<Rightarrow> bool" where
  "validate_egress_contract mode proxy \<longleftrightarrow> \<not> (mode \<noteq> PROXY \<and> proxy \<noteq> None) \<and> \<not> (mode = PROXY \<and> proxy = None)"

fun ports_distinct :: "(int \<times> string) set \<Rightarrow> (int \<times> string) set \<Rightarrow> port_mapping list \<Rightarrow> bool" where
  "ports_distinct cs hs [] = True"
| "ports_distinct cs hs (m # ms) =
    (let c = (pm_container m, pm_protocol m); h = (pm_host m, pm_protocol m) in
     if c \<in> cs then False else if h \<in> hs then False else ports_distinct (insert c cs) (insert h hs) ms)"

definition validate_container_request :: "container_request \<Rightarrow> container_request option" where
  "validate_container_request raw =
    (case those (map validate_port_mapping (cq_ports raw)) of
       None \<Rightarrow> None
     | Some ms \<Rightarrow>
         let r = raw\<lparr>cq_ports := ms\<rparr> in
         if 0 < cq_host r \<and> 0 < cq_image r \<and> positive_ref (cq_proxy r) \<and> length ms \<le> 32
            \<and> validate_egress_contract (cq_mode r) (cq_proxy r) \<and> ports_distinct {} {} ms then Some r else None)"

section \<open>What is shown of a workspace\<close>

record container_record =
  cr_container :: container
  cr_image_name :: string
  cr_supports_tor :: bool
  cr_control_proxy_port :: int
  cr_owner_username :: string
  cr_host_display_name :: string
  cr_host_ip :: string
  cr_host_account :: string
  cr_host_ssh_port :: int
  cr_local_backend :: bool
  cr_egress_label :: string

text \<open>The texts of the source outside of the byte strings here: the name of the local host and the labels of the
  network, the second one completed by the proxy.\<close>

record labels =
  lb_local_host :: string
  lb_direct :: string
  lb_proxy :: string

definition record_of :: "labels \<Rightarrow> container \<Rightarrow> sandbox_image \<Rightarrow> system_user \<Rightarrow> managed_host \<Rightarrow> egress_proxy option \<Rightarrow> container_record" where
  "record_of lb c im u h p =
    \<lparr>cr_container = c, cr_image_name = im_name im, cr_supports_tor = im_tor im, cr_control_proxy_port = im_control_port im,
     cr_owner_username = us_username u,
     cr_host_display_name =
       (if mh_display_name h \<noteq> [] then mh_display_name h
        else if ct_host c = default_local_host_id then lb_local_host lb else mh_ip h),
     cr_host_ip = mh_ip h, cr_host_account = mh_account h, cr_host_ssh_port = mh_ssh_port h,
     cr_local_backend = (ct_host c = default_local_host_id),
     cr_egress_label = (case p of None \<Rightarrow> lb_direct lb | Some p \<Rightarrow> lb_proxy lb @ px_host p @ '':'' @ show_int (px_port p))\<rparr>"

text \<open>The joined row of a container; an inner join drops a container with a missing image, owner or host.\<close>

definition joined_record :: "labels \<Rightarrow> app_db \<Rightarrow> container \<Rightarrow> container_record option" where
  "joined_record lb db c =
    Option.bind (get_row im_id (ct_image c) (ad_images db)) (\<lambda>im.
    Option.bind (get_row us_id (ct_owner c) (ad_users db)) (\<lambda>u.
    map_option (\<lambda>h. record_of lb c im u h (Option.bind (ct_proxy c) (\<lambda>k. get_row px_id k (ad_proxies db))))
      (get_row mh_id (ct_host c) (ad_hosts db))))"

definition load_sandbox_container_record :: "labels \<Rightarrow> int \<Rightarrow> app_db \<Rightarrow> container_record option" where
  "load_sandbox_container_record lb k db = Option.bind (get_row ct_id k (ad_containers db)) (joined_record lb db)"

fun container_status_name :: "container_status \<Rightarrow> string" where
  "container_status_name C_CREATED = ''CREATED''"
| "container_status_name C_RUNNING = ''RUNNING''"
| "container_status_name C_PAUSED = ''PAUSED''"
| "container_status_name C_STOPPED = ''STOPPED''"
| "container_status_name C_ERROR = ''ERROR''"

definition container_columns :: "container_record \<Rightarrow> string list" where
  "container_columns r = [ct_name (cr_container r), ct_hash (cr_container r), cr_image_name r, cr_host_ip r, cr_owner_username r,
     container_status_name (ct_status (cr_container r))]"

definition query_containers ::
  "labels \<Rightarrow> (string \<Rightarrow> string \<Rightarrow> bool) \<Rightarrow> int \<Rightarrow> int \<Rightarrow> string \<Rightarrow> (container \<Rightarrow> bool) \<Rightarrow> app_db \<Rightarrow> container_record page" where
  "query_containers lb like page limit keyword p db =
     paginate_statement page limit (filter (\<lambda>r. p (cr_container r)) (keyword_rows like keyword container_columns
       (List.map_filter (joined_record lb db) (sort_key ct_id (ad_containers db)))))"

definition query_sandbox_containers ::
  "labels \<Rightarrow> (string \<Rightarrow> string \<Rightarrow> bool) \<Rightarrow> int \<Rightarrow> user_role \<Rightarrow> int \<Rightarrow> int \<Rightarrow> string \<Rightarrow> app_db \<Rightarrow> container_record page" where
  "query_sandbox_containers lb like user role page limit keyword db =
     query_containers lb like page limit keyword (\<lambda>c. role = ADMIN \<or> ct_owner c = user) db"

definition query_available_sandbox_containers ::
  "labels \<Rightarrow> (string \<Rightarrow> string \<Rightarrow> bool) \<Rightarrow> int \<Rightarrow> user_role \<Rightarrow> bool \<Rightarrow> int \<Rightarrow> int \<Rightarrow> string \<Rightarrow> app_db \<Rightarrow> container_record page" where
  "query_available_sandbox_containers lb like user role include_non_running page limit keyword db =
     query_containers lb like page limit keyword
       (\<lambda>c. (role = ADMIN \<or> ct_owner c = user) \<and> (include_non_running \<or> ct_status c = C_RUNNING)) db"

record host_option =
  ho_id :: int
  ho_display_name :: string
  ho_ip :: string
  ho_account :: string
  ho_ssh_port :: int
  ho_local_backend :: bool

definition sandbox_container_create_options :: "labels \<Rightarrow> app_db \<Rightarrow> host_option list \<times> sandbox_image list" where
  "sandbox_container_create_options lb db =
    (map (\<lambda>h. \<lparr>ho_id = mh_id h,
               ho_display_name = (if mh_display_name h \<noteq> [] then mh_display_name h
                                  else if mh_id h = default_local_host_id then lb_local_host lb else mh_ip h),
               ho_ip = mh_ip h, ho_account = mh_account h, ho_ssh_port = mh_ssh_port h,
               ho_local_backend = (mh_id h = default_local_host_id)\<rparr>) (sort_key mh_id (ad_hosts db)),
     sort_key im_id (ad_images db))"

definition sandbox_container_is_manageable_by_user :: "int \<Rightarrow> int \<Rightarrow> user_role \<Rightarrow> app_db \<Rightarrow> bool option" where
  "sandbox_container_is_manageable_by_user k user role db =
    map_option (\<lambda>c. sandbox_container_can_manage c user role) (get_row ct_id k (ad_containers db))"

section \<open>Life cycle\<close>

record mutation_result =
  mt_record :: "container_record option"
  mt_succeeded :: bool
  mt_message :: string
  mt_not_found :: bool

definition mutation :: "labels \<Rightarrow> int \<Rightarrow> bool \<Rightarrow> string \<Rightarrow> app_db \<Rightarrow> mutation_result" where
  "mutation lb k succeeded message db =
     \<lparr>mt_record = load_sandbox_container_record lb k db, mt_succeeded = succeeded, mt_message = message, mt_not_found = False\<rparr>"

definition missing_result :: "string \<Rightarrow> mutation_result" where
  "missing_result message = \<lparr>mt_record = None, mt_succeeded = False, mt_message = message, mt_not_found = True\<rparr>"

definition failed_result :: "string \<Rightarrow> mutation_result" where
  "failed_result message = \<lparr>mt_record = None, mt_succeeded = False, mt_message = message, mt_not_found = False\<rparr>"

definition is_local_host :: "managed_host \<Rightarrow> bool" where
  "is_local_host h \<longleftrightarrow> mh_id h = default_local_host_id"

definition resolve_container_host :: "int \<Rightarrow> app_db \<Rightarrow> string + container \<times> managed_host" where
  "resolve_container_host k db =
    (case get_row ct_id k (ad_containers db) of
       None \<Rightarrow> Inl ''portable workspace not found''
     | Some c \<Rightarrow>
         (case get_row mh_id (ct_host c) (ad_hosts db) of None \<Rightarrow> Inl ''workspace host not found'' | Some h \<Rightarrow> Inr (c, h)))"

text \<open>\<open>mkdir local h k\<close> makes the directory of workspace \<open>k\<close> and gives the text of the exception, if it raises.\<close>

type_synonym make_dir = "bool \<Rightarrow> managed_host \<Rightarrow> int \<Rightarrow> string option"

definition ensure_workspace :: "make_dir \<Rightarrow> int \<Rightarrow> app_db \<Rightarrow> string option" where
  "ensure_workspace mkdir k db =
    (case resolve_container_host k db of Inl e \<Rightarrow> Some e | Inr (_, h) \<Rightarrow> mkdir (is_local_host h) h k)"

definition put_status :: "int \<Rightarrow> container_status \<Rightarrow> datetime \<Rightarrow> app_db \<Rightarrow> app_db" where
  "put_status k st now db =
     db\<lparr>ad_containers := update_rows (\<lambda>c. ct_id c = k) (\<lambda>c. c\<lparr>ct_status := st, ct_updated_at := now\<rparr>) (ad_containers db)\<rparr>"

definition message_or :: "string \<Rightarrow> string \<Rightarrow> string" where
  "message_or e fallback = (if e = [] then fallback else e)"

text \<open>A running status makes the directory; when that fails the status becomes an error at a second instant.\<close>

definition set_status ::
  "labels \<Rightarrow> make_dir \<Rightarrow> int \<Rightarrow> container_status \<Rightarrow> string \<Rightarrow> datetime \<Rightarrow> datetime \<Rightarrow> app_db \<Rightarrow> mutation_result \<times> app_db" where
  "set_status lb mkdir k st message now later db =
    (if get_row ct_id k (ad_containers db) = None then (missing_result ''portable workspace not found'', db)
     else
       let db1 = put_status k st now db in
       case (if st = C_RUNNING then ensure_workspace mkdir k db1 else None) of
         None \<Rightarrow> (mutation lb k True message db1, db1)
       | Some e \<Rightarrow>
           let db2 = put_status k C_ERROR later db1
           in (mutation lb k False (message_or e ''workspace initialization failed'') db2, db2))"

definition start_sandbox_container where
  "start_sandbox_container lb mkdir k = set_status lb mkdir k C_RUNNING ''portable workspace started''"

definition stop_sandbox_container where
  "stop_sandbox_container lb mkdir k = set_status lb mkdir k C_STOPPED ''portable workspace stopped''"

definition pause_sandbox_container where
  "pause_sandbox_container lb mkdir k = set_status lb mkdir k C_PAUSED ''portable workspace paused''"

definition resume_sandbox_container where
  "resume_sandbox_container lb mkdir k = set_status lb mkdir k C_RUNNING ''portable workspace resumed''"

text \<open>The prefix of the name: the last part of the image name before its tag and digest, other characters as one
  dash.\<close>

definition name_char :: "char \<Rightarrow> bool" where
  "name_char c \<longleftrightarrow> (of_char c :: nat) \<in> {97..122} \<or> (of_char c :: nat) \<in> {65..90} \<or> is_digit c \<or> c \<in> {CHR ''_'', CHR ''.'', CHR ''-''}"

fun dash_others :: "bool \<Rightarrow> string \<Rightarrow> string" where
  "dash_others dashed [] = []"
| "dash_others dashed (c # cs) =
    (if name_char c then c # dash_others False cs else if dashed then dash_others True cs else CHR ''-'' # dash_others True cs)"

definition after_last :: "char \<Rightarrow> string \<Rightarrow> string" where
  "after_last c s = rev (takeWhile (\<lambda>d. d \<noteq> c) (rev s))"

definition container_name_prefix :: "string \<Rightarrow> string" where
  "container_name_prefix image_name =
    (let short_name = takeWhile (\<lambda>c. c \<noteq> CHR '':'') (takeWhile (\<lambda>c. c \<noteq> CHR ''@'') (after_last (CHR ''/'') image_name));
         normalized = strip_by (\<lambda>c. c \<in> {CHR ''-'', CHR ''.''}) (dash_others False short_name)
     in if normalized = [] then ''workspace'' else normalized)"

text \<open>The random texts of a new workspace.\<close>

record fresh_texts =
  ft_suffix :: string
  ft_hash :: string
  ft_token :: string

definition create_sandbox_container ::
  "labels \<Rightarrow> make_dir \<Rightarrow> (int list \<Rightarrow> int) \<Rightarrow> fresh_texts \<Rightarrow> int \<Rightarrow> int \<Rightarrow> egress_mode \<Rightarrow> int option \<Rightarrow> int \<Rightarrow> port_mapping list
     \<Rightarrow> datetime \<Rightarrow> datetime \<Rightarrow> app_db \<Rightarrow> mutation_result \<times> app_db" where
  "create_sandbox_container lb mkdir alloc ft host img mode proxy owner ports now later db =
    (if get_row mh_id host (ad_hosts db) = None then (missing_result ''managed host not found'', db)
     else case get_row im_id img (ad_images db) of
       None \<Rightarrow> (missing_result ''sandbox image not found'', db)
     | Some im \<Rightarrow>
         if get_row us_id owner (ad_users db) = None then (missing_result ''system user not found'', db)
         else if mode = PROXY \<and> (case proxy of None \<Rightarrow> True | Some p \<Rightarrow> p = 0 \<or> get_row px_id p (ad_proxies db) = None)
         then (failed_result ''egress proxy not found'', db)
         else if mode \<noteq> PROXY \<and> proxy \<noteq> None then (failed_result ''egress proxy is only valid in proxy mode'', db)
         else
           let k = alloc (map ct_id (ad_containers db));
               c = \<lparr>ct_id = k, ct_owner = owner, ct_status = C_RUNNING, ct_updated_at = now, ct_host = host, ct_image = img,
                    ct_mode = mode, ct_proxy = proxy, ct_name = container_name_prefix (im_name im) @ ''-'' @ ft_suffix ft,
                    ct_hash = ft_hash ft, ct_token = ft_token ft, ct_ports = ports, ct_control_port = 0, ct_created_at = now\<rparr>;
               db1 = db\<lparr>ad_containers := ad_containers db @ [c]\<rparr>
           in case ensure_workspace mkdir k db1 of
                None \<Rightarrow> (mutation lb k True ''portable workspace created'' db1, db1)
              | Some e \<Rightarrow>
                  let db2 = put_status k C_ERROR later db1
                  in (mutation lb k False (message_or e ''workspace initialization failed'') db2, db2))"

definition update_sandbox_container_egress ::
  "labels \<Rightarrow> int \<Rightarrow> egress_mode \<Rightarrow> int option \<Rightarrow> datetime \<Rightarrow> app_db \<Rightarrow> mutation_result \<times> app_db" where
  "update_sandbox_container_egress lb k mode proxy now db =
    (if get_row ct_id k (ad_containers db) = None then (missing_result ''portable workspace not found'', db)
     else if mode = PROXY \<and> (case proxy of None \<Rightarrow> True | Some p \<Rightarrow> get_row px_id p (ad_proxies db) = None)
     then (failed_result ''egress proxy not found'', db)
     else if mode \<noteq> PROXY \<and> proxy \<noteq> None then (failed_result ''egress proxy is only valid in proxy mode'', db)
     else
       let db' = db\<lparr>ad_containers := update_rows (\<lambda>c. ct_id c = k)
                     (\<lambda>c. c\<lparr>ct_mode := mode, ct_proxy := proxy, ct_updated_at := now\<rparr>) (ad_containers db)\<rparr>
       in (mutation lb k True ''workspace egress updated'' db', db'))"

text \<open>\<open>rmdir h k\<close> removes the directory on a remote host; \<^const>\<open>False\<close> is an exception.  The rows that bind
  the workspace to a project go with it.\<close>

definition delete_container_row :: "int \<Rightarrow> app_db \<Rightarrow> app_db" where
  "delete_container_row k db =
     db\<lparr>ad_containers := filter (\<lambda>c. ct_id c \<noteq> k) (ad_containers db),
        ad_bindings := filter (\<lambda>b. bd_container b \<noteq> k) (ad_bindings db)\<rparr>"

definition delete_sandbox_container :: "(managed_host \<Rightarrow> int \<Rightarrow> bool) \<Rightarrow> int \<Rightarrow> app_db \<Rightarrow> bool option \<times> app_db" where
  "delete_sandbox_container rmdir k db =
    (case resolve_container_host k db of
       Inl _ \<Rightarrow> (Some False, db)
     | Inr (_, h) \<Rightarrow>
         if \<not> is_local_host h \<and> \<not> rmdir h k then (None, db) else (Some True, delete_container_row k db))"

definition default_portable_image_name :: string where
  "default_portable_image_name = ''zj-portable-tools''"

text \<open>\<open>Inl\<close> is the exception.  The directory of a workspace that runs already is made without the host.\<close>

definition ensure_default_portable_workspace ::
  "labels \<Rightarrow> make_dir \<Rightarrow> (int list \<Rightarrow> int) \<Rightarrow> fresh_texts \<Rightarrow> int \<Rightarrow> datetime \<Rightarrow> datetime \<Rightarrow> app_db \<Rightarrow> (string + int) \<times> app_db" where
  "ensure_default_portable_workspace lb mkdir alloc ft owner now later db =
    (case get_row mh_id default_local_host_id (ad_hosts db) of
       None \<Rightarrow> (Inl ''local managed host is missing'', db)
     | Some h \<Rightarrow>
         let (im, db1) =
               (case List.find (\<lambda>im. im_name im = default_portable_image_name) (ad_images db) of
                  Some im \<Rightarrow> (im, db)
                | None \<Rightarrow> create_sandbox_image alloc \<lparr>iq_name = default_portable_image_name, iq_port = 8000, iq_tor = False\<rparr> now db)
         in case sort_key ct_id (filter (\<lambda>c. ct_owner c = owner \<and> ct_image c = im_id im) (ad_containers db1)) of
              c # _ \<Rightarrow>
                let db2 = (if ct_status c \<noteq> C_RUNNING
                           then snd (set_status lb mkdir (ct_id c) C_RUNNING ''portable workspace started'' now later db1) else db1)
                in (case mkdir True h (ct_id c) of None \<Rightarrow> Inr (ct_id c) | Some e \<Rightarrow> Inl e, db2)
            | [] \<Rightarrow>
                let (r, db2) = create_sandbox_container lb mkdir alloc ft default_local_host_id (im_id im) DIRECT None owner [] now later db1
                in (case mt_record r of
                      None \<Rightarrow> Inl (message_or (mt_message r) ''failed to create portable workspace'')
                    | Some c \<Rightarrow> Inr (ct_id (cr_container c)), db2))"

section \<open>Selection\<close>

definition save_sandbox_container_status ::
  "labels \<Rightarrow> int \<Rightarrow> container_status \<Rightarrow> datetime \<Rightarrow> app_db \<Rightarrow> container_record option \<times> app_db" where
  "save_sandbox_container_status lb k st now db =
    (if get_row ct_id k (ad_containers db) = None then (None, db)
     else let db' = put_status k st now db in (load_sandbox_container_record lb k db', db'))"

definition resolve_sandbox_container_status :: "int \<Rightarrow> app_db \<Rightarrow> container_status option" where
  "resolve_sandbox_container_status k db = map_option ct_status (get_row ct_id k (ad_containers db))"

text \<open>A selection and a binding are pairs of identifier and generation.\<close>

definition resolve_sandbox_container_selection :: "int \<Rightarrow> int \<Rightarrow> user_role \<Rightarrow> app_db \<Rightarrow> (int \<times> int) option" where
  "resolve_sandbox_container_selection k user role db =
    (case get_row ct_id k (ad_containers db) of
       None \<Rightarrow> None
     | Some c \<Rightarrow> if role \<noteq> ADMIN \<and> ct_owner c \<noteq> user then None else Some (k, status_generation c))"

definition resolve_project_sandbox_container_selection :: "int \<Rightarrow> app_db \<Rightarrow> (int \<times> int) option" where
  "resolve_project_sandbox_container_selection k db =
     map_option (\<lambda>c. (k, status_generation c)) (get_row ct_id k (ad_containers db))"

definition resolve_sandbox_container_tool_binding :: "int \<Rightarrow> int \<Rightarrow> user_role \<Rightarrow> app_db \<Rightarrow> (int \<times> int) option" where
  "resolve_sandbox_container_tool_binding k user role db =
    (case resolve_sandbox_container_selection k user role db of
       None \<Rightarrow> None
     | Some s \<Rightarrow> if resolve_sandbox_container_status k db = Some C_RUNNING then Some (k, snd s) else None)"

definition resolve_project_sandbox_container_tool_binding :: "int \<Rightarrow> app_db \<Rightarrow> (int \<times> int) option" where
  "resolve_project_sandbox_container_tool_binding k db =
    (case resolve_project_sandbox_container_selection k db of
       None \<Rightarrow> None
     | Some s \<Rightarrow> if resolve_sandbox_container_status k db \<noteq> Some C_RUNNING then None else Some (k, snd s))"

section \<open>Egress\<close>

text \<open>Environments are association lists; an update replaces in place or appends.\<close>

type_synonym environment = "(string \<times> string) list"

definition env_update :: "environment \<Rightarrow> environment \<Rightarrow> environment" where
  "env_update changes env = fold (\<lambda>(k, v). AList.update k v) changes env"

definition no_proxy_value :: string where
  "no_proxy_value = ''localhost,127.0.0.1,::1''"

definition local_egress_proxy_url :: string where
  "local_egress_proxy_url = ''http://127.0.0.1:8118''"

definition proxy_environment_keys :: "string list" where
  "proxy_environment_keys = [''HTTP_PROXY'', ''http_proxy'', ''HTTPS_PROXY'', ''https_proxy'', ''ALL_PROXY'', ''all_proxy'']"

definition sandbox_runtime_proxy_environment :: environment where
  "sandbox_runtime_proxy_environment =
     map (\<lambda>k. (k, local_egress_proxy_url)) proxy_environment_keys @ [(''NO_PROXY'', no_proxy_value), (''no_proxy'', no_proxy_value)]"

text \<open>A selection is a mode with the proxy of the mode; \<^const>\<open>None\<close> is the \<^verbatim>\<open>ValueError\<close>.\<close>

definition sandbox_egress_upstream_environment ::
  "(string \<Rightarrow> string) \<Rightarrow> egress_mode \<Rightarrow> egress_proxy option \<Rightarrow> environment option" where
  "sandbox_egress_upstream_environment quote mode proxy =
    (case mode of
       DIRECT \<Rightarrow> Some [(''SANDBOX_EGRESS_UPSTREAM_TYPE'', []), (''SANDBOX_EGRESS_UPSTREAM_ADDR'', [])]
     | TOR \<Rightarrow> Some [(''SANDBOX_EGRESS_UPSTREAM_TYPE'', ''tor''), (''SANDBOX_EGRESS_UPSTREAM_ADDR'', [])]
     | PROXY \<Rightarrow>
         map_option (\<lambda>p. [(''SANDBOX_EGRESS_UPSTREAM_TYPE'', proxy_type_value (px_type p)),
                          (''SANDBOX_EGRESS_UPSTREAM_ADDR'', egress_proxy_upstream quote p)]) proxy)"

definition sandbox_egress_container_environment ::
  "(string \<Rightarrow> string) \<Rightarrow> egress_mode \<Rightarrow> egress_proxy option \<Rightarrow> environment option" where
  "sandbox_egress_container_environment quote mode proxy =
     map_option (\<lambda>u. env_update u sandbox_runtime_proxy_environment) (sandbox_egress_upstream_environment quote mode proxy)"

fun proxy_scheme :: "proxy_type \<Rightarrow> string" where
  "proxy_scheme HTTP_PROXY = ''http''"
| "proxy_scheme HTTPS_PROXY = ''https''"
| "proxy_scheme SOCKS5_PROXY = ''socks5h''"

definition sandbox_portable_process_environment ::
  "(string \<Rightarrow> string) \<Rightarrow> egress_mode \<Rightarrow> egress_proxy option \<Rightarrow> environment option" where
  "sandbox_portable_process_environment quote mode proxy =
    (let env = env_update [(''NO_PROXY'', no_proxy_value), (''no_proxy'', no_proxy_value)]
                 (map (\<lambda>k. (k, [])) proxy_environment_keys);
         with_url = (\<lambda>url. env_update (map (\<lambda>k. (k, url)) proxy_environment_keys) env)
     in case mode of
          DIRECT \<Rightarrow> Some env
        | TOR \<Rightarrow> Some (with_url ''socks5h://127.0.0.1:9050'')
        | PROXY \<Rightarrow> map_option (\<lambda>p. with_url (proxy_scheme (px_type p) @ ''://'' @ egress_proxy_upstream quote p)) proxy)"

definition resolve_portable_process_environment ::
  "(string \<Rightarrow> string) \<Rightarrow> container \<Rightarrow> app_db \<Rightarrow> string + environment" where
  "resolve_portable_process_environment quote c db =
    (if ct_mode c = PROXY
     then case ct_proxy c of
         None \<Rightarrow> Inl ''managed proxy is required for proxy egress mode''
       | Some k \<Rightarrow>
           (case get_row px_id k (ad_proxies db) of
              None \<Rightarrow> Inl ''managed proxy not found''
            | Some p \<Rightarrow>
                (case sandbox_portable_process_environment quote PROXY (Some p) of
                   None \<Rightarrow> Inl ''managed proxy is required for proxy egress mode'' | Some e \<Rightarrow> Inr e))
     else case sandbox_portable_process_environment quote (ct_mode c) None of
         None \<Rightarrow> Inl ''managed proxy is required for proxy egress mode'' | Some e \<Rightarrow> Inr e)"

fun egress_mode_value :: "egress_mode \<Rightarrow> string" where
  "egress_mode_value DIRECT = ''direct''"
| "egress_mode_value PROXY = ''proxy''"
| "egress_mode_value TOR = ''tor''"

definition sandbox_egress_label :: "container \<Rightarrow> egress_proxy option \<Rightarrow> string" where
  "sandbox_egress_label c proxy =
    (if ct_mode c \<in> {DIRECT, TOR} then egress_mode_value (ct_mode c)
     else case proxy of
         None \<Rightarrow> []
       | Some p \<Rightarrow> proxy_type_value (px_type p) @ ''://'' @ px_host p @ '':'' @ show_int (px_port p))"

section \<open>Integrity of the resources\<close>

text \<open>A container names its host, image, owner and, exactly in proxy mode, its proxy.\<close>

definition container_ok :: "app_db \<Rightarrow> container \<Rightarrow> bool" where
  "container_ok db c \<longleftrightarrow> ct_host c \<in> mh_id ` set (ad_hosts db) \<and> ct_image c \<in> im_id ` set (ad_images db)
     \<and> ct_owner c \<in> us_id ` set (ad_users db)
     \<and> (case ct_proxy c of None \<Rightarrow> ct_mode c \<noteq> PROXY | Some k \<Rightarrow> ct_mode c = PROXY \<and> k \<in> px_id ` set (ad_proxies db))"

definition resources_ok :: "app_db \<Rightarrow> bool" where
  "resources_ok db \<longleftrightarrow> distinct (map ct_id (ad_containers db)) \<and> distinct (map mh_id (ad_hosts db))
     \<and> distinct (map im_id (ad_images db)) \<and> distinct (map px_id (ad_proxies db)) \<and> distinct (map us_id (ad_users db))
     \<and> (\<forall>c\<in>set (ad_containers db). container_ok db c)"

lemma resources_okD:
  assumes "resources_ok db" and "c \<in> set (ad_containers db)"
  shows "\<exists>h. get_row mh_id (ct_host c) (ad_hosts db) = Some h" "\<exists>im. get_row im_id (ct_image c) (ad_images db) = Some im"
    "\<exists>u. get_row us_id (ct_owner c) (ad_users db) = Some u"
    "ct_mode c = PROXY \<Longrightarrow> \<exists>k p. ct_proxy c = Some k \<and> get_row px_id k (ad_proxies db) = Some p"
    "ct_mode c \<noteq> PROXY \<Longrightarrow> ct_proxy c = None"
proof -
  have ex: "\<exists>r. get_row f k rows = Some r" if "k \<in> f ` set rows" for f :: "'r \<Rightarrow> int" and k rows
  proof -
    have "get_row f k rows \<noteq> None" using that by (auto simp: get_row_None)
    then show ?thesis by blast
  qed
  have "container_ok db c" using assms by (simp add: resources_ok_def)
  then show "\<exists>h. get_row mh_id (ct_host c) (ad_hosts db) = Some h" "\<exists>im. get_row im_id (ct_image c) (ad_images db) = Some im"
    "\<exists>u. get_row us_id (ct_owner c) (ad_users db) = Some u"
    "ct_mode c = PROXY \<Longrightarrow> \<exists>k p. ct_proxy c = Some k \<and> get_row px_id k (ad_proxies db) = Some p"
    "ct_mode c \<noteq> PROXY \<Longrightarrow> ct_proxy c = None"
    unfolding container_ok_def by (blast intro: ex, blast intro: ex, blast intro: ex, auto split: option.splits intro: ex)
qed

text \<open>What \<^verbatim>\<open>egress\<close> of a workspace gives a process: the address of every proxy variable.\<close>

definition egress_url :: "(string \<Rightarrow> string) \<Rightarrow> app_db \<Rightarrow> container \<Rightarrow> string" where
  "egress_url quote db c =
    (case ct_mode c of
       DIRECT \<Rightarrow> []
     | TOR \<Rightarrow> ''socks5h://127.0.0.1:9050''
     | PROXY \<Rightarrow>
         (case Option.bind (ct_proxy c) (\<lambda>k. get_row px_id k (ad_proxies db)) of
            None \<Rightarrow> [] | Some p \<Rightarrow> proxy_scheme (px_type p) @ ''://'' @ egress_proxy_upstream quote p))"

lemma process_environment:
  "sandbox_portable_process_environment quote mode proxy = Some env \<Longrightarrow>
    \<exists>url. env = map (\<lambda>k. (k, url)) proxy_environment_keys @ [(''NO_PROXY'', no_proxy_value), (''no_proxy'', no_proxy_value)]
      \<and> url = (case mode of DIRECT \<Rightarrow> [] | TOR \<Rightarrow> ''socks5h://127.0.0.1:9050''
               | PROXY \<Rightarrow> (case proxy of None \<Rightarrow> [] | Some p \<Rightarrow> proxy_scheme (px_type p) @ ''://'' @ egress_proxy_upstream quote p))"
  by (cases mode) (auto simp: sandbox_portable_process_environment_def env_update_def proxy_environment_keys_def)


section \<open>Every operation keeps the integrity\<close>

definition resource_ids :: "app_db \<Rightarrow> int set \<times> int set \<times> int set \<times> int set" where
  "resource_ids db = (mh_id ` set (ad_hosts db), im_id ` set (ad_images db), us_id ` set (ad_users db), px_id ` set (ad_proxies db))"

lemma container_ok_mono:
  assumes "container_ok db c" and "ct_host c' = ct_host c" "ct_image c' = ct_image c" "ct_owner c' = ct_owner c"
    "ct_mode c' = ct_mode c" "ct_proxy c' = ct_proxy c"
    and "mh_id ` set (ad_hosts db) \<subseteq> mh_id ` set (ad_hosts db')" "im_id ` set (ad_images db) \<subseteq> im_id ` set (ad_images db')"
    "us_id ` set (ad_users db) \<subseteq> us_id ` set (ad_users db')" "px_id ` set (ad_proxies db) \<subseteq> px_id ` set (ad_proxies db')"
  shows "container_ok db' c'"
  using assms unfolding container_ok_def by (auto split: option.splits)

lemma container_ok_cong:
  "ad_hosts db' = ad_hosts db \<Longrightarrow> ad_images db' = ad_images db \<Longrightarrow> ad_users db' = ad_users db \<Longrightarrow> ad_proxies db' = ad_proxies db
     \<Longrightarrow> container_ok db' c = container_ok db c"
  by (simp add: container_ok_def split: option.split)

lemma container_ok_simps [simp]:
  "container_ok (db\<lparr>ad_containers := cs\<rparr>) c = container_ok db c" "container_ok (db\<lparr>ad_owners := w\<rparr>) c = container_ok db c"
  "container_ok (db\<lparr>ad_bindings := b\<rparr>) c = container_ok db c"
  by (rule container_ok_cong; simp)+

lemma app_ok_resources [simp]:
  "app_ok (db\<lparr>ad_hosts := h\<rparr>) = app_ok db" "app_ok (db\<lparr>ad_images := i\<rparr>) = app_ok db" "app_ok (db\<lparr>ad_proxies := x\<rparr>) = app_ok db"
proof -
  have "meta_ok (db\<lparr>ad_hosts := h\<rparr>) m = meta_ok db m" "meta_ok (db\<lparr>ad_images := i\<rparr>) m = meta_ok db m"
    "meta_ok (db\<lparr>ad_proxies := x\<rparr>) m = meta_ok db m" for m
    by (rule meta_ok_cong; simp add: sdk_ids_def project_ids_def)+
  then show "app_ok (db\<lparr>ad_hosts := h\<rparr>) = app_ok db" "app_ok (db\<lparr>ad_images := i\<rparr>) = app_ok db" "app_ok (db\<lparr>ad_proxies := x\<rparr>) = app_ok db"
    by (simp_all add: app_ok_def sessions_ok_def projects_ok_def sdk_ids_def project_ids_def)
qed

lemma app_ok_containers:
  assumes "app_ok db" and "\<forall>b\<in>set (ad_bindings db). bd_container b \<in> ct_id ` set cs"
  shows "app_ok (db\<lparr>ad_containers := cs\<rparr>)"
proof -
  have "meta_ok (db\<lparr>ad_containers := cs\<rparr>) m = meta_ok db m" for m by (rule meta_ok_cong; simp add: sdk_ids_def project_ids_def)
  with assms show ?thesis by (simp add: app_ok_def sessions_ok_def projects_ok_def sdk_ids_def project_ids_def)
qed

lemma app_ok_users:
  assumes "app_ok db" and "\<forall>w\<in>set (ad_owners db). ow_user w \<in> us_id ` set us"
  shows "app_ok (db\<lparr>ad_users := us\<rparr>)"
proof -
  have "meta_ok (db\<lparr>ad_users := us\<rparr>) m = meta_ok db m" for m by (rule meta_ok_cong; simp add: sdk_ids_def project_ids_def)
  with assms show ?thesis by (simp add: app_ok_def sessions_ok_def projects_ok_def sdk_ids_def project_ids_def)
qed

definition store_ok :: "app_db \<Rightarrow> bool" where
  "store_ok db \<longleftrightarrow> app_ok db \<and> resources_ok db"

lemma containers_bound: "app_ok db \<Longrightarrow> b \<in> set (ad_bindings db) \<Longrightarrow> bd_container b \<in> ct_id ` set (ad_containers db)"
  by (simp add: app_ok_def projects_ok_def)

lemma owners_exist: "app_ok db \<Longrightarrow> w \<in> set (ad_owners db) \<Longrightarrow> ow_user w \<in> us_id ` set (ad_users db)"
  by (simp add: app_ok_def projects_ok_def)

text \<open>Rows of the four tables around the containers: more of them, or the same ones with other contents.\<close>

lemma store_hosts:
  assumes "store_ok db" and "distinct (map mh_id h)" and "\<forall>c\<in>set (ad_containers db). ct_host c \<in> mh_id ` set h"
  shows "store_ok (db\<lparr>ad_hosts := h\<rparr>)"
  using assms by (auto simp: store_ok_def resources_ok_def container_ok_def split: option.splits)

lemma store_images:
  assumes "store_ok db" and "distinct (map im_id i)" and "\<forall>c\<in>set (ad_containers db). ct_image c \<in> im_id ` set i"
  shows "store_ok (db\<lparr>ad_images := i\<rparr>)"
  using assms by (auto simp: store_ok_def resources_ok_def container_ok_def split: option.splits)

lemma store_proxies:
  assumes "store_ok db" and "distinct (map px_id x)"
    and "\<forall>c\<in>set (ad_containers db). \<forall>k. ct_proxy c = Some k \<longrightarrow> k \<in> px_id ` set x"
  shows "store_ok (db\<lparr>ad_proxies := x\<rparr>)"
  using assms by (auto simp: store_ok_def resources_ok_def container_ok_def split: option.splits)

lemma store_users:
  assumes "store_ok db" and "distinct (map us_id u)" and "\<forall>c\<in>set (ad_containers db). ct_owner c \<in> us_id ` set u"
    and "\<forall>w\<in>set (ad_owners db). ow_user w \<in> us_id ` set u"
  shows "store_ok (db\<lparr>ad_users := u\<rparr>)"
  using assms app_ok_users[of db u] by (auto simp: store_ok_def resources_ok_def container_ok_def split: option.splits)

lemma store_containers:
  assumes "store_ok db" and "distinct (map ct_id cs)" and "\<forall>c\<in>set cs. container_ok db c"
    and "\<forall>b\<in>set (ad_bindings db). bd_container b \<in> ct_id ` set cs"
  shows "store_ok (db\<lparr>ad_containers := cs\<rparr>)"
  using assms app_ok_containers[of db cs] by (simp add: store_ok_def resources_ok_def)

lemma store_refs:
  assumes "store_ok db" and "c \<in> set (ad_containers db)"
  shows "ct_host c \<in> mh_id ` set (ad_hosts db)" "ct_image c \<in> im_id ` set (ad_images db)" "ct_owner c \<in> us_id ` set (ad_users db)"
    "ct_proxy c = Some k \<Longrightarrow> k \<in> px_id ` set (ad_proxies db) \<and> ct_mode c = PROXY" "container_ok db c"
  using assms by (auto simp: store_ok_def resources_ok_def container_ok_def split: option.splits)

lemma store_distinct:
  assumes "store_ok db"
  shows "distinct (map mh_id (ad_hosts db))" "distinct (map im_id (ad_images db))" "distinct (map us_id (ad_users db))"
    "distinct (map px_id (ad_proxies db))" "distinct (map ct_id (ad_containers db))"
  using assms by (simp_all add: store_ok_def resources_ok_def)

lemma image_put_row: "f ` set (put_row f a xs) = f ` set xs"
  using map_rid_put_row[of f a xs] by (metis set_map)

lemma fresh_id: "allocates alloc \<Longrightarrow> alloc (map f xs) \<notin> f ` set xs"
  unfolding allocates_def by (metis set_map)

lemma resource_rows_ok [inv_intros]:
  assumes ok: "store_ok db" and alloc: "allocates alloc"
  shows "store_ok (snd (create_managed_host alloc n hr now db))" and "store_ok (snd (update_managed_host n k hu now db))"
    and "store_ok (snd (ensure_local_managed_host n un now db))" and "store_ok (snd (create_sandbox_image alloc ir now db))"
    and "store_ok (snd (create_egress_proxy alloc pr now db))" and "store_ok (snd (update_egress_proxy k pu now db))"
    and "store_ok (snd (create_system_user alloc hash ur now db))" and "store_ok (snd (update_system_user hash k uu now db))"
proof -
  note d = store_distinct[OF ok] and refs = store_refs[OF ok] and f = fresh_id[OF alloc]
  show "store_ok (snd (create_managed_host alloc n hr now db))"
    unfolding create_managed_host_def Let_def snd_conv by (rule store_hosts[OF ok]) (use d refs in \<open>auto simp: f\<close>)
  show "store_ok (snd (update_managed_host n k hu now db))"
  proof (cases "get_row mh_id k (ad_hosts db)")
    case (Some h)
    show ?thesis unfolding update_managed_host_def Some Let_def option.case snd_conv
      by (rule store_hosts[OF ok]) (use d refs in \<open>auto simp: map_rid_put_row image_put_row\<close>)
  qed (use ok in \<open>simp add: update_managed_host_def\<close>)
  show "store_ok (snd (ensure_local_managed_host n un now db))"
  proof (cases "get_row mh_id default_local_host_id (ad_hosts db)")
    case None
    then have "default_local_host_id \<notin> mh_id ` set (ad_hosts db)" by (auto simp: get_row_None)
    then show ?thesis unfolding ensure_local_managed_host_def None Let_def option.case snd_conv
      by (intro store_hosts[OF ok]) (use d refs in auto)
  next
    case (Some h)
    have "store_ok (db\<lparr>ad_hosts := put_row mh_id h' (ad_hosts db)\<rparr>)" for h'
      by (rule store_hosts[OF ok]) (use d refs in \<open>auto simp: map_rid_put_row image_put_row\<close>)
    with ok show ?thesis by (simp add: ensure_local_managed_host_def Some Let_def)
  qed
  show "store_ok (snd (create_sandbox_image alloc ir now db))"
    unfolding create_sandbox_image_def Let_def snd_conv by (rule store_images[OF ok]) (use d refs in \<open>auto simp: f\<close>)
  show "store_ok (snd (create_egress_proxy alloc pr now db))"
    unfolding create_egress_proxy_def Let_def snd_conv by (rule store_proxies[OF ok]) (use d refs in \<open>auto simp: f\<close>)
  show "store_ok (snd (update_egress_proxy k pu now db))"
  proof (cases "get_row px_id k (ad_proxies db)")
    case (Some h)
    show ?thesis unfolding update_egress_proxy_def Some Let_def option.case snd_conv
      by (rule store_proxies[OF ok]) (use d refs in \<open>auto simp: map_rid_put_row image_put_row\<close>)
  qed (use ok in \<open>simp add: update_egress_proxy_def\<close>)
  have w: "\<forall>w\<in>set (ad_owners db). ow_user w \<in> us_id ` set (ad_users db)" using owners_exist ok by (simp add: store_ok_def)
  show "store_ok (snd (create_system_user alloc hash ur now db))"
    unfolding create_system_user_def Let_def snd_conv by (rule store_users[OF ok]) (use d refs w in \<open>auto simp: f\<close>)
  show "store_ok (snd (update_system_user hash k uu now db))"
  proof (cases "get_row us_id k (ad_users db)")
    case (Some h)
    show ?thesis unfolding update_system_user_def Some Let_def option.case snd_conv
      by (rule store_users[OF ok]) (use d refs w in \<open>auto simp: map_rid_put_row image_put_row\<close>)
  qed (use ok in \<open>simp add: update_system_user_def\<close>)
qed

lemma deletions_exact:
  assumes ok: "store_ok db"
  shows "fst (delete_managed_host k db) = Deleted \<longleftrightarrow>
      k \<noteq> default_local_host_id \<and> k \<in> mh_id ` set (ad_hosts db) \<and> (\<forall>c\<in>set (ad_containers db). ct_host c \<noteq> k)"
    and "fst (delete_sandbox_image k db) = Deleted \<longleftrightarrow>
      k \<in> im_id ` set (ad_images db) \<and> (\<forall>c\<in>set (ad_containers db). ct_image c \<noteq> k)"
    and "fst (delete_egress_proxy k db) = Deleted \<longleftrightarrow>
      k \<in> px_id ` set (ad_proxies db) \<and> (\<forall>c\<in>set (ad_containers db). ct_proxy c \<noteq> Some k)"
    and "Deletion_Raised \<notin> {fst (delete_managed_host k db), fst (delete_sandbox_image k db), fst (delete_egress_proxy k db)}"
proof -
  have proxy: "egress_proxy_has_sandbox_containers k db \<longleftrightarrow> (\<exists>c\<in>set (ad_containers db). ct_proxy c = Some k)"
  proof -
    have "egress_proxy_has_sandbox_containers k db \<longleftrightarrow> (\<exists>c\<in>set (ad_containers db). ct_mode c = PROXY \<and> ct_proxy c = Some k)"
      by (simp add: egress_proxy_has_sandbox_containers_def list_ex_iff)
    also have "\<dots> \<longleftrightarrow> (\<exists>c\<in>set (ad_containers db). ct_proxy c = Some k)" using store_refs(4)[OF ok] by blast
    finally show ?thesis .
  qed
  have mem: "Some k \<in> ct_proxy ` set (ad_containers db) \<longleftrightarrow> (\<exists>c\<in>set (ad_containers db). ct_proxy c = Some k)" by force
  show "fst (delete_managed_host k db) = Deleted \<longleftrightarrow>
      k \<noteq> default_local_host_id \<and> k \<in> mh_id ` set (ad_hosts db) \<and> (\<forall>c\<in>set (ad_containers db). ct_host c \<noteq> k)"
    by (auto simp: delete_managed_host_def delete_host_row_def get_row_None list_ex_iff)
  show "fst (delete_sandbox_image k db) = Deleted \<longleftrightarrow>
      k \<in> im_id ` set (ad_images db) \<and> (\<forall>c\<in>set (ad_containers db). ct_image c \<noteq> k)"
    by (auto simp: delete_sandbox_image_def delete_image_row_def get_row_None list_ex_iff)
  show "fst (delete_egress_proxy k db) = Deleted \<longleftrightarrow>
      k \<in> px_id ` set (ad_proxies db) \<and> (\<forall>c\<in>set (ad_containers db). ct_proxy c \<noteq> Some k)"
    by (auto simp: delete_egress_proxy_def delete_proxy_row_def get_row_None proxy mem)
  have "fst (delete_managed_host k db) \<noteq> Deletion_Raised"
    by (auto simp: delete_managed_host_def delete_host_row_def list_ex_iff)
  moreover have "fst (delete_sandbox_image k db) \<noteq> Deletion_Raised"
    by (auto simp: delete_sandbox_image_def delete_image_row_def list_ex_iff)
  moreover have "fst (delete_egress_proxy k db) \<noteq> Deletion_Raised"
    by (auto simp: delete_egress_proxy_def delete_proxy_row_def proxy mem)
  ultimately show "Deletion_Raised \<notin> {fst (delete_managed_host k db), fst (delete_sandbox_image k db), fst (delete_egress_proxy k db)}"
    by auto
qed

lemma deletions_ok [inv_intros]:
  assumes ok: "store_ok db"
  shows "store_ok (snd (delete_managed_host k db))" and "store_ok (snd (delete_sandbox_image k db))"
    and "store_ok (snd (delete_egress_proxy k db))" and "store_ok (snd (delete_system_user k db))"
    and "store_ok (delete_container_row k db)" and "store_ok (snd (delete_sandbox_container rmdir k db))"
proof -
  note d = store_distinct[OF ok] and refs = store_refs[OF ok]
  have ids: "f ` {x \<in> set xs. f x \<noteq> k} = f ` set xs - {k}" for f :: "'r \<Rightarrow> int" and xs by auto
  have "store_ok (snd (delete_host_row k db))"
  proof (cases "k \<in> set (map ct_host (ad_containers db))")
    case False
    then have "store_ok (db\<lparr>ad_hosts := filter (\<lambda>h. mh_id h \<noteq> k) (ad_hosts db)\<rparr>)"
      by (intro store_hosts[OF ok]) (use d refs(1) in \<open>auto simp: ids distinct_map_filter\<close>)
    with False show ?thesis by (simp add: delete_host_row_def)
  qed (use ok in \<open>simp add: delete_host_row_def\<close>)
  then show "store_ok (snd (delete_managed_host k db))" using ok by (simp add: delete_managed_host_def)
  have "store_ok (snd (delete_image_row k db))"
  proof (cases "k \<in> set (map ct_image (ad_containers db))")
    case False
    then have "store_ok (db\<lparr>ad_images := filter (\<lambda>h. im_id h \<noteq> k) (ad_images db)\<rparr>)"
      by (intro store_images[OF ok]) (use d refs(2) in \<open>auto simp: ids distinct_map_filter\<close>)
    with False show ?thesis by (simp add: delete_image_row_def)
  qed (use ok in \<open>simp add: delete_image_row_def\<close>)
  then show "store_ok (snd (delete_sandbox_image k db))" using ok by (simp add: delete_sandbox_image_def)
  have "store_ok (snd (delete_proxy_row k db))"
  proof (cases "Some k \<in> set (map ct_proxy (ad_containers db))")
    case False
    have "j \<in> px_id ` set (filter (\<lambda>h. px_id h \<noteq> k) (ad_proxies db))" if "c \<in> set (ad_containers db)" "ct_proxy c = Some j" for c j
    proof -
      have "j \<in> px_id ` set (ad_proxies db)" using refs(4)[OF that] by simp
      moreover have "j \<noteq> k" using False that by force
      ultimately show ?thesis using ids[of px_id "ad_proxies db"] by simp
    qed
    then have "store_ok (db\<lparr>ad_proxies := filter (\<lambda>h. px_id h \<noteq> k) (ad_proxies db)\<rparr>)"
      using d by (intro store_proxies[OF ok]) (auto simp: distinct_map_filter)
    with False show ?thesis by (simp add: delete_proxy_row_def)
  qed (use ok in \<open>simp add: delete_proxy_row_def\<close>)
  then show "store_ok (snd (delete_egress_proxy k db))" using ok by (simp add: delete_egress_proxy_def)
  show "store_ok (snd (delete_system_user k db))"
  proof (cases "get_row us_id k (ad_users db) = None \<or> k \<in> set (map ct_owner (ad_containers db))")
    case False
    let ?db = "db\<lparr>ad_owners := filter (\<lambda>w. ow_user w \<noteq> k) (ad_owners db)\<rparr>"
    have "store_ok ?db" using ok owners_subset_ok by (simp add: store_ok_def resources_ok_def)
    moreover have "ow_user w \<in> us_id ` set (ad_users db)" if "w \<in> set (ad_owners db)" for w
      using owners_exist ok that by (simp add: store_ok_def)
    ultimately have "store_ok (?db\<lparr>ad_users := filter (\<lambda>u. us_id u \<noteq> k) (ad_users db)\<rparr>)"
      using d refs(3) False by (intro store_users) (auto simp: distinct_map_filter ids)
    moreover have "snd (delete_system_user k db) = ?db\<lparr>ad_users := filter (\<lambda>u. us_id u \<noteq> k) (ad_users db)\<rparr>"
      using False by (auto simp: delete_system_user_def)
    ultimately show ?thesis by simp
  qed (use ok in \<open>auto simp: delete_system_user_def\<close>)
  show c: "store_ok (delete_container_row k db)"
  proof -
    let ?db = "db\<lparr>ad_bindings := filter (\<lambda>b. bd_container b \<noteq> k) (ad_bindings db)\<rparr>"
    have "store_ok ?db" using ok bindings_subset_ok by (simp add: store_ok_def resources_ok_def)
    moreover have "bd_container b \<in> ct_id ` set (ad_containers db)" if "b \<in> set (ad_bindings db)" for b
      using containers_bound ok that by (simp add: store_ok_def)
    ultimately have "store_ok (?db\<lparr>ad_containers := filter (\<lambda>c. ct_id c \<noteq> k) (ad_containers db)\<rparr>)"
      using d refs(5) by (intro store_containers) (auto simp: distinct_map_filter ids)
    moreover have "delete_container_row k db = ?db\<lparr>ad_containers := filter (\<lambda>c. ct_id c \<noteq> k) (ad_containers db)\<rparr>"
      by (simp add: delete_container_row_def)
    ultimately show ?thesis by simp
  qed
  then show "store_ok (snd (delete_sandbox_container rmdir k db))"
    using ok by (auto simp: delete_sandbox_container_def split: sum.split)
qed

lemma update_containers_ok:
  assumes ok: "store_ok db" and id: "\<And>c. ct_id (f c) = ct_id c" and good: "\<And>c. c \<in> set (ad_containers db) \<Longrightarrow> container_ok db (f c)"
  shows "store_ok (db\<lparr>ad_containers := update_rows p f (ad_containers db)\<rparr>)"
proof -
  have m: "map ct_id (update_rows p f (ad_containers db)) = map ct_id (ad_containers db)"
    by (rule map_update_rows_same) (simp add: id)
  then have s: "ct_id ` set (update_rows p f (ad_containers db)) = ct_id ` set (ad_containers db)" by (metis set_map)
  show ?thesis
  proof (rule store_containers[OF ok])
    show "distinct (map ct_id (update_rows p f (ad_containers db)))" using m store_distinct(5)[OF ok] by simp
    show "\<forall>c\<in>set (update_rows p f (ad_containers db)). container_ok db c"
      using good store_refs(5)[OF ok] by (auto simp: update_rows_def)
    show "\<forall>b\<in>set (ad_bindings db). bd_container b \<in> ct_id ` set (update_rows p f (ad_containers db))"
      using containers_bound ok by (simp add: s store_ok_def)
  qed
qed

lemma put_status_ok [inv_intros]: "store_ok db \<Longrightarrow> store_ok (put_status k st now db)"
  unfolding put_status_def
proof (rule update_containers_ok)
  fix c
  assume "store_ok db" "c \<in> set (ad_containers db)"
  then show "container_ok db (c\<lparr>ct_status := st, ct_updated_at := now\<rparr>)"
    by (rule container_ok_mono[OF store_refs(5)]) auto
qed simp_all

lemma set_status_ok [inv_intros]: "store_ok db \<Longrightarrow> store_ok (snd (set_status lb mkdir k st msg now later db))"
  by (simp add: set_status_def Let_def put_status_ok split: option.split)

lemma workspace_steps_ok [inv_intros]:
  assumes ok: "store_ok db" and alloc: "allocates alloc"
  shows "store_ok (snd (create_sandbox_container lb mkdir alloc ft host img mode proxy owner ports now later db))"
    and "store_ok (snd (update_sandbox_container_egress lb k mode proxy now db))"
    and "store_ok (snd (save_sandbox_container_status lb k st now db))"
proof -
  have new: "store_ok (db\<lparr>ad_containers := ad_containers db @ [c]\<rparr>)"
    if "ct_id c = alloc (map ct_id (ad_containers db))" "container_ok db c" for c
  proof (rule store_containers[OF ok])
    show "distinct (map ct_id (ad_containers db @ [c]))"
      using store_distinct(5)[OF ok] that(1) fresh_id[OF alloc, of ct_id "ad_containers db"] by simp
    show "\<forall>x\<in>set (ad_containers db @ [c]). container_ok db x" using that(2) store_refs(5)[OF ok] by auto
    show "\<forall>b\<in>set (ad_bindings db). bd_container b \<in> ct_id ` set (ad_containers db @ [c])"
      using containers_bound ok by (auto simp: store_ok_def)
  qed
  show "store_ok (snd (create_sandbox_container lb mkdir alloc ft host img mode proxy owner ports now later db))"
  proof (cases "get_row im_id img (ad_images db)")
    case (Some im)
    let ?c = "\<lparr>ct_id = alloc (map ct_id (ad_containers db)), ct_owner = owner, ct_status = C_RUNNING, ct_updated_at = now, ct_host = host,
       ct_image = img, ct_mode = mode, ct_proxy = proxy, ct_name = container_name_prefix (im_name im) @ ''-'' @ ft_suffix ft,
       ct_hash = ft_hash ft, ct_token = ft_token ft, ct_ports = ports, ct_control_port = 0, ct_created_at = now\<rparr>"
    let ?bad = "get_row mh_id host (ad_hosts db) = None \<or> get_row us_id owner (ad_users db) = None
      \<or> mode = PROXY \<and> (case proxy of None \<Rightarrow> True | Some p \<Rightarrow> p = 0 \<or> get_row px_id p (ad_proxies db) = None) \<or> mode \<noteq> PROXY \<and> proxy \<noteq> None"
    show ?thesis
    proof (cases ?bad)
      case True
      then have "snd (create_sandbox_container lb mkdir alloc ft host img mode proxy owner ports now later db) = db"
        by (auto simp: create_sandbox_container_def Some)
      with ok show ?thesis by simp
    next
      case False
      have img: "img \<in> im_id ` set (ad_images db)" using Some get_row_None[of im_id img "ad_images db"] by auto
      have "container_ok db ?c" using False img by (auto simp: container_ok_def get_row_None split: option.splits)
      then have n: "store_ok (db\<lparr>ad_containers := ad_containers db @ [?c]\<rparr>)" by (intro new) auto
      have "snd (create_sandbox_container lb mkdir alloc ft host img mode proxy owner ports now later db) = db\<lparr>ad_containers := ad_containers db @ [?c]\<rparr>
        \<or> snd (create_sandbox_container lb mkdir alloc ft host img mode proxy owner ports now later db)
          = put_status (ct_id ?c) C_ERROR later (db\<lparr>ad_containers := ad_containers db @ [?c]\<rparr>)"
        using False by (auto simp: create_sandbox_container_def Some Let_def split: option.split)
      with n put_status_ok[OF n] show ?thesis by metis
    qed
  qed (use ok in \<open>simp add: create_sandbox_container_def\<close>)
  show "store_ok (snd (update_sandbox_container_egress lb k mode proxy now db))"
  proof (cases "get_row ct_id k (ad_containers db) = None
      \<or> mode = PROXY \<and> (case proxy of None \<Rightarrow> True | Some p \<Rightarrow> get_row px_id p (ad_proxies db) = None) \<or> mode \<noteq> PROXY \<and> proxy \<noteq> None")
    case False
    have "container_ok db (c\<lparr>ct_mode := mode, ct_proxy := proxy, ct_updated_at := now\<rparr>)" if "c \<in> set (ad_containers db)" for c
      using store_refs[OF ok that] False by (auto simp: container_ok_def get_row_None split: option.splits)
    then have "store_ok (db\<lparr>ad_containers := update_rows (\<lambda>c. ct_id c = k)
        (\<lambda>c. c\<lparr>ct_mode := mode, ct_proxy := proxy, ct_updated_at := now\<rparr>) (ad_containers db)\<rparr>)"
      by (intro update_containers_ok[OF ok]) auto
    with False show ?thesis by (auto simp: update_sandbox_container_egress_def Let_def)
  qed (use ok in \<open>auto simp: update_sandbox_container_egress_def\<close>)
  show "store_ok (snd (save_sandbox_container_status lb k st now db))"
    using ok by (simp add: save_sandbox_container_status_def Let_def put_status_ok)
qed

lemma ensure_default_ok [inv_intros]:
  assumes ok: "store_ok db" and alloc: "allocates alloc"
  shows "store_ok (snd (ensure_default_portable_workspace lb mkdir alloc ft owner now later db))"
proof -
  define r where "r = (case List.find (\<lambda>im. im_name im = default_portable_image_name) (ad_images db) of
      Some im \<Rightarrow> (im, db)
    | None \<Rightarrow> create_sandbox_image alloc \<lparr>iq_name = default_portable_image_name, iq_port = 8000, iq_tor = False\<rparr> now db)"
  have r: "store_ok (snd r)" using ok resource_rows_ok(4)[OF ok alloc] by (simp add: r_def split: option.split)
  show ?thesis
    unfolding ensure_default_portable_workspace_def r_def[symmetric]
    using ok r set_status_ok[OF r] workspace_steps_ok(1)[OF r alloc]
    by (simp add: Let_def case_prod_beta split: option.split list.split)
qed

text \<open>The operations on resources, with what the outside contributes to them.\<close>

record resource_env =
  re_labels :: labels
  re_canon :: "string \<Rightarrow> string option"
  re_alloc :: "int list \<Rightarrow> int"
  re_hash :: "string \<Rightarrow> string"
  re_mkdir :: make_dir
  re_rmdir :: "managed_host \<Rightarrow> int \<Rightarrow> bool"
  re_texts :: fresh_texts

datatype resource_op =
    New_Host host_request | Edit_Host int host_update | Drop_Host int | Local_Host string
  | New_Image image_request | Drop_Image int
  | New_Proxy proxy_request | Edit_Proxy int proxy_update | Drop_Proxy int
  | New_User user_request | Edit_User int user_update | Drop_User int
  | New_Workspace container_request int | Default_Workspace int
  | Start_Workspace int | Stop_Workspace int | Pause_Workspace int | Resume_Workspace int
  | Workspace_Status int container_status | Workspace_Egress int egress_mode "int option" | Drop_Workspace int

definition on_request :: "'r option \<Rightarrow> ('r \<Rightarrow> app_db) \<Rightarrow> app_db \<Rightarrow> app_db" where
  "on_request v f db = (case v of None \<Rightarrow> db | Some r \<Rightarrow> f r)"

fun resource_exec :: "resource_env \<Rightarrow> datetime \<Rightarrow> datetime \<Rightarrow> resource_op \<Rightarrow> app_db \<Rightarrow> app_db" where
  "resource_exec e now later (New_Host r) db =
     on_request (validate_host_request (re_canon e) r) (\<lambda>r. snd (create_managed_host (re_alloc e) (lb_local_host (re_labels e)) r now db)) db"
| "resource_exec e now later (Edit_Host k u) db =
     on_request (validate_host_update (re_canon e) u) (\<lambda>u. snd (update_managed_host (lb_local_host (re_labels e)) k u now db)) db"
| "resource_exec e now later (Drop_Host k) db = snd (delete_managed_host k db)"
| "resource_exec e now later (Local_Host name) db = snd (ensure_local_managed_host (lb_local_host (re_labels e)) name now db)"
| "resource_exec e now later (New_Image r) db =
     on_request (validate_image_request r) (\<lambda>r. snd (create_sandbox_image (re_alloc e) r now db)) db"
| "resource_exec e now later (Drop_Image k) db = snd (delete_sandbox_image k db)"
| "resource_exec e now later (New_Proxy r) db =
     on_request (validate_proxy_request r) (\<lambda>r. snd (create_egress_proxy (re_alloc e) r now db)) db"
| "resource_exec e now later (Edit_Proxy k u) db =
     on_request (validate_proxy_update u) (\<lambda>u. snd (update_egress_proxy k u now db)) db"
| "resource_exec e now later (Drop_Proxy k) db = snd (delete_egress_proxy k db)"
| "resource_exec e now later (New_User r) db =
     on_request (validate_user_request r) (\<lambda>r. snd (create_system_user (re_alloc e) (re_hash e) r now db)) db"
| "resource_exec e now later (Edit_User k u) db =
     on_request (validate_user_update u) (\<lambda>u. snd (update_system_user (re_hash e) k u now db)) db"
| "resource_exec e now later (Drop_User k) db = snd (delete_system_user k db)"
| "resource_exec e now later (New_Workspace r owner) db =
     on_request (validate_container_request r) (\<lambda>r. snd (create_sandbox_container (re_labels e) (re_mkdir e) (re_alloc e) (re_texts e)
       (cq_host r) (cq_image r) (cq_mode r) (cq_proxy r) owner (cq_ports r) now later db)) db"
| "resource_exec e now later (Default_Workspace owner) db =
     snd (ensure_default_portable_workspace (re_labels e) (re_mkdir e) (re_alloc e) (re_texts e) owner now later db)"
| "resource_exec e now later (Start_Workspace k) db = snd (start_sandbox_container (re_labels e) (re_mkdir e) k now later db)"
| "resource_exec e now later (Stop_Workspace k) db = snd (stop_sandbox_container (re_labels e) (re_mkdir e) k now later db)"
| "resource_exec e now later (Pause_Workspace k) db = snd (pause_sandbox_container (re_labels e) (re_mkdir e) k now later db)"
| "resource_exec e now later (Resume_Workspace k) db = snd (resume_sandbox_container (re_labels e) (re_mkdir e) k now later db)"
| "resource_exec e now later (Workspace_Status k st) db = snd (save_sandbox_container_status (re_labels e) k st now db)"
| "resource_exec e now later (Workspace_Egress k mode proxy) db =
     snd (update_sandbox_container_egress (re_labels e) k mode proxy now db)"
| "resource_exec e now later (Drop_Workspace k) db = snd (delete_sandbox_container (re_rmdir e) k db)"

lemma resource_exec_ok [inv_intros]:
  assumes ok: "store_ok db" and alloc: "allocates (re_alloc e)"
  shows "store_ok (resource_exec e now later x db)"
  by (cases x) (simp_all add: on_request_def resource_rows_ok[OF ok alloc] deletions_ok[OF ok] workspace_steps_ok[OF ok alloc]
      ensure_default_ok[OF ok alloc] set_status_ok[OF ok] start_sandbox_container_def stop_sandbox_container_def
      pause_sandbox_container_def resume_sandbox_container_def ok split: option.split)

lemma resource_run_ok:
  "store_ok db \<Longrightarrow> allocates (re_alloc e) \<Longrightarrow> store_ok (fold (resource_exec e now later) xs db)"
  by (induction xs arbitrary: db) (simp_all add: resource_exec_ok)

text \<open>Every stored workspace is shown: none is lost in the joins.\<close>

lemma record_loads:
  assumes ok: "store_ok db" and c: "c \<in> set (ad_containers db)"
  shows "\<exists>r. joined_record lb db c = Some r \<and> load_sandbox_container_record lb (ct_id c) db = Some r \<and> cr_container r = c"
proof -
  have r: "resources_ok db" using ok by (simp add: store_ok_def)
  obtain h im u where hiu: "get_row mh_id (ct_host c) (ad_hosts db) = Some h" "get_row im_id (ct_image c) (ad_images db) = Some im"
    "get_row us_id (ct_owner c) (ad_users db) = Some u"
    using resources_okD(1-3)[OF r c] by blast
  have "get_row ct_id (ct_id c) (ad_containers db) = Some c"
    using store_distinct(5)[OF ok] c by (simp add: get_row_def find_key_iff)
  then show ?thesis by (simp add: load_sandbox_container_record_def joined_record_def hiu record_of_def)
qed

text \<open>A workspace list shows a user exactly the own workspaces.  Over all pages a user who is not an
  administrator sees every own workspace once, in the order of identifiers and with its current row, and none of
  anybody else; an administrator sees all.\<close>

theorem workspace_list_exact:
  assumes ok: "store_ok db" and page: "0 < limit"
  shows "concat (map (\<lambda>i. map cr_container (pg_items (query_sandbox_containers lb like user role (int i + 1) (int limit) [] db)))
      [0..<length (ad_containers db)])
    = filter (\<lambda>c. role = ADMIN \<or> ct_owner c = user) (sort_key ct_id (ad_containers db))"
proof -
  let ?p = "\<lambda>c. role = ADMIN \<or> ct_owner c = user"
  define rows where "rows = filter (\<lambda>r. ?p (cr_container r)) (List.map_filter (joined_record lb db) (sort_key ct_id (ad_containers db)))"
  have q: "query_sandbox_containers lb like user role i l [] db = paginate_statement i l rows" for i l
    by (simp add: query_sandbox_containers_def query_containers_def keyword_rows_def rows_def Let_def str_strip_Nil_iff)
  have joined: "map cr_container (filter (\<lambda>r. ?p (cr_container r)) (List.map_filter (joined_record lb db) cs)) = filter ?p cs"
    if "set cs \<subseteq> set (ad_containers db)" for cs
    using that
  proof (induction cs)
    case (Cons c cs)
    then obtain r where "joined_record lb db c = Some r" "cr_container r = c" using record_loads[OF ok, of c lb] by auto
    with Cons show ?case by (cases "role = ADMIN") (simp_all add: List.map_filter_simps)
  qed (simp add: List.map_filter_simps)
  have m: "map cr_container rows = filter ?p (sort_key ct_id (ad_containers db))"
    unfolding rows_def by (rule joined) simp
  then have "length rows \<le> length (ad_containers db)" by (metis length_filter_le length_map length_sort)
  then have len: "length rows \<le> length (ad_containers db) * limit" using page by (metis le_trans mult_le_mono2 nat_mult_1_right One_nat_def Suc_leI)
  have "concat (map (\<lambda>i. map cr_container (pg_items (paginate_statement (int i + 1) (int limit) rows))) is)
      = map cr_container (concat (map (\<lambda>i. pg_items (paginate_statement (int i + 1) (int limit) rows)) is))" for "is"
    by (simp add: map_concat comp_def)
  then show ?thesis unfolding q using m len by (simp add: pages_prefix[OF page])
qed

text \<open>A resource is deleted exactly when nothing uses it.  In a whole database the deletion of a host, an image
  or a proxy never runs into a foreign key: it happens exactly for an existing one that no workspace names (and
  never for the local host), and the database stays whole.\<close>

theorem resource_deletions_exact:
  assumes ok: "store_ok db"
  shows "(fst (delete_managed_host k db) = Deleted \<longleftrightarrow>
       k \<noteq> default_local_host_id \<and> k \<in> mh_id ` set (ad_hosts db) \<and> (\<forall>c\<in>set (ad_containers db). ct_host c \<noteq> k))
    \<and> (fst (delete_sandbox_image k db) = Deleted \<longleftrightarrow>
       k \<in> im_id ` set (ad_images db) \<and> (\<forall>c\<in>set (ad_containers db). ct_image c \<noteq> k))
    \<and> (fst (delete_egress_proxy k db) = Deleted \<longleftrightarrow>
       k \<in> px_id ` set (ad_proxies db) \<and> (\<forall>c\<in>set (ad_containers db). ct_proxy c \<noteq> Some k))
    \<and> Deletion_Raised \<notin> {fst (delete_managed_host k db), fst (delete_sandbox_image k db), fst (delete_egress_proxy k db)}
    \<and> store_ok (snd (delete_managed_host k db)) \<and> store_ok (snd (delete_sandbox_image k db))
    \<and> store_ok (snd (delete_egress_proxy k db))"
  by (intro conjI deletions_exact[OF ok] deletions_ok[OF ok])

definition sample_env :: resource_env where
  "sample_env = \<lparr>re_labels = \<lparr>lb_local_host = ''local'', lb_direct = ''direct'', lb_proxy = ''via ''\<rparr>, re_canon = Some,
     re_alloc = sample_alloc, re_hash = rev, re_mkdir = (\<lambda>_ _ _. None), re_rmdir = (\<lambda>_ _. True),
     re_texts = \<lparr>ft_suffix = ''0a'', ft_hash = ''h'', ft_token = ''t''\<rparr>\<rparr>"

definition sample_store :: app_db where
  "sample_store = fold (resource_exec sample_env 5 6)
    [Local_Host ''me'', New_User \<lparr>uq_username = ''u'', uq_password = ''p'', uq_email = [], uq_role = USER\<rparr>,
     New_Proxy \<lparr>pr_type = SOCKS5_PROXY, pr_host = ''px'', pr_port = 1080, pr_account = [], pr_password = []\<rparr>,
     Default_Workspace 1, Workspace_Egress 1 PROXY (Some 1)] (empty_app [] [])"

lemma sample_store_ok: "store_ok sample_store"
proof -
  have a: "allocates (re_alloc sample_env)" by (simp add: sample_env_def sample_alloc)
  have "store_ok (empty_app [] [])"
    using empty_app_ok[of "[]" "[]"] by (simp add: store_ok_def resources_ok_def) (simp add: empty_app_def)
  then show ?thesis unfolding sample_store_def using a by (rule resource_run_ok)
qed

lemma sample_store_eval:
  "(map (\<lambda>c. (ct_id c, ct_mode c, ct_owner c, ct_proxy c)) (ad_containers sample_store), map im_id (ad_images sample_store))
     = ([(1, PROXY, 1, Some 1)], [1])"
  by code_simp

lemma sample_store_rows:
  "\<exists>c. ad_containers sample_store = [c] \<and> ct_id c = 1 \<and> ct_mode c = PROXY \<and> ct_owner c = 1 \<and> ct_proxy c = Some 1"
  "im_id ` set (ad_images sample_store) = {1}"
  using sample_store_eval by (auto simp flip: set_map)

lemma workspace_list_exact_witness:
  "map (ct_id \<circ> cr_container) (pg_items (query_sandbox_containers (re_labels sample_env) (\<lambda>_ _. True) 1 USER 1 2 [] sample_store)) = [1]
   \<and> map ct_id (filter (\<lambda>c. USER = ADMIN \<or> ct_owner c = 1) (sort_key ct_id (ad_containers sample_store))) = [1]"
proof -
  obtain c where "ad_containers sample_store = [c]" "ct_id c = 1" "ct_owner c = 1" using sample_store_rows(1) by blast
  then show ?thesis
    using workspace_list_exact[OF sample_store_ok, of 2 "re_labels sample_env" "\<lambda>_ _. True" 1 USER]
    by (auto simp flip: map_map)
qed


lemma resource_deletions_exact_witness:
  "fst (delete_egress_proxy 1 sample_store) \<noteq> Deleted \<and> fst (delete_sandbox_image 9 sample_store) \<noteq> Deleted
   \<and> fst (delete_managed_host 1 sample_store) \<noteq> Deleted"
proof -
  obtain c where "ad_containers sample_store = [c]" "ct_proxy c = Some 1" using sample_store_rows(1) by blast
  then show ?thesis
    using resource_deletions_exact[OF sample_store_ok, of 1] resource_deletions_exact[OF sample_store_ok, of 9]
    by (auto simp: default_local_host_id_def sample_store_rows(2))
qed

end
