(* ===== verification/Work_Tools.thy ===== *)
theory Work_Tools
  imports Work_Projects
begin

text \<open>
  The tools through which agents read and write the work project of their session,
  \<^verbatim>\<open>src/core/tools/work_project.py\<close>.  A tool gets the context of the running agent and a validated
  request; its result is a JSON payload or an error message.  \<open>show_time\<close> prints an instant, \<open>like\<close> is the
  case-insensitive match of the database, \<open>alloc\<close> the identifier of a new row.
\<close>

section \<open>Payloads\<close>

datatype payload =
    P_None
  | P_Bool bool
  | P_Int int
  | P_Num rat
  | P_Str string
  | P_List "payload list"
  | P_Obj "(string \<times> payload) list"

text \<open>\<open>Tool_Raised\<close> is an exception that leaves the tool.\<close>

datatype tool_result = Tool_Success payload | Tool_Error string | Tool_Raised

record tool_context =
  tc_agent :: string
  tc_session :: string
  tc_project :: "int option"

definition agent_page_size :: int where
  "agent_page_size = 50"

definition agent_graph_items :: int where
  "agent_graph_items = 40"

definition max_tool_text :: nat where
  "max_tool_text = 500"

fun compact_value :: "payload \<Rightarrow> payload" where
  "compact_value (P_Str s) =
    (if max_tool_text < length s then P_Str ((rstrip_by py_space (take (max_tool_text - 3) s)) @ ''...'') else P_Str s)"
| "compact_value v = v"

definition pick_fields :: "(string \<times> payload) list \<Rightarrow> string list \<Rightarrow> (string \<times> payload) list" where
  "pick_fields item ks =
     List.map_filter (\<lambda>k. case map_of item k of
         None \<Rightarrow> None
       | Some v \<Rightarrow> if v \<in> {P_None, P_Str [], P_List []} then None else Some (k, compact_value v)) ks"

definition opt_int :: "int option \<Rightarrow> payload" where
  "opt_int x = (case x of None \<Rightarrow> P_None | Some n \<Rightarrow> P_Int n)"

definition opt_num :: "rat option \<Rightarrow> payload" where
  "opt_num x = (case x of None \<Rightarrow> P_None | Some n \<Rightarrow> P_Num n)"

definition strings :: "string list \<Rightarrow> payload" where
  "strings xs = P_List (map P_Str xs)"

fun origin_value :: "asset_origin \<Rightarrow> string" where
  "origin_value O_SCOPE = ''scope''"
| "origin_value O_DISCOVERED = ''discovered''"

fun edge_type_value :: "edge_type \<Rightarrow> string" where
  "edge_type_value E_RELATED = ''related''"
| "edge_type_value E_RESOLVES_TO = ''resolves_to''"
| "edge_type_value E_HOSTS = ''hosts''"
| "edge_type_value E_CONNECTS_TO = ''connects_to''"
| "edge_type_value E_TRUSTS = ''trusts''"
| "edge_type_value E_EXPLOITS = ''exploits''"
| "edge_type_value E_PIVOTS_TO = ''pivots_to''"
| "edge_type_value E_LEADS_TO = ''leads_to''"

fun path_status_value :: "path_status \<Rightarrow> string" where
  "path_status_value P_SUSPECTED = ''suspected''"
| "path_status_value P_VALIDATED = ''validated''"
| "path_status_value P_BLOCKED = ''blocked''"
| "path_status_value P_CLOSED = ''closed''"

fun finding_type_value :: "finding_type \<Rightarrow> string" where
  "finding_type_value F_GENERAL = ''general''"
| "finding_type_value F_CVE = ''cve''"

fun confidence_value :: "finding_confidence \<Rightarrow> string" where
  "confidence_value F_LOW = ''low''"
| "confidence_value F_MEDIUM = ''medium''"
| "confidence_value F_HIGH = ''high''"
| "confidence_value F_CONFIRMED = ''confirmed''"

fun project_status_value :: "project_status \<Rightarrow> string" where
  "project_status_value W_WORKING = ''working''"
| "project_status_value W_COMPLETED = ''completed''"
| "project_status_value W_CANCELED = ''canceled''"

fun project_type_value :: "project_type \<Rightarrow> string" where
  "project_type_value PENETRATION_TEST = ''penetration_test''"
| "project_type_value SOURCE_CODE_AUDIT = ''source_code_audit''"

fun task_state_value :: "project_task_status \<Rightarrow> string" where
  "task_state_value TODO = ''todo''"
| "task_state_value IN_PROGRESS = ''in_progress''"
| "task_state_value BLOCKED = ''blocked''"
| "task_state_value DONE_TASK = ''done''"

text \<open>Of the dump of a row, the fields the compact forms read.\<close>

definition compact_asset :: "asset \<Rightarrow> payload" where
  "compact_asset a =
    (let picked = pick_fields
       [(''id'', P_Int (as_id a)), (''type'', P_Str (asset_type_value (as_type a))),
        (''origin'', P_Str (origin_value (as_origin a))), (''identifier'', P_Str (as_identifier a)),
        (''host'', P_Str (as_host a)), (''port'', opt_int (as_port a)), (''path'', P_Str (as_path a))]
       [''id'', ''type'', ''origin'', ''identifier'', ''host'', ''port'', ''path'']
     in P_Obj (if as_extra a \<noteq> [] then picked @ [(''banner'', compact_value (P_Str (as_extra a)))] else picked))"

definition compact_finding :: "(datetime \<Rightarrow> string) \<Rightarrow> finding \<Rightarrow> payload" where
  "compact_finding show_time f =
    (let b = fd_body f in
     P_Obj (pick_fields
       [(''id'', P_Int (fd_id f)), (''asset_id'', opt_int (fr_asset b)), (''edge_id'', opt_int (fr_edge b)),
        (''title'', P_Str (fr_title b)), (''finding_type'', P_Str (finding_type_value (fr_type b))),
        (''cve_id'', P_Str (fr_cve_id b)), (''severity'', P_Str (severity_value (fr_severity b))),
        (''status'', P_Str (finding_status_value (fr_status b))),
        (''confidence'', P_Str (confidence_value (fr_confidence b))), (''cvss_score'', opt_num (fr_cvss_score b)),
        (''known_exploited'', P_Bool (fr_known_exploited b)), (''epss_score'', opt_num (fr_epss_score b)),
        (''affected_version'', P_Str (fr_affected_version b)), (''description'', P_Str (fr_description b)),
        (''impact'', P_Str (fr_impact b)), (''evidence'', P_Str (fr_evidence b)),
        (''remediation'', P_Str (fr_remediation b)),
        (''validated_at'', case fd_validated_at f of None \<Rightarrow> P_None | Some t \<Rightarrow> P_Str (show_time t))]
       [''id'', ''asset_id'', ''edge_id'', ''title'', ''finding_type'', ''cve_id'', ''severity'', ''status'', ''confidence'',
        ''cvss_score'', ''known_exploited'', ''epss_score'', ''affected_version'', ''description'', ''impact'',
        ''evidence'', ''remediation'', ''validated_at'']))"

definition compact_edge :: "edge \<Rightarrow> payload" where
  "compact_edge e = P_Obj (pick_fields
     [(''id'', P_Int (ed_id e)), (''source_asset_id'', P_Int (ed_source e)), (''target_asset_id'', P_Int (ed_target e)),
      (''type'', P_Str (edge_type_value (ed_type e))), (''label'', P_Str (ed_label e))]
     [''id'', ''source_asset_id'', ''target_asset_id'', ''type'', ''label''])"

definition compact_attack_path :: "attack_path \<Rightarrow> payload" where
  "compact_attack_path p = P_Obj (pick_fields
     [(''id'', P_Int (pt_id p)), (''title'', P_Str (pt_title p)), (''status'', P_Str (path_status_value (pt_status p))),
      (''summary'', P_Str (pt_summary p))]
     [''id'', ''title'', ''status'', ''summary''])"

definition compact_attack_path_step :: "path_step \<Rightarrow> payload" where
  "compact_attack_path_step s = P_Obj (pick_fields
     [(''id'', P_Int (st_id s)), (''path_id'', P_Int (st_path s)), (''sequence'', P_Int (st_sequence s)),
      (''edge_id'', P_Int (st_edge s))]
     [''id'', ''path_id'', ''sequence'', ''edge_id''])"

definition agent_page :: "int \<Rightarrow> int" where
  "agent_page page = (if 0 < page then page else 1)"

definition page_slice :: "'a list \<Rightarrow> int \<Rightarrow> int \<Rightarrow> 'a list" where
  "page_slice items page limit = take (nat limit) (drop (nat ((page - 1) * limit)) items)"

definition metadata_payload :: "project \<Rightarrow> payload" where
  "metadata_payload p = P_Obj
     [(''project_id'', P_Int (pj_id p)), (''name'', P_Str (pj_name p)), (''description'', P_Str (pj_description p)),
      (''status'', P_Str (project_status_value (pj_status p))), (''type'', P_Str (project_type_value (pj_type p)))]"

definition task_payload :: "project_task \<Rightarrow> payload" where
  "task_payload t = P_Obj
     [(''id'', P_Str (wt_id t)), (''title'', P_Str (wt_title t)), (''status'', P_Str (task_state_value (wt_status t))),
      (''assignee'', P_Str (wt_assignee t)), (''progress'', P_Num (wt_progress t)), (''summary'', P_Str (wt_summary t))]"

definition tasks_payload :: "project \<Rightarrow> payload" where
  "tasks_payload p = P_Obj [(''project_id'', P_Int (pj_id p)), (''progress'', P_Num (pj_progress p)),
     (''tasks'', P_List (map task_payload (pj_tasks p)))]"

definition summary_payload :: "summary_content \<Rightarrow> payload" where
  "summary_payload c = P_Obj
     [(''task_id'', P_Str (sc_task_id c)), (''task_title'', P_Str (sc_task_title c)), (''progress'', P_Num (sc_progress c)),
      (''status'', P_Str (sc_status c)), (''findings'', strings (sc_findings c)), (''decisions'', strings (sc_decisions c)),
      (''blockers'', strings (sc_blockers c)), (''next_steps'', strings (sc_next_steps c)), (''notes'', P_Str (sc_notes c))]"

text \<open>The summaries are validated again when they are shown: an agent code of more than 32 characters
  raises.\<close>

definition agent_summaries_payload :: "(datetime \<Rightarrow> string) \<Rightarrow> project \<Rightarrow> tool_result" where
  "agent_summaries_payload show_time p =
    (if list_ex (\<lambda>(c, _). 32 < length (str_strip c) \<or> str_strip c = []) (pj_summaries p) then Tool_Raised
     else Tool_Success (P_Obj [(''project_id'', P_Int (pj_id p)),
       (''agent_summaries'', P_List (map (\<lambda>(c, s, t). P_Obj
          [(''agent_code'', P_Str (str_strip c)), (''summary'', summary_payload s), (''updated_at'', P_Str (show_time t))]) (pj_summaries p)))]))"

section \<open>Requests\<close>

definition two_decimal :: "rat \<Rightarrow> bool" where
  "two_decimal x \<longleftrightarrow> round2 x = x"

definition progress_ok :: "rat \<Rightarrow> bool" where
  "progress_ok x \<longleftrightarrow> 0 \<le> x \<and> x \<le> 100 \<and> two_decimal x"

definition validate_task :: "project_task \<Rightarrow> project_task option" where
  "validate_task raw =
    (let t = raw\<lparr>wt_id := str_strip (wt_id raw), wt_title := str_strip (wt_title raw),
                 wt_assignee := str_strip (wt_assignee raw), wt_summary := str_strip (wt_summary raw)\<rparr>
     in if wt_id t = [] \<or> 64 < length (wt_id t) \<or> wt_title t = [] \<or> 255 < length (wt_title t)
           \<or> 128 < length (wt_assignee t) \<or> 4000 < length (wt_summary t) \<or> \<not> progress_ok (wt_progress t) then None
        else Some t)"

definition normalize_items :: "string list \<Rightarrow> string list" where
  "normalize_items vs = filter (\<lambda>v. v \<noteq> []) (map str_strip vs)"

definition validate_summary :: "summary_content \<Rightarrow> summary_content option" where
  "validate_summary raw =
    (let c = raw\<lparr>sc_task_id := str_strip (sc_task_id raw), sc_task_title := str_strip (sc_task_title raw),
                 sc_status := str_strip (sc_status raw), sc_notes := str_strip (sc_notes raw)\<rparr>
     in if 64 < length (sc_task_id c) \<or> 255 < length (sc_task_title c) \<or> \<not> progress_ok (sc_progress c)
           \<or> 2000 < length (sc_status c) \<or> 64 < length (sc_findings c) \<or> 64 < length (sc_decisions c)
           \<or> 64 < length (sc_blockers c) \<or> 64 < length (sc_next_steps c) \<or> 4000 < length (sc_notes c) then None
        else Some (c\<lparr>sc_findings := normalize_items (sc_findings c), sc_decisions := normalize_items (sc_decisions c),
                     sc_blockers := normalize_items (sc_blockers c), sc_next_steps := normalize_items (sc_next_steps c)\<rparr>))"

section \<open>The project row\<close>

definition no_project :: string where
  "no_project = ''No WorkProject is bound to this session.''"

definition current_project :: "tool_context \<Rightarrow> app_db \<Rightarrow> project option" where
  "current_project ctx db = (case tc_project ctx of None \<Rightarrow> None | Some k \<Rightarrow> get_project k db)"

definition load_work_project_metadata :: "tool_context \<Rightarrow> app_db \<Rightarrow> tool_result" where
  "load_work_project_metadata ctx db =
    (case current_project ctx db of None \<Rightarrow> Tool_Error no_project | Some p \<Rightarrow> Tool_Success (metadata_payload p))"

definition load_work_project_tasks :: "tool_context \<Rightarrow> app_db \<Rightarrow> tool_result" where
  "load_work_project_tasks ctx db =
    (case current_project ctx db of None \<Rightarrow> Tool_Error no_project | Some p \<Rightarrow> Tool_Success (tasks_payload p))"

definition load_work_project_agent_summaries :: "(datetime \<Rightarrow> string) \<Rightarrow> tool_context \<Rightarrow> app_db \<Rightarrow> tool_result" where
  "load_work_project_agent_summaries show_time ctx db =
    (case current_project ctx db of None \<Rightarrow> Tool_Error no_project | Some p \<Rightarrow> agent_summaries_payload show_time p)"

definition recalculate_project_progress :: "project \<Rightarrow> project" where
  "recalculate_project_progress p =
     p\<lparr>pj_progress := calculate_work_project_progress (pj_tasks p),
       pj_status := derive_work_project_status (pj_tasks p) (pj_status p)\<rparr>"

definition summary_matches :: "string \<Rightarrow> string \<Rightarrow> project_task \<Rightarrow> bool" where
  "summary_matches task_id task_title t \<longleftrightarrow> wt_id t = task_id \<or> (task_id = [] \<and> wt_title t = task_title)"

definition sync_summary_progress_to_task :: "summary_content \<Rightarrow> project \<Rightarrow> project" where
  "sync_summary_progress_to_task c p =
    (let task_id = str_strip (sc_task_id c); task_title = str_strip (sc_task_title c);
         hit = summary_matches task_id task_title
     in if task_id = [] \<and> task_title = [] then p
        else if \<not> list_ex hit (pj_tasks p) then p
        else recalculate_project_progress
               (p\<lparr>pj_tasks := map (\<lambda>t. if hit t then t\<lparr>wt_progress := sc_progress c\<rparr> else t) (pj_tasks p)\<rparr>))"

definition update_work_project_agent_summary ::
  "(datetime \<Rightarrow> string) \<Rightarrow> tool_context \<Rightarrow> summary_content \<Rightarrow> datetime \<Rightarrow> app_db \<Rightarrow> tool_result \<times> app_db" where
  "update_work_project_agent_summary show_time ctx c now db =
    (let agent = str_strip (tc_agent ctx) in
     if agent = [] then (Tool_Error ''Agent code is required.'', db)
     else case tc_project ctx of
         None \<Rightarrow> (Tool_Error no_project, db)
       | Some k \<Rightarrow>
           (case get_project k db of
              None \<Rightarrow> (Tool_Error ''WorkProject not found.'', db)
            | Some p \<Rightarrow>
                let p' = sync_summary_progress_to_task c
                           (p\<lparr>pj_summaries := AList.update agent (c, now) (pj_summaries p), pj_updated_at := now\<rparr>)
                in (agent_summaries_payload show_time p', put_project p' db)))"

definition update_work_project_tasks ::
  "tool_context \<Rightarrow> project_task list \<Rightarrow> datetime \<Rightarrow> app_db \<Rightarrow> tool_result \<times> app_db" where
  "update_work_project_tasks ctx tasks now db =
    (if tc_agent ctx \<noteq> default_agent_code
     then (Tool_Error ''Only the cso agent can update the shared WorkProject task list.'', db)
     else case tc_project ctx of
         None \<Rightarrow> (Tool_Error no_project, db)
       | Some k \<Rightarrow>
           (case get_project k db of
              None \<Rightarrow> (Tool_Error ''WorkProject not found.'', db)
            | Some p \<Rightarrow>
                let p' = (recalculate_project_progress (p\<lparr>pj_tasks := tasks\<rparr>))\<lparr>pj_updated_at := now\<rparr>
                in (Tool_Success (tasks_payload p'), put_project p' db)))"

section \<open>Records\<close>

definition page_payload :: "string \<Rightarrow> ('a \<Rightarrow> payload) \<Rightarrow> 'a page \<Rightarrow> payload" where
  "page_payload name f p = P_Obj [(''page'', P_Int (pg_page p)), (''size'', P_Int (pg_size p)),
     (''total'', P_Int (int (pg_total p))), (name, P_List (map f (pg_items p)))]"

definition saved_result ::
  "string \<Rightarrow> ('a \<Rightarrow> payload) \<Rightarrow> app_db \<Rightarrow> (graph_error + 'a) \<times> graph_db \<Rightarrow> tool_result \<times> app_db" where
  "saved_result name f db r =
    (case r of (saved, g) \<Rightarrow>
       ((case saved of
           Inl (Refused e) \<Rightarrow> Tool_Error e
         | Inl Integrity_error \<Rightarrow> Tool_Raised
         | Inr row \<Rightarrow> Tool_Success (P_Obj [(name, f row)])), db\<lparr>ad_graph := g\<rparr>))"

definition list_work_project_assets ::
  "(string \<Rightarrow> string \<Rightarrow> bool) \<Rightarrow> tool_context \<Rightarrow> string \<Rightarrow> int \<Rightarrow> app_db \<Rightarrow> tool_result" where
  "list_work_project_assets like ctx keyword page db =
    (case tc_project ctx of
       None \<Rightarrow> Tool_Error no_project
     | Some k \<Rightarrow> Tool_Success (page_payload ''assets'' compact_asset
         (query_assets like k (agent_page page) agent_page_size keyword (ad_graph db))))"

definition create_or_update_work_project_asset ::
  "(int list \<Rightarrow> int) \<Rightarrow> tool_context \<Rightarrow> int option \<Rightarrow> asset_request \<Rightarrow> datetime \<Rightarrow> app_db \<Rightarrow> tool_result \<times> app_db" where
  "create_or_update_work_project_asset alloc ctx asset_id r now db =
    (case tc_project ctx of
       None \<Rightarrow> (Tool_Error no_project, db)
     | Some k \<Rightarrow> saved_result ''asset'' compact_asset db
         (case asset_id of
            None \<Rightarrow> upsert_asset (alloc (map as_id (gd_assets (ad_graph db)))) k r (tc_agent ctx) (tc_session ctx) now (ad_graph db)
          | Some a \<Rightarrow> update_asset k a r now (ad_graph db)))"

definition list_work_project_findings ::
  "(datetime \<Rightarrow> string) \<Rightarrow> (string \<Rightarrow> string \<Rightarrow> bool) \<Rightarrow> tool_context \<Rightarrow> string \<Rightarrow> int \<Rightarrow> app_db \<Rightarrow> tool_result" where
  "list_work_project_findings show_time like ctx keyword page db =
    (case tc_project ctx of
       None \<Rightarrow> Tool_Error no_project
     | Some k \<Rightarrow> Tool_Success (page_payload ''findings'' (compact_finding show_time)
         (query_findings like k (agent_page page) agent_page_size keyword (ad_graph db))))"

definition create_or_update_work_project_finding ::
  "(int list \<Rightarrow> int) \<Rightarrow> (datetime \<Rightarrow> string) \<Rightarrow> tool_context \<Rightarrow> int option \<Rightarrow> finding_request \<Rightarrow> datetime \<Rightarrow> app_db
     \<Rightarrow> tool_result \<times> app_db" where
  "create_or_update_work_project_finding alloc show_time ctx finding_id r now db =
    (case tc_project ctx of
       None \<Rightarrow> (Tool_Error no_project, db)
     | Some k \<Rightarrow> saved_result ''finding'' (compact_finding show_time) db
         (case finding_id of
            None \<Rightarrow> create_finding (alloc (map fd_id (gd_findings (ad_graph db)))) k r (tc_agent ctx) (tc_session ctx) now (ad_graph db)
          | Some f \<Rightarrow> update_finding k f r now (ad_graph db)))"

definition load_work_project_graph :: "tool_context \<Rightarrow> int \<Rightarrow> app_db \<Rightarrow> tool_result" where
  "load_work_project_graph ctx page db =
    (case tc_project ctx of
       None \<Rightarrow> Tool_Error no_project
     | Some k \<Rightarrow>
         let s = get_graph_snapshot k (ad_graph db); page = agent_page page;
             counted = (\<lambda>n. P_Int (int n)) in
         Tool_Success (P_Obj
           [(''counts'', P_Obj [(''edges'', counted (length (gs_edges s))), (''attack_paths'', counted (length (gs_paths s))),
              (''attack_path_steps'', counted (length (gs_steps s)))]),
            (''page'', P_Int page), (''size'', P_Int agent_graph_items),
            (''edges'', P_List (map compact_edge (page_slice (gs_edges s) page agent_graph_items))),
            (''attack_paths'', P_List (map compact_attack_path (page_slice (gs_paths s) page agent_graph_items))),
            (''attack_path_steps'', P_List (map compact_attack_path_step (page_slice (gs_steps s) page agent_graph_items)))]))"

definition create_or_update_work_project_graph_edge ::
  "(int list \<Rightarrow> int) \<Rightarrow> tool_context \<Rightarrow> int option \<Rightarrow> edge_request \<Rightarrow> datetime \<Rightarrow> app_db \<Rightarrow> tool_result \<times> app_db" where
  "create_or_update_work_project_graph_edge alloc ctx edge_id r now db =
    (case tc_project ctx of
       None \<Rightarrow> (Tool_Error no_project, db)
     | Some k \<Rightarrow> saved_result ''edge'' compact_edge db
         (case edge_id of
            None \<Rightarrow> upsert_edge (alloc (map ed_id (gd_edges (ad_graph db)))) k r (tc_agent ctx) (tc_session ctx) now (ad_graph db)
          | Some e \<Rightarrow> update_edge k e r now (ad_graph db)))"

definition create_or_update_work_project_attack_path ::
  "(int list \<Rightarrow> int) \<Rightarrow> tool_context \<Rightarrow> int option \<Rightarrow> path_request \<Rightarrow> datetime \<Rightarrow> app_db \<Rightarrow> tool_result \<times> app_db" where
  "create_or_update_work_project_attack_path alloc ctx path_id r now db =
    (case tc_project ctx of
       None \<Rightarrow> (Tool_Error no_project, db)
     | Some k \<Rightarrow> saved_result ''attack_path'' compact_attack_path db
         (case path_id of
            None \<Rightarrow> create_attack_path (alloc (map pt_id (gd_paths (ad_graph db)))) k r (tc_agent ctx) (tc_session ctx) now (ad_graph db)
          | Some p \<Rightarrow> update_attack_path k p r now (ad_graph db)))"

definition create_or_update_work_project_attack_path_step ::
  "(int list \<Rightarrow> int) \<Rightarrow> tool_context \<Rightarrow> int \<Rightarrow> int option \<Rightarrow> step_request \<Rightarrow> datetime \<Rightarrow> app_db \<Rightarrow> tool_result \<times> app_db" where
  "create_or_update_work_project_attack_path_step alloc ctx path_id step_id r now db =
    (case tc_project ctx of
       None \<Rightarrow> (Tool_Error no_project, db)
     | Some k \<Rightarrow> saved_result ''attack_path_step'' compact_attack_path_step db
         (case step_id of
            None \<Rightarrow> create_step (alloc (map st_id (gd_steps (ad_graph db)))) k path_id r (tc_agent ctx) (tc_session ctx) now (ad_graph db)
          | Some s \<Rightarrow> update_step k path_id s r now (ad_graph db)))"

datatype record_type = R_ASSET | R_FINDING | R_GRAPH_EDGE | R_ATTACK_PATH | R_ATTACK_PATH_STEP

fun record_type_value :: "record_type \<Rightarrow> string" where
  "record_type_value R_ASSET = ''asset''"
| "record_type_value R_FINDING = ''finding''"
| "record_type_value R_GRAPH_EDGE = ''graph_edge''"
| "record_type_value R_ATTACK_PATH = ''attack_path''"
| "record_type_value R_ATTACK_PATH_STEP = ''attack_path_step''"

definition delete_work_project_record ::
  "tool_context \<Rightarrow> record_type \<Rightarrow> int \<Rightarrow> int option \<Rightarrow> app_db \<Rightarrow> tool_result \<times> app_db" where
  "delete_work_project_record ctx ty record_id path_id db =
    (case tc_project ctx of
       None \<Rightarrow> (Tool_Error no_project, db)
     | Some k \<Rightarrow>
         if ty = R_ATTACK_PATH_STEP \<and> path_id = None
         then (Tool_Error ''path_id is required to delete an attack path step.'', db)
         else
           let g = ad_graph db;
               (err, g') = (case ty of
                   R_ASSET \<Rightarrow> delete_asset k record_id g
                 | R_FINDING \<Rightarrow> delete_finding k record_id g
                 | R_GRAPH_EDGE \<Rightarrow> delete_edge k record_id g
                 | R_ATTACK_PATH \<Rightarrow> delete_attack_path k record_id g
                 | R_ATTACK_PATH_STEP \<Rightarrow> delete_step k (the path_id) record_id g)
           in (if err \<noteq> [] then Tool_Error err
               else Tool_Success (P_Obj [(''deleted'', P_Obj [(''type'', P_Str (record_type_value ty)), (''id'', P_Int record_id)])]),
               db\<lparr>ad_graph := g'\<rparr>))"

section \<open>Tool calls\<close>

datatype tool_call =
    LoadMetadata
  | LoadTasks
  | LoadSummaries
  | UpdateSummary summary_content
  | UpdateTasks "project_task list"
  | ListAssets string int
  | SaveAsset "int option" asset_request
  | ListFindings string int
  | SaveFinding "int option" finding_request
  | LoadGraph int
  | SaveEdge "int option" edge_request
  | SavePath "int option" path_request
  | SaveStep int "int option" step_request
  | DeleteRecord record_type int "int option"

text \<open>The outside of the tools: \<^verbatim>\<open>ipaddress\<close>, the database and the printing of instants.\<close>

record tool_env =
  te_canon :: "string \<Rightarrow> string option"
  te_alloc :: "int list \<Rightarrow> int"
  te_like :: "string \<Rightarrow> string \<Rightarrow> bool"
  te_time :: "datetime \<Rightarrow> string"

definition on_valid_args :: "'r option \<Rightarrow> ('r \<Rightarrow> tool_result \<times> app_db) \<Rightarrow> app_db \<Rightarrow> tool_result \<times> app_db" where
  "on_valid_args v f db = (case v of None \<Rightarrow> (Tool_Raised, db) | Some r \<Rightarrow> f r)"

definition right_of :: "'e + 'r \<Rightarrow> 'r option" where
  "right_of v = (case v of Inl _ \<Rightarrow> None | Inr r \<Rightarrow> Some r)"

text \<open>The arguments of a call are validated against its schema before the tool runs.\<close>

fun run_tool :: "tool_env \<Rightarrow> tool_context \<Rightarrow> datetime \<Rightarrow> tool_call \<Rightarrow> app_db \<Rightarrow> tool_result \<times> app_db" where
  "run_tool env ctx now LoadMetadata db = (load_work_project_metadata ctx db, db)"
| "run_tool env ctx now LoadTasks db = (load_work_project_tasks ctx db, db)"
| "run_tool env ctx now LoadSummaries db = (load_work_project_agent_summaries (te_time env) ctx db, db)"
| "run_tool env ctx now (UpdateSummary c) db =
    on_valid_args (validate_summary c) (\<lambda>c. update_work_project_agent_summary (te_time env) ctx c now db) db"
| "run_tool env ctx now (UpdateTasks ts) db =
    on_valid_args (those (map validate_task ts)) (\<lambda>ts. update_work_project_tasks ctx ts now db) db"
| "run_tool env ctx now (ListAssets q page) db = (list_work_project_assets (te_like env) ctx q page db, db)"
| "run_tool env ctx now (SaveAsset k r) db =
    on_valid_args (right_of (validate_asset_request (te_canon env) r))
      (\<lambda>r. create_or_update_work_project_asset (te_alloc env) ctx k r now db) db"
| "run_tool env ctx now (ListFindings q page) db = (list_work_project_findings (te_time env) (te_like env) ctx q page db, db)"
| "run_tool env ctx now (SaveFinding k r) db =
    on_valid_args (validate_finding_request r)
      (\<lambda>r. create_or_update_work_project_finding (te_alloc env) (te_time env) ctx k r now db) db"
| "run_tool env ctx now (LoadGraph page) db = (load_work_project_graph ctx page db, db)"
| "run_tool env ctx now (SaveEdge k r) db =
    on_valid_args (right_of (validate_edge_request r))
      (\<lambda>r. create_or_update_work_project_graph_edge (te_alloc env) ctx k r now db) db"
| "run_tool env ctx now (SavePath k r) db =
    on_valid_args (right_of (validate_path_request r))
      (\<lambda>r. create_or_update_work_project_attack_path (te_alloc env) ctx k r now db) db"
| "run_tool env ctx now (SaveStep q k r) db =
    on_valid_args (right_of (validate_step_request r))
      (\<lambda>r. create_or_update_work_project_attack_path_step (te_alloc env) ctx q k r now db) db"
| "run_tool env ctx now (DeleteRecord ty k q) db = delete_work_project_record ctx ty k q db"

end
