(* ===== verification/Tool_Scope.thy ===== *)
theory Tool_Scope
  imports Work_Tools Project_Rows
begin

text \<open>
  The tools of an agent stay inside the project of its session: lemmas on what every operation leaves
  alone in the tables of the other projects, and the bounds of what a tool shows.
\<close>

section \<open>Rows of other projects\<close>

record elsewhere =
  el_assets :: "asset list"
  el_edges :: "edge list"
  el_paths :: "attack_path list"
  el_steps :: "path_step list"
  el_findings :: "finding list"
  el_projects :: "int list"

definition rows_elsewhere :: "int \<Rightarrow> graph_db \<Rightarrow> elsewhere" where
  "rows_elsewhere k g =
     \<lparr>el_assets = filter (\<lambda>a. as_project a \<noteq> k) (gd_assets g), el_edges = filter (\<lambda>e. ed_project e \<noteq> k) (gd_edges g),
      el_paths = filter (\<lambda>p. pt_project p \<noteq> k) (gd_paths g), el_steps = filter (\<lambda>s. st_project s \<noteq> k) (gd_steps g),
      el_findings = filter (\<lambda>f. fd_project f \<noteq> k) (gd_findings g), el_projects = gd_projects g\<rparr>"

named_theorems same_elsewhere \<open>operations that keep the rows of the other projects\<close>

lemma filter_put_same:
  "distinct (map rid xs) \<Longrightarrow> b \<in> set xs \<Longrightarrow> rid b = rid a \<Longrightarrow> \<not> q b \<Longrightarrow> \<not> q a \<Longrightarrow> filter q (put_row rid a xs) = filter q xs"
proof -
  assume d: "distinct (map rid xs)" and b: "b \<in> set xs" "rid b = rid a" "\<not> q b" "\<not> q a"
  have "\<not> q c" if "c \<in> set xs" "rid c = rid a" for c
  proof -
    have "c = b" using d b(1,2) that by (simp add: distinct_map inj_on_def)
    with b(3) show ?thesis by simp
  qed
  with b(4) show ?thesis unfolding put_row_def by (induction xs) auto
qed

lemma filter_update_same: "(\<And>r. r \<in> set xs \<Longrightarrow> p r \<Longrightarrow> \<not> q r \<and> \<not> q (f r)) \<Longrightarrow> filter q (update_rows p f xs) = filter q xs"
  by (induction xs) auto

lemma filter_filter_same: "(\<And>r. r \<in> set xs \<Longrightarrow> q r \<Longrightarrow> p r) \<Longrightarrow> filter q (filter p xs) = filter q xs"
  by (induction xs) auto

lemma ids_distinct:
  assumes "graph_ok g"
  shows "distinct (map as_id (gd_assets g))" "distinct (map ed_id (gd_edges g))" "distinct (map pt_id (gd_paths g))"
    "distinct (map st_id (gd_steps g))" "distinct (map fd_id (gd_findings g))"
  using graph_okD(1-5)[OF assms] by (simp_all add: table_ok_def)

lemma insert_elsewhere [same_elsewhere]:
  "insert_asset a g = Some g' \<Longrightarrow> as_project a = k \<Longrightarrow> rows_elsewhere k g' = rows_elsewhere k g"
  "insert_edge e g = Some g' \<Longrightarrow> ed_project e = k \<Longrightarrow> rows_elsewhere k g' = rows_elsewhere k g"
  "insert_path p g = Some g' \<Longrightarrow> pt_project p = k \<Longrightarrow> rows_elsewhere k g' = rows_elsewhere k g"
  "insert_step s g = Some g' \<Longrightarrow> st_project s = k \<Longrightarrow> rows_elsewhere k g' = rows_elsewhere k g"
  "insert_finding f g = Some g' \<Longrightarrow> fd_project f = k \<Longrightarrow> rows_elsewhere k g' = rows_elsewhere k g"
  by (auto simp: insert_asset_def insert_edge_def insert_path_def insert_step_def insert_finding_def rows_elsewhere_def
      split: if_splits)

lemma put_elsewhere [same_elsewhere]:
  assumes "graph_ok g"
  shows "put_asset a g = Some g' \<Longrightarrow> b \<in> set (gd_assets g) \<Longrightarrow> as_id b = as_id a \<Longrightarrow> as_project b = k \<Longrightarrow> as_project a = k
      \<Longrightarrow> rows_elsewhere k g' = rows_elsewhere k g"
    and "put_edge e g = Some g' \<Longrightarrow> d \<in> set (gd_edges g) \<Longrightarrow> ed_id d = ed_id e \<Longrightarrow> ed_project d = k \<Longrightarrow> ed_project e = k
      \<Longrightarrow> rows_elsewhere k g' = rows_elsewhere k g"
    and "put_path p g = Some g' \<Longrightarrow> q \<in> set (gd_paths g) \<Longrightarrow> pt_id q = pt_id p \<Longrightarrow> pt_project q = k \<Longrightarrow> pt_project p = k
      \<Longrightarrow> rows_elsewhere k g' = rows_elsewhere k g"
    and "put_step s g = Some g' \<Longrightarrow> t \<in> set (gd_steps g) \<Longrightarrow> st_id t = st_id s \<Longrightarrow> st_project t = k \<Longrightarrow> st_project s = k
      \<Longrightarrow> rows_elsewhere k g' = rows_elsewhere k g"
    and "put_finding f g = Some g' \<Longrightarrow> h \<in> set (gd_findings g) \<Longrightarrow> fd_id h = fd_id f \<Longrightarrow> fd_project h = k \<Longrightarrow> fd_project f = k
      \<Longrightarrow> rows_elsewhere k g' = rows_elsewhere k g"
  using ids_distinct[OF assms]
  by (auto simp: put_asset_def put_edge_def put_path_def put_step_def put_finding_def rows_elsewhere_def filter_put_same
      split: if_splits)

lemma edge_project_unique:
  assumes "graph_ok g" and "e \<in> set (gd_edges g)" and "edge_in g p (ed_id e)"
  shows "ed_project e = p"
proof -
  from assms(3) obtain d where "d \<in> set (gd_edges g)" "ed_id d = ed_id e" "ed_project d = p" by (auto simp: edge_in_def)
  with assms(2) ids_distinct(2)[OF assms(1)] show ?thesis by (metis distinct_map inj_onD)
qed

lemma asset_project_unique:
  assumes "graph_ok g" and "a \<in> set (gd_assets g)" and "asset_in g p (as_id a)"
  shows "as_project a = p"
proof -
  from assms(3) obtain d where "d \<in> set (gd_assets g)" "as_id d = as_id a" "as_project d = p" by (auto simp: asset_in_def)
  with assms(2) ids_distinct(1)[OF assms(1)] show ?thesis by (metis distinct_map inj_onD)
qed

lemma path_project_unique:
  assumes "graph_ok g" and "a \<in> set (gd_paths g)" and "path_in g p (pt_id a)"
  shows "pt_project a = p"
proof -
  from assms(3) obtain d where "d \<in> set (gd_paths g)" "pt_id d = pt_id a" "pt_project d = p" by (auto simp: path_in_def)
  with assms(2) ids_distinct(3)[OF assms(1)] show ?thesis by (metis distinct_map inj_onD)
qed

lemma delete_edge_rows_elsewhere [same_elsewhere]:
  assumes ok: "graph_ok g" and p: "\<And>e. e \<in> set (gd_edges g) \<Longrightarrow> p e \<Longrightarrow> ed_project e = k"
  shows "rows_elsewhere k (delete_edge_rows p g) = rows_elsewhere k g"
proof -
  let ?gone = "set (map ed_id (filter p (gd_edges g)))"
  have step: "st_project s = k" if "s \<in> set (gd_steps g)" "st_edge s \<in> ?gone" for s
  proof -
    from that(2) obtain e where e: "e \<in> set (gd_edges g)" "p e" "ed_id e = st_edge s" by auto
    have "edge_in g (st_project s) (ed_id e)" using graph_okD(9)[OF ok that(1)] e(3) by (simp add: step_ok_def)
    from edge_project_unique[OF ok e(1) this] p[OF e(1,2)] show ?thesis by simp
  qed
  have find: "fd_project f = k" if "f \<in> set (gd_findings g)" "fr_edge (fd_body f) \<in> Some ` ?gone" for f
  proof -
    from that(2) obtain e where e: "e \<in> set (gd_edges g)" "p e" "fr_edge (fd_body f) = Some (ed_id e)" by auto
    have "edge_in g (fd_project f) (ed_id e)" using graph_okD(10)[OF ok that(1)] e(3) by (simp add: finding_ok_def opt_ref_def)
    from edge_project_unique[OF ok e(1) this] p[OF e(1,2)] show ?thesis by simp
  qed
  have edges: "ed_project e = k" if "e \<in> set (gd_edges g)" "ed_id e \<in> ?gone" for e
  proof -
    from that(2) obtain d where d: "d \<in> set (gd_edges g)" "p d" "ed_id d = ed_id e" by auto
    then have "d = e" using that(1) ids_distinct(2)[OF ok] by (simp add: distinct_map inj_on_def)
    with p[OF d(1,2)] show ?thesis by simp
  qed
  have "filter (\<lambda>f. fd_project f \<noteq> k) (update_rows (\<lambda>f. fr_edge (fd_body f) \<in> Some ` ?gone) unlink_edge (gd_findings g))
      = filter (\<lambda>f. fd_project f \<noteq> k) (gd_findings g)"
    by (rule filter_update_same) (use find in \<open>simp add: unlink_edge_def\<close>)
  moreover have "filter (\<lambda>s. st_project s \<noteq> k) (filter (\<lambda>s. st_edge s \<notin> ?gone) (gd_steps g)) = filter (\<lambda>s. st_project s \<noteq> k) (gd_steps g)"
    by (rule filter_filter_same) (use step in blast)
  moreover have "filter (\<lambda>e. ed_project e \<noteq> k) (filter (\<lambda>e. ed_id e \<notin> ?gone) (gd_edges g)) = filter (\<lambda>e. ed_project e \<noteq> k) (gd_edges g)"
    by (rule filter_filter_same) (use edges in blast)
  ultimately show ?thesis by (simp add: rows_elsewhere_def delete_edge_rows_def Let_def del: filter_filter)
qed

lemma delete_asset_row_elsewhere [same_elsewhere]:
  assumes ok: "graph_ok g" and a: "a \<in> set (gd_assets g)" "as_project a = k"
  shows "rows_elsewhere k (delete_asset_row (as_id a) g) = rows_elsewhere k g"
proof -
  let ?p = "\<lambda>e. ed_source e = as_id a \<or> ed_target e = as_id a"
  define h where "h = delete_edge_rows ?p g"
  have ok': "graph_ok h" unfolding h_def by (rule delete_edge_rows_ok[OF ok])
  have same: "gd_assets h = gd_assets g" by (simp add: h_def delete_edge_rows_def Let_def)
  have "ed_project e = k" if "e \<in> set (gd_edges g)" "?p e" for e
  proof -
    have "asset_in g (ed_project e) (as_id a)" using graph_okD(7)[OF ok that(1)] that(2) by (auto simp: edge_ok_def)
    from asset_project_unique[OF ok a(1) this] a(2) show ?thesis by simp
  qed
  then have h: "rows_elsewhere k h = rows_elsewhere k g"
    unfolding h_def by (intro delete_edge_rows_elsewhere[OF ok]) auto
  have f: "fd_project f = k" if "f \<in> set (gd_findings h)" "fr_asset (fd_body f) = Some (as_id a)" for f
  proof -
    have "asset_in h (fd_project f) (as_id a)" using graph_okD(10)[OF ok' that(1)] that(2) by (simp add: finding_ok_def opt_ref_def)
    from asset_project_unique[OF ok' _ this] a same show ?thesis by simp
  qed
  have assets: "as_project b = k" if "b \<in> set (gd_assets g)" "as_id b = as_id a" for b
  proof -
    have "b = a" using that a(1) ids_distinct(1)[OF ok] by (simp add: distinct_map inj_on_def)
    with a(2) show ?thesis by simp
  qed
  have "filter (\<lambda>f. fd_project f \<noteq> k) (update_rows (\<lambda>f. fr_asset (fd_body f) = Some (as_id a)) unlink_asset (gd_findings h))
      = filter (\<lambda>f. fd_project f \<noteq> k) (gd_findings h)"
    by (rule filter_update_same) (use f in \<open>simp add: unlink_asset_def\<close>)
  moreover have "filter (\<lambda>b. as_project b \<noteq> k) (filter (\<lambda>b. as_id b \<noteq> as_id a) (gd_assets g)) = filter (\<lambda>b. as_project b \<noteq> k) (gd_assets g)"
    by (rule filter_filter_same) (use assets in blast)
  ultimately have "rows_elsewhere k (delete_asset_row (as_id a) g) = rows_elsewhere k h"
    unfolding delete_asset_row_def h_def[symmetric] Let_def by (simp add: rows_elsewhere_def same del: filter_filter)
  with h show ?thesis by simp
qed

lemma delete_path_row_elsewhere [same_elsewhere]:
  assumes ok: "graph_ok g" and p: "p \<in> set (gd_paths g)" "pt_project p = k"
  shows "rows_elsewhere k (delete_path_row (pt_id p) g) = rows_elsewhere k g"
proof -
  have paths: "pt_project q = k" if "q \<in> set (gd_paths g)" "pt_id q = pt_id p" for q
  proof -
    have "q = p" using that p(1) ids_distinct(3)[OF ok] by (simp add: distinct_map inj_on_def)
    with p(2) show ?thesis by simp
  qed
  have steps: "st_project s = k" if "s \<in> set (gd_steps g)" "st_path s = pt_id p" for s
  proof -
    have "path_in g (st_project s) (pt_id p)" using graph_okD(9)[OF ok that(1)] that(2) by (simp add: step_ok_def)
    from path_project_unique[OF ok p(1) this] p(2) show ?thesis by simp
  qed
  have "filter (\<lambda>q. pt_project q \<noteq> k) (filter (\<lambda>q. pt_id q \<noteq> pt_id p) (gd_paths g)) = filter (\<lambda>q. pt_project q \<noteq> k) (gd_paths g)"
    by (rule filter_filter_same) (use paths in blast)
  moreover have "filter (\<lambda>s. st_project s \<noteq> k) (filter (\<lambda>s. st_path s \<noteq> pt_id p) (gd_steps g)) = filter (\<lambda>s. st_project s \<noteq> k) (gd_steps g)"
    by (rule filter_filter_same) (use steps in blast)
  ultimately show ?thesis by (simp add: rows_elsewhere_def delete_path_row_def del: filter_filter)
qed

subsection \<open>Operations\<close>

lemma asset_ops_elsewhere [same_elsewhere]:
  assumes ok: "graph_ok g"
  shows "rows_elsewhere k (snd (create_asset i k r org agent sess now g)) = rows_elsewhere k g"
    and "rows_elsewhere k (snd (update_asset k i r now g)) = rows_elsewhere k g"
    and "rows_elsewhere k (snd (upsert_asset i k r agent sess now g)) = rows_elsewhere k g"
    and "rows_elsewhere k (snd (delete_asset k i g)) = rows_elsewhere k g"
proof -
  show create: "rows_elsewhere k (snd (create_asset i k r org agent sess now g)) = rows_elsewhere k g" for i r org agent sess now
    by (auto simp: create_asset_def Let_def apply_asset_request_def blank_asset_def split: option.split
        intro!: insert_elsewhere(1))
  have update: "rows_elsewhere k (snd (update_asset k i r now g)) = rows_elsewhere k g" if "graph_ok g" for i r now g
  proof (cases "get_row as_id i (gd_assets g)")
    case (Some a)
    then have a: "a \<in> set (gd_assets g)" "as_id a = i" using get_rowD[OF Some] by auto
    show ?thesis
    proof (cases "as_project a = k")
      case True
      have "rows_elsewhere k g' = rows_elsewhere k g"
        if "put_asset (keep_extra r a (apply_asset_request r now a)) g = Some g'" for g'
        by (rule put_elsewhere(1)[OF \<open>graph_ok g\<close> that a(1)]) (use True in \<open>simp_all add: keep_extra_def apply_asset_request_def\<close>)
      with Some show ?thesis by (auto simp: update_asset_def Let_def split: option.split)
    qed (simp add: update_asset_def Some)
  qed (simp add: update_asset_def)
  then show "rows_elsewhere k (snd (update_asset k i r now g)) = rows_elsewhere k g" using ok by blast
  have created: "graph_ok (snd (create_asset i k r org agent sess now g))" for i r org agent sess now
    by (rule create_asset_ok[OF ok])
  show "rows_elsewhere k (snd (upsert_asset i k r agent sess now g)) = rows_elsewhere k g"
  proof (cases "create_asset i k r O_DISCOVERED agent sess now g")
    case (Pair saved g1)
    have "graph_ok g1" "rows_elsewhere k g1 = rows_elsewhere k g"
      using created[of i r O_DISCOVERED agent sess now] create[of i r O_DISCOVERED agent sess now] by (simp_all add: Pair)
    with update[OF ok] update[of g1] show ?thesis by (simp add: upsert_asset_def Pair split: option.split)
  qed
  show "rows_elsewhere k (snd (delete_asset k i g)) = rows_elsewhere k g"
  proof (cases "get_row as_id i (gd_assets g)")
    case (Some a)
    then have a: "a \<in> set (gd_assets g)" "as_id a = i" using get_rowD[OF Some] by auto
    from purge_before_delete[OF ok a] delete_asset_row_elsewhere[OF ok a(1)] a Some
    show ?thesis by (auto simp: delete_asset_def Let_def)
  qed (simp add: delete_asset_def)
qed

lemma edge_ops_elsewhere [same_elsewhere]:
  assumes ok: "graph_ok g"
  shows "rows_elsewhere k (snd (upsert_edge i k r agent sess now g)) = rows_elsewhere k g"
    and "rows_elsewhere k (snd (update_edge k i r now g)) = rows_elsewhere k g"
    and "rows_elsewhere k (snd (delete_edge k i g)) = rows_elsewhere k g"
proof -
  have found: "e \<in> set (gd_edges g) \<and> ed_project e = k" if "get_edge_by_relation k r g = Some e" for e
    using find_SomeD[OF that[unfolded get_edge_by_relation_def]] by (simp add: edge_key_def)
  have relabel: "rows_elsewhere k (snd (relabel_edge k r now g)) = rows_elsewhere k g"
    using found by (auto simp: relabel_edge_def Let_def split: option.split intro!: put_elsewhere(2)[OF ok])
  show "rows_elsewhere k (snd (upsert_edge i k r agent sess now g)) = rows_elsewhere k g"
  proof (cases "get_edge_by_relation k r g")
    case None
    with relabel show ?thesis by (auto simp: upsert_edge_def Let_def split: option.split intro!: insert_elsewhere(2))
  next
    case (Some e)
    with found relabel show ?thesis
      by (auto simp: upsert_edge_def Let_def split: option.split intro!: put_elsewhere(2)[OF ok])
  qed
  show "rows_elsewhere k (snd (update_edge k i r now g)) = rows_elsewhere k g"
    by (auto simp: update_edge_def Let_def dest!: get_rowD split: option.split intro!: put_elsewhere(2)[OF ok])
  show "rows_elsewhere k (snd (delete_edge k i g)) = rows_elsewhere k g"
  proof (cases "get_row ed_id i (gd_edges g)")
    case (Some e)
    then have e: "e \<in> set (gd_edges g)" "ed_id e = i" using get_rowD[OF Some] by auto
    have same: "ed_project d = ed_project e" if "d \<in> set (gd_edges g)" "ed_id d = i" for d
      using that e ids_distinct(2)[OF ok] by (metis distinct_map inj_onD)
    have eq: "purge_edge i g = delete_edge_rows (\<lambda>d. ed_id d = i) g"
      by (rule purge_edge_delete) (use e in auto)
    have "rows_elsewhere k (purge_edge i g) = rows_elsewhere k g" if "ed_project e = k"
      unfolding eq by (rule delete_edge_rows_elsewhere[OF ok]) (use same that in simp)
    with Some show ?thesis by (simp add: delete_edge_def)
  qed (simp add: delete_edge_def)
qed

lemma path_ops_elsewhere [same_elsewhere]:
  assumes ok: "graph_ok g"
  shows "rows_elsewhere k (snd (create_attack_path i k pr agent sess now g)) = rows_elsewhere k g"
    and "rows_elsewhere k (snd (update_attack_path k i pr now g)) = rows_elsewhere k g"
    and "rows_elsewhere k (snd (delete_attack_path k i g)) = rows_elsewhere k g"
    and "rows_elsewhere k (snd (create_step i k q sr agent sess now g)) = rows_elsewhere k g"
    and "rows_elsewhere k (snd (update_step k q i sr now g)) = rows_elsewhere k g"
    and "rows_elsewhere k (snd (delete_step k q i g)) = rows_elsewhere k g"
proof -
  show "rows_elsewhere k (snd (create_attack_path i k pr agent sess now g)) = rows_elsewhere k g"
    by (auto simp: create_attack_path_def Let_def split: option.split intro!: insert_elsewhere(3))
  show "rows_elsewhere k (snd (update_attack_path k i pr now g)) = rows_elsewhere k g"
    by (auto simp: update_attack_path_def Let_def dest!: get_rowD split: option.split intro!: put_elsewhere(3)[OF ok])
  show "rows_elsewhere k (snd (delete_attack_path k i g)) = rows_elsewhere k g"
  proof (cases "get_row pt_id i (gd_paths g)")
    case (Some p)
    then have p: "p \<in> set (gd_paths g)" "pt_id p = i" using get_rowD[OF Some] by auto
    have "delete_path_row i (g\<lparr>gd_steps := filter (\<lambda>s. st_path s \<noteq> i) (gd_steps g)\<rparr>) = delete_path_row i g"
      by (simp add: delete_path_row_def)
    with Some p delete_path_row_elsewhere[OF ok p(1)] show ?thesis by (auto simp: delete_attack_path_def)
  qed (simp add: delete_attack_path_def)
  show "rows_elsewhere k (snd (create_step i k q sr agent sess now g)) = rows_elsewhere k g"
    by (auto simp: create_step_def Let_def split: option.split intro!: insert_elsewhere(4))
  show "rows_elsewhere k (snd (update_step k q i sr now g)) = rows_elsewhere k g"
    by (auto simp: update_step_def Let_def dest!: get_rowD split: option.split intro!: put_elsewhere(4)[OF ok])
  show "rows_elsewhere k (snd (delete_step k q i g)) = rows_elsewhere k g"
  proof (cases "get_row st_id i (gd_steps g)")
    case (Some s)
    then have s: "s \<in> set (gd_steps g)" "st_id s = i" using get_rowD[OF Some] by auto
    have same: "st_project t = st_project s" if "t \<in> set (gd_steps g)" "st_id t = i" for t
      using that s ids_distinct(4)[OF ok] by (metis distinct_map inj_onD)
    have "filter (\<lambda>s. st_project s \<noteq> k) (filter (\<lambda>x. st_id x \<noteq> i) (gd_steps g)) = filter (\<lambda>s. st_project s \<noteq> k) (gd_steps g)"
      if "st_project s = k" by (rule filter_filter_same) (use same that in blast)
    with Some show ?thesis by (simp add: delete_step_def rows_elsewhere_def del: filter_filter)
  qed (simp add: delete_step_def)
qed

lemma finding_ops_elsewhere [same_elsewhere]:
  assumes ok: "graph_ok g"
  shows "rows_elsewhere k (snd (create_finding i k r agent sess now g)) = rows_elsewhere k g"
    and "rows_elsewhere k (snd (update_finding k i r now g)) = rows_elsewhere k g"
    and "rows_elsewhere k (snd (delete_finding k i g)) = rows_elsewhere k g"
proof -
  show "rows_elsewhere k (snd (create_finding i k r agent sess now g)) = rows_elsewhere k g"
    by (auto simp: create_finding_def Let_def split: option.split intro!: insert_elsewhere(5))
  show "rows_elsewhere k (snd (update_finding k i r now g)) = rows_elsewhere k g"
    by (auto simp: update_finding_def Let_def dest!: get_rowD split: option.split intro!: put_elsewhere(5)[OF ok])
  show "rows_elsewhere k (snd (delete_finding k i g)) = rows_elsewhere k g"
  proof (cases "get_row fd_id i (gd_findings g)")
    case (Some f)
    then have f: "f \<in> set (gd_findings g)" "fd_id f = i" using get_rowD[OF Some] by auto
    have same: "fd_project h = fd_project f" if "h \<in> set (gd_findings g)" "fd_id h = i" for h
      using that f ids_distinct(5)[OF ok] by (metis distinct_map inj_onD)
    have "filter (\<lambda>s. fd_project s \<noteq> k) (filter (\<lambda>x. fd_id x \<noteq> i) (gd_findings g)) = filter (\<lambda>s. fd_project s \<noteq> k) (gd_findings g)"
      if "fd_project f = k" by (rule filter_filter_same) (use same that in blast)
    with Some show ?thesis by (simp add: delete_finding_def rows_elsewhere_def del: filter_filter)
  qed (simp add: delete_finding_def)
qed

section \<open>Tool calls\<close>

lemma derive_idem: "derive_work_project_status ts (derive_work_project_status ts st) = derive_work_project_status ts st"
  by (simp add: derive_work_project_status_def)

lemma recalculated [simp]:
  "project_consistent (recalculate_project_progress p)"
  "project_consistent ((recalculate_project_progress p)\<lparr>pj_updated_at := now\<rparr>)"
  "pj_id (recalculate_project_progress p) = pj_id p"
  by (simp_all add: project_consistent_def recalculate_project_progress_def derive_idem)

lemma synced:
  "project_consistent p \<Longrightarrow> project_consistent (sync_summary_progress_to_task c p)"
  "pj_id (sync_summary_progress_to_task c p) = pj_id p"
  by (simp_all add: sync_summary_progress_to_task_def Let_def)

text \<open>What a call may have changed: the records and the row of one project.\<close>

definition confined :: "int \<Rightarrow> app_db \<Rightarrow> app_db \<Rightarrow> bool" where
  "confined k db db' \<longleftrightarrow> rows_elsewhere k (ad_graph db') = rows_elsewhere k (ad_graph db)
     \<and> filter (\<lambda>p. pj_id p \<noteq> k) (ad_projects db') = filter (\<lambda>p. pj_id p \<noteq> k) (ad_projects db)
     \<and> db' = db\<lparr>ad_graph := ad_graph db', ad_projects := ad_projects db'\<rparr>"

lemma confined_refl [simp]: "confined k db db"
  by (simp add: confined_def)

lemma confined_trans:
  assumes "confined k a b" and "confined k b c"
  shows "confined k a c"
proof -
  have b: "b = a\<lparr>ad_graph := ad_graph b, ad_projects := ad_projects b\<rparr>"
    and c: "c = b\<lparr>ad_graph := ad_graph c, ad_projects := ad_projects c\<rparr>"
    using assms unfolding confined_def by auto
  have "b\<lparr>ad_graph := x, ad_projects := y\<rparr> = a\<lparr>ad_graph := x, ad_projects := y\<rparr>" for x y
    using arg_cong[OF b, of "\<lambda>d. d\<lparr>ad_graph := x, ad_projects := y\<rparr>"] by simp
  with c have "c = a\<lparr>ad_graph := ad_graph c, ad_projects := ad_projects c\<rparr>" by (rule trans)
  with assms show ?thesis unfolding confined_def by simp
qed

lemma graph_call:
  assumes "app_ok db" and "graph_ok g" and "rows_elsewhere k g = rows_elsewhere k (ad_graph db)"
  shows "app_ok (db\<lparr>ad_graph := g\<rparr>) \<and> confined k db (db\<lparr>ad_graph := g\<rparr>)"
proof -
  have "gd_projects g = gd_projects (ad_graph db)" using assms(3) by (simp add: rows_elsewhere_def)
  with assms graph_rows_ok show ?thesis by (simp add: confined_def)
qed

lemma saved_call:
  assumes "app_ok db" and "graph_ok (snd r)" and "rows_elsewhere k (snd r) = rows_elsewhere k (ad_graph db)"
  shows "app_ok (snd (saved_result name f db r)) \<and> confined k db (snd (saved_result name f db r))"
  using graph_call[OF assms] by (simp add: saved_result_def case_prod_beta)

lemmas graph_calls = graph_call[THEN conjunct1] graph_call[THEN conjunct2] saved_call[THEN conjunct1] saved_call[THEN conjunct2]

lemma project_call:
  assumes ok: "app_ok db" and p: "get_project k db = Some p" and p': "project_consistent p'" "pj_id p' = k"
  shows "app_ok (put_project p' db) \<and> confined k db (put_project p' db)"
proof -
  have mem: "p \<in> set (ad_projects db)" "pj_id p = k" using get_projectD[OF p] by auto
  have "distinct (map pj_id (ad_projects db))" using ok by (simp add: app_ok_def projects_ok_def)
  then have "filter (\<lambda>q. pj_id q \<noteq> k) (put_row pj_id p' (ad_projects db)) = filter (\<lambda>q. pj_id q \<noteq> k) (ad_projects db)"
    using mem p' by (intro filter_put_same) auto
  then show ?thesis using put_project_ok[OF ok p'(1)] by (simp add: confined_def put_project_def)
qed

lemma consistent_at: "app_ok db \<Longrightarrow> get_project k db = Some p \<Longrightarrow> project_consistent p"
  using get_projectD by (auto simp: app_ok_def projects_ok_def)


lemma run_tool_confined:
  assumes ok: "app_ok db" and k: "tc_project ctx = Some k"
  shows "app_ok (snd (run_tool env ctx now c db)) \<and> confined k db (snd (run_tool env ctx now c db))"
proof -
  have g: "graph_ok (ad_graph db)" using ok by (simp add: app_ok_def projects_ok_def)
  note same = asset_ops_elsewhere[OF g] edge_ops_elsewhere[OF g] path_ops_elsewhere[OF g] finding_ops_elsewhere[OF g]
  show ?thesis
  proof (cases c)
    case (UpdateSummary s)
    show ?thesis
    proof (cases "validate_summary s")
      case (Some s')
      show ?thesis
      proof (cases "get_project k db")
        case P: (Some p)
        have c: "project_consistent (p\<lparr>pj_summaries := x, pj_updated_at := now\<rparr>)" for x
          using consistent_at[OF ok P] by (simp add: project_consistent_def)
        have id: "pj_id p = k" using get_projectD[OF P] by simp
        from project_call[OF ok P synced(1)[OF c]] id ok k Some UpdateSummary P show ?thesis
          by (simp add: on_valid_args_def update_work_project_agent_summary_def Let_def synced(2))
      qed (use ok k UpdateSummary Some in \<open>simp add: on_valid_args_def update_work_project_agent_summary_def Let_def\<close>)
    qed (use ok UpdateSummary in \<open>simp add: on_valid_args_def\<close>)
  next
    case (UpdateTasks ts)
    show ?thesis
    proof (cases "get_project k db")
      case P: (Some p)
      have id: "pj_id p = k" using get_projectD[OF P] by simp
      from project_call[OF ok P] id ok k UpdateTasks P show ?thesis
        by (simp add: on_valid_args_def update_work_project_tasks_def Let_def split: option.split)
    qed (use ok k UpdateTasks in \<open>simp add: on_valid_args_def update_work_project_tasks_def split: option.split\<close>)
  next
    case (SaveEdge i r)
    with ok k g same show ?thesis
      by (auto simp: on_valid_args_def right_of_def create_or_update_work_project_graph_edge_def operation_ok valid_edge_ends
          split: option.split sum.split intro!: graph_calls)
  next
    case (DeleteRecord ty i q)
    with ok k g same show ?thesis
      by (cases ty) (auto simp: delete_work_project_record_def Let_def case_prod_beta operation_ok split: option.split
          intro!: graph_calls)
  qed (use ok k g same in \<open>auto simp: on_valid_args_def right_of_def operation_ok create_or_update_work_project_asset_def
        create_or_update_work_project_finding_def create_or_update_work_project_attack_path_def
        create_or_update_work_project_attack_path_step_def split: option.split sum.split intro!: graph_calls\<close>)
qed

text \<open>The calls of an agent one after another, each at its instant.\<close>

definition run_tools :: "tool_env \<Rightarrow> tool_context \<Rightarrow> (datetime \<times> tool_call) list \<Rightarrow> app_db \<Rightarrow> app_db" where
  "run_tools env ctx calls db = fold (\<lambda>(now, c) db. snd (run_tool env ctx now c db)) calls db"

lemma run_tool_outside: "tc_project ctx = None \<Longrightarrow> snd (run_tool env ctx now c db) = db"
  by (cases c) (simp_all add: on_valid_args_def update_work_project_agent_summary_def update_work_project_tasks_def
      create_or_update_work_project_asset_def create_or_update_work_project_finding_def
      create_or_update_work_project_graph_edge_def create_or_update_work_project_attack_path_def
      create_or_update_work_project_attack_path_step_def delete_work_project_record_def Let_def split: option.split)

text \<open>C31. Tools stay inside the project of their session.  Whatever sequence of calls an agent makes, with
  whatever arguments, the database keeps its integrity; with a project, only the records of that project and
  its own row can have changed, every other table is the same; without one, nothing is written.\<close>

theorem tools_confined:
  assumes ok: "app_ok db"
  shows "let db' = run_tools env ctx calls db in app_ok db'
    \<and> (case tc_project ctx of None \<Rightarrow> db' = db | Some k \<Rightarrow> confined k db db')"
proof (cases "tc_project ctx")
  case None
  then have "run_tools env ctx calls db = db"
    unfolding run_tools_def by (induction calls) (auto simp: run_tool_outside)
  with ok None show ?thesis by simp
next
  case (Some k)
  have "app_ok d \<Longrightarrow> app_ok (run_tools env ctx calls d) \<and> confined k d (run_tools env ctx calls d)" for d
  proof (induction calls arbitrary: d)
    case (Cons x calls)
    obtain now c where x: "x = (now, c)" by (cases x)
    note one = run_tool_confined[OF Cons.prems Some, of env now c]
    with Cons.IH[OF one[THEN conjunct1]] show ?case
      using confined_trans[OF one[THEN conjunct2]] by (simp add: run_tools_def x)
  qed (simp add: run_tools_def)
  with ok Some show ?thesis by simp
qed

definition blank_project :: "int \<Rightarrow> project_task list \<Rightarrow> project" where
  "blank_project k ts = \<lparr>pj_id = k, pj_name = ''p'', pj_description = [], pj_tasks = ts, pj_summaries = [],
     pj_progress = calculate_work_project_progress ts, pj_status = derive_work_project_status ts W_WORKING,
     pj_type = PENETRATION_TEST, pj_created_at = 0, pj_updated_at = 0\<rparr>"

definition sample_projects :: app_db where
  "sample_projects = insert_project (blank_project 2 []) (insert_project (blank_project 1 [])
     (empty_app [plain_user 1 ''u'']
        [plain_container 7 1]))"

lemma sample_projects_ok: "app_ok sample_projects"
proof -
  have p: "project_consistent (blank_project k [])" for k
    by (simp add: project_consistent_def blank_project_def derive_work_project_status_def)
  show ?thesis unfolding sample_projects_def
    by (intro insert_project_ok empty_app_ok p) (simp_all add: project_ids_def insert_project_def empty_app_def blank_project_def)
qed

definition sample_tool_env :: tool_env where
  "sample_tool_env = \<lparr>te_canon = Some, te_alloc = sample_alloc, te_like = (\<lambda>_ _. True), te_time = (\<lambda>_. [])\<rparr>"

definition sample_task :: "string \<Rightarrow> project_task_status \<Rightarrow> rat \<Rightarrow> project_task" where
  "sample_task i st p = \<lparr>wt_id = i, wt_title = ''scan'', wt_status = st, wt_assignee = [], wt_progress = p, wt_summary = []\<rparr>"

lemma tools_confined_witness:
  "let ctx = \<lparr>tc_agent = default_agent_code, tc_session = ''s'', tc_project = Some 1\<rparr>;
       calls = [(5, UpdateTasks [sample_task ''t'' IN_PROGRESS 50]), (6, LoadTasks)];
       db' = run_tools sample_tool_env ctx calls sample_projects
   in app_ok db' \<and> confined 1 sample_projects db' \<and> map pj_progress (ad_projects db') = [50, 0]"
proof -
  define ctx where "ctx = \<lparr>tc_agent = default_agent_code, tc_session = ''s'', tc_project = Some 1\<rparr>"
  define calls where "calls = [(5::int, UpdateTasks [sample_task ''t'' IN_PROGRESS 50]), (6, LoadTasks)]"
  have "map pj_progress (ad_projects (run_tools sample_tool_env ctx calls sample_projects)) = [50, 0]"
    unfolding ctx_def calls_def by code_simp
  then show ?thesis
    using tools_confined[OF sample_projects_ok, of sample_tool_env ctx calls]
    unfolding ctx_def[symmetric] calls_def[symmetric] by (simp add: ctx_def Let_def)
qed

end
