(* ===== verification/Project_Lifecycle.thy ===== *)
theory Project_Lifecycle
  imports Tool_Scope
begin

text \<open>
  The operations of \<^verbatim>\<open>src/service/work_project/projects.py\<close> as a whole: each of them keeps the integrity
  of the application database, an edit of a project does what it says, and deleting one leaves nothing of it.
\<close>

section \<open>Integrity of the operations\<close>

lemma find_NoneD: "List.find p xs = None \<Longrightarrow> x \<in> set xs \<Longrightarrow> \<not> p x"
  by (auto simp: find_None_iff)

lemma validated_container:
  assumes "validate_metadata_for_write req user role project db = []"
  shows "\<not> bound_elsewhere (or_else_int project (- 1)) (mr_container req) db"
proof (cases "mr_container req")
  case (Some c)
  then have "List.find (\<lambda>b. bd_container b = c \<and> bd_project b \<noteq> or_else_int project (- 1)) (ad_bindings db) = None"
    using assms by (auto simp: validate_metadata_for_write_def Let_def split: if_splits option.splits)
  with Some show ?thesis by (auto simp: bound_elsewhere_def dest: find_NoneD)
qed (simp add: bound_elsewhere_def)

lemma bound_elsewhere_same [simp]:
  "bound_elsewhere k c (db\<lparr>ad_owners := w\<rparr>) = bound_elsewhere k c db"
  "bound_elsewhere k c (put_project p db) = bound_elsewhere k c db"
  "bound_elsewhere k c (insert_project p db) = bound_elsewhere k c db"
  by (simp_all add: bound_elsewhere_def)

lemma set_asset_rows_ok:
  assumes "graph_ok g" and "set_asset_rows alloc k now seen rs g = Some g'"
  shows "graph_ok g' \<and> gd_projects g' = gd_projects g"
  using assms
proof (induction rs arbitrary: seen g)
  case (Cons r rs)
  show ?case
  proof (cases "request_identity r \<in> seen")
    case False
    then obtain g1 where g1: "insert_asset (new_scope_asset alloc k r now g) g = Some g1"
      and rest: "set_asset_rows alloc k now (insert (request_identity r) seen) rs g1 = Some g'"
      using Cons.prems(2) by (auto simp: bind_eq_Some_conv)
    have "gd_projects g1 = gd_projects g" using g1 by (auto simp: insert_asset_def split: if_splits)
    with Cons.IH[OF insert_scope_ok[OF Cons.prems(1) g1] rest] show ?thesis by simp
  qed (use Cons in simp)
qed simp

lemma on_graph_ok:
  assumes ok: "app_ok db" and "on_graph f db = Some db'"
    and "\<And>g'. f (ad_graph db) = Some g' \<Longrightarrow> graph_ok g' \<and> gd_projects g' = gd_projects (ad_graph db)"
  shows "app_ok db'"
  using assms graph_rows_ok[OF ok] by (auto simp: on_graph_def)

lemma app_graph: "app_ok db \<Longrightarrow> graph_ok (ad_graph db)"
  by (simp add: app_ok_def projects_ok_def)

lemma commit_ok: "app_ok db \<Longrightarrow> (\<And>db'. r = Some db' \<Longrightarrow> app_ok db') \<Longrightarrow> app_ok (snd (commit db f r))"
  by (simp add: commit_def split: option.split)

lemma binding_project: "app_ok db \<Longrightarrow> b \<in> set (ad_bindings db) \<Longrightarrow> bd_project b \<in> project_ids db \<and> 0 < bd_project b"
  by (auto simp: app_ok_def projects_ok_def)

lemma create_work_project_ok [inv_intros]:
  assumes ok: "app_ok db" and alloc: "allocates alloc"
  shows "app_ok (snd (create_work_project alloc req user role now db))"
proof (cases "validate_metadata_for_write req user role None db = []")
  case True
  let ?k = "alloc (map pj_id (ad_projects db))"
  define p where "p = \<lparr>pj_id = ?k, pj_name = mr_name req, pj_description = mr_description req, pj_tasks = [],
    pj_summaries = [], pj_progress = 0, pj_status = W_WORKING, pj_type = mr_type req, pj_created_at = now, pj_updated_at = now\<rparr>"
  have "?k \<notin> set (map pj_id (ad_projects db))" "0 < ?k" using alloc unfolding allocates_def by blast+
  then have new: "pj_id p \<notin> project_ids db" "0 < pj_id p" by (simp_all add: p_def project_ids_def)
  have "project_consistent p"
    by (simp add: p_def project_consistent_def derive_work_project_status_def calculate_work_project_progress_def)
  note ok1 = insert_project_ok[OF ok new this]
  have none: "\<forall>b\<in>set (ad_bindings db). bd_project b \<noteq> pj_id p" using binding_project[OF ok] new(1) by metis
  have "bd_project b \<noteq> - 1" if "b \<in> set (ad_bindings db)" for b using binding_project[OF ok that] by simp
  then have free: "\<forall>b\<in>set (ad_bindings db). Some (bd_container b) \<noteq> mr_container req"
    using validated_container[OF True] by (auto simp: bound_elsewhere_def or_else_int_def)
  have "app_ok db'" if res: "Option.bind (set_project_owner_rows ?k (mr_owners req) (insert_project p db)) (\<lambda>db.
         Option.bind (set_project_sandbox_container_row ?k (mr_container req) db)
           (on_graph (set_asset_rows alloc ?k now {} (mr_assets req)))) = Some db'" for db'
  proof -
    from res obtain d1 d2 where 1: "add_owner_rows ?k 0 (mr_owners req) (insert_project p db) = Some d1"
      and 2: "set_project_sandbox_container_row ?k (mr_container req) d1 = Some d2"
      and 3: "on_graph (set_asset_rows alloc ?k now {} (mr_assets req)) d2 = Some db'"
      by (auto simp: set_project_owner_rows_def bind_eq_Some_conv)
    note d1 = add_owner_rows[OF ok1 1]
    have "ad_bindings d1 = ad_bindings db" using arg_cong[OF conjunct2[OF d1], of ad_bindings] by simp
    then have "\<not> bound_elsewhere ?k (mr_container req) d1" "\<forall>b\<in>set (ad_bindings d1). bd_project b \<noteq> ?k"
      using free none by (simp_all add: bound_elsewhere_def p_def)
    from set_container_row[OF conjunct1[OF d1] this 2] have "app_ok d2" by (rule conjunct1)
    with on_graph_ok[OF _ 3] set_asset_rows_ok[OF app_graph] show "app_ok db'" by blast
  qed
  then show ?thesis
    using commit_ok[OF ok] True unfolding create_work_project_def Let_def p_def[symmetric] by (simp add: commit_ok[OF ok])
qed (use ok in \<open>simp add: create_work_project_def Let_def\<close>)

lemma sync_selection_ok [inv_intros]: "app_ok db \<Longrightarrow> app_ok (sync_project_session_sandbox_selection k c db)"
  unfolding sync_project_session_sandbox_selection_def by (rule update_metas_ok) auto

section \<open>Editing a project\<close>

lemma claim_one_elsewhere:
  assumes ok: "graph_ok g" and c: "claim_one alloc k now r g = Some g'"
  shows "rows_elsewhere k g' = rows_elsewhere k g"
proof (cases "get_asset_by_identity k (ar_type r) (request_identifier r) g")
  case None
  then have "insert_asset (new_scope_asset alloc k r now g) g = Some g'" using c by (simp add: claim_one_def)
  then show ?thesis by (rule insert_elsewhere(1)) simp
next
  case (Some old)
  then have p: "put_asset (claimed_asset r now old) g = Some g'" using c by (simp add: claim_one_def)
  have old: "old \<in> set (gd_assets g)" "asset_key old = (k, ar_type r, request_identifier r)"
    using find_SomeD[OF Some[unfolded get_asset_by_identity_def]] by simp_all
  then have "as_project old = k" by (simp add: asset_key_def)
  with put_elsewhere(1)[OF ok p old(1)] show ?thesis by simp
qed

lemma claim_assets_elsewhere:
  assumes "graph_ok g" and "claim_assets alloc k now seen rs g = Some g'"
  shows "rows_elsewhere k g' = rows_elsewhere k g"
  using assms
proof (induction rs arbitrary: seen g)
  case (Cons r rs)
  show ?case
  proof (cases "request_identity r \<in> seen")
    case False
    then obtain g1 where g1: "claim_one alloc k now r g = Some g1"
      and rest: "claim_assets alloc k now (insert (request_identity r) seen) rs g1 = Some g'"
      using Cons.prems(2) by (auto simp: claim_assets_Cons bind_eq_Some_conv simp del: claim_assets.simps)
    from Cons.IH[OF claim_one(1)[OF Cons.prems(1) g1] rest] claim_one_elsewhere[OF Cons.prems(1) g1] show ?thesis by simp
  qed (use Cons in simp)
qed simp

lemma drop_all_elsewhere:
  assumes "graph_ok g" and "set as \<subseteq> set (gd_assets g)" and "distinct (map as_id as)" and "\<forall>a\<in>set as. as_project a = k"
  shows "rows_elsewhere k (fold (drop_scope_asset k) as g) = rows_elsewhere k g"
  using assms
proof (induction as arbitrary: g)
  case (Cons a as)
  let ?g = "delete_asset_row (as_id a) g"
  have rows: "gd_assets ?g = filter (\<lambda>b. as_id b \<noteq> as_id a) (gd_assets g)"
    by (simp add: delete_asset_row_def delete_edge_rows_def Let_def)
  have d: "drop_scope_asset k a g = ?g" using Cons.prems by (intro drop_scope_eq) auto
  have "set as \<subseteq> set (gd_assets ?g)" using Cons.prems(2,3) by (auto simp: rows image_iff)
  from Cons.IH[OF delete_asset_row_ok[OF Cons.prems(1)] this] Cons.prems
    delete_asset_row_elsewhere[OF Cons.prems(1), of a k]
  show ?case by (simp add: d)
qed simp

lemma unnamed_distinct:
  assumes "graph_ok g"
  shows "distinct (map as_id (filter (unnamed_scope k rs) (gd_assets g)))"
  using graph_okD(1)[OF assms] by (simp add: table_ok_def distinct_map_filter)

lemma unnamed_after_claim:
  assumes "graph_ok g" and "claim_assets alloc k now {} rs g = Some g1"
  shows "filter (unnamed_scope k rs) (gd_assets g1) = filter (unnamed_scope k rs) (gd_assets g)"
proof -
  have "filter (unnamed_scope k rs) xs = filter (unnamed_scope k rs) (filter (\<lambda>a. \<not> named k (request_identity ` set rs) a) xs)" for xs
    by (induction xs) (auto simp: unnamed_scope_def named_def asset_identity_def)
  with claim_assets[OF assms] show ?thesis by (metis Diff_empty)
qed

lemma upsert_elsewhere:
  assumes ok: "graph_ok g" and up: "upsert_project_assets alloc k rs now g = Some g'"
  shows "rows_elsewhere k g' = rows_elsewhere k g"
proof -
  obtain g1 where c: "claim_assets alloc k now {} rs g = Some g1"
    and g': "g' = fold (drop_scope_asset k) (filter (unnamed_scope k rs) (gd_assets g)) g1"
    using up by (auto simp: upsert_project_assets_def)
  have ok1: "graph_ok g1" using claim_assets[OF ok c] by simp
  have "set (filter (unnamed_scope k rs) (gd_assets g)) \<subseteq> set (gd_assets g1)"
    unfolding unnamed_after_claim[OF ok c, symmetric] by auto
  from drop_all_elsewhere[OF ok1 this unnamed_distinct[OF ok]] claim_assets_elsewhere[OF ok c]
  show ?thesis unfolding g' by (simp add: unnamed_scope_def)
qed

text \<open>What an edit leaves alone: the rows of the other projects and the tables outside of projects.\<close>

definition elsewhere_kept :: "int \<Rightarrow> app_db \<Rightarrow> app_db \<Rightarrow> bool" where
  "elsewhere_kept k db db' \<longleftrightarrow>
     rows_elsewhere k (ad_graph db') = rows_elsewhere k (ad_graph db)
     \<and> filter (\<lambda>p. pj_id p \<noteq> k) (ad_projects db') = filter (\<lambda>p. pj_id p \<noteq> k) (ad_projects db)
     \<and> filter (\<lambda>w. ow_project w \<noteq> k) (ad_owners db') = filter (\<lambda>w. ow_project w \<noteq> k) (ad_owners db)
     \<and> filter (\<lambda>b. bd_project b \<noteq> k) (ad_bindings db') = filter (\<lambda>b. bd_project b \<noteq> k) (ad_bindings db)
     \<and> filter (\<lambda>m. sm_project m \<noteq> Some k) (ad_metas db') = filter (\<lambda>m. sm_project m \<noteq> Some k) (ad_metas db)
     \<and> map sm_session_id (ad_metas db') = map sm_session_id (ad_metas db)
     \<and> db' = db\<lparr>ad_projects := ad_projects db', ad_owners := ad_owners db', ad_bindings := ad_bindings db',
         ad_metas := ad_metas db', ad_graph := ad_graph db'\<rparr>"

definition edited_project :: "metadata_request \<Rightarrow> datetime \<Rightarrow> project \<Rightarrow> project" where
  "edited_project req now p =
     p\<lparr>pj_name := mr_name req, pj_description := mr_description req, pj_type := mr_type req, pj_updated_at := now\<rparr>"

definition project_owner_ids :: "int \<Rightarrow> app_db \<Rightarrow> int list" where
  "project_owner_ids k db = map ow_user (filter (\<lambda>w. ow_project w = k) (ad_owners db))"

lemma put_get_project:
  assumes "app_ok db" and "get_project k db = Some p" and "pj_id p' = k"
  shows "get_project k (put_project p' db) = Some p'"
    and "filter (\<lambda>p. pj_id p \<noteq> k) (ad_projects (put_project p' db)) = filter (\<lambda>p. pj_id p \<noteq> k) (ad_projects db)"
proof -
  have p: "p \<in> set (ad_projects db)" "pj_id p = k" using get_projectD[OF assms(2)] by auto
  have d: "distinct (map pj_id (ad_projects db))" using assms(1) by (simp add: app_ok_def projects_ok_def)
  then have "distinct (map pj_id (put_row pj_id p' (ad_projects db)))" by (simp add: map_rid_put_row)
  moreover have "p' \<in> set (put_row pj_id p' (ad_projects db))" using p assms(3) by (intro put_row_member) auto
  ultimately show "get_project k (put_project p' db) = Some p'"
    using assms(3) by (simp add: get_project_def get_row_def put_project_def find_key_iff)
  show "filter (\<lambda>p. pj_id p \<noteq> k) (ad_projects (put_project p' db)) = filter (\<lambda>p. pj_id p \<noteq> k) (ad_projects db)"
    using d p assms(3) by (auto simp: put_project_def intro!: filter_put_same)
qed

lemma edit_rows:
  assumes ok: "app_ok db" and p: "get_project k db = Some p" and valid: "validate_metadata_for_write req user role (Some k) db = []"
    and res: "Option.bind (replace_project_owners k (mr_owners req) (put_project (edited_project req now p) db)) (\<lambda>db.
       Option.bind (replace_project_sandbox_container k (mr_container req) db) (\<lambda>db.
       map_option (sync_project_session_sandbox_selection k (mr_container req))
         (on_graph (upsert_project_assets alloc k (mr_assets req) now) db))) = Some db'"
  shows "app_ok db'" and "elsewhere_kept k db db'" and "get_project k db' = Some (edited_project req now p)"
    and "project_owner_ids k db' = mr_owners req" and "sandbox_container_id_for_project k db' = mr_container req"
    and "\<forall>m\<in>set (ad_metas db'). sm_project m = Some k \<longrightarrow> sm_selected m = mr_container req"
    and "scope_of k (ad_graph db') = request_identity ` set (mr_assets req)"
proof -
  let ?p = "edited_project req now p" and ?c = "mr_container req"
  define d0 where "d0 = put_project ?p db"
  have id: "pj_id ?p = k" using get_projectD[OF p] by (simp add: edited_project_def)
  have pos: "0 < k" using ok get_projectD[OF p] by (auto simp: app_ok_def projects_ok_def project_ids_def)
  have con: "project_consistent ?p" using consistent_at[OF ok p] by (simp add: project_consistent_def edited_project_def)
  have ok0: "app_ok d0" using put_project_ok[OF ok con] by (simp add: d0_def)
  from res obtain d1 d2 g where 1: "replace_project_owners k (mr_owners req) d0 = Some d1"
    and 2: "replace_project_sandbox_container k ?c d1 = Some d2"
    and 3: "upsert_project_assets alloc k (mr_assets req) now (ad_graph d2) = Some g"
    and db': "db' = sync_project_session_sandbox_selection k ?c (d2\<lparr>ad_graph := g\<rparr>)"
    by (auto simp: bind_eq_Some_conv on_graph_def d0_def)
  let ?ow = "filter (\<lambda>w. ow_project w \<noteq> k) (ad_owners d0) @ owner_rows k 0 (mr_owners req)"
  have d1: "app_ok d1" "d1 = d0\<lparr>ad_owners := ?ow\<rparr>"
    using replace_owners[OF ok0 1] by (rule conjunct1, rule conjunct2)
  have "\<not> bound_elsewhere k ?c d1"
    using validated_container[OF valid] pos unfolding d1(2) d0_def by (simp add: or_else_int_def)
  note d2 = replace_container[OF d1(1) this 2]
  have g: "gd_projects g = gd_projects (ad_graph d2)" "graph_ok g"
    "scope_of k g = request_identity ` set (mr_assets req)" "rows_elsewhere k g = rows_elsewhere k (ad_graph d2)"
    using upsert_project_assets[OF app_graph[OF d2(1)] 3] upsert_elsewhere[OF app_graph[OF d2(1)] 3] by simp_all
  show "app_ok db'" unfolding db' by (intro sync_selection_ok graph_rows_ok d2(1) g)
  obtain B where B: "d2 = d1\<lparr>ad_bindings := B\<rparr>" using d2(2) by blast
  have all: "db' = sync_project_session_sandbox_selection k ?c (d0\<lparr>ad_owners := ?ow, ad_bindings := B, ad_graph := g\<rparr>)"
    unfolding db' B d1(2) by simp
  have rows: "ad_graph db' = g" "ad_owners db' = ?ow" "ad_bindings db' = B" "ad_projects db' = ad_projects d0"
    unfolding all by (simp_all add: sync_project_session_sandbox_selection_def)
  have old: "ad_graph d2 = ad_graph db" "ad_bindings d1 = ad_bindings db" "ad_owners d0 = ad_owners db" "ad_bindings d2 = B"
    unfolding B d1(2) by (simp_all add: d0_def)
  show "project_owner_ids k db' = mr_owners req"
    by (simp add: project_owner_ids_def rows owner_rows_users)
  show "get_project k db' = Some (edited_project req now p)"
    using put_get_project(1)[OF ok p id] rows(4) by (simp add: get_project_def d0_def)
  show "sandbox_container_id_for_project k db' = ?c"
    using d2(3) rows(3) old(4) by (simp add: sandbox_container_id_for_project_def)
  show "scope_of k (ad_graph db') = request_identity ` set (mr_assets req)" using g(3) rows(1) by simp
  show "\<forall>m\<in>set (ad_metas db'). sm_project m = Some k \<longrightarrow> sm_selected m = mr_container req"
    unfolding db' sync_project_session_sandbox_selection_def by (simp, rule update_rows_all) auto
  have metas: "ad_metas db' = update_rows (\<lambda>m. sm_project m = Some k)
      (\<lambda>m. m\<lparr>sm_selected := ?c, sm_selected_generation := generation_of ?c (d0\<lparr>ad_owners := ?ow, ad_bindings := B, ad_graph := g\<rparr>)\<rparr>)
      (ad_metas db)"
    unfolding all by (simp add: sync_project_session_sandbox_selection_def d0_def)
  have "filter (\<lambda>m. sm_project m \<noteq> Some k) (ad_metas db') = filter (\<lambda>m. sm_project m \<noteq> Some k) (ad_metas db)"
    unfolding metas by (rule filter_update_same) auto
  moreover have "map sm_session_id (ad_metas db') = map sm_session_id (ad_metas db)"
    unfolding metas by (rule map_update_rows_same) simp
  moreover have "filter (\<lambda>w. ow_project w \<noteq> k) (ad_owners db') = filter (\<lambda>w. ow_project w \<noteq> k) (ad_owners db)"
    by (simp add: rows old owner_rows_users)
  moreover have "db' = db\<lparr>ad_projects := ad_projects db', ad_owners := ad_owners db', ad_bindings := ad_bindings db',
      ad_metas := ad_metas db', ad_graph := ad_graph db'\<rparr>"
    unfolding all sync_project_session_sandbox_selection_def d0_def put_project_def by simp
  ultimately show "elsewhere_kept k db db'"
    unfolding elsewhere_kept_def
    using g(4) d2(4) put_get_project(2)[OF ok p id] by (simp add: rows old d0_def)
qed

text \<open>An edit of a project is all or nothing.  When it succeeds the project has exactly the owners, the
  container and the scope assets of the request, every session of it selects that container, and nothing
  outside of the project has changed; when it is refused nothing has changed at all.\<close>

theorem project_edit_applies:
  assumes ok: "app_ok db"
  shows "case update_work_project_metadata alloc k req user role now db of
      (Inr (Some v), db') \<Rightarrow> app_ok db' \<and> elsewhere_kept k db db'
        \<and> get_project k db' = map_option (edited_project req now) (get_project k db)
        \<and> project_owner_ids k db' = mr_owners req \<and> sandbox_container_id_for_project k db' = mr_container req
        \<and> (\<forall>m\<in>set (ad_metas db'). sm_project m = Some k \<longrightarrow> sm_selected m = mr_container req)
        \<and> scope_of k (ad_graph db') = request_identity ` set (mr_assets req)
    | (_, db') \<Rightarrow> db' = db"
proof (cases "get_project k db")
  case (Some p)
  show ?thesis
  proof (cases "validate_metadata_for_write req user role (Some k) db = []")
    case valid: True
    note rows = edit_rows[where now = now and alloc = alloc, OF ok Some valid]
    let ?r = "Option.bind (replace_project_owners k (mr_owners req) (put_project (edited_project req now p) db)) (\<lambda>db.
       Option.bind (replace_project_sandbox_container k (mr_container req) db) (\<lambda>db.
       map_option (sync_project_session_sandbox_selection k (mr_container req))
         (on_graph (upsert_project_assets alloc k (mr_assets req) now) db)))"
    have eq: "update_work_project_metadata alloc k req user role now db =
        commit db (\<lambda>db. Some (project_view_of (edited_project req now p) user role db)) ?r"
      using Some valid by (simp add: update_work_project_metadata_def edited_project_def Let_def)
    show ?thesis
    proof (cases ?r)
      case (Some db')
      from rows[OF this] show ?thesis unfolding eq Some commit_def by (simp add: \<open>get_project k db = Some p\<close>)
    qed (unfold eq commit_def, simp)
  qed (simp add: update_work_project_metadata_def Some Let_def)
qed (simp add: update_work_project_metadata_def)

definition sample_edit :: metadata_request where
  "sample_edit = \<lparr>mr_name = ''new'', mr_description = [], mr_owners = [1], mr_container = Some 7,
     mr_assets = [\<lparr>ar_type = A_DOMAIN, ar_host = ''a.b'', ar_port = None, ar_path = [], ar_extra = [], ar_extra_set = False\<rparr>],
     mr_type = SOURCE_CODE_AUDIT\<rparr>"

lemma project_edit_applies_witness:
  "let db' = snd (update_work_project_metadata sample_alloc 1 sample_edit 1 USER 9 sample_projects) in
    elsewhere_kept 1 sample_projects db' \<and> project_owner_ids 1 db' = [1] \<and> sandbox_container_id_for_project 1 db' = Some 7
    \<and> scope_of 1 (ad_graph db') = {(A_DOMAIN, ''a.b'')}"
proof -
  let ?u = "update_work_project_metadata sample_alloc 1 sample_edit 1 USER 9 sample_projects"
  have "case fst ?u of Inr (Some v) \<Rightarrow> True | _ \<Rightarrow> False" by code_simp
  then obtain v where "fst ?u = Inr (Some v)" by (auto split: sum.splits option.splits)
  then have eq: "?u = (Inr (Some v), snd ?u)" by (simp add: prod_eq_iff)
  have "request_identity ` set (mr_assets sample_edit) = {(A_DOMAIN, ''a.b'')}" by code_simp
  moreover have "mr_owners sample_edit = [1]" "mr_container sample_edit = Some 7" by (simp_all add: sample_edit_def)
  ultimately show ?thesis
    using project_edit_applies[where alloc = sample_alloc and k = 1 and req = sample_edit and user = 1 and role = USER and now = 9,
        OF sample_projects_ok] unfolding Let_def
    by (subst (asm) eq) simp
qed

section \<open>Deleting a project\<close>

text \<open>One session of the project goes with everything that hangs on it.\<close>

lemma pooled_metas:
  "filter (\<lambda>m. sm_session_id m \<noteq> s) (ad_metas (discard_session pooled msg s now db)) = filter (\<lambda>m. sm_session_id m \<noteq> s) (ad_metas db)"
  by (auto simp: discard_session_def cancel_all_rows force_mark_session_stopped_def set_meta_def stopped_meta_def
      intro!: filter_update_other)

lemma discard_rows:
  "ad_sdk (discard_session pooled msg s now db) = ad_sdk db" "ad_projects (discard_session pooled msg s now db) = ad_projects db"
  "ad_owners (discard_session pooled msg s now db) = ad_owners db" "ad_bindings (discard_session pooled msg s now db) = ad_bindings db"
  "ad_graph (discard_session pooled msg s now db) = ad_graph db"
  by (simp_all add: discard_session_def cancel_all_session_work_def Let_def subagent_rows_eq command_rows_eq
      force_mark_session_stopped_def set_meta_def)

lemma delete_one_session:
  assumes m: "get_meta s db = Some m" "sm_project m = Some k" and k: "k \<in> project_ids db" and s: "s \<noteq> []"
  shows "let d = snd (delete_session pooled msg s 0 ADMIN True now db) in
    ad_metas d = filter (\<lambda>m. sm_session_id m \<noteq> s) (ad_metas db) \<and> ad_sdk d = filter (\<lambda>r. sk_id r \<noteq> s) (ad_sdk db)
    \<and> ad_projects d = ad_projects db \<and> ad_owners d = ad_owners db \<and> ad_bindings d = ad_bindings db \<and> ad_graph d = ad_graph db"
proof -
  let ?d = "cancel_session_command_rows msg s now (cancel_session_subagent_rows s now db)"
  have "get_project k db \<noteq> None" using k get_project_iff by simp
  then have "can_access_meta m 0 ADMIN db" using m(2) by (simp add: can_access_meta_def)
  then have eq: "delete_session pooled msg s 0 ADMIN True now db = delete_session_records s (discard_session pooled msg s now ?d)"
    using m s by (simp add: delete_session_def)
  show ?thesis
    unfolding eq
    by (simp add: Let_def delete_session_records_def discard_rows pooled_metas subagent_rows_eq command_rows_eq)
qed

definition session_drop :: "string set \<Rightarrow> app_db \<Rightarrow> app_db \<Rightarrow> bool" where
  "session_drop S db d \<longleftrightarrow> ad_metas d = filter (\<lambda>m. sm_session_id m \<notin> S) (ad_metas db)
     \<and> ad_sdk d = filter (\<lambda>r. sk_id r \<notin> S) (ad_sdk db) \<and> ad_projects d = ad_projects db \<and> ad_owners d = ad_owners db
     \<and> ad_bindings d = ad_bindings db \<and> ad_graph d = ad_graph db"

lemma get_meta_drop: "session_drop S db d \<Longrightarrow> s \<notin> S \<Longrightarrow> get_meta s d = get_meta s db"
proof -
  assume "session_drop S db d" "s \<notin> S"
  moreover have "List.find (\<lambda>m. sm_session_id m = s) (filter (\<lambda>m. sm_session_id m \<notin> S) ms) = List.find (\<lambda>m. sm_session_id m = s) ms"
    if "s \<notin> S" for ms using that by (induction ms) auto
  ultimately show ?thesis by (simp add: session_drop_def get_meta_def)
qed

lemma delete_sessions:
  assumes "distinct ss" and "\<forall>s\<in>set ss. s \<noteq> [] \<and> (\<exists>m. get_meta s db = Some m \<and> sm_project m = Some k)" and "k \<in> project_ids db"
    and "session_drop S db d" and "app_ok d" and "S \<inter> set ss = {}"
  shows "session_drop (S \<union> set ss) db (fold (\<lambda>s db. snd (delete_session (pooled s) msg s 0 ADMIN True now db)) ss d)
    \<and> app_ok (fold (\<lambda>s db. snd (delete_session (pooled s) msg s 0 ADMIN True now db)) ss d)"
  using assms
proof (induction ss arbitrary: S d)
  case (Cons s ss)
  let ?d = "snd (delete_session (pooled s) msg s 0 ADMIN True now d)"
  obtain m where m: "get_meta s d = Some m" "sm_project m = Some k"
    using Cons.prems(2,4,6) get_meta_drop[of S db d s] by auto
  have "k \<in> project_ids d" using Cons.prems(3,4) by (simp add: session_drop_def project_ids_def)
  from delete_one_session[OF m this, of "pooled s" msg now] Cons.prems(2)
  have "session_drop (insert s S) db ?d"
    using Cons.prems(4) by (auto simp: session_drop_def Let_def intro!: filter_cong)
  from Cons.IH[OF _ _ Cons.prems(3) this delete_session_ok[OF Cons.prems(5)]] Cons.prems
  show ?case by auto
qed simp

lemma delete_rows_ok:
  assumes ok: "app_ok db" and gone: "Some k \<notin> set (map sm_project (ad_metas db))" and res: "delete_project_rows k db = Some db'"
  shows "app_ok db'"
proof -
  have rows: "ad_projects db' = filter (\<lambda>p. pj_id p \<noteq> k) (ad_projects db)"
    "ad_owners db' = filter (\<lambda>w. ow_project w \<noteq> k) (ad_owners db)"
    "ad_bindings db' = filter (\<lambda>b. bd_project b \<noteq> k) (ad_bindings db)" "ad_graph db' = delete_project_row k (ad_graph db)"
    and ids: "project_ids db' = project_ids db - {k}" "sdk_ids db' = sdk_ids db"
    using res gone by (auto simp: delete_project_rows_def project_ids_def sdk_ids_def)
  have kept: "ad_sdk db' = ad_sdk db" "ad_metas db' = ad_metas db" "ad_messages db' = ad_messages db"
    "ad_message_meta db' = ad_message_meta db" "ad_log db' = ad_log db" "ad_notices db' = ad_notices db"
    "ad_tasks db' = ad_tasks db" "ad_compactions db' = ad_compactions db"
    using res gone by (auto simp: delete_project_rows_def)
  have m: "meta_ok db' m" if "m \<in> set (ad_metas db)" for m
  proof -
    have "sm_project m \<noteq> Some k" using that gone by (metis image_eqI list.set_map)
    moreover have "meta_ok db m" using that ok by (simp add: app_ok_def sessions_ok_def)
    ultimately show ?thesis unfolding meta_ok_def ids by (auto split: option.splits)
  qed
  have "sessions_ok db'"
    using ok m by (simp add: app_ok_def sessions_ok_def kept ids(2))
  moreover have "gd_projects (ad_graph db') = map pj_id (ad_projects db')"
    using ok by (simp add: rows delete_project_row_def app_ok_def projects_ok_def filter_map o_def)
  moreover have "ad_users db' = ad_users db" "ad_containers db' = ad_containers db"
    using res gone by (auto simp: delete_project_rows_def)
  ultimately show ?thesis
    using ok delete_project_row_ok[OF app_graph[OF ok], of k] unfolding app_ok_def projects_ok_def ids
    by (auto simp: rows distinct_map_filter)
qed

lemma project_sessions_named:
  assumes ok: "app_ok db" and named: "[] \<notin> sdk_ids db"
  shows "distinct (project_session_ids k db)"
    and "\<forall>s\<in>set (project_session_ids k db). s \<noteq> [] \<and> (\<exists>m. get_meta s db = Some m \<and> sm_project m = Some k)"
proof -
  have d: "distinct (map sm_session_id (ad_metas db))" and fk: "\<forall>m\<in>set (ad_metas db). sm_session_id m \<in> sdk_ids db"
    using ok by (auto simp: app_ok_def sessions_ok_def meta_ok_def)
  then show "distinct (project_session_ids k db)" by (simp add: project_session_ids_def distinct_map_filter)
  show "\<forall>s\<in>set (project_session_ids k db). s \<noteq> [] \<and> (\<exists>m. get_meta s db = Some m \<and> sm_project m = Some k)"
  proof
    fix s
    assume "s \<in> set (project_session_ids k db)"
    then obtain m where "m \<in> set (ad_metas db)" "sm_project m = Some k" "s = sm_session_id m"
      by (auto simp: project_session_ids_def)
    then show "s \<noteq> [] \<and> (\<exists>m. get_meta s db = Some m \<and> sm_project m = Some k)"
      using fk named get_meta_iff[OF d] by metis
  qed
qed

lemma other_sessions:
  assumes ok: "app_ok db"
  shows "filter (\<lambda>m. sm_session_id m \<notin> set (project_session_ids k db)) (ad_metas db) = filter (\<lambda>m. sm_project m \<noteq> Some k) (ad_metas db)"
proof (rule filter_cong[OF refl])
  fix m
  assume m: "m \<in> set (ad_metas db)"
  have "distinct (map sm_session_id (ad_metas db))" using ok by (simp add: app_ok_def sessions_ok_def)
  then have "n = m" if "n \<in> set (ad_metas db)" "sm_session_id n = sm_session_id m" for n
    using that m by (simp add: distinct_map inj_on_def)
  then show "(sm_session_id m \<notin> set (project_session_ids k db)) = (sm_project m \<noteq> Some k)"
    using m by (force simp: project_session_ids_def image_iff)
qed

text \<open>C30. Deleting a project removes exactly the project.  The deletion of an existing project cannot fail on a
  foreign key: afterwards the project, its owners, its container, its records and its sessions are gone with
  everything that hung on the sessions, the rows of all other projects and the other sessions are as before,
  and the database is whole.\<close>

theorem project_delete_complete:
  assumes ok: "app_ok db" and named: "[] \<notin> sdk_ids db" and k: "get_project k db \<noteq> None"
  shows "let (r, db') = delete_work_project pooled msg k now db in
    r = Inr True \<and> app_ok db'
    \<and> ad_projects db' = filter (\<lambda>p. pj_id p \<noteq> k) (ad_projects db) \<and> ad_owners db' = filter (\<lambda>w. ow_project w \<noteq> k) (ad_owners db)
    \<and> ad_bindings db' = filter (\<lambda>b. bd_project b \<noteq> k) (ad_bindings db) \<and> ad_graph db' = delete_project_row k (ad_graph db)
    \<and> ad_metas db' = filter (\<lambda>m. sm_project m \<noteq> Some k) (ad_metas db)
    \<and> sdk_ids db' = sdk_ids db - set (project_session_ids k db)"
proof -
  let ?S = "set (project_session_ids k db)"
  define d where "d = fold (\<lambda>s db. snd (delete_session (pooled s) msg s 0 ADMIN True now db)) (project_session_ids k db) db"
  have kid: "k \<in> project_ids db" using k get_project_iff by simp
  have "session_drop {} db db" by (simp add: session_drop_def)
  from delete_sessions[OF project_sessions_named[OF ok named] kid this ok, of pooled msg now]
  have drop: "session_drop ?S db d" and okd: "app_ok d" by (simp_all add: d_def)
  have metas: "ad_metas d = filter (\<lambda>m. sm_project m \<noteq> Some k) (ad_metas db)"
    using drop other_sessions[OF ok] by (simp add: session_drop_def)
  have sdk: "sdk_ids d = sdk_ids db - ?S" using drop by (auto simp: session_drop_def sdk_ids_def)
  have gone: "Some k \<notin> set (map sm_project (ad_metas d))" by (auto simp: metas)
  then obtain d' where d': "delete_project_rows k d = Some d'" by (simp add: delete_project_rows_def)
  have "get_project k d = get_project k db" using drop by (simp add: session_drop_def get_project_def)
  moreover obtain p where "get_project k db = Some p" using k by blast
  ultimately have eq: "delete_work_project pooled msg k now db = (Inr True, d')"
    using d' by (simp add: delete_work_project_def Let_def commit_def flip: d_def)
  have "ad_projects d' = filter (\<lambda>p. pj_id p \<noteq> k) (ad_projects d)" "ad_owners d' = filter (\<lambda>w. ow_project w \<noteq> k) (ad_owners d)"
    "ad_bindings d' = filter (\<lambda>b. bd_project b \<noteq> k) (ad_bindings d)" "ad_graph d' = delete_project_row k (ad_graph d)"
    "ad_metas d' = ad_metas d" "sdk_ids d' = sdk_ids d"
    using d' gone by (auto simp: delete_project_rows_def sdk_ids_def)
  then show ?thesis
    unfolding eq using drop delete_rows_ok[OF okd gone d'] metas sdk by (simp add: session_drop_def)
qed

lemma sessions_of_project:
  assumes ok: "app_ok db" and res: "create_work_project_session k user role fresh now db = (Inr (Session_Created s), db')"
  shows "app_ok db' \<and> s = fresh \<and> sdk_ids db' = insert fresh (sdk_ids db)"
proof -
  let ?m = "(new_meta fresh PROJECT_SESSION (next_project_session_title k db) user (Some k) now)
    \<lparr>sm_selected := sandbox_container_id_for_project k db,
     sm_selected_generation := generation_of (sandbox_container_id_for_project k db) db\<rparr>"
  from res have s: "s = fresh" and ins: "insert_meta ?m (ensure_sdk_session_row fresh now db) = Some db'"
    by (auto simp: create_work_project_session_def Let_def commit_def split: if_splits option.splits)
  from insert_meta_ok[OF ensure_sdk_ok[OF ok] ins] have "app_ok db'" by (simp add: new_meta_def)
  moreover have "sdk_ids db' = insert fresh (sdk_ids db)"
    using ins by (auto simp: insert_meta_def ensure_sdk_session_row_def sdk_ids_def new_meta_def split: if_splits)
  ultimately show ?thesis using s by simp
qed

lemma create_work_project_session_ok [inv_intros]:
  assumes "app_ok db"
  shows "app_ok (snd (create_work_project_session k user role fresh now db))"
proof -
  let ?r = "create_work_project_session k user role fresh now db"
  have "snd ?r = db \<or> fst ?r = Inr (Session_Created fresh)"
    by (simp add: create_work_project_session_def Let_def commit_def split: option.split)
  then show ?thesis
  proof
    assume "fst ?r = Inr (Session_Created fresh)"
    then have "?r = (Inr (Session_Created fresh), snd ?r)" by (simp add: prod_eq_iff)
    from sessions_of_project[OF assms this] show ?thesis by simp
  qed (use assms in simp)
qed

lemma update_work_project_ok [inv_intros]:
  assumes "app_ok db"
  shows "app_ok (snd (update_work_project_metadata alloc k req user role now db))"
proof -
  have same: "snd (update_work_project_metadata alloc k req user role now db) = db
    \<or> (\<exists>p. get_project k db = Some p \<and> validate_metadata_for_write req user role (Some k) db = []
        \<and> Option.bind (replace_project_owners k (mr_owners req) (put_project (edited_project req now p) db)) (\<lambda>db.
            Option.bind (replace_project_sandbox_container k (mr_container req) db) (\<lambda>db.
            map_option (sync_project_session_sandbox_selection k (mr_container req))
              (on_graph (upsert_project_assets alloc k (mr_assets req) now) db)))
          = Some (snd (update_work_project_metadata alloc k req user role now db)))"
    by (auto simp: update_work_project_metadata_def Let_def commit_def edited_project_def split: option.split)
  then show ?thesis using edit_rows(1)[OF assms] assms by metis
qed

lemma cancel_work_project_ok [inv_intros]:
  "app_ok db \<Longrightarrow> app_ok (snd (cancel_work_project msg k user role now db))"
proof -
  assume ok: "app_ok db"
  have "project_consistent (p\<lparr>pj_status := W_CANCELED, pj_updated_at := now\<rparr>)" if "get_project k db = Some p" for p
    using consistent_at[OF ok that] by (simp add: project_consistent_def derive_work_project_status_def)
  with ok show ?thesis
    by (simp add: cancel_work_project_def Let_def cancel_sessions_ok put_project_ok split: option.split)
qed

lemma retry_work_project_ok [inv_intros]:
  "app_ok db \<Longrightarrow> app_ok (snd (retry_work_project k user role now db))"
proof -
  assume ok: "app_ok db"
  have "project_consistent (p\<lparr>pj_status := derive_work_project_status (pj_tasks p) W_WORKING, pj_updated_at := now\<rparr>)"
    if "get_project k db = Some p" for p
    using consistent_at[OF ok that] by (simp add: project_consistent_def derive_idem)
  with ok show ?thesis by (simp add: retry_work_project_def Let_def put_project_ok split: option.split)
qed

lemma delete_sessions_ok:
  "app_ok db \<Longrightarrow> app_ok (fold (\<lambda>s db. snd (delete_session (pooled s) msg s u r allow now db)) ss db)"
  by (induction ss arbitrary: db) (simp_all add: delete_session_ok)

lemma delete_work_project_ok [inv_intros]:
  assumes "app_ok db"
  shows "app_ok (snd (delete_work_project pooled msg k now db))"
proof -
  let ?d = "fold (\<lambda>s db. snd (delete_session (pooled s) msg s 0 ADMIN True now db)) (project_session_ids k db) db"
  have d: "app_ok ?d" by (rule delete_sessions_ok[OF assms])
  have "app_ok d'" if "delete_project_rows k ?d = Some d'" for d'
    using delete_rows_ok[OF d _ that] that by (simp add: delete_project_rows_def split: if_splits)
  with d assms show ?thesis
    by (simp add: delete_work_project_def Let_def commit_def split: option.split)
qed

lemma delete_work_project_session_ok [inv_intros]:
  "app_ok db \<Longrightarrow> app_ok (snd (delete_work_project_session pooled msg k s user role now db))"
  by (simp add: delete_work_project_session_def delete_session_ok split: option.split)

definition sample_with_session :: app_db where
  "sample_with_session = snd (create_work_project_session 1 1 ADMIN ''s'' 5 sample_projects)"

lemma project_delete_complete_witness:
  "let (r, db') = delete_work_project (\<lambda>_. True) ''canceled'' 1 8 sample_with_session in
    r = Inr True \<and> app_ok db' \<and> map pj_id (ad_projects db') = [2] \<and> ad_metas db' = [] \<and> sdk_ids db' = {}"
proof -
  have ok: "app_ok sample_with_session"
    unfolding sample_with_session_def by (rule create_work_project_session_ok[OF sample_projects_ok])
  have rows: "map sk_id (ad_sdk sample_with_session) = [''s'']" "project_session_ids 1 sample_with_session = [''s'']"
    "map pj_id (filter (\<lambda>p. pj_id p \<noteq> 1) (ad_projects sample_with_session)) = [2]"
    "filter (\<lambda>m. sm_project m \<noteq> Some 1) (ad_metas sample_with_session) = []"
    "\<not> Option.is_none (get_project 1 sample_with_session)" by code_simp+
  have ids: "sdk_ids sample_with_session = {''s''}"
    using rows(1) unfolding sdk_ids_def by (simp flip: set_map)
  with project_delete_complete[where k = 1 and pooled = "\<lambda>_. True" and msg = "''canceled''" and now = 8, OF ok]
  show ?thesis using rows by (simp add: case_prod_beta Let_def Option.is_none_def)
qed

section \<open>Titles of the sessions\<close>

lemma show_nat_is_digit: "list_all is_digit (show_nat n)"
proof (induction n rule: show_nat.induct)
  case (1 n)
  have "\<forall>d\<in>set [0..<10]. is_digit (digit_char d)" by (simp add: upt_rec digit_char_def hex_digits_def is_digit_def)
  then have "is_digit (digit_char (n mod 10))" "n < 10 \<Longrightarrow> is_digit (digit_char n)" by simp_all
  with 1 show ?case by (subst show_nat.simps) simp
qed

lemma title_roundtrip: "project_session_title_pattern (''session '' @ show_nat n) = Some n"
proof -
  have "is_digit (last (show_nat n))"
    using show_nat_is_digit[of n] show_nat_nonempty[of n] by (metis last_in_set list_all_iff)
  then have "last (show_nat n) \<noteq> CHR 0x0A" by (auto simp: is_digit_def)
  then show ?thesis
    using show_nat_is_digit[of n] read_show_nat[of n] by (simp add: project_session_title_pattern_def Let_def)
qed

definition title_numbers :: "int \<Rightarrow> app_db \<Rightarrow> nat set" where
  "title_numbers k db = {n. \<exists>m\<in>set (ad_metas db). sm_project m = Some k \<and> project_session_title_pattern (sm_title m) = Some n}"

lemma fold_title_max:
  "a \<le> fold (\<lambda>t n. case project_session_title_pattern t of None \<Rightarrow> n | Some i \<Rightarrow> max n i) ts a
    \<and> (\<forall>t\<in>set ts. \<forall>i. project_session_title_pattern t = Some i
        \<longrightarrow> i \<le> fold (\<lambda>t n. case project_session_title_pattern t of None \<Rightarrow> n | Some i \<Rightarrow> max n i) ts a)"
proof (induction ts arbitrary: a)
  case (Cons t ts)
  show ?case
  proof (cases "project_session_title_pattern t")
    case (Some i)
    with Cons.IH[of "max a i"] show ?thesis by auto
  qed (use Cons.IH[of a] in auto)
qed simp

text \<open>The title a new project session gets is one more than every numbered title of the project, so no two
  default titles of a project are the same, whatever the users renamed their sessions to.\<close>

theorem session_title_fresh:
  "\<exists>n. project_session_title_pattern (next_project_session_title k db) = Some n \<and> (\<forall>i\<in>title_numbers k db. i < n)
    \<and> next_project_session_title k db \<notin> set (map sm_title (filter (\<lambda>m. sm_project m = Some k) (ad_metas db)))"
proof -
  let ?ts = "map sm_title (filter (\<lambda>m. sm_project m = Some k) (ad_metas db))"
  let ?n = "fold (\<lambda>t n. case project_session_title_pattern t of None \<Rightarrow> n | Some i \<Rightarrow> max n i) ?ts 0 + 1"
  have t: "next_project_session_title k db = ''session '' @ show_nat ?n"
    by (simp only: next_project_session_title_def Let_def)
  have p: "project_session_title_pattern (next_project_session_title k db) = Some ?n" unfolding t by (rule title_roundtrip)
  have max: "i < ?n" if "t \<in> set ?ts" "project_session_title_pattern t = Some i" for t i
    using fold_title_max[of 0 ?ts] that by fastforce
  then have "\<forall>i\<in>title_numbers k db. i < ?n" by (fastforce simp: title_numbers_def)
  moreover have "next_project_session_title k db \<notin> set ?ts" using max p by fastforce
  ultimately show ?thesis using p by blast
qed

lemma session_title_fresh_witness:
  "next_project_session_title 1 sample_with_session \<notin> set (map sm_title (filter (\<lambda>m. sm_project m = Some 1) (ad_metas sample_with_session)))
   \<and> next_project_session_title 1 sample_with_session = ''session 2''"
proof -
  have "next_project_session_title 1 sample_with_session = ''session 2''" by code_simp
  with session_title_fresh[of 1 sample_with_session] show ?thesis by metis
qed

end
