(* ===== verification/Turns.thy ===== *)
theory Turns
  imports Workspaces Project_Lifecycle Task_Runtime Urls
begin

text \<open>
  From a user's message to a running agent, \<^verbatim>\<open>src/service/agent/runtime.py\<close> with the entry of the
  session runtime (\<^verbatim>\<open>start_turn\<close>, \<^verbatim>\<open>_enqueue_user_message\<close>, \<^verbatim>\<open>start_notification_recovery\<close> and
  \<^verbatim>\<open>resume_session\<close> of \<^verbatim>\<open>src/core/runtime/session.py\<close>): who may talk to a session, which workspace
  the turn uses, and what is written before the agent starts.  The events published on the bus of the
  session are the matter of \<^verbatim>\<open>Event_Bus\<close> and not repeated here.
\<close>

section \<open>Context\<close>

datatype turn_error =
    Permission_Error string
  | Session_Not_Runnable string
  | Agent_Unavailable string
  | Session_Busy string
  | Value_Error string
  | Runtime_Error string
  | Integrity_Failure

record auth_user =
  au_id :: int
  au_role :: user_role

text \<open>What a turn meets outside: the registered agents, the skill files, the making of workspaces, the texts of
  the source outside of the byte strings (\<open>busy\<close>, \<open>bound_only\<close>, \<open>unavailable\<close>), the check of bracketed hosts,
  the dump of a message part, fresh identifiers and two instants.\<close>

record turn_env =
  tv_codes :: "string list"
  tv_skills :: "(string \<times> string list option) list"
  tv_resources :: resource_env
  tv_busy :: string
  tv_bound_only :: string
  tv_unavailable :: string
  tv_bracket_ok :: "string \<Rightarrow> bool"
  tv_dump :: "input_part \<Rightarrow> json"
  tv_fresh :: string
  tv_run :: string
  tv_cancel_text :: string
  tv_now :: datetime
  tv_later :: datetime

definition max_sandbox_skills :: nat where
  "max_sandbox_skills = 64"

text \<open>The front matter of a skill file: the description of its last line that has one.\<close>

fun front_matter :: "string \<Rightarrow> string list \<Rightarrow> string" where
  "front_matter d [] = d"
| "front_matter d (l # ls) =
    (if str_strip l = ''---'' then d
     else front_matter (if prefix ''description:'' l then str_strip (drop (length ''description:'') l) else d) ls)"

definition skill_description :: "string list \<Rightarrow> string" where
  "skill_description ls =
    (case ls of [] \<Rightarrow> [] | l # rest \<Rightarrow> if str_strip l = ''---'' then front_matter [] rest else [])"

definition skill_entry :: "string \<Rightarrow> string list \<Rightarrow> string" where
  "skill_entry name ls =
    (let d = skill_description ls in
     ''## '' @ name @ [CHR 0x0A, CHR 0x0A] @ ''- description: '' @ (if d = [] then ''Portable tool workflow'' else d))"

text \<open>The files in the order of their paths, each with the lines that could be read.\<close>

definition load_portable_skill_metadata :: "(string \<times> string list option) list \<Rightarrow> string list" where
  "load_portable_skill_metadata files =
     List.map_filter (\<lambda>(name, ls). map_option (skill_entry name) ls) (take max_sandbox_skills files)"

definition allowed_action_types :: "string list" where
  "allowed_action_types = [''web.http.health'', ''web.http.headers'', ''web.tls.inspect'', ''security.web.scan'',
     ''network.dns.lookup'', ''network.ping'', ''network.port.probe'', ''host.local.diagnostic'', ''ssh.command'']"

definition default_workspace :: "turn_env \<Rightarrow> int \<Rightarrow> app_db \<Rightarrow> (string + int) \<times> app_db" where
  "default_workspace env user db =
    (let e = tv_resources env in
     ensure_default_portable_workspace (re_labels e) (re_mkdir e) (re_alloc e) (re_texts e) user (tv_now env) (tv_later env) db)"

definition requested_container :: "string \<Rightarrow> int option \<Rightarrow> app_db \<Rightarrow> int option" where
  "requested_container s requested db =
    (case project_id_for_session s db of
       Some k \<Rightarrow> sandbox_container_id_for_project k db
     | None \<Rightarrow>
         (case requested of
            Some c \<Rightarrow> Some c
          | None \<Rightarrow>
              (case get_meta s db of
                 None \<Rightarrow> None
               | Some m \<Rightarrow> if sm_running m then sm_runtime_container m else sm_selected m)))"

definition turn_binding :: "auth_user \<Rightarrow> int option \<Rightarrow> int \<Rightarrow> app_db \<Rightarrow> (int \<times> int) option" where
  "turn_binding u project c db =
    (case project of
       None \<Rightarrow> resolve_sandbox_container_tool_binding c (au_id u) (au_role u) db
     | Some k \<Rightarrow>
         if work_project_allows_sandbox_container k c (au_id u) (au_role u) db
         then resolve_project_sandbox_container_tool_binding c db else None)"

definition build_runtime_context ::
  "turn_env \<Rightarrow> string \<Rightarrow> auth_user \<Rightarrow> string \<Rightarrow> int option \<Rightarrow> string list \<Rightarrow> app_db \<Rightarrow> (turn_error + runtime_context) \<times> app_db" where
  "build_runtime_context env s u agent_code requested targets db =
    (let project = project_id_for_session s db;
         (chosen, db1) = (case requested_container s requested db of
                            Some c \<Rightarrow> (Inr c, db) | None \<Rightarrow> default_workspace env (au_id u) db)
     in case chosen of
          Inl e \<Rightarrow> (Inl (Runtime_Error e), db1)
        | Inr c \<Rightarrow>
            let binding = turn_binding u project c db1
            in (Inr \<lparr>rx_session = s, rx_user = au_id u, rx_agent_code = agent_code,
                     rx_instance = (if agent_code = [] then [] else main_agent_instance_id s (au_id u) agent_code),
                     rx_project = project, rx_container = map_option fst binding,
                     rx_generation = (case binding of None \<Rightarrow> 0 | Some b \<Rightarrow> snd b),
                     rx_skills = (if binding = None then [] else load_portable_skill_metadata (tv_skills env)),
                     rx_targets = targets, rx_actions = allowed_action_types, rx_scope = ''session:'' @ s\<rparr>, db1))"

section \<open>Choosing the workspace of a session\<close>

definition update_selected_sandbox_container ::
  "turn_env \<Rightarrow> string \<Rightarrow> int option \<Rightarrow> auth_user \<Rightarrow> bool \<Rightarrow> app_db \<Rightarrow> (turn_error + session_summary_row) \<times> app_db" where
  "update_selected_sandbox_container env s container u require_idle db =
    (case get_accessible_session_meta s (au_id u) (au_role u) db of
       None \<Rightarrow> (Inl (Permission_Error ''agent session not found''), db)
     | Some m \<Rightarrow>
         if sm_project m \<noteq> None then (Inl (Value_Error (tv_bound_only env)), db)
         else if require_idle \<and> (sm_running m \<or> has_outstanding_session_work s db) then (Inl (Session_Busy (tv_busy env)), db)
         else
           case (case container of None \<Rightarrow> Some 0
                 | Some c \<Rightarrow> map_option snd (resolve_sandbox_container_selection c (au_id u) (au_role u) db)) of
             None \<Rightarrow> (Inl (Value_Error (tv_unavailable env)), db)
           | Some generation \<Rightarrow>
               (case update_session_sandbox_container s container generation (au_id u) (au_role u) db of
                  (None, db') \<Rightarrow> (Inl (Permission_Error ''agent session not found''), db')
                | (Some summary, db') \<Rightarrow> (Inr summary, db')))"

definition apply_turn_sandbox_selection ::
  "turn_env \<Rightarrow> string \<Rightarrow> int option \<Rightarrow> auth_user \<Rightarrow> app_db \<Rightarrow> turn_error option \<times> app_db" where
  "apply_turn_sandbox_selection env s container u db =
    (case get_accessible_session_meta s (au_id u) (au_role u) db of
       None \<Rightarrow> (Some (Permission_Error ''agent session not found''), db)
     | Some m \<Rightarrow>
         (case sm_project m of
            Some k \<Rightarrow>
              let bound = sandbox_container_id_for_project k db in
              if container \<noteq> None \<and> container \<noteq> bound then (Some (Value_Error (tv_bound_only env)), db)
              else
                let generation = (case bound of None \<Rightarrow> 0 | Some c \<Rightarrow>
                      (case resolve_sandbox_container_selection c (au_id u) (au_role u) db of None \<Rightarrow> 0 | Some x \<Rightarrow> snd x))
                in (None, if sm_selected m \<noteq> bound \<or> sm_selected_generation m \<noteq> generation
                          then snd (update_session_sandbox_container s bound generation (au_id u) (au_role u) db) else db)
          | None \<Rightarrow>
              let current = sm_selected m;
                  (chosen, db1) = (case container of
                      Some c \<Rightarrow> (Inr c, db)
                    | None \<Rightarrow>
                        (case current of
                           Some c \<Rightarrow> if c \<noteq> 0 then (Inr c, db) else default_workspace env (au_id u) db
                         | None \<Rightarrow> default_workspace env (au_id u) db))
              in case chosen of
                   Inl e \<Rightarrow> (Some (Runtime_Error e), db1)
                 | Inr c \<Rightarrow>
                     if current = Some c then (None, db1)
                     else (case update_selected_sandbox_container env s (Some c) u True db1 of
                             (Inl e, db2) \<Rightarrow> (Some e, db2) | (Inr _, db2) \<Rightarrow> (None, db2))))"

section \<open>Starting\<close>

text \<open>\<open>running\<close> says whether the session has a task that is not finished: then the message is queued for it,
  otherwise the session is marked as running and a task started.\<close>

definition start_turn ::
  "turn_env \<Rightarrow> bool \<Rightarrow> string \<Rightarrow> input_part list \<Rightarrow> string \<Rightarrow> runtime_context \<Rightarrow> app_db \<Rightarrow> turn_error option \<times> app_db" where
  "start_turn env running s content agent_code cx db =
    (if running then
       let tg = \<lparr>tg_session_id = s, tg_agent_code = agent_code,
                 tg_instance = (if rx_instance cx \<noteq> [] then rx_instance cx
                                else main_agent_instance_id (rx_session cx) (rx_user cx) agent_code),
                 tg_nested_for = [], tg_nested_call_id = [], tg_container_id = rx_container cx,
                 tg_container_generation = rx_generation cx, tg_skill_metadata = rx_skills cx,
                 tg_allowed_targets = rx_targets cx, tg_allowed_action_types = rx_actions cx, tg_scope_id = rx_scope cx\<rparr>
       in case enqueue_user_message (tv_fresh env) (tv_run env) tg (map (tv_dump env) content)
                 (display_text_from_content content) agent_code (tv_now env) (ad_notices db) of
            None \<Rightarrow> (Some Integrity_Failure, db)
          | Some (_, rows) \<Rightarrow> (None, db\<lparr>ad_notices := rows\<rparr>)
     else (None, mark_session_running s agent_code (rx_container cx) (rx_generation cx) (tv_now env) db))"

text \<open>Recovery drains the notifications of a session that has no task.\<close>

definition start_notification_recovery :: "turn_env \<Rightarrow> bool \<Rightarrow> string \<Rightarrow> runtime_context \<Rightarrow> app_db \<Rightarrow> bool \<times> app_db" where
  "start_notification_recovery env running s cx db =
    (if running then (False, db)
     else if \<not> has_pending_main_agent_notification s (ad_notices db) then (False, db)
     else (True, mark_session_running s (rx_agent_code cx) (rx_container cx) (rx_generation cx) (tv_now env) db))"

definition settle_session_idle :: "turn_env \<Rightarrow> bool \<Rightarrow> string \<Rightarrow> app_db \<Rightarrow> app_db" where
  "settle_session_idle env running s db = (if running then db else mark_session_stopped s [] (tv_now env) db)"

definition some_nonzero :: "int option \<Rightarrow> int option \<Rightarrow> int option" where
  "some_nonzero a b = (case a of None \<Rightarrow> b | Some k \<Rightarrow> if k = 0 then b else a)"

definition resume_session :: "turn_env \<Rightarrow> bool \<Rightarrow> string \<Rightarrow> app_db \<Rightarrow> turn_error option \<times> app_db" where
  "resume_session env running s db =
    (if \<not> has_pending_main_agent_notification s (ad_notices db) then (None, settle_session_idle env running s db)
     else case get_meta s db of
         None \<Rightarrow> (None, db)
       | Some m \<Rightarrow>
           (case get_row us_id (sm_owner m) (ad_users db) of
              None \<Rightarrow> (None, db)
            | Some u \<Rightarrow>
                let code = (if sm_runtime_agent m \<noteq> [] then sm_runtime_agent m else sm_agent_code m)
                in case build_runtime_context env s \<lparr>au_id = us_id u, au_role = us_role u\<rparr> code
                          (some_nonzero (sm_runtime_container m) (sm_selected m)) [] db of
                     (Inl e, db1) \<Rightarrow> (Some e, db1)
                   | (Inr cx, db1) \<Rightarrow> (None, snd (start_notification_recovery env running s cx db1))))"

definition submit_turn ::
  "turn_env \<Rightarrow> bool \<Rightarrow> string \<Rightarrow> input_part list \<Rightarrow> auth_user \<Rightarrow> int option \<Rightarrow> string option \<Rightarrow> app_db \<Rightarrow> turn_error option \<times> app_db" where
  "submit_turn env running s content u container requested db =
    (if \<not> can_access_session s (au_id u) (au_role u) db then (Some (Permission_Error ''agent session not found''), db)
     else if \<not> can_run_work_project_session s (au_id u) (au_role u) db
     then (Some (Session_Not_Runnable ''work project is canceled''), db)
     else if (case requested of None \<Rightarrow> False | Some c \<Rightarrow> c \<notin> set (tv_codes env))
     then (Some (Agent_Unavailable ''agent is not available''), db)
     else
       let display_text = display_text_from_content content in
       case ensure_chat_session_meta (tv_codes env) s display_text requested (au_id u) (au_role u) db of
         (Inl e, db1) \<Rightarrow> (Some (Permission_Error e), db1)
       | (Inr agent_code, db1) \<Rightarrow>
           (case extract_urls (tv_bracket_ok env) display_text of
              None \<Rightarrow> (Some (Value_Error ''Invalid IPv6 URL''), db1)
            | Some targets \<Rightarrow>
                (case build_runtime_context env s u agent_code container targets db1 of
                   (Inl e, db2) \<Rightarrow> (Some e, db2)
                 | (Inr cx, db2) \<Rightarrow> start_turn env running s content agent_code cx db2)))"

definition submit_user_turn ::
  "turn_env \<Rightarrow> bool \<Rightarrow> string \<Rightarrow> input_part list \<Rightarrow> auth_user \<Rightarrow> int option \<Rightarrow> string option \<Rightarrow> app_db \<Rightarrow> turn_error option \<times> app_db" where
  "submit_user_turn env running s content u container requested db =
    (case apply_turn_sandbox_selection env s container u db of
       (Some e, db1) \<Rightarrow> (Some e, db1)
     | (None, db1) \<Rightarrow> submit_turn env running s content u container requested db1)"

text \<open>A first message makes the session; when anything fails the session is deleted again.  \<open>pooled\<close> says
  whether the failed attempt left a pooled session behind.\<close>

definition submit_new_chat_turn ::
  "turn_env \<Rightarrow> string \<Rightarrow> bool \<Rightarrow> input_part list \<Rightarrow> auth_user \<Rightarrow> int option \<Rightarrow> string option \<Rightarrow> app_db \<Rightarrow> (turn_error + string) \<times> app_db" where
  "submit_new_chat_turn env fresh_session pooled content u container requested db =
    (case create_session (au_id u) fresh_session (tv_now env) db of
       None \<Rightarrow> (Inl Integrity_Failure, db)
     | Some (s, db1) \<Rightarrow>
         (case submit_user_turn env False s content u container requested db1 of
            (Some e, db2) \<Rightarrow>
              (Inl e, snd (delete_session pooled (tv_cancel_text env) s (au_id u) (au_role u) False (tv_now env) db2))
          | (None, db2) \<Rightarrow> (Inr s, db2)))"

text \<open>Stopping: \<^const>\<open>None\<close> is the \<^verbatim>\<open>PermissionError\<close>.  Of an interrupt the rows of the running task's
  notifications and the state of the session change.\<close>

definition interrupt_turn :: "turn_env \<Rightarrow> bool \<Rightarrow> string \<Rightarrow> auth_user \<Rightarrow> app_db \<Rightarrow> app_db option" where
  "interrupt_turn env running s u db =
    (if \<not> can_access_session s (au_id u) (au_role u) db then None
     else if \<not> running then Some db
     else Some (mark_session_stopped s [] (tv_now env)
            (db\<lparr>ad_notices := snd (cancel_main_agent_interrupted s ''Discarded by user interrupt.'' (tv_now env)
                                    (ad_notices db))\<rparr>)))"

definition cancel_all_tasks :: "turn_env \<Rightarrow> string \<Rightarrow> auth_user \<Rightarrow> app_db \<Rightarrow> app_db option" where
  "cancel_all_tasks env s u db =
    (if \<not> can_access_session s (au_id u) (au_role u) db then None
     else Some (cancel_all_session_work (tv_cancel_text env) s (tv_now env) db))"

section \<open>What a turn may touch\<close>

text \<open>A default workspace is made of rows of two tables only.\<close>

definition outside :: "app_db \<Rightarrow> app_db" where
  "outside d = d\<lparr>ad_images := [], ad_containers := []\<rparr>"

lemma outside_simps [simp]:
  "outside (d\<lparr>ad_images := i\<rparr>) = outside d" "outside (d\<lparr>ad_containers := c\<rparr>) = outside d" "outside (put_status k st now d) = outside d"
  by (simp_all add: outside_def put_status_def)

lemma outside_steps [simp]:
  "outside (snd (set_status lb mkdir k st msg now later d)) = outside d"
  "outside (snd (create_sandbox_container lb mkdir alloc ft host img mode proxy owner ports now later d)) = outside d"
  "outside (snd (create_sandbox_image alloc r now d)) = outside d"
  by (simp_all add: set_status_def create_sandbox_container_def create_sandbox_image_def Let_def split: option.split)

lemma outside_default [simp]: "outside (snd (default_workspace env user d)) = outside d"
proof -
  define e where "e = tv_resources env"
  define r where "r = (case List.find (\<lambda>im. im_name im = default_portable_image_name) (ad_images d) of
      Some im \<Rightarrow> (im, d)
    | None \<Rightarrow> create_sandbox_image (re_alloc e) \<lparr>iq_name = default_portable_image_name, iq_port = 8000, iq_tor = False\<rparr> (tv_now env) d)"
  have r: "outside (snd r) = outside d" by (simp add: r_def split: option.split)
  show ?thesis
    unfolding default_workspace_def ensure_default_portable_workspace_def Let_def e_def[symmetric] r_def[symmetric]
    by (simp add: case_prod_beta r split: option.split list.split)
qed

lemma outsideD:
  assumes "outside d' = outside d"
  shows "ad_users d' = ad_users d" "ad_sdk d' = ad_sdk d" "ad_messages d' = ad_messages d" "ad_message_meta d' = ad_message_meta d" "ad_metas d' = ad_metas d" "ad_log d' = ad_log d" "ad_notices d' = ad_notices d" "ad_tasks d' = ad_tasks d" "ad_jobs d' = ad_jobs d" "ad_compactions d' = ad_compactions d" "ad_projects d' = ad_projects d" "ad_owners d' = ad_owners d" "ad_bindings d' = ad_bindings d" "ad_graph d' = ad_graph d" "ad_hosts d' = ad_hosts d" "ad_proxies d' = ad_proxies d"
  using arg_cong[OF assms, of ad_users]
    arg_cong[OF assms, of ad_sdk]
    arg_cong[OF assms, of ad_messages]
    arg_cong[OF assms, of ad_message_meta]
    arg_cong[OF assms, of ad_metas]
    arg_cong[OF assms, of ad_log]
    arg_cong[OF assms, of ad_notices]
    arg_cong[OF assms, of ad_tasks]
    arg_cong[OF assms, of ad_jobs]
    arg_cong[OF assms, of ad_compactions]
    arg_cong[OF assms, of ad_projects]
    arg_cong[OF assms, of ad_owners]
    arg_cong[OF assms, of ad_bindings]
    arg_cong[OF assms, of ad_graph]
    arg_cong[OF assms, of ad_hosts]
    arg_cong[OF assms, of ad_proxies]
  by (simp_all add: outside_def)

definition meta_key :: "session_meta \<Rightarrow> string \<times> int \<times> int option \<times> session_type" where
  "meta_key m = (sm_session_id m, sm_owner m, sm_project m, sm_type m)"

definition rest_of :: "app_db \<Rightarrow> app_db" where
  "rest_of d = d\<lparr>ad_images := [], ad_containers := [], ad_metas := [], ad_notices := []\<rparr>"

text \<open>A step of a session: its own row in other respects than what it is, its own new notifications, and
  workspaces.\<close>

definition turn_kept :: "string \<Rightarrow> app_db \<Rightarrow> app_db \<Rightarrow> bool" where
  "turn_kept s d d' \<longleftrightarrow> rest_of d' = rest_of d \<and> map meta_key (ad_metas d') = map meta_key (ad_metas d)
     \<and> filter (\<lambda>m. sm_session_id m \<noteq> s) (ad_metas d') = filter (\<lambda>m. sm_session_id m \<noteq> s) (ad_metas d)
     \<and> (\<exists>ns. ad_notices d' = ad_notices d @ ns \<and> (\<forall>n\<in>set ns. nt_session_id n = s)) \<and> (store_ok d \<longrightarrow> store_ok d')"

lemma turn_kept_refl [simp]: "turn_kept s d d"
  by (simp add: turn_kept_def)

lemma turn_kept_trans: "turn_kept s a b \<Longrightarrow> turn_kept s b c \<Longrightarrow> turn_kept s a c"
  unfolding turn_kept_def by (auto simp: ball_Un)

lemma turn_kept_default:
  assumes "allocates (re_alloc (tv_resources env))"
  shows "turn_kept s d (snd (default_workspace env user d))"
proof -
  have o: "outside (snd (default_workspace env user d)) = outside d" by simp
  have "rest_of d' = (outside d')\<lparr>ad_metas := [], ad_notices := []\<rparr>" for d' by (simp add: rest_of_def outside_def)
  then have "rest_of (snd (default_workspace env user d)) = rest_of d" by (simp add: o)
  moreover have "store_ok d \<longrightarrow> store_ok (snd (default_workspace env user d))"
    using ensure_default_ok[OF _ assms] by (simp add: default_workspace_def Let_def)
  ultimately show ?thesis using outsideD[OF o] by (simp add: turn_kept_def)
qed

lemma store_metas: "app_ok (d\<lparr>ad_metas := ms\<rparr>) \<Longrightarrow> store_ok d \<Longrightarrow> store_ok (d\<lparr>ad_metas := ms\<rparr>)"
proof -
  have "container_ok (d\<lparr>ad_metas := ms\<rparr>) c = container_ok d c" for c by (rule container_ok_cong; simp)
  then show "app_ok (d\<lparr>ad_metas := ms\<rparr>) \<Longrightarrow> store_ok d \<Longrightarrow> store_ok (d\<lparr>ad_metas := ms\<rparr>)"
    by (simp add: store_ok_def resources_ok_def)
qed

lemma turn_kept_meta:
  assumes "\<And>m. meta_key (f m) = meta_key m"
  shows "turn_kept s d (set_meta s f d)"
proof -
  have k: "sm_session_id (f m) = sm_session_id m \<and> sm_type (f m) = sm_type m \<and> sm_project (f m) = sm_project m" for m
    using assms[of m] by (simp add: meta_key_def)
  have "store_ok d \<longrightarrow> store_ok (set_meta s f d)"
    using set_meta_ok[OF _ k] store_metas unfolding set_meta_def by (auto simp: store_ok_def)
  moreover have "map meta_key (update_rows (\<lambda>m. sm_session_id m = s) f (ad_metas d)) = map meta_key (ad_metas d)"
    by (rule map_update_rows_same) (rule assms)
  moreover have "filter (\<lambda>m. sm_session_id m \<noteq> s) (update_rows (\<lambda>m. sm_session_id m = s) f (ad_metas d))
      = filter (\<lambda>m. sm_session_id m \<noteq> s) (ad_metas d)"
    by (rule filter_update_other) (simp_all add: k)
  moreover have "rest_of (set_meta s f d) = rest_of d" by (simp add: rest_of_def set_meta_def)
  ultimately show ?thesis by (simp add: turn_kept_def set_meta_def)
qed

lemma turn_kept_notice:
  assumes s: "get_meta s d \<noteq> None" and n: "nt_session_id n = s"
  shows "turn_kept s d (d\<lparr>ad_notices := ad_notices d @ [n]\<rparr>)"
proof -
  have "app_ok (d\<lparr>ad_notices := ad_notices d @ [n]\<rparr>)" if ok: "app_ok d"
  proof -
    obtain m where "m \<in> set (ad_metas d)" "sm_session_id m = s" using s get_metaD by blast
    then have "s \<in> sdk_ids d" using ok by (auto simp: app_ok_def sessions_ok_def meta_ok_def)
    then show ?thesis using ok n by (simp add: app_ok_def sessions_ok_def)
  qed
  moreover have "container_ok (d\<lparr>ad_notices := x\<rparr>) c = container_ok d c" for c x by (rule container_ok_cong; simp)
  ultimately have "store_ok d \<longrightarrow> store_ok (d\<lparr>ad_notices := ad_notices d @ [n]\<rparr>)"
    by (simp add: store_ok_def resources_ok_def)
  then show ?thesis using n by (simp add: turn_kept_def rest_of_def)
qed

lemma turn_kept_selection: "turn_kept s d (snd (update_session_sandbox_container s c g u r d))"
  by (auto simp: update_session_sandbox_container_def Let_def meta_key_def split: option.split intro!: turn_kept_meta)

lemma turn_kept_update: "turn_kept s d (snd (update_selected_sandbox_container env s c u idle d))"
  using turn_kept_selection[of s d]
  by (simp add: update_selected_sandbox_container_def case_prod_beta split: option.split)

lemma turn_kept_chat: "turn_kept s d (snd (ensure_chat_session_meta codes s txt0 requested u r d))"
  by (auto simp: ensure_chat_session_meta_def Let_def meta_key_def split: option.split intro!: turn_kept_meta)

lemma turn_kept_apply:
  assumes alloc: "allocates (re_alloc (tv_resources env))"
  shows "turn_kept s d (snd (apply_turn_sandbox_selection env s c u d))"
proof -
  note w = turn_kept_default[OF alloc, of s d "au_id u"]
  have up: "turn_kept s d (snd (update_selected_sandbox_container env s x u True (snd (default_workspace env (au_id u) d))))" for x
    by (rule turn_kept_trans[OF w turn_kept_update])
  show ?thesis
    using w up turn_kept_update turn_kept_selection
    by (auto simp: apply_turn_sandbox_selection_def Let_def case_prod_beta split: option.split sum.split)
qed

lemma find_same_keys:
  "map meta_key xs = map meta_key ys \<Longrightarrow>
     map_option meta_key (List.find (\<lambda>m. sm_session_id m = t) xs) = map_option meta_key (List.find (\<lambda>m. sm_session_id m = t) ys)"
proof (induction xs arbitrary: ys)
  case (Cons x xs)
  then obtain y zs where y: "ys = y # zs" "meta_key x = meta_key y" "map meta_key xs = map meta_key zs" by (cases ys) auto
  then have "sm_session_id x = sm_session_id y" by (simp add: meta_key_def)
  with Cons.IH[OF y(3)] y show ?case by simp
qed simp

lemma kept_meta: "turn_kept s d d' \<Longrightarrow> map_option meta_key (get_meta t d') = map_option meta_key (get_meta t d)"
  unfolding turn_kept_def get_meta_def by (intro find_same_keys) simp

lemma kept_meta_exists: "turn_kept s d d' \<Longrightarrow> get_meta t d \<noteq> None \<Longrightarrow> get_meta t d' \<noteq> None"
  using kept_meta[of s d d' t] by auto

lemma turn_kept_context:
  assumes alloc: "allocates (re_alloc (tv_resources env))"
  shows "turn_kept s d (snd (build_runtime_context env s u code c targets d))"
  using turn_kept_default[OF alloc, of s d "au_id u"]
  by (simp add: build_runtime_context_def Let_def case_prod_beta split: option.split sum.split)

lemma turn_kept_start: "get_meta s d \<noteq> None \<Longrightarrow> turn_kept s d (snd (start_turn env running s content code cx d))"
  by (auto simp: start_turn_def Let_def enqueue_user_message_def insert_notification_def mark_session_running_def meta_key_def
      new_notification_def split: option.split intro!: turn_kept_notice turn_kept_meta)

lemma turn_kept_submit:
  assumes alloc: "allocates (re_alloc (tv_resources env))"
  shows "turn_kept s d (snd (submit_turn env running s content u c requested d))"
proof (cases "can_access_session s (au_id u) (au_role u) d")
  case True
  then have m: "get_meta s d \<noteq> None" by (auto simp: can_access_session_def split: option.splits)
  let ?t = "display_text_from_content content"
  define e where "e = ensure_chat_session_meta (tv_codes env) s ?t requested (au_id u) (au_role u) d"
  have 1: "turn_kept s d (snd e)" unfolding e_def by (rule turn_kept_chat)
  have 2: "turn_kept s d (snd (build_runtime_context env s u code c targets (snd e)))" for code targets
    by (rule turn_kept_trans[OF 1 turn_kept_context[OF alloc]])
  have 3: "turn_kept s d (snd (start_turn env running s content code' cx (snd (build_runtime_context env s u code c targets (snd e)))))"
    for code code' cx targets
    by (rule turn_kept_trans[OF 2 turn_kept_start]) (rule kept_meta_exists[OF 2 m])
  show ?thesis
    unfolding submit_turn_def Let_def e_def[symmetric] using 1 2 3
    by (simp add: case_prod_beta split: option.split sum.split)
qed (simp add: submit_turn_def)

lemma turn_kept_submit_user:
  assumes alloc: "allocates (re_alloc (tv_resources env))"
  shows "turn_kept s d (snd (submit_user_turn env running s content u c requested d))"
proof -
  note 1 = turn_kept_apply[OF alloc, of s d c u]
  have "turn_kept s d (snd (submit_turn env running s content u c requested (snd (apply_turn_sandbox_selection env s c u d))))"
    by (rule turn_kept_trans[OF 1 turn_kept_submit[OF alloc]])
  with 1 show ?thesis by (simp add: submit_user_turn_def case_prod_beta split: option.split)
qed

section \<open>The workspace of a turn\<close>

text \<open>C32. A turn runs only in a workspace its user may use.  When the context of a turn names a workspace, that
  workspace is stored, running, and of the generation the context carries; in a session of a project it is the one
  the project is bound to and the user has access to the project, otherwise the user owns it or is an
  administrator.  A context without a workspace has no skills and generation 0.\<close>

theorem turn_workspace_allowed:
  assumes "build_runtime_context env s u agent_code requested targets db = (Inr cx, db')"
  shows "rx_project cx = project_id_for_session s db
    \<and> (case rx_container cx of
        None \<Rightarrow> rx_generation cx = 0 \<and> rx_skills cx = []
      | Some c \<Rightarrow> \<exists>w\<in>set (ad_containers db'). ct_id w = c \<and> ct_status w = C_RUNNING \<and> rx_generation cx = status_generation w
          \<and> (case rx_project cx of
              None \<Rightarrow> au_role u = ADMIN \<or> ct_owner w = au_id u
            | Some k \<Rightarrow> sandbox_container_id_for_project k db' = Some c \<and> can_access_work_project k (au_id u) (au_role u) db'))"
proof -
  have bind: "case b of None \<Rightarrow> True | Some (i, g) \<Rightarrow>
      i = c \<and> (\<exists>w\<in>set (ad_containers d). ct_id w = c \<and> ct_status w = C_RUNNING \<and> g = status_generation w
        \<and> (case p of None \<Rightarrow> au_role u = ADMIN \<or> ct_owner w = au_id u
           | Some k \<Rightarrow> sandbox_container_id_for_project k d = Some c \<and> can_access_work_project k (au_id u) (au_role u) d))"
    if "b = turn_binding u p c d" for b p c d
    using that get_rowD[of ct_id c "ad_containers d"]
    by (auto simp: turn_binding_def resolve_sandbox_container_tool_binding_def resolve_sandbox_container_selection_def
        resolve_project_sandbox_container_tool_binding_def resolve_project_sandbox_container_selection_def
        resolve_sandbox_container_status_def work_project_allows_sandbox_container_def split: option.splits if_splits)
  define r where "r = (case requested_container s requested db of
      Some c \<Rightarrow> (Inr c, db) | None \<Rightarrow> default_workspace env (au_id u) db)"
  obtain c where "fst r = Inr c" and db': "db' = snd r"
    using assms by (auto simp: build_runtime_context_def Let_def r_def[symmetric] case_prod_beta split: sum.splits)
  then have c: "rx_project cx = project_id_for_session s db"
    "rx_container cx = map_option fst (turn_binding u (rx_project cx) c db')"
    "rx_generation cx = (case turn_binding u (rx_project cx) c db' of None \<Rightarrow> 0 | Some b \<Rightarrow> snd b)"
    "turn_binding u (rx_project cx) c db' = None \<longrightarrow> rx_skills cx = []"
    using assms by (auto simp: build_runtime_context_def Let_def r_def[symmetric] case_prod_beta)
  show ?thesis
  proof (cases "turn_binding u (rx_project cx) c db'")
    case None
    with c show ?thesis by simp
  next
    case (Some ig)
    obtain i g where ig: "ig = (i, g)" by (cases ig)
    from bind[where p = "rx_project cx" and c = c and d = db', OF refl] Some ig
    obtain w where w: "w \<in> set (ad_containers db')" "i = c" "ct_id w = c" "ct_status w = C_RUNNING" "g = status_generation w"
      "case rx_project cx of None \<Rightarrow> au_role u = ADMIN \<or> ct_owner w = au_id u
        | Some k \<Rightarrow> sandbox_container_id_for_project k db' = Some c \<and> can_access_work_project k (au_id u) (au_role u) db'"
      by auto
    have "rx_container cx = Some c" "rx_generation cx = status_generation w" using c Some ig w by simp_all
    with w(1,3,4,6) c(1) show ?thesis by (cases "rx_project cx") auto
  qed
qed

section \<open>The first message\<close>

definition res_of :: "app_db \<Rightarrow> system_user list \<times> container list \<times> managed_host list \<times> sandbox_image list \<times> egress_proxy list" where
  "res_of d = (ad_users d, ad_containers d, ad_hosts d, ad_images d, ad_proxies d)"

lemma store_same:
  assumes "store_ok d" and "app_ok d'" and "res_of d' = res_of d"
  shows "store_ok d'"
proof -
  have "container_ok d' c = container_ok d c" for c by (rule container_ok_cong) (use assms(3) in \<open>simp_all add: res_of_def\<close>)
  with assms show ?thesis by (simp add: store_ok_def resources_ok_def res_of_def)
qed

lemma res_of_cancel [simp]:
  "res_of (cancel_session_subagent_rows s now d) = res_of d" "res_of (cancel_session_command_rows msg s now d) = res_of d"
  "res_of (set_meta s f d) = res_of d" "res_of (cancel_all_session_work msg s now d) = res_of d"
  "res_of (discard_session pooled msg s now d) = res_of d" "res_of (snd (delete_session_records s d)) = res_of d"
  "res_of (snd (delete_session pooled msg s u r allow now d)) = res_of d"
  by (simp_all add: res_of_def subagent_rows_eq command_rows_eq set_meta_def cancel_all_session_work_def Let_def
      force_mark_session_stopped_def discard_session_def delete_session_records_def delete_session_def split: option.split)

lemma delete_own_session:
  assumes m: "get_meta s db = Some m" "can_access_meta m u r db" and allow: "allow \<or> sm_project m = None" and s: "s \<noteq> []"
  shows "let d = snd (delete_session pooled msg s u r allow now db) in
    ad_metas d = filter (\<lambda>m. sm_session_id m \<noteq> s) (ad_metas db) \<and> ad_sdk d = filter (\<lambda>r. sk_id r \<noteq> s) (ad_sdk db)"
proof -
  let ?d = "cancel_session_command_rows msg s now (cancel_session_subagent_rows s now db)"
  have eq: "delete_session pooled msg s u r allow now db = delete_session_records s (discard_session pooled msg s now ?d)"
    using m s allow by (auto simp: delete_session_def)
  show ?thesis
    unfolding eq
    by (simp add: Let_def delete_session_records_def discard_rows pooled_metas subagent_rows_eq command_rows_eq)
qed

lemma get_meta_set:
  assumes "\<And>m. sm_session_id (f m) = sm_session_id m"
  shows "get_meta s (set_meta s f d) = map_option f (get_meta s d)"
proof -
  have "List.find (\<lambda>m. sm_session_id m = s) (update_rows (\<lambda>m. sm_session_id m = s) f ms) = map_option f (List.find (\<lambda>m. sm_session_id m = s) ms)" for ms
    by (induction ms) (simp_all add: assms)
  then show ?thesis by (simp add: get_meta_def set_meta_def)
qed

text \<open>A turn that starts has marked its session as running.\<close>

lemma submit_marks_running:
  assumes alloc: "allocates (re_alloc (tv_resources env))" and res: "submit_user_turn env False s content u c requested d = (None, d')"
  shows "\<exists>m. get_meta s d' = Some m \<and> sm_running m"
proof -
  define d1 where "d1 = snd (apply_turn_sandbox_selection env s c u d)"
  have sub: "submit_turn env False s content u c requested d1 = (None, d')"
    using res by (auto simp: submit_user_turn_def d1_def split: prod.splits option.splits)
  let ?e = "ensure_chat_session_meta (tv_codes env) s (display_text_from_content content) requested (au_id u) (au_role u) d1"
  from sub have acc: "get_meta s d1 \<noteq> None"
    by (auto simp: submit_turn_def can_access_session_def split: if_splits option.splits)
  from sub obtain code targets cx d2 where b: "build_runtime_context env s u code c targets (snd ?e) = (Inr cx, d2)"
    and d': "d' = mark_session_running s code (rx_container cx) (rx_generation cx) (tv_now env) d2"
    by (auto simp: submit_turn_def Let_def start_turn_def split: if_splits option.splits prod.splits sum.splits)
  have "turn_kept s d1 d2"
  proof (rule turn_kept_trans)
    show "turn_kept s d1 (snd ?e)" by (rule turn_kept_chat)
    show "turn_kept s (snd ?e) d2" using turn_kept_context[OF alloc, where s = s and d = "snd ?e"] b by (metis snd_conv)
  qed
  then obtain m where "get_meta s d2 = Some m" using kept_meta_exists acc by blast
  then show ?thesis unfolding d' mark_session_running_def by (simp add: get_meta_set)
qed

text \<open>C33. A first message gives a running session or nothing.  When it succeeds the new chat session exists, belongs
  to the user and is running, and the rows of all other sessions are as before; when anything on the way fails, the
  sessions and their SDK rows are exactly those from before.  Either way the database is whole.\<close>

theorem new_chat_all_or_nothing:
  assumes ok: "store_ok db" and alloc: "allocates (re_alloc (tv_resources env))" and fresh: "s0 \<notin> sdk_ids db" "s0 \<noteq> []"
  shows "case submit_new_chat_turn env s0 pooled content u c requested db of
      (Inl e, db') \<Rightarrow> store_ok db' \<and> ad_metas db' = ad_metas db \<and> ad_sdk db' = ad_sdk db
    | (Inr s, db') \<Rightarrow> store_ok db' \<and> s = s0 \<and> filter (\<lambda>m. sm_session_id m \<noteq> s0) (ad_metas db') = ad_metas db
        \<and> (\<exists>m. get_meta s0 db' = Some m \<and> sm_owner m = au_id u \<and> sm_type m = CHAT \<and> sm_project m = None \<and> sm_running m)"
proof -
  let ?m = "new_meta s0 CHAT [] (au_id u) None (tv_now env)"
  have app: "app_ok db" using ok by (simp add: store_ok_def)
  have metas: "\<forall>m\<in>set (ad_metas db). sm_session_id m \<noteq> s0" using app fresh(1) by (auto simp: app_ok_def sessions_ok_def meta_ok_def)
  have sdks: "\<forall>r\<in>set (ad_sdk db). sk_id r \<noteq> s0" using fresh(1) by (auto simp: sdk_ids_def)
  define d1 where "d1 = (ensure_sdk_session_row s0 (tv_now env) db)\<lparr>ad_metas := ad_metas db @ [?m]\<rparr>"
  have c1: "create_session (au_id u) s0 (tv_now env) db = Some (s0, d1)"
    using metas sdks by (auto simp: create_session_def insert_meta_def ensure_sdk_session_row_def d1_def new_meta_def)
  have ok1: "store_ok d1"
    by (rule store_same[OF ok create_session_ok[OF app c1]]) (simp add: d1_def res_of_def ensure_sdk_session_row_def)
  have rows1: "filter (\<lambda>m. sm_session_id m \<noteq> s0) (ad_metas d1) = ad_metas db" "filter (\<lambda>r. sk_id r \<noteq> s0) (ad_sdk d1) = ad_sdk db"
    using metas sdks by (auto simp: d1_def ensure_sdk_session_row_def new_meta_def intro: filter_True)
  have get1: "get_meta s0 d1 = Some ?m"
  proof -
    have "List.find (\<lambda>m. sm_session_id m = s0) (ms @ [?m]) = Some ?m" if "\<forall>m\<in>set ms. sm_session_id m \<noteq> s0" for ms
      using that by (induction ms) (simp_all add: new_meta_def)
    with metas show ?thesis by (simp add: get_meta_def d1_def)
  qed
  obtain r d2 where r: "submit_user_turn env False s0 content u c requested d1 = (r, d2)" by (cases "submit_user_turn env False s0 content u c requested d1")
  have kept: "turn_kept s0 d1 d2" using turn_kept_submit_user[OF alloc, of s0 d1 False content u c requested] r by simp
  then have ok2: "store_ok d2" and f2: "filter (\<lambda>m. sm_session_id m \<noteq> s0) (ad_metas d2) = ad_metas db"
    using ok1 rows1 by (simp_all add: turn_kept_def)
  have "rest_of d2 = rest_of d1" using kept by (simp add: turn_kept_def)
  from arg_cong[OF this, of ad_sdk] have "ad_sdk d2 = ad_sdk d1" by (simp add: rest_of_def)
  then have s2: "filter (\<lambda>r. sk_id r \<noteq> s0) (ad_sdk d2) = ad_sdk db" using rows1 by simp
  obtain m where m: "get_meta s0 d2 = Some m" "meta_key m = meta_key ?m"
    using kept_meta[OF kept, of s0] get1 by auto
  then have own: "sm_owner m = au_id u" "sm_project m = None" "sm_type m = CHAT" by (simp_all add: meta_key_def new_meta_def)
  show ?thesis
  proof (cases r)
    case None
    then obtain m' where "get_meta s0 d2 = Some m'" "sm_running m'" using submit_marks_running[OF alloc] r by blast
    with None r m own ok2 f2 show ?thesis by (simp add: submit_new_chat_turn_def c1)
  next
    case (Some e)
    let ?d = "snd (delete_session pooled (tv_cancel_text env) s0 (au_id u) (au_role u) False (tv_now env) d2)"
    have "can_access_meta m (au_id u) (au_role u) d2" using own by (simp add: can_access_meta_def)
    from delete_own_session[OF m(1) this _ fresh(2), of False pooled "tv_cancel_text env" "tv_now env"] own
    have "ad_metas ?d = ad_metas db \<and> ad_sdk ?d = ad_sdk db" using f2 s2 by (simp add: Let_def)
    moreover have "store_ok ?d"
      by (rule store_same[OF ok2]) (use ok2 in \<open>simp_all add: delete_session_ok store_ok_def\<close>)
    ultimately show ?thesis using Some r by (simp add: submit_new_chat_turn_def c1)
  qed
qed

section \<open>Samples\<close>

definition sample_turn_env :: turn_env where
  "sample_turn_env = \<lparr>tv_codes = [''sec''], tv_skills = [(''a'', Some [''---'', ''description: x'', ''---'']), (''b'', None)],
     tv_resources = sample_env, tv_busy = ''busy'', tv_bound_only = ''bound'', tv_unavailable = ''gone'',
     tv_bracket_ok = (\<lambda>_. True), tv_dump = (\<lambda>_. JNull), tv_fresh = ''n'', tv_run = ''r'', tv_cancel_text = ''c'',
     tv_now = 5, tv_later = 6\<rparr>"

definition sample_user :: auth_user where
  "sample_user = \<lparr>au_id = 1, au_role = USER\<rparr>"

lemma sample_turn_alloc: "allocates (re_alloc (tv_resources sample_turn_env))"
  by (simp add: sample_turn_env_def sample_env_def sample_alloc)

lemma sample_context:
  "map_sum (\<lambda>e. ()) (\<lambda>cx. (rx_container cx, rx_project cx))
     (fst (build_runtime_context sample_turn_env ''s'' sample_user ''sec'' None [] sample_store)) = Inr (Some 1, None)"
  by code_simp

lemma turn_workspace_allowed_witness:
  "\<exists>cx db'. build_runtime_context sample_turn_env ''s'' sample_user ''sec'' None [] sample_store = (Inr cx, db')
     \<and> rx_container cx = Some 1 \<and> (\<exists>w\<in>set (ad_containers db'). ct_id w = 1 \<and> ct_status w = C_RUNNING \<and> ct_owner w = 1)"
proof -
  obtain r db' where b: "build_runtime_context sample_turn_env ''s'' sample_user ''sec'' None [] sample_store = (r, db')"
    by (cases "build_runtime_context sample_turn_env ''s'' sample_user ''sec'' None [] sample_store")
  with sample_context obtain cx where cx: "r = Inr cx" "rx_container cx = Some 1" "rx_project cx = None" by (cases r) auto
  from turn_workspace_allowed[OF b[unfolded cx(1)]] cx b show ?thesis by (auto simp: sample_user_def)
qed

lemma sample_new_chat:
  "map_sum (\<lambda>e. ()) id (fst (submit_new_chat_turn sample_turn_env ''s'' False [] sample_user None None sample_store)) = Inr ''s''"
  "map_sum (\<lambda>e. ()) id (fst (submit_new_chat_turn sample_turn_env ''s'' False [] sample_user (Some 7) None sample_store)) = Inl ()"
  "(sdk_ids sample_store, ad_metas sample_store) = ({}, [])"
  by code_simp+

lemma new_chat_all_or_nothing_witness:
  "\<exists>db' m. submit_new_chat_turn sample_turn_env ''s'' False [] sample_user None None sample_store = (Inr ''s'', db')
     \<and> get_meta ''s'' db' = Some m \<and> sm_running m
     \<and> (\<exists>e db''. submit_new_chat_turn sample_turn_env ''s'' False [] sample_user (Some 7) None sample_store = (Inl e, db'')
          \<and> ad_metas db'' = [])"
proof -
  have fresh: "''s'' \<notin> sdk_ids sample_store" "''s'' \<noteq> []" using sample_new_chat(3) by simp_all
  let ?a = "submit_new_chat_turn sample_turn_env ''s'' False [] sample_user None None sample_store"
  let ?b = "submit_new_chat_turn sample_turn_env ''s'' False [] sample_user (Some 7) None sample_store"
  have "fst ?a = Inr ''s''" using sample_new_chat(1) by (cases "fst ?a") simp_all
  moreover obtain e where "fst ?b = Inl e" using sample_new_chat(2) by (cases "fst ?b") simp_all
  ultimately show ?thesis
    using new_chat_all_or_nothing[OF sample_store_ok sample_turn_alloc fresh, where pooled = False and content = "[]" and u = sample_user and c = None and requested = None]
      new_chat_all_or_nothing[OF sample_store_ok sample_turn_alloc fresh, where pooled = False and content = "[]" and u = sample_user and c = "Some 7" and requested = None] sample_new_chat(3)
    by (cases ?a; cases ?b) auto
qed

end
