(* ===== verification/Shell_Words.thy ===== *)
theory Shell_Words
  imports Json
begin

text \<open>
  Command lines as the source builds them and as a shell reads them back.  The printers are
  \<^verbatim>\<open>shlex.quote\<close> of the standard library and \<^verbatim>\<open>_powershell_quote\<close> of
  \<^verbatim>\<open>src/service/toolpack.py\<close>; the readers split a line into words and operators the way the POSIX
  shell and PowerShell do, for the constructs these lines use.  What a printer has to promise is the
  locale \<open>shell_quoting\<close>, interpreted for both.
\<close>

section \<open>Words\<close>

text \<open>A word is a list of characters that stand for themselves and of variables the shell replaces.\<close>

datatype part = Lit char | Var string

datatype token = Word "part list" | Op char

definition word_of :: "string \<Rightarrow> token" where
  "word_of s = Word (map Lit s)"

definition the_word :: "part list option \<Rightarrow> part list" where
  "the_word w = (case w of None \<Rightarrow> [] | Some p \<Rightarrow> p)"

definition emit :: "part list option \<Rightarrow> token list \<Rightarrow> token list" where
  "emit w ts = (case w of None \<Rightarrow> ts | Some p \<Rightarrow> Word p # ts)"

definition variable_char :: "char \<Rightarrow> bool" where
  "variable_char c \<longleftrightarrow> (let n = (of_char c :: nat) in (65 \<le> n \<and> n \<le> 90) \<or> (97 \<le> n \<and> n \<le> 122) \<or> (48 \<le> n \<and> n \<le> 57) \<or> n = 95)"

lemma word_simps [simp]:
  "the_word None = []" "the_word (Some p) = p" "emit None ts = ts" "emit (Some p) ts = Word p # ts"
  by (simp_all add: the_word_def emit_def)

lemma emit_none: "emit None = id"
  by (rule ext) simp

lemma emit_word: "emit (Some p) = (#) (Word p)"
  by (rule ext) simp

section \<open>What a quoting promises\<close>

text \<open>\<open>lex w s\<close> reads \<open>s\<close> with the word \<open>w\<close> begun; \<^const>\<open>None\<close> is a line outside of the constructs
  modelled.  A quoted text continues the word by its characters, whatever they are.\<close>

locale shell_quoting =
  fixes lex :: "part list option \<Rightarrow> string \<Rightarrow> token list option"
    and quote :: "string \<Rightarrow> string"
  assumes lex_quote: "(rest = [] \<or> hd rest \<noteq> CHR 0x27) \<Longrightarrow> lex w (quote s @ rest) = lex (Some (the_word w @ map Lit s)) rest"
    and lex_blank: "lex w (CHR '' '' # rest) = map_option (emit w) (lex None rest)"
    and lex_end: "lex w [] = Some (emit w [])"
begin

lemma lex_one: "lex None (quote s) = Some [word_of s]"
  using lex_quote[of "[]" None s] by (simp add: lex_end word_of_def)

lemma lex_word_blank: "lex None (quote s @ CHR '' '' # rest) = map_option ((#) (word_of s)) (lex None rest)"
  using lex_quote[of "CHR '' '' # rest" None s] by (simp add: lex_blank word_of_def emit_word)

lemma lex_words_then:
  assumes "rest = [] \<or> hd rest \<noteq> CHR 0x27" and "ss \<noteq> []"
  shows "lex None (join_with '' '' (map quote ss) @ rest)
    = map_option ((@) (map word_of (butlast ss))) (lex (Some (map Lit (last ss))) rest)"
  using assms(2)
proof (induction ss rule: induct_list012)
  case (2 s)
  then show ?case using lex_quote[OF assms(1), of None s] by (simp add: option.map_ident)
next
  case (3 s t ss)
  then show ?case by (simp add: lex_word_blank option.map_comp comp_def)
qed simp

lemma lex_words: "lex None (join_with '' '' (map quote ss)) = Some (map word_of ss)"
proof (cases "ss = []")
  case False
  then have "butlast ss @ [last ss] = ss" by simp
  then have "map word_of ss = map word_of (butlast ss) @ [word_of (last ss)]" by (metis list.simps(8,9) map_append)
  then show ?thesis using lex_words_then[of "[]" ss] False by (simp add: lex_end word_of_def)
qed (simp add: lex_end)

end

section \<open>The POSIX shell\<close>

text \<open>\<^verbatim>\<open>shlex.quote\<close>: the safe characters are letters, digits and \<^verbatim>\<open>_@%+=:,./-\<close>.\<close>

definition safe_char :: "char \<Rightarrow> bool" where
  "safe_char c \<longleftrightarrow> variable_char c \<or> c \<in> set ''@%+=:,./-''"

definition sh_quote :: "string \<Rightarrow> string" where
  "sh_quote s =
    (if s = [] then [CHR 0x27, CHR 0x27]
     else if list_all safe_char s then s
     else [CHR 0x27] @ concat (map (\<lambda>c. if c = CHR 0x27 then [CHR 0x27, CHR 0x22, CHR 0x27, CHR 0x22, CHR 0x27] else [c]) s) @ [CHR 0x27])"

text \<open>The reader: outside of quotes, in single quotes, in double quotes, in the name of a variable there.
  Every operator character is a token; an unquoted character with a meaning that is not modelled ends it.\<close>

datatype sh_mode = Sh_Plain | Sh_Single | Sh_Double | Sh_Name string

definition sh_blank :: "char \<Rightarrow> bool" where
  "sh_blank c \<longleftrightarrow> c = CHR '' '' \<or> c = CHR 0x09"

definition sh_op :: "char \<Rightarrow> bool" where
  "sh_op c \<longleftrightarrow> c \<in> {CHR 0x26, CHR 0x3B, CHR 0x7C, CHR 0x3C, CHR 0x3E, CHR 0x28, CHR 0x29, CHR 0x0A}"

definition sh_special :: "char \<Rightarrow> bool" where
  "sh_special c \<longleftrightarrow> c \<in> {CHR 0x24, CHR 0x60, CHR 0x5C, CHR 0x2A, CHR 0x3F, CHR 0x5B, CHR 0x5D, CHR 0x23, CHR 0x7E, CHR 0x21, CHR 0x7B, CHR 0x7D}"

fun sh_lex :: "sh_mode \<Rightarrow> part list option \<Rightarrow> string \<Rightarrow> token list option" where
  "sh_lex Sh_Plain w [] = Some (emit w [])"
| "sh_lex _ w [] = None"
| "sh_lex Sh_Plain w (c # cs) =
    (if sh_blank c then map_option (emit w) (sh_lex Sh_Plain None cs)
     else if c = CHR 0x27 then sh_lex Sh_Single (Some (the_word w)) cs
     else if c = CHR 0x22 then sh_lex Sh_Double (Some (the_word w)) cs
     else if sh_op c then map_option (\<lambda>ts. emit w (Op c # ts)) (sh_lex Sh_Plain None cs)
     else if sh_special c then None
     else sh_lex Sh_Plain (Some (the_word w @ [Lit c])) cs)"
| "sh_lex Sh_Single w (c # cs) =
    (if c = CHR 0x27 then sh_lex Sh_Plain w cs else sh_lex Sh_Single (Some (the_word w @ [Lit c])) cs)"
| "sh_lex Sh_Double w (c # cs) =
    (if c = CHR 0x22 then sh_lex Sh_Plain w cs
     else if c = CHR 0x24 then sh_lex (Sh_Name []) w cs
     else if c \<in> {CHR 0x60, CHR 0x5C} then None
     else sh_lex Sh_Double (Some (the_word w @ [Lit c])) cs)"
| "sh_lex (Sh_Name n) w (c # cs) =
    (if variable_char c then sh_lex (Sh_Name (n @ [c])) w cs
     else if n = [] \<or> c \<in> {CHR 0x24, CHR 0x60, CHR 0x5C} then None
     else if c = CHR 0x22 then sh_lex Sh_Plain (Some (the_word w @ [Var n])) cs
     else sh_lex Sh_Double (Some (the_word w @ [Var n, Lit c])) cs)"

definition sh_read :: "string \<Rightarrow> token list option" where
  "sh_read s = sh_lex Sh_Plain None s"

lemma safe_char_plain:
  assumes "safe_char c"
  shows "\<not> sh_blank c" "c \<noteq> CHR 0x27" "c \<noteq> CHR 0x22" "\<not> sh_op c" "\<not> sh_special c"
  using assms by (auto simp: safe_char_def variable_char_def sh_blank_def sh_op_def sh_special_def)

lemma sh_lex_safe: "list_all safe_char s \<Longrightarrow> s \<noteq> [] \<Longrightarrow> sh_lex Sh_Plain w (s @ rest) = sh_lex Sh_Plain (Some (the_word w @ map Lit s)) rest"
proof (induction s arbitrary: w)
  case (Cons c s)
  have step: "sh_lex Sh_Plain w (c # s @ rest) = sh_lex Sh_Plain (Some (the_word w @ [Lit c])) (s @ rest)" for w
    using Cons.prems(1) by (simp add: safe_char_plain)
  show ?case
  proof (cases "s = []")
    case True
    then show ?thesis using step by simp
  next
    case False
    then show ?thesis using step[of w] Cons.IH[of "Some (the_word w @ [Lit c])"] Cons.prems by simp
  qed
qed simp

lemma sh_lex_single:
  "sh_lex Sh_Single (Some p) (concat (map (\<lambda>c. if c = CHR 0x27 then [CHR 0x27, CHR 0x22, CHR 0x27, CHR 0x22, CHR 0x27] else [c]) s) @ CHR 0x27 # rest)
     = sh_lex Sh_Plain (Some (p @ map Lit s)) rest"
  by (induction s arbitrary: p) (simp_all add: sh_blank_def)

interpretation sh: shell_quoting "sh_lex Sh_Plain" sh_quote
proof
  fix rest w s
  show "sh_lex Sh_Plain w (sh_quote s @ rest) = sh_lex Sh_Plain (Some (the_word w @ map Lit s)) rest"
  proof (cases "s \<noteq> [] \<and> list_all safe_char s")
    case True
    then show ?thesis using sh_lex_safe[of s w rest] by (simp add: sh_quote_def)
  next
    case False
    then show ?thesis using sh_lex_single[of "the_word w" s rest] by (auto simp: sh_quote_def sh_blank_def)
  qed
qed (simp_all add: sh_blank_def)

section \<open>PowerShell\<close>

text \<open>\<^verbatim>\<open>_powershell_quote\<close>; the typographic quotation marks PowerShell takes for single quotes as well are
  outside of the characters of the model.\<close>

definition powershell_quote :: "string \<Rightarrow> string" where
  "powershell_quote s = [CHR 0x27] @ concat (map (\<lambda>c. if c = CHR 0x27 then [CHR 0x27, CHR 0x27] else [c]) s) @ [CHR 0x27]"

datatype ps_mode = Ps_Plain | Ps_Quoted | Ps_Name string

definition ps_op :: "char \<Rightarrow> bool" where
  "ps_op c \<longleftrightarrow> c \<in> {CHR 0x26, CHR 0x3B, CHR 0x7C, CHR 0x28, CHR 0x29, CHR 0x7B, CHR 0x7D, CHR 0x0A}"

definition ps_special :: "char \<Rightarrow> bool" where
  "ps_special c \<longleftrightarrow> c \<in> {CHR 0x22, CHR 0x60, CHR 0x23, CHR 0x40, CHR 0x3C, CHR 0x3E, CHR 0x5B, CHR 0x5D, CHR 0x2C}"

function (sequential) ps_lex :: "ps_mode \<Rightarrow> part list option \<Rightarrow> string \<Rightarrow> token list option" where
  "ps_lex Ps_Plain w [] = Some (emit w [])"
| "ps_lex Ps_Quoted w [] = None"
| "ps_lex (Ps_Name n) w [] = (if n = [] then None else Some (emit (Some (the_word w @ [Var n])) []))"
| "ps_lex Ps_Plain w (c # cs) =
    (if sh_blank c then map_option (emit w) (ps_lex Ps_Plain None cs)
     else if c = CHR 0x27 then ps_lex Ps_Quoted (Some (the_word w)) cs
     else if c = CHR 0x24 then ps_lex (Ps_Name []) w cs
     else if ps_op c then map_option (\<lambda>ts. emit w (Op c # ts)) (ps_lex Ps_Plain None cs)
     else if ps_special c then None
     else ps_lex Ps_Plain (Some (the_word w @ [Lit c])) cs)"
| "ps_lex Ps_Quoted w (c # cs) =
    (if c = CHR 0x27
     then case cs of
            d # ds \<Rightarrow> if d = CHR 0x27 then ps_lex Ps_Quoted (Some (the_word w @ [Lit d])) ds else ps_lex Ps_Plain w cs
          | [] \<Rightarrow> ps_lex Ps_Plain w cs
     else ps_lex Ps_Quoted (Some (the_word w @ [Lit c])) cs)"
| "ps_lex (Ps_Name n) w (c # cs) =
    (if variable_char c then ps_lex (Ps_Name (n @ [c])) w cs
     else if n = [] then None
     else ps_lex Ps_Plain (Some (the_word w @ [Var n])) (c # cs))"
  by pat_completeness auto
termination
  by (relation "measures [\<lambda>(m, w, s). length s, \<lambda>(m, w, s). case m of Ps_Name n \<Rightarrow> 1 | _ \<Rightarrow> 0]") auto

definition ps_read :: "string \<Rightarrow> token list option" where
  "ps_read s = ps_lex Ps_Plain None s"

lemma ps_lex_quoted:
  "(rest = [] \<or> hd rest \<noteq> CHR 0x27) \<Longrightarrow>
     ps_lex Ps_Quoted (Some p) (concat (map (\<lambda>c. if c = CHR 0x27 then [CHR 0x27, CHR 0x27] else [c]) s) @ CHR 0x27 # rest)
       = ps_lex Ps_Plain (Some (p @ map Lit s)) rest"
  by (induction s arbitrary: p) (auto split: list.split)

interpretation ps: shell_quoting "ps_lex Ps_Plain" powershell_quote
proof
  fix rest :: string and w s
  assume "rest = [] \<or> hd rest \<noteq> CHR 0x27"
  then show "ps_lex Ps_Plain w (powershell_quote s @ rest) = ps_lex Ps_Plain (Some (the_word w @ map Lit s)) rest"
    using ps_lex_quoted[of rest "the_word w" s] by (simp add: powershell_quote_def sh_blank_def)
qed (simp_all add: sh_blank_def)

text \<open>A POSIX shell that reads a PowerShell quotation finds one word, without the single quotes.\<close>

lemma sh_reads_powershell:
  "sh_lex Sh_Single (Some p) (concat (map (\<lambda>c. if c = CHR 0x27 then [CHR 0x27, CHR 0x27] else [c]) s) @ CHR 0x27 # rest)
     = sh_lex Sh_Plain (Some (p @ map Lit (filter (\<lambda>c. c \<noteq> CHR 0x27) s))) rest"
  by (induction s arbitrary: p) (simp_all add: sh_blank_def)

section \<open>Lines\<close>

lemma sh_blank_space [simp]: "sh_blank CHR '' ''"
  by (simp add: sh_blank_def)

declare sh_lex.simps [simp del] ps_lex.simps [simp del]

text \<open>A plain word of a line is read as itself wherever it stands.\<close>

lemma sh_lex_text:
  assumes "list_all safe_char s" and "s \<noteq> []"
  shows "sh_lex Sh_Plain None (s @ CHR '' '' # rest) = map_option ((#) (word_of s)) (sh_lex Sh_Plain None rest)"
  using sh_lex_safe[OF assms, of None "CHR '' '' # rest"] by (simp add: sh.lex_blank emit_word word_of_def)

lemma sh_lex_op: "sh_op c \<Longrightarrow> \<not> sh_blank c \<Longrightarrow> sh_lex Sh_Plain None (c # rest) = map_option ((#) (Op c)) (sh_lex Sh_Plain None rest)"
  by (auto simp: sh_lex.simps sh_op_def)

lemma sh_lex_space: "sh_lex Sh_Plain None (CHR '' '' # rest) = sh_lex Sh_Plain None rest"
  by (simp add: sh_lex.simps emit_none option.map_id0)

end
