(* ===== verification/Sandbox_Commands.thy ===== *)
theory Sandbox_Commands
  imports Workspaces Shell_Words
begin

text \<open>
  Running a command in a workspace (\<^verbatim>\<open>src/service/sandbox/commands.py\<close>): the checks before, the process
  that is started on this machine (\<^verbatim>\<open>src/service/sandbox/local_runtime.py\<close>) or the line sent to a
  remote one (\<^verbatim>\<open>src/service/sandbox/remote_runtime.py\<close>), and the table of running processes.  What the
  process does is a parameter.
\<close>

section \<open>Errors\<close>

text \<open>The exceptions that reach the handlers of a tool run, in the order of the handlers.\<close>

datatype tool_exc =
    Canceled_Exc
  | Timeout_Exc
  | Permission_Exc string
  | Value_Exc string
  | Not_Implemented_Exc string
  | Host_Key_Exc
  | Ssh_Denied_Exc
  | Os_Exc string
  | Other_Exc string

definition seq :: "'e + 'a \<Rightarrow> ('a \<Rightarrow> 'e + 'b) \<Rightarrow> 'e + 'b" where
  "seq r k = (case r of Inl e \<Rightarrow> Inl e | Inr x \<Rightarrow> k x)"

lemma seq_simps [simp]: "seq (Inl e) k = Inl e" "seq (Inr x) k = k x"
  by (simp_all add: seq_def)

lemma seq_Inr_iff: "seq r k = Inr y \<longleftrightarrow> (\<exists>x. r = Inr x \<and> k x = Inr y)"
  by (cases r) simp_all

section \<open>Remote hosts\<close>

definition remote_workspace_relative :: "int \<Rightarrow> tool_exc + string" where
  "remote_workspace_relative k =
    (if k \<le> 0 then Inl (Value_Exc ''workspace id must be positive'') else Inr (''.zj/sandboxes/'' @ show_int k @ ''/workspace''))"

definition remote_workspace_shell_path :: "int \<Rightarrow> tool_exc + string" where
  "remote_workspace_shell_path k =
     seq (remote_workspace_relative k) (\<lambda>p. Inr ([CHR 0x22] @ ''$HOME/'' @ p @ [CHR 0x22]))"

definition environment_name :: "string \<Rightarrow> bool" where
  "environment_name k \<longleftrightarrow> k \<noteq> [] \<and> list_all variable_char k \<and> \<not> is_digit (hd k)"

fun remote_assignments :: "environment \<Rightarrow> tool_exc + string list" where
  "remote_assignments [] = Inr []"
| "remote_assignments ((k, v) # env) =
    (if \<not> environment_name k then Inl (Value_Exc (''invalid remote environment variable: '' @ k))
     else seq (remote_assignments env) (\<lambda>as. Inr ((k @ ''='' @ sh_quote v) # as)))"

definition remote_command :: "int \<Rightarrow> string \<Rightarrow> environment \<Rightarrow> tool_exc + string" where
  "remote_command k command env =
     seq (remote_workspace_shell_path k) (\<lambda>workspace.
     seq (remote_assignments env) (\<lambda>as.
       let env_command = ''env'' @ (if as = [] then [] else '' '' @ join_with '' '' as)
       in Inr (''mkdir -p -- '' @ workspace @ '' && cd -- '' @ workspace @ '' && ''
               @ ''exec '' @ env_command @ '' sh -lc '' @ sh_quote command)))"

fun path_parts :: "string \<Rightarrow> string \<Rightarrow> string list" where
  "path_parts cur [] = [cur]"
| "path_parts cur (c # cs) = (if c = CHR ''/'' then cur # path_parts [] cs else path_parts (cur @ [c]) cs)"

definition normalize_remote_path :: "string \<Rightarrow> tool_exc + string" where
  "normalize_remote_path raw_path =
    (let normalized = lstrip_by (\<lambda>c. c = CHR ''/'') (map (\<lambda>c. if c = CHR 0x5C then CHR ''/'' else c) (if raw_path = [] then ''/'' else raw_path));
         parts = filter (\<lambda>p. p \<notin> {[], ''.''}) (path_parts [] normalized)
     in if ''..'' \<in> set parts then Inl (Permission_Exc ''path escapes the portable workspace'') else Inr (join_with ''/'' parts))"

definition posix_join :: "string \<Rightarrow> string \<Rightarrow> string" where
  "posix_join base p =
    (if take 1 p = ''/'' then p else if base = [] \<or> last base = CHR ''/'' then base @ p else base @ ''/'' @ p)"

definition remote_path :: "string \<Rightarrow> string \<Rightarrow> tool_exc + string" where
  "remote_path base raw_path =
     seq (normalize_remote_path raw_path) (\<lambda>relative. Inr (if relative \<noteq> [] then posix_join base relative else base))"

definition is_within :: "string \<Rightarrow> string \<Rightarrow> bool" where
  "is_within base path \<longleftrightarrow> path = base \<or> prefix (rstrip_by (\<lambda>c. c = CHR ''/'') base @ ''/'') path"

section \<open>This machine\<close>

definition shell_invocation :: "bool \<Rightarrow> string \<Rightarrow> string list" where
  "shell_invocation nt command =
    (if nt then [''powershell.exe'', ''-NoLogo'', ''-NoProfile'', ''-NonInteractive'', ''-Command'', command]
     else [''/bin/sh'', ''-lc'', command])"

text \<open>The directory of a session's agent: \<open>alnum\<close> is \<^verbatim>\<open>str.isalnum\<close> of a character.\<close>

definition agent_workspace_name :: "(char \<Rightarrow> bool) \<Rightarrow> string \<Rightarrow> tool_exc + string" where
  "agent_workspace_name alnum session =
    (let safe_id = take 128 (filter (\<lambda>c. alnum c \<or> c \<in> {CHR ''-'', CHR ''_''}) session)
     in if safe_id = [] then Inl (Value_Exc ''invalid agent session id'') else Inr safe_id)"

text \<open>One of the two roots of tools, when it is a directory: its path, its directories in order, and what the
  two searches below it find first.\<close>

record tool_root =
  rt_path :: string
  rt_directories :: "string list"
  rt_chrome :: "string option"
  rt_extension :: "string option"

definition first_found :: "(tool_root \<Rightarrow> string option) \<Rightarrow> tool_root list \<Rightarrow> string" where
  "first_found f roots = (case List.map_filter f roots of [] \<Rightarrow> [] | p # _ \<Rightarrow> p)"

definition portable_tool_environment :: "string \<Rightarrow> string \<Rightarrow> tool_root list \<Rightarrow> environment" where
  "portable_tool_environment pathsep existing roots =
    (let directories = concat (map (\<lambda>r. rt_path r # rt_directories r) roots);
         chrome = first_found rt_chrome roots;
         extension = first_found rt_extension roots
     in [(''PATH'', if directories \<noteq> [] then join_with pathsep (directories @ [existing]) else existing), (''PYTHONUTF8'', ''1'')]
        @ (if chrome \<noteq> [] then [(''CHROME_BIN'', chrome)] else [])
        @ (if extension \<noteq> [] then [(''ZJ_CHROME_EXTENSION_DIR'', extension)] else []))"

section \<open>Commands\<close>

datatype launch = Local_Process "string list" environment | Remote_Process string

record machine =
  mc_nt :: bool
  mc_environ :: environment
  mc_pathsep :: string
  mc_path :: string
  mc_roots :: "tool_root list"
  mc_quote :: "string \<Rightarrow> string"

definition max_command_length :: nat where
  "max_command_length = 32000"

definition prepare_command :: "machine \<Rightarrow> int \<Rightarrow> string \<Rightarrow> app_db \<Rightarrow> tool_exc + launch" where
  "prepare_command mc k raw db =
    (let command = str_strip raw in
     if command = [] then Inl (Value_Exc ''portable workspace command is required'')
     else if max_command_length < length command then Inl (Value_Exc ''portable workspace command is too long'')
     else case resolve_container_host k db of
       Inl e \<Rightarrow> Inl (Value_Exc e)
     | Inr (c, h) \<Rightarrow>
         if ct_status c \<noteq> C_RUNNING then Inl (Value_Exc ''portable workspace is not running'')
         else case resolve_portable_process_environment (mc_quote mc) c db of
           Inl e \<Rightarrow> Inl (Value_Exc e)
         | Inr egress \<Rightarrow>
             if is_local_host h
             then Inr (Local_Process (shell_invocation (mc_nt mc) command)
                   (env_update [(''ZJ_SANDBOX_ID'', show_int k)] (env_update egress
                     (env_update (portable_tool_environment (mc_pathsep mc) (mc_path mc) (mc_roots mc)) (mc_environ mc)))))
             else map_sum id Remote_Process (remote_command k command (env_update [(''ZJ_SANDBOX_ID'', show_int k)] egress)))"

text \<open>\<open>run l\<close> is how the process of a launch ends: an exception of starting it, the timeout, or its output with its exit
  status, which is missing when the connection ends first.\<close>

definition execute_sandbox_container_command ::
  "machine \<Rightarrow> (launch \<Rightarrow> tool_exc + (string \<times> int option)) \<Rightarrow> int \<Rightarrow> string \<Rightarrow> app_db \<Rightarrow> tool_exc + (string \<times> int)" where
  "execute_sandbox_container_command mc run k command db =
     seq (prepare_command mc k command db) (\<lambda>l.
     seq (run l) (\<lambda>(out, code). Inr (out, case code of None \<Rightarrow> 0 | Some c \<Rightarrow> c)))"

text \<open>The processes that run: workspace, whether the process has ended, and whether it was killed.\<close>

record running_process =
  rp_container :: int
  rp_ended :: bool
  rp_killed :: bool

definition cancel_running_process :: "string \<Rightarrow> (string \<times> running_process) list \<Rightarrow> bool \<times> (string \<times> running_process) list" where
  "cancel_running_process x table =
    (case map_of table x of
       None \<Rightarrow> (False, table)
     | Some p \<Rightarrow> (True, if rp_ended p then table else AList.update x (p\<lparr>rp_ended := True, rp_killed := True\<rparr>) table))"

definition cancel_running_processes_for_container :: "int \<Rightarrow> (string \<times> running_process) list \<Rightarrow> bool \<times> (string \<times> running_process) list" where
  "cancel_running_processes_for_container k table =
    (let selected = map fst (filter (\<lambda>(x, p). rp_container p = k) table)
     in (selected \<noteq> [], fold (\<lambda>x t. snd (cancel_running_process x t)) selected table))"

section \<open>The remote line\<close>

definition workspace_word :: "int \<Rightarrow> token" where
  "workspace_word k = Word (Var ''HOME'' # map Lit (''/.zj/sandboxes/'' @ show_int k @ ''/workspace''))"

lemma variable_char_safe: "variable_char c \<Longrightarrow> safe_char c"
  by (simp add: safe_char_def)

lemma digit_char_variable: "d < 10 \<Longrightarrow> variable_char (digit_char d)"
  by (simp add: variable_char_def digit_char_def hex_digits_def less_Suc_eq numeral_eq_Suc) auto

lemma show_nat_names: "list_all variable_char (show_nat n)"
  by (induction n rule: show_nat.induct) (subst show_nat.simps, simp add: digit_char_variable)

lemma show_int_names: "0 < k \<Longrightarrow> list_all variable_char (show_int k)"
  by (simp add: show_int_def show_nat_names)

definition double_plain :: "char \<Rightarrow> bool" where
  "double_plain c \<longleftrightarrow> c \<notin> {CHR 0x22, CHR 0x24, CHR 0x60, CHR 0x5C}"

lemma sh_lex_double: "list_all double_plain s \<Longrightarrow> sh_lex Sh_Double (Some p) (s @ rest) = sh_lex Sh_Double (Some (p @ map Lit s)) rest"
  by (induction s arbitrary: p) (auto simp: double_plain_def sh_lex.simps)

lemma variable_char_double: "variable_char c \<Longrightarrow> double_plain c"
  by (auto simp: double_plain_def variable_char_def)

lemma sh_lex_workspace:
  assumes "remote_workspace_shell_path k = Inr ws"
  shows "sh_lex Sh_Plain None (ws @ CHR '' '' # rest) = map_option ((#) (workspace_word k)) (sh_lex Sh_Plain None rest)"
proof -
  have k: "0 < k" and ws: "ws = [CHR 0x22] @ ''$HOME/'' @ (''.zj/sandboxes/'' @ show_int k @ ''/workspace'') @ [CHR 0x22]"
    using assms by (auto simp: remote_workspace_shell_path_def remote_workspace_relative_def split: if_splits)
  have d: "list_all double_plain (''.zj/sandboxes/'' @ show_int k @ ''/workspace'')"
    using show_int_names[OF k] by (simp add: list_all_iff variable_char_double) (simp add: double_plain_def)
  have "sh_lex Sh_Plain None (ws @ CHR '' '' # rest)
      = sh_lex Sh_Double (Some [Var ''HOME'', Lit (CHR ''/'')]) ((''.zj/sandboxes/'' @ show_int k @ ''/workspace'') @ CHR 0x22 # CHR '' '' # rest)"
    unfolding ws by (simp add: sh_lex.simps sh_blank_def variable_char_def)
  also have "\<dots> = map_option ((#) (workspace_word k)) (sh_lex Sh_Plain None rest)"
    unfolding sh_lex_double[OF d] by (simp add: sh_lex.simps workspace_word_def emit_word)
  finally show ?thesis .
qed

lemma sh_lex_assignment:
  assumes "environment_name k" and "rest = [] \<or> hd rest \<noteq> CHR 0x27"
  shows "sh_lex Sh_Plain None ((k @ ''='' @ sh_quote v) @ rest) = sh_lex Sh_Plain (Some (map Lit (k @ ''='' @ v))) rest"
proof -
  have "list_all safe_char (k @ ''='')"
    using assms(1) by (simp add: environment_name_def list_all_iff variable_char_safe) (simp add: safe_char_def)
  then have "sh_lex Sh_Plain None ((k @ ''='') @ (sh_quote v @ rest)) = sh_lex Sh_Plain (Some (map Lit (k @ ''=''))) (sh_quote v @ rest)"
    using sh_lex_safe[of "k @ ''=''" None "sh_quote v @ rest"] by simp
  then show ?thesis using sh.lex_quote[OF assms(2)] by simp
qed

lemma sh_lex_assignments:
  assumes "remote_assignments env = Inr as"
  shows "sh_lex Sh_Plain None ((if as = [] then [] else join_with '' '' as @ '' '') @ rest)
    = map_option ((@) (map (\<lambda>(k, v). word_of (k @ ''='' @ v)) env)) (sh_lex Sh_Plain None rest)"
  using assms
proof (induction env arbitrary: as)
  case (Cons kv env)
  obtain k v where kv: "kv = (k, v)" by (cases kv)
  with Cons.prems obtain bs where bs: "remote_assignments env = Inr bs" "as = (k @ ''='' @ sh_quote v) # bs" and k: "environment_name k"
    by (auto simp: seq_Inr_iff split: if_splits)
  let ?rest = "(if bs = [] then [] else join_with '' '' bs @ '' '') @ rest"
  have eq: "(if as = [] then [] else join_with '' '' as @ '' '') @ rest = (k @ ''='' @ sh_quote v) @ CHR '' '' # ?rest"
    unfolding bs(2) by (cases bs) auto
  have word: "sh_lex Sh_Plain None ((k @ ''='' @ sh_quote v) @ CHR '' '' # r) = map_option ((#) (word_of (k @ ''='' @ v))) (sh_lex Sh_Plain None r)" for r
    using sh_lex_assignment[OF k, of "CHR '' '' # r" v] by (simp add: sh.lex_blank emit_word word_of_def)
  show ?case
    unfolding eq word Cons.IH[OF bs(1)] unfolding kv by (simp add: option.map_comp comp_def)
next
  case Nil
  then show ?case by (cases "sh_lex Sh_Plain None rest") auto
qed

text \<open>A remote shell reads a command line exactly as it was meant.  For every workspace, environment and
  command the line makes and enters the directory of the workspace and executes \<^verbatim>\<open>env\<close> with the variables of the
  environment, each one word with its value, and \<^verbatim>\<open>sh -lc\<close> with the command as one argument; no text of the
  command or of a value is read as syntax of the line.\<close>

theorem remote_command_exact:
  assumes "remote_command k command env = Inr line"
  shows "sh_read line = Some ([word_of ''mkdir'', word_of ''-p'', word_of ''--'', workspace_word k, Op CHR ''&'', Op CHR ''&'',
      word_of ''cd'', word_of ''--'', workspace_word k, Op CHR ''&'', Op CHR ''&'', word_of ''exec'', word_of ''env'']
     @ map (\<lambda>(key, v). word_of (key @ ''='' @ v)) env @ [word_of ''sh'', word_of ''-lc'', word_of command])"
proof -
  obtain ws as where ws: "remote_workspace_shell_path k = Inr ws" and as: "remote_assignments env = Inr as"
    and line: "line = ''mkdir -p -- '' @ ws @ '' && cd -- '' @ ws @ '' && exec env '' @ (if as = [] then [] else join_with '' '' as @ '' '') @ ''sh -lc '' @ sh_quote command"
    using assms by (auto simp: remote_command_def seq_Inr_iff Let_def)
  have amp: "sh_lex Sh_Plain None (CHR ''&'' # rest) = map_option ((#) (Op CHR ''&'')) (sh_lex Sh_Plain None rest)" for rest
    by (rule sh_lex_op) (simp_all add: sh_op_def sh_blank_def)
  have safe: "list_all safe_char ''mkdir''" "list_all safe_char ''-p''" "list_all safe_char ''--''" "list_all safe_char ''cd''"
    "list_all safe_char ''exec''" "list_all safe_char ''env''" "list_all safe_char ''sh''" "list_all safe_char ''-lc''"
    by (simp_all add: safe_char_def variable_char_def)
  let ?tail = "''exec'' @ CHR '' '' # ''env'' @ CHR '' '' # (if as = [] then [] else join_with '' '' as @ '' '') @ ''sh'' @ CHR '' '' # ''-lc'' @ CHR '' '' # sh_quote command"
  have tail: "sh_lex Sh_Plain None ?tail
      = Some ([word_of ''exec'', word_of ''env''] @ map (\<lambda>(key, v). word_of (key @ ''='' @ v)) env @ [word_of ''sh'', word_of ''-lc'', word_of command])"
    unfolding sh_lex_text[OF safe(5) list.distinct(2)] sh_lex_text[OF safe(6) list.distinct(2)] sh_lex_assignments[OF as]
      sh_lex_text[OF safe(7) list.distinct(2)] sh_lex_text[OF safe(8) list.distinct(2)] sh.lex_one by simp
  have line': "line = ''mkdir'' @ CHR '' '' # ''-p'' @ CHR '' '' # ''--'' @ CHR '' '' # ws @ CHR '' '' # CHR ''&'' # CHR ''&'' # CHR '' '' # ''cd'' @ CHR '' '' # ''--'' @ CHR '' '' # ws @ CHR '' '' # CHR ''&'' # CHR ''&'' # CHR '' '' # ?tail"
    unfolding line by simp
  show ?thesis
    unfolding sh_read_def line' sh_lex_text[OF safe(1) list.distinct(2)] sh_lex_text[OF safe(2) list.distinct(2)]
      sh_lex_text[OF safe(3) list.distinct(2)] sh_lex_text[OF safe(4) list.distinct(2)] sh_lex_workspace[OF ws] amp sh_lex_space tail
    by simp
qed

lemma remote_command_sample:
  "sh_read ''mkdir -p -- \"$HOME/.zj/sandboxes/1/workspace\" && cd -- \"$HOME/.zj/sandboxes/1/workspace\" && exec env A=x sh -lc ls''
     = Some ([word_of ''mkdir'', word_of ''-p'', word_of ''--'', workspace_word 1, Op CHR ''&'', Op CHR ''&'',
      word_of ''cd'', word_of ''--'', workspace_word 1, Op CHR ''&'', Op CHR ''&'', word_of ''exec'', word_of ''env'']
     @ map (\<lambda>(key, v). word_of (key @ ''='' @ v)) [(''A'', ''x'')] @ [word_of ''sh'', word_of ''-lc'', word_of ''ls''])"
proof (rule remote_command_exact)
  show "remote_command 1 ''ls'' [(''A'', ''x'')]
    = Inr ''mkdir -p -- \"$HOME/.zj/sandboxes/1/workspace\" && cd -- \"$HOME/.zj/sandboxes/1/workspace\" && exec env A=x sh -lc ls''"
    by code_simp
qed

section \<open>Remote paths\<close>

lemma path_parts_join:
  "\<forall>p\<in>set ps. CHR ''/'' \<notin> set p \<Longrightarrow> ps \<noteq> [] \<Longrightarrow> path_parts cur (join_with ''/'' ps) = (cur @ hd ps) # tl ps"
proof (induction ps arbitrary: cur rule: induct_list012)
  case (2 p)
  have "path_parts cur p = [cur @ p]" if "CHR ''/'' \<notin> set p" for p cur
    using that by (induction p arbitrary: cur) auto
  with 2 show ?case by simp
next
  case (3 p q ps)
  have "path_parts cur (p @ CHR ''/'' # s) = (cur @ p) # path_parts [] s" if "CHR ''/'' \<notin> set p" for p cur s
    using that by (induction p arbitrary: cur) auto
  with 3 show ?case by simp
qed simp

lemma path_parts_no_slash: "CHR ''/'' \<notin> set cur \<Longrightarrow> p \<in> set (path_parts cur s) \<Longrightarrow> CHR ''/'' \<notin> set p"
  by (induction cur s rule: path_parts.induct) (auto split: if_splits)

text \<open>A path the user gives is read below the root of the workspace: its parts are names, none of them a way up.\<close>

lemma normalize_remote_parts:
  assumes "normalize_remote_path raw = Inr p" and "p \<noteq> []"
  shows "\<forall>q\<in>set (path_parts [] p). q \<notin> {[], ''.'', ''..''} \<and> CHR ''/'' \<notin> set q" "hd p \<noteq> CHR ''/''"
proof -
  obtain s where p: "p = join_with ''/'' (filter (\<lambda>p. p \<notin> {[], ''.''}) (path_parts [] s))"
    and up: "''..'' \<notin> set (filter (\<lambda>p. p \<notin> {[], ''.''}) (path_parts [] s))"
    using assms by (auto simp: normalize_remote_path_def Let_def split: if_splits)
  let ?ps = "filter (\<lambda>p. p \<notin> {[], ''.''}) (path_parts [] s)"
  have ne: "?ps \<noteq> []" using assms(2) p by auto
  have slash: "\<forall>q\<in>set ?ps. CHR ''/'' \<notin> set q" using path_parts_no_slash[of "[]" _ s] by auto
  have "path_parts [] p = ?ps" using path_parts_join[OF slash ne, of "[]"] ne unfolding p[symmetric] by simp
  then show "\<forall>q\<in>set (path_parts [] p). q \<notin> {[], ''.'', ''..''} \<and> CHR ''/'' \<notin> set q" using up slash by auto
  then have "hd (path_parts [] p) \<noteq> []" "hd (path_parts [] p) \<in> set (path_parts [] p)"
    using \<open>path_parts [] p = ?ps\<close> ne by (metis hd_in_set insertI1)+
  then show "hd p \<noteq> CHR ''/''" using assms(2) by (cases p) auto
qed

lemma remote_path_within:
  assumes "remote_path base raw = Inr p" and "base \<noteq> []" and "last base \<noteq> CHR ''/''"
  shows "is_within base p"
proof -
  obtain r where r: "normalize_remote_path raw = Inr r" "p = (if r \<noteq> [] then posix_join base r else base)"
    using assms(1) by (auto simp: remote_path_def seq_Inr_iff)
  have "rstrip_by (\<lambda>c. c = CHR ''/'') base = base"
    using assms(2,3) by (simp add: rstrip_by_def dropWhile_id hd_rev)
  moreover have "take 1 r \<noteq> ''/''" if "r \<noteq> []" using normalize_remote_parts(2)[OF r(1) that] that by (cases r) auto
  ultimately show ?thesis using r(2) assms(2,3) by (auto simp: is_within_def posix_join_def)
qed

end
