(* ===== verification/Toolpack.thy ===== *)
theory Toolpack
  imports Sandbox_Commands Urls Policy
begin

text \<open>
  The tools of the tool pack (\<^verbatim>\<open>src/service/toolpack.py\<close>): their table, the checks of an input, the
  command line of a run and what becomes of a run.  The programs the built-in tools hand to Python are
  texts of the source that another process reads; here they are a parameter.
\<close>

section \<open>Values\<close>

datatype tool_backend = T_LOCAL | T_SSH

datatype float_kind = Finite_Float int bool | Infinite_Float | Not_A_Number

text \<open>A value of the input: JSON, or a float with its truncation and whether it is zero, and its text.\<close>

datatype tool_value = Json_Value json | Float_Value float_kind string

type_synonym payload = "(string \<times> tool_value) list"

definition get_value :: "payload \<Rightarrow> string \<Rightarrow> tool_value" where
  "get_value p k = (case map_of p k of None \<Rightarrow> Json_Value JNull | Some v \<Rightarrow> v)"

fun value_truthy :: "tool_value \<Rightarrow> bool" where
  "value_truthy (Json_Value j) = truthy j"
| "value_truthy (Float_Value (Finite_Float _ zero) _) = (\<not> zero)"
| "value_truthy (Float_Value _ _) = True"

text \<open>The programs of the built-in tools.\<close>

datatype script = Web_Check | Tls_Inspect | Port_Scan | Dns_Lookup | Ping | Http_Headers | System_Info | Disk_Usage | Process_List
  | Net_Connections | Env_Check | Curl | Http_Probe | Dns_Trace | Port_Quickcheck | Log_Tail | Log_Grep | File_Hash | Archive_Inspect

datatype int_failure = Int_Text | Int_Type | Int_Size

text \<open>What the tools meet outside: the machine, the texts of the programs with their Base64 form, the check of a
  bracketed host, the printing of lists and dictionaries, Python's own texts of a failed \<^verbatim>\<open>int\<close>, the programs
  that are found, the parser of a line of output, the replacement character and what resolving an artifact
  raises.\<close>

record tool_world =
  tw_machine :: machine
  tw_script :: "script \<Rightarrow> string"
  tw_script64 :: "script \<Rightarrow> string"
  tw_bracket_ok :: "string \<Rightarrow> bool"
  tw_repr :: "json \<Rightarrow> string"
  tw_int_text :: "int_failure \<Rightarrow> tool_value \<Rightarrow> string"
  tw_found :: "string \<Rightarrow> bool"
  tw_loads :: "string \<Rightarrow> json option"
  tw_replacement :: string
  tw_resolve :: "string \<Rightarrow> tool_exc option"

fun value_text :: "tool_world \<Rightarrow> tool_value \<Rightarrow> string" where
  "value_text te (Json_Value (JStr s)) = s"
| "value_text te (Json_Value (JInt n)) = show_int n"
| "value_text te (Json_Value (JBool b)) = (if b then ''True'' else ''False'')"
| "value_text te (Json_Value JNull) = ''None''"
| "value_text te (Json_Value j) = tw_repr te j"
| "value_text te (Float_Value _ s) = s"

text \<open>\<^verbatim>\<open>int\<close> of a text: spaces around it, a sign, digits with single underscores between them, at most 4300.\<close>

fun digit_run :: "bool \<Rightarrow> string \<Rightarrow> string option" where
  "digit_run after_digit [] = (if after_digit then Some [] else None)"
| "digit_run after_digit (c # cs) =
    (if is_digit c then map_option ((#) c) (digit_run True cs)
     else if c = CHR ''_'' \<and> after_digit then digit_run False cs else None)"

definition max_int_digits :: nat where
  "max_int_digits = 4300"

definition int_of_text :: "string \<Rightarrow> int option" where
  "int_of_text s0 =
    (let s = str_strip s0;
         (negative, body) = (case s of c # cs \<Rightarrow> if c = CHR ''-'' then (True, cs) else if c = CHR ''+'' then (False, cs) else (False, s)
                             | [] \<Rightarrow> (False, []))
     in case digit_run False body of
          None \<Rightarrow> None
        | Some ds \<Rightarrow> if max_int_digits < length ds then None
                     else Some (if negative then - int (parse_decimal ds) else int (parse_decimal ds)))"

fun int_of_value :: "tool_value \<Rightarrow> int_failure + int" where
  "int_of_value (Json_Value (JInt n)) = Inr n"
| "int_of_value (Json_Value (JBool b)) = Inr (if b then 1 else 0)"
| "int_of_value (Json_Value (JStr s)) = (case int_of_text s of None \<Rightarrow> Inl Int_Text | Some n \<Rightarrow> Inr n)"
| "int_of_value (Json_Value _) = Inl Int_Type"
| "int_of_value (Float_Value (Finite_Float n _) _) = Inr n"
| "int_of_value (Float_Value Not_A_Number _) = Inl Int_Text"
| "int_of_value (Float_Value Infinite_Float _) = Inl Int_Size"

text \<open>An \<^verbatim>\<open>int\<close> whose failure nothing catches before the handlers of the run.\<close>

definition plain_int :: "tool_world \<Rightarrow> tool_value \<Rightarrow> tool_exc + int" where
  "plain_int te v =
    (case int_of_value v of
       Inr n \<Rightarrow> Inr n
     | Inl Int_Text \<Rightarrow> Inl (Value_Exc (tw_int_text te Int_Text v))
     | Inl e \<Rightarrow> Inl (Other_Exc (tw_int_text te e v)))"

section \<open>The checks of an input\<close>

definition control_char :: "char \<Rightarrow> bool" where
  "control_char c \<longleftrightarrow> (of_char c :: nat) < 32"

definition required_text :: "payload \<Rightarrow> string \<Rightarrow> tool_exc + string" where
  "required_text p field =
    (case get_value p field of
       Json_Value (JStr s) \<Rightarrow>
         let v = str_strip s in
         if v = [] then Inl (Value_Exc (field @ '' is required''))
         else if 4096 < length v \<or> list_ex control_char v then Inl (Value_Exc (field @ '' is invalid''))
         else Inr v
     | _ \<Rightarrow> Inl (Value_Exc (field @ '' is required'')))"

definition required_text_allow_newlines :: "payload \<Rightarrow> string \<Rightarrow> tool_exc + string" where
  "required_text_allow_newlines p field =
    (case get_value p field of
       Json_Value (JStr s) \<Rightarrow>
         let v = str_strip s in
         if v = [] then Inl (Value_Exc (field @ '' is required''))
         else if 8192 < length v \<or> list_ex (\<lambda>c. control_char c \<and> c \<notin> {CHR 0x0A, CHR 0x0D, CHR 0x09}) v
         then Inl (Value_Exc (field @ '' is invalid''))
         else Inr v
     | _ \<Rightarrow> Inl (Value_Exc (field @ '' is required'')))"

definition web_url :: "tool_world \<Rightarrow> string \<Rightarrow> tool_exc + bool" where
  "web_url te v =
    (case urlsplit (tw_bracket_ok te) v of
       None \<Rightarrow> Inl (Value_Exc ''Invalid IPv6 URL'')
     | Some u \<Rightarrow> Inr (su_scheme u \<in> {''http'', ''https''} \<and> url_hostname u \<noteq> None))"

definition required_url :: "tool_world \<Rightarrow> payload \<Rightarrow> string \<Rightarrow> tool_exc + string" where
  "required_url te p field =
     seq (required_text p field) (\<lambda>v.
     seq (web_url te v) (\<lambda>ok. if ok then Inr v else Inl (Value_Exc (field @ '' must be an http or https URL''))))"

fun split_on :: "char \<Rightarrow> string \<Rightarrow> string \<Rightarrow> string list" where
  "split_on sep cur [] = [cur]"
| "split_on sep cur (c # cs) = (if c = sep then cur # split_on sep [] cs else split_on sep (cur @ [c]) cs)"

fun check_urls :: "tool_world \<Rightarrow> string \<Rightarrow> string list \<Rightarrow> tool_exc option" where
  "check_urls te field [] = None"
| "check_urls te field (u # us) =
    (case web_url te u of
       Inl e \<Rightarrow> Some e
     | Inr ok \<Rightarrow> if ok then check_urls te field us else Some (Value_Exc (field @ '' contains an invalid http or https URL'')))"

definition required_urls_text :: "tool_world \<Rightarrow> payload \<Rightarrow> string \<Rightarrow> nat \<Rightarrow> tool_exc + string" where
  "required_urls_text te p field max_items =
     seq (required_text_allow_newlines p field) (\<lambda>v.
       let items = filter (\<lambda>s. s \<noteq> []) (map str_strip (split_on CHR '','' [] (map (\<lambda>c. if c = CHR 0x0A then CHR '','' else c) v)))
       in if items = [] then Inl (Value_Exc (field @ '' is required''))
          else if max_items < length items
          then Inl (Permission_Exc (field @ '' count exceeds policy limit '' @ show_int (int max_items)))
          else case check_urls te field items of Some e \<Rightarrow> Inl e | None \<Rightarrow> Inr (join_with [CHR 0x0A] items))"

definition occurs_in :: "string \<Rightarrow> string \<Rightarrow> bool" where
  "occurs_in sub s \<longleftrightarrow> list_ex (prefix sub) (suffixes s)"

definition required_host :: "payload \<Rightarrow> string \<Rightarrow> tool_exc + string" where
  "required_host p field =
     seq (required_text p field) (\<lambda>v.
       if occurs_in ''://'' v \<or> CHR ''/'' \<in> set v \<or> CHR 0x5C \<in> set v \<or> list_ex py_space v
       then Inl (Value_Exc (field @ '' must be a host name or IP address'')) else Inr v)"

definition required_path_text :: "payload \<Rightarrow> string \<Rightarrow> tool_exc + string" where
  "required_path_text p field =
     seq (required_text p field) (\<lambda>v. if CHR 0x00 \<in> set v then Inl (Value_Exc (field @ '' is invalid'')) else Inr v)"

definition optional_text :: "payload \<Rightarrow> string \<Rightarrow> string \<Rightarrow> tool_exc + string" where
  "optional_text p field fallback =
    (case get_value p field of
       Json_Value JNull \<Rightarrow> Inr fallback
     | Json_Value (JStr s) \<Rightarrow>
         let v = str_strip s in
         if v = [] then Inr fallback
         else if 4096 < length v \<or> list_ex control_char v then Inl (Value_Exc (field @ '' is invalid'')) else Inr v
     | _ \<Rightarrow> Inl (Value_Exc (field @ '' must be text'')))"

definition optional_bool :: "payload \<Rightarrow> string \<Rightarrow> bool \<Rightarrow> tool_exc + bool" where
  "optional_bool p field fallback =
    (case get_value p field of
       Json_Value JNull \<Rightarrow> Inr fallback
     | Json_Value (JBool b) \<Rightarrow> Inr b
     | Json_Value (JStr s) \<Rightarrow>
         if str_lower s \<in> {''true'', ''false''} then Inr (str_lower s = ''true'') else Inl (Value_Exc (field @ '' must be a boolean''))
     | _ \<Rightarrow> Inl (Value_Exc (field @ '' must be a boolean'')))"

text \<open>\<^verbatim>\<open>str.upper\<close>; the sharp s becomes two letters, and two letters whose capital is outside of the characters
  here stay.\<close>

definition upper_text :: "string \<Rightarrow> string" where
  "upper_text s = concat (map (\<lambda>c. let n = (of_char c :: nat) in
     if (97 \<le> n \<and> n \<le> 122) \<or> (224 \<le> n \<and> n \<le> 254 \<and> n \<noteq> 247) then [char_of (n - 32)]
     else if n = 223 then ''SS'' else [c]) s)"

text \<open>The allowed values in their sorted order.\<close>

definition optional_enum :: "tool_world \<Rightarrow> payload \<Rightarrow> string \<Rightarrow> string list \<Rightarrow> string \<Rightarrow> tool_exc + string" where
  "optional_enum te p field allowed fallback =
    (let raw = get_value p field; v = (if value_truthy raw then value_text te raw else fallback) in
     if v \<in> set allowed then Inr v
     else if upper_text v \<in> set allowed then Inr (upper_text v)
     else if str_lower v \<in> set allowed then Inr (str_lower v)
     else Inl (Value_Exc (field @ '' must be one of '' @ join_with '', '' allowed)))"

definition optional_int :: "tool_world \<Rightarrow> payload \<Rightarrow> string \<Rightarrow> int \<Rightarrow> int \<Rightarrow> int \<Rightarrow> tool_exc + int" where
  "optional_int te p field fallback minimum maximum =
    (let raw = (case map_of p field of None \<Rightarrow> Json_Value (JInt fallback) | Some v \<Rightarrow> v) in
     case int_of_value raw of
       Inl Int_Size \<Rightarrow> Inl (Other_Exc (tw_int_text te Int_Size raw))
     | Inl _ \<Rightarrow> Inl (Value_Exc (field @ '' must be an integer''))
     | Inr v \<Rightarrow> if v < minimum \<or> maximum < v
                then Inl (Permission_Exc (field @ '' must be between '' @ show_int minimum @ '' and '' @ show_int maximum)) else Inr v)"

fun collect_ports :: "tool_world \<Rightarrow> string \<Rightarrow> string list \<Rightarrow> tool_exc + int list" where
  "collect_ports te field [] = Inr []"
| "collect_ports te field (part # parts) =
    (let item = str_strip part in
     if item = [] then collect_ports te field parts
     else if CHR ''-'' \<in> set item
     then let (a, _, b) = str_partition CHR ''-'' item in
          seq (plain_int te (Json_Value (JStr a))) (\<lambda>start.
          seq (plain_int te (Json_Value (JStr b))) (\<lambda>stop.
            if stop < start then Inl (Value_Exc (field @ '' range is invalid''))
            else seq (collect_ports te field parts) (\<lambda>ps. Inr ([start..stop] @ ps))))
     else seq (plain_int te (Json_Value (JStr item))) (\<lambda>n. seq (collect_ports te field parts) (\<lambda>ps. Inr (n # ps))))"

definition required_ports :: "tool_world \<Rightarrow> payload \<Rightarrow> string \<Rightarrow> int \<Rightarrow> tool_exc + int list" where
  "required_ports te p field max_ports =
     seq (required_text p field) (\<lambda>raw.
     seq (collect_ports te field (split_on CHR '','' [] raw)) (\<lambda>ports.
       let normalized = sort (remdups ports) in
       if normalized = [] \<or> list_ex (\<lambda>n. n < 1 \<or> 65535 < n) normalized
       then Inl (Value_Exc (field @ '' contains an invalid TCP port''))
       else if max_ports < int (length normalized)
       then Inl (Permission_Exc (''port count exceeds policy limit '' @ show_int max_ports))
       else Inr normalized))"

definition optional_rate :: "tool_world \<Rightarrow> payload \<Rightarrow> tool_exc + string list" where
  "optional_rate te p =
    (case get_value p ''rps'' of
       Json_Value JNull \<Rightarrow> Inr []
     | v \<Rightarrow> seq (plain_int te v) (\<lambda>n. Inr [''-rate'', show_int (max 1 (min n 50))]))"

end
