(* ===== verification/Tool_Table.thy ===== *)
theory Tool_Table
  imports Toolpack
begin

text \<open>
  The table of the tool pack: manifests and the arguments each tool builds from a checked input, in the
  order of \<^verbatim>\<open>_TOOLS\<close> and \<^verbatim>\<open>_operations_tool_definitions\<close> of \<^verbatim>\<open>src/service/toolpack.py\<close>.
\<close>

section \<open>Definitions of tools\<close>

record tool_manifest =
  tm_id :: string
  tm_name :: string
  tm_description :: string
  tm_backend :: tool_backend
  tm_executable :: string
  tm_category :: string
  tm_action_type :: string
  tm_risk :: risk_level
  tm_default_timeout :: int
  tm_max_timeout :: int
  tm_input_schema :: json
  tm_output_schema :: json
  tm_policy :: "(string \<times> json) list"

definition manifest_valid :: "tool_manifest \<Rightarrow> bool" where
  "manifest_valid m \<longleftrightarrow> text_within 1 128 (tm_id m) \<and> text_within 1 128 (tm_name m) \<and> text_within 1 128 (tm_executable m)
     \<and> text_within 1 64 (tm_category m) \<and> text_within 3 128 (tm_action_type m) \<and> 0 < tm_default_timeout m \<and> 0 < tm_max_timeout m"

record tool_definition =
  td_manifest :: tool_manifest
  td_install_hint :: string
  td_build_args :: "payload \<Rightarrow> tool_exc + string list"
  td_stdin :: "(payload \<Rightarrow> tool_exc + string) option"

fun all_args :: "(tool_exc + string) list \<Rightarrow> tool_exc + string list" where
  "all_args [] = Inr []"
| "all_args (a # as) = seq a (\<lambda>x. seq (all_args as) (\<lambda>xs. Inr (x # xs)))"

definition number_arg :: "tool_exc + int \<Rightarrow> tool_exc + string" where
  "number_arg r = map_sum id show_int r"

section \<open>Schemas\<close>

definition text_schema :: "int \<Rightarrow> int \<Rightarrow> json" where
  "text_schema low high = JObj [(''type'', JStr ''string''), (''minLength'', JInt low), (''maxLength'', JInt high)]"

definition long_text_schema :: "int \<Rightarrow> json" where
  "long_text_schema high = JObj [(''type'', JStr ''string''), (''maxLength'', JInt high)]"

definition integer_schema :: "int \<Rightarrow> int \<Rightarrow> json" where
  "integer_schema low high = JObj [(''type'', JStr ''integer''), (''minimum'', JInt low), (''maximum'', JInt high)]"

definition enum_schema :: "string list \<Rightarrow> json" where
  "enum_schema vs = JObj [(''type'', JStr ''string''), (''enum'', JList (map JStr vs))]"

definition boolean_schema :: json where
  "boolean_schema = JObj [(''type'', JStr ''boolean'')]"

definition object_schema :: "string list \<Rightarrow> (string \<times> json) list \<Rightarrow> json" where
  "object_schema required properties =
     JObj ((''type'', JStr ''object'') # (if required = [] then [] else [(''required'', JList (map JStr required))])
           @ [(''properties'', JObj properties), (''additionalProperties'', JBool False)])"

definition schema_required :: "json \<Rightarrow> string list" where
  "schema_required schema =
    (case json_get schema ''required'' of
       JList vs \<Rightarrow> List.map_filter (\<lambda>v. case v of JStr s \<Rightarrow> Some s | _ \<Rightarrow> None) vs
     | _ \<Rightarrow> [])"

definition target_input_schema :: "string \<Rightarrow> json" where
  "target_input_schema required =
     object_schema [required] [(required, text_schema 1 2048), (''rps'', integer_schema 1 50), (''concurrency'', integer_schema 1 20)]"

definition base_output_schema :: json where
  "base_output_schema =
     JObj [(''type'', JStr ''object''),
           (''properties'', JObj [(''tool_id'', JObj [(''type'', JStr ''string'')]), (''stdout'', JObj [(''type'', JStr ''string'')]),
              (''records'', JObj [(''type'', JStr ''array'')])]),
           (''required'', JList [JStr ''tool_id'', JStr ''stdout'', JStr ''records''])]"

section \<open>Tools that run a Python program of the source\<close>

text \<open>\<^verbatim>\<open>str.replace\<close> of a non-empty text.\<close>

fun replace_from :: "string \<Rightarrow> string \<Rightarrow> nat \<Rightarrow> string \<Rightarrow> string" where
  "replace_from old new k [] = []"
| "replace_from old new k (c # cs) =
    (if 0 < k then replace_from old new (k - 1) cs
     else if prefix old (c # cs) then new @ replace_from old new (length old - 1) cs
     else c # replace_from old new 0 cs)"

definition str_replace :: "string \<Rightarrow> string \<Rightarrow> string \<Rightarrow> string" where
  "str_replace old new s = replace_from old new 0 s"

definition python_bootstrap :: string where
  "python_bootstrap = ''import base64,sys; code=sys.argv[1]; sys.argv=[sys.argv[0]]+sys.argv[2:]; exec(base64.b64decode(code).decode())''"

text \<open>What a pair of tools has in common: the suffix of its identifiers, its texts, its schema, the program with the
  arguments it takes and the two timeouts.\<close>

record python_pair =
  pp_suffix :: string
  pp_description :: string
  pp_category :: string
  pp_action_type :: string
  pp_schema :: json
  pp_script :: script
  pp_args :: "tool_world \<Rightarrow> payload \<Rightarrow> (tool_exc + string) list"
  pp_default_timeout :: int
  pp_max_timeout :: int

definition builtin_python_tool :: "tool_world \<Rightarrow> string \<Rightarrow> string \<Rightarrow> tool_backend \<Rightarrow> python_pair \<Rightarrow> tool_definition" where
  "builtin_python_tool te tool_id description backend q =
    (let executable = (if backend = T_LOCAL then ''python'' else ''python3'') in
     \<lparr>td_manifest = \<lparr>tm_id = tool_id, tm_name = pp_suffix q, tm_description = description, tm_backend = backend,
        tm_executable = executable, tm_category = pp_category q, tm_action_type = pp_action_type q, tm_risk = L1,
        tm_default_timeout = pp_default_timeout q, tm_max_timeout = pp_max_timeout q, tm_input_schema = pp_schema q,
        tm_output_schema = base_output_schema, tm_policy = [(''requires_scope'', JBool True)]\<rparr>,
      td_install_hint = executable @ '' runtime is required for built-in operations tools.'',
      td_build_args = (\<lambda>p. seq (all_args (pp_args q te p))
         (\<lambda>as. Inr ([executable, ''-c'', python_bootstrap, tw_script64 te (pp_script q)] @ as))),
      td_stdin = None\<rparr>)"

definition paired_python_tools :: "tool_world \<Rightarrow> python_pair \<Rightarrow> (string \<times> tool_definition) list" where
  "paired_python_tools te q =
     [(''local.'' @ pp_suffix q, builtin_python_tool te (''local.'' @ pp_suffix q)
        (str_replace ''workspace'' ''local workspace'' (pp_description q)) T_LOCAL q),
      (''ssh.'' @ pp_suffix q, builtin_python_tool te (''ssh.'' @ pp_suffix q)
        (str_replace ''workspace'' ''SSH workspace'' (pp_description q)) T_SSH q)]"

definition system_info_pair :: python_pair where
  "system_info_pair =
     \<lparr>pp_suffix = ''system.info'', pp_description = ''Collect read-only host and runtime facts from the workspace.'',
      pp_category = ''ops-system'', pp_action_type = ''ops.system.info'',
      pp_schema = object_schema []
       [],
      pp_script = System_Info,
      pp_args = (\<lambda>te p. []),
      pp_default_timeout = 30, pp_max_timeout = 60\<rparr>"

definition disk_usage_pair :: python_pair where
  "disk_usage_pair =
     \<lparr>pp_suffix = ''disk.usage'', pp_description = ''Summarize disk usage for a bounded path from the workspace.'',
      pp_category = ''ops-system'', pp_action_type = ''ops.disk.usage'',
      pp_schema = object_schema []
       [(''path'', text_schema 1 4096),
        (''max_depth'', integer_schema 0 4),
        (''top_n'', integer_schema 1 50)],
      pp_script = Disk_Usage,
      pp_args = (\<lambda>te p. [optional_text p ''path'' ''.'',
        number_arg (optional_int te p ''max_depth'' 1 0 4),
        number_arg (optional_int te p ''top_n'' 20 1 50)]),
      pp_default_timeout = 60, pp_max_timeout = 120\<rparr>"

definition process_list_pair :: python_pair where
  "process_list_pair =
     \<lparr>pp_suffix = ''process.list'', pp_description = ''List running processes with an optional keyword filter.'',
      pp_category = ''ops-system'', pp_action_type = ''ops.process.list'',
      pp_schema = object_schema []
       [(''keyword'', long_text_schema 128),
        (''limit'', integer_schema 1 200)],
      pp_script = Process_List,
      pp_args = (\<lambda>te p. [map_sum id (\<lambda>s. if s = [] then ''__all__'' else s) (optional_text p ''keyword'' ''__all__''),
        number_arg (optional_int te p ''limit'' 50 1 200)]),
      pp_default_timeout = 30, pp_max_timeout = 60\<rparr>"

definition net_connections_pair :: python_pair where
  "net_connections_pair =
     \<lparr>pp_suffix = ''net.connections'', pp_description = ''List TCP/UDP connection rows from the workspace.'',
      pp_category = ''ops-network'', pp_action_type = ''ops.net.connections'',
      pp_schema = object_schema []
       [(''state'', long_text_schema 64),
        (''limit'', integer_schema 1 300)],
      pp_script = Net_Connections,
      pp_args = (\<lambda>te p. [map_sum id (\<lambda>s. if s = [] then ''__all__'' else s) (optional_text p ''state'' ''__all__''),
        number_arg (optional_int te p ''limit'' 100 1 300)]),
      pp_default_timeout = 30, pp_max_timeout = 60\<rparr>"

definition env_check_pair :: python_pair where
  "env_check_pair =
     \<lparr>pp_suffix = ''env.check'', pp_description = ''Check PATH and common operations/security tools in the workspace.'',
      pp_category = ''ops-system'', pp_action_type = ''ops.env.check'',
      pp_schema = object_schema []
       [(''tools'', text_schema 1 512)],
      pp_script = Env_Check,
      pp_args = (\<lambda>te p. [optional_text p ''tools'' ''python,python3,node,pnpm,git,curl,nmap,sqlmap,httpx,dnsx,ffuf'']),
      pp_default_timeout = 30, pp_max_timeout = 60\<rparr>"

definition curl_pair :: python_pair where
  "curl_pair =
     \<lparr>pp_suffix = ''curl'', pp_description = ''Run a bounded HTTP request from the workspace.'',
      pp_category = ''ops-http'', pp_action_type = ''web.http.request'',
      pp_schema = object_schema [''url'']
       [(''url'', text_schema 1 2048),
        (''method'', enum_schema [''GET'', ''HEAD'', ''POST'', ''PUT'', ''PATCH'']),
        (''body'', long_text_schema 8192),
        (''timeout_seconds'', integer_schema 1 30)],
      pp_script = Curl,
      pp_args = (\<lambda>te p. [required_url te p ''url'',
        optional_enum te p ''method'' [''GET'', ''HEAD'', ''PATCH'', ''POST'', ''PUT''] ''GET'',
        number_arg (optional_int te p ''timeout_seconds'' 10 1 30),
        optional_text p ''body'' []]),
      pp_default_timeout = 30, pp_max_timeout = 60\<rparr>"

definition http_probe_pair :: python_pair where
  "http_probe_pair =
     \<lparr>pp_suffix = ''http.probe'', pp_description = ''Probe up to 20 HTTP URLs from the workspace.'',
      pp_category = ''ops-http'', pp_action_type = ''web.http.probe'',
      pp_schema = object_schema [''urls'']
       [(''urls'', text_schema 1 8192),
        (''method'', enum_schema [''GET'', ''HEAD'']),
        (''timeout_seconds'', integer_schema 1 30)],
      pp_script = Http_Probe,
      pp_args = (\<lambda>te p. [required_urls_text te p ''urls'' 20,
        optional_enum te p ''method'' [''GET'', ''HEAD''] ''HEAD'',
        number_arg (optional_int te p ''timeout_seconds'' 10 1 30)]),
      pp_default_timeout = 60, pp_max_timeout = 120\<rparr>"

definition dns_trace_pair :: python_pair where
  "dns_trace_pair =
     \<lparr>pp_suffix = ''dns.trace'', pp_description = ''Resolve DNS records and include nslookup output when available.'',
      pp_category = ''ops-dns'', pp_action_type = ''network.dns.trace'',
      pp_schema = object_schema [''host'']
       [(''host'', text_schema 1 255),
        (''record_type'', enum_schema [''A'', ''AAAA'', ''MX'', ''TXT'', ''NS'', ''CNAME'', ''ANY'']),
        (''timeout_seconds'', integer_schema 1 10)],
      pp_script = Dns_Trace,
      pp_args = (\<lambda>te p. [required_host p ''host'',
        optional_enum te p ''record_type'' [''A'', ''AAAA'', ''ANY'', ''CNAME'', ''MX'', ''NS'', ''TXT''] ''A'',
        number_arg (optional_int te p ''timeout_seconds'' 5 1 10)]),
      pp_default_timeout = 30, pp_max_timeout = 60\<rparr>"

definition port_quickcheck_pair :: python_pair where
  "port_quickcheck_pair =
     \<lparr>pp_suffix = ''port.quickcheck'', pp_description = ''Check a predefined common/web/database port profile.'',
      pp_category = ''ops-network'', pp_action_type = ''network.port.quickcheck'',
      pp_schema = object_schema [''host'']
       [(''host'', text_schema 1 255),
        (''profile'', enum_schema [''common'', ''web'', ''db'']),
        (''timeout_seconds'', integer_schema 1 5)],
      pp_script = Port_Quickcheck,
      pp_args = (\<lambda>te p. [required_host p ''host'',
        map_sum id str_lower (optional_enum te p ''profile'' [''common'', ''db'', ''web''] ''common''),
        number_arg (optional_int te p ''timeout_seconds'' 1 1 5)]),
      pp_default_timeout = 30, pp_max_timeout = 60\<rparr>"

definition log_tail_pair :: python_pair where
  "log_tail_pair =
     \<lparr>pp_suffix = ''log.tail'', pp_description = ''Read the last N lines of a text log file from the workspace.'',
      pp_category = ''ops-file'', pp_action_type = ''file.log.tail'',
      pp_schema = object_schema [''path'']
       [(''path'', text_schema 1 4096),
        (''lines'', integer_schema 1 500)],
      pp_script = Log_Tail,
      pp_args = (\<lambda>te p. [required_path_text p ''path'',
        number_arg (optional_int te p ''lines'' 100 1 500)]),
      pp_default_timeout = 30, pp_max_timeout = 60\<rparr>"

definition log_grep_pair :: python_pair where
  "log_grep_pair =
     \<lparr>pp_suffix = ''log.grep'', pp_description = ''Search a text log file for a bounded number of matches.'',
      pp_category = ''ops-file'', pp_action_type = ''file.log.grep'',
      pp_schema = object_schema [''path'', ''pattern'']
       [(''path'', text_schema 1 4096),
        (''pattern'', text_schema 1 256),
        (''ignore_case'', boolean_schema),
        (''max_matches'', integer_schema 1 200)],
      pp_script = Log_Grep,
      pp_args = (\<lambda>te p. [required_path_text p ''path'',
        required_text p ''pattern'',
        map_sum id (\<lambda>b. if b then ''true'' else ''false'') (optional_bool p ''ignore_case'' True),
        number_arg (optional_int te p ''max_matches'' 50 1 200)]),
      pp_default_timeout = 30, pp_max_timeout = 60\<rparr>"

definition file_hash_pair :: python_pair where
  "file_hash_pair =
     \<lparr>pp_suffix = ''file.hash'', pp_description = ''Calculate a read-only file hash from the workspace.'',
      pp_category = ''ops-file'', pp_action_type = ''file.hash'',
      pp_schema = object_schema [''path'']
       [(''path'', text_schema 1 4096),
        (''algorithm'', enum_schema [''sha256'', ''sha1'', ''md5''])],
      pp_script = File_Hash,
      pp_args = (\<lambda>te p. [required_path_text p ''path'',
        optional_enum te p ''algorithm'' [''md5'', ''sha1'', ''sha256''] ''sha256'']),
      pp_default_timeout = 30, pp_max_timeout = 60\<rparr>"

definition archive_inspect_pair :: python_pair where
  "archive_inspect_pair =
     \<lparr>pp_suffix = ''archive.inspect'', pp_description = ''List archive entries without extracting files.'',
      pp_category = ''ops-file'', pp_action_type = ''archive.inspect'',
      pp_schema = object_schema [''path'']
       [(''path'', text_schema 1 4096),
        (''max_entries'', integer_schema 1 500)],
      pp_script = Archive_Inspect,
      pp_args = (\<lambda>te p. [required_path_text p ''path'',
        number_arg (optional_int te p ''max_entries'' 100 1 500)]),
      pp_default_timeout = 30, pp_max_timeout = 60\<rparr>"

definition operations_pairs :: "python_pair list" where
  "operations_pairs = [system_info_pair, disk_usage_pair, process_list_pair, net_connections_pair, env_check_pair, curl_pair,
     http_probe_pair, dns_trace_pair, port_quickcheck_pair, log_tail_pair, log_grep_pair, file_hash_pair, archive_inspect_pair]"

definition operations_tool_definitions :: "tool_world \<Rightarrow> (string \<times> tool_definition) list" where
  "operations_tool_definitions te = concat (map (paired_python_tools te) operations_pairs)"

section \<open>Other tools\<close>

definition webcheck_tool :: "tool_world \<Rightarrow> tool_definition" where
  "webcheck_tool te =
     \<lparr>td_manifest = \<lparr>tm_id = ''local.webcheck'', tm_name = ''webcheck'', tm_description = ''Run a bounded HTTP health check from the local workspace.'',
        tm_backend = T_LOCAL, tm_executable = ''python'', tm_category = ''ops-http'', tm_action_type = ''web.http.health'', tm_risk = L1,
        tm_default_timeout = 30, tm_max_timeout = 60,
        tm_input_schema = object_schema [''url'']
          [(''url'', text_schema 1 2048), (''method'', enum_schema [''GET'', ''HEAD'']), (''timeout_seconds'', integer_schema 1 30)],
        tm_output_schema = base_output_schema, tm_policy = [(''requires_scope'', JBool True)]\<rparr>,
      td_install_hint = ''Python runtime is required for built-in local operations tools.'',
      td_build_args = (\<lambda>p. seq (all_args [required_url te p ''url'',
           optional_enum te p ''method'' [''GET'', ''HEAD''] ''GET'',
           number_arg (optional_int te p ''timeout_seconds'' 10 1 30)])
         (\<lambda>as. Inr ([''python'', ''-c'', tw_script te Web_Check] @ as))),
      td_stdin = None\<rparr>"

definition tls_inspect_tool :: "tool_world \<Rightarrow> tool_definition" where
  "tls_inspect_tool te =
     \<lparr>td_manifest = \<lparr>tm_id = ''local.tls.inspect'', tm_name = ''tls.inspect'', tm_description = ''Inspect a remote TLS certificate from the local workspace.'',
        tm_backend = T_LOCAL, tm_executable = ''python'', tm_category = ''ops-tls'', tm_action_type = ''web.tls.inspect'', tm_risk = L1,
        tm_default_timeout = 30, tm_max_timeout = 60,
        tm_input_schema = object_schema [''host'']
          [(''host'', text_schema 1 255), (''port'', integer_schema 1 65535), (''server_name'', text_schema 1 255), (''timeout_seconds'', integer_schema 1 30)],
        tm_output_schema = base_output_schema, tm_policy = [(''requires_scope'', JBool True)]\<rparr>,
      td_install_hint = ''Python runtime is required for built-in local operations tools.'',
      td_build_args = (\<lambda>p. seq (all_args [required_host p ''host'',
           number_arg (optional_int te p ''port'' 443 1 65535),
           (let v = get_value p ''server_name'' in Inr (if value_truthy v then value_text te v else [])),
           number_arg (optional_int te p ''timeout_seconds'' 10 1 30)])
         (\<lambda>as. Inr ([''python'', ''-c'', tw_script te Tls_Inspect] @ as))),
      td_stdin = None\<rparr>"

definition port_scan_tool :: "tool_world \<Rightarrow> tool_definition" where
  "port_scan_tool te =
     \<lparr>td_manifest = \<lparr>tm_id = ''local.port.scan'', tm_name = ''port.scan'', tm_description = ''Probe a small bounded set of TCP ports from the local workspace.'',
        tm_backend = T_LOCAL, tm_executable = ''python'', tm_category = ''ops-network'', tm_action_type = ''network.port.probe'', tm_risk = L1,
        tm_default_timeout = 30, tm_max_timeout = 60,
        tm_input_schema = object_schema [''host'', ''ports'']
          [(''host'', text_schema 1 255), (''ports'', text_schema 1 256), (''timeout_seconds'', integer_schema 1 5)],
        tm_output_schema = base_output_schema, tm_policy = [(''requires_scope'', JBool True), (''max_ports'', JInt 32)]\<rparr>,
      td_install_hint = ''Python runtime is required for built-in local operations tools.'',
      td_build_args = (\<lambda>p. seq (all_args [required_host p ''host'',
           map_sum id (\<lambda>ns. join_with '','' (map show_int ns)) (required_ports te p ''ports'' 32),
           number_arg (optional_int te p ''timeout_seconds'' 1 1 5)])
         (\<lambda>as. Inr ([''python'', ''-c'', tw_script te Port_Scan] @ as))),
      td_stdin = None\<rparr>"

definition dns_lookup_tool :: "tool_world \<Rightarrow> tool_definition" where
  "dns_lookup_tool te =
     \<lparr>td_manifest = \<lparr>tm_id = ''local.dns.lookup'', tm_name = ''dns.lookup'', tm_description = ''Resolve A and AAAA records with the local system resolver.'',
        tm_backend = T_LOCAL, tm_executable = ''python'', tm_category = ''ops-dns'', tm_action_type = ''network.dns.lookup'', tm_risk = L1,
        tm_default_timeout = 30, tm_max_timeout = 60,
        tm_input_schema = object_schema [''host'']
          [(''host'', text_schema 1 255), (''timeout_seconds'', integer_schema 1 10)],
        tm_output_schema = base_output_schema, tm_policy = [(''requires_scope'', JBool True)]\<rparr>,
      td_install_hint = ''Python runtime is required for built-in local operations tools.'',
      td_build_args = (\<lambda>p. seq (all_args [required_host p ''host'',
           number_arg (optional_int te p ''timeout_seconds'' 5 1 10)])
         (\<lambda>as. Inr ([''python'', ''-c'', tw_script te Dns_Lookup] @ as))),
      td_stdin = None\<rparr>"

definition ping_tool :: "tool_world \<Rightarrow> tool_definition" where
  "ping_tool te =
     \<lparr>td_manifest = \<lparr>tm_id = ''local.ping'', tm_name = ''ping'', tm_description = ''Run a bounded ping connectivity check from the local workspace.'',
        tm_backend = T_LOCAL, tm_executable = ''python'', tm_category = ''ops-network'', tm_action_type = ''network.ping'', tm_risk = L1,
        tm_default_timeout = 30, tm_max_timeout = 60,
        tm_input_schema = object_schema [''host'']
          [(''host'', text_schema 1 255), (''count'', integer_schema 1 10), (''timeout_seconds'', integer_schema 1 10)],
        tm_output_schema = base_output_schema, tm_policy = [(''requires_scope'', JBool True), (''max_count'', JInt 10)]\<rparr>,
      td_install_hint = ''Python runtime and system ping command are required.'',
      td_build_args = (\<lambda>p. seq (all_args [required_host p ''host'',
           number_arg (optional_int te p ''count'' 4 1 10),
           number_arg (optional_int te p ''timeout_seconds'' 2 1 10)])
         (\<lambda>as. Inr ([''python'', ''-c'', tw_script te Ping] @ as))),
      td_stdin = None\<rparr>"

definition http_headers_tool :: "tool_world \<Rightarrow> tool_definition" where
  "http_headers_tool te =
     \<lparr>td_manifest = \<lparr>tm_id = ''local.http.headers'', tm_name = ''http.headers'', tm_description = ''Fetch response headers with a bounded HTTP HEAD request.'',
        tm_backend = T_LOCAL, tm_executable = ''python'', tm_category = ''ops-http'', tm_action_type = ''web.http.headers'', tm_risk = L1,
        tm_default_timeout = 30, tm_max_timeout = 60,
        tm_input_schema = object_schema [''url'']
          [(''url'', text_schema 1 2048), (''timeout_seconds'', integer_schema 1 30)],
        tm_output_schema = base_output_schema, tm_policy = [(''requires_scope'', JBool True)]\<rparr>,
      td_install_hint = ''Python runtime is required for built-in local operations tools.'',
      td_build_args = (\<lambda>p. seq (all_args [required_url te p ''url'',
           number_arg (optional_int te p ''timeout_seconds'' 10 1 30)])
         (\<lambda>as. Inr ([''python'', ''-c'', tw_script te Http_Headers] @ as))),
      td_stdin = None\<rparr>"

definition httpx_tool :: "tool_world \<Rightarrow> tool_definition" where
  "httpx_tool te =
     \<lparr>td_manifest = \<lparr>tm_id = ''local.httpx'', tm_name = ''httpx'', tm_description = ''Probe HTTP services from the local portable workspace.'',
        tm_backend = T_LOCAL, tm_executable = ''httpx'', tm_category = ''web-probe'', tm_action_type = ''security.web.scan'', tm_risk = L1,
        tm_default_timeout = 60, tm_max_timeout = 120,
        tm_input_schema = target_input_schema ''target'',
        tm_output_schema = base_output_schema, tm_policy = [(''max_rps'', JInt 50), (''max_concurrency'', JInt 20), (''requires_scope'', JBool True)]\<rparr>,
      td_install_hint = ''Install ProjectDiscovery httpx into portable-tools or PATH.'',
      td_build_args = (\<lambda>p. seq (required_text p ''target'') (\<lambda>t. Inr [''httpx'', ''-u'', t, ''-silent'', ''-json''])),
      td_stdin = None\<rparr>"

definition dnsx_tool :: "tool_world \<Rightarrow> tool_definition" where
  "dnsx_tool te =
     \<lparr>td_manifest = \<lparr>tm_id = ''local.dnsx'', tm_name = ''dnsx'', tm_description = ''Resolve DNS records from the local portable workspace.'',
        tm_backend = T_LOCAL, tm_executable = ''dnsx'', tm_category = ''dns-probe'', tm_action_type = ''security.web.scan'', tm_risk = L1,
        tm_default_timeout = 60, tm_max_timeout = 120,
        tm_input_schema = target_input_schema ''domain'',
        tm_output_schema = base_output_schema, tm_policy = [(''max_rps'', JInt 50), (''max_concurrency'', JInt 20), (''requires_scope'', JBool True)]\<rparr>,
      td_install_hint = ''Install ProjectDiscovery dnsx into portable-tools or PATH.'',
      td_build_args = (\<lambda>p. Inr [''dnsx'', ''-silent'', ''-j'']),
      td_stdin = Some (\<lambda>p. required_text p ''domain'')\<rparr>"

definition ffuf_tool :: "tool_world \<Rightarrow> tool_definition" where
  "ffuf_tool te =
     \<lparr>td_manifest = \<lparr>tm_id = ''local.ffuf'', tm_name = ''ffuf'', tm_description = ''Run a bounded ffuf content discovery job locally.'',
        tm_backend = T_LOCAL, tm_executable = ''ffuf'', tm_category = ''web-fuzz'', tm_action_type = ''security.web.scan'', tm_risk = L1,
        tm_default_timeout = 120, tm_max_timeout = 300,
        tm_input_schema = object_schema [''url'', ''wordlist'']
          [(''url'', text_schema 1 2048), (''wordlist'', text_schema 1 4096), (''rps'', integer_schema 1 50)],
        tm_output_schema = base_output_schema, tm_policy = [(''max_rps'', JInt 50), (''requires_scope'', JBool True), (''requires_fuzz_marker'', JBool True)]\<rparr>,
      td_install_hint = ''Install ffuf into portable-tools or PATH.'',
      td_build_args = (\<lambda>p. seq (required_text p ''url'') (\<lambda>u. seq (required_text p ''wordlist'') (\<lambda>w.
         seq (optional_rate te p) (\<lambda>rate. Inr ([''ffuf'', ''-u'', u, ''-w'', w, ''-json''] @ rate))))),
      td_stdin = None\<rparr>"

definition nmap_tool :: "tool_world \<Rightarrow> tool_definition" where
  "nmap_tool te =
     \<lparr>td_manifest = \<lparr>tm_id = ''ssh.nmap'', tm_name = ''nmap'', tm_description = ''Run nmap from an SSH Linux workspace.'',
        tm_backend = T_SSH, tm_executable = ''nmap'', tm_category = ''network-scan'', tm_action_type = ''security.web.scan'', tm_risk = L1,
        tm_default_timeout = 120, tm_max_timeout = 300,
        tm_input_schema = target_input_schema ''target'',
        tm_output_schema = base_output_schema, tm_policy = [(''max_rps'', JInt 50), (''max_concurrency'', JInt 20), (''requires_scope'', JBool True)]\<rparr>,
      td_install_hint = ''Install nmap on the configured SSH Linux host.'',
      td_build_args = (\<lambda>p. seq (required_text p ''target'') (\<lambda>t. Inr [''nmap'', ''-oX'', ''-'', t])),
      td_stdin = None\<rparr>"

definition sqlmap_tool :: "tool_world \<Rightarrow> tool_definition" where
  "sqlmap_tool te =
     \<lparr>td_manifest = \<lparr>tm_id = ''ssh.sqlmap'', tm_name = ''sqlmap'', tm_description = ''Run a bounded sqlmap probe from an SSH Linux workspace.'',
        tm_backend = T_SSH, tm_executable = ''sqlmap'', tm_category = ''web-sql'', tm_action_type = ''security.web.scan'', tm_risk = L1,
        tm_default_timeout = 300, tm_max_timeout = 600,
        tm_input_schema = target_input_schema ''target'',
        tm_output_schema = base_output_schema, tm_policy = [(''max_rps'', JInt 10), (''max_concurrency'', JInt 4), (''requires_scope'', JBool True)]\<rparr>,
      td_install_hint = ''Install sqlmap on the configured SSH Linux host.'',
      td_build_args = (\<lambda>p. seq (required_text p ''target'') (\<lambda>t. Inr [''sqlmap'', ''-u'', t, ''--batch'', ''--disable-coloring'', ''--level=1'',
         ''--risk=1'', ''--timeout=5'', ''--retries=0'', ''--flush-session''])),
      td_stdin = None\<rparr>"

definition other_tools :: "tool_world \<Rightarrow> tool_definition list" where
  "other_tools te = [webcheck_tool te, tls_inspect_tool te, port_scan_tool te, dns_lookup_tool te, ping_tool te, http_headers_tool te,
     httpx_tool te, dnsx_tool te, ffuf_tool te, nmap_tool te, sqlmap_tool te]"

text \<open>The keys of the table are the identifiers of the manifests.\<close>

definition tool_table :: "tool_world \<Rightarrow> (string \<times> tool_definition) list" where
  "tool_table te = map (\<lambda>d. (tm_id (td_manifest d), d)) (other_tools te) @ operations_tool_definitions te"

end
