(* ===== verification/Tool_Runs.thy ===== *)
theory Tool_Runs
  imports Tool_Table
begin

text \<open>
  The run of a tool (\<^verbatim>\<open>src/service/toolpack.py\<close>): its checks, its command line, its result and the table
  of runs with starting, looking up, ending and canceling.
\<close>

section \<open>Policy\<close>

definition policy_int :: "(string \<times> json) list \<Rightarrow> string \<Rightarrow> int \<Rightarrow> int" where
  "policy_int policy key fallback = (case map_of policy key of Some (JInt n) \<Rightarrow> n | _ \<Rightarrow> fallback)"

definition failure :: "'e + 'a \<Rightarrow> 'e option" where
  "failure r = (case r of Inl e \<Rightarrow> Some e | Inr _ \<Rightarrow> None)"

fun first_failure :: "'e option list \<Rightarrow> 'e option" where
  "first_failure [] = None"
| "first_failure (x # xs) = (case x of Some e \<Rightarrow> Some e | None \<Rightarrow> first_failure xs)"

text \<open>The checks of single tools.\<close>

definition tool_checks :: "tool_world \<Rightarrow> tool_manifest \<Rightarrow> payload \<Rightarrow> tool_exc option list" where
  "tool_checks te m p =
    (let number = (\<lambda>field fallback low high. failure (optional_int te p field fallback low high)) in
     (if tm_id m = ''local.webcheck''
      then [failure (required_url te p ''url''), failure (optional_enum te p ''method'' [''GET'', ''HEAD''] ''GET''),
            number ''timeout_seconds'' 10 1 30] else [])
     @ (if tm_id m = ''local.tls.inspect''
        then [failure (required_host p ''host''), number ''port'' 443 1 65535, number ''timeout_seconds'' 10 1 30] else [])
     @ (if tm_id m = ''local.port.scan''
        then [failure (required_host p ''host''), failure (required_ports te p ''ports'' (policy_int (tm_policy m) ''max_ports'' 32)),
              number ''timeout_seconds'' 1 1 5] else [])
     @ (if tm_id m = ''local.dns.lookup'' then [failure (required_host p ''host''), number ''timeout_seconds'' 5 1 10] else [])
     @ (if tm_id m = ''local.ping''
        then [failure (required_host p ''host''), number ''count'' 4 1 10, number ''timeout_seconds'' 2 1 10] else [])
     @ (if tm_id m = ''local.http.headers'' then [failure (required_url te p ''url''), number ''timeout_seconds'' 10 1 30] else []))"

text \<open>A rate that is missing or falsy counts as 1.\<close>

definition rate_check :: "tool_world \<Rightarrow> payload \<Rightarrow> string \<Rightarrow> int \<Rightarrow> tool_exc option" where
  "rate_check te p field limit =
    (let raw = get_value p field in
     failure (seq (plain_int te (if value_truthy raw then raw else Json_Value (JInt 1)))
       (\<lambda>n. if limit < n then Inl (Permission_Exc (field @ '' exceeds policy limit '' @ show_int limit)) else Inr n)))"

definition validate_policy :: "tool_world \<Rightarrow> tool_manifest \<Rightarrow> payload \<Rightarrow> tool_exc option" where
  "validate_policy te m p =
     first_failure (map (\<lambda>field. failure (required_text p field)) (schema_required (tm_input_schema m))
       @ tool_checks te m p
       @ [rate_check te p ''rps'' (policy_int (tm_policy m) ''max_rps'' 50),
          rate_check te p ''concurrency'' (policy_int (tm_policy m) ''max_concurrency'' 20)]
       @ (if tm_id m = ''local.ffuf''
          then [failure (seq (required_text p ''url'')
                  (\<lambda>u. if occurs_in ''FUZZ'' u then Inr () else Inl (Permission_Exc ''ffuf url must contain FUZZ marker'')))]
          else []))"

definition validate_backend :: "tool_manifest \<Rightarrow> int \<Rightarrow> app_db \<Rightarrow> tool_exc option" where
  "validate_backend m k db =
    (case resolve_container_host k db of
       Inl e \<Rightarrow> Some (Value_Exc e)
     | Inr (c, h) \<Rightarrow>
         if ct_status c \<noteq> C_RUNNING then Some (Permission_Exc ''portable workspace is not running'')
         else if tm_backend m = T_LOCAL \<and> \<not> is_local_host h then Some (Not_Implemented_Exc ''local tools must run in a local workspace'')
         else if tm_backend m = T_SSH \<and> is_local_host h then Some (Not_Implemented_Exc ''Linux-heavy tools require an SSH workspace'')
         else None)"

section \<open>Command lines\<close>

definition powershell_command :: "string list \<Rightarrow> string option \<Rightarrow> string" where
  "powershell_command tokens stdin =
    (let quoted = join_with '' '' (map powershell_quote tokens) in
     case stdin of
       Some s \<Rightarrow> powershell_quote s @ '' | & '' @ quoted @ ''; exit $LASTEXITCODE''
     | None \<Rightarrow> ''& '' @ quoted @ ''; exit $LASTEXITCODE'')"

definition shell_command :: "bool \<Rightarrow> string list \<Rightarrow> string option \<Rightarrow> string" where
  "shell_command nt tokens stdin =
    (if nt then powershell_command tokens stdin
     else let command = join_with '' '' (map sh_quote tokens) in
          case stdin of
            None \<Rightarrow> command
          | Some s \<Rightarrow> ''printf '' @ [CHR 0x27] @ ''%s'' @ [CHR 0x5C] @ ''n'' @ [CHR 0x27, CHR '' ''] @ sh_quote s @ '' | '' @ command)"

definition with_tool_precheck :: "bool \<Rightarrow> tool_manifest \<Rightarrow> string \<Rightarrow> string list \<Rightarrow> string option \<Rightarrow> string" where
  "with_tool_precheck nt m command args stdin =
    (if tm_backend m = T_LOCAL \<and> nt
     then ''if (-not (Get-Command '' @ powershell_quote (tm_executable m) @ '' -ErrorAction SilentlyContinue)) { exit 127 }; ''
          @ powershell_command args stdin
     else ''command -v '' @ sh_quote (tm_executable m) @ '' >/dev/null 2>&1 || exit 127; exec '' @ command)"

definition tool_command :: "tool_world \<Rightarrow> tool_definition \<Rightarrow> payload \<Rightarrow> tool_exc + string" where
  "tool_command te d p =
     seq (td_build_args d p) (\<lambda>args.
     seq (case td_stdin d of None \<Rightarrow> Inr None | Some f \<Rightarrow> map_sum id Some (f p)) (\<lambda>stdin.
       let nt = mc_nt (tw_machine te)
       in Inr (with_tool_precheck nt (td_manifest d) (shell_command nt args stdin) args stdin)))"

section \<open>Results\<close>

datatype execution_error = CONNECT_FAILED | AUTH_FAILED | HOST_KEY_CHANGED | PERMISSION_DENIED | POLICY_DENIED | APPROVAL_REQUIRED
  | TIMEOUT | CANCELED | PROCESS_FAILED | OUTPUT_TRUNCATED | TOOL_MISSING | PLATFORM_UNSUPPORTED | SCOPE_DENIED

datatype tool_run_status = TR_RUNNING | TR_COMPLETED | TR_FAILED | TR_CANCELED

record execution_artifact =
  ea_id :: string
  ea_path :: string
  ea_media_type :: string
  ea_size :: nat

record execution_result =
  er_ok :: bool
  er_execution_id :: string
  er_summary :: string
  er_structured :: json
  er_artifacts :: "execution_artifact list"
  er_exit_code :: "int option"
  er_started_at :: datetime
  er_finished_at :: datetime
  er_truncated :: bool
  er_error :: "execution_error option"

definition max_structured_stdout :: nat where
  "max_structured_stdout = 256 * 1024"

definition utf8_length :: "char \<Rightarrow> nat" where
  "utf8_length c = (if (of_char c :: nat) < 128 then 1 else 2)"

definition encoded_length :: "string \<Rightarrow> nat" where
  "encoded_length s = sum_list (map utf8_length s)"

text \<open>The text of the first \<open>n\<close> bytes; a character that is cut becomes the replacement character.\<close>

fun cut_encoded :: "string \<Rightarrow> nat \<Rightarrow> string \<Rightarrow> string" where
  "cut_encoded repl n [] = []"
| "cut_encoded repl n (c # cs) =
    (if n = 0 then [] else if utf8_length c \<le> n then c # cut_encoded repl (n - utf8_length c) cs else repl)"

definition parse_output_records :: "tool_world \<Rightarrow> string \<Rightarrow> json list" where
  "parse_output_records te out =
     map (\<lambda>s. case tw_loads te s of Some j \<Rightarrow> j | None \<Rightarrow> JObj [(''line'', JStr s)])
       (filter (\<lambda>s. s \<noteq> []) (map str_strip (splitlines out)))"

text \<open>The name of the file of an artifact; on Windows writing a text expands its line feeds.\<close>

definition artifact_file :: "string \<Rightarrow> string" where
  "artifact_file run_id = run_id @ ''.stdout.txt''"

definition written_size :: "bool \<Rightarrow> string \<Rightarrow> nat" where
  "written_size nt s = encoded_length s + (if nt then length (filter (\<lambda>c. c = CHR 0x0A) s) else 0)"

definition write_artifact ::
  "tool_world \<Rightarrow> string \<Rightarrow> string \<Rightarrow> (string \<times> string) list \<Rightarrow> execution_artifact \<times> (string \<times> string) list" where
  "write_artifact te run_id out files =
    (let nt = mc_nt (tw_machine te); sep = (if nt then [CHR 0x5C] else ''/'') in
     (\<lparr>ea_id = run_id @ ''.stdout'', ea_path = ''toolpack'' @ sep @ ''artifacts'' @ sep @ artifact_file run_id,
       ea_media_type = ''text/plain'', ea_size = written_size nt out\<rparr>, AList.update (artifact_file run_id) out files))"

definition result_from_command ::
  "tool_world \<Rightarrow> string \<Rightarrow> tool_manifest \<Rightarrow> string \<times> int \<Rightarrow> datetime \<Rightarrow> datetime \<Rightarrow> (string \<times> string) list
     \<Rightarrow> execution_result \<times> (string \<times> string) list" where
  "result_from_command te run_id m outcome started finished files =
    (let (out, code) = outcome in
     if code = 127
     then (\<lparr>er_ok = False, er_execution_id = run_id, er_summary = tm_executable m @ '' is not installed'',
            er_structured = JObj [(''tool_id'', JStr (tm_id m)), (''records'', JList []), (''stdout'', JStr [])],
            er_artifacts = [], er_exit_code = Some code, er_started_at = started, er_finished_at = finished,
            er_truncated = False, er_error = Some TOOL_MISSING\<rparr>, files)
     else
       let truncated = max_structured_stdout < encoded_length out;
           (artifacts, files') = (if truncated then let (a, fs) = write_artifact te run_id out files in ([a], fs) else ([], files));
           stdout = (if truncated then cut_encoded (tw_replacement te) max_structured_stdout out else out);
           ok = (code = 0)
       in (\<lparr>er_ok = ok, er_execution_id = run_id,
            er_summary = (if ok then ''tool completed'' else ''tool exited with a non-zero status''),
            er_structured = JObj [(''tool_id'', JStr (tm_id m)), (''stdout'', JStr stdout), (''records'', JList (parse_output_records te out))],
            er_artifacts = artifacts, er_exit_code = Some code, er_started_at = started, er_finished_at = finished,
            er_truncated = truncated, er_error = (if ok then None else Some PROCESS_FAILED)\<rparr>, files'))"

definition error_result :: "string \<Rightarrow> datetime \<Rightarrow> datetime \<Rightarrow> execution_error \<Rightarrow> string \<Rightarrow> execution_result" where
  "error_result run_id started finished code summary =
     \<lparr>er_ok = False, er_execution_id = run_id, er_summary = summary, er_structured = JObj [(''records'', JList [])],
      er_artifacts = [], er_exit_code = None, er_started_at = started, er_finished_at = finished, er_truncated = False,
      er_error = Some code\<rparr>"

text \<open>The handlers of a run: status, code and summary of an exception.\<close>

definition or_text :: "string \<Rightarrow> string \<Rightarrow> string" where
  "or_text s fallback = (if s = [] then fallback else s)"

fun handled :: "tool_exc \<Rightarrow> tool_run_status \<times> execution_error \<times> string" where
  "handled Canceled_Exc = (TR_CANCELED, CANCELED, ''tool run canceled'')"
| "handled Timeout_Exc = (TR_FAILED, TIMEOUT, ''tool run timed out'')"
| "handled (Permission_Exc s) = (TR_FAILED, POLICY_DENIED, s)"
| "handled (Value_Exc s) = (TR_FAILED, POLICY_DENIED, s)"
| "handled (Not_Implemented_Exc s) = (TR_FAILED, PLATFORM_UNSUPPORTED, s)"
| "handled Host_Key_Exc = (TR_FAILED, HOST_KEY_CHANGED, ''SSH host key is not trusted'')"
| "handled Ssh_Denied_Exc = (TR_FAILED, AUTH_FAILED, ''SSH authentication failed'')"
| "handled (Os_Exc s) = (TR_FAILED, CONNECT_FAILED, or_text s ''connection failed'')"
| "handled (Other_Exc s) = (TR_FAILED, PROCESS_FAILED, or_text s ''tool run failed'')"

record tool_run_request =
  tq_container :: int
  tq_input :: payload
  tq_timeout :: "int option"

definition run_timeout :: "tool_manifest \<Rightarrow> tool_run_request \<Rightarrow> int" where
  "run_timeout m req = min (or_else_int (tq_timeout req) (tm_default_timeout m)) (tm_max_timeout m)"

text \<open>The body of a run up to its result.  The workspace is looked at twice, before and when the command starts;
  \<open>proc t l\<close> is how the process of launch \<open>l\<close> ends under timeout \<open>t\<close>.  \<open>Inl\<close> is what the body raises.\<close>

definition run_body ::
  "tool_world \<Rightarrow> (int \<Rightarrow> launch \<Rightarrow> tool_exc + (string \<times> int option)) \<Rightarrow> string \<Rightarrow> tool_definition \<Rightarrow> tool_run_request
     \<Rightarrow> datetime \<Rightarrow> datetime \<Rightarrow> app_db \<Rightarrow> app_db \<Rightarrow> (string \<times> string) list
     \<Rightarrow> tool_exc + (execution_result \<times> tool_run_status \<times> (string \<times> string) list)" where
  "run_body te proc run_id d req started finished db1 db2 files =
    (let m = td_manifest d in
     case first_failure [validate_backend m (tq_container req) db1, validate_policy te m (tq_input req)] of
       Some e \<Rightarrow> Inl e
     | None \<Rightarrow>
         if tm_backend m = T_LOCAL \<and> \<not> tw_found te (tm_executable m)
         then Inr (error_result run_id started finished TOOL_MISSING (tm_executable m @ '' is not installed''), TR_FAILED, files)
         else
           seq (tool_command te d (tq_input req)) (\<lambda>command.
           seq (execute_sandbox_container_command (tw_machine te) (proc (run_timeout m req)) (tq_container req) command db2) (\<lambda>outcome.
             let (r, files') = result_from_command te run_id m outcome started finished files
             in Inr (r, if er_ok r then TR_COMPLETED else TR_FAILED, files'))))"

definition execute_tool_run ::
  "tool_world \<Rightarrow> (int \<Rightarrow> launch \<Rightarrow> tool_exc + (string \<times> int option)) \<Rightarrow> string \<Rightarrow> tool_definition \<Rightarrow> tool_run_request
     \<Rightarrow> datetime \<Rightarrow> datetime \<Rightarrow> app_db \<Rightarrow> app_db \<Rightarrow> (string \<times> string) list
     \<Rightarrow> execution_result \<times> tool_run_status \<times> (string \<times> string) list" where
  "execute_tool_run te proc run_id d req started finished db1 db2 files =
    (case run_body te proc run_id d req started finished db1 db2 files of
       Inr x \<Rightarrow> x
     | Inl e \<Rightarrow> (case handled e of (status, code, summary) \<Rightarrow> (error_result run_id started finished code summary, status, files)))"

section \<open>The table of runs\<close>

record tool_run_snapshot =
  ts_run_id :: string
  ts_tool_id :: string
  ts_container :: int
  ts_status :: tool_run_status
  ts_result :: "execution_result option"
  ts_started_at :: datetime
  ts_finished_at :: "datetime option"

record running_tool_run =
  rr_snapshot :: tool_run_snapshot
  rr_request :: tool_run_request
  rr_done :: bool

record tool_state =
  to_runs :: "(string \<times> running_tool_run) list"
  to_files :: "(string \<times> string) list"

datatype start_failure = Run_Not_Found string | Run_Forbidden string

definition ensure_container_permission :: "int \<Rightarrow> int \<times> user_role \<Rightarrow> app_db \<Rightarrow> start_failure option" where
  "ensure_container_permission k u db =
    (case sandbox_container_is_manageable_by_user k (fst u) (snd u) db of
       None \<Rightarrow> Some (Run_Not_Found ''portable workspace not found'')
     | Some manageable \<Rightarrow>
         if \<not> manageable \<and> snd u \<noteq> ADMIN then Some (Run_Forbidden ''no permission to use this portable workspace'') else None)"

definition find_tool :: "tool_world \<Rightarrow> string \<Rightarrow> tool_definition option" where
  "find_tool te tool_id = map_of (tool_table te) tool_id"

definition start_tool_run ::
  "tool_world \<Rightarrow> string \<Rightarrow> string \<Rightarrow> tool_run_request \<Rightarrow> int \<times> user_role \<Rightarrow> datetime \<Rightarrow> app_db \<Rightarrow> tool_state
     \<Rightarrow> (start_failure + tool_run_snapshot) \<times> tool_state" where
  "start_tool_run te fresh tool_id req u now db st =
    (if find_tool te tool_id = None then (Inl (Run_Not_Found ''tool not found''), st)
     else case ensure_container_permission (tq_container req) u db of
       Some e \<Rightarrow> (Inl e, st)
     | None \<Rightarrow>
         let snapshot = \<lparr>ts_run_id = fresh, ts_tool_id = tool_id, ts_container = tq_container req, ts_status = TR_RUNNING,
                         ts_result = None, ts_started_at = now, ts_finished_at = None\<rparr>
         in (Inr snapshot, st\<lparr>to_runs := AList.update fresh \<lparr>rr_snapshot = snapshot, rr_request = req, rr_done = False\<rparr> (to_runs st)\<rparr>))"

definition get_tool_run :: "string \<Rightarrow> tool_state \<Rightarrow> tool_run_snapshot option" where
  "get_tool_run run_id st = map_option rr_snapshot (map_of (to_runs st) run_id)"

definition store_result :: "string \<Rightarrow> execution_result \<Rightarrow> tool_run_status \<Rightarrow> tool_state \<Rightarrow> tool_state" where
  "store_result run_id r status st =
    (case map_of (to_runs st) run_id of
       None \<Rightarrow> st
     | Some run \<Rightarrow>
         let s = (rr_snapshot run)\<lparr>ts_status := status, ts_result := Some r, ts_finished_at := Some (er_finished_at r)\<rparr>
         in st\<lparr>to_runs := AList.update run_id (run\<lparr>rr_snapshot := s, rr_done := True\<rparr>) (to_runs st)\<rparr>)"

text \<open>The task of a run comes to its end, by itself or because it was canceled.\<close>

definition task_ends :: "string \<Rightarrow> execution_result \<times> tool_run_status \<times> (string \<times> string) list \<Rightarrow> tool_state \<Rightarrow> tool_state" where
  "task_ends run_id outcome st = (case outcome of (r, status, files) \<Rightarrow> store_result run_id r status (st\<lparr>to_files := files\<rparr>))"

text \<open>What the process of a run does, when it ends, and the two states of the database it sees.\<close>

record run_course =
  rc_proc :: "int \<Rightarrow> launch \<Rightarrow> tool_exc + (string \<times> int option)"
  rc_finished :: datetime
  rc_check :: app_db
  rc_start :: app_db

definition run_ends :: "tool_world \<Rightarrow> string \<Rightarrow> run_course \<Rightarrow> tool_state \<Rightarrow> tool_state" where
  "run_ends te run_id w st =
    (case map_of (to_runs st) run_id of
       None \<Rightarrow> st
     | Some run \<Rightarrow>
         if rr_done run then st
         else case find_tool te (ts_tool_id (rr_snapshot run)) of
           None \<Rightarrow> st
         | Some d \<Rightarrow> task_ends run_id (execute_tool_run te (rc_proc w) run_id d (rr_request run)
                        (ts_started_at (rr_snapshot run)) (rc_finished w) (rc_check w) (rc_start w) (to_files st)) st)"

text \<open>Canceling kills the process first; the task may come to its own end through that (\<open>raced\<close>), otherwise it is
  canceled where it is.\<close>

definition cancel_tool_run ::
  "tool_world \<Rightarrow> string \<Rightarrow> datetime \<Rightarrow> run_course option \<Rightarrow> tool_state \<Rightarrow> (bool \<times> tool_run_status) \<times> tool_state" where
  "cancel_tool_run te run_id now raced st =
    (case map_of (to_runs st) run_id of
       None \<Rightarrow> ((False, TR_FAILED), st)
     | Some run \<Rightarrow>
         let st1 = (case raced of None \<Rightarrow> st | Some w \<Rightarrow> run_ends te run_id w st);
             ended = (case map_of (to_runs st1) run_id of None \<Rightarrow> True | Some r \<Rightarrow> rr_done r);
             st2 = (if ended then st1
                    else task_ends run_id (error_result run_id (ts_started_at (rr_snapshot run)) now CANCELED ''tool run canceled'',
                           TR_CANCELED, to_files st1) st1)
         in ((True, case get_tool_run run_id st2 of Some s \<Rightarrow> ts_status s | None \<Rightarrow> TR_CANCELED), st2))"

definition resolve_tool_artifact_path :: "tool_world \<Rightarrow> string \<Rightarrow> tool_state \<Rightarrow> tool_exc + string" where
  "resolve_tool_artifact_path te artifact_id st =
    (let safe_id = str_strip artifact_id; name = safe_id @ ''.txt'' in
     if safe_id = [] \<or> CHR ''/'' \<in> set safe_id \<or> CHR 0x5C \<in> set safe_id \<or> safe_id \<in> {''.'', ''..''}
     then Inl (Value_Exc ''invalid artifact id'')
     else case tw_resolve te name of
       Some e \<Rightarrow> Inl e
     | None \<Rightarrow> if map_of (to_files st) name = None then Inl (Os_Exc ''tool artifact not found'') else Inr name)"

definition tool_availability :: "tool_world \<Rightarrow> tool_manifest \<Rightarrow> int option \<Rightarrow> app_db \<Rightarrow> tool_exc + (bool option \<times> string)" where
  "tool_availability te m container db =
    (let found = tw_found te (tm_executable m);
         here = (Some found, if found then ''available'' else ''missing from portable-tools and PATH'') in
     case container of
       None \<Rightarrow> Inr (if tm_backend m = T_LOCAL then here else (None, ''availability requires an SSH workspace''))
     | Some k \<Rightarrow>
         (case resolve_container_host k db of
            Inl e \<Rightarrow> Inl (Value_Exc e)
          | Inr (_, h) \<Rightarrow>
              Inr (if tm_backend m = T_LOCAL
                   then if mh_id h \<noteq> default_local_host_id then (Some False, ''local tools require a local workspace'') else here
                   else if mh_id h = default_local_host_id then (Some False, ''Linux-heavy tools require an SSH workspace'')
                   else (None, ''availability will be checked in the SSH workspace at run time''))))"

definition list_toolpack_tools ::
  "tool_world \<Rightarrow> int option \<Rightarrow> app_db \<Rightarrow> tool_exc + (tool_manifest \<times> string \<times> bool option \<times> string) list" where
  "list_toolpack_tools te container db =
     (let schemas = map (\<lambda>(_, d). seq (tool_availability te (td_manifest d) container db)
            (\<lambda>(available, message). Inr (td_manifest d, td_install_hint d, available, message))) (tool_table te)
      in foldr (\<lambda>s acc. seq s (\<lambda>x. seq acc (\<lambda>xs. Inr (x # xs)))) schemas (Inr []))"

end
