(* ===== verification/Tool_Safety.thy ===== *)
theory Tool_Safety
  imports Tool_Runs
begin

text \<open>
  What holds of the tool pack: the table is well formed, a run starts the program of its manifest and
  nothing else, port lists are exact and bounded, and every run settles once with a consistent result.
\<close>

section \<open>The table\<close>

definition schema_properties :: "json \<Rightarrow> string list" where
  "schema_properties schema = (case json_get schema ''properties'' of JObj kvs \<Rightarrow> map fst kvs | _ \<Rightarrow> [])"

definition entry_well_formed :: "string \<times> tool_manifest \<Rightarrow> bool" where
  "entry_well_formed e = (case e of (key, m) \<Rightarrow> key = tm_id m \<and> manifest_valid m \<and> tm_default_timeout m \<le> tm_max_timeout m
     \<and> list_all (\<lambda>f. f \<in> set (schema_properties (tm_input_schema m))) (schema_required (tm_input_schema m))
     \<and> prefix (if tm_backend m = T_LOCAL then ''local.'' else ''ssh.'') key
     \<and> map_of (tm_policy m) ''requires_scope'' = Some (JBool True))"

definition table_manifests :: "tool_world \<Rightarrow> (string \<times> tool_manifest) list" where
  "table_manifests te = map (map_prod id td_manifest) (tool_table te)"

lemma table_eval: "list_all entry_well_formed (table_manifests te) \<and> distinct (map fst (table_manifests te)) \<and> length (table_manifests te) = 37"
  by code_simp


text \<open>The first argument of a tool is its program.\<close>

definition starts_own_program :: "tool_definition \<Rightarrow> bool" where
  "starts_own_program d \<longleftrightarrow> (\<forall>p args. td_build_args d p = Inr args \<longrightarrow> args \<noteq> [] \<and> hd args = tm_executable (td_manifest d))"

lemma builtin_starts: "starts_own_program (builtin_python_tool te i desc b q)"
  by (auto simp: starts_own_program_def builtin_python_tool_def Let_def seq_Inr_iff)

lemma others_start: "d \<in> set (other_tools te) \<Longrightarrow> starts_own_program d"
  unfolding other_tools_def
  by (auto simp: starts_own_program_def webcheck_tool_def tls_inspect_tool_def port_scan_tool_def dns_lookup_tool_def ping_tool_def
      http_headers_tool_def httpx_tool_def dnsx_tool_def ffuf_tool_def nmap_tool_def sqlmap_tool_def seq_Inr_iff
      simp del: all_args.simps)

lemma table_starts: "find_tool te i = Some d \<Longrightarrow> starts_own_program d"
proof -
  assume "find_tool te i = Some d"
  then have "(i, d) \<in> set (tool_table te)" by (simp add: find_tool_def map_of_SomeD)
  then show ?thesis
    by (auto simp: tool_table_def operations_tool_definitions_def paired_python_tools_def intro: others_start builtin_starts)
qed

section \<open>Command lines\<close>

lemma sh_lex_text_op:
  assumes "list_all safe_char s" "s \<noteq> []" "sh_op c"
  shows "sh_lex Sh_Plain None (s @ c # rest) = map_option (\<lambda>ts. word_of s # Op c # ts) (sh_lex Sh_Plain None rest)"
  unfolding sh_lex_safe[OF assms(1,2)] using assms(3)
  by (auto simp: sh_lex.simps sh_op_def sh_blank_def word_of_def)

text \<open>What the shell reads before the program: the look-up of the program, and \<^verbatim>\<open>exec\<close>.\<close>

definition precheck_tokens :: "string \<Rightarrow> token list" where
  "precheck_tokens program =
     [word_of ''command'', word_of ''-v'', word_of program, Op CHR ''>'', word_of ''/dev/null'', word_of ''2'', Op CHR ''>'', Op CHR ''&'',
      word_of ''1'', Op CHR ''|'', Op CHR ''|'', word_of ''exit'', word_of ''127'', Op CHR '';'', word_of ''exec'']"

definition run_tokens :: "string list \<Rightarrow> string option \<Rightarrow> token list" where
  "run_tokens args stdin =
     (case stdin of None \<Rightarrow> [] | Some s \<Rightarrow> [word_of ''printf'', word_of [CHR ''%'', CHR ''s'', CHR 0x5C, CHR ''n''], word_of s, Op CHR ''|''])
     @ map word_of args"

lemma shell_command_read: "sh_read (shell_command False args stdin) = Some (run_tokens args stdin)"
proof (cases stdin)
  case None
  then show ?thesis by (simp add: shell_command_def run_tokens_def sh_read_def sh.lex_words)
next
  case (Some s)
  have "list_all safe_char ''printf''" by (simp add: safe_char_def variable_char_def)
  note p = sh_lex_text[OF this list.distinct(2)]
  have f: "sh_lex Sh_Plain None ([CHR 0x27, CHR ''%'', CHR ''s'', CHR 0x5C, CHR ''n'', CHR 0x27] @ CHR '' '' # rest)
      = map_option ((#) (word_of [CHR ''%'', CHR ''s'', CHR 0x5C, CHR ''n''])) (sh_lex Sh_Plain None rest)" for rest
    by (simp add: sh_lex.simps sh_blank_def emit_word word_of_def)
  have pipe: "sh_lex Sh_Plain None (CHR ''|'' # rest) = map_option ((#) (Op CHR ''|'')) (sh_lex Sh_Plain None rest)" for rest
    by (rule sh_lex_op) (simp_all add: sh_op_def sh_blank_def)
  have "shell_command False args stdin = ''printf'' @ CHR '' '' # [CHR 0x27, CHR ''%'', CHR ''s'', CHR 0x5C, CHR ''n'', CHR 0x27] @ CHR '' '' #
      sh_quote s @ CHR '' '' # CHR ''|'' # CHR '' '' # join_with '' '' (map sh_quote args)"
    using Some by (simp add: shell_command_def)
  then show ?thesis
    unfolding sh_read_def using Some
    by (simp only: p f sh.lex_word_blank pipe sh_lex_space sh.lex_words) (simp add: run_tokens_def)
qed

lemma precheck_read:
  assumes "\<not> nt"
  shows "sh_read (with_tool_precheck nt m (shell_command nt args stdin) args stdin) = Some (precheck_tokens (tm_executable m) @ run_tokens args stdin)"
proof -
  have nt: "nt = False" using assms by simp
  have safe: "list_all safe_char ''command''" "list_all safe_char ''-v''" "list_all safe_char ''/dev/null''" "list_all safe_char ''2''"
    "list_all safe_char ''1''" "list_all safe_char ''exit''" "list_all safe_char ''127''" "list_all safe_char ''exec''"
    by (simp_all add: safe_char_def variable_char_def)
  have op: "sh_lex Sh_Plain None (c # rest) = map_option ((#) (Op c)) (sh_lex Sh_Plain None rest)" if "c \<in> {CHR ''>'', CHR ''|'', CHR ''&''}" for c rest
    using that by (intro sh_lex_op) (auto simp: sh_op_def sh_blank_def)
  have gt: "sh_op CHR ''>''" "sh_op CHR '';''" by (simp_all add: sh_op_def)
  have line: "with_tool_precheck nt m (shell_command nt args stdin) args stdin =
      ''command'' @ CHR '' '' # ''-v'' @ CHR '' '' # sh_quote (tm_executable m) @ CHR '' '' # CHR ''>'' # ''/dev/null'' @ CHR '' '' # ''2'' @ CHR ''>'' # CHR ''&'' #
      ''1'' @ CHR '' '' # CHR ''|'' # CHR ''|'' # CHR '' '' # ''exit'' @ CHR '' '' # ''127'' @ CHR '';'' # CHR '' '' # ''exec'' @ CHR '' '' # shell_command False args stdin"
    by (simp add: with_tool_precheck_def nt)
  have rest: "sh_lex Sh_Plain None (shell_command False args stdin) = Some (run_tokens args stdin)"
    using shell_command_read by (simp add: sh_read_def)
  show ?thesis
    unfolding line sh_read_def sh_lex_text[OF safe(1) list.distinct(2)] sh_lex_text[OF safe(2) list.distinct(2)] sh.lex_word_blank
      op[of "CHR ''>''", simplified] sh_lex_text[OF safe(3) list.distinct(2)] sh_lex_text_op[OF safe(4) list.distinct(2) gt(1)]
      op[of "CHR ''&''", simplified] sh_lex_text[OF safe(5) list.distinct(2)] op[of "CHR ''|''", simplified] sh_lex_space
      sh_lex_text[OF safe(6) list.distinct(2)] sh_lex_text_op[OF safe(7) list.distinct(2) gt(2)] sh_lex_text[OF safe(8) list.distinct(2)] rest
    by (simp add: precheck_tokens_def)
qed

text \<open>PowerShell reads the line of a local tool on Windows the same way.\<close>

lemma powershell_command_read:
  assumes "args \<noteq> []"
  shows "ps_read (powershell_command args None) = Some (Op CHR ''&'' # map word_of args @ [Op CHR '';'', word_of ''exit'', Word [Var ''LASTEXITCODE'']])"
proof -
  have tail: "ps_lex Ps_Plain (Some w) ''; exit $LASTEXITCODE'' = Some [Word w, Op CHR '';'', word_of ''exit'', Word [Var ''LASTEXITCODE'']]" for w
    by (simp add: ps_lex.simps sh_blank_def ps_op_def ps_special_def variable_char_def word_of_def)
  have "ps_lex Ps_Plain None (join_with '' '' (map powershell_quote args) @ ''; exit $LASTEXITCODE'')
      = Some (map word_of (butlast args) @ word_of (last args) # [Op CHR '';'', word_of ''exit'', Word [Var ''LASTEXITCODE'']])"
    unfolding ps.lex_words_then[OF disjI2 assms, of "''; exit $LASTEXITCODE''", simplified] tail by (simp add: word_of_def)
  moreover have "map word_of (butlast args) @ [word_of (last args)] = map word_of args"
    using arg_cong[OF append_butlast_last_id[OF assms], of "map word_of"] by simp
  ultimately show ?thesis
    by (simp add: ps_read_def powershell_command_def ps_lex.simps sh_blank_def ps_op_def option.map_id0 emit_none)
qed

text \<open>A line neither starts nor ends with a space.\<close>

lemma safe_not_space: "safe_char c \<Longrightarrow> \<not> py_space c"
  by (auto simp: safe_char_def variable_char_def py_space_def Let_def)

lemma sh_quote_last: "sh_quote s \<noteq> [] \<and> \<not> py_space (last (sh_quote s))"
proof (cases "s = [] \<or> \<not> list_all safe_char s")
  case True
  then show ?thesis by (auto simp: sh_quote_def py_space_def)
next
  case False
  then have "last s \<in> set s" "\<forall>c\<in>set s. safe_char c" by (auto simp: list_all_iff)
  with False show ?thesis by (auto simp: sh_quote_def safe_not_space)
qed

lemma last_join: "ss \<noteq> [] \<Longrightarrow> last ss \<noteq> [] \<Longrightarrow> last (join_with sep ss) = last (last ss) \<and> join_with sep ss \<noteq> []"
  by (induction sep ss rule: join_with.induct) auto

lemma str_strip_id: "s \<noteq> [] \<Longrightarrow> \<not> py_space (hd s) \<Longrightarrow> \<not> py_space (last s) \<Longrightarrow> str_strip s = s"
  by (simp add: str_strip_def strip_by_def rstrip_by_def lstrip_by_def dropWhile_id hd_rev)

lemma precheck_strip:
  assumes "\<not> nt" and "args \<noteq> []"
  shows "str_strip (with_tool_precheck nt m (shell_command nt args stdin) args stdin) = with_tool_precheck nt m (shell_command nt args stdin) args stdin"
proof -
  have ne: "map sh_quote args \<noteq> []" using assms(2) by simp
  have "last (map sh_quote args) = sh_quote (last args)" using assms(2) by (simp add: last_map)
  then have l: "join_with '' '' (map sh_quote args) \<noteq> [] \<and> \<not> py_space (last (join_with '' '' (map sh_quote args)))"
    using last_join[OF ne, of "'' ''"] sh_quote_last[of "last args"] by simp
  have c: "\<not> py_space CHR ''c''" by (simp add: py_space_def)
  show ?thesis
  proof (cases stdin)
    case None
    show ?thesis
      by (rule str_strip_id) (use None l assms(1) c in \<open>simp_all add: with_tool_precheck_def shell_command_def\<close>)
  next
    case (Some s)
    show ?thesis
      by (rule str_strip_id) (use Some l assms(1) c in \<open>simp_all add: with_tool_precheck_def shell_command_def\<close>)
  qed
qed

section \<open>The process of a run\<close>

text \<open>The process a run comes to start, if its checks pass.\<close>

definition run_launch :: "tool_world \<Rightarrow> tool_definition \<Rightarrow> tool_run_request \<Rightarrow> app_db \<Rightarrow> app_db \<Rightarrow> launch option" where
  "run_launch te d req db1 db2 =
    (let m = td_manifest d in
     if validate_backend m (tq_container req) db1 \<noteq> None \<or> validate_policy te m (tq_input req) \<noteq> None
        \<or> (tm_backend m = T_LOCAL \<and> \<not> tw_found te (tm_executable m)) then None
     else case seq (tool_command te d (tq_input req)) (\<lambda>command. prepare_command (tw_machine te) (tq_container req) command db2) of
            Inl _ \<Rightarrow> None | Inr l \<Rightarrow> Some l)"

lemma run_body_launch:
  assumes "\<And>l. run_launch te d req db1 db2 = Some l \<Longrightarrow> proc (run_timeout (td_manifest d) req) l = proc' (run_timeout (td_manifest d) req) l"
  shows "run_body te proc run_id d req started finished db1 db2 files = run_body te proc' run_id d req started finished db1 db2 files"
proof (cases "run_launch te d req db1 db2")
  case None
  then show ?thesis
    by (auto simp: run_launch_def run_body_def execute_sandbox_container_command_def Let_def seq_def split: sum.splits option.splits if_splits)
next
  case (Some l)
  with assms have "proc (run_timeout (td_manifest d) req) l = proc' (run_timeout (td_manifest d) req) l" by blast
  with Some show ?thesis
    by (auto simp: run_launch_def run_body_def execute_sandbox_container_command_def Let_def seq_def split: sum.splits option.splits if_splits)
qed

lemma env_update_keeps: "k \<notin> fst ` set ch \<Longrightarrow> map_of (env_update ch env) k = map_of env k"
  by (induction ch arbitrary: env) (auto simp: env_update_def update_conv)

lemma env_update_sets: "distinct (map fst ch) \<Longrightarrow> map_of ch k = Some v \<Longrightarrow> map_of (env_update ch env) k = Some v"
proof (induction ch arbitrary: env)
  case (Cons kv ch)
  obtain a b where kv: "kv = (a, b)" by (cases kv)
  have step: "env_update (kv # ch) env = env_update ch (AList.update a b env)" by (simp add: env_update_def kv)
  show ?case
  proof (cases "k = a")
    case True
    with Cons.prems kv have "k \<notin> fst ` set ch" "v = b" by auto
    with True show ?thesis unfolding step by (simp add: env_update_keeps update_conv)
  next
    case False
    with Cons kv show ?thesis unfolding step by simp
  qed
qed simp

lemma distinct_env_update: "distinct (map fst env) \<Longrightarrow> distinct (map fst (env_update ch env))"
  by (induction ch arbitrary: env) (auto simp: env_update_def distinct_update)

lemma egress_keys_distinct: "resolve_portable_process_environment q c db = Inr e \<Longrightarrow> distinct (map fst e)"
proof -
  have base: "distinct (map fst (map (\<lambda>k. (k, [])) proxy_environment_keys))" by (simp add: proxy_environment_keys_def comp_def)
  assume "resolve_portable_process_environment q c db = Inr e"
  then obtain mode proxy where "sandbox_portable_process_environment q mode proxy = Some e"
    by (auto simp: resolve_portable_process_environment_def split: if_splits option.splits)
  then show "distinct (map fst e)"
    by (cases mode) (auto simp: sandbox_portable_process_environment_def Let_def intro!: distinct_env_update base)
qed

definition meant_for :: "tool_backend \<Rightarrow> managed_host \<Rightarrow> bool" where
  "meant_for b h \<longleftrightarrow> is_local_host h = (b = T_LOCAL)"


end
