(* ===== verification/Tool_Outcomes.thy ===== *)
theory Tool_Outcomes
  imports Tool_Safety
begin

text \<open>
  Port lists, results and the table of runs over any sequence of operations, with the samples on which the
  properties of the tool pack are applied.
\<close>

section \<open>Ports\<close>

text \<open>The ports an item of a list stands for.\<close>

definition item_denotes :: "string \<Rightarrow> int \<Rightarrow> bool" where
  "item_denotes item n \<longleftrightarrow> item \<noteq> []
     \<and> (if CHR ''-'' \<in> set item
        then case str_partition CHR ''-'' item of (a, _, b) \<Rightarrow>
               \<exists>x y. int_of_text a = Some x \<and> int_of_text b = Some y \<and> x \<le> n \<and> n \<le> y
        else int_of_text item = Some n)"

lemma plain_int_text: "plain_int te (Json_Value (JStr s)) = Inr n \<longleftrightarrow> int_of_text s = Some n"
  by (auto simp: plain_int_def split: option.splits)

lemma collect_ports_exact: "collect_ports te field parts = Inr ps \<Longrightarrow> set ps = {n. \<exists>part\<in>set parts. item_denotes (str_strip part) n}"
proof (induction parts arbitrary: ps)
  case (Cons part parts)
  consider "str_strip part = []" | "str_strip part \<noteq> []" "CHR ''-'' \<in> set (str_strip part)"
    | "str_strip part \<noteq> []" "CHR ''-'' \<notin> set (str_strip part)" by blast
  then show ?case
  proof cases
    case 1
    with Cons show ?thesis by (simp add: item_denotes_def)
  next
    case 2
    obtain a d b where ab: "str_partition CHR ''-'' (str_strip part) = (a, d, b)" by (cases "str_partition CHR ''-'' (str_strip part)")
    with Cons.prems 2 obtain x y qs where q: "int_of_text a = Some x" "int_of_text b = Some y" "collect_ports te field parts = Inr qs"
      "ps = [x..y] @ qs"
      by (auto simp: seq_Inr_iff plain_int_text split: if_splits)
    then show ?thesis using Cons.IH[OF q(3)] 2 ab by (auto simp: item_denotes_def)
  next
    case 3
    with Cons.prems obtain n qs where q: "int_of_text (str_strip part) = Some n" "collect_ports te field parts = Inr qs" "ps = n # qs"
      by (auto simp: seq_Inr_iff plain_int_text)
    then show ?thesis using Cons.IH[OF q(2)] 3 by (auto simp: item_denotes_def)
  qed
qed simp

text \<open>A port scan probes exactly the ports that were written.  A list of ports that is accepted is strictly
  increasing, not empty, within the limit of its tool and within 1 to 65535, and its members are the numbers and the
  members of the ranges of the text, no more and no less.\<close>

theorem required_ports_exact:
  assumes "required_ports te p field limit = Inr ports"
  shows "sorted_wrt (<) ports \<and> ports \<noteq> [] \<and> int (length ports) \<le> limit \<and> (\<forall>n\<in>set ports. 1 \<le> n \<and> n \<le> 65535)
    \<and> (\<exists>text0. required_text p field = Inr text0
         \<and> set ports = {n. \<exists>part\<in>set (split_on CHR '','' [] text0). item_denotes (str_strip part) n})"
proof -
  obtain raw ps where r: "required_text p field = Inr raw" "collect_ports te field (split_on CHR '','' [] raw) = Inr ps"
    and ports: "ports = sort (remdups ps)" and ok: "ports \<noteq> []" "\<not> list_ex (\<lambda>n. n < 1 \<or> 65535 < n) ports" "\<not> limit < int (length ports)"
    using assms by (auto simp: required_ports_def seq_Inr_iff Let_def split: if_splits)
  have "sorted_wrt (<) ports" unfolding ports by (simp add: strict_sorted_iff)
  moreover have "set ports = {n. \<exists>part\<in>set (split_on CHR '','' [] raw). item_denotes (str_strip part) n}"
    unfolding ports using collect_ports_exact[OF r(2)] by simp
  ultimately show ?thesis using r(1) ok by (fastforce simp: list_ex_iff)
qed

section \<open>Results\<close>

text \<open>What status, exit code and error say of each other, and where the whole output of a truncated result is.\<close>

definition result_consistent :: "string \<Rightarrow> execution_result \<Rightarrow> tool_run_status \<Rightarrow> (string \<times> string) list \<Rightarrow> bool" where
  "result_consistent run_id r status files \<longleftrightarrow> er_execution_id r = run_id \<and> status \<noteq> TR_RUNNING
     \<and> (status = TR_COMPLETED \<longleftrightarrow> er_ok r) \<and> (status = TR_CANCELED \<longleftrightarrow> er_error r = Some CANCELED)
     \<and> (er_ok r \<longleftrightarrow> er_error r = None) \<and> (er_ok r \<longleftrightarrow> er_exit_code r = Some 0)
     \<and> (er_truncated r \<longleftrightarrow> er_artifacts r \<noteq> [])
     \<and> (\<forall>a\<in>set (er_artifacts r). ea_id a = run_id @ ''.stdout''
          \<and> (\<exists>out. map_of files (artifact_file run_id) = Some out \<and> max_structured_stdout < encoded_length out))"

lemma error_consistent:
  assumes "status \<noteq> TR_RUNNING" "status \<noteq> TR_COMPLETED" "status = TR_CANCELED \<longleftrightarrow> code = CANCELED"
  shows "result_consistent run_id (error_result run_id started finished code summary) status files"
  using assms by (simp add: result_consistent_def error_result_def)

lemma command_consistent:
  assumes "result_from_command te run_id m outcome started finished files = (r, files')"
  shows "result_consistent run_id r (if er_ok r then TR_COMPLETED else TR_FAILED) files'
    \<and> (\<forall>x. x \<noteq> artifact_file run_id \<longrightarrow> map_of files' x = map_of files x)"
  using assms
proof -
  obtain out code where o: "outcome = (out, code)" by (cases outcome)
  note simps = result_from_command_def write_artifact_def result_consistent_def Let_def update_conv o
  show ?thesis
  proof (cases "code = 127")
    case True
    show ?thesis using assms by (simp add: simps True) (elim conjE, hypsubst, simp)
  next
    case False
    then show ?thesis
      by (cases "max_structured_stdout < encoded_length out") (use assms in \<open>simp add: simps; elim conjE; hypsubst; simp\<close>)+
  qed
qed

lemma handled_consistent:
  assumes "handled e = (status, code, summary)"
  shows "status \<noteq> TR_RUNNING" "status \<noteq> TR_COMPLETED" "status = TR_CANCELED \<longleftrightarrow> code = CANCELED"
  using assms by (cases e; simp; fail)+

text \<open>However a run goes, it ends with a result of its own that is consistent, and it writes its own artifact only.\<close>

lemma execute_consistent:
  assumes "execute_tool_run te proc run_id d req started finished db1 db2 files = (r, status, files')"
  shows "result_consistent run_id r status files' \<and> (\<forall>x. x \<noteq> artifact_file run_id \<longrightarrow> map_of files' x = map_of files x)"
proof (cases "run_body te proc run_id d req started finished db1 db2 files")
  case (Inl e)
  obtain st code summary where h: "handled e = (st, code, summary)" by (cases "handled e")
  with assms Inl have "r = error_result run_id started finished code summary" "status = st" "files' = files"
    by (auto simp: execute_tool_run_def)
  with error_consistent[OF handled_consistent[OF h]] show ?thesis by simp
next
  case (Inr x)
  then have x: "x = (r, status, files')" using assms by (simp add: execute_tool_run_def)
  show ?thesis
  proof (cases "tm_backend (td_manifest d) = T_LOCAL \<and> \<not> tw_found te (tm_executable (td_manifest d))")
    case True
    with Inr x show ?thesis
      by (auto simp: run_body_def Let_def intro!: error_consistent split: option.splits)
  next
    case False
    with Inr x obtain outcome where "fst (result_from_command te run_id (td_manifest d) outcome started finished files) = r"
      "snd (result_from_command te run_id (td_manifest d) outcome started finished files) = files'"
      and status: "status = (if er_ok r then TR_COMPLETED else TR_FAILED)"
      by (auto simp: run_body_def Let_def seq_Inr_iff case_prod_beta split: option.splits)
    then have "result_from_command te run_id (td_manifest d) outcome started finished files = (r, files')" by (metis prod.collapse)
    from command_consistent[OF this] status show ?thesis by simp
  qed
qed

section \<open>Sequences of operations\<close>

datatype run_op =
    Start_Run string string tool_run_request "int \<times> user_role" datetime app_db
  | Run_Ends string run_course
  | Cancel_Run string datetime "run_course option"

fun run_exec :: "tool_world \<Rightarrow> run_op \<Rightarrow> tool_state \<Rightarrow> tool_state" where
  "run_exec te (Start_Run fresh i req u now db) st = snd (start_tool_run te fresh i req u now db st)"
| "run_exec te (Run_Ends x w) st = run_ends te x w st"
| "run_exec te (Cancel_Run x now raced) st = snd (cancel_tool_run te x now raced st)"

definition no_runs :: tool_state where
  "no_runs = \<lparr>to_runs = [], to_files = []\<rparr>"

fun started_id :: "run_op \<Rightarrow> string list" where
  "started_id (Start_Run fresh _ _ _ _ _) = [fresh]"
| "started_id _ = []"

definition started_ids :: "run_op list \<Rightarrow> string list" where
  "started_ids ops = concat (map started_id ops)"

definition run_consistent :: "tool_world \<Rightarrow> (string \<times> string) list \<Rightarrow> string \<Rightarrow> running_tool_run \<Rightarrow> bool" where
  "run_consistent te files x run \<longleftrightarrow>
    (let s = rr_snapshot run in
     ts_run_id s = x \<and> find_tool te (ts_tool_id s) \<noteq> None \<and> (rr_done run \<longleftrightarrow> ts_status s \<noteq> TR_RUNNING)
     \<and> (case ts_result s of
          None \<Rightarrow> ts_status s = TR_RUNNING \<and> ts_finished_at s = None
        | Some r \<Rightarrow> result_consistent x r (ts_status s) files \<and> ts_finished_at s = Some (er_finished_at r)))"

definition runs_consistent :: "tool_world \<Rightarrow> tool_state \<Rightarrow> bool" where
  "runs_consistent te st \<longleftrightarrow> (\<forall>x run. map_of (to_runs st) x = Some run \<longrightarrow> run_consistent te (to_files st) x run)"

lemma result_consistent_files:
  "result_consistent x r status files \<Longrightarrow> map_of files' (artifact_file x) = map_of files (artifact_file x) \<Longrightarrow> result_consistent x r status files'"
proof -
  assume a: "result_consistent x r status files" and eq: "map_of files' (artifact_file x) = map_of files (artifact_file x)"
  from a show "result_consistent x r status files'" unfolding result_consistent_def eq .
qed

lemma run_consistent_files:
  assumes "run_consistent te files x run" "map_of files' (artifact_file x) = map_of files (artifact_file x)"
  shows "run_consistent te files' x run"
  using assms result_consistent_files[OF _ assms(2)] by (auto simp: run_consistent_def Let_def split: option.splits)

lemma artifact_file_inj [simp]: "artifact_file x = artifact_file y \<longleftrightarrow> x = y"
  by (simp add: artifact_file_def)

text \<open>The task of one run ends: its run becomes consistent and done, the others stay.\<close>

lemma task_ends_other: "y \<noteq> x \<Longrightarrow> map_of (to_runs (task_ends x (r, status, files) st)) y = map_of (to_runs st) y"
  by (simp add: task_ends_def store_result_def Let_def update_conv split: option.split)

lemma task_ends_self:
  assumes "map_of (to_runs st) x = Some run"
  shows "map_of (to_runs (task_ends x (r, status, files) st)) x
    = Some (run\<lparr>rr_snapshot := (rr_snapshot run)\<lparr>ts_status := status, ts_result := Some r, ts_finished_at := Some (er_finished_at r)\<rparr>,
               rr_done := True\<rparr>)" "to_files (task_ends x (r, status, files) st) = files"
  using assms by (simp_all add: task_ends_def store_result_def Let_def update_conv)

lemma task_ends_consistent:
  assumes inv: "runs_consistent te st" and run: "map_of (to_runs st) x = Some run"
    and res: "result_consistent x r status files" and files: "\<forall>y. y \<noteq> artifact_file x \<longrightarrow> map_of files y = map_of (to_files st) y"
  shows "runs_consistent te (task_ends x (r, status, files) st)"
  unfolding runs_consistent_def
proof (intro allI impI)
  fix y run'
  assume y: "map_of (to_runs (task_ends x (r, status, files) st)) y = Some run'"
  show "run_consistent te (to_files (task_ends x (r, status, files) st)) y run'"
  proof (cases "y = x")
    case True
    have "run_consistent te (to_files st) x run" using inv run by (simp add: runs_consistent_def)
    moreover have running: "status \<noteq> TR_RUNNING" using res by (simp add: result_consistent_def)
    ultimately show ?thesis
      using True y res task_ends_self[OF run, of r status files] by (auto simp: run_consistent_def Let_def)
  next
    case False
    with y have "run_consistent te (to_files st) y run'" using inv by (simp add: task_ends_other runs_consistent_def)
    moreover have "map_of files (artifact_file y) = map_of (to_files st) (artifact_file y)" using files False by simp
    ultimately show ?thesis using run_consistent_files task_ends_self(2)[OF run] by simp
  qed
qed

lemma run_ends_cases:
  obtains "run_ends te x w st = st"
  | run r status files where "map_of (to_runs st) x = Some run" "\<not> rr_done run" "result_consistent x r status files"
    "\<forall>y. y \<noteq> artifact_file x \<longrightarrow> map_of files y = map_of (to_files st) y" "run_ends te x w st = task_ends x (r, status, files) st"
proof (cases "map_of (to_runs st) x")
  case None
  then show thesis using that(1) by (simp add: run_ends_def)
next
  case (Some run)
  show thesis
  proof (cases "rr_done run \<or> find_tool te (ts_tool_id (rr_snapshot run)) = None")
    case True
    then show thesis using that(1) Some by (auto simp: run_ends_def)
  next
    case False
    then obtain d where d: "find_tool te (ts_tool_id (rr_snapshot run)) = Some d" by blast
    obtain r status files where e: "execute_tool_run te (rc_proc w) x d (rr_request run) (ts_started_at (rr_snapshot run)) (rc_finished w)
        (rc_check w) (rc_start w) (to_files st) = (r, status, files)"
      by (metis prod_cases3)
    show thesis
      by (rule that(2)[of run r status files]) (use Some False d e execute_consistent[OF e] in \<open>simp_all add: run_ends_def\<close>)
  qed
qed

lemma run_ends_consistent [inv_intros]: "runs_consistent te st \<Longrightarrow> runs_consistent te (run_ends te x w st)"
  by (rule run_ends_cases[of te x w st]) (auto intro: task_ends_consistent)

lemma run_ends_keeps:
  assumes "map_of (to_runs st) y = Some run" "rr_done run"
  shows "map_of (to_runs (run_ends te x w st)) y = Some run"
  by (rule run_ends_cases[of te x w st]; cases "y = x") (use assms task_ends_other in auto)

lemma task_ends_dom: "map_of (to_runs (task_ends x z st)) y = None \<longleftrightarrow> map_of (to_runs st) y = None"
  by (cases z) (auto simp: task_ends_def store_result_def Let_def update_conv split: option.split)

lemma run_ends_dom: "map_of (to_runs (run_ends te x w st)) y = None \<longleftrightarrow> map_of (to_runs st) y = None"
  by (simp add: run_ends_def task_ends_dom split: option.split)

definition raced_state :: "tool_world \<Rightarrow> string \<Rightarrow> run_course option \<Rightarrow> tool_state \<Rightarrow> tool_state" where
  "raced_state te x raced st = (case raced of None \<Rightarrow> st | Some w \<Rightarrow> run_ends te x w st)"

lemma raced_dom: "map_of (to_runs (raced_state te x raced st)) y = None \<longleftrightarrow> map_of (to_runs st) y = None"
  by (cases raced) (simp_all add: raced_state_def run_ends_dom del: not_None_eq)

lemma cancel_state:
  assumes "map_of (to_runs st) x = Some run0"
  obtains run where "map_of (to_runs (raced_state te x raced st)) x = Some run"
    "snd (cancel_tool_run te x now raced st) = (if rr_done run then raced_state te x raced st
       else task_ends x (error_result x (ts_started_at (rr_snapshot run0)) now CANCELED ''tool run canceled'', TR_CANCELED,
              to_files (raced_state te x raced st)) (raced_state te x raced st))"
proof -
  have "map_of (to_runs (raced_state te x raced st)) x \<noteq> None"
    using assms by (simp add: raced_dom del: not_None_eq)
  then obtain run where run: "map_of (to_runs (raced_state te x raced st)) x = Some run" by blast
  have "snd (cancel_tool_run te x now raced st) = (if rr_done run then raced_state te x raced st
       else task_ends x (error_result x (ts_started_at (rr_snapshot run0)) now CANCELED ''tool run canceled'', TR_CANCELED,
              to_files (raced_state te x raced st)) (raced_state te x raced st))"
    using assms run by (simp add: cancel_tool_run_def raced_state_def[symmetric] Let_def)
  with run show thesis by (rule that)
qed

lemma raced_consistent: "runs_consistent te st \<Longrightarrow> runs_consistent te (raced_state te x raced st)"
  by (simp add: raced_state_def inv_intros split: option.split)

lemma cancel_consistent [inv_intros]:
  assumes "runs_consistent te st"
  shows "runs_consistent te (snd (cancel_tool_run te x now raced st))"
proof (cases "map_of (to_runs st) x")
  case None
  with assms show ?thesis by (simp add: cancel_tool_run_def)
next
  case (Some run0)
  obtain run where r: "map_of (to_runs (raced_state te x raced st)) x = Some run"
    "snd (cancel_tool_run te x now raced st) = (if rr_done run then raced_state te x raced st
       else task_ends x (error_result x (ts_started_at (rr_snapshot run0)) now CANCELED ''tool run canceled'', TR_CANCELED,
              to_files (raced_state te x raced st)) (raced_state te x raced st))"
    using cancel_state[OF Some, of te raced now] by blast
  have "result_consistent x (error_result x (ts_started_at (rr_snapshot run0)) now CANCELED ''tool run canceled'') TR_CANCELED
    (to_files (raced_state te x raced st))" by (rule error_consistent) simp_all
  with r show ?thesis using raced_consistent[OF assms] task_ends_consistent[OF raced_consistent[OF assms] r(1)] by simp
qed

text \<open>A run that is done stays as it is, whatever happens to it or to others, unless its identifier is given again.\<close>

lemma task_ends_keeps: "map_of (to_runs st) y = Some run \<Longrightarrow> y \<noteq> x \<Longrightarrow> map_of (to_runs (task_ends x o1 st)) y = Some run"
  by (cases o1) (simp add: task_ends_other)

lemma cancel_keeps:
  assumes y: "map_of (to_runs st) y = Some run" "rr_done run"
  shows "map_of (to_runs (snd (cancel_tool_run te x now raced st))) y = Some run"
proof (cases "map_of (to_runs st) x")
  case None
  with y show ?thesis by (simp add: cancel_tool_run_def)
next
  case (Some run0)
  have kept: "map_of (to_runs (raced_state te x raced st)) y = Some run"
    using run_ends_keeps[OF y] y by (simp add: raced_state_def split: option.split)
  obtain run' where r: "map_of (to_runs (raced_state te x raced st)) x = Some run'"
    "snd (cancel_tool_run te x now raced st) = (if rr_done run' then raced_state te x raced st
       else task_ends x (error_result x (ts_started_at (rr_snapshot run0)) now CANCELED ''tool run canceled'', TR_CANCELED,
              to_files (raced_state te x raced st)) (raced_state te x raced st))"
    using cancel_state[OF Some, of te raced now] by blast
  show ?thesis
  proof (cases "rr_done run'")
    case True
    with r kept show ?thesis by simp
  next
    case False
    then have "y \<noteq> x" using kept r(1) y(2) by auto
    with r False kept show ?thesis by (simp add: task_ends_keeps)
  qed
qed

lemma start_keeps:
  "map_of (to_runs st) y = Some run \<Longrightarrow> y \<noteq> fresh \<Longrightarrow> map_of (to_runs (snd (start_tool_run te fresh i req u now db st))) y = Some run"
  by (simp add: start_tool_run_def Let_def update_conv split: option.split)

lemma start_consistent [inv_intros]:
  "runs_consistent te st \<Longrightarrow> runs_consistent te (snd (start_tool_run te fresh i req u now db st))"
proof -
  assume inv: "runs_consistent te st"
  let ?s = "\<lparr>ts_run_id = fresh, ts_tool_id = i, ts_container = tq_container req, ts_status = TR_RUNNING,
     ts_result = None, ts_started_at = now, ts_finished_at = None\<rparr>"
  let ?st = "st\<lparr>to_runs := AList.update fresh \<lparr>rr_snapshot = ?s, rr_request = req, rr_done = False\<rparr> (to_runs st)\<rparr>"
  have "runs_consistent te ?st" if "find_tool te i \<noteq> None"
    unfolding runs_consistent_def
  proof (intro allI impI)
    fix x run
    assume "map_of (to_runs ?st) x = Some run"
    with inv that show "run_consistent te (to_files ?st) x run"
      by (cases "x = fresh") (simp_all add: update_conv runs_consistent_def, auto simp: run_consistent_def)
  qed
  with inv show "runs_consistent te (snd (start_tool_run te fresh i req u now db st))"
    by (simp add: start_tool_run_def Let_def split: option.split)
qed

lemma exec_consistent: "runs_consistent te st \<Longrightarrow> runs_consistent te (run_exec te x st)"
  by (cases x) (simp_all add: inv_intros)

lemma exec_keeps:
  assumes "map_of (to_runs st) y = Some run" "rr_done run" "y \<notin> set (started_id x)"
  shows "map_of (to_runs (run_exec te x st)) y = Some run"
  using assms start_keeps run_ends_keeps cancel_keeps by (cases x) auto

lemma fold_consistent: "runs_consistent te st \<Longrightarrow> runs_consistent te (fold (run_exec te) ops st)"
  by (induction ops arbitrary: st) (simp_all add: exec_consistent)

lemma fold_keeps:
  "map_of (to_runs st) y = Some run \<Longrightarrow> rr_done run \<Longrightarrow> y \<notin> set (started_ids ops)
     \<Longrightarrow> map_of (to_runs (fold (run_exec te) ops st)) y = Some run"
  by (induction ops arbitrary: st) (auto simp: started_ids_def exec_keeps)

lemma fold_known: "map_of (to_runs (fold (run_exec te) ops st)) y \<noteq> None \<Longrightarrow> map_of (to_runs st) y \<noteq> None \<or> y \<in> set (started_ids ops)"
proof (induction ops arbitrary: st)
  case (Cons x ops)
  have raced: "map_of (to_runs (raced_state te z r s)) y \<noteq> None \<Longrightarrow> map_of (to_runs s) y \<noteq> None" for z r s
    by (simp add: raced_dom del: not_None_eq)
  have cancel: "map_of (to_runs (snd (cancel_tool_run te z now r s))) y \<noteq> None \<Longrightarrow> map_of (to_runs s) y \<noteq> None" for z now r s
  proof (cases "map_of (to_runs s) z")
    case (Some run0)
    assume a: "map_of (to_runs (snd (cancel_tool_run te z now r s))) y \<noteq> None"
    show ?thesis
    proof (cases "y = z")
      case False
      obtain run where "map_of (to_runs (raced_state te z r s)) z = Some run" "snd (cancel_tool_run te z now r s) = (if rr_done run then raced_state te z r s
          else task_ends z (error_result z (ts_started_at (rr_snapshot run0)) now CANCELED ''tool run canceled'', TR_CANCELED,
              to_files (raced_state te z r s)) (raced_state te z r s))"
        by (rule cancel_state[OF Some, of te r now])
      with a False have "map_of (to_runs (raced_state te z r s)) y \<noteq> None" by (simp add: task_ends_other split: if_splits)
      then show ?thesis by (rule raced)
    qed (simp add: Some)
  qed (simp add: cancel_tool_run_def)
  have start: "map_of (to_runs (snd (start_tool_run te fresh i req u now db s))) y \<noteq> None \<Longrightarrow> map_of (to_runs s) y \<noteq> None \<or> y = fresh"
    for fresh i req u now db s
    by (simp add: start_tool_run_def Let_def update_conv split: option.splits if_splits)
  have "map_of (to_runs (run_exec te x st)) y \<noteq> None \<Longrightarrow> map_of (to_runs st) y \<noteq> None \<or> y \<in> set (started_id x)"
  proof (cases x)
    case (Start_Run fresh i req u now db)
    then show "map_of (to_runs (run_exec te x st)) y \<noteq> None \<Longrightarrow> ?thesis" using start[of fresh i req u now db st] by simp
  next
    case (Run_Ends z w)
    then show "map_of (to_runs (run_exec te x st)) y \<noteq> None \<Longrightarrow> ?thesis" by (simp add: run_ends_dom del: not_None_eq)
  next
    case (Cancel_Run z now r)
    then show "map_of (to_runs (run_exec te x st)) y \<noteq> None \<Longrightarrow> ?thesis" using cancel[of z now r st] by simp
  qed
  with Cons show ?case by (auto simp: started_ids_def)
qed simp

lemma cancel_response:
  assumes "runs_consistent te st" and "map_of (to_runs st) x \<noteq> None"
  shows "fst (fst (cancel_tool_run te x now raced st)) \<and> snd (fst (cancel_tool_run te x now raced st)) \<noteq> TR_RUNNING"
proof -
  obtain run0 where Some: "map_of (to_runs st) x = Some run0" using assms(2) by blast
  obtain run where r: "map_of (to_runs (raced_state te x raced st)) x = Some run"
    "snd (cancel_tool_run te x now raced st) = (if rr_done run then raced_state te x raced st
       else task_ends x (error_result x (ts_started_at (rr_snapshot run0)) now CANCELED ''tool run canceled'', TR_CANCELED,
              to_files (raced_state te x raced st)) (raced_state te x raced st))"
    using cancel_state[OF Some, of te raced now] by blast
  have resp: "fst (cancel_tool_run te x now raced st)
      = (True, case get_tool_run x (snd (cancel_tool_run te x now raced st)) of Some s \<Rightarrow> ts_status s | None \<Rightarrow> TR_CANCELED)"
    using Some by (simp add: cancel_tool_run_def Let_def)
  have "run_consistent te (to_files (raced_state te x raced st)) x run"
    using raced_consistent[OF assms(1)] r(1) by (simp add: runs_consistent_def)
  then have "rr_done run \<Longrightarrow> ts_status (rr_snapshot run) \<noteq> TR_RUNNING" by (simp add: run_consistent_def Let_def)
  then show ?thesis
  proof (cases "rr_done run")
    case True
    then have "get_tool_run x (snd (cancel_tool_run te x now raced st)) = Some (rr_snapshot run)"
      unfolding r(2) using r(1) by (simp add: get_tool_run_def)
    with resp \<open>rr_done run \<Longrightarrow> ts_status (rr_snapshot run) \<noteq> TR_RUNNING\<close>[OF True] show ?thesis by simp
  next
    case False
    then have "map_option ts_status (get_tool_run x (snd (cancel_tool_run te x now raced st))) = Some TR_CANCELED"
      unfolding r(2) by (simp add: get_tool_run_def task_ends_self(1)[OF r(1)])
    with resp show ?thesis by auto
  qed
qed

text \<open>C36. A tool run settles once, with a consistent result.  In every sequence of starting, ending and canceling runs
  with fresh identifiers, a run without a result is running; a run with a result is done, is completed exactly when its
  program exited with 0, is canceled exactly when its error says so, and the whole output of a truncated result is stored
  under its artifact.  Once a run is done nothing changes it, and canceling any known run leaves it not running.\<close>

theorem tool_runs_settle:
  assumes fresh: "distinct (started_ids (ops1 @ ops2))"
  shows "let st1 = fold (run_exec te) ops1 no_runs; st2 = fold (run_exec te) (ops1 @ ops2) no_runs in
    runs_consistent te st1
    \<and> (\<forall>x run. map_of (to_runs st1) x = Some run \<and> rr_done run \<longrightarrow> map_of (to_runs st2) x = Some run)
    \<and> (\<forall>x now raced. map_of (to_runs st1) x \<noteq> None \<longrightarrow> snd (fst (cancel_tool_run te x now raced st1)) \<noteq> TR_RUNNING)"
proof -
  define st1 where "st1 = fold (run_exec te) ops1 no_runs"
  have inv: "runs_consistent te st1" unfolding st1_def by (rule fold_consistent) (simp add: runs_consistent_def no_runs_def)
  have "map_of (to_runs (fold (run_exec te) ops2 st1)) x = Some run" if "map_of (to_runs st1) x = Some run" "rr_done run" for x run
  proof -
    have "x \<in> set (started_ids ops1)" using fold_known[of te ops1 no_runs x] that(1) by (simp add: st1_def no_runs_def)
    then have "x \<notin> set (started_ids ops2)" using fresh by (auto simp: started_ids_def)
    from fold_keeps[OF that this] show ?thesis .
  qed
  with inv cancel_response[OF inv] show ?thesis by (simp add: st1_def[symmetric] Let_def)
qed

section \<open>Artifacts\<close>

lemma hex_char_plain: "c \<in> set hex_digits \<Longrightarrow> \<not> py_space c \<and> c \<noteq> CHR ''/'' \<and> c \<noteq> CHR 0x5C \<and> c \<noteq> CHR ''.''"
  by (auto simp: hex_digits_def py_space_def)

text \<open>The artifact of a run is found under its identifier.  When a command's output is larger than what a result
  holds, the identifier of the artifact in the result leads, through the checks against paths that leave the artifact
  directory, to the file of this run with the whole output.\<close>

theorem artifact_roundtrip:
  assumes run: "run_id \<noteq> []" "set run_id \<subseteq> set hex_digits" and within: "tw_resolve te (artifact_file run_id) = None"
    and res: "result_from_command te run_id m (out, code) started finished files = (r, files')" and a: "a \<in> set (er_artifacts r)"
  shows "resolve_tool_artifact_path te (ea_id a) (st\<lparr>to_files := files'\<rparr>) = Inr (artifact_file run_id)
    \<and> map_of files' (artifact_file run_id) = Some out \<and> max_structured_stdout < encoded_length out"
proof -
  have a': "ea_id a = run_id @ ''.stdout''" and f: "map_of files' (artifact_file run_id) = Some out" "max_structured_stdout < encoded_length out"
    using res a by (auto simp: result_from_command_def write_artifact_def Let_def update_conv split: if_splits)
  have plain: "\<not> py_space (hd run_id)" using run hex_char_plain[of "hd run_id"] by (cases run_id) auto
  have strip: "str_strip (run_id @ ''.stdout'') = run_id @ ''.stdout''"
    by (rule str_strip_id) (use run(1) plain in \<open>simp_all add: py_space_def\<close>)
  have "CHR ''/'' \<notin> set run_id" "CHR 0x5C \<notin> set run_id" using run(2) hex_char_plain by blast+
  moreover have "run_id @ ''.stdout'' \<noteq> ''.''" "run_id @ ''.stdout'' \<noteq> ''..''" using run(1) by (cases run_id; simp)+
  ultimately show ?thesis
    using within f strip by (simp add: resolve_tool_artifact_path_def a' artifact_file_def)
qed

section \<open>Samples\<close>

definition sample_world :: tool_world where
  "sample_world = \<lparr>tw_machine = \<lparr>mc_nt = False, mc_environ = [(''HTTP_PROXY'', ''old'')], mc_pathsep = '':'', mc_path = ''/bin'', mc_roots = [],
       mc_quote = id\<rparr>,
     tw_script = (\<lambda>_. ''s''), tw_script64 = (\<lambda>_. ''cw==''), tw_bracket_ok = (\<lambda>_. True), tw_repr = (\<lambda>_. ''[]''),
     tw_int_text = (\<lambda>_ _. ''invalid literal''), tw_found = (\<lambda>_. True), tw_loads = (\<lambda>_. None), tw_replacement = ''?'',
     tw_resolve = (\<lambda>_. None)\<rparr>"

definition sample_request :: tool_run_request where
  "sample_request = \<lparr>tq_container = 1, tq_input = [(''target'', Json_Value (JStr ''a'' ))], tq_timeout = None\<rparr>"

lemma sample_tool: "find_tool te ''local.httpx'' = Some (httpx_tool te)"
  by (simp add: find_tool_def tool_table_def other_tools_def webcheck_tool_def tls_inspect_tool_def port_scan_tool_def dns_lookup_tool_def
      ping_tool_def http_headers_tool_def httpx_tool_def)

lemma sample_launch:
  "(case run_launch sample_world (httpx_tool sample_world) sample_request sample_store sample_store of
      Some (Local_Process argv env) \<Rightarrow> argv \<noteq> [] | _ \<Rightarrow> False)"
  by code_simp


definition sample_ports :: payload where
  "sample_ports = [(''ports'', Json_Value (JStr ''81,22,80-82''))]"

lemma sample_ports_eval: "required_ports sample_world sample_ports ''ports'' 32 = Inr [22, 80, 81, 82]"
  by code_simp

lemma required_ports_exact_witness:
  "\<exists>text0. required_text sample_ports ''ports'' = Inr text0
     \<and> {22, 80, 81, 82} = {n. \<exists>part\<in>set (split_on CHR '','' [] text0). item_denotes (str_strip part) n}"
  using required_ports_exact[OF sample_ports_eval] by simp

definition sample_ops :: "run_op list" where
  "sample_ops = [Start_Run ''a'' ''local.httpx'' sample_request (1, USER) 5 sample_store, Cancel_Run ''a'' 6 None]"

lemma sample_run: "map_option (\<lambda>r. (ts_status (rr_snapshot r), rr_done r)) (map_of (to_runs (fold (run_exec sample_world) sample_ops no_runs)) ''a'')
    = Some (TR_CANCELED, True)"
  by code_simp

lemma tool_runs_settle_witness:
  "\<exists>run. map_of (to_runs (fold (run_exec sample_world) sample_ops no_runs)) ''a'' = Some run \<and> ts_status (rr_snapshot run) = TR_CANCELED
     \<and> map_of (to_runs (fold (run_exec sample_world) (sample_ops @ [Cancel_Run ''a'' 7 None]) no_runs)) ''a'' = Some run
     \<and> runs_consistent sample_world (fold (run_exec sample_world) sample_ops no_runs)"
proof -
  obtain run where r: "map_of (to_runs (fold (run_exec sample_world) sample_ops no_runs)) ''a'' = Some run"
    "ts_status (rr_snapshot run) = TR_CANCELED" "rr_done run" using sample_run by auto
  have "distinct (started_ids (sample_ops @ [Cancel_Run ''a'' 7 None]))" by (simp add: sample_ops_def started_ids_def)
  from tool_runs_settle[OF this, of sample_world] r show ?thesis unfolding Let_def by blast
qed

definition sample_output :: string where
  "sample_output = replicate 262145 CHR ''a''"

lemma sample_output_length: "max_structured_stdout < encoded_length sample_output"
  by (simp add: max_structured_stdout_def encoded_length_def sample_output_def utf8_length_def sum_list_replicate)

lemma artifact_roundtrip_witness:
  "\<exists>r files' a. result_from_command sample_world ''0a'' (td_manifest (httpx_tool sample_world)) (sample_output, 0) 5 6 [] = (r, files')
     \<and> er_artifacts r = [a]
     \<and> resolve_tool_artifact_path sample_world (ea_id a) (no_runs\<lparr>to_files := files'\<rparr>) = Inr (artifact_file ''0a'')
     \<and> map_of files' (artifact_file ''0a'') = Some sample_output"
proof -
  obtain r files' where r: "result_from_command sample_world ''0a'' (td_manifest (httpx_tool sample_world)) (sample_output, 0) 5 6 [] = (r, files')"
    by (cases "result_from_command sample_world ''0a'' (td_manifest (httpx_tool sample_world)) (sample_output, 0) 5 6 []")
  then have "er_artifacts r = [fst (write_artifact sample_world ''0a'' sample_output [])]"
    using sample_output_length by (auto simp: result_from_command_def Let_def case_prod_beta)
  then obtain a where a: "er_artifacts r = [a]" by blast
  have "artifact_file ''0a'' = artifact_file ''0a'' \<Longrightarrow> tw_resolve sample_world (artifact_file ''0a'') = None" by (simp add: sample_world_def)
  from artifact_roundtrip[of "''0a''" sample_world, OF _ _ this[OF refl] r, of a no_runs] a r show ?thesis
    by (auto simp: hex_digits_def)
qed

end
