(* ===== verification/Session_Pool.thy ===== *)
theory Session_Pool
  imports Notifications
begin

text \<open>
  The pool of sessions, \<^verbatim>\<open>AgentSessionPool\<close> of \<^verbatim>\<open>src/core/runtime/session.py\<close>: which sessions are
  kept in memory, and the coroutines that evict idle ones.  An eviction reads the pool, the table of
  notifications and the pool again, with other coroutines running in between; each of these
  reads is a step of its own.  A pooled entry and its session are one object, with a number for its identity.
  The liveness of a session (\<^verbatim>\<open>is_running\<close>, \<^verbatim>\<open>has_subscribers\<close>) is changed by the other components and
  by the steps of the environment.  Times are ticks of \<^verbatim>\<open>time.monotonic\<close>, and the ttl counts the same ticks.
\<close>

section \<open>The pool\<close>

record pool_config =
  pc_max_size :: int
  pc_ttl :: int

record eviction_candidate =
  ec_session :: string
  ec_entry :: nat
  ec_last_used :: int

text \<open>Where an eviction stands: before the lock of \<^verbatim>\<open>_enforce_capacity\<close>; in the first loop of
  \<^verbatim>\<open>_claim_inactive_evictions\<close>, at the head of it or waiting for the table of notifications; before its
  second loop; closing what it took out; at its end.\<close>

datatype eviction =
    Ev_Select string
  | Ev_Check "eviction_candidate list" "nat option" "eviction_candidate list" "string list"
  | Ev_Query "eviction_candidate list" "nat option" eviction_candidate "eviction_candidate list" "string list"
  | Ev_Pop "eviction_candidate list" "string list"
  | Ev_Close "(string \<times> nat) list"
  | Ev_Done

record pool_world =
  pw_pool :: "(string \<times> nat) list"
  pw_used :: "nat \<Rightarrow> int"
  pw_running :: "nat \<Rightarrow> bool"
  pw_subscribed :: "nat \<Rightarrow> bool"
  pw_closed :: "nat list"
  pw_next :: nat
  pw_clock :: int
  pw_notices :: "notification list"
  pw_evictions :: "eviction list"

definition empty_pool :: "notification list \<Rightarrow> int \<Rightarrow> pool_world" where
  "empty_pool rows now =
     \<lparr>pw_pool = [], pw_used = (\<lambda>_. 0), pw_running = (\<lambda>_. False), pw_subscribed = (\<lambda>_. False), pw_closed = [],
      pw_next = 0, pw_clock = now, pw_notices = rows, pw_evictions = []\<rparr>"

definition session_inactive :: "pool_world \<Rightarrow> nat \<Rightarrow> bool" where
  "session_inactive w e \<longleftrightarrow> \<not> pw_running w e \<and> \<not> pw_subscribed w e"

definition get_or_create_locked :: "string \<Rightarrow> pool_world \<Rightarrow> nat \<times> pool_world" where
  "get_or_create_locked s w =
    (case map_of (pw_pool w) s of
       None \<Rightarrow>
         let e = pw_next w
         in (e, w\<lparr>pw_pool := pw_pool w @ [(s, e)], pw_used := (pw_used w)(e := pw_clock w),
                  pw_running := (pw_running w)(e := False), pw_subscribed := (pw_subscribed w)(e := False),
                  pw_next := Suc e\<rparr>)
     | Some e \<Rightarrow> (e, w\<lparr>pw_used := (pw_used w)(e := pw_clock w)\<rparr>))"

text \<open>The lock of \<^verbatim>\<open>get_or_create\<close> is free before \<^verbatim>\<open>_enforce_capacity\<close> takes it.\<close>

definition get_or_create :: "string \<Rightarrow> pool_world \<Rightarrow> nat \<times> pool_world" where
  "get_or_create s w =
    (let (e, w') = get_or_create_locked s w
     in (e, w'\<lparr>pw_evictions := pw_evictions w' @ [Ev_Select s]\<rparr>))"

definition pool_publish :: "(nat \<Rightarrow> bool) \<Rightarrow> string \<Rightarrow> pool_world \<Rightarrow> bool \<times> pool_world" where
  "pool_publish accepted s w =
    (case map_of (pw_pool w) s of
       None \<Rightarrow> (False, w)
     | Some e \<Rightarrow> (accepted e, w\<lparr>pw_used := (pw_used w)(e := pw_clock w)\<rparr>))"

definition pool_discard :: "string \<Rightarrow> pool_world \<Rightarrow> nat option \<times> pool_world" where
  "pool_discard s w = (map_of (pw_pool w) s, w\<lparr>pw_pool := AList.delete s (pw_pool w)\<rparr>)"

definition pool_stop :: "pool_world \<Rightarrow> (string \<times> nat) list \<times> pool_world" where
  "pool_stop w = (pw_pool w, w\<lparr>pw_pool := []\<rparr>)"

section \<open>Evictions\<close>

definition candidates_of :: "pool_world \<Rightarrow> (string \<Rightarrow> nat \<Rightarrow> bool) \<Rightarrow> eviction_candidate list" where
  "candidates_of w p =
     map (\<lambda>(s, e). \<lparr>ec_session = s, ec_entry = e, ec_last_used = pw_used w e\<rparr>) (filter (\<lambda>(s, e). p s e) (pw_pool w))"

definition sweep_expired_candidates :: "pool_config \<Rightarrow> int \<Rightarrow> pool_world \<Rightarrow> eviction_candidate list" where
  "sweep_expired_candidates cfg now w =
    (if pc_ttl cfg \<le> 0 then []
     else candidates_of w (\<lambda>s e. session_inactive w e \<and> now - pw_used w e > pc_ttl cfg))"

definition capacity_candidates :: "pool_config \<Rightarrow> string \<Rightarrow> pool_world \<Rightarrow> eviction_candidate list" where
  "capacity_candidates cfg protected w =
    (let overflow = int (length (pw_pool w)) - pc_max_size cfg in
     if overflow \<le> 0 then []
     else sort_key ec_last_used (candidates_of w (\<lambda>s e. s \<noteq> protected \<and> session_inactive w e)))"

text \<open>The entry of \<^verbatim>\<open>_claim_inactive_evictions\<close>.\<close>

definition claim_start :: "eviction_candidate list \<Rightarrow> nat option \<Rightarrow> eviction" where
  "claim_start cs limit = (if cs = [] \<or> limit = Some 0 then Ev_Done else Ev_Check cs limit cs [])"

definition enforce_capacity :: "pool_config \<Rightarrow> string \<Rightarrow> pool_world \<Rightarrow> eviction" where
  "enforce_capacity cfg protected w =
     claim_start (capacity_candidates cfg protected w) (Some (nat (int (length (pw_pool w)) - pc_max_size cfg)))"

text \<open>The second loop, under the lock and without a suspension.\<close>

definition observed_last_used :: "eviction_candidate list \<Rightarrow> string \<Rightarrow> int option" where
  "observed_last_used cs s = map_of (rev (map (\<lambda>c. (ec_session c, ec_last_used c)) cs)) s"

fun pop_evictions :: "eviction_candidate list \<Rightarrow> string list \<Rightarrow> pool_world \<Rightarrow> (string \<times> nat) list \<times> pool_world" where
  "pop_evictions cs [] w = ([], w)"
| "pop_evictions cs (s # ids) w =
    (case map_of (pw_pool w) s of
       None \<Rightarrow> pop_evictions cs ids w
     | Some e \<Rightarrow>
         if \<not> session_inactive w e then pop_evictions cs ids w
         else if observed_last_used cs s \<noteq> Some (pw_used w e) then pop_evictions cs ids w
         else let (evicted, w') = pop_evictions cs ids (w\<lparr>pw_pool := AList.delete s (pw_pool w)\<rparr>)
              in ((s, e) # evicted, w'))"

text \<open>One step of an eviction: where it stands next, what it takes out of the pool, and the pool after.\<close>

fun evict_step :: "pool_config \<Rightarrow> eviction \<Rightarrow> pool_world \<Rightarrow> eviction \<times> (string \<times> nat) list \<times> pool_world" where
  "evict_step cfg (Ev_Select protected) w = (enforce_capacity cfg protected w, [], w)"
| "evict_step cfg (Ev_Check cs limit [] ids) w = ((if ids = [] then Ev_Done else Ev_Pop cs ids), [], w)"
| "evict_step cfg (Ev_Check cs limit (c # rest) ids) w =
    (if (case limit of None \<Rightarrow> False | Some k \<Rightarrow> k \<le> length ids)
     then ((if ids = [] then Ev_Done else Ev_Pop cs ids), [], w)
     else if \<not> session_inactive w (ec_entry c) then (Ev_Check cs limit rest ids, [], w)
     else if pw_used w (ec_entry c) \<noteq> ec_last_used c then (Ev_Check cs limit rest ids, [], w)
     else (Ev_Query cs limit c rest ids, [], w))"
| "evict_step cfg (Ev_Query cs limit c rest ids) w =
    (if has_active_session_notifications (ec_session c) (pw_notices w) then (Ev_Check cs limit rest ids, [], w)
     else (Ev_Check cs limit rest (ids @ [ec_session c]), [], w))"
| "evict_step cfg (Ev_Pop cs ids) w =
    (let (evicted, w') = pop_evictions cs ids w
     in ((if evicted = [] then Ev_Done else Ev_Close evicted), evicted, w'))"
| "evict_step cfg (Ev_Close evicted) w =
    (Ev_Done, [], w\<lparr>pw_closed := pw_closed w @ map snd evicted,
                    pw_subscribed := (\<lambda>e. if e \<in> snd ` set evicted then False else pw_subscribed w e)\<rparr>)"
| "evict_step cfg Ev_Done w = (Ev_Done, [], w)"

section \<open>The pool among the other coroutines\<close>

text \<open>The steps of the environment: sessions start and end turns, clients come and go, the table of
  notifications changes, time passes.\<close>

datatype pool_label = PL_Other | PL_Evict "(string \<times> nat) list"

inductive pool_step :: "pool_config \<Rightarrow> pool_world \<Rightarrow> pool_label \<Rightarrow> pool_world \<Rightarrow> bool" for cfg where
  use: "pool_step cfg w PL_Other (snd (get_or_create s w))"
| publish: "pool_step cfg w PL_Other (snd (pool_publish accepted s w))"
| discard: "pool_step cfg w PL_Other (snd (pool_discard s w))"
| stop: "pool_step cfg w PL_Other (snd (pool_stop w))"
| sweep: "pool_step cfg w PL_Other
    (w\<lparr>pw_evictions := pw_evictions w @ [claim_start (sweep_expired_candidates cfg (pw_clock w) w) None]\<rparr>)"
| evict: "i < length (pw_evictions w) \<Longrightarrow> evict_step cfg (pw_evictions w ! i) w = (x, evicted, w') \<Longrightarrow>
    pool_step cfg w (PL_Evict evicted) (w'\<lparr>pw_evictions := (pw_evictions w')[i := x]\<rparr>)"
| run: "pool_step cfg w PL_Other (w\<lparr>pw_running := (pw_running w)(e := b)\<rparr>)"
| listen: "pool_step cfg w PL_Other (w\<lparr>pw_subscribed := (pw_subscribed w)(e := b)\<rparr>)"
| notices: "pool_step cfg w PL_Other (w\<lparr>pw_notices := rows\<rparr>)"
| tick: "pool_step cfg w PL_Other (w\<lparr>pw_clock := pw_clock w + int d\<rparr>)"

text \<open>The states of a run, the latest first.\<close>

inductive pool_trace :: "pool_config \<Rightarrow> pool_world list \<Rightarrow> bool" for cfg where
  start: "pool_trace cfg [empty_pool rows now]"
| step: "pool_trace cfg (w # ws) \<Longrightarrow> pool_step cfg w l w' \<Longrightarrow> pool_trace cfg (w' # w # ws)"

text \<open>What an eviction has seen by the time it stands where it stands: its candidates were idle, and expired
  or over the capacity, in some state of the run, and the sessions it has chosen had no notification
  to act on in some state.\<close>

definition selected_in :: "pool_config \<Rightarrow> pool_world \<Rightarrow> eviction_candidate \<Rightarrow> bool" where
  "selected_in cfg v c \<longleftrightarrow>
     (ec_session c, ec_entry c) \<in> set (pw_pool v) \<and> session_inactive v (ec_entry c) \<and> pw_used v (ec_entry c) = ec_last_used c
     \<and> ((0 < pc_ttl cfg \<and> pw_clock v - ec_last_used c > pc_ttl cfg) \<or> pc_max_size cfg < int (length (pw_pool v)))"

definition cleared_in :: "pool_world \<Rightarrow> string \<Rightarrow> bool" where
  "cleared_in v s \<longleftrightarrow> \<not> has_active_session_notifications s (pw_notices v)"

fun eviction_ok :: "pool_config \<Rightarrow> pool_world list \<Rightarrow> eviction \<Rightarrow> bool" where
  "eviction_ok cfg ws (Ev_Select s) \<longleftrightarrow> True"
| "eviction_ok cfg ws (Ev_Check cs limit rest ids) \<longleftrightarrow>
     (\<forall>c\<in>set cs. \<exists>v\<in>set ws. selected_in cfg v c) \<and> set rest \<subseteq> set cs \<and> (\<forall>s\<in>set ids. \<exists>v\<in>set ws. cleared_in v s)"
| "eviction_ok cfg ws (Ev_Query cs limit c rest ids) \<longleftrightarrow>
     (\<forall>c\<in>set cs. \<exists>v\<in>set ws. selected_in cfg v c) \<and> set rest \<subseteq> set cs \<and> (\<forall>s\<in>set ids. \<exists>v\<in>set ws. cleared_in v s)"
| "eviction_ok cfg ws (Ev_Pop cs ids) \<longleftrightarrow>
     (\<forall>c\<in>set cs. \<exists>v\<in>set ws. selected_in cfg v c) \<and> (\<forall>s\<in>set ids. \<exists>v\<in>set ws. cleared_in v s)"
| "eviction_ok cfg ws _ \<longleftrightarrow> True"

section \<open>What an eviction takes out\<close>

definition pool_ok :: "pool_world \<Rightarrow> bool" where
  "pool_ok w \<longleftrightarrow> distinct (map fst (pw_pool w)) \<and> distinct (map snd (pw_pool w)) \<and> list_all (\<lambda>(s, e). e < pw_next w) (pw_pool w)"

lemma session_inactive_pool [simp]: "session_inactive (w\<lparr>pw_pool := p\<rparr>) = session_inactive w"
  by (simp add: session_inactive_def fun_eq_iff)

lemma delete_filter: "AList.delete k xs = filter (\<lambda>(s, e). s \<noteq> k) xs"
  by (induction xs) auto

lemma pop_evictions_exact:
  assumes "pop_evictions cs ids w = (evicted, w')" and "distinct (map fst (pw_pool w))"
  shows "w' = w\<lparr>pw_pool := filter (\<lambda>(s, e). s \<notin> fst ` set evicted) (pw_pool w)\<rparr>
    \<and> (\<forall>(s, e)\<in>set evicted. (s, e) \<in> set (pw_pool w) \<and> s \<in> set ids \<and> session_inactive w e
         \<and> observed_last_used cs s = Some (pw_used w e))"
  using assms
proof (induction ids arbitrary: w evicted w')
  case Nil
  then show ?case by simp
next
  case (Cons s ids)
  show ?case
  proof (cases "\<exists>e. map_of (pw_pool w) s = Some e \<and> session_inactive w e \<and> observed_last_used cs s = Some (pw_used w e)")
    case True
    then obtain e where e: "map_of (pw_pool w) s = Some e" "session_inactive w e" "observed_last_used cs s = Some (pw_used w e)"
      by blast
    let ?v = "w\<lparr>pw_pool := AList.delete s (pw_pool w)\<rparr>"
    obtain ev u where ev: "pop_evictions cs ids ?v = (ev, u)" by fastforce
    with Cons.prems(1) e have evicted: "evicted = (s, e) # ev" and u: "u = w'" by simp_all
    have d: "distinct (map fst (pw_pool ?v))" using Cons.prems(2) by (simp add: distinct_delete)
    note ih = Cons.IH[OF ev d, unfolded u]
    show ?thesis
    proof (intro conjI)
      show "w' = w\<lparr>pw_pool := filter (\<lambda>(s, e). s \<notin> fst ` set evicted) (pw_pool w)\<rparr>"
        using ih by (auto simp: evicted delete_filter intro!: arg_cong[of _ _ "\<lambda>p. w\<lparr>pw_pool := p\<rparr>"] filter_cong)
      show "\<forall>(t, e)\<in>set evicted. (t, e) \<in> set (pw_pool w) \<and> t \<in> set (s # ids) \<and> session_inactive w e
         \<and> observed_last_used cs t = Some (pw_used w e)"
        using ih e map_of_SomeD[OF e(1)] by (auto simp: evicted delete_filter)
    qed
  next
    case False
    then have "pop_evictions cs ids w = (evicted, w')" using Cons.prems(1) by (auto split: option.splits if_splits)
    from Cons.IH[OF this Cons.prems(2)] show ?thesis by auto
  qed
qed

text \<open>Every state of a run has a sound pool, time does not go back, and every eviction has seen what it claims.\<close>

lemma pop_keeps:
  assumes "pop_evictions cs ids w = (evicted, w')" and "pool_ok w"
  shows "pool_ok w' \<and> pw_clock w' = pw_clock w \<and> pw_evictions w' = pw_evictions w"
proof -
  have "w' = w\<lparr>pw_pool := filter (\<lambda>(s, e). s \<notin> fst ` set evicted) (pw_pool w)\<rparr>"
    using pop_evictions_exact[OF assms(1)] assms(2) by (simp add: pool_ok_def)
  with assms(2) show ?thesis by (auto simp: pool_ok_def distinct_map_filter list_all_iff)
qed

lemma evict_step_keeps:
  assumes "evict_step cfg x w = (y, evicted, w')" and "pool_ok w"
  shows "pool_ok w' \<and> pw_clock w' = pw_clock w \<and> pw_evictions w' = pw_evictions w"
  using assms
proof (cases "\<exists>cs ids. x = Ev_Pop cs ids")
  case True
  then obtain cs ids where x: "x = Ev_Pop cs ids" by blast
  with assms(1) have "pop_evictions cs ids w = (evicted, w')" by (auto split: prod.splits)
  from pop_keeps[OF this assms(2)] show ?thesis .
next
  case False
  have "w' = w \<or> (\<exists>c b. w' = w\<lparr>pw_closed := c, pw_subscribed := b\<rparr>)"
    using assms(1) False by (cases "(cfg, x, w)" rule: evict_step.cases) (auto split: if_splits)
  with assms(2) show ?thesis by (auto simp: pool_ok_def)
qed

lemma pool_step_keeps:
  assumes "pool_step cfg w l w'" and "pool_ok w"
  shows "pool_ok w' \<and> pw_clock w \<le> pw_clock w'"
  using assms
proof (cases rule: pool_step.cases)
  case (use s)
  then show ?thesis using assms(2)
    by (auto simp: get_or_create_def get_or_create_locked_def pool_ok_def Let_def map_of_eq_None_iff
        list_all_iff image_iff less_Suc_eq split: option.splits prod.splits)
next
  case (publish accepted s)
  then show ?thesis using assms(2) by (auto simp: pool_publish_def pool_ok_def split: option.splits)
next
  case (discard s)
  then show ?thesis using assms(2)
    by (auto simp: pool_discard_def pool_ok_def delete_filter distinct_map_filter list_all_iff)
next
  case (evict i x evicted v)
  then show ?thesis using evict_step_keeps[OF evict(4) assms(2)] by (auto simp: pool_ok_def)
qed (auto simp: pool_stop_def pool_ok_def)

lemma pool_trace_ok: "pool_trace cfg ws \<Longrightarrow> pool_ok (hd ws)"
proof (induction rule: pool_trace.induct)
  case (step w ws l w')
  with pool_step_keeps[OF step.hyps(2)] show ?case by simp
qed (simp add: empty_pool_def pool_ok_def)

lemma pool_trace_clock: "pool_trace cfg ws \<Longrightarrow> v \<in> set ws \<Longrightarrow> pw_clock v \<le> pw_clock (hd ws)"
proof (induction arbitrary: v rule: pool_trace.induct)
  case (step w ws l w')
  from pool_trace_ok[OF step.hyps(1)] step.hyps(2) have "pw_clock w \<le> pw_clock w'"
    by (auto dest: pool_step_keeps)
  with step.IH[of v] step.prems show ?case by auto
qed simp

lemma eviction_ok_mono: "eviction_ok cfg ws x \<Longrightarrow> set ws \<subseteq> set vs \<Longrightarrow> eviction_ok cfg vs x"
  by (cases x) (auto, (meson subsetD)+)

lemma set_candidates: "set (candidates_of w p) =
    {\<lparr>ec_session = s, ec_entry = e, ec_last_used = pw_used w e\<rparr> | s e. (s, e) \<in> set (pw_pool w) \<and> p s e}"
  by (auto simp: candidates_of_def)

lemma claim_start_ok:
  assumes "\<forall>c\<in>set cs. selected_in cfg w c" and "w \<in> set ws"
  shows "eviction_ok cfg ws (claim_start cs limit)"
  using assms by (auto simp: claim_start_def)

lemma evict_step_ok:
  assumes "evict_step cfg x w = (y, evicted, w')" and "eviction_ok cfg ws x" and "w \<in> set ws"
  shows "eviction_ok cfg ws y"
proof (cases "(cfg, x, w)" rule: evict_step.cases)
  case (1 cfg' s w0)
  have "\<forall>c\<in>set (capacity_candidates cfg s w). selected_in cfg w c"
    by (auto simp: capacity_candidates_def selected_in_def set_candidates Let_def)
  with 1 assms show ?thesis by (auto simp: enforce_capacity_def intro: claim_start_ok)
next
  case (4 cfg' cs limit c rest ids w0)
  with assms have e: "(cfg, Ev_Query cs limit c rest ids, w) = (cfg', x, w0)" by simp
  with assms 4 show ?thesis by (auto simp: cleared_in_def split: if_splits)
qed (use assms in \<open>auto split: if_splits prod.splits\<close>)

lemma pool_trace_evictions: "pool_trace cfg ws \<Longrightarrow> \<forall>x\<in>set (pw_evictions (hd ws)). eviction_ok cfg ws x"
proof (induction rule: pool_trace.induct)
  case (start rows now)
  then show ?case by (simp add: empty_pool_def)
next
  case (step w ws l w')
  then have old: "\<forall>x\<in>set (pw_evictions w). eviction_ok cfg (w' # w # ws) x"
    by (auto intro: eviction_ok_mono)
  have sel: "eviction_ok cfg (w' # w # ws) (Ev_Select s)" for s by simp
  from step.hyps(2) show ?case
  proof (cases rule: pool_step.cases)
    case (use s)
    then show ?thesis using old sel
      by (auto simp: get_or_create_def get_or_create_locked_def Let_def split: option.splits prod.splits)
  next
    case (publish accepted s)
    then show ?thesis using old by (auto simp: pool_publish_def split: option.splits)
  next
    case sweep
    have "\<forall>c\<in>set (sweep_expired_candidates cfg (pw_clock w) w). selected_in cfg w c"
      by (auto simp: sweep_expired_candidates_def selected_in_def set_candidates)
    then have "eviction_ok cfg (w' # w # ws) (claim_start (sweep_expired_candidates cfg (pw_clock w) w) None)"
      by (rule claim_start_ok) simp
    with sweep old show ?thesis by auto
  next
    case (evict i x evicted v)
    have "pw_evictions v = pw_evictions w"
      using evict_step_keeps[OF evict(4)] pool_trace_ok[OF step.hyps(1)] by simp
    moreover have "eviction_ok cfg (w' # w # ws) x"
      by (rule evict_step_ok[OF evict(4)]) (use old evict(3) in auto)
    ultimately show ?thesis using old evict set_update_subset_insert[of "pw_evictions w" i x] by auto
  qed (use old in \<open>auto simp: pool_discard_def pool_stop_def\<close>)
qed


lemma pop_evictions_others: "pw_evictions (snd (pop_evictions cs ids w)) = pw_evictions w"
  by (induction cs ids w rule: pop_evictions.induct) (auto simp: Let_def split: option.splits prod.splits)

definition evict_at :: "pool_config \<Rightarrow> nat \<Rightarrow> pool_world \<Rightarrow> (string \<times> nat) list \<times> pool_world" where
  "evict_at cfg i w =
    (let (x, evicted, w') = evict_step cfg (pw_evictions w ! i) w
     in (evicted, w'\<lparr>pw_evictions := (pw_evictions w')[i := x]\<rparr>))"

lemma evict_at_length [simp]: "length (pw_evictions (snd (evict_at cfg i w))) = length (pw_evictions w)"
proof -
  have "pw_evictions (snd (snd (evict_step cfg x w))) = pw_evictions w" for x
    using pop_evictions_others by (cases "(cfg, x, w)" rule: evict_step.cases) (auto simp: case_prod_beta Let_def)
  then show ?thesis by (simp add: evict_at_def case_prod_beta Let_def)
qed

lemma evict_at_step:
  "i < length (pw_evictions w) \<Longrightarrow> pool_step cfg w (PL_Evict (fst (evict_at cfg i w))) (snd (evict_at cfg i w))"
  by (auto simp: evict_at_def split: prod.splits intro: pool_step.evict)

text \<open>A session that is not used for ten ticks, with a ttl of five: the eviction right before it takes the session out.\<close>

definition sample_config :: pool_config where
  "sample_config = \<lparr>pc_max_size = 1, pc_ttl = 5\<rparr>"

definition idle_pool :: pool_world where
  "idle_pool = (snd (get_or_create ''a'' (empty_pool [] 0)))\<lparr>pw_clock := 10\<rparr>"

definition swept_pool :: pool_world where
  "swept_pool = idle_pool\<lparr>pw_evictions := pw_evictions idle_pool
     @ [claim_start (sweep_expired_candidates sample_config (pw_clock idle_pool) idle_pool) None]\<rparr>"

definition popping_pool :: pool_world where
  "popping_pool = ((\<lambda>w. snd (evict_at sample_config 1 w)) ^^ 3) swept_pool"

lemmas pool_samples = swept_pool_def idle_pool_def sample_config_def get_or_create_def
  get_or_create_locked_def empty_pool_def claim_start_def sweep_expired_candidates_def candidates_of_def
  session_inactive_def evict_at_def has_active_session_notifications_def numeral_3_eq_3 Let_def

lemma popping_pool_eq: "popping_pool = (snd (get_or_create ''a'' (empty_pool [] 0)))\<lparr>pw_clock := 10,
     pw_evictions := [Ev_Select ''a'', Ev_Pop [\<lparr>ec_session = ''a'', ec_entry = 0, ec_last_used = 0\<rparr>] [''a'']]\<rparr>"
  by (simp add: popping_pool_def pool_samples)

lemma popping_trace: "\<exists>ws. pool_trace sample_config (popping_pool # ws)"
proof -
  let ?n = "\<lambda>w. snd (evict_at sample_config 1 w)"
  have "pool_trace sample_config [snd (get_or_create ''a'' (empty_pool [] 0)), empty_pool [] 0]"
    by (rule pool_trace.step[OF pool_trace.start pool_step.use])
  from pool_trace.step[OF this pool_step.tick[where d = 10]]
  have "\<exists>ws. pool_trace sample_config (idle_pool # ws)" by (auto simp: pool_samples)
  then have "\<exists>ws. pool_trace sample_config (swept_pool # ws)"
    unfolding swept_pool_def by (blast intro: pool_trace.step pool_step.sweep)
  moreover have "length (pw_evictions ((?n ^^ k) swept_pool)) = 2" for k
    by (induction k) (simp_all, simp add: pool_samples)
  ultimately have "\<exists>ws. pool_trace sample_config ((?n ^^ k) swept_pool # ws)" if "k \<le> 3" for k
    using that
  proof (induction k)
    case (Suc k)
    then obtain ws where "pool_trace sample_config ((?n ^^ k) swept_pool # ws)" by auto
    from pool_trace.step[OF this evict_at_step[of 1]] Suc.prems show ?case by auto
  qed simp
  then show ?thesis by (simp add: popping_pool_def)
qed


section \<open>One enforcement of the capacity\<close>

text \<open>An eviction that runs with nothing in between, from where it stands to its end; the fuel bounds its steps.\<close>

fun run_eviction :: "nat \<Rightarrow> pool_config \<Rightarrow> eviction \<Rightarrow> pool_world \<Rightarrow> pool_world option" where
  "run_eviction n cfg Ev_Done w = Some w"
| "run_eviction 0 cfg x w = None"
| "run_eviction (Suc n) cfg x w = (let (y, evicted, w') = evict_step cfg x w in run_eviction n cfg y w')"

lemma run_eviction_step:
  "x \<noteq> Ev_Done \<Longrightarrow> evict_step cfg x w = (y, evicted, w') \<Longrightarrow> run_eviction (Suc n) cfg x w = run_eviction n cfg y w'"
  by (cases x) (simp_all del: evict_step.simps)

lemma run_eviction_mono: "run_eviction n cfg x w = Some w' \<Longrightarrow> n \<le> m \<Longrightarrow> run_eviction m cfg x w = Some w'"
proof (induction n arbitrary: x w m)
  case 0
  then show ?case by (cases x) simp_all
next
  case (Suc n)
  obtain k where m: "m = Suc k" "n \<le> k" using Suc.prems(2) by (cases m) auto
  obtain y evicted v where st: "evict_step cfg x w = (y, evicted, v)" by (metis prod_cases3)
  show ?case
  proof (cases "x = Ev_Done")
    case False
    with Suc.prems(1) run_eviction_step[OF False st] have "run_eviction n cfg y v = Some w'" by simp
    from Suc.IH[OF this m(2)] run_eviction_step[OF False st] show ?thesis by (simp add: m(1))
  qed (use Suc.prems in simp)
qed

text \<open>The candidates the claim keeps of those still to check, when nothing has changed since they were selected.\<close>

definition unchanged :: "pool_world \<Rightarrow> eviction_candidate \<Rightarrow> bool" where
  "unchanged w c \<longleftrightarrow> session_inactive w (ec_entry c) \<and> pw_used w (ec_entry c) = ec_last_used c"

definition claimed :: "pool_world \<Rightarrow> nat \<Rightarrow> eviction_candidate list \<Rightarrow> string list" where
  "claimed w k cs = take k (filter (\<lambda>s. \<not> has_active_session_notifications s (pw_notices w)) (map ec_session cs))"

lemma run_check:
  assumes "\<forall>c\<in>set rest. unchanged w c"
  shows "\<exists>j\<le>2 * length rest + 1. \<forall>n. run_eviction (j + n) cfg (Ev_Check cs (Some k) rest ids) w =
    (let chosen = ids @ claimed w (k - length ids) rest
     in run_eviction n cfg (if chosen = [] then Ev_Done else Ev_Pop cs chosen) w)"
  using assms
proof (induction rest arbitrary: ids)
  case Nil
  then show ?case by (intro exI[of _ 1]) (simp add: claimed_def)
next
  case (Cons c rest)
  show ?case
  proof (cases "k \<le> length ids")
    case True
    then show ?thesis by (intro exI[of _ 1]) (simp add: claimed_def)
  next
    case False
    let ?active = "has_active_session_notifications (ec_session c) (pw_notices w)"
    let ?ids = "if ?active then ids else ids @ [ec_session c]"
    obtain j where j: "j \<le> 2 * length rest + 1"
      and ih: "\<And>n. run_eviction (j + n) cfg (Ev_Check cs (Some k) rest ?ids) w =
        (let chosen = ?ids @ claimed w (k - length ?ids) rest
         in run_eviction n cfg (if chosen = [] then Ev_Done else Ev_Pop cs chosen) w)"
      using Cons.IH[of ?ids] Cons.prems by auto
    have "run_eviction (Suc (Suc (j + n))) cfg (Ev_Check cs (Some k) (c # rest) ids) w
        = run_eviction (j + n) cfg (Ev_Check cs (Some k) rest ?ids) w" for n
      using False Cons.prems by (simp add: unchanged_def)
    moreover have "?ids @ claimed w (k - length ?ids) rest = ids @ claimed w (k - length ids) (c # rest)"
      using False by (cases "k - length ids") (auto simp: claimed_def intro!: arg_cong2[of _ _ _ _ take])
    ultimately have "run_eviction (Suc (Suc j) + n) cfg (Ev_Check cs (Some k) (c # rest) ids) w
        = (let chosen = ids @ claimed w (k - length ids) (c # rest)
           in run_eviction n cfg (if chosen = [] then Ev_Done else Ev_Pop cs chosen) w)" for n
      using ih[of n] by simp
    then show ?thesis using j by (intro exI[of _ "Suc (Suc j)"]) auto
  qed
qed

text \<open>Chosen sessions that are in the pool as they were observed all leave it.\<close>

lemma pop_all:
  assumes "\<forall>s\<in>set ids. \<exists>e. map_of (pw_pool w) s = Some e \<and> session_inactive w e
      \<and> observed_last_used cs s = Some (pw_used w e)" and "distinct ids" and "distinct (map fst (pw_pool w))"
  shows "map fst (fst (pop_evictions cs ids w)) = ids"
  using assms
proof (induction ids arbitrary: w)
  case (Cons s ids)
  then obtain e where e: "map_of (pw_pool w) s = Some e" "session_inactive w e" "observed_last_used cs s = Some (pw_used w e)"
    by auto
  let ?v = "w\<lparr>pw_pool := AList.delete s (pw_pool w)\<rparr>"
  have "map_of (AList.delete s (pw_pool w)) t = map_of (pw_pool w) t" if "t \<in> set ids" for t
    using that Cons.prems(2) by (auto simp: delete_conv)
  then have "map fst (fst (pop_evictions cs ids ?v)) = ids"
    using Cons.prems by (intro Cons.IH) (auto simp: distinct_delete)
  with e show ?case by (simp add: case_prod_beta Let_def)
qed simp

definition evictable :: "pool_world \<Rightarrow> string \<Rightarrow> string \<Rightarrow> nat \<Rightarrow> bool" where
  "evictable w protected s e \<longleftrightarrow> s \<noteq> protected \<and> session_inactive w e \<and> \<not> has_active_session_notifications s (pw_notices w)"

text \<open>The candidates that are free to go, the least recently used first.\<close>

definition free_candidates :: "pool_config \<Rightarrow> string \<Rightarrow> pool_world \<Rightarrow> eviction_candidate list" where
  "free_candidates cfg protected w =
     filter (\<lambda>c. \<not> has_active_session_notifications (ec_session c) (pw_notices w)) (capacity_candidates cfg protected w)"

lemma claimed_free: "claimed w k (capacity_candidates cfg s w) = map ec_session (take k (free_candidates cfg s w))"
  by (simp add: claimed_def free_candidates_def filter_map comp_def take_map)

lemma set_capacity_candidates:
  "c \<in> set (capacity_candidates cfg s w) \<Longrightarrow> (ec_session c, ec_entry c) \<in> set (pw_pool w) \<and> ec_session c \<noteq> s
     \<and> session_inactive w (ec_entry c) \<and> ec_last_used c = pw_used w (ec_entry c)"
  by (auto simp: capacity_candidates_def set_candidates Let_def split: if_splits)

lemma distinct_candidates:
  assumes "distinct (map fst (pw_pool w))"
  shows "distinct (map ec_session (capacity_candidates cfg s w))"
proof -
  let ?cs = "candidates_of w (\<lambda>t e. t \<noteq> s \<and> session_inactive w e)"
  have "map ec_session ?cs = map fst (filter (\<lambda>(t, e). t \<noteq> s \<and> session_inactive w e) (pw_pool w))"
    by (simp add: candidates_of_def case_prod_beta comp_def)
  then have "distinct (map ec_session ?cs)" using assms by (simp add: distinct_map_filter)
  moreover have "mset (map ec_session (sort_key ec_last_used ?cs)) = mset (map ec_session ?cs)" by simp
  ultimately have "distinct (map ec_session (sort_key ec_last_used ?cs))" by (rule mset_eq_imp_distinct_iff[THEN iffD2, rotated])
  then show ?thesis by (simp add: capacity_candidates_def Let_def)
qed

lemma observed_candidate:
  assumes "distinct (map ec_session cs)" and "c \<in> set cs"
  shows "observed_last_used cs (ec_session c) = Some (ec_last_used c)"
  unfolding observed_last_used_def
  by (rule map_of_is_SomeI) (use assms in \<open>auto simp: rev_map[symmetric] comp_def\<close>)

lemma length_candidates: "length (capacity_candidates cfg s w) \<le> length (pw_pool w)"
  by (simp add: capacity_candidates_def candidates_of_def Let_def)

lemma count_free:
  assumes "pc_max_size cfg < int (length (pw_pool w))"
  shows "length (free_candidates cfg s w) = length (filter (\<lambda>(t, e). evictable w s t e) (pw_pool w))"
proof -
  let ?cs = "candidates_of w (\<lambda>t e. t \<noteq> s \<and> session_inactive w e)"
  let ?p = "\<lambda>c. \<not> has_active_session_notifications (ec_session c) (pw_notices w)"
  have "size (filter_mset ?p (mset (sort_key ec_last_used ?cs))) = size (filter_mset ?p (mset ?cs))" by simp
  then have "length (filter ?p (sort_key ec_last_used ?cs)) = length (filter ?p ?cs)"
    unfolding mset_filter[symmetric] size_mset .
  moreover have "length (filter ?p ?cs) = length (filter (\<lambda>(t, e). evictable w s t e) (pw_pool w))"
    by (auto simp: candidates_of_def filter_map comp_def evictable_def intro!: arg_cong[of _ _ length] filter_cong)
  ultimately show ?thesis using assms by (simp add: free_candidates_def capacity_candidates_def Let_def)
qed

text \<open>The whole of one enforcement, with nothing in between.\<close>

lemma enforcement_run:
  assumes ok: "pool_ok w"
    and k_def: "k = nat (int (length (pw_pool w)) - pc_max_size cfg)"
    and chosen_def: "chosen = map ec_session (take k (free_candidates cfg s w))"
  shows "\<exists>w'. run_eviction (2 * length (pw_pool w) + 5) cfg (Ev_Select s) w = Some w'
    \<and> pw_pool w' = filter (\<lambda>(t, e). t \<notin> set chosen) (pw_pool w)"
proof -
  let ?cs = "capacity_candidates cfg s w"
  have d: "distinct (map fst (pw_pool w))" using ok by (simp add: pool_ok_def)
  have sel: "run_eviction (Suc n) cfg (Ev_Select s) w = run_eviction n cfg (claim_start ?cs (Some k)) w" for n
    by (simp add: enforce_capacity_def k_def)
  show ?thesis
  proof (cases "?cs = [] \<or> k = 0")
    case True
    then have "chosen = []" by (auto simp: chosen_def free_candidates_def)
    moreover have "run_eviction (2 * length (pw_pool w) + 5) cfg (Ev_Select s) w = Some w"
      using True by (auto simp: numeral_eq_Suc enforce_capacity_def k_def claim_start_def)
    ultimately show ?thesis by simp
  next
    case False
    have "\<forall>c\<in>set ?cs. unchanged w c" using set_capacity_candidates by (simp add: unchanged_def)
    from run_check[OF this, of cfg ?cs k "[]"] obtain j where j: "j \<le> 2 * length ?cs + 1"
      and chk: "\<And>n. run_eviction (j + n) cfg (Ev_Check ?cs (Some k) ?cs []) w =
        run_eviction n cfg (if chosen = [] then Ev_Done else Ev_Pop ?cs chosen) w"
      by (auto simp: claimed_free chosen_def Let_def)
    obtain evicted v where pop: "pop_evictions ?cs chosen w = (evicted, v)" by fastforce
    have "\<exists>e. map_of (pw_pool w) t = Some e \<and> session_inactive w e \<and> observed_last_used ?cs t = Some (pw_used w e)"
      if "t \<in> set chosen" for t
    proof -
      from that obtain c where c: "c \<in> set ?cs" "t = ec_session c"
        by (auto simp: chosen_def free_candidates_def dest!: in_set_takeD)
      from set_capacity_candidates[OF c(1)] c observed_candidate[OF distinct_candidates[OF d] c(1)] d
      show ?thesis by auto
    qed
    moreover have "distinct chosen"
      using distinct_candidates[OF d, of cfg s]
      by (simp add: chosen_def free_candidates_def distinct_map_filter take_map[symmetric])
    ultimately have fst: "map fst evicted = chosen" using pop_all[of chosen w ?cs] d pop by simp
    then have img: "fst ` set evicted = set chosen" by (metis set_map)
    have pool: "pw_pool v = filter (\<lambda>(t, e). t \<notin> set chosen) (pw_pool w)"
      using pop_evictions_exact[OF pop d] by (simp add: img)
    let ?final = "if evicted = [] then v else snd (snd (evict_step cfg (Ev_Close evicted) v))"
    have "run_eviction (Suc (Suc 0)) cfg (if chosen = [] then Ev_Done else Ev_Pop ?cs chosen) w = Some ?final"
      using pop fst by (auto simp: Let_def)
    then have "run_eviction (Suc (j + 2)) cfg (Ev_Select s) w = Some ?final"
      using False sel[of "j + 2"] chk[of 2] by (simp add: claim_start_def numeral_2_eq_2)
    then have "run_eviction (2 * length (pw_pool w) + 5) cfg (Ev_Select s) w = Some ?final"
      by (rule run_eviction_mono) (use j length_candidates[of cfg s w] in simp)
    moreover have "pw_pool ?final = filter (\<lambda>(t, e). t \<notin> set chosen) (pw_pool w)" using pool by simp
    ultimately show ?thesis by blast
  qed
qed

lemma length_without_keys:
  assumes "distinct (map fst xs)" and "set ks \<subseteq> fst ` set xs" and "distinct ks"
  shows "length (filter (\<lambda>(t, e). t \<notin> set ks) xs) + length ks = length xs"
proof -
  have eq: "(\<lambda>(t, e). t \<in> set ks) = (\<lambda>x. fst x \<in> set ks)" "(\<lambda>(t, e). t \<notin> set ks) = (\<lambda>x. fst x \<notin> set ks)" by auto
  have "length (filter (\<lambda>t. t \<in> set ks) (map fst xs)) = card (set (filter (\<lambda>t. t \<in> set ks) (map fst xs)))"
    by (rule distinct_card[symmetric]) (use assms(1) in simp)
  also have "set (filter (\<lambda>t. t \<in> set ks) (map fst xs)) = set ks" using assms(2) by auto
  finally have "length (filter (\<lambda>x. fst x \<in> set ks) xs) = length ks"
    using distinct_card[OF assms(3)] by (simp add: filter_map comp_def)
  with sum_length_filter_compl[of "\<lambda>x. fst x \<in> set ks" xs] show ?thesis by (simp add: eq)
qed

text \<open>C39. Capacity enforcement gives up the least recently used sessions and no more than it has to.  An
  enforcement that runs alone ends; exactly as many entries leave the pool as it is above its
  capacity, or all that may leave if there are fewer; each of them is an idle session
  without outstanding notifications other than the one that asked for room, and none was used
  later than such a session that stays.\<close>

theorem capacity_keeps_recent:
  assumes "pool_ok w"
  shows "\<exists>w'. run_eviction (2 * length (pw_pool w) + 5) cfg (Ev_Select s) w = Some w'
    \<and> set (pw_pool w') \<subseteq> set (pw_pool w)
    \<and> length (pw_pool w) - length (pw_pool w')
        = min (nat (int (length (pw_pool w)) - pc_max_size cfg)) (length (filter (\<lambda>(t, e). evictable w s t e) (pw_pool w)))
    \<and> (\<forall>(t, e)\<in>set (pw_pool w) - set (pw_pool w'). evictable w s t e
         \<and> (\<forall>(t', e')\<in>set (pw_pool w'). evictable w s t' e' \<longrightarrow> pw_used w e \<le> pw_used w e'))"
proof -
  define k where "k = nat (int (length (pw_pool w)) - pc_max_size cfg)"
  define F where "F = free_candidates cfg s w"
  define chosen where "chosen = map ec_session (take k F)"
  obtain w' where run: "run_eviction (2 * length (pw_pool w) + 5) cfg (Ev_Select s) w = Some w'"
    and pool: "pw_pool w' = filter (\<lambda>(t, e). t \<notin> set chosen) (pw_pool w)"
    using enforcement_run[OF assms k_def, of chosen s] by (auto simp: chosen_def F_def)
  have d: "distinct (map fst (pw_pool w))" using assms by (simp add: pool_ok_def)
  have F: "(ec_session c, ec_entry c) \<in> set (pw_pool w) \<and> evictable w s (ec_session c) (ec_entry c)
      \<and> ec_last_used c = pw_used w (ec_entry c)" if "c \<in> set F" for c
    using that set_capacity_candidates[of c cfg s w] by (auto simp: F_def free_candidates_def evictable_def)
  have dF: "distinct (map ec_session F)"
    using distinct_candidates[OF d, of cfg s] by (simp add: F_def free_candidates_def distinct_map_filter)
  have entry: "e = e'" if "(t, e) \<in> set (pw_pool w)" "(t, e') \<in> set (pw_pool w)" for t e e'
    using that d by (simp add: eq_key_imp_eq_value)
  have inF: "\<exists>c\<in>set F. ec_session c = t \<and> ec_entry c = e \<and> ec_last_used c = pw_used w e"
    if "(t, e) \<in> set (pw_pool w)" "evictable w s t e" "k \<noteq> 0" for t e
    using that by (auto simp: F_def free_candidates_def capacity_candidates_def set_candidates evictable_def k_def Let_def
        intro!: exI[of _ "\<lparr>ec_session = t, ec_entry = e, ec_last_used = pw_used w e\<rparr>"])
  have sorted: "sorted (map ec_last_used F)"
    by (simp add: F_def free_candidates_def capacity_candidates_def sorted_filter Let_def)
  have gone: "\<exists>c\<in>set (take k F). ec_session c = t \<and> ec_entry c = e" if "(t, e) \<in> set (pw_pool w) - set (pw_pool w')" for t e
  proof -
    from that obtain c where c: "c \<in> set (take k F)" "ec_session c = t" by (auto simp: pool chosen_def)
    with F[OF in_set_takeD[OF c(1)]] entry[of t e "ec_entry c"] that show ?thesis by auto
  qed
  have "length (pw_pool w') + length chosen = length (pw_pool w)"
    unfolding pool by (rule length_without_keys[OF d])
      (use F dF in \<open>force simp: chosen_def take_map[symmetric] dest: in_set_takeD\<close>)+
  moreover have "length chosen = min k (length (filter (\<lambda>(t, e). evictable w s t e) (pw_pool w)))"
    using count_free[of cfg w s] by (cases "k = 0") (simp_all add: chosen_def F_def k_def min.commute)
  moreover have "pw_used w e \<le> pw_used w e'"
    if out: "(t, e) \<in> set (pw_pool w) - set (pw_pool w')" and stay: "(t', e') \<in> set (pw_pool w')" "evictable w s t' e'" for t e t' e'
  proof -
    from gone[OF out] obtain c where c: "c \<in> set (take k F)" "ec_entry c = e" by blast
    then have "k \<noteq> 0" by (cases "k = 0") auto
    with stay inF[of t' e'] obtain c' where c': "c' \<in> set F" "ec_session c' = t'" "ec_last_used c' = pw_used w e'"
      by (auto simp: pool)
    with stay have "c' \<notin> set (take k F)" by (auto simp: pool chosen_def)
    with c' have "c' \<in> set (drop k F)" by (metis UnE append_take_drop_id set_append)
    with c(1) sorted have "ec_last_used c \<le> ec_last_used c'"
      by (metis (no_types, lifting) append_take_drop_id image_eqI list.set_map map_append sorted_append)
    with c c' F[OF in_set_takeD[OF c(1)]] show ?thesis by simp
  qed
  moreover have "evictable w s t e" if "(t, e) \<in> set (pw_pool w) - set (pw_pool w')" for t e
    using gone[OF that] F by (force dest: in_set_takeD)
  ultimately show ?thesis using run pool by (intro exI[of _ w']) (auto simp: k_def)
qed

theorem capacity_keeps_recent_witness:
  "\<exists>w'. run_eviction 9 sample_config (Ev_Select ''b'') (snd (get_or_create_locked ''b'' idle_pool)) = Some w'
     \<and> length (pw_pool w') = 1"
proof -
  let ?w = "snd (get_or_create_locked ''b'' idle_pool)"
  have w: "pw_pool ?w = [(''a'', 0), (''b'', 1)]" "pw_next ?w = 2" "pw_notices ?w = []"
    "session_inactive ?w 0" by (simp_all add: idle_pool_def get_or_create_def get_or_create_locked_def empty_pool_def Let_def
        session_inactive_def)
  then have ok: "pool_ok ?w" by (simp add: pool_ok_def)
  have "length (filter (\<lambda>(t, e). evictable ?w ''b'' t e) (pw_pool ?w)) = 1"
    using w by (simp add: evictable_def has_active_session_notifications_def)
  with capacity_keeps_recent[OF ok, of sample_config "''b''"] w(1) show ?thesis
    by (auto simp: sample_config_def)
qed

end
