(* ===== verification/Delegation_Tools.thy ===== *)
theory Delegation_Tools
  imports Task_Runtime Projection Subordinates
begin

text \<open>
  What an agent sees of its delegated tasks, \<^verbatim>\<open>src/core/delegation/subagents.py\<close>: the checks and answers of
  the four tools, the pages in which a long result is read, the events shown to the user, the
  context a sub-agent runs in and the text it reports.  The answers are the objects the
  source serialises to JSON.
\<close>

section \<open>Pages of a result\<close>

definition subagent_task_event_preview_chars :: int where
  "subagent_task_event_preview_chars = 3000"

definition subagent_task_result_chunk_chars :: int where
  "subagent_task_result_chunk_chars = 3000"

text \<open>\<^verbatim>\<open>value[start:end]\<close> for bounds that are not negative.\<close>

definition py_slice :: "int \<Rightarrow> int \<Rightarrow> 'a list \<Rightarrow> 'a list" where
  "py_slice a b xs = drop (nat a) (take (nat b) xs)"

definition slice_chunk :: "string \<Rightarrow> int \<Rightarrow> string \<times> int option" where
  "slice_chunk body offset =
    (let start = max offset 0; n = int (length body) in
     if n \<le> start then ([], None)
     else let stop = min (start + subagent_task_result_chunk_chars) n
          in (py_slice start stop body, if stop < n then Some stop else None))"

definition event_preview :: "string \<Rightarrow> string \<times> bool" where
  "event_preview body =
    (if int (length body) \<le> subagent_task_event_preview_chars then (body, False)
     else (take (nat subagent_task_event_preview_chars) body, True))"

record task_tool_item =
  ti_run_id :: string
  ti_agent_code :: string
  ti_agent_name :: string
  ti_status :: task_status
  ti_result :: string
  ti_error :: string
  ti_result_chars :: int
  ti_error_chars :: int
  ti_next_offset :: "int option"
  ti_progress :: string

record task_tool_result =
  tt_task :: "task_tool_item option"
  tt_tasks :: "task_tool_item list"
  tt_message :: string

definition task_tool_item :: "subordinate_task \<Rightarrow> int \<Rightarrow> bool \<Rightarrow> task_tool_item" where
  "task_tool_item snapshot offset include_body =
    (let (result, result_next) = slice_chunk (tk_result snapshot) offset;
         (error, error_next) = slice_chunk (tk_error snapshot) offset;
         next = (if result_next \<noteq> None then result_next else error_next);
         (result, error, next) = (if include_body then (result, error, next) else ([], [], None))
     in \<lparr>ti_run_id = tk_run_id snapshot, ti_agent_code = tk_agent_code snapshot, ti_agent_name = tk_agent_name snapshot,
         ti_status = tk_status snapshot, ti_result = result, ti_error = error,
         ti_result_chars = int (length (tk_result snapshot)), ti_error_chars = int (length (tk_error snapshot)),
         ti_next_offset = next, ti_progress = tk_progress snapshot\<rparr>)"

definition tool_response :: "subordinate_task option \<Rightarrow> subordinate_task list \<Rightarrow> string \<Rightarrow> int \<Rightarrow> task_tool_result" where
  "tool_response task tasks message offset =
     \<lparr>tt_task = map_option (\<lambda>t. task_tool_item t offset True) task,
      tt_tasks = map (\<lambda>t. task_tool_item t 0 False) tasks, tt_message = message\<rparr>"

section \<open>The tools\<close>

text \<open>\<^verbatim>\<open>sorted\<close> compares strings by code points.\<close>

fun str_le :: "string \<Rightarrow> string \<Rightarrow> bool" where
  "str_le [] t = True"
| "str_le (c # s) [] = False"
| "str_le (c # s) (d # t) =
    (if (of_char c :: nat) < of_char d then True else if (of_char d :: nat) < of_char c then False else str_le s t)"

fun insert_str :: "string \<Rightarrow> string list \<Rightarrow> string list" where
  "insert_str s [] = [s]"
| "insert_str s (t # ts) = (if str_le s t then s # t # ts else t # insert_str s ts)"

definition allowed_codes_text :: "string list \<Rightarrow> string" where
  "allowed_codes_text mounted = join_with '', '' (foldr insert_str (remdups mounted) [])"

text \<open>A start either is answered at once or is a code and a brief to start with.\<close>

definition start_subagent_task_tool :: "string list \<Rightarrow> string \<Rightarrow> string \<Rightarrow> task_tool_result + (string \<times> string)" where
  "start_subagent_task_tool mounted agent_code brief =
    (let code = str_strip agent_code in
     if code \<notin> set mounted
     then Inl (tool_response None [] (''unknown subagent '' @ [CHR 0x27] @ code @ [CHR 0x27] @ ''. allowed: ''
                 @ allowed_codes_text mounted) 0)
     else let body = str_strip brief in
     if body = [] then Inl (tool_response None [] ''brief is required'' 0)
     else Inr (code, body))"

definition started_message :: string where
  "started_message = ''subagent task started; end this turn now. The task will resume automatically when ''
     @ ''the subagent finishes. Use read/list/cancel only if the user later asks for progress, ''
     @ ''task history, or cancellation.''"

definition resolve_task :: "runtime_context \<Rightarrow> bool \<Rightarrow> string \<Rightarrow> subordinate_db \<Rightarrow> subordinate_task option" where
  "resolve_task cx is_admin run_id db = get_subagent_task (str_strip run_id) (rx_session cx) (rx_user cx) is_admin db"

definition read_subagent_task_tool :: "runtime_context \<Rightarrow> bool \<Rightarrow> string \<Rightarrow> int \<Rightarrow> subordinate_db \<Rightarrow> task_tool_result" where
  "read_subagent_task_tool cx is_admin run_id offset db =
    (case resolve_task cx is_admin run_id db of
       None \<Rightarrow> tool_response None [] ''subagent task not found'' 0
     | Some s \<Rightarrow> tool_response (Some s) [] [] offset)"

definition list_subagent_tasks_tool :: "runtime_context \<Rightarrow> bool \<Rightarrow> int \<Rightarrow> subordinate_db \<Rightarrow> task_tool_result" where
  "list_subagent_tasks_tool cx is_admin limit db =
     tool_response None (list_subagent_tasks (rx_session cx) (rx_user cx) is_admin limit db) [] 0"

section \<open>Contexts, events and reports\<close>

definition subagent_context :: "runtime_context \<Rightarrow> subordinate_task \<Rightarrow> string \<Rightarrow> runtime_context" where
  "subagent_context cx snapshot agent_code =
     cx\<lparr>rx_agent_code := agent_code, rx_instance := subagent_instance_id (tk_run_id snapshot)\<rparr>"

definition progress_from_event :: "agent_event \<Rightarrow> string" where
  "progress_from_event e =
    (case ev_body e of
       ToolCall call_id name _ \<Rightarrow> ''calling tool: '' @ (if name \<noteq> [] then name else call_id)
     | ToolResult _ _ _ \<Rightarrow> ''tool completed''
     | TextComplete _ _ \<Rightarrow> ''reported output''
     | ThinkingComplete _ _ \<Rightarrow> ''completed reasoning''
     | _ \<Rightarrow> [])"

definition task_event :: "subordinate_task \<Rightarrow> agent_event" where
  "task_event s =
    (let (result_preview, result_truncated) = event_preview (tk_result s);
         (error_preview, error_truncated) = event_preview (tk_error s)
     in \<lparr>ev_created_at = tk_updated_at s, ev_seq = 0, ev_agent_name = tk_agent_name s,
         ev_nested_for = tk_parent_agent_code s, ev_nested_call_id = tk_nested_call_id s,
         ev_body = SubagentTask (tk_run_id s) (tk_parent_agent_code s) (tk_parent_instance s) (tk_agent_code s)
           (tk_status s) result_preview error_preview (int (length (tk_result s))) (int (length (tk_error s)))
           (result_truncated \<or> error_truncated) (tk_progress s)\<rparr>)"

text \<open>The classes without a scope of their own are left as they are.\<close>

fun has_scope :: "event_body \<Rightarrow> bool" where
  "has_scope (UserMessage _ _ _) = False"
| "has_scope (RunState _) = False"
| "has_scope _ = True"

definition tag_nested :: "agent_event \<Rightarrow> subordinate_task \<Rightarrow> agent_event" where
  "tag_nested e s =
    (if has_scope (ev_body e) then e\<lparr>ev_nested_for := tk_parent_agent_code s, ev_nested_call_id := tk_nested_call_id s\<rparr>
     else e)"

text \<open>A new progress text, and the event that shows it; nothing once the task has ended.\<close>

definition update_progress_from_event ::
  "subordinate_task \<Rightarrow> agent_event \<Rightarrow> datetime \<Rightarrow> subordinate_db \<Rightarrow> agent_event option \<times> subordinate_db" where
  "update_progress_from_event s e now db =
    (if progress_from_event e = [] then (None, db)
     else let (latest, db') = update_subagent_progress (tk_run_id s) (progress_from_event e) now db
          in (map_option task_event latest, db'))"

definition assistant_message_text :: "json \<Rightarrow> string" where
  "assistant_message_text item =
    (if json_get item ''type'' = JStr ''message'' \<and> json_get item ''role'' = JStr ''assistant''
     then str_strip (extract_message_text (json_get item ''content'')) else [])"

text \<open>The messages of the session in their order.\<close>

definition subagent_assistant_output :: "stored_item list \<Rightarrow> subordinate_task \<Rightarrow> string" where
  "subagent_assistant_output stored s =
     str_strip (join_with [CHR 0x0A, CHR 0x0A]
       (filter (\<lambda>t. t \<noteq> [])
         (map (assistant_message_text \<circ> st_item)
           (filter (\<lambda>i. st_owner_code i = tk_agent_code s \<and> st_nested_for i = tk_parent_agent_code s
              \<and> st_nested_call_id i = tk_nested_call_id s) stored))))"

section \<open>Reading a report to its end\<close>

lemma slice_chunk_next: "slice_chunk body offset = (c, Some n) \<Longrightarrow> max offset 0 < n \<and> n < int (length body)"
  by (auto simp: slice_chunk_def Let_def subagent_task_result_chunk_chars_def split: if_splits)

text \<open>What an agent collects by repeating the read with \<^verbatim>\<open>offset=next_offset\<close> until there is none.\<close>

function read_report :: "subordinate_task \<Rightarrow> int \<Rightarrow> task_tool_item list" where
  "read_report s offset =
    (let i = task_tool_item s offset True
     in i # (case ti_next_offset i of None \<Rightarrow> [] | Some n \<Rightarrow> read_report s n))"
  by pat_completeness auto
termination
proof (relation "measure (\<lambda>(s, offset). nat (max (int (length (tk_result s))) (int (length (tk_error s))) - max offset 0))")
  fix s :: subordinate_task and offset i n
  assume "i = task_tool_item s offset True" and "ti_next_offset i = Some n"
  then have "max offset 0 < n \<and> (n < int (length (tk_result s)) \<or> n < int (length (tk_error s)))"
    by (auto simp: task_tool_item_def Let_def split: prod.splits if_splits dest!: slice_chunk_next)
  then show "((s, n), (s, offset))
      \<in> measure (\<lambda>(s, offset). nat (max (int (length (tk_result s))) (int (length (tk_error s))) - max offset 0))"
    by auto
qed simp

declare read_report.simps [simp del]

lemma slice_chunk_append:
  assumes "slice_chunk body offset = (c, next)" and "0 \<le> offset"
  shows "c @ (case next of None \<Rightarrow> [] | Some n \<Rightarrow> drop (nat n) body) = drop (nat offset) body
    \<and> int (length c) \<le> subagent_task_result_chunk_chars"
proof (cases "int (length body) \<le> offset")
  case True
  with assms show ?thesis by (auto simp: slice_chunk_def subagent_task_result_chunk_chars_def)
next
  case False
  define stop where "stop = min (offset + subagent_task_result_chunk_chars) (int (length body))"
  have c: "c = drop (nat offset) (take (nat stop) body)" and n: "next = (if stop < int (length body) then Some stop else None)"
    using assms False by (auto simp: slice_chunk_def py_slice_def stop_def Let_def)
  have le: "nat offset \<le> nat stop" and len: "nat stop \<le> length body"
    using False assms(2) by (auto simp: stop_def subagent_task_result_chunk_chars_def)
  have "drop (nat offset) (take (nat stop) body) @ drop (nat stop) body = drop (nat offset) body"
    using le len by (metis append_take_drop_id drop_append length_take min.absorb2 diff_is_0_eq drop_0)
  moreover have "drop (nat stop) body = []" if "\<not> stop < int (length body)" using that by (simp add: stop_def)
  moreover have "int (length c) \<le> subagent_task_result_chunk_chars"
    using le len assms(2) by (auto simp: c stop_def subagent_task_result_chunk_chars_def min_def)
  ultimately show ?thesis by (auto simp: c n)
qed

lemma slice_empty [simp]: "slice_chunk [] offset = ([], None)"
  by (simp add: slice_chunk_def)

lemma read_report_parts:
  assumes "tk_result s = [] \<or> tk_error s = []" and "0 \<le> offset"
  shows "concat (map ti_result (read_report s offset)) = drop (nat offset) (tk_result s)
    \<and> concat (map ti_error (read_report s offset)) = drop (nat offset) (tk_error s)
    \<and> (\<forall>i\<in>set (read_report s offset). int (length (ti_result i @ ti_error i)) \<le> subagent_task_result_chunk_chars)"
  using assms
proof (induction s offset rule: read_report.induct)
  case (1 s offset)
  obtain r rn where r: "slice_chunk (tk_result s) offset = (r, rn)" by fastforce
  obtain e en where e: "slice_chunk (tk_error s) offset = (e, en)" by fastforce
  let ?i = "task_tool_item s offset True"
  let ?next = "if rn \<noteq> None then rn else en"
  have i: "ti_result ?i = r" "ti_error ?i = e" "ti_next_offset ?i = ?next"
    using r e by (simp_all add: task_tool_item_def)
  have unf: "read_report s offset = ?i # (case ?next of None \<Rightarrow> [] | Some n \<Rightarrow> read_report s n)"
    by (subst read_report.simps) (simp add: i Let_def)
  have one: "r = [] \<and> rn = None \<or> e = [] \<and> en = None" using 1(2) r e by auto
  note ra = slice_chunk_append[OF r 1(3)] and ea = slice_chunk_append[OF e 1(3)]
  show ?case
  proof (cases "?next")
    case None
    then have "rn = None" "en = None" by (auto split: if_splits)
    with ra ea one show ?thesis by (auto simp: unf i)
  next
    case (Some n)
    have n: "0 \<le> n" using Some slice_chunk_next[of "tk_result s" offset r n] slice_chunk_next[of "tk_error s" offset e n] r e
      by (auto split: if_splits)
    have ih: "concat (map ti_result (read_report s n)) = drop (nat n) (tk_result s)
      \<and> concat (map ti_error (read_report s n)) = drop (nat n) (tk_error s)
      \<and> (\<forall>i\<in>set (read_report s n). int (length (ti_result i @ ti_error i)) \<le> subagent_task_result_chunk_chars)"
      by (rule 1(1)[OF refl _ 1(2) n]) (simp only: i Some)
    show ?thesis
    proof (cases "tk_error s = []")
      case True
      with e have "e = []" "en = None" by simp_all
      with Some have "rn = Some n" by (auto split: if_splits)
      with ra have "r @ drop (nat n) (tk_result s) = drop (nat offset) (tk_result s)"
        and "int (length r) \<le> subagent_task_result_chunk_chars" by simp_all
      with ih True \<open>e = []\<close> Some show ?thesis by (auto simp: unf i)
    next
      case False
      with 1(2) r have "r = []" "rn = None" by simp_all
      with Some have "en = Some n" by (auto split: if_splits)
      with ea have "e @ drop (nat n) (tk_error s) = drop (nat offset) (tk_error s)"
        and "int (length e) \<le> subagent_task_result_chunk_chars" by simp_all
      with ih False 1(2) \<open>r = []\<close> Some show ?thesis by (auto simp: unf i)
    qed
  qed
qed

text \<open>Of the result and the error of a task at most one is there.\<close>

definition report_ok :: "subordinate_task \<Rightarrow> bool" where
  "report_ok t \<longleftrightarrow> (tk_result t = [] \<or> tk_error t = []) \<and> (tk_status t = T_RUNNING \<longrightarrow> tk_result t = [] \<and> tk_error t = [])"

lemma rows_all_updated: "\<forall>t\<in>set rows. P t \<Longrightarrow> (\<And>t. P t \<Longrightarrow> p t \<Longrightarrow> P (f t)) \<Longrightarrow> \<forall>t\<in>set (update_rows p f rows). P t"
  by (auto simp: update_rows_def)

lemma report_ok_finish:
  assumes "\<forall>t\<in>set (sd_tasks db). report_ok t" and "result = [] \<or> error = []" and "status \<noteq> T_RUNNING"
  shows "\<forall>t\<in>set (sd_tasks (snd (finish_subagent_task k status result error now db))). report_ok t"
proof -
  have "report_ok (finished_task status result error now t)" for t
    using assms(2,3) by (auto simp: report_ok_def finished_task_def)
  then have "\<forall>t\<in>set (update_rows p (finished_task status result error now) (sd_tasks db)). report_ok t" for p
    by (intro rows_all_updated assms(1))
  with assms(1) show ?thesis by (simp add: finish_subagent_task_def Let_def split: option.splits)
qed

lemma report_ok_exec:
  assumes "\<forall>t\<in>set (sd_tasks db). report_ok t"
  shows "\<forall>t\<in>set (sd_tasks (subordinate_exec x db)). report_ok t"
proof (cases x)
  case (SCreate args k ts as sc now)
  with assms show ?thesis by (auto simp: create_subagent_task_def report_ok_def Let_def split: option.splits if_splits)
next
  case (SProgress k p now)
  have "\<forall>t\<in>set (update_rows q (\<lambda>r. r\<lparr>tk_progress := p, tk_updated_at := now\<rparr>) (sd_tasks db)). report_ok t" for q
    by (rule rows_all_updated[OF assms]) (simp add: report_ok_def)
  with SProgress assms show ?thesis by (simp add: update_subagent_progress_def Let_def split: option.splits)
next
  case (SCancelRunning s i e now)
  have "\<forall>t\<in>set (update_rows (running_matches s i) (canceled_task e now) (sd_tasks db)). report_ok t"
    by (rule rows_all_updated[OF assms]) (auto simp: report_ok_def canceled_task_def running_matches_def)
  with SCancelRunning show ?thesis by (simp add: cancel_running_rows_def Let_def)
next
  case (SMarkStale now)
  have "\<forall>t\<in>set (update_rows (\<lambda>t. tk_status t = T_RUNNING) (stale_task now) (sd_tasks db)). report_ok t"
    by (rule rows_all_updated[OF assms]) (auto simp: report_ok_def stale_task_def)
  with SMarkStale show ?thesis by (simp add: mark_stale_running_failed_def Let_def)
next
  case (SComplete k r now)
  show ?thesis unfolding SComplete subordinate_exec.simps complete_subagent_task_def
    by (rule report_ok_finish[OF assms]) simp_all
next
  case (SFail k e now)
  show ?thesis unfolding SFail subordinate_exec.simps fail_subagent_task_def
    by (rule report_ok_finish[OF assms]) simp_all
next
  case (SCancel k e now)
  show ?thesis unfolding SCancel subordinate_exec.simps cancel_subagent_task_record_def
    by (rule report_ok_finish[OF assms]) simp_all
qed (use assms in simp)

lemma report_ok_run: "\<forall>t\<in>set (sd_tasks db). report_ok t \<Longrightarrow> \<forall>t\<in>set (sd_tasks (subordinate_run ops db)). report_ok t"
  unfolding subordinate_run_def
proof (induction ops arbitrary: db)
  case (Cons x ops)
  from Cons.IH[OF report_ok_exec[OF Cons.prems]] show ?case by simp
qed simp

lemma read_report_snapshot: "read_report (snapshot_from_task t) offset = read_report t offset"
proof (induction t offset rule: read_report.induct)
  case (1 t offset)
  have i: "task_tool_item (snapshot_from_task t) offset True = task_tool_item t offset True"
    by (simp add: task_tool_item_def snapshot_from_task_def)
  show ?case
    by (subst (1 2) read_report.simps, simp only: i Let_def) (simp add: 1 split: option.split)
qed

text \<open>C40. A report is read whole.  Whatever the history of the task table, an agent that may see a task and
  repeats its read with the offset of the answer until there is none collects exactly the result and the error
  of the task, in answers of at most 3000 characters, and the reading ends.\<close>

theorem report_read_whole:
  assumes "get_subagent_task run_id session user is_admin (subordinate_run ops \<lparr>sd_tasks = [], sd_ledger = []\<rparr>) = Some s"
  shows "concat (map ti_result (read_report s 0)) = tk_result s
    \<and> concat (map ti_error (read_report s 0)) = tk_error s
    \<and> (\<forall>i\<in>set (read_report s 0). length (ti_result i @ ti_error i) \<le> 3000)"
proof -
  let ?db = "subordinate_run ops \<lparr>sd_tasks = [], sd_ledger = []\<rparr>"
  obtain t where t: "t \<in> set (sd_tasks ?db)" and s: "s = snapshot_from_task t"
    using assms by (auto simp: get_subagent_task_def find_task_def split: option.splits if_splits dest: find_SomeD)
  have "report_ok t" using report_ok_run[of "\<lparr>sd_tasks = [], sd_ledger = []\<rparr>" ops] t by simp
  then have "tk_result s = [] \<or> tk_error s = []" by (auto simp: report_ok_def s snapshot_from_task_def)
  from read_report_parts[OF this, of 0] show ?thesis by (auto simp: subagent_task_result_chunk_chars_def)
qed

definition plain_task :: "string \<Rightarrow> subordinate_task" where
  "plain_task run_id =
     \<lparr>tk_run_id = run_id, tk_session_id = ''s'', tk_parent_agent_code = ''cso'', tk_parent_instance = ''main:s:1:cso'',
      tk_agent_code = ''cre'', tk_agent_name = ''CRE'', tk_status = T_RUNNING, tk_brief = ''scan'', tk_result = [],
      tk_error = [], tk_progress = [], tk_nested_call_id = [], tk_owner_id = 1, tk_created_at = 0, tk_updated_at = 0,
      tk_started_at = None, tk_finished_at = None\<rparr>"

theorem report_read_whole_witness:
  "\<exists>s. get_subagent_task ''r'' ''s'' 1 False (subordinate_run
       [SCreate (plain_task ''r'') ''n'' [] [] [] 1, SComplete ''r'' ''ok'' 2] \<lparr>sd_tasks = [], sd_ledger = []\<rparr>) = Some s
     \<and> concat (map ti_result (read_report s 0)) = ''ok''"
proof -
  let ?db = "subordinate_run [SCreate (plain_task ''r'') ''n'' [] [] [] 1, SComplete ''r'' ''ok'' 2] \<lparr>sd_tasks = [], sd_ledger = []\<rparr>"
  obtain s where s: "get_subagent_task ''r'' ''s'' 1 False ?db = Some s" and ok: "tk_result s = ''ok''"
    by (simp add: subordinate_run_def plain_task_def create_subagent_task_def ledger_register_def add_obligation_def
        insert_notification_def complete_subagent_task_def finish_subagent_task_def find_task_def terminal_task_statuses_def
        get_subagent_task_def can_access_task_def snapshot_from_task_def finished_task_def update_rows_def Let_def)
  from report_read_whole[OF s] s ok show ?thesis by auto
qed

end
