(* ===== verification/Delegation.thy ===== *)
theory Delegation
  imports Delegation_Tools Async_Jobs
begin

text \<open>
  The drivers of sub-agents and of background commands, \<^verbatim>\<open>src/core/delegation/subagents.py\<close> and
  \<^verbatim>\<open>src/core/sandbox/command_jobs.py\<close>, as a machine of processes.  A process is an asyncio task; what it has
  still to do is a list of actions, each of which runs from one suspension to the next: one transaction,
  one passage through a lock, one cancellation.  Processes interleave freely between their actions.

  Canceling a process that has not started drops it, as asyncio does; canceling one inside its \<^verbatim>\<open>try\<close> block
  replaces what is left by the actions of its \<^verbatim>\<open>except CancelledError\<close>; canceling one anywhere else drops the rest
  of it, which the flag \<open>dw_cut\<close> records.  The insertion of a task and the registration of its driver
  are one action, and the turns of an agent are an action whose effects on the tables are steps of their
  own.  Failing transactions and the closing of HTTP clients are not part of the machine.
\<close>

section \<open>Processes and drivers\<close>

record driver =
  dv_snapshot :: subordinate_task
  dv_context :: runtime_context
  dv_task :: "nat option"
  dv_lock :: "nat option"
  dv_relaunch_attempts :: nat
  dv_open :: bool

definition dv_run :: "driver \<Rightarrow> string" where
  "dv_run d = tk_run_id (dv_snapshot d)"

definition dv_session :: "driver \<Rightarrow> string" where
  "dv_session d = tk_session_id (dv_snapshot d)"

definition dv_instance :: "driver \<Rightarrow> string" where
  "dv_instance d = rx_instance (dv_context d)"

definition dv_parent :: "driver \<Rightarrow> string" where
  "dv_parent d = tk_parent_instance (dv_snapshot d)"

record job_entry =
  je_task :: nat
  je_session :: string
  je_instance :: string
  je_container :: int

text \<open>The actions.  \<open>A_Unwind\<close> is the release of the claimed notification when a turn is canceled, \<open>A_Kick\<close> and
  \<open>A_Kick_Lock\<close> are \<^verbatim>\<open>resume_target_instance\<close>, \<open>A_Stop\<close> is the loop of \<^verbatim>\<open>_cancel_drivers\<close>.\<close>

datatype act =
    A_Drain string
  | A_Unwind string
  | A_Settle string
  | A_Pending string
  | A_Outstanding string
  | A_Output string
  | A_Finish string task_status string string
  | A_Publish subordinate_task
  | A_Report string string
  | A_Kick string string
  | A_Kick_Lock string
  | A_Cleanup string
  | A_Cancel_Jobs "string option" "string option" "int option"
  | A_Cancel_Job nat
  | A_Cancel_Job_Rows "string option" "string option" "int option"
  | A_Cancel_Notices string "string option" string
  | A_Cancel_Drivers string "string option"
  | A_Cancel_Task subordinate_task
  | A_Stop "string list" "nat list" "string list"
  | A_Await "nat list"
  | A_Cancel_Rows string "string option" string
  | A_Job_Run string
  | A_Job_Finish string job_status "int option" int int string

datatype proc_kind = P_Drive string | P_Fail string | P_Job string | P_Caller

record process =
  pr_kind :: proc_kind
  pr_started :: bool
  pr_guarded :: bool
  pr_todo :: "act list"

record delegation_world =
  dw_tasks :: "subordinate_task list"
  dw_jobs :: "async_job list"
  dw_notices :: "notification list"
  dw_drivers :: "(string \<times> driver) list"
  dw_registry :: "(string \<times> job_entry) list"
  dw_procs :: "nat \<Rightarrow> process"
  dw_next :: nat
  dw_published :: "subordinate_task list"
  dw_reported :: "(string \<times> string) list"
  dw_resumed :: "string list"
  dw_cut :: bool
  dw_canceled_text :: string

definition idle_process :: process where
  "idle_process = \<lparr>pr_kind = P_Caller, pr_started = False, pr_guarded = False, pr_todo = []\<rparr>"

text \<open>\<open>canceled\<close> is the text of the source for a canceled command, which is not a byte string.\<close>

definition boot_world :: "string \<Rightarrow> subordinate_task list \<Rightarrow> async_job list \<Rightarrow> notification list \<Rightarrow> delegation_world" where
  "boot_world canceled tasks jobs rows =
     \<lparr>dw_tasks = tasks, dw_jobs = jobs, dw_notices = rows, dw_drivers = [], dw_registry = [],
      dw_procs = (\<lambda>_. idle_process), dw_next = 0, dw_published = [], dw_reported = [], dw_resumed = [], dw_cut = False,
      dw_canceled_text = canceled\<rparr>"

definition proc_done :: "delegation_world \<Rightarrow> nat \<Rightarrow> bool" where
  "proc_done w p \<longleftrightarrow> pr_todo (dw_procs w p) = []"

definition task_running :: "delegation_world \<Rightarrow> nat option \<Rightarrow> bool" where
  "task_running w t \<longleftrightarrow> (case t of None \<Rightarrow> False | Some p \<Rightarrow> \<not> proc_done w p)"

definition find_driver :: "string \<Rightarrow> delegation_world \<Rightarrow> driver option" where
  "find_driver r w = map_of (dw_drivers w) r"

definition set_driver :: "string \<Rightarrow> driver \<Rightarrow> delegation_world \<Rightarrow> delegation_world" where
  "set_driver r d w = w\<lparr>dw_drivers := AList.update r d (dw_drivers w)\<rparr>"

definition spawn :: "proc_kind \<Rightarrow> bool \<Rightarrow> act list \<Rightarrow> delegation_world \<Rightarrow> nat \<times> delegation_world" where
  "spawn k guarded todo w =
     (dw_next w, w\<lparr>dw_procs := (dw_procs w)(dw_next w := \<lparr>pr_kind = k, pr_started = False, pr_guarded = guarded, pr_todo = todo\<rparr>),
                   dw_next := Suc (dw_next w)\<rparr>)"

section \<open>Scripts\<close>

definition max_subagent_relaunch :: nat where
  "max_subagent_relaunch = 5"

definition relaunch_failure_message :: string where
  "relaunch_failure_message = ''subagent driver could not make progress''"

definition drive_script :: "string \<Rightarrow> act list" where
  "drive_script r = [A_Drain r, A_Settle r]"

definition spawn_drive :: "string \<Rightarrow> delegation_world \<Rightarrow> nat \<times> delegation_world" where
  "spawn_drive r w = spawn (P_Drive r) True (drive_script r) w"

definition teardown_subtree :: "driver \<Rightarrow> string \<Rightarrow> act list" where
  "teardown_subtree d message =
     [A_Cancel_Jobs (Some (dv_session d)) (Some (dv_instance d)) None,
      A_Cancel_Notices (dv_session d) (Some (dv_instance d)) message,
      A_Cancel_Drivers (dv_session d) (Some (dv_instance d)),
      A_Cancel_Rows (dv_session d) (Some (dv_instance d)) message]"

definition fail_subagent :: "driver \<Rightarrow> string \<Rightarrow> act list" where
  "fail_subagent d message =
     [A_Report (dv_run d) (''Subagent failed: '' @ message)] @ teardown_subtree d message
     @ [A_Finish (dv_run d) T_FAILED [] message]"

definition cancel_subagent :: "driver \<Rightarrow> act list" where
  "cancel_subagent d = teardown_subtree d subagent_cancel_message @ [A_Finish (dv_run d) T_CANCELED [] subagent_cancel_message]"

definition cancel_subagent_of :: "delegation_world \<Rightarrow> string \<Rightarrow> act list" where
  "cancel_subagent_of w r = (case find_driver r w of None \<Rightarrow> [] | Some d \<Rightarrow> cancel_subagent d)"

text \<open>What follows the final transaction of a driver.\<close>

definition finish_followup :: "driver \<Rightarrow> task_status \<Rightarrow> subordinate_task option \<Rightarrow> act list" where
  "finish_followup d st latest =
     (case latest of None \<Rightarrow> [] | Some s \<Rightarrow> [A_Publish s])
     @ (if latest \<noteq> None \<or> st = T_CANCELED then [A_Kick (dv_session d) (dv_parent d)] else [])
     @ [A_Cleanup (dv_run d)]"

section \<open>Cancellation\<close>

definition release_locks :: "nat \<Rightarrow> (string \<times> driver) list \<Rightarrow> (string \<times> driver) list" where
  "release_locks p ds = map (\<lambda>(r, d). (r, if dv_lock d = Some p then d\<lparr>dv_lock := None\<rparr> else d)) ds"

definition in_turn :: "act list \<Rightarrow> bool" where
  "in_turn todo = (case todo of A_Drain _ # _ \<Rightarrow> True | _ \<Rightarrow> False)"

text \<open>What a guarded process does when it is canceled.\<close>

definition cancel_handler :: "delegation_world \<Rightarrow> process \<Rightarrow> act list option" where
  "cancel_handler w q =
    (if \<not> pr_guarded q then None
     else case pr_kind q of
         P_Drive r \<Rightarrow> Some ((if in_turn (pr_todo q) then [A_Unwind r] else []) @ cancel_subagent_of w r)
       | P_Job run \<Rightarrow> Some [A_Job_Finish run J_CANCELED None 0 0 (dw_canceled_text w)]
       | _ \<Rightarrow> None)"

definition cancel_process :: "nat \<Rightarrow> delegation_world \<Rightarrow> delegation_world" where
  "cancel_process p w =
    (let q = dw_procs w p in
     if pr_todo q = [] then w
     else let w = w\<lparr>dw_drivers := release_locks p (dw_drivers w)\<rparr> in
     if \<not> pr_started q then w\<lparr>dw_procs := (dw_procs w)(p := q\<lparr>pr_todo := []\<rparr>)\<rparr>
     else (case cancel_handler w q of
         Some todo \<Rightarrow> w\<lparr>dw_procs := (dw_procs w)(p := q\<lparr>pr_guarded := False, pr_todo := todo\<rparr>)\<rparr>
       | None \<Rightarrow> w\<lparr>dw_procs := (dw_procs w)(p := q\<lparr>pr_todo := []\<rparr>), dw_cut := True\<rparr>))"

section \<open>Actions\<close>

definition on_subordinates :: "(subordinate_db \<Rightarrow> 'a \<times> subordinate_db) \<Rightarrow> delegation_world \<Rightarrow> 'a \<times> delegation_world" where
  "on_subordinates f w =
    (let (x, db) = f \<lparr>sd_tasks = dw_tasks w, sd_ledger = dw_notices w\<rparr>
     in (x, w\<lparr>dw_tasks := sd_tasks db, dw_notices := sd_ledger db\<rparr>))"

definition on_job_rows :: "(job_db \<Rightarrow> 'a \<times> job_db) \<Rightarrow> delegation_world \<Rightarrow> 'a \<times> delegation_world" where
  "on_job_rows f w =
    (let (x, db) = f \<lparr>jd_jobs = dw_jobs w, jd_ledger = dw_notices w\<rparr>
     in (x, w\<lparr>dw_jobs := jd_jobs db, dw_notices := jd_ledger db\<rparr>))"

definition matches :: "'a option \<Rightarrow> 'a \<Rightarrow> bool" where
  "matches flt x \<longleftrightarrow> (case flt of None \<Rightarrow> True | Some y \<Rightarrow> x = y)"

text \<open>Settling: relaunch on a claim race, sleep while background work is outstanding, else complete.\<close>

definition settle_pending :: "string \<Rightarrow> driver \<Rightarrow> delegation_world \<Rightarrow> act list \<times> delegation_world" where
  "settle_pending r d w =
    (if has_pending_notification (dv_session d) None (Some (dv_instance d)) (dw_notices w)
     then let n = Suc (dv_relaunch_attempts d);
              (p, w') = (if max_subagent_relaunch < n
                         then spawn (P_Fail r) False (fail_subagent d relaunch_failure_message) w
                         else spawn_drive r w)
          in ([], set_driver r (d\<lparr>dv_relaunch_attempts := n, dv_task := Some p, dv_lock := None\<rparr>) w')
     else ([A_Outstanding r], w))"

definition settle_outstanding :: "string \<Rightarrow> driver \<Rightarrow> delegation_world \<Rightarrow> act list \<times> delegation_world" where
  "settle_outstanding r d w =
    (if has_outstanding_target_notifications (dv_session d) (Some (dv_instance d)) (dw_notices w)
     then ([], set_driver r (d\<lparr>dv_relaunch_attempts := 0, dv_task := None, dv_lock := None\<rparr>) w)
     else ([A_Output r], set_driver r (d\<lparr>dv_lock := None\<rparr>) w))"

definition run_id_of_instance :: "string \<Rightarrow> string" where
  "run_id_of_instance i = (if take 9 i = subagent_instance_prefix then drop 9 i else i)"

definition resume_target_instance :: "string \<Rightarrow> string \<Rightarrow> delegation_world \<Rightarrow> act list \<times> delegation_world" where
  "resume_target_instance s i w =
    (if i = [] then ([], w)
     else if is_main_agent_instance i then ([], w\<lparr>dw_resumed := dw_resumed w @ [s]\<rparr>)
     else case find_driver (run_id_of_instance i) w of
         Some d \<Rightarrow> if dv_open d then ([A_Kick_Lock (run_id_of_instance i)], w) else ([], w)
       | None \<Rightarrow> ([], w))"

definition resume_subagent_instance :: "string \<Rightarrow> driver \<Rightarrow> delegation_world \<Rightarrow> act list \<times> delegation_world" where
  "resume_subagent_instance r d w =
    (if task_running w (dv_task d) then ([], w)
     else let (p, w') = spawn_drive r w in ([], set_driver r (d\<lparr>dv_task := Some p\<rparr>) w'))"

definition cancel_matching_jobs :: "string option \<Rightarrow> string option \<Rightarrow> int option \<Rightarrow> delegation_world \<Rightarrow> act list \<times> delegation_world" where
  "cancel_matching_jobs s i c w =
    (let p = (\<lambda>(_, j). matches s (je_session j) \<and> matches i (je_instance j) \<and> matches c (je_container j));
         tasks = map (je_task \<circ> snd) (filter p (dw_registry w))
     in ((if tasks = [] then [] else map A_Cancel_Job tasks @ [A_Await tasks]) @ [A_Cancel_Job_Rows s i c],
         w\<lparr>dw_registry := filter (\<lambda>x. \<not> p x) (dw_registry w)\<rparr>))"

definition matching_drivers :: "string \<Rightarrow> string option \<Rightarrow> delegation_world \<Rightarrow> string list" where
  "matching_drivers s i w =
     map fst (filter (\<lambda>(_, d). dv_open d \<and> dv_session d = s \<and> matches i (dv_parent d)) (dw_drivers w))"

definition stop_driver :: "string \<Rightarrow> string list \<Rightarrow> nat list \<Rightarrow> string list \<Rightarrow> driver \<Rightarrow> delegation_world \<Rightarrow> act list \<times> delegation_world" where
  "stop_driver r rs live dormant d w =
    (case dv_task d of
       Some p \<Rightarrow> if proc_done w p then ([A_Stop rs live (dormant @ [r])], w)
                 else ([A_Stop rs (live @ [p]) dormant], cancel_process p w)
     | None \<Rightarrow> ([A_Stop rs live (dormant @ [r])], w))"

text \<open>The actions that need the lock of a driver wait while another process holds it.\<close>

definition with_lock :: "string \<Rightarrow> delegation_world \<Rightarrow> (driver \<Rightarrow> act list \<times> delegation_world) \<Rightarrow> (act list \<times> delegation_world) option" where
  "with_lock r w f =
    (case find_driver r w of
       None \<Rightarrow> None
     | Some d \<Rightarrow> if dv_lock d = None then Some (f d) else None)"

definition with_driver :: "string \<Rightarrow> delegation_world \<Rightarrow> (driver \<Rightarrow> act list \<times> delegation_world) \<Rightarrow> (act list \<times> delegation_world) option" where
  "with_driver r w f = map_option f (find_driver r w)"

text \<open>What an action puts before the rest of its process, and the world after it; \<^const>\<open>None\<close> while it waits.
  \<open>x\<close> is what the action reads from outside: the text of the stored messages, the claimed notification.\<close>

fun exec_act :: "datetime \<Rightarrow> string \<Rightarrow> nat \<Rightarrow> act \<Rightarrow> delegation_world \<Rightarrow> (act list \<times> delegation_world) option" where
  "exec_act now x p (A_Drain r) w = None"
| "exec_act now x p (A_Unwind r) w =
     with_driver r w (\<lambda>d. ([],
       if \<exists>n\<in>set (dw_notices w). nt_id n = x \<and> nt_target_instance n = dv_instance d
       then w\<lparr>dw_notices := snd (release_notification x now (dw_notices w))\<rparr> else w))"
| "exec_act now x p (A_Settle r) w =
     with_lock r w (\<lambda>d. ([A_Pending r], set_driver r (d\<lparr>dv_lock := Some p\<rparr>) w))"
| "exec_act now x p (A_Pending r) w = with_driver r w (\<lambda>d. settle_pending r d w)"
| "exec_act now x p (A_Outstanding r) w = with_driver r w (\<lambda>d. settle_outstanding r d w)"
| "exec_act now x p (A_Output r) w = Some ([A_Finish r T_COMPLETED x []], w)"
| "exec_act now x p (A_Finish r st result error) w =
     with_driver r w (\<lambda>d.
       let (latest, w') = on_subordinates (finish_subagent_task r st result error now) w
       in (finish_followup d st latest, w'))"
| "exec_act now x p (A_Publish s) w = Some ([], w\<lparr>dw_published := dw_published w @ [s]\<rparr>)"
| "exec_act now x p (A_Report r message) w = Some ([], w\<lparr>dw_reported := dw_reported w @ [(r, message)]\<rparr>)"
| "exec_act now x p (A_Kick s i) w = Some (resume_target_instance s i w)"
| "exec_act now x p (A_Kick_Lock r) w = with_lock r w (\<lambda>d. resume_subagent_instance r d w)"
| "exec_act now x p (A_Cleanup r) w = with_driver r w (\<lambda>d. ([], set_driver r (d\<lparr>dv_open := False\<rparr>) w))"
| "exec_act now x p (A_Cancel_Jobs s i c) w = Some (cancel_matching_jobs s i c w)"
| "exec_act now x p (A_Cancel_Job q) w = Some ([], cancel_process q w)"
| "exec_act now x p (A_Cancel_Job_Rows s i c) w =
     Some ([], snd (on_job_rows (cancel_running_jobs s i c (dw_canceled_text w) now) w))"
| "exec_act now x p (A_Cancel_Notices s i message) w =
     Some ([], w\<lparr>dw_notices := snd (cancel_session_notifications s i message now (dw_notices w))\<rparr>)"
| "exec_act now x p (A_Cancel_Drivers s i) w =
     Some ((case matching_drivers s i w of [] \<Rightarrow> [] | rs \<Rightarrow> [A_Stop rs [] []]), w)"
| "exec_act now x p (A_Cancel_Task s) w =
     Some (if (case find_driver (tk_run_id s) w of None \<Rightarrow> False | Some d \<Rightarrow> dv_open d) then ([A_Stop [tk_run_id s] [] []], w)
           else let (latest, w') = on_subordinates (cancel_subagent_task_record (tk_run_id s) subagent_cancel_message now) w
                in ([A_Publish (case latest of None \<Rightarrow> s | Some l \<Rightarrow> l)], w'))"
| "exec_act now x p (A_Stop [] live dormant) w =
     Some ((if live = [] then [] else [A_Await live]) @ concat (map (cancel_subagent_of w) dormant), w)"
| "exec_act now x p (A_Stop (r # rs) live dormant) w = with_lock r w (\<lambda>d. stop_driver r rs live dormant d w)"
| "exec_act now x p (A_Await ps) w = (if \<forall>q\<in>set ps. proc_done w q then Some ([], w) else None)"
| "exec_act now x p (A_Cancel_Rows s i message) w =
     (let (snapshots, w') = on_subordinates (cancel_running_rows (Some s) i message now) w
      in Some (map A_Publish snapshots, w'))"
| "exec_act now x p (A_Job_Run r) w = None"
| "exec_act now x p (A_Job_Finish r st code bytes nlines error) w =
     (let (latest, w') = on_job_rows (finish_async_job r st code bytes nlines error now) w
      in Some (case latest of None \<Rightarrow> [] | Some j \<Rightarrow> [A_Kick (aj_session_id j) (aj_instance j)], w'))"

section \<open>The machine\<close>

text \<open>The start of a sub-agent by the agent of the context \<open>cx\<close>.\<close>

definition start_row :: "runtime_context \<Rightarrow> string \<Rightarrow> string \<Rightarrow> string \<Rightarrow> string \<Rightarrow> string \<Rightarrow> string \<Rightarrow> subordinate_task" where
  "start_row cx parent_code code name brief nested_call_id run_id =
     \<lparr>tk_run_id = run_id, tk_session_id = rx_session cx, tk_parent_agent_code = parent_code,
      tk_parent_instance = rx_instance cx, tk_agent_code = code, tk_agent_name = name, tk_status = T_RUNNING,
      tk_brief = brief, tk_result = [], tk_error = [], tk_progress = [], tk_nested_call_id = nested_call_id,
      tk_owner_id = rx_user cx, tk_created_at = 0, tk_updated_at = 0, tk_started_at = None, tk_finished_at = None\<rparr>"

definition start_subagent_task_run ::
  "runtime_context \<Rightarrow> subordinate_task \<Rightarrow> string \<Rightarrow> datetime \<Rightarrow> delegation_world \<Rightarrow> delegation_world option" where
  "start_subagent_task_run cx args fresh_id now w =
    (case create_subagent_task args fresh_id (rx_targets cx) (rx_actions cx) (rx_scope cx) now
            \<lparr>sd_tasks = dw_tasks w, sd_ledger = dw_notices w\<rparr> of
       None \<Rightarrow> None
     | Some (s, db) \<Rightarrow>
         let (p, w') = spawn_drive (tk_run_id s) (w\<lparr>dw_tasks := sd_tasks db, dw_notices := sd_ledger db\<rparr>);
             d = \<lparr>dv_snapshot = s, dv_context = subagent_context cx s (tk_agent_code s), dv_task = Some p, dv_lock = None,
                  dv_relaunch_attempts = 0, dv_open = True\<rparr>
         in Some ((set_driver (tk_run_id s) d w')\<lparr>dw_published := dw_published w' @ [s]\<rparr>))"

definition start_async_sandbox_command ::
  "async_job \<Rightarrow> int \<Rightarrow> string list \<Rightarrow> string list \<Rightarrow> string \<Rightarrow> string \<Rightarrow> datetime \<Rightarrow> delegation_world \<Rightarrow> delegation_world option" where
  "start_async_sandbox_command args c targets actions scope_id fresh_id now w =
    (case create_async_job args fresh_id targets actions scope_id now \<lparr>jd_jobs = dw_jobs w, jd_ledger = dw_notices w\<rparr> of
       None \<Rightarrow> None
     | Some (j, db) \<Rightarrow>
         let (p, w') = spawn (P_Job (aj_run_id j)) True [A_Job_Run (aj_run_id j)]
                         (w\<lparr>dw_jobs := jd_jobs db, dw_notices := jd_ledger db\<rparr>);
             e = \<lparr>je_task = p, je_session = aj_session_id j, je_instance = aj_instance j, je_container = c\<rparr>
         in Some (w'\<lparr>dw_registry := AList.update (aj_run_id j) e (dw_registry w')\<rparr>))"

definition set_todo :: "nat \<Rightarrow> act list \<Rightarrow> delegation_world \<Rightarrow> delegation_world" where
  "set_todo p todo w = w\<lparr>dw_procs := (dw_procs w)(p := (dw_procs w p)\<lparr>pr_todo := todo\<rparr>)\<rparr>"

text \<open>What a turn of an agent does to the table of notifications: it claims, completes, fails or releases
  notifications of its own instance.\<close>

fun own_op :: "string \<Rightarrow> string \<Rightarrow> notification list \<Rightarrow> notification_op \<Rightarrow> bool" where
  "own_op s i rows (NClaim t c j now) \<longleftrightarrow> t = s \<and> c = None \<and> j = Some i"
| "own_op s i rows (NComplete k now) \<longleftrightarrow> (\<forall>n\<in>set rows. nt_id n = k \<longrightarrow> nt_target_instance n = i)"
| "own_op s i rows (NFail k e now) \<longleftrightarrow> (\<forall>n\<in>set rows. nt_id n = k \<longrightarrow> nt_target_instance n = i)"
| "own_op s i rows (NRelease k now) \<longleftrightarrow> (\<forall>n\<in>set rows. nt_id n = k \<longrightarrow> nt_target_instance n = i)"
| "own_op s i rows _ \<longleftrightarrow> False"

text \<open>What the main agents and the clients do to it: user messages and releases go to main agents.\<close>

fun main_op :: "notification list \<Rightarrow> notification_op \<Rightarrow> bool" where
  "main_op rows (NAdd k kind tg run p now) \<longleftrightarrow> False"
| "main_op rows (NResolve kind run b p e now) \<longleftrightarrow> False"
| "main_op rows (NEnqueue k run tg c d a now) \<longleftrightarrow> is_main_agent_instance (tg_instance tg)"
| "main_op rows (NRelease k now) \<longleftrightarrow> (\<forall>n\<in>set rows. nt_id n = k \<longrightarrow> is_main_agent_instance (nt_target_instance n))"
| "main_op rows (NReset now) \<longleftrightarrow> False"
| "main_op rows _ \<longleftrightarrow> True"

definition in_drain :: "nat \<Rightarrow> string \<Rightarrow> delegation_world \<Rightarrow> bool" where
  "in_drain p r w \<longleftrightarrow> pr_started (dw_procs w p) \<and> pr_guarded (dw_procs w p) \<and> pr_kind (dw_procs w p) = P_Drive r
     \<and> (\<exists>rest. pr_todo (dw_procs w p) = A_Drain r # rest)"

text \<open>An agent that may start background work: a main agent, or the one whose drive is in a turn.\<close>

definition may_start :: "runtime_context \<Rightarrow> delegation_world \<Rightarrow> bool" where
  "may_start cx w \<longleftrightarrow> is_main_agent_instance (rx_instance cx)
     \<or> (\<exists>p r d. in_drain p r w \<and> find_driver r w = Some d \<and> rx_session cx = dv_session d \<and> rx_instance cx = dv_instance d)"

inductive delegation_step :: "delegation_world \<Rightarrow> delegation_world \<Rightarrow> bool" where
  begin_process: "\<not> proc_done w p \<Longrightarrow>
    delegation_step w (w\<lparr>dw_procs := (dw_procs w)(p := (dw_procs w p)\<lparr>pr_started := True\<rparr>)\<rparr>)"
| act: "pr_started (dw_procs w p) \<Longrightarrow> pr_todo (dw_procs w p) = a # rest \<Longrightarrow> exec_act now x p a w = Some (todo, w') \<Longrightarrow>
    delegation_step w (set_todo p (todo @ rest) w')"
| drained: "in_drain p r w \<Longrightarrow> delegation_step w (set_todo p (tl (pr_todo (dw_procs w p))) w)"
| turn_fails: "in_drain p r w \<Longrightarrow> find_driver r w = Some d \<Longrightarrow>
    delegation_step w (w\<lparr>dw_procs := (dw_procs w)(p := (dw_procs w p)\<lparr>pr_guarded := False, pr_todo := fail_subagent d message\<rparr>)\<rparr>)"
| turn_notice: "in_drain p r w \<Longrightarrow> find_driver r w = Some d \<Longrightarrow> own_op (dv_session d) (dv_instance d) (dw_notices w) op \<Longrightarrow>
    delegation_step w (w\<lparr>dw_notices := notification_exec op (dw_notices w)\<rparr>)"
| main_notice: "main_op (dw_notices w) op \<Longrightarrow>
    delegation_step w (w\<lparr>dw_notices := notification_exec op (dw_notices w)\<rparr>)"
| start: "may_start cx w \<Longrightarrow>
    start_subagent_task_run cx (start_row cx parent_code code name brief nested run_id) fresh_id now w = Some w' \<Longrightarrow>
    delegation_step w w'"
| start_job: "may_start cx w \<Longrightarrow> aj_session_id args = rx_session cx \<Longrightarrow> aj_instance args = rx_instance cx \<Longrightarrow>
    start_async_sandbox_command args c (rx_targets cx) (rx_actions cx) (rx_scope cx) fresh_id now w = Some w' \<Longrightarrow>
    delegation_step w w'"
| job_ends: "pr_started (dw_procs w p) \<Longrightarrow> pr_kind (dw_procs w p) = P_Job run_id \<Longrightarrow>
    pr_todo (dw_procs w p) = [A_Job_Run run_id] \<Longrightarrow> st \<noteq> J_RUNNING \<Longrightarrow> st \<noteq> J_CANCELED \<Longrightarrow>
    delegation_step w (w\<lparr>dw_procs := (dw_procs w)(p := (dw_procs w p)\<lparr>pr_guarded := (st = J_COMPLETED),
      pr_todo := [A_Job_Finish run_id st code bytes nlines error]\<rparr>)\<rparr>)"
| job_forgotten: "map_of (dw_registry w) run_id = Some e \<Longrightarrow> proc_done w (je_task e) \<Longrightarrow>
    delegation_step w (w\<lparr>dw_registry := AList.delete run_id (dw_registry w)\<rparr>)"
| progress: "update_subagent_progress r txt now \<lparr>sd_tasks = dw_tasks w, sd_ledger = dw_notices w\<rparr> = (o', db) \<Longrightarrow>
    delegation_step w (w\<lparr>dw_tasks := sd_tasks db, dw_notices := sd_ledger db\<rparr>)"
| cancel_task: "delegation_step w (snd (spawn P_Caller False [A_Cancel_Task s] w))"
| cancel_session: "delegation_step w
    (snd (spawn P_Caller False [A_Cancel_Drivers s None, A_Cancel_Rows s None subagent_cancel_message] w))"
| cancel_commands: "delegation_step w (snd (spawn P_Caller False [A_Cancel_Jobs s i c] w))"

inductive delegation_reach :: "delegation_world \<Rightarrow> bool" where
  boot: "unique_ok rows \<Longrightarrow> distinct (map tk_run_id tasks) \<Longrightarrow> distinct (map aj_run_id jobs) \<Longrightarrow>
    (\<forall>t\<in>set tasks. tk_status t \<noteq> T_RUNNING) \<Longrightarrow> (\<forall>n\<in>set rows. nt_status n \<noteq> N_AWAITING) \<Longrightarrow>
    delegation_reach (boot_world canceled tasks jobs rows)"
| step: "delegation_reach w \<Longrightarrow> delegation_step w w' \<Longrightarrow> delegation_reach w'"

end
