(* ===== verification/Delegation_Invariants.thy ===== *)
theory Delegation_Invariants
  imports Delegation
begin

text \<open>
  The invariants of the drivers' machine and what every one of its operations leaves alone: pending
  notifications and obligations in the tables, the shape of every process, the lock and the task of
  every driver.
\<close>

section \<open>Pending notifications\<close>

definition pend :: "notification list \<Rightarrow> string \<Rightarrow> string \<Rightarrow> bool" where
  "pend rows s i \<longleftrightarrow> (\<exists>n\<in>set rows. nt_session_id n = s \<and> nt_status n = N_PENDING \<and> nt_target_instance n = i)"

definition awaiting_for :: "notification list \<Rightarrow> notification_kind \<Rightarrow> string \<Rightarrow> string \<Rightarrow> bool" where
  "awaiting_for rows kind run i \<longleftrightarrow>
     (\<exists>n\<in>set rows. nt_kind n = kind \<and> nt_run_id n = run \<and> nt_status n = N_AWAITING \<and> nt_target_instance n = i)"

lemma has_pending_iff: "has_pending_notification s None (Some i) rows \<longleftrightarrow> pend rows s i"
  by (auto simp: has_pending_notification_def pending_for_def target_matches_def pend_def)

lemma pend_update:
  assumes "pend (update_rows q f rows) s i" and "\<And>n. nt_status (f n) = N_PENDING \<Longrightarrow> False"
  shows "pend rows s i"
  using assms by (auto simp: pend_def update_rows_def split: if_splits)

lemma pend_cancel: "pend (snd (cancel_notifications a b c d e g now rows)) s i \<Longrightarrow> pend rows s i"
  by (auto simp: cancel_notifications_def cancel_row_def Let_def dest!: pend_update)

lemma pend_resolve:
  assumes "pend (resolve_obligation kind run ready payload e now rows) s i"
  shows "pend rows s i \<or> ready \<and> (unique_ok rows \<longrightarrow> awaiting_for rows kind run i)"
proof (cases "List.find (\<lambda>n. nt_kind n = kind \<and> nt_run_id n = run) rows")
  case None
  with assms show ?thesis by (simp add: resolve_obligation_def)
next
  case (Some n)
  from find_SomeD[OF Some] have n: "n \<in> set rows" "nt_kind n = kind" "nt_run_id n = run" by auto
  show ?thesis
  proof (cases "nt_status n = N_AWAITING")
    case True
    with Some assms obtain m where m: "m \<in> set (update_rows (\<lambda>r. nt_id r = nt_id n) (resolve_row ready payload e now) rows)"
      "nt_session_id m = s" "nt_status m = N_PENDING" "nt_target_instance m = i"
      by (auto simp: resolve_obligation_def pend_def)
    then obtain r where r: "r \<in> set rows" "m = (if nt_id r = nt_id n then resolve_row ready payload e now r else r)"
      by (auto simp: update_rows_def)
    show ?thesis
    proof (cases "nt_id r = nt_id n")
      case False
      with r m show ?thesis by (auto simp: pend_def)
    next
      case same: True
      with r m have "ready" by (auto simp: resolve_row_def split: if_splits)
      moreover have "nt_target_instance n = i" if "unique_ok rows"
        using unique_id[OF that r(1) n(1) same] r(2) m(4) same by (simp add: resolve_row_def)
      ultimately show ?thesis using n True by (auto simp: awaiting_for_def)
    qed
  next
    case False
    with Some assms show ?thesis by (simp add: resolve_obligation_def)
  qed
qed

lemma pend_ledger_resolve:
  "pend (ledger_resolve k (ready, payload, e, now) rows) s i \<Longrightarrow> pend rows s i \<or> ready \<and> (unique_ok rows \<longrightarrow> awaiting_for rows (fst k) (snd k) i)"
  by (auto simp: ledger_resolve_def dest: pend_resolve)

lemma pend_resolve_all:
  "pend (fold (\<lambda>t. ledger_resolve (key t) (False, None, e, now)) ts rows) s i \<Longrightarrow> pend rows s i"
proof (induction ts arbitrary: rows)
  case (Cons t ts)
  from Cons.IH[of "ledger_resolve (key t) (False, None, e, now) rows"] Cons.prems show ?case
    by (auto dest: pend_ledger_resolve)
qed simp

lemma find_update_rows:
  assumes "\<And>t. rid (f t) = rid t"
  shows "List.find (\<lambda>t. rid t = k) (update_rows q f rows) = map_option (\<lambda>t. if q t then f t else t) (List.find (\<lambda>t. rid t = k) rows)"
  using assms by (induction rows) (auto simp: update_rows_def)

lemma finish_task_cases:
  "finish_subagent_task r st result error now db =
    (case find_task r (sd_tasks db) of
       None \<Rightarrow> (None, db)
     | Some t \<Rightarrow> if tk_status t \<noteq> T_RUNNING \<or> length (filter (\<lambda>t. tk_run_id t = r \<and> tk_status t = T_RUNNING) (sd_tasks db)) \<noteq> 1
         then (Some (snapshot_from_task t), db)
         else let t' = finished_task st result error now t in
           (Some (snapshot_from_task t'),
            \<lparr>sd_tasks = update_rows (\<lambda>t. tk_run_id t = r \<and> tk_status t = T_RUNNING) (finished_task st result error now) (sd_tasks db),
             sd_ledger = ledger_resolve (SUBAGENT_FINISHED, r)
               (st \<in> set parent_waking_statuses, Some (subagent_obligation_payload t'), error, now) (sd_ledger db)\<rparr>))"
proof -
  have f: "find_task r (update_rows q (finished_task st result error now) (sd_tasks db))
      = map_option (\<lambda>t. if q t then finished_task st result error now t else t) (find_task r (sd_tasks db))" for q
    unfolding find_task_def by (rule find_update_rows) (simp add: finished_task_def)
  have "tk_run_id t = r" if "find_task r (sd_tasks db) = Some t" for t
    using that by (auto simp: find_task_def dest: find_SomeD)
  then show ?thesis
    by (auto simp: finish_subagent_task_def f Let_def terminal_task_statuses_def split: option.splits)
      (metis task_status.exhaust)+
qed

lemma pend_finish_task:
  assumes "finish_subagent_task r st result error now \<lparr>sd_tasks = tasks, sd_ledger = rows\<rparr> = (latest, db)"
    and "pend (sd_ledger db) s i" and "unique_ok rows"
  shows "pend rows s i \<or> latest \<noteq> None \<and> awaiting_for rows SUBAGENT_FINISHED r i
    \<and> (st = T_COMPLETED \<or> st = T_FAILED) \<and> (\<exists>t\<in>set tasks. tk_run_id t = r)"
  using assms
  by (auto simp: finish_task_cases Let_def find_task_def parent_waking_statuses_def split: option.splits if_splits
      dest!: pend_ledger_resolve dest: find_SomeD)

lemma finish_job_cases:
  "finish_async_job r st code bytes nlines error now db =
    (case find_job r (jd_jobs db) of
       None \<Rightarrow> (None, db)
     | Some j \<Rightarrow> if aj_status j \<noteq> J_RUNNING \<or> length (filter (\<lambda>j. aj_run_id j = r \<and> aj_status j = J_RUNNING) (jd_jobs db)) \<noteq> 1
         then (Some j, db)
         else let j' = finished_job st code bytes nlines error now j in
           (Some j',
            \<lparr>jd_jobs = update_rows (\<lambda>j. aj_run_id j = r \<and> aj_status j = J_RUNNING) (finished_job st code bytes nlines error now) (jd_jobs db),
             jd_ledger = ledger_resolve (SANDBOX_ASYNC_JOB_FINISHED, r)
               (st \<in> set owner_waking_statuses, Some (job_obligation_payload j'), error, now) (jd_ledger db)\<rparr>))"
proof -
  have f: "find_job r (update_rows q (finished_job st code bytes nlines error now) (jd_jobs db))
      = map_option (\<lambda>j. if q j then finished_job st code bytes nlines error now j else j) (find_job r (jd_jobs db))" for q
    unfolding find_job_def by (rule find_update_rows) (simp add: finished_job_def)
  have "aj_run_id j = r" if "find_job r (jd_jobs db) = Some j" for j
    using that by (auto simp: find_job_def dest: find_SomeD)
  then show ?thesis
    by (auto simp: finish_async_job_def f Let_def terminal_async_job_statuses_def snapshot_from_job_def split: option.splits)
      (metis job_status.exhaust)+
qed

lemma pend_finish_job:
  assumes "finish_async_job r st code bytes nlines error now \<lparr>jd_jobs = jobs, jd_ledger = rows\<rparr> = (latest, db)"
    and "pend (jd_ledger db) s i" and "unique_ok rows"
  shows "pend rows s i \<or> (\<exists>j. find_job r jobs = Some j) \<and> awaiting_for rows SANDBOX_ASYNC_JOB_FINISHED r i"
  using assms by (auto simp: finish_job_cases Let_def split: option.splits if_splits dest!: pend_ledger_resolve)

section \<open>The tables\<close>

definition ended :: "subordinate_task list \<Rightarrow> string \<Rightarrow> bool" where
  "ended tasks r \<longleftrightarrow> (\<forall>t\<in>set tasks. tk_run_id t = r \<longrightarrow> tk_status t \<noteq> T_RUNNING)"

text \<open>An awaiting obligation is addressed to the parent of its task, or the owner of its command.\<close>

definition linked :: "notification list \<Rightarrow> notification_kind \<Rightarrow> ('r \<Rightarrow> string) \<Rightarrow> ('r \<Rightarrow> string) \<Rightarrow> 'r list \<Rightarrow> bool" where
  "linked rows kind rid inst xs \<longleftrightarrow> (\<forall>n\<in>set rows. nt_kind n = kind \<longrightarrow> nt_status n = N_AWAITING \<longrightarrow>
     (\<forall>x\<in>set xs. rid x = nt_run_id n \<longrightarrow> nt_target_instance n = inst x))"

definition tables_ok :: "subordinate_task list \<Rightarrow> async_job list \<Rightarrow> notification list \<Rightarrow> bool" where
  "tables_ok tasks jobs rows \<longleftrightarrow> unique_ok rows \<and> distinct (map tk_run_id tasks) \<and> distinct (map aj_run_id jobs)
     \<and> linked rows SUBAGENT_FINISHED tk_run_id tk_parent_instance tasks
     \<and> linked rows SANDBOX_ASYNC_JOB_FINISHED aj_run_id aj_instance jobs"

text \<open>What the rows of tasks and commands keep whatever is done to them.\<close>

definition tasks_kept :: "subordinate_task list \<Rightarrow> subordinate_task list \<Rightarrow> bool" where
  "tasks_kept tasks tasks' \<longleftrightarrow> map tk_run_id tasks' = map tk_run_id tasks
     \<and> map tk_parent_instance tasks' = map tk_parent_instance tasks \<and> (\<forall>r. ended tasks r \<longrightarrow> ended tasks' r)"

definition jobs_kept :: "async_job list \<Rightarrow> async_job list \<Rightarrow> bool" where
  "jobs_kept jobs jobs' \<longleftrightarrow> (\<forall>r j. find_job r jobs = Some j \<longrightarrow> (\<exists>j'. find_job r jobs' = Some j' \<and> aj_instance j' = aj_instance j))"

text \<open>The notifications an operation leaves: no new obligation, the same addresses.\<close>

definition notices_kept :: "notification list \<Rightarrow> notification list \<Rightarrow> bool" where
  "notices_kept rows rows' \<longleftrightarrow> (unique_ok rows \<longrightarrow> unique_ok rows'
     \<and> (\<forall>k run i. awaiting_for rows' k run i \<longrightarrow> awaiting_for rows k run i))"

lemma linked_iff: "linked rows kind rid inst xs \<longleftrightarrow> (\<forall>run i. awaiting_for rows kind run i \<longrightarrow> (\<forall>x\<in>set xs. rid x = run \<longrightarrow> i = inst x))"
  by (auto simp: linked_def awaiting_for_def)

lemma linked_notices: "notices_kept rows rows' \<Longrightarrow> unique_ok rows \<Longrightarrow> linked rows kind rid inst xs \<Longrightarrow> linked rows' kind rid inst xs"
  unfolding notices_kept_def linked_iff by blast

lemma linked_rows:
  assumes "map rid xs' = map rid xs" and "map inst xs' = map inst xs" and "linked rows kind rid inst xs"
  shows "linked rows kind rid inst xs'"
  unfolding linked_iff
proof (intro allI impI ballI)
  fix run i x
  assume a: "awaiting_for rows kind run i" and x: "x \<in> set xs'" "rid x = run"
  from x(1) obtain k where k: "k < length xs'" "xs' ! k = x" by (auto simp: in_set_conv_nth)
  have l: "length xs' = length xs" using assms(1) map_eq_imp_length_eq by blast
  have "rid (xs ! k) = rid x" and "inst (xs ! k) = inst x"
    using assms(1,2) k l by (metis nth_map)+
  with assms(3) a x(2) k l nth_mem[of k xs] show "i = inst x" by (auto simp: linked_iff)
qed

lemma notices_keptI:
  assumes "unique_ok rows \<Longrightarrow> table_evolves rows rows' \<and> unique_ok rows'" and "length rows' = length rows"
  shows "notices_kept rows rows'"
  unfolding notices_kept_def
proof (intro conjI impI allI)
  fix k run i
  assume u: "unique_ok rows"
  assume "awaiting_for rows' k run i"
  then obtain m where m: "m \<in> set rows'" "nt_kind m = k" "nt_run_id m = run" "nt_status m = N_AWAITING" "nt_target_instance m = i"
    by (auto simp: awaiting_for_def)
  obtain kept new where r: "rows' = kept @ new" and kept: "list_all2 row_evolves rows kept"
    using assms(1)[OF u] by (auto simp: table_evolves_def)
  have "length kept = length rows" using list_all2_lengthD[OF kept] by simp
  with r assms(2) kept have all: "list_all2 row_evolves rows rows'" by simp
  then obtain n where "n \<in> set rows" "row_evolves n m" using m(1) by (metis in_set_conv_nth list_all2_conv_all_nth)
  with m status_reach_awaiting show "awaiting_for rows k run i"
    by (force simp: awaiting_for_def row_evolves_def same_identity_def)
qed (use assms(1) in blast)

lemma notices_kept_refl [simp]: "notices_kept rows rows"
  by (simp add: notices_kept_def)

lemma notices_kept_trans: "notices_kept a b \<Longrightarrow> notices_kept b c \<Longrightarrow> notices_kept a c"
  by (auto simp: notices_kept_def)

lemma notices_kept_exec:
  assumes "length (notification_exec op rows) = length rows"
  shows "notices_kept rows (notification_exec op rows)"
  using exec_evolves[of rows op] assms by (intro notices_keptI)

lemma notices_kept_resolve: "notices_kept rows (ledger_resolve k b rows)"
proof (cases b)
  case (fields ready p e now)
  have "notices_kept rows (notification_exec (NResolve (fst k) (snd k) ready p e now) rows)"
    by (rule notices_kept_exec) (simp add: length_resolve)
  with fields show ?thesis by (simp add: ledger_resolve_def)
qed

lemma notices_kept_resolve_all: "notices_kept rows (fold (\<lambda>t. ledger_resolve (key t) (arg t)) ts rows)"
proof (induction ts arbitrary: rows)
  case (Cons t ts)
  from notices_kept_trans[OF notices_kept_resolve Cons.IH] show ?case by simp
qed simp

lemma notices_kept_cancel: "notices_kept rows (snd (cancel_session_notifications s i e now rows))"
  using notices_kept_exec[of "NCancelSession s i e now" rows]
  by (simp add: cancel_session_notifications_def cancel_notifications_def Let_def)

lemma notices_kept_release: "notices_kept rows (snd (release_notification k now rows))"
  using notices_kept_exec[of "NRelease k now" rows] by simp

lemma tasks_kept_refl [simp]: "tasks_kept tasks tasks"
  by (simp add: tasks_kept_def)

lemma tasks_kept_update:
  assumes "\<And>t. tk_run_id (f t) = tk_run_id t" and "\<And>t. tk_parent_instance (f t) = tk_parent_instance t"
    and "\<And>t. tk_status (f t) = T_RUNNING \<Longrightarrow> tk_status t = T_RUNNING"
  shows "tasks_kept tasks (update_rows q f tasks)"
  using assms by (auto simp: tasks_kept_def update_rows_def ended_def)

lemma jobs_kept_refl [simp]: "jobs_kept jobs jobs"
  by (simp add: jobs_kept_def)

lemma jobs_kept_update:
  assumes "\<And>j. aj_run_id (f j) = aj_run_id j" and "\<And>j. aj_instance (f j) = aj_instance j"
  shows "jobs_kept jobs (update_rows q f jobs)"
  using find_update_rows[where f = f and rid = aj_run_id and q = q and rows = jobs] assms by (auto simp: jobs_kept_def find_job_def)

section \<open>The machine\<close>

text \<open>The run whose driver a call of \<^verbatim>\<open>resume_target_instance\<close> relaunches.\<close>

definition wake_run :: "string \<Rightarrow> string option" where
  "wake_run i = (if i = [] \<or> is_main_agent_instance i then None else Some (run_id_of_instance i))"

lemma wake_run_subagent [simp]: "wake_run (subagent_instance_id r) = Some r"
  using instance_ids(2)[of r]
  by (simp add: wake_run_def run_id_of_instance_def subagent_instance_id_def subagent_instance_prefix_def)

text \<open>The actions a drive has left in its \<^verbatim>\<open>try\<close> block, those a command has, and those of the handlers.\<close>

fun drive_tail :: "driver \<Rightarrow> act \<Rightarrow> bool" where
  "drive_tail d (A_Finish r st x e) \<longleftrightarrow> st = T_COMPLETED \<and> r = dv_run d"
| "drive_tail d (A_Publish s) \<longleftrightarrow> True"
| "drive_tail d (A_Kick s i) \<longleftrightarrow> i = dv_parent d"
| "drive_tail d (A_Kick_Lock r) \<longleftrightarrow> wake_run (dv_parent d) = Some r"
| "drive_tail d (A_Cleanup r) \<longleftrightarrow> r = dv_run d"
| "drive_tail d _ \<longleftrightarrow> False"

definition drive_todo :: "driver \<Rightarrow> act list \<Rightarrow> bool" where
  "drive_todo d todo \<longleftrightarrow>
     todo \<in> {drive_script (dv_run d), [A_Settle (dv_run d)], [A_Pending (dv_run d)], [A_Outstanding (dv_run d)], [A_Output (dv_run d)]}
     \<or> (\<forall>a\<in>set todo. drive_tail d a)"

fun job_tail :: "string \<Rightarrow> async_job list \<Rightarrow> act \<Rightarrow> bool" where
  "job_tail run jobs (A_Job_Finish r st code bytes nlines e) \<longleftrightarrow> r = run \<and> st \<noteq> J_CANCELED"
| "job_tail run jobs (A_Kick s i) \<longleftrightarrow> (\<exists>j. find_job run jobs = Some j \<and> i = aj_instance j)"
| "job_tail run jobs (A_Kick_Lock r) \<longleftrightarrow> (\<exists>j. find_job run jobs = Some j \<and> wake_run (aj_instance j) = Some r)"
| "job_tail run jobs _ \<longleftrightarrow> False"

definition job_todo :: "string \<Rightarrow> async_job list \<Rightarrow> act list \<Rightarrow> bool" where
  "job_todo run jobs todo \<longleftrightarrow> todo = [A_Job_Run run] \<or> (\<forall>a\<in>set todo. job_tail run jobs a)"

fun free_act :: "proc_kind \<Rightarrow> act \<Rightarrow> bool" where
  "free_act k (A_Drain r) \<longleftrightarrow> False"
| "free_act k (A_Settle r) \<longleftrightarrow> False"
| "free_act k (A_Pending r) \<longleftrightarrow> False"
| "free_act k (A_Outstanding r) \<longleftrightarrow> False"
| "free_act k (A_Output r) \<longleftrightarrow> False"
| "free_act k (A_Job_Run r) \<longleftrightarrow> False"
| "free_act k (A_Unwind r) \<longleftrightarrow> k = P_Drive r"
| "free_act k _ \<longleftrightarrow> True"

text \<open>The wake-ups of the driver of a run an action stands for: it ends with a call of
  \<^verbatim>\<open>resume_target_instance\<close> on its instance.\<close>

fun wakes :: "delegation_world \<Rightarrow> string \<Rightarrow> act \<Rightarrow> bool" where
  "wakes w u (A_Kick s i) \<longleftrightarrow> wake_run i = Some u"
| "wakes w u (A_Kick_Lock r) \<longleftrightarrow> r = u"
| "wakes w u (A_Finish r st x e) \<longleftrightarrow> st = T_CANCELED \<and> (\<exists>d. find_driver r w = Some d \<and> wake_run (dv_parent d) = Some u)"
| "wakes w u (A_Job_Finish r st code bytes nlines e) \<longleftrightarrow>
     st = J_CANCELED \<and> (\<exists>j. find_job r (dw_jobs w) = Some j \<and> wake_run (aj_instance j) = Some u)"
| "wakes w u _ \<longleftrightarrow> False"

fun quiet_act :: "act \<Rightarrow> bool" where
  "quiet_act (A_Kick s j) \<longleftrightarrow> False"
| "quiet_act (A_Kick_Lock r) \<longleftrightarrow> False"
| "quiet_act (A_Finish r st x e) \<longleftrightarrow> st \<noteq> T_CANCELED"
| "quiet_act (A_Job_Finish r st code bytes nlines e) \<longleftrightarrow> st \<noteq> J_CANCELED"
| "quiet_act _ \<longleftrightarrow> True"

lemma quiet_wakes: "quiet_act a \<Longrightarrow> \<not> wakes w i a"
  by (cases a) simp_all

fun act_ok :: "delegation_world \<Rightarrow> act \<Rightarrow> bool" where
  "act_ok w (A_Finish r st x e) \<longleftrightarrow> st \<noteq> T_RUNNING"
| "act_ok w (A_Cleanup r) \<longleftrightarrow> find_driver r w \<noteq> None \<and> ended (dw_tasks w) r"
| "act_ok w _ \<longleftrightarrow> True"

definition kind_ok :: "delegation_world \<Rightarrow> process \<Rightarrow> bool" where
  "kind_ok w q \<longleftrightarrow>
     (if pr_guarded q
      then (case pr_kind q of
              P_Drive r \<Rightarrow> (\<exists>d. find_driver r w = Some d \<and> drive_todo d (pr_todo q))
            | P_Job run \<Rightarrow> job_todo run (dw_jobs w) (pr_todo q)
            | _ \<Rightarrow> False)
      else (\<forall>a\<in>set (pr_todo q). free_act (pr_kind q) a))
     \<and> (\<forall>r. pr_kind q = P_Drive r \<or> pr_kind q = P_Fail r \<longrightarrow> find_driver r w \<noteq> None)"

definition proc_ok :: "delegation_world \<Rightarrow> process \<Rightarrow> bool" where
  "proc_ok w q \<longleftrightarrow> pr_todo q = []
     \<or> kind_ok w q \<and> (\<forall>a\<in>set (pr_todo q). act_ok w a \<and> (pr_started q \<or> quiet_act a))"

definition drivers_ok :: "delegation_world \<Rightarrow> bool" where
  "drivers_ok w \<longleftrightarrow> (\<forall>r d. find_driver r w = Some d \<longrightarrow> dv_run d = r \<and> dv_instance d = subagent_instance_id r
     \<and> r \<in> tk_run_id ` set (dw_tasks w) \<and> (\<forall>t\<in>set (dw_tasks w). tk_run_id t = r \<longrightarrow> tk_parent_instance t = dv_parent d)
     \<and> (dv_open d \<or> ended (dw_tasks w) r))"

text \<open>A process that settles holds the lock of its driver; the live process of a registered driver is its task.\<close>

definition lock_ok :: "delegation_world \<Rightarrow> bool" where
  "lock_ok w \<longleftrightarrow> (\<forall>p r. A_Pending r \<in> set (pr_todo (dw_procs w p)) \<or> A_Outstanding r \<in> set (pr_todo (dw_procs w p)) \<longrightarrow>
     (\<exists>d. find_driver r w = Some d \<and> dv_lock d = Some p))"

definition task_ok :: "delegation_world \<Rightarrow> bool" where
  "task_ok w \<longleftrightarrow> (\<forall>p r d. pr_todo (dw_procs w p) \<noteq> [] \<longrightarrow> pr_kind (dw_procs w p) = P_Drive r \<or> pr_kind (dw_procs w p) = P_Fail r \<longrightarrow>
     find_driver r w = Some d \<longrightarrow> dv_open d \<longrightarrow> dv_task d = Some p)"

definition fresh_ok :: "delegation_world \<Rightarrow> bool" where
  "fresh_ok w \<longleftrightarrow> (\<forall>p\<ge>dw_next w. pr_todo (dw_procs w p) = [])
     \<and> (\<forall>r d p. find_driver r w = Some d \<longrightarrow> dv_task d = Some p \<longrightarrow> p < dw_next w)"

definition machine_ok :: "delegation_world \<Rightarrow> bool" where
  "machine_ok w \<longleftrightarrow> tables_ok (dw_tasks w) (dw_jobs w) (dw_notices w) \<and> drivers_ok w \<and> (\<forall>p. proc_ok w (dw_procs w p))
     \<and> lock_ok w \<and> task_ok w \<and> fresh_ok w"

text \<open>No wake-up is lost: a registered driver that sleeps, or is about to, with a pending notification in
  its inbox has a wake-up on its way.\<close>

definition sleeping :: "delegation_world \<Rightarrow> string \<Rightarrow> bool" where
  "sleeping w r \<longleftrightarrow> (\<exists>d. find_driver r w = Some d \<and> dv_open d
     \<and> (dv_task d = None \<or> (\<exists>p. A_Outstanding r \<in> set (pr_todo (dw_procs w p)))))"

definition kick_coming :: "delegation_world \<Rightarrow> string \<Rightarrow> bool" where
  "kick_coming w r \<longleftrightarrow> (\<exists>p. \<exists>a\<in>set (pr_todo (dw_procs w p)). wakes w r a)"

definition awake_ok :: "delegation_world \<Rightarrow> bool" where
  "awake_ok w \<longleftrightarrow> dw_cut w \<or> (\<forall>r s. sleeping w r \<longrightarrow> pend (dw_notices w) s (subagent_instance_id r)
     \<longrightarrow> (\<exists>d. find_driver r w = Some d \<and> dv_session d = s) \<longrightarrow> kick_coming w r)"

section \<open>What no step changes\<close>

definition evolves :: "delegation_world \<Rightarrow> delegation_world \<Rightarrow> bool" where
  "evolves w w' \<longleftrightarrow> jobs_kept (dw_jobs w) (dw_jobs w')
     \<and> (\<forall>r d. find_driver r w = Some d \<longrightarrow> (\<exists>d'. find_driver r w' = Some d' \<and> dv_snapshot d' = dv_snapshot d \<and> dv_context d' = dv_context d))
     \<and> (\<forall>r. find_driver r w \<noteq> None \<longrightarrow> ended (dw_tasks w) r \<longrightarrow> ended (dw_tasks w') r)"

lemma evolves_refl [simp]: "evolves w w"
  by (simp add: evolves_def)

lemma driver_same:
  "dv_snapshot d' = dv_snapshot d \<Longrightarrow> dv_context d' = dv_context d \<Longrightarrow>
     dv_run d' = dv_run d \<and> dv_parent d' = dv_parent d \<and> dv_session d' = dv_session d \<and> dv_instance d' = dv_instance d"
  by (simp add: dv_run_def dv_parent_def dv_session_def dv_instance_def)

lemma drive_tail_same:
  "dv_run d' = dv_run d \<Longrightarrow> dv_parent d' = dv_parent d \<Longrightarrow> drive_tail d' a = drive_tail d a"
  by (cases a) simp_all

lemma drive_todo_same:
  "dv_run d' = dv_run d \<Longrightarrow> dv_parent d' = dv_parent d \<Longrightarrow> drive_todo d' todo = drive_todo d todo"
  using drive_tail_same[of d' d] by (simp add: drive_todo_def)

lemma evolves_driver:
  assumes "evolves w w'" and "find_driver r w = Some d"
  shows "\<exists>d'. find_driver r w' = Some d' \<and> dv_run d' = dv_run d \<and> dv_parent d' = dv_parent d
    \<and> dv_session d' = dv_session d \<and> dv_instance d' = dv_instance d"
proof -
  from assms obtain d' where d: "find_driver r w' = Some d'" "dv_snapshot d' = dv_snapshot d" "dv_context d' = dv_context d"
    unfolding evolves_def by blast
  from driver_same[OF d(2,3)] d(1) show ?thesis by blast
qed

lemma wakes_mono:
  assumes "evolves w w'" and "wakes w i a"
  shows "wakes w' i a"
proof (cases a)
  case (A_Finish r st x e)
  with assms(2) obtain d where "find_driver r w = Some d" "wake_run (dv_parent d) = Some i" "st = T_CANCELED" by auto
  with A_Finish evolves_driver[OF assms(1)] show ?thesis by fastforce
next
  case (A_Job_Finish r st code bytes nlines e)
  with assms show ?thesis by (fastforce simp: evolves_def jobs_kept_def)
qed (use assms(2) in simp_all)

lemma job_tail_mono:
  assumes "jobs_kept jobs jobs'" and "job_tail run jobs a"
  shows "job_tail run jobs' a"
proof (cases a)
  case (A_Kick s i)
  with assms show ?thesis by (fastforce simp: jobs_kept_def)
next
  case (A_Kick_Lock r)
  with assms obtain j where "find_job run jobs = Some j" "wake_run (aj_instance j) = Some r" by auto
  with assms(1) A_Kick_Lock show ?thesis by (fastforce simp: jobs_kept_def)
qed (use assms(2) in simp_all)

lemma act_ok_mono:
  assumes "evolves w w'" and "act_ok w a"
  shows "act_ok w' a"
proof (cases a)
  case (A_Cleanup r)
  with assms(2) obtain d where "find_driver r w = Some d" "ended (dw_tasks w) r" by auto
  with assms(1) evolves_driver[OF assms(1)] A_Cleanup show ?thesis by (fastforce simp: evolves_def)
qed (use assms(2) in simp_all)

lemma kind_ok_mono:
  assumes "evolves w w'" and "kind_ok w q"
  shows "kind_ok w' q"
proof -
  have d: "find_driver r w \<noteq> None \<Longrightarrow> find_driver r w' \<noteq> None" for r using evolves_driver[OF assms(1)] by fastforce
  have "job_todo run (dw_jobs w) t \<Longrightarrow> job_todo run (dw_jobs w') t" for run t
    using assms(1) job_tail_mono by (auto simp: evolves_def job_todo_def)
  moreover have "\<exists>d'. find_driver r w' = Some d' \<and> drive_todo d' t" if old: "find_driver r w = Some d" "drive_todo d t" for r d t
  proof -
    obtain d' where "find_driver r w' = Some d'" "dv_run d' = dv_run d" "dv_parent d' = dv_parent d"
      using evolves_driver[OF assms(1) old(1)] by blast
    with old(2) drive_todo_same[of d' d] show ?thesis by simp
  qed
  ultimately show ?thesis using assms(2) d unfolding kind_ok_def
    by (auto split: if_splits proc_kind.splits)
qed

lemma proc_ok_mono: "evolves w w' \<Longrightarrow> proc_ok w q \<Longrightarrow> proc_ok w' q"
  using kind_ok_mono act_ok_mono by (auto simp: proc_ok_def)

text \<open>The state after an action, by what it does: the tables only, one driver, a new process as well, or a cancellation.\<close>

definition same_machine :: "delegation_world \<Rightarrow> delegation_world \<Rightarrow> bool" where
  "same_machine w w' \<longleftrightarrow> dw_drivers w' = dw_drivers w \<and> dw_procs w' = dw_procs w \<and> dw_next w' = dw_next w \<and> dw_cut w' = dw_cut w"

lemma find_driver_same: "dw_drivers w' = dw_drivers w \<Longrightarrow> find_driver r w' = find_driver r w"
  by (simp add: find_driver_def)

lemma find_set_driver [simp]: "find_driver r' (set_driver r d w) = (if r' = r then Some d else find_driver r' w)"
  by (simp add: find_driver_def set_driver_def update_conv')

lemma set_driver_fields [simp]:
  "dw_tasks (set_driver r d w) = dw_tasks w" "dw_jobs (set_driver r d w) = dw_jobs w"
  "dw_notices (set_driver r d w) = dw_notices w" "dw_procs (set_driver r d w) = dw_procs w"
  "dw_next (set_driver r d w) = dw_next w" "dw_cut (set_driver r d w) = dw_cut w"
  by (simp_all add: set_driver_def)

lemma set_todo_fields [simp]:
  "dw_tasks (set_todo p t w) = dw_tasks w" "dw_jobs (set_todo p t w) = dw_jobs w"
  "dw_notices (set_todo p t w) = dw_notices w" "find_driver r (set_todo p t w) = find_driver r w"
  "dw_procs (set_todo p t w) q = (if q = p then (dw_procs w p)\<lparr>pr_todo := t\<rparr> else dw_procs w q)"
  "dw_next (set_todo p t w) = dw_next w" "dw_cut (set_todo p t w) = dw_cut w"
  by (simp_all add: set_todo_def find_driver_def)

lemma spawn_fields [simp]:
  "fst (spawn k g t w) = dw_next w" "dw_tasks (snd (spawn k g t w)) = dw_tasks w" "dw_jobs (snd (spawn k g t w)) = dw_jobs w"
  "dw_notices (snd (spawn k g t w)) = dw_notices w" "find_driver r (snd (spawn k g t w)) = find_driver r w"
  "dw_procs (snd (spawn k g t w)) q = (if q = dw_next w
     then \<lparr>pr_kind = k, pr_started = False, pr_guarded = g, pr_todo = t\<rparr> else dw_procs w q)"
  "dw_next (snd (spawn k g t w)) = Suc (dw_next w)" "dw_cut (snd (spawn k g t w)) = dw_cut w"
  by (simp_all add: spawn_def find_driver_def)

end
