(* ===== verification/Delegation_Safety.thy ===== *)
theory Delegation_Safety
  imports Delegation_Invariants
begin

text \<open>
  Every action of a process keeps the machine of the drivers in order: the shape of every process, the locks,
  the task of every driver, the fresh process numbers and the tables.
\<close>

section \<open>What an action leaves\<close>

lemma release_find [simp]: "map_of (release_locks p ds) r = map_option (\<lambda>d. if dv_lock d = Some p then d\<lparr>dv_lock := None\<rparr> else d) (map_of ds r)"
  by (simp add: release_locks_def map_of_map)

lemma cancel_process_tables [simp]:
  "dw_tasks (cancel_process p w) = dw_tasks w" "dw_jobs (cancel_process p w) = dw_jobs w"
  "dw_notices (cancel_process p w) = dw_notices w" "dw_next (cancel_process p w) = dw_next w"
  by (simp_all add: cancel_process_def Let_def split: option.split)

lemma cancel_process_driver:
  "find_driver r (cancel_process p w) = map_option (\<lambda>d. if pr_todo (dw_procs w p) \<noteq> [] \<and> dv_lock d = Some p then d\<lparr>dv_lock := None\<rparr> else d)
     (find_driver r w)"
  by (simp add: cancel_process_def find_driver_def Let_def option.map_ident split: option.split)

lemma on_subordinates_machine: "same_machine w (snd (on_subordinates f w))"
  by (simp add: on_subordinates_def same_machine_def case_prod_beta Let_def)

lemma on_job_rows_machine: "same_machine w (snd (on_job_rows f w))"
  by (simp add: on_job_rows_def same_machine_def case_prod_beta Let_def)

fun plain_act :: "act \<Rightarrow> bool" where
  "plain_act (A_Settle r) \<longleftrightarrow> False"
| "plain_act (A_Pending r) \<longleftrightarrow> False"
| "plain_act (A_Outstanding r) \<longleftrightarrow> False"
| "plain_act (A_Kick_Lock r) \<longleftrightarrow> False"
| "plain_act (A_Cleanup r) \<longleftrightarrow> False"
| "plain_act (A_Cancel_Job q) \<longleftrightarrow> False"
| "plain_act (A_Stop rs live dormant) \<longleftrightarrow> rs = []"
| "plain_act _ \<longleftrightarrow> True"

lemma exec_plain:
  assumes "exec_act now x p a w = Some (pre, w')" and "plain_act a"
  shows "same_machine w w'"
proof -
  have r: "same_machine w w" by (simp add: same_machine_def)
  show ?thesis
  proof (cases a)
    case (A_Finish r st result error)
    with assms(1) on_subordinates_machine[of w "finish_subagent_task r st result error now"] show ?thesis
      by (auto simp: with_driver_def case_prod_beta)
  next
    case (A_Cancel_Rows s i e)
    with assms(1) on_subordinates_machine[of w "cancel_running_rows (Some s) i e now"] show ?thesis
      by (auto simp: case_prod_beta)
  next
    case (A_Cancel_Task s)
    with assms(1) r on_subordinates_machine[of w "cancel_subagent_task_record (tk_run_id s) subagent_cancel_message now"]
    show ?thesis by (auto simp: case_prod_beta split: if_splits)
  next
    case (A_Job_Finish r st code bytes nlines error)
    with assms(1) on_job_rows_machine[of w "finish_async_job r st code bytes nlines error now"] show ?thesis
      by (auto simp: case_prod_beta)
  next
    case (A_Cancel_Job_Rows s i c)
    with assms(1) on_job_rows_machine[of w "cancel_running_jobs s i c (dw_canceled_text w) now"] show ?thesis by simp
  next
    case (A_Unwind r)
    with assms(1) r show ?thesis by (auto simp: with_driver_def same_machine_def split: if_splits)
  next
    case (A_Kick s i)
    with assms(1) r show ?thesis
      by (auto simp: resume_target_instance_def same_machine_def split: if_splits option.splits)
  next
    case (A_Stop rs live dormant)
    with assms r show ?thesis by simp
  qed (use assms r in \<open>auto simp: same_machine_def cancel_matching_jobs_def Let_def split: if_splits\<close>)
qed

section \<open>The tables after an action\<close>

definition jobs_same :: "async_job list \<Rightarrow> async_job list \<Rightarrow> bool" where
  "jobs_same jobs jobs' \<longleftrightarrow> map aj_run_id jobs' = map aj_run_id jobs \<and> map aj_instance jobs' = map aj_instance jobs
     \<and> jobs_kept jobs jobs'"

lemma jobs_same_refl [simp]: "jobs_same jobs jobs"
  by (simp add: jobs_same_def)

lemma jobs_same_update:
  assumes "\<And>j. aj_run_id (f j) = aj_run_id j" and "\<And>j. aj_instance (f j) = aj_instance j"
  shows "jobs_same jobs (update_rows q f jobs)"
  using assms jobs_kept_update[OF assms] by (simp add: jobs_same_def map_update_rows_same)

definition tables_step :: "delegation_world \<Rightarrow> delegation_world \<Rightarrow> bool" where
  "tables_step w w' \<longleftrightarrow> tasks_kept (dw_tasks w) (dw_tasks w') \<and> jobs_same (dw_jobs w) (dw_jobs w')
     \<and> notices_kept (dw_notices w) (dw_notices w')"

lemma tables_step_same:
  "dw_tasks w' = dw_tasks w \<Longrightarrow> dw_jobs w' = dw_jobs w \<Longrightarrow> dw_notices w' = dw_notices w \<Longrightarrow> tables_step w w'"
  by (simp add: tables_step_def)

lemma tables_step_notices:
  "notices_kept (dw_notices w) rows \<Longrightarrow> tables_step w (w\<lparr>dw_notices := rows\<rparr>)"
  by (simp add: tables_step_def)

lemma tables_step_finish: "tables_step w (snd (on_subordinates (finish_subagent_task r st result error now) w))"
  if "st \<noteq> T_RUNNING"
  using that
  by (auto simp: on_subordinates_def finish_task_cases tables_step_def Let_def split: option.split
      intro!: tasks_kept_update notices_kept_resolve) (simp_all add: finished_task_def)

lemma cancel_record_eq: "cancel_subagent_task_record r e now = finish_subagent_task r T_CANCELED [] e now"
  by (simp add: fun_eq_iff cancel_subagent_task_record_def)

lemma tables_step_cancel_rows: "tables_step w (snd (on_subordinates (cancel_running_rows s i e now) w))"
  by (auto simp: on_subordinates_def cancel_running_rows_def tables_step_def Let_def
      intro!: tasks_kept_update notices_kept_resolve_all) (simp_all add: canceled_task_def)

lemma tables_step_finish_job: "tables_step w (snd (on_job_rows (finish_async_job r st code bytes nlines e now) w))"
  by (auto simp: on_job_rows_def finish_job_cases tables_step_def Let_def split: option.split
      intro!: jobs_same_update notices_kept_resolve) (simp_all add: finished_job_def)

lemma tables_step_cancel_jobs: "tables_step w (snd (on_job_rows (cancel_running_jobs s i c e now) w))"
  by (auto simp: on_job_rows_def cancel_running_jobs_def tables_step_def Let_def
      intro!: jobs_same_update notices_kept_resolve_all) (simp_all add: canceled_job_def)

lemma settle_tables:
  "tables_step w (snd (settle_pending r d w))" "tables_step w (snd (settle_outstanding r d w))"
  "tables_step w (snd (resume_subagent_instance r d w))" "tables_step w (snd (stop_driver r rs live dormant d w))"
  by (auto simp: settle_pending_def settle_outstanding_def resume_subagent_instance_def stop_driver_def spawn_drive_def
      Let_def case_prod_beta intro!: tables_step_same split: option.split)

lemma exec_tables:
  assumes "exec_act now x p a w = Some (pre, w')" and "act_ok w a"
  shows "tables_step w w'"
proof (cases a)
  case (A_Finish r st result error)
  with assms tables_step_finish[of st w r result error now] show ?thesis by (auto simp: with_driver_def case_prod_beta)
next
  case (A_Cancel_Rows s i e)
  with assms(1) tables_step_cancel_rows[of w "Some s" i e now] show ?thesis by (auto simp: case_prod_beta)
next
  case (A_Cancel_Task s)
  with assms(1) tables_step_finish[of T_CANCELED w "tk_run_id s" "[]" subagent_cancel_message now] show ?thesis
    by (auto simp: cancel_record_eq case_prod_beta tables_step_same split: if_splits)
next
  case (A_Job_Finish r st code bytes nlines e)
  with assms(1) tables_step_finish_job[of w r st code bytes nlines e now] show ?thesis by (auto simp: case_prod_beta)
next
  case (A_Cancel_Job_Rows s i c)
  with assms(1) tables_step_cancel_jobs[of w s i c "dw_canceled_text w" now] show ?thesis by simp
next
  case (A_Unwind r)
  with assms(1) show ?thesis
    by (auto simp: with_driver_def tables_step_same intro: tables_step_notices notices_kept_release split: if_splits)
next
  case (A_Cancel_Notices s i e)
  with assms(1) show ?thesis by (auto intro: tables_step_notices notices_kept_cancel)
next
  case (A_Kick s i)
  with assms(1) show ?thesis
    by (auto simp: resume_target_instance_def tables_step_same split: if_splits option.splits)
next
  case (A_Kick_Lock r)
  with assms(1) show ?thesis using settle_tables(3)
    by (auto simp: with_lock_def split: option.splits if_splits) (metis snd_conv)
next
  case (A_Pending r)
  with assms(1) show ?thesis using settle_tables(1) by (auto simp: with_driver_def) (metis snd_conv)
next
  case (A_Outstanding r)
  with assms(1) show ?thesis using settle_tables(2) by (auto simp: with_driver_def) (metis snd_conv)
next
  case (A_Stop rs live dormant)
  show ?thesis
  proof (cases rs)
    case (Cons r rs')
    with A_Stop assms(1) show ?thesis using settle_tables(4)
      by (auto simp: with_lock_def split: option.splits if_splits) (metis snd_conv)
  qed (use A_Stop assms(1) in \<open>auto simp: tables_step_same\<close>)
qed (use assms(1) in \<open>auto simp: tables_step_same with_lock_def with_driver_def cancel_matching_jobs_def Let_def
    split: option.splits if_splits\<close>)

lemma tables_ok_step:
  assumes "tables_ok (dw_tasks w) (dw_jobs w) (dw_notices w)" and "tables_step w w'"
  shows "tables_ok (dw_tasks w') (dw_jobs w') (dw_notices w')"
proof -
  note t = assms(1)[unfolded tables_ok_def] and st = assms(2)[unfolded tables_step_def tasks_kept_def jobs_same_def]
  have "linked (dw_notices w) SUBAGENT_FINISHED tk_run_id tk_parent_instance (dw_tasks w')"
    by (rule linked_rows[of _ _ "dw_tasks w"]) (use t st in simp_all)
  moreover have "linked (dw_notices w) SANDBOX_ASYNC_JOB_FINISHED aj_run_id aj_instance (dw_jobs w')"
    by (rule linked_rows[of _ _ "dw_jobs w"]) (use t st in simp_all)
  ultimately have "linked (dw_notices w') SUBAGENT_FINISHED tk_run_id tk_parent_instance (dw_tasks w')
      \<and> linked (dw_notices w') SANDBOX_ASYNC_JOB_FINISHED aj_run_id aj_instance (dw_jobs w')"
    using t st by (auto intro: linked_notices)
  then show ?thesis using t st by (simp add: tables_ok_def notices_kept_def)
qed

text \<open>Drivers keep their snapshot and context, and open drivers are closed by their clean-up only.\<close>

definition drivers_step :: "delegation_world \<Rightarrow> delegation_world \<Rightarrow> (string \<Rightarrow> bool) \<Rightarrow> bool" where
  "drivers_step w w' gone \<longleftrightarrow> (\<forall>r. case find_driver r w of
       None \<Rightarrow> find_driver r w' = None
     | Some d \<Rightarrow> \<exists>d'. find_driver r w' = Some d' \<and> dv_snapshot d' = dv_snapshot d \<and> dv_context d' = dv_context d
         \<and> (dv_open d' = dv_open d \<or> gone r \<and> \<not> dv_open d'))"

lemma drivers_step_same: "dw_drivers w' = dw_drivers w \<Longrightarrow> drivers_step w w' c"
  by (simp add: drivers_step_def find_driver_def split: option.split)

lemma exec_drivers:
  assumes "exec_act now x p a w = Some (pre, w')"
  shows "drivers_step w w' (\<lambda>r. a = A_Cleanup r)"
proof (cases "plain_act a")
  case True
  from exec_plain[OF assms True] show ?thesis by (simp add: same_machine_def drivers_step_same)
next
  case False
  then show ?thesis using assms
    by (cases a) (auto simp: drivers_step_def with_lock_def with_driver_def settle_pending_def settle_outstanding_def
        resume_subagent_instance_def stop_driver_def spawn_drive_def Let_def case_prod_beta cancel_process_driver
        neq_Nil_conv split: option.splits if_splits)
qed

lemma evolves_step:
  assumes "tables_step w w'" and "drivers_step w w' c"
  shows "evolves w w'"
  unfolding evolves_def
proof (intro conjI allI impI)
  show "jobs_kept (dw_jobs w) (dw_jobs w')" using assms(1) by (simp add: tables_step_def jobs_same_def)
  show "ended (dw_tasks w') r" if "ended (dw_tasks w) r" for r using assms(1) that by (simp add: tables_step_def tasks_kept_def)
  fix r d
  assume "find_driver r w = Some d"
  with assms(2)[unfolded drivers_step_def, rule_format, of r]
  show "\<exists>d'. find_driver r w' = Some d' \<and> dv_snapshot d' = dv_snapshot d \<and> dv_context d' = dv_context d" by auto
qed

lemma act_evolves: "exec_act now x p a w = Some (pre, w') \<Longrightarrow> act_ok w a \<Longrightarrow> evolves w w'"
  using evolves_step[OF exec_tables exec_drivers] by blast

section \<open>The actions an action leaves\<close>

lemma followup_tail: "drive_tail d a" if "a \<in> set (finish_followup d T_COMPLETED latest)"
  using that by (auto simp: finish_followup_def split: option.splits if_splits)

lemma drive_tail_exec:
  assumes "drive_tail d a" and "find_driver (dv_run d) w = Some d" and "exec_act now x p a w = Some (pre, w')"
  shows "\<forall>b\<in>set pre. drive_tail d b"
proof (cases a)
  case (A_Finish r st result error)
  with assms followup_tail[of _ d] show ?thesis by (auto simp: with_driver_def case_prod_beta)
next
  case (A_Kick s i)
  with assms show ?thesis by (auto simp: resume_target_instance_def wake_run_def split: if_splits option.splits)
next
  case (A_Kick_Lock r)
  with assms show ?thesis
    by (auto simp: with_lock_def resume_subagent_instance_def case_prod_beta split: if_splits option.splits)
qed (use assms in \<open>auto simp: with_driver_def\<close>)

lemma job_tail_exec:
  assumes "job_tail run (dw_jobs w) a" and "exec_act now x p a w = Some (pre, w')"
  shows "\<forall>b\<in>set pre. job_tail run (dw_jobs w) b"
proof (cases a)
  case (A_Job_Finish r st code bytes nlines error)
  with assms show ?thesis
    by (auto simp: on_job_rows_def finish_job_cases finished_job_def Let_def split: option.splits if_splits)
next
  case (A_Kick s i)
  with assms show ?thesis by (auto simp: resume_target_instance_def wake_run_def split: if_splits option.splits)
next
  case (A_Kick_Lock r)
  with assms show ?thesis
    by (auto simp: with_lock_def resume_subagent_instance_def case_prod_beta split: if_splits option.splits)
qed (use assms in simp_all)

lemma cancel_script_free: "a \<in> set (cancel_subagent_of w r) \<Longrightarrow> free_act k a \<and> act_ok u a"
  by (auto simp: cancel_subagent_of_def cancel_subagent_def teardown_subtree_def split: option.splits)

lemma exec_free:
  assumes "free_act k a" and "exec_act now x p a w = Some (pre, w')"
  shows "\<forall>b\<in>set pre. free_act k b"
proof (cases a)
  case (A_Stop rs live dormant)
  with assms show ?thesis using cancel_script_free
    by (cases rs) (auto simp: with_lock_def stop_driver_def split: if_splits option.splits)
qed (use assms in \<open>auto simp: with_driver_def with_lock_def resume_target_instance_def resume_subagent_instance_def
      finish_followup_def cancel_matching_jobs_def case_prod_beta Let_def split: if_splits option.splits list.splits\<close>)

lemma exec_kind:
  assumes "drivers_ok w" and "kind_ok w q" and "pr_todo q = a # rest" and "exec_act now x p a w = Some (pre, w')"
  shows "kind_ok w (q\<lparr>pr_todo := pre @ rest\<rparr>)"
proof (cases "pr_guarded q")
  case False
  with assms exec_free[OF _ assms(4), of "pr_kind q"] show ?thesis by (auto simp: kind_ok_def)
next
  case True
  show ?thesis
  proof (cases "pr_kind q")
    case (P_Drive r)
    with True assms(2,3) obtain d where d: "find_driver r w = Some d" and todo: "drive_todo d (a # rest)"
      by (auto simp: kind_ok_def)
    have run: "dv_run d = r" using assms(1) d by (simp add: drivers_ok_def)
    have "drive_todo d (pre @ rest)"
    proof (cases "\<forall>b\<in>set (a # rest). drive_tail d b")
      case True
      with drive_tail_exec[of d a w now x p pre w'] d run assms(4) show ?thesis by (auto simp: drive_todo_def)
    next
      case False
      with todo run assms(4) d show ?thesis
        by (auto simp: drive_todo_def drive_script_def with_lock_def with_driver_def settle_pending_def settle_outstanding_def
            Let_def case_prod_beta split: if_splits option.splits)
    qed
    with True P_Drive d assms(2) show ?thesis by (auto simp: kind_ok_def)
  next
    case (P_Job run)
    with True assms(2,3) have todo: "job_todo run (dw_jobs w) (a # rest)" by (auto simp: kind_ok_def)
    have "job_todo run (dw_jobs w) (pre @ rest)"
      using todo job_tail_exec[OF _ assms(4)] assms(4) by (auto simp: job_todo_def)
    with True P_Job assms(2) show ?thesis by (auto simp: kind_ok_def)
  qed (use True assms(2) in \<open>auto simp: kind_ok_def\<close>)
qed

lemma finish_ends:
  assumes "finish_subagent_task r st result error now db = (latest, db')" and "distinct (map tk_run_id (sd_tasks db))" and "st \<noteq> T_RUNNING"
  shows "ended (sd_tasks db') r"
proof (cases "find_task r (sd_tasks db)")
  case None
  then have "\<forall>t\<in>set (sd_tasks db). tk_run_id t \<noteq> r" by (simp add: find_task_def find_None_iff')
  with None assms(1) show ?thesis by (auto simp: finish_task_cases ended_def)
next
  case (Some t)
  then have t: "t \<in> set (sd_tasks db)" "tk_run_id t = r" by (auto simp: find_task_def dest: find_SomeD)
  have only: "u = t" if "u \<in> set (sd_tasks db)" "tk_run_id u = r" for u
    using that t assms(2) by (auto simp: distinct_map dest: inj_onD)
  show ?thesis
  proof (cases "tk_status t = T_RUNNING")
    case False
    with Some assms(1) only show ?thesis by (auto simp: finish_task_cases ended_def)
  next
    case True
    have "filter (\<lambda>u. tk_run_id u = tk_run_id t \<and> tk_status u = T_RUNNING) (sd_tasks db) = [t]"
      by (rule filter_key_single[OF assms(2) t(1), of "\<lambda>u. tk_status u = T_RUNNING", OF True])
    with True Some assms(1,3) t(2) show ?thesis
      by (auto simp: finish_task_cases ended_def Let_def update_rows_def finished_task_def)
  qed
qed

lemma exec_pre_ok:
  assumes "tables_ok (dw_tasks w) (dw_jobs w) (dw_notices w)" and "drivers_ok w" and "act_ok w a"
    and "exec_act now x p a w = Some (pre, w')"
  shows "\<forall>b\<in>set pre. act_ok w' b"
proof (cases a)
  case (A_Finish r st result error)
  with assms(4) obtain d where d: "find_driver r w = Some d"
    and pre: "pre = finish_followup d st (fst (on_subordinates (finish_subagent_task r st result error now) w))"
    and w': "w' = snd (on_subordinates (finish_subagent_task r st result error now) w)"
    by (auto simp: with_driver_def case_prod_beta)
  have run: "dv_run d = r" using assms(2) d by (simp add: drivers_ok_def)
  have "ended (dw_tasks w') r"
    using finish_ends[of r st result error now "\<lparr>sd_tasks = dw_tasks w, sd_ledger = dw_notices w\<rparr>"] assms(1,3) A_Finish
    by (auto simp: w' on_subordinates_def tables_ok_def case_prod_beta Let_def prod_eq_iff)
  moreover have "find_driver r w' = Some d"
    using on_subordinates_machine[of w "finish_subagent_task r st result error now"] d
    by (simp add: w' same_machine_def find_driver_def)
  ultimately show ?thesis by (auto simp: pre finish_followup_def run split: option.splits if_splits)
next
  case (A_Stop rs live dormant)
  with assms(4) show ?thesis using cancel_script_free
    by (cases rs) (auto simp: with_lock_def stop_driver_def split: if_splits option.splits)
qed (use assms in \<open>auto simp: with_driver_def with_lock_def resume_target_instance_def resume_subagent_instance_def
      cancel_matching_jobs_def settle_pending_def settle_outstanding_def case_prod_beta Let_def
      split: if_splits option.splits list.splits\<close>)

section \<open>The processes after an action\<close>

lemma settle_shape:
  assumes "kind_ok w q" and "drivers_ok w" and "b \<in> set (pr_todo q)" and "b \<in> {A_Pending r, A_Outstanding r}"
  shows "pr_guarded q \<and> pr_kind q = P_Drive r \<and> pr_todo q = [b]"
proof -
  have g: "pr_guarded q"
  proof (rule ccontr)
    assume "\<not> pr_guarded q"
    with assms(1,3) have "free_act (pr_kind q) b" by (simp add: kind_ok_def)
    with assms(4) show False by auto
  qed
  show ?thesis
  proof (cases "pr_kind q")
    case (P_Drive r')
    with g assms(1) obtain d where "find_driver r' w = Some d" "drive_todo d (pr_todo q)" by (auto simp: kind_ok_def)
    moreover from this have "dv_run d = r'" using assms(2) by (simp add: drivers_ok_def)
    ultimately show ?thesis using g P_Drive assms(3,4) by (auto simp: drive_todo_def drive_script_def)
  next
    case (P_Job run)
    with g assms(1,3,4) show ?thesis by (auto simp: kind_ok_def job_todo_def)
  qed (use g assms(1) in \<open>auto simp: kind_ok_def\<close>)
qed

lemma settle_only:
  assumes "machine_ok w" and "b \<in> set (pr_todo (dw_procs w p))" and "b \<in> {A_Pending r, A_Outstanding r}"
  shows "pr_guarded (dw_procs w p) \<and> pr_kind (dw_procs w p) = P_Drive r \<and> pr_todo (dw_procs w p) = [b]"
proof -
  have "proc_ok w (dw_procs w p)" and d: "drivers_ok w" using assms(1) by (simp_all add: machine_ok_def)
  with assms(2) have "kind_ok w (dw_procs w p)" by (auto simp: proc_ok_def)
  from settle_shape[OF this d assms(2,3)] show ?thesis .
qed

lemma spawn_drive_fields [simp]:
  "fst (spawn_drive r w) = dw_next w" "dw_tasks (snd (spawn_drive r w)) = dw_tasks w" "dw_jobs (snd (spawn_drive r w)) = dw_jobs w"
  "dw_notices (snd (spawn_drive r w)) = dw_notices w" "find_driver r' (snd (spawn_drive r w)) = find_driver r' w"
  "dw_procs (snd (spawn_drive r w)) q = (if q = dw_next w
     then \<lparr>pr_kind = P_Drive r, pr_started = False, pr_guarded = True, pr_todo = drive_script r\<rparr> else dw_procs w q)"
  "dw_next (snd (spawn_drive r w)) = Suc (dw_next w)" "dw_cut (snd (spawn_drive r w)) = dw_cut w"
  by (simp_all add: spawn_drive_def)

lemma new_drive_ok:
  "find_driver r w = Some d \<Longrightarrow> dv_run d = r \<Longrightarrow>
     proc_ok w \<lparr>pr_kind = P_Drive r, pr_started = False, pr_guarded = True, pr_todo = drive_script r\<rparr>"
  by (simp add: proc_ok_def kind_ok_def drive_todo_def drive_script_def)

lemma new_fail_ok:
  "find_driver r w \<noteq> None \<Longrightarrow>
     proc_ok w \<lparr>pr_kind = P_Fail r, pr_started = False, pr_guarded = False, pr_todo = fail_subagent d message\<rparr>"
  by (auto simp: proc_ok_def kind_ok_def fail_subagent_def teardown_subtree_def)

lemma cancel_procs:
  "dw_procs (cancel_process q w) q' =
    (if q' \<noteq> q \<or> pr_todo (dw_procs w q) = [] then dw_procs w q'
     else if \<not> pr_started (dw_procs w q) then (dw_procs w q)\<lparr>pr_todo := []\<rparr>
     else case cancel_handler (w\<lparr>dw_drivers := release_locks q (dw_drivers w)\<rparr>) (dw_procs w q) of
         Some todo \<Rightarrow> (dw_procs w q)\<lparr>pr_guarded := False, pr_todo := todo\<rparr>
       | None \<Rightarrow> (dw_procs w q)\<lparr>pr_todo := []\<rparr>)"
  by (auto simp: cancel_process_def Let_def split: option.split)

lemma handler_acts:
  assumes "cancel_handler w q = Some todo" and "b \<in> set todo"
  shows "free_act (pr_kind q) b \<and> act_ok u b"
proof (cases "pr_kind q")
  case (P_Drive r)
  with assms cancel_script_free[of b w r "pr_kind q" u] show ?thesis by (auto simp: cancel_handler_def split: if_splits)
qed (use assms in \<open>auto simp: cancel_handler_def split: if_splits\<close>)

lemma cancel_proc_ok:
  assumes "proc_ok w (dw_procs w q')" and "evolves w w'"
  shows "proc_ok w' (dw_procs (cancel_process q w) q')"
proof -
  let ?v = "w\<lparr>dw_drivers := release_locks q (dw_drivers w)\<rparr>" and ?q = "dw_procs w q"
  have old: "proc_ok w' (dw_procs w q')" by (rule proc_ok_mono[OF assms(2,1)])
  show ?thesis
  proof (cases "q' = q \<and> pr_todo ?q \<noteq> [] \<and> pr_started ?q")
    case True
    show ?thesis
    proof (cases "cancel_handler ?v ?q")
      case (Some todo)
      have "kind_ok w' (?q\<lparr>pr_guarded := False, pr_todo := todo\<rparr>)"
        using old True handler_acts[OF Some] by (auto simp: proc_ok_def kind_ok_def)
      with True Some handler_acts[OF Some] show ?thesis by (auto simp: cancel_procs proc_ok_def)
    qed (use True in \<open>simp add: cancel_procs proc_ok_def\<close>)
  qed (use old in \<open>auto simp: cancel_procs proc_ok_def\<close>)
qed

lemma exec_procs_ok:
  assumes m: "machine_ok w" and p: "pr_todo (dw_procs w p) = a # rest" and ex: "exec_act now x p a w = Some (pre, w')"
    and ok: "act_ok w a" and q: "q \<noteq> p"
  shows "proc_ok w' (dw_procs w' q)"
proof -
  note ev = act_evolves[OF ex ok]
  have old: "proc_ok w' (dw_procs w q)" using m proc_ok_mono[OF ev] by (simp add: machine_ok_def)
  have run: "dv_run d = r" if "find_driver r w = Some d" for r d using m that by (simp add: machine_ok_def drivers_ok_def)
  show ?thesis
  proof (cases "plain_act a")
    case True
    with exec_plain[OF ex] old show ?thesis by (simp add: same_machine_def)
  next
    case False
    then show ?thesis
    proof (cases a)
      case (A_Pending r)
      with ex obtain d where d: "find_driver r w = Some d" and r: "settle_pending r d w = (pre, w')"
        by (auto simp: with_driver_def)
      from old r show ?thesis
        by (auto simp: settle_pending_def Let_def case_prod_beta dv_run_def run[OF d, unfolded dv_run_def] split: if_splits
            intro!: new_drive_ok new_fail_ok)
    next
      case (A_Kick_Lock r)
      with ex obtain d where d: "find_driver r w = Some d" and r: "resume_subagent_instance r d w = (pre, w')"
        by (auto simp: with_lock_def split: option.splits if_splits)
      from old r show ?thesis
        by (auto simp: resume_subagent_instance_def Let_def case_prod_beta dv_run_def run[OF d, unfolded dv_run_def]
            split: if_splits intro!: new_drive_ok)
    next
      case (A_Cancel_Job k)
      with ex ev m show ?thesis using cancel_proc_ok[of w q w' k] by (auto simp: machine_ok_def)
    next
      case (A_Stop rs live dormant)
      with False obtain r rs' where rs: "rs = r # rs'" by (cases rs) auto
      with A_Stop ex obtain d where r: "stop_driver r rs' live dormant d w = (pre, w')"
        by (auto simp: with_lock_def split: option.splits if_splits)
      with ev m old show ?thesis using cancel_proc_ok[of w q w']
        by (auto simp: stop_driver_def machine_ok_def split: option.splits if_splits)
    qed (use ex old in \<open>auto simp: with_lock_def with_driver_def settle_outstanding_def split: option.splits if_splits\<close>)
  qed
qed

section \<open>Every step keeps the machine in order\<close>

definition locked_by :: "delegation_world \<Rightarrow> nat \<Rightarrow> string \<Rightarrow> bool" where
  "locked_by w p r \<longleftrightarrow> (\<exists>d. find_driver r w = Some d \<and> dv_lock d = Some p)"

lemma lock_ok_iff: "lock_ok w \<longleftrightarrow> (\<forall>p r. A_Pending r \<in> set (pr_todo (dw_procs w p)) \<or> A_Outstanding r \<in> set (pr_todo (dw_procs w p))
    \<longrightarrow> locked_by w p r)"
  by (simp add: lock_ok_def locked_by_def)

text \<open>The actions of the settling process are its whole rest, and its lock is its own.\<close>

lemma settler:
  assumes "machine_ok w" and "A_Pending r \<in> set (pr_todo (dw_procs w p)) \<or> A_Outstanding r \<in> set (pr_todo (dw_procs w p))"
  shows "locked_by w p r" and "pr_todo (dw_procs w p) \<in> {[A_Pending r], [A_Outstanding r]}"
    and "pr_kind (dw_procs w p) = P_Drive r" and "pr_guarded (dw_procs w p)"
  using assms settle_only[OF assms(1), of "A_Pending r" p r] settle_only[OF assms(1), of "A_Outstanding r" p r]
  by (auto simp: machine_ok_def lock_ok_iff)

lemma handler_no_settle:
  "cancel_handler w q = Some todo \<Longrightarrow> A_Pending r \<notin> set todo \<and> A_Outstanding r \<notin> set todo"
  using handler_acts[of w q todo "A_Pending r"] handler_acts[of w q todo "A_Outstanding r"] by auto

lemma script_no_settle [simp]:
  "A_Pending r \<notin> set (cancel_subagent_of w t)" "A_Outstanding r \<notin> set (cancel_subagent_of w t)"
  using cancel_script_free[of "A_Pending r" w t] cancel_script_free[of "A_Outstanding r" w t] by auto

lemma exec_others_settle:
  assumes "exec_act now x p a w = Some (pre, w')" and "q \<noteq> p" and "b = A_Pending r \<or> b = A_Outstanding r"
    and "b \<in> set (pr_todo (dw_procs w' q))"
  shows "b \<in> set (pr_todo (dw_procs w q))"
proof (cases "plain_act a")
  case True
  from exec_plain[OF assms(1) True] assms(4) show ?thesis by (simp add: same_machine_def)
next
  case False
  have script: "b \<notin> set (drive_script t)" "b \<notin> set (fail_subagent d e)" for t d e
    using assms(3) by (auto simp: drive_script_def fail_subagent_def teardown_subtree_def)
  have canceled: "b \<in> set (pr_todo (dw_procs w q))" if "b \<in> set (pr_todo (dw_procs (cancel_process k w) q))" for k
    using that assms(3) by (auto simp: cancel_procs split: if_splits option.splits dest: handler_no_settle)
  show ?thesis using False assms(1,4) script canceled
    by (cases a) (auto simp: with_lock_def with_driver_def settle_pending_def settle_outstanding_def Let_def case_prod_beta
        resume_subagent_instance_def stop_driver_def neq_Nil_conv split: option.splits if_splits)
qed

lemma exec_locks:
  assumes m: "machine_ok w" and p: "pr_todo (dw_procs w p) = a # rest" and ex: "exec_act now x p a w = Some (pre, w')"
    and q: "locked_by w q r" and keep: "b \<in> set (pr_todo (dw_procs w' q))" "b = A_Pending r \<or> b = A_Outstanding r" and "q \<noteq> p"
  shows "locked_by w' q r"
proof (cases "plain_act a")
  case True
  from exec_plain[OF ex True] q show ?thesis by (simp add: same_machine_def locked_by_def find_driver_def)
next
  case False
  from q obtain d where d: "find_driver r w = Some d" "dv_lock d = Some q" by (auto simp: locked_by_def)
  have canceled: "locked_by (cancel_process k w) q r" if "w' = cancel_process k w" for k
  proof -
    have "k \<noteq> q \<or> pr_todo (dw_procs w k) = []"
      using keep that by (auto simp: cancel_procs split: if_splits option.splits dest: handler_no_settle)
    with d show ?thesis by (auto simp: locked_by_def cancel_process_driver)
  qed
  have own: "t \<noteq> r" if "a = A_Pending t \<or> a = A_Outstanding t" for t
    using settler(1)[OF m, of t p] p that d assms(7) by (auto simp: locked_by_def)
  show ?thesis using False ex d canceled own
    by (cases a) (auto simp: locked_by_def with_lock_def with_driver_def settle_pending_def settle_outstanding_def Let_def
        case_prod_beta resume_subagent_instance_def stop_driver_def neq_Nil_conv split: option.splits if_splits)
qed

lemma act_lock_ok:
  assumes m: "machine_ok w" and p: "pr_todo (dw_procs w p) = a # rest" and ex: "exec_act now x p a w = Some (pre, w')"
  shows "lock_ok (set_todo p (pre @ rest) w')"
  unfolding lock_ok_iff
proof (intro allI impI)
  fix q r
  assume "A_Pending r \<in> set (pr_todo (dw_procs (set_todo p (pre @ rest) w') q))
      \<or> A_Outstanding r \<in> set (pr_todo (dw_procs (set_todo p (pre @ rest) w') q))"
  then obtain b where b: "b = A_Pending r \<or> b = A_Outstanding r" "b \<in> set (pr_todo (dw_procs (set_todo p (pre @ rest) w') q))"
    by auto
  have "locked_by w' q r"
  proof (cases "q = p")
    case False
    with b(2) have b2: "b \<in> set (pr_todo (dw_procs w' q))" by simp
    from exec_others_settle[OF ex False b(1) b2] b(1) settler(1)[OF m, of r q] have "locked_by w q r" by auto
    from exec_locks[OF m p ex this b2 b(1) False] show ?thesis .
  next
    case True
    have "b \<notin> set rest"
      using settle_only[OF m, of b p r] b(1) p by auto
    with b(2) True have "b \<in> set pre" by simp
    moreover have "locked_by w p r" if "a = A_Pending r" using settler(1)[OF m, of r p] that p by auto
    ultimately show ?thesis using ex b(1) True
      by (cases "(now, x, p, a, w)" rule: exec_act.cases)
        (auto simp: locked_by_def with_lock_def with_driver_def settle_pending_def settle_outstanding_def Let_def
          case_prod_beta resume_subagent_instance_def resume_target_instance_def stop_driver_def finish_followup_def
          cancel_matching_jobs_def split: option.splits if_splits list.splits)
  qed
  then show "locked_by (set_todo p (pre @ rest) w') q r" by (simp add: locked_by_def)
qed

lemma cancel_todo_live:
  "pr_todo (dw_procs (cancel_process k w) q) \<noteq> [] \<Longrightarrow> pr_todo (dw_procs w q) \<noteq> []"
  by (auto simp: cancel_procs split: if_splits option.splits)

lemma cancel_kind [simp]: "pr_kind (dw_procs (cancel_process k w) q) = pr_kind (dw_procs w q)"
  by (auto simp: cancel_procs split: option.splits)

lemma live_task:
  assumes "machine_ok w" and "pr_todo (dw_procs w q) \<noteq> []" and "pr_kind (dw_procs w q) = P_Drive r \<or> pr_kind (dw_procs w q) = P_Fail r"
    and "find_driver r w = Some d" and "dv_open d"
  shows "dv_task d = Some q"
  using assms unfolding machine_ok_def task_ok_def by blast

fun moves_task :: "act \<Rightarrow> bool" where
  "moves_task (A_Pending r) \<longleftrightarrow> True"
| "moves_task (A_Outstanding r) \<longleftrightarrow> True"
| "moves_task (A_Kick_Lock r) \<longleftrightarrow> True"
| "moves_task _ \<longleftrightarrow> False"

lemma exec_keeps_tasks:
  assumes "exec_act now x p a w = Some (pre, w')" and "\<not> moves_task a"
  shows "(find_driver r w' = Some d \<longrightarrow> dv_open d \<longrightarrow> (\<exists>e. find_driver r w = Some e \<and> dv_open e \<and> dv_task e = dv_task d))
    \<and> (pr_todo (dw_procs w' q) \<noteq> [] \<longrightarrow> pr_todo (dw_procs w q) \<noteq> []) \<and> pr_kind (dw_procs w' q) = pr_kind (dw_procs w q)"
proof (cases "plain_act a")
  case True
  with exec_plain[OF assms(1)] show ?thesis by (auto simp: same_machine_def find_driver_def)
next
  case False
  with assms show ?thesis
    by (cases "(now, x, p, a, w)" rule: exec_act.cases)
      (auto simp: with_lock_def with_driver_def stop_driver_def cancel_process_driver
        split: option.splits if_splits dest: cancel_todo_live)
qed

lemma act_task_ok:
  assumes m: "machine_ok w" and p: "pr_todo (dw_procs w p) = a # rest" and ex: "exec_act now x p a w = Some (pre, w')"
  shows "task_ok (set_todo p (pre @ rest) w')"
  unfolding task_ok_def
proof (intro allI impI)
  fix q r d
  let ?u = "set_todo p (pre @ rest) w'"
  assume live: "pr_todo (dw_procs ?u q) \<noteq> []" and kind: "pr_kind (dw_procs ?u q) = P_Drive r \<or> pr_kind (dw_procs ?u q) = P_Fail r"
    and d: "find_driver r ?u = Some d" "dv_open d"
  note lt = live_task[OF m]
  have rest: "rest = []" and kp: "pr_kind (dw_procs w p) = P_Drive t" if "a = A_Pending t \<or> a = A_Outstanding t" for t
    using settle_only[OF m, of a p t] that p by auto
  show "dv_task d = Some q"
  proof (cases "moves_task a")
    case False
    note k = exec_keeps_tasks[OF ex False, of r d q]
    obtain e where e: "find_driver r w = Some e" "dv_open e" "dv_task e = dv_task d" using k d by auto
    have "pr_todo (dw_procs w q) \<noteq> []" using live p k by (auto split: if_splits)
    moreover have "pr_kind (dw_procs w q) = P_Drive r \<or> pr_kind (dw_procs w q) = P_Fail r" using kind k by (auto split: if_splits)
    ultimately show ?thesis using lt[OF _ _ e(1,2)] e(3) by simp
  next
    case True
    then show ?thesis
    proof (cases a)
      case (A_Pending t)
      with ex obtain e where e: "find_driver t w = Some e" "settle_pending t e w = (pre, w')" by (auto simp: with_driver_def)
      have "dv_task e = Some p" if "dv_open e" using lt[OF _ _ e(1) that] p kp A_Pending by simp
      then have q: "q = p" if "r = t" "pr_todo (dw_procs w q) \<noteq> []" "pr_kind (dw_procs w q) = P_Drive t \<or> pr_kind (dw_procs w q) = P_Fail t" "dv_open e"
        using lt[OF that(2,3) e(1) that(4)] that(4) by simp
      show ?thesis
      proof (cases "w' = w")
        case True
        with live kind d p lt[of q r d] show ?thesis by (auto split: if_splits)
      next
        case False
        with e have pre: "pre = []" by (auto simp: settle_pending_def Let_def case_prod_beta split: if_splits)
        have "q \<noteq> p" using live pre rest A_Pending by auto
        have w': "find_driver r w' = (if r = t then Some (e\<lparr>dv_relaunch_attempts := Suc (dv_relaunch_attempts e),
               dv_task := Some (dw_next w), dv_lock := None\<rparr>) else find_driver r w)"
          "q \<noteq> dw_next w \<Longrightarrow> dw_procs w' q = dw_procs w q"
          "pr_kind (dw_procs w' (dw_next w)) = P_Drive t \<or> pr_kind (dw_procs w' (dw_next w)) = P_Fail t"
          using e(2) False by (auto simp: settle_pending_def Let_def case_prod_beta split: if_splits)
        show ?thesis
        proof (cases "q = dw_next w")
          case True
          with w'(1,3) kind d \<open>q \<noteq> p\<close> show ?thesis by (auto split: if_splits)
        next
          case False
          with w'(1,2) kind d live \<open>q \<noteq> p\<close> q lt[of q r d] show ?thesis by (auto split: if_splits)
        qed
      qed
    next
      case (A_Outstanding t)
      with ex obtain e where e: "find_driver t w = Some e" "settle_outstanding t e w = (pre, w')" by (auto simp: with_driver_def)
      have "dv_task e = Some p" if "dv_open e" using lt[OF _ _ e(1) that] p kp A_Outstanding by simp
      moreover have "q = p" if "r = t" "pr_todo (dw_procs w q) \<noteq> []" "pr_kind (dw_procs w q) = P_Drive t \<or> pr_kind (dw_procs w q) = P_Fail t" "dv_open e"
        using lt[OF that(2,3) e(1) that(4)] calculation that(4) by simp
      moreover have "dw_procs w' = dw_procs w" using e(2) by (auto simp: settle_outstanding_def split: if_splits)
      moreover have "r = t \<Longrightarrow> dv_open e \<and> (dv_task d = dv_task e \<or> pre = [])" "r \<noteq> t \<Longrightarrow> find_driver r w = Some d"
        using e(2) d by (auto simp: settle_outstanding_def split: if_splits)
      moreover have "pr_todo (dw_procs w q) \<noteq> []" "pr_kind (dw_procs w q) = P_Drive r \<or> pr_kind (dw_procs w q) = P_Fail r"
        and "q = p \<Longrightarrow> pre \<noteq> []"
        using live kind calculation(3) rest A_Outstanding p by (auto split: if_splits)
      ultimately show ?thesis using lt[of q r d] d(2) e(1) by (cases "r = t") auto
    next
      case (A_Kick_Lock t)
      with ex obtain e where e: "find_driver t w = Some e" "resume_subagent_instance t e w = (pre, w')"
        by (auto simp: with_lock_def split: option.splits if_splits)
      show ?thesis
      proof (cases "task_running w (dv_task e)")
        case True
        with e(2) have "w' = w" by (simp add: resume_subagent_instance_def)
        with live kind d p lt[of q r d] show ?thesis by (auto split: if_splits)
      next
        case False
        then have w': "find_driver r w' = (if r = t then Some (e\<lparr>dv_task := Some (dw_next w)\<rparr>) else find_driver r w)"
          "dw_procs w' q = (if q = dw_next w then \<lparr>pr_kind = P_Drive t, pr_started = False, pr_guarded = True,
             pr_todo = drive_script t\<rparr> else dw_procs w q)"
          using e(2) by (auto simp: resume_subagent_instance_def case_prod_beta)
        have "p \<noteq> dw_next w" using m p by (auto simp: machine_ok_def fresh_ok_def)
        have none: "\<not> (pr_kind (dw_procs w q) = P_Drive t \<or> pr_kind (dw_procs w q) = P_Fail t)"
          if "pr_todo (dw_procs w q) \<noteq> []" "dv_open e"
          using lt[OF that(1) _ e(1) that(2)] False that(1) by (auto simp: task_running_def proc_done_def)
        show ?thesis
        proof (cases "q = dw_next w")
          case True
          with w' kind d \<open>p \<noteq> dw_next w\<close> show ?thesis by (auto split: if_splits)
        next
          case False
          then have same: "pr_kind (dw_procs ?u q) = pr_kind (dw_procs w q)" and "pr_todo (dw_procs w q) \<noteq> []"
            using w'(2) live p by (auto split: if_splits)
          with none kind d w'(1) lt[of q r d] show ?thesis by (cases "r = t") auto
        qed
      qed
    qed simp_all
  qed
qed

lemma live_below:
  assumes "machine_ok w" and "pr_todo (dw_procs w p) \<noteq> []"
  shows "p < dw_next w"
proof (rule ccontr)
  assume "\<not> p < dw_next w"
  then have "dw_next w \<le> p" by simp
  with assms show False unfolding machine_ok_def fresh_ok_def by blast
qed

lemma exec_new:
  assumes "exec_act now x p a w = Some (pre, w')"
  shows "dw_next w \<le> dw_next w' \<and> (\<forall>q. dw_next w' \<le> q \<longrightarrow> pr_todo (dw_procs w q) = [] \<longrightarrow> pr_todo (dw_procs w' q) = [])"
proof (cases "plain_act a")
  case True
  with exec_plain[OF assms] show ?thesis by (simp add: same_machine_def)
next
  case False
  have c: "pr_todo (dw_procs w q) = [] \<Longrightarrow> pr_todo (dw_procs (cancel_process k w) q) = []" for k q
    using cancel_todo_live by blast
  from False assms c show ?thesis
    by (cases a) (auto simp: with_lock_def with_driver_def settle_pending_def settle_outstanding_def Let_def
        case_prod_beta resume_subagent_instance_def stop_driver_def neq_Nil_conv
        split: option.splits if_splits)
qed

lemma exec_task_new:
  assumes "exec_act now x p a w = Some (pre, w')" and "find_driver r w' = Some d'" and "dv_task d' = Some k"
  shows "(\<exists>d. find_driver r w = Some d \<and> dv_task d = Some k) \<or> k = dw_next w \<and> dw_next w' = Suc (dw_next w)"
proof (cases "plain_act a")
  case True
  with exec_plain[OF assms(1)] assms(2,3) show ?thesis by (auto simp: same_machine_def find_driver_def)
next
  case False
  with assms show ?thesis
    by (cases a) (auto simp: with_lock_def with_driver_def settle_pending_def settle_outstanding_def Let_def
        case_prod_beta resume_subagent_instance_def stop_driver_def neq_Nil_conv cancel_process_driver
        split: option.splits if_splits)
qed

lemma act_fresh_ok:
  assumes m: "machine_ok w" and p: "pr_todo (dw_procs w p) = a # rest" and ex: "exec_act now x p a w = Some (pre, w')"
  shows "fresh_ok (set_todo p (pre @ rest) w')"
  unfolding fresh_ok_def
proof (intro conjI allI impI)
  note new = exec_new[OF ex]
  have pn: "p < dw_next w'" using live_below[OF m, of p] p new by simp
  have f: "pr_todo (dw_procs w q) = []" if "dw_next w \<le> q" for q using m that by (simp add: machine_ok_def fresh_ok_def)
  fix q
  assume "dw_next (set_todo p (pre @ rest) w') \<le> q"
  with new f[of q] pn show "pr_todo (dw_procs (set_todo p (pre @ rest) w') q) = []" by auto
next
  fix r d k
  assume d: "find_driver r (set_todo p (pre @ rest) w') = Some d" "dv_task d = Some k"
  have t: "k < dw_next w" if "find_driver r w = Some e" "dv_task e = Some k" for e
    using m that unfolding machine_ok_def fresh_ok_def by blast
  from exec_task_new[OF ex, of r d k] d t exec_new[OF ex] show "k < dw_next (set_todo p (pre @ rest) w')" by fastforce
qed

lemma act_drivers_ok:
  assumes m: "machine_ok w" and ok: "act_ok w a" and ex: "exec_act now x p a w = Some (pre, w')"
  shows "drivers_ok w'"
  unfolding drivers_ok_def
proof (intro allI impI)
  fix r d'
  assume d': "find_driver r w' = Some d'"
  note st = exec_tables[OF ex ok, unfolded tables_step_def tasks_kept_def] and dr = exec_drivers[OF ex]
  from dr[unfolded drivers_step_def, rule_format, of r] d' obtain d where d: "find_driver r w = Some d"
    and same: "dv_snapshot d' = dv_snapshot d" "dv_context d' = dv_context d"
    and op: "dv_open d' = dv_open d \<or> a = A_Cleanup r \<and> \<not> dv_open d'"
    by (auto split: option.splits)
  have old: "dv_run d = r \<and> dv_instance d = subagent_instance_id r \<and> r \<in> tk_run_id ` set (dw_tasks w)
      \<and> (\<forall>t\<in>set (dw_tasks w). tk_run_id t = r \<longrightarrow> tk_parent_instance t = dv_parent d) \<and> (dv_open d \<or> ended (dw_tasks w) r)"
    using m d by (simp add: machine_ok_def drivers_ok_def)
  have "r \<in> tk_run_id ` set (dw_tasks w')" using old st by (metis set_map)
  moreover have "tk_parent_instance t = dv_parent d" if t: "t \<in> set (dw_tasks w')" "tk_run_id t = r" for t
  proof -
    from t obtain k where k: "k < length (dw_tasks w')" "dw_tasks w' ! k = t" by (auto simp: in_set_conv_nth)
    have l: "length (dw_tasks w') = length (dw_tasks w)" using st map_eq_imp_length_eq by metis
    have "tk_run_id (dw_tasks w ! k) = tk_run_id t" "tk_parent_instance (dw_tasks w ! k) = tk_parent_instance t"
      using st k l by (metis nth_map)+
    with old t k l nth_mem[of k "dw_tasks w"] show ?thesis by auto
  qed
  moreover have "dv_open d' \<or> ended (dw_tasks w') r" using op old st ok by auto
  ultimately show "dv_run d' = r \<and> dv_instance d' = subagent_instance_id r \<and> r \<in> tk_run_id ` set (dw_tasks w')
      \<and> (\<forall>t\<in>set (dw_tasks w'). tk_run_id t = r \<longrightarrow> tk_parent_instance t = dv_parent d') \<and> (dv_open d' \<or> ended (dw_tasks w') r)"
    using old driver_same[OF same] by simp
qed

lemma evolves_set_todo: "evolves w' (set_todo p t w')"
  by (simp add: evolves_def)

text \<open>A process never cancels itself under guard.\<close>

lemma exec_self:
  assumes m: "machine_ok w" and started: "pr_started (dw_procs w p)" and p: "pr_todo (dw_procs w p) = a # rest"
    and ex: "exec_act now x p a w = Some (pre, w')"
  shows "(dw_procs w' p)\<lparr>pr_todo := t\<rparr> = (dw_procs w p)\<lparr>pr_todo := t\<rparr>"
proof (cases "plain_act a")
  case True
  with exec_plain[OF ex] show ?thesis by (simp add: same_machine_def)
next
  case False
  have "p \<noteq> dw_next w" using live_below[OF m, of p] p by auto
  have "kind_ok w (dw_procs w p)" using m p unfolding machine_ok_def proc_ok_def by (metis list.distinct(1))
  then have "\<not> pr_guarded (dw_procs w p)" if "(\<exists>k. a = A_Cancel_Job k) \<or> (\<exists>rs l ds. a = A_Stop rs l ds)"
    using that p by (auto simp: kind_ok_def drive_todo_def drive_script_def job_todo_def split: if_splits proc_kind.splits)
  then have "(dw_procs (cancel_process k w) p)\<lparr>pr_todo := t\<rparr> = (dw_procs w p)\<lparr>pr_todo := t\<rparr>"
    if "(\<exists>k. a = A_Cancel_Job k) \<or> (\<exists>rs l ds. a = A_Stop rs l ds)" for k
    using that started by (auto simp: cancel_procs cancel_handler_def)
  with False ex \<open>p \<noteq> dw_next w\<close> show ?thesis
    by (cases "(now, x, p, a, w)" rule: exec_act.cases)
      (auto simp: with_lock_def with_driver_def settle_pending_def settle_outstanding_def Let_def
        case_prod_beta resume_subagent_instance_def stop_driver_def split: option.splits if_splits)
qed

lemma act_machine:
  assumes m: "machine_ok w" and started: "pr_started (dw_procs w p)" and p: "pr_todo (dw_procs w p) = a # rest"
    and ex: "exec_act now x p a w = Some (pre, w')"
  shows "machine_ok (set_todo p (pre @ rest) w')"
proof -
  let ?u = "set_todo p (pre @ rest) w'"
  have pok: "kind_ok w (dw_procs w p) \<and> (\<forall>b\<in>set (a # rest). act_ok w b)"
    using m p unfolding machine_ok_def proc_ok_def by (metis list.distinct(1))
  then have ok: "act_ok w a" by simp
  note ev = act_evolves[OF ex ok] and tb = exec_tables[OF ex ok]
  have t: "tables_ok (dw_tasks w) (dw_jobs w) (dw_notices w)" and d: "drivers_ok w" using m by (simp_all add: machine_ok_def)
  have "proc_ok ?u (dw_procs ?u q)" for q
  proof (cases "q = p")
    case False
    from exec_procs_ok[OF m p ex ok False] False proc_ok_mono[OF evolves_set_todo] show ?thesis by simp
  next
    case True
    let ?q = "(dw_procs w p)\<lparr>pr_todo := pre @ rest\<rparr>"
    have "kind_ok w' ?q"
      using kind_ok_mono[OF ev exec_kind[OF d _ p ex]] pok by simp
    moreover have "\<forall>b\<in>set (pre @ rest). act_ok w' b"
      using exec_pre_ok[OF t d ok ex] act_ok_mono[OF ev] pok by auto
    ultimately have "proc_ok w' ?q" using started by (simp add: proc_ok_def)
    from proc_ok_mono[OF evolves_set_todo this] True exec_self[OF m started p ex] show ?thesis by simp
  qed
  moreover have "drivers_ok ?u" using act_drivers_ok[OF m ok ex] by (simp add: drivers_ok_def)
  ultimately show ?thesis
    using tables_ok_step[OF t tb] act_lock_ok[OF m p ex] act_task_ok[OF m p ex] act_fresh_ok[OF m p ex]
    by (simp add: machine_ok_def)
qed

end
