(* ===== verification/Delegation_Steps.thy ===== *)
theory Delegation_Steps
  imports Delegation_Safety
begin

text \<open>
  Every step of the drivers' machine keeps its invariants: the start of sub-agents and commands, turns and
  what they do to the notifications, the ends of commands, and the clients that cancel.
\<close>

section \<open>Steps that change one process, or the tables\<close>

lemma machine_kind: "machine_ok w \<Longrightarrow> pr_todo (dw_procs w p) \<noteq> [] \<Longrightarrow> kind_ok w (dw_procs w p)"
  unfolding machine_ok_def proc_ok_def by blast

lemma machine_process:
  assumes m: "machine_ok w" and live: "pr_todo (dw_procs w p) \<noteq> []" and q: "proc_ok w q"
    and kind: "pr_kind q = pr_kind (dw_procs w p)"
    and settle: "\<And>b r. b = A_Pending r \<or> b = A_Outstanding r \<Longrightarrow> b \<in> set (pr_todo q) \<Longrightarrow> b \<in> set (pr_todo (dw_procs w p))"
  shows "machine_ok (w\<lparr>dw_procs := (dw_procs w)(p := q)\<rparr>)"
proof -
  let ?u = "w\<lparr>dw_procs := (dw_procs w)(p := q)\<rparr>"
  have f: "find_driver r ?u = find_driver r w" for r by (simp add: find_driver_def)
  have ev: "evolves w ?u" by (simp add: evolves_def f)
  have "proc_ok ?u (dw_procs ?u k)" for k
    using m q proc_ok_mono[OF ev] by (simp add: machine_ok_def)
  moreover have "drivers_ok ?u" using m by (simp add: machine_ok_def drivers_ok_def f)
  moreover have "lock_ok ?u" using m settle unfolding lock_ok_def machine_ok_def by (auto simp: f)
  moreover have "task_ok ?u" using m live kind unfolding task_ok_def machine_ok_def by (auto simp: f)
  moreover have "fresh_ok ?u" using m live_below[OF m live] unfolding fresh_ok_def machine_ok_def by (auto simp: f)
  ultimately show ?thesis using m by (simp add: machine_ok_def)
qed

lemma machine_tables:
  assumes m: "machine_ok w" and same: "same_machine w w'" and st: "tables_step w w'"
  shows "machine_ok w'"
proof -
  have f: "find_driver r w' = find_driver r w" and pr: "dw_procs w' = dw_procs w" and nx: "dw_next w' = dw_next w" for r
    using same by (simp_all add: same_machine_def find_driver_def)
  have ev: "evolves w w'" using st evolves_step[OF st drivers_step_same] same by (simp add: same_machine_def)
  have "drivers_ok w'"
    unfolding drivers_ok_def f
  proof (intro allI impI)
    fix r d
    assume d: "find_driver r w = Some d"
    have old: "dv_run d = r \<and> dv_instance d = subagent_instance_id r \<and> r \<in> tk_run_id ` set (dw_tasks w)
        \<and> (\<forall>t\<in>set (dw_tasks w). tk_run_id t = r \<longrightarrow> tk_parent_instance t = dv_parent d) \<and> (dv_open d \<or> ended (dw_tasks w) r)"
      using m d by (simp add: machine_ok_def drivers_ok_def)
    note tk = st[unfolded tables_step_def tasks_kept_def]
    have zip: "\<exists>u\<in>set (dw_tasks w). tk_run_id u = tk_run_id t \<and> tk_parent_instance u = tk_parent_instance t"
      if "t \<in> set (dw_tasks w')" for t
    proof -
      from that obtain k where k: "k < length (dw_tasks w')" "dw_tasks w' ! k = t" by (auto simp: in_set_conv_nth)
      have l: "length (dw_tasks w') = length (dw_tasks w)" using tk map_eq_imp_length_eq by metis
      have "tk_run_id (dw_tasks w ! k) = tk_run_id t" "tk_parent_instance (dw_tasks w ! k) = tk_parent_instance t"
        using tk k l by (metis nth_map)+
      with k l show ?thesis by (metis nth_mem)
    qed
    have "r \<in> tk_run_id ` set (dw_tasks w')" using old tk by (metis set_map)
    with old tk zip show "dv_run d = r \<and> dv_instance d = subagent_instance_id r \<and> r \<in> tk_run_id ` set (dw_tasks w')
        \<and> (\<forall>t\<in>set (dw_tasks w'). tk_run_id t = r \<longrightarrow> tk_parent_instance t = dv_parent d) \<and> (dv_open d \<or> ended (dw_tasks w') r)"
      by metis
  qed
  moreover have "proc_ok w' (dw_procs w' k)" for k using m proc_ok_mono[OF ev] by (simp add: machine_ok_def pr)
  moreover have "lock_ok w'" "task_ok w'" "fresh_ok w'"
    using m by (simp_all add: machine_ok_def lock_ok_def task_ok_def fresh_ok_def f pr nx)
  ultimately show ?thesis using m tables_ok_step[OF _ st] by (simp add: machine_ok_def)
qed

lemma machine_only:
  assumes m: "machine_ok w" and "dw_drivers w' = dw_drivers w" "dw_procs w' = dw_procs w" "dw_next w' = dw_next w" "dw_tasks w' = dw_tasks w"
    and jobs: "jobs_kept (dw_jobs w) (dw_jobs w')" and tab: "tables_ok (dw_tasks w') (dw_jobs w') (dw_notices w')"
  shows "machine_ok w'"
proof -
  have f: "find_driver r w' = find_driver r w" for r using assms(2) by (simp add: find_driver_def)
  have ev: "evolves w w'" using jobs assms(5) by (simp add: evolves_def f)
  have "proc_ok w' (dw_procs w' k)" for k using m proc_ok_mono[OF ev] assms(3) by (simp add: machine_ok_def)
  with tab assms show ?thesis
    by (simp add: machine_ok_def lock_ok_def task_ok_def fresh_ok_def drivers_ok_def f)
qed

lemma machine_spawn:
  assumes m: "machine_ok w" and q: "proc_ok w \<lparr>pr_kind = k, pr_started = False, pr_guarded = g, pr_todo = todo\<rparr>"
    and kind: "\<forall>r. k \<noteq> P_Drive r \<and> k \<noteq> P_Fail r" and settle: "\<forall>r. A_Pending r \<notin> set todo \<and> A_Outstanding r \<notin> set todo"
  shows "machine_ok (snd (spawn k g todo w))"
proof -
  let ?u = "snd (spawn k g todo w)"
  have ev: "evolves w ?u" by (simp add: evolves_def)
  have "proc_ok ?u (dw_procs ?u p)" for p
    using m q proc_ok_mono[OF ev] by (simp add: machine_ok_def)
  moreover have "lock_ok ?u" using m settle unfolding lock_ok_def machine_ok_def by auto
  moreover have "task_ok ?u" using m kind unfolding task_ok_def machine_ok_def by auto
  moreover have "fresh_ok ?u" using m unfolding fresh_ok_def machine_ok_def by (auto simp: less_Suc_eq)
  moreover have "drivers_ok ?u" using m by (simp add: machine_ok_def drivers_ok_def)
  ultimately show ?thesis using m by (simp add: machine_ok_def)
qed

lemma drain_rest:
  assumes "machine_ok w" and "in_drain p r w"
  shows "pr_todo (dw_procs w p) = drive_script r \<and> (\<exists>d. find_driver r w = Some d \<and> dv_run d = r)"
proof -
  obtain rest where t: "pr_todo (dw_procs w p) = A_Drain r # rest" "pr_guarded (dw_procs w p)" "pr_kind (dw_procs w p) = P_Drive r"
    using assms(2) by (auto simp: in_drain_def)
  with machine_kind[OF assms(1), of p] obtain d where "find_driver r w = Some d" "drive_todo d (A_Drain r # rest)"
    by (auto simp: kind_ok_def)
  moreover from this have "dv_run d = r" using assms(1) by (simp add: machine_ok_def drivers_ok_def)
  ultimately show ?thesis using t by (auto simp: drive_todo_def drive_script_def)
qed

lemma own_op_length: "own_op s i rows op \<Longrightarrow> length (notification_exec op rows) = length rows"
  by (cases op) (simp_all add: complete_notification_def fail_notification_def)

lemma notices_kept_main:
  assumes "main_op rows op"
  shows "notices_kept rows (notification_exec op rows)"
proof (cases "length (notification_exec op rows) = length rows")
  case True
  then show ?thesis by (rule notices_kept_exec)
next
  case False
  with assms obtain k run tg c d a now where op: "op = NEnqueue k run tg c d a now"
    by (cases op) (simp_all add: complete_notification_def fail_notification_def cancel_session_notifications_def
        cancel_main_agent_interrupted_def cancel_notifications_def Let_def)
  with False obtain o' l' where e: "enqueue_user_message k run tg c d a now rows = Some (o', l')" by (auto split: option.splits)
  then have "\<exists>n. l' = rows @ [n] \<and> nt_status n = N_PENDING"
    by (auto simp: enqueue_user_message_def insert_notification_def new_notification_def Let_def split: if_splits option.splits)
  with e op exec_evolves[of rows op] show ?thesis by (auto simp: notices_kept_def awaiting_for_def)
qed

section \<open>Starting work\<close>

lemma subordinate_create:
  assumes "create_subagent_task args fresh_id ts as sc now \<lparr>sd_tasks = tasks, sd_ledger = rows\<rparr> = Some (s, db)"
  obtains t where "s = snapshot_from_task t" and "tk_run_id t = tk_run_id args" and "tk_parent_instance t = tk_parent_instance args"
    and "tk_session_id t = tk_session_id args" and "tk_status t = T_RUNNING"
    and "tk_run_id t \<notin> tk_run_id ` set tasks" and "sd_tasks db = tasks @ [t]"
    and "sd_ledger db = rows \<or> (\<exists>a. ledger_register (SUBAGENT_FINISHED, tk_run_id t) a rows = Some (sd_ledger db)
           \<and> tg_instance (fst (snd a)) = tk_parent_instance t)"
proof -
  let ?t = "args\<lparr>tk_status := T_RUNNING, tk_result := [], tk_error := [], tk_progress := [], tk_created_at := now,
    tk_updated_at := now, tk_started_at := Some now, tk_finished_at := None\<rparr>"
  note unfolded = assms[unfolded create_subagent_task_def Let_def]
  have "s = snapshot_from_task ?t" "tk_run_id args \<notin> tk_run_id ` set tasks" "sd_tasks db = tasks @ [?t]"
    using unfolded by (auto split: if_splits option.splits)
  moreover have "sd_ledger db = rows \<or> (\<exists>a. ledger_register (SUBAGENT_FINISHED, tk_run_id args) a rows = Some (sd_ledger db)
      \<and> tg_instance (fst (snd a)) = tk_parent_instance args)"
    using unfolded by (fastforce simp: task_target_def split: if_splits option.splits)
  ultimately show thesis using that[of ?t] by simp
qed

lemma job_create:
  assumes "create_async_job args fresh_id ts as sc now \<lparr>jd_jobs = jobs, jd_ledger = rows\<rparr> = Some (j, db)"
  obtains a where "aj_run_id j = aj_run_id args" and "aj_instance j = aj_instance args" and "aj_run_id j \<notin> aj_run_id ` set jobs"
    and "jd_jobs db = jobs @ [j]" and "ledger_register (SANDBOX_ASYNC_JOB_FINISHED, aj_run_id j) a rows = Some (jd_ledger db)"
    and "tg_instance (fst (snd a)) = aj_instance j"
  using assms by (auto simp: create_async_job_def snapshot_from_job_def job_target_def Let_def split: if_splits option.splits)

lemma registered_awaiting:
  assumes "ledger_register (kind, run) a rows = Some rows'"
  shows "awaiting_for rows' k r i \<longleftrightarrow> awaiting_for rows k r i \<or> k = kind \<and> r = run \<and> i = tg_instance (fst (snd a))"
    and "pend rows' s i \<longleftrightarrow> pend rows s i"
    and "\<not> awaiting_for rows kind run j"
proof -
  obtain f tg p now where a: "a = (f, tg, p, now)" by (metis prod_cases4)
  from assms a have l: "rows' = rows @ [new_notification f kind tg run p N_AWAITING SYSTEM_NOTIFICATION_PRIORITY now]"
    and n: "\<forall>n\<in>set rows. \<not> (nt_kind n = kind \<and> nt_run_id n = run)"
    by (auto simp: ledger_register_def add_obligation_def insert_notification_def new_notification_def split: if_splits)
  show "awaiting_for rows' k r i \<longleftrightarrow> awaiting_for rows k r i \<or> k = kind \<and> r = run \<and> i = tg_instance (fst (snd a))"
    by (auto simp: l a awaiting_for_def new_notification_def)
  show "pend rows' s i \<longleftrightarrow> pend rows s i" by (auto simp: l pend_def new_notification_def)
  show "\<not> awaiting_for rows kind run j" using n by (auto simp: awaiting_for_def)
qed

text \<open>Every awaiting obligation of a task belongs to a row.\<close>

definition obliged :: "delegation_world \<Rightarrow> bool" where
  "obliged w \<longleftrightarrow> (\<forall>run i. awaiting_for (dw_notices w) SUBAGENT_FINISHED run i \<longrightarrow> run \<in> tk_run_id ` set (dw_tasks w))"

lemma obliged_step:
  assumes "obliged w" and "tables_step w w'" and "unique_ok (dw_notices w)"
  shows "obliged w'"
  unfolding obliged_def
proof (intro allI impI)
  fix run i
  assume "awaiting_for (dw_notices w') SUBAGENT_FINISHED run i"
  with assms(2,3) have "awaiting_for (dw_notices w) SUBAGENT_FINISHED run i" unfolding tables_step_def notices_kept_def by blast
  with assms(1) have "run \<in> tk_run_id ` set (dw_tasks w)" unfolding obliged_def by blast
  with assms(2) show "run \<in> tk_run_id ` set (dw_tasks w')" unfolding tables_step_def tasks_kept_def by (metis set_map)
qed

lemma started_tables:
  assumes t: "tables_ok tasks jobs rows" and ob: "\<forall>run i. awaiting_for rows SUBAGENT_FINISHED run i \<longrightarrow> run \<in> tk_run_id ` set tasks"
    and new: "tk_run_id x \<notin> tk_run_id ` set tasks"
    and l: "rows' = rows \<or> (\<exists>a. ledger_register (SUBAGENT_FINISHED, tk_run_id x) a rows = Some rows' \<and> tg_instance (fst (snd a)) = tk_parent_instance x)"
  shows "tables_ok (tasks @ [x]) jobs rows'"
proof -
  have u: "unique_ok rows'" using l t register_unique by (auto simp: tables_ok_def)
  have aw: "awaiting_for rows' k r i \<Longrightarrow> awaiting_for rows k r i \<or> k = SUBAGENT_FINISHED \<and> r = tk_run_id x \<and> i = tk_parent_instance x" for k r i
    using l registered_awaiting(1) by blast
  have "linked rows' SUBAGENT_FINISHED tk_run_id tk_parent_instance (tasks @ [x])"
    unfolding linked_iff
  proof (intro allI impI ballI)
    fix run i y
    assume a: "awaiting_for rows' SUBAGENT_FINISHED run i" and y: "y \<in> set (tasks @ [x])" "tk_run_id y = run"
    from aw[OF a] show "i = tk_parent_instance y"
    proof
      assume old: "awaiting_for rows SUBAGENT_FINISHED run i"
      then have "y \<noteq> x" using ob new y(2) by auto
      with y t old show ?thesis by (auto simp: tables_ok_def linked_iff)
    next
      assume "SUBAGENT_FINISHED = SUBAGENT_FINISHED \<and> run = tk_run_id x \<and> i = tk_parent_instance x"
      moreover have "y \<notin> set tasks" using new y(2) calculation by (metis image_eqI)
      ultimately show ?thesis using y by auto
    qed
  qed
  moreover have "linked rows' SANDBOX_ASYNC_JOB_FINISHED aj_run_id aj_instance jobs"
    using t aw unfolding tables_ok_def linked_iff by blast
  ultimately show ?thesis using t new u by (auto simp: tables_ok_def)
qed

text \<open>What the start of a sub-agent changes.\<close>

lemma start_effects:
  assumes m: "machine_ok w"
    and st: "start_subagent_task_run cx (start_row cx parent_code code name brief nested run_id) fresh_id now w = Some w'"
  obtains t d where "tk_run_id t = run_id" and "run_id \<notin> tk_run_id ` set (dw_tasks w)" and "dw_tasks w' = dw_tasks w @ [t]"
    and "dw_jobs w' = dw_jobs w" and "dw_next w' = Suc (dw_next w)" and "dw_cut w' = dw_cut w"
    and "dw_notices w' = dw_notices w \<or> (\<exists>a. ledger_register (SUBAGENT_FINISHED, run_id) a (dw_notices w) = Some (dw_notices w')
           \<and> tg_instance (fst (snd a)) = tk_parent_instance t)"
    and "\<And>r. find_driver r w' = (if r = run_id then Some d else find_driver r w)" and "find_driver run_id w = None"
    and "\<And>p. dw_procs w' p = (if p = dw_next w
           then \<lparr>pr_kind = P_Drive run_id, pr_started = False, pr_guarded = True, pr_todo = drive_script run_id\<rparr> else dw_procs w p)"
    and "dv_run d = run_id" and "dv_instance d = subagent_instance_id run_id" and "dv_parent d = tk_parent_instance t"
    and "dv_open d" and "dv_task d = Some (dw_next w)"
proof -
  obtain s db where c: "create_subagent_task (start_row cx parent_code code name brief nested run_id) fresh_id (rx_targets cx) (rx_actions cx)
      (rx_scope cx) now \<lparr>sd_tasks = dw_tasks w, sd_ledger = dw_notices w\<rparr> = Some (s, db)"
    using st by (auto simp: start_subagent_task_run_def split: option.splits)
  from subordinate_create[OF c] obtain t where t: "s = snapshot_from_task t" "tk_run_id t = run_id" "tk_parent_instance t = rx_instance cx"
    "tk_run_id t \<notin> tk_run_id ` set (dw_tasks w)" "sd_tasks db = dw_tasks w @ [t]"
    "sd_ledger db = dw_notices w \<or> (\<exists>a. ledger_register (SUBAGENT_FINISHED, tk_run_id t) a (dw_notices w) = Some (sd_ledger db)
           \<and> tg_instance (fst (snd a)) = tk_parent_instance t)"
    by (metis start_row_def subordinate_task.simps(1,4))
  let ?d = "\<lparr>dv_snapshot = s, dv_context = subagent_context cx s (tk_agent_code s), dv_task = Some (dw_next w), dv_lock = None,
     dv_relaunch_attempts = 0, dv_open = True\<rparr>"
  have run: "tk_run_id s = run_id" by (simp add: t snapshot_from_task_def)
  have w': "find_driver r w' = (if r = run_id then Some ?d else find_driver r w)"
    "dw_procs w' p = (if p = dw_next w then \<lparr>pr_kind = P_Drive run_id, pr_started = False, pr_guarded = True, pr_todo = drive_script run_id\<rparr>
       else dw_procs w p)"
    "dw_tasks w' = dw_tasks w @ [t]" "dw_jobs w' = dw_jobs w" "dw_notices w' = sd_ledger db" "dw_next w' = Suc (dw_next w)"
    "dw_cut w' = dw_cut w" for r p
    using st c t(5) run by (auto simp: start_subagent_task_run_def case_prod_beta Let_def find_driver_def set_driver_def
        spawn_drive_def spawn_def update_conv')
  have "find_driver run_id w = None"
    using m t(2,4) by (cases "find_driver run_id w") (auto simp: machine_ok_def drivers_ok_def)
  moreover have "dv_run ?d = run_id" "dv_instance ?d = subagent_instance_id run_id" "dv_parent ?d = tk_parent_instance t"
    by (simp_all add: dv_run_def dv_instance_def dv_parent_def subagent_context_def run) (simp add: t(1) snapshot_from_task_def)
  ultimately show thesis using that[of t ?d] t(2,4,6) w' by simp
qed

lemma machine_start:
  assumes m: "machine_ok w" and ob: "obliged w"
    and st: "start_subagent_task_run cx (start_row cx parent_code code name brief nested run_id) fresh_id now w = Some w'"
  shows "machine_ok w' \<and> obliged w' \<and> evolves w w'"
proof -
  from start_effects[OF m st] obtain t d' where t: "tk_run_id t = run_id" "run_id \<notin> tk_run_id ` set (dw_tasks w)"
    and l: "dw_notices w' = dw_notices w \<or> (\<exists>a. ledger_register (SUBAGENT_FINISHED, run_id) a (dw_notices w) = Some (dw_notices w')
           \<and> tg_instance (fst (snd a)) = tk_parent_instance t)"
    and w': "dw_tasks w' = dw_tasks w @ [t]" "dw_jobs w' = dw_jobs w" "dw_next w' = Suc (dw_next w)"
      "\<And>r. find_driver r w' = (if r = run_id then Some d' else find_driver r w)"
      "\<And>p. dw_procs w' p = (if p = dw_next w
           then \<lparr>pr_kind = P_Drive run_id, pr_started = False, pr_guarded = True, pr_todo = drive_script run_id\<rparr> else dw_procs w p)"
    and fresh: "find_driver run_id w = None"
    and inst: "dv_run d' = run_id" "dv_instance d' = subagent_instance_id run_id" "dv_parent d' = tk_parent_instance t"
    and new: "dv_open d'" "dv_task d' = Some (dw_next w)"
    by metis
  have ev: "evolves w w'"
    using fresh t by (auto simp: evolves_def w' ended_def)
  have tab: "tables_ok (dw_tasks w') (dw_jobs w') (dw_notices w')"
    using started_tables[of "dw_tasks w" "dw_jobs w" "dw_notices w" t "dw_notices w'"] t l m ob by (simp add: machine_ok_def obliged_def w')
  have "drivers_ok w'"
    unfolding drivers_ok_def
  proof (intro allI impI)
    fix r d
    assume d: "find_driver r w' = Some d"
    show "dv_run d = r \<and> dv_instance d = subagent_instance_id r \<and> r \<in> tk_run_id ` set (dw_tasks w')
        \<and> (\<forall>t\<in>set (dw_tasks w'). tk_run_id t = r \<longrightarrow> tk_parent_instance t = dv_parent d) \<and> (dv_open d \<or> ended (dw_tasks w') r)"
    proof (cases "r = run_id")
      case True
      have "u \<notin> set (dw_tasks w)" if "tk_run_id u = run_id" for u using t that by (metis image_eqI)
      with True d inst t(1) new show ?thesis by (auto simp: w')
    next
      case False
      with d have "find_driver r w = Some d" by (simp add: w')
      with m have "dv_run d = r \<and> dv_instance d = subagent_instance_id r \<and> r \<in> tk_run_id ` set (dw_tasks w)
        \<and> (\<forall>t\<in>set (dw_tasks w). tk_run_id t = r \<longrightarrow> tk_parent_instance t = dv_parent d) \<and> (dv_open d \<or> ended (dw_tasks w) r)"
        by (simp add: machine_ok_def drivers_ok_def)
      with False t(1) show ?thesis by (auto simp: w' ended_def)
    qed
  qed
  moreover have "proc_ok w' (dw_procs w' p)" for p
    using m proc_ok_mono[OF ev] new_drive_ok[of run_id w' d'] inst by (simp add: machine_ok_def w')
  moreover have "lock_ok w'"
    using m fresh unfolding lock_ok_def machine_ok_def by (auto simp: w' drive_script_def) (metis option.distinct(1))+
  moreover have "task_ok w'"
    unfolding task_ok_def
  proof (intro allI impI)
    fix p r d
    assume a: "pr_todo (dw_procs w' p) \<noteq> []" "pr_kind (dw_procs w' p) = P_Drive r \<or> pr_kind (dw_procs w' p) = P_Fail r"
      "find_driver r w' = Some d" "dv_open d"
    show "dv_task d = Some p"
    proof (cases "p = dw_next w")
      case True
      with a new show ?thesis by (auto simp: w')
    next
      case False
      with a have live: "pr_todo (dw_procs w p) \<noteq> []" "pr_kind (dw_procs w p) = P_Drive r \<or> pr_kind (dw_procs w p) = P_Fail r"
        by (simp_all add: w')
      with machine_kind[OF m live(1)] fresh have "r \<noteq> run_id" by (auto simp: kind_ok_def)
      with a(3,4) live_task[OF m live] show ?thesis by (simp add: w')
    qed
  qed
  moreover have "fresh_ok w'"
    using m new unfolding fresh_ok_def machine_ok_def by (auto simp: w' less_Suc_eq)
  moreover have "obliged w'"
    using ob l t(1) registered_awaiting(1) unfolding obliged_def w' by (auto, blast+)
  ultimately show ?thesis using tab ev by (simp add: machine_ok_def)
qed

lemma machine_registry [simp]: "machine_ok (w\<lparr>dw_registry := x\<rparr>) = machine_ok w"
proof
  assume "machine_ok (w\<lparr>dw_registry := x\<rparr>)"
  then show "machine_ok w" by (rule machine_only) (simp_all add: \<open>machine_ok (w\<lparr>dw_registry := x\<rparr>)\<close>[unfolded machine_ok_def, simplified])
next
  assume "machine_ok w"
  then show "machine_ok (w\<lparr>dw_registry := x\<rparr>)" by (rule machine_only) (simp_all add: \<open>machine_ok w\<close>[unfolded machine_ok_def])
qed

lemma find_kept: "List.find q xs = Some y \<Longrightarrow> List.find q (xs @ ys) = Some y"
  by (induction xs) (auto split: if_splits)

lemma machine_start_job:
  assumes m: "machine_ok w" and ob: "obliged w"
    and st: "start_async_sandbox_command args c ts as sc fresh_id now w = Some w'"
  shows "machine_ok w' \<and> obliged w'"
proof -
  obtain j db where cr: "create_async_job args fresh_id ts as sc now \<lparr>jd_jobs = dw_jobs w, jd_ledger = dw_notices w\<rparr> = Some (j, db)"
    using st by (auto simp: start_async_sandbox_command_def split: option.splits)
  from job_create[OF cr] obtain a where j: "aj_run_id j = aj_run_id args" "aj_instance j = aj_instance args"
    "aj_run_id j \<notin> aj_run_id ` set (dw_jobs w)" "jd_jobs db = dw_jobs w @ [j]"
    and reg: "ledger_register (SANDBOX_ASYNC_JOB_FINISHED, aj_run_id j) a (dw_notices w) = Some (jd_ledger db)"
    and tg: "tg_instance (fst (snd a)) = aj_instance j" by metis
  let ?v = "w\<lparr>dw_jobs := dw_jobs w @ [j], dw_notices := jd_ledger db\<rparr>"
  let ?p = "\<lparr>pr_kind = P_Job (aj_run_id j), pr_started = False, pr_guarded = True, pr_todo = [A_Job_Run (aj_run_id j)]\<rparr>"
  note aw = registered_awaiting(1)[OF reg] and fresh = registered_awaiting(3)[OF reg]
  have t: "tables_ok (dw_tasks w) (dw_jobs w) (dw_notices w)" using m by (simp add: machine_ok_def)
  have "linked (jd_ledger db) SANDBOX_ASYNC_JOB_FINISHED aj_run_id aj_instance (dw_jobs w @ [j])"
    unfolding linked_iff
  proof (intro allI impI ballI)
    fix run i y
    assume a: "awaiting_for (jd_ledger db) SANDBOX_ASYNC_JOB_FINISHED run i" and y: "y \<in> set (dw_jobs w @ [j])" "aj_run_id y = run"
    show "i = aj_instance y"
    proof (cases "run = aj_run_id j")
      case True
      then have "y = j" using y j(3) by (metis Un_iff image_eqI list.set_cases list.set(1) empty_iff set_ConsD set_append)
      with a aw fresh tg True show ?thesis by auto
    next
      case False
      with y a aw t show ?thesis by (auto simp: tables_ok_def linked_iff)
    qed
  qed
  moreover have "linked (jd_ledger db) SUBAGENT_FINISHED tk_run_id tk_parent_instance (dw_tasks w)"
    using t aw by (auto simp: tables_ok_def linked_iff)
  ultimately have tab: "tables_ok (dw_tasks ?v) (dw_jobs ?v) (dw_notices ?v)"
    using t j(3) register_unique[OF _ reg] by (simp add: tables_ok_def)
  have v: "machine_ok ?v"
  proof (rule machine_only[OF m])
    show "jobs_kept (dw_jobs w) (dw_jobs ?v)" by (auto simp: jobs_kept_def find_job_def find_kept)
  qed (use tab in simp_all)
  have "machine_ok (snd (spawn (P_Job (aj_run_id j)) True [A_Job_Run (aj_run_id j)] ?v))"
    by (rule machine_spawn[OF v]) (simp_all add: proc_ok_def kind_ok_def job_todo_def)
  moreover have "w' = (snd (spawn (P_Job (aj_run_id j)) True [A_Job_Run (aj_run_id j)] ?v))\<lparr>dw_registry := dw_registry w'\<rparr>"
    using st cr j(4) by (auto simp: start_async_sandbox_command_def case_prod_beta Let_def)
  ultimately have "machine_ok w'" by (metis machine_registry)
  moreover have "dw_tasks w' = dw_tasks w" "dw_notices w' = jd_ledger db"
    using st cr by (auto simp: start_async_sandbox_command_def case_prod_beta Let_def)
  then have "obliged w'" using ob aw by (auto simp: obliged_def)
  ultimately show ?thesis by simp
qed

section \<open>Every reachable state\<close>

lemma machine_same_tables: "obliged w \<Longrightarrow> dw_tasks w' = dw_tasks w \<Longrightarrow> dw_notices w' = dw_notices w \<Longrightarrow> obliged w'"
  by (simp add: obliged_def)

lemma machine_step:
  assumes m: "machine_ok w" and ob: "obliged w" and st: "delegation_step w w'"
  shows "machine_ok w' \<and> obliged w'"
proof -
  have tab: "tables_ok (dw_tasks w) (dw_jobs w) (dw_notices w)" and uniq: "unique_ok (dw_notices w)"
    using m by (simp_all add: machine_ok_def tables_ok_def)
  have tables: "machine_ok v \<and> obliged v" if "same_machine w v" "tables_step w v" for v
    using machine_tables[OF m that] obliged_step[OF ob that(2) uniq] by simp
  from st show ?thesis
  proof (cases rule: delegation_step.cases)
    case (begin_process p)
    have "proc_ok w ((dw_procs w p)\<lparr>pr_started := True\<rparr>)"
    proof -
      have "proc_ok w (dw_procs w p)" using m by (simp add: machine_ok_def)
      moreover have "kind_ok w ((dw_procs w p)\<lparr>pr_started := True\<rparr>) = kind_ok w (dw_procs w p)" by (simp add: kind_ok_def split: proc_kind.split)
      ultimately show ?thesis by (auto simp: proc_ok_def)
    qed
    with machine_process[OF m, of p "(dw_procs w p)\<lparr>pr_started := True\<rparr>"] begin_process ob show ?thesis by (simp add: proc_done_def obliged_def)
  next
    case (act p a rest now x todo v)
    have "act_ok w a" using m act(3) unfolding machine_ok_def proc_ok_def by (metis list.distinct(1) list.set_intros(1))
    from exec_tables[OF act(4) this] obliged_step[OF ob _ uniq] have "obliged v" by blast
    with act_machine[OF m act(2-4)] act(1) show ?thesis by (simp add: obliged_def)
  next
    case (drained p r)
    from drain_rest[OF m drained(2)] obtain d where d: "pr_todo (dw_procs w p) = drive_script r" "find_driver r w = Some d" "dv_run d = r" by auto
    have "proc_ok w ((dw_procs w p)\<lparr>pr_todo := [A_Settle r]\<rparr>)"
      using machine_kind[OF m, of p] drained(2) d by (auto simp: in_drain_def proc_ok_def kind_ok_def drive_todo_def)
    with machine_process[OF m, of p "(dw_procs w p)\<lparr>pr_todo := [A_Settle r]\<rparr>"] drained d ob show ?thesis
      by (simp add: drive_script_def set_todo_def obliged_def)
  next
    case (turn_fails p r d message)
    have "proc_ok w ((dw_procs w p)\<lparr>pr_guarded := False, pr_todo := fail_subagent d message\<rparr>)"
      using machine_kind[OF m, of p] turn_fails by (auto simp: in_drain_def proc_ok_def kind_ok_def fail_subagent_def teardown_subtree_def)
    moreover have "A_Pending k \<notin> set (fail_subagent d message)" "A_Outstanding k \<notin> set (fail_subagent d message)" for k
      by (simp_all add: fail_subagent_def teardown_subtree_def)
    ultimately have "machine_ok w'"
      unfolding turn_fails(1) by (intro machine_process[OF m]) (use turn_fails(2) in \<open>auto simp: in_drain_def\<close>)
    with turn_fails(1) ob show ?thesis by (simp add: obliged_def)
  next
    case (turn_notice p r d op)
    from tables[of w'] turn_notice(1) notices_kept_exec[OF own_op_length[OF turn_notice(4)]] show ?thesis
      by (simp add: same_machine_def tables_step_notices)
  next
    case (main_notice op)
    from tables[of w'] main_notice(1) notices_kept_main[OF main_notice(2)] show ?thesis
      by (simp add: same_machine_def tables_step_notices)
  next
    case start
    with machine_start[OF m ob] show ?thesis by blast
  next
    case start_job
    with machine_start_job[OF m ob] show ?thesis by blast
  next
    case (job_ends p run_id st code bytes nlines error)
    have "proc_ok w ((dw_procs w p)\<lparr>pr_guarded := (st = J_COMPLETED), pr_todo := [A_Job_Finish run_id st code bytes nlines error]\<rparr>)"
      using job_ends by (simp add: proc_ok_def kind_ok_def job_todo_def)
    with machine_process[OF m, of p "(dw_procs w p)\<lparr>pr_guarded := (st = J_COMPLETED), pr_todo := [A_Job_Finish run_id st code bytes nlines error]\<rparr>"] job_ends ob show ?thesis by (simp add: obliged_def)
  next
    case (job_forgotten run_id e)
    with m ob show ?thesis by (simp add: obliged_def)
  next
    case (progress r body now res db)
    have "tables_step w w'"
      using progress(2) unfolding progress(1) update_subagent_progress_def
      by (auto simp: tables_step_def Let_def split: option.splits if_splits intro!: tasks_kept_update)
    with tables[of w'] progress(1) show ?thesis by (simp add: same_machine_def)
  next
    case (cancel_task s)
    with machine_spawn[OF m, of P_Caller False "[A_Cancel_Task s]"] ob show ?thesis
      by (simp add: proc_ok_def kind_ok_def obliged_def)
  next
    case (cancel_session s)
    with machine_spawn[OF m, of P_Caller False "[A_Cancel_Drivers s None, A_Cancel_Rows s None subagent_cancel_message]"] ob
    show ?thesis by (simp add: proc_ok_def kind_ok_def obliged_def)
  next
    case (cancel_commands s i c)
    with machine_spawn[OF m, of P_Caller False "[A_Cancel_Jobs s i c]"] ob show ?thesis
      by (simp add: proc_ok_def kind_ok_def obliged_def)
  qed
qed

lemma boot_machine:
  assumes "unique_ok rows" and "distinct (map tk_run_id tasks)" and "distinct (map aj_run_id jobs)"
    and "\<forall>n\<in>set rows. nt_status n \<noteq> N_AWAITING"
  shows "machine_ok (boot_world canceled tasks jobs rows) \<and> obliged (boot_world canceled tasks jobs rows)"
  using assms
  by (auto simp: machine_ok_def obliged_def boot_world_def tables_ok_def linked_def drivers_ok_def lock_ok_def task_ok_def
      fresh_ok_def proc_ok_def idle_process_def find_driver_def awaiting_for_def)

lemma reach_machine: "delegation_reach w \<Longrightarrow> machine_ok w \<and> obliged w"
proof (induction rule: delegation_reach.induct)
  case boot
  then show ?case by (intro boot_machine)
next
  case (step w w')
  then show ?case using machine_step by blast
qed

end
