(* ===== verification/Delegation_Wakeups.thy ===== *)
theory Delegation_Wakeups
  imports Delegation_Steps
begin

text \<open>
  A sleeping sub-agent with a pending notification has a wake-up on its way, whatever the order in which
  turns, settling, results of background work and cancellations run: every action and every step keeps it.
\<close>

section \<open>Who gets a new pending notification\<close>

lemma pend_guarded:
  assumes "guarded_update q f rows = Some rows'" and "pend rows' s i" and "\<And>n. nt_status (f n) \<noteq> N_PENDING"
  shows "pend rows s i"
  using assms pend_update[of q f rows s i] by (auto simp: guarded_update_def Let_def split: if_splits)

lemma pend_finish:
  "st = N_COMPLETED \<or> st = N_FAILED \<Longrightarrow> pend (snd (finish_notification k st e now rows)) s i \<Longrightarrow> pend rows s i"
  by (auto simp: finish_notification_def split: option.splits if_splits dest!: pend_guarded)

lemmas pend_finishes = pend_finish[OF disjI1[OF refl]] pend_finish[OF disjI2[OF refl]]

lemma pend_claim: "pend (snd (claim_next_pending s' c j now rows)) s i \<Longrightarrow> pend rows s i"
  by (auto simp: claim_next_pending_def split: option.splits list.splits dest!: pend_guarded)

lemma pend_release:
  assumes "pend (snd (release_notification k now rows)) s i"
  shows "pend rows s i \<or> (\<exists>n\<in>set rows. nt_id n = k \<and> nt_target_instance n = i)"
proof (cases "snd (release_notification k now rows) = rows")
  case False
  then have "snd (release_notification k now rows) = update_rows (\<lambda>r. nt_id r = k \<and> nt_status r = N_PROCESSING)
      (\<lambda>r. r\<lparr>nt_status := N_PENDING, nt_error := [], nt_updated_at := now\<rparr>) rows"
    by (auto simp: release_notification_def guarded_update_def split: option.splits if_splits)
  with assms obtain n where n: "n \<in> set rows" "nt_session_id n = s" "nt_target_instance n = i" "nt_id n = k \<or> nt_status n = N_PENDING"
    by (auto simp: pend_def update_rows_def split: if_splits)
  then show ?thesis by (auto simp: pend_def)
qed (use assms in simp)

lemma pend_own:
  assumes "own_op s i rows op" and "pend (notification_exec op rows) s' j"
  shows "pend rows s' j \<or> j = i"
  using assms
  by (cases op) (auto simp: complete_notification_def fail_notification_def dest: pend_claim pend_finishes pend_release)

lemma pend_main:
  assumes "main_op rows op" and "pend (notification_exec op rows) s j"
  shows "pend rows s j \<or> is_main_agent_instance j"
proof (cases op)
  case (NEnqueue k run tg c d a now)
  with assms show ?thesis
    by (auto simp: enqueue_user_message_def insert_notification_def new_notification_def pend_def Let_def
        split: option.splits if_splits)
qed (use assms in \<open>auto simp: complete_notification_def fail_notification_def cancel_session_notifications_def
      cancel_main_agent_interrupted_def dest: pend_claim pend_finishes pend_release pend_cancel\<close>)

lemma instance_inj [simp]: "subagent_instance_id r = subagent_instance_id r' \<longleftrightarrow> r = r'"
  by (simp add: subagent_instance_id_def)

section \<open>A wake-up on its way stays on its way\<close>

lemma cancel_cut: "dw_cut w \<Longrightarrow> dw_cut (cancel_process k w)"
  by (simp add: cancel_process_def Let_def split: option.split)

lemma exec_cut: "exec_act now x p a w = Some (pre, w') \<Longrightarrow> dw_cut w \<Longrightarrow> dw_cut w'"
proof (cases "plain_act a")
  case True
  then show "exec_act now x p a w = Some (pre, w') \<Longrightarrow> dw_cut w \<Longrightarrow> dw_cut w'"
    by (auto simp: same_machine_def dest: exec_plain)
next
  case False
  then show "exec_act now x p a w = Some (pre, w') \<Longrightarrow> dw_cut w \<Longrightarrow> dw_cut w'"
    by (cases a) (auto simp: with_lock_def with_driver_def settle_pending_def settle_outstanding_def Let_def
        case_prod_beta resume_subagent_instance_def stop_driver_def neq_Nil_conv cancel_cut
        split: option.splits if_splits)
qed

lemma wakes_tail:
  assumes "drive_tail d a" and "wakes w u a"
  shows "wake_run (dv_parent d) = Some u"
  using assms by (cases a) auto

lemma job_wakes_tail:
  assumes "job_tail run jobs a" and "wakes w u a"
  shows "\<exists>j. find_job run jobs = Some j \<and> wake_run (aj_instance j) = Some u"
  using assms by (cases a) auto

text \<open>A canceled process keeps the wake-up it owes, or its rest is recorded as dropped.\<close>

lemma cancel_wakes:
  assumes ok: "proc_ok w (dw_procs w q)" and d: "drivers_ok w" and b: "b \<in> set (pr_todo (dw_procs w q))" "wakes w u b"
    and cut: "\<not> dw_cut (cancel_process k w)"
  shows "\<exists>b\<in>set (pr_todo (dw_procs (cancel_process k w) q)). wakes w u b"
proof (cases "q = k \<and> pr_todo (dw_procs w k) \<noteq> []")
  case False
  with b show ?thesis by (auto simp: cancel_procs)
next
  case True
  let ?q = "dw_procs w k" and ?v = "w\<lparr>dw_drivers := release_locks k (dw_drivers w)\<rparr>"
  have kind: "kind_ok w ?q" and started: "pr_started ?q"
    using ok True b quiet_wakes[of b w u] by (auto simp: proc_ok_def)
  have cut': "cancel_handler ?v ?q \<noteq> None"
    using cut started True by (auto simp: cancel_process_def Let_def split: option.splits)
  then obtain todo where todo: "cancel_handler ?v ?q = Some todo" by auto
  have "\<exists>b\<in>set todo. wakes w u b"
  proof (cases "pr_kind ?q")
    case (P_Drive r)
    with kind todo obtain e where e: "find_driver r w = Some e" "drive_todo e (pr_todo ?q)"
      by (auto simp: kind_ok_def cancel_handler_def split: if_splits)
    have run: "dv_run e = r" using d e(1) by (simp add: drivers_ok_def)
    have "drive_tail e b"
      using e(2) b True by (auto simp: drive_todo_def drive_script_def)
    from wakes_tail[OF this b(2)] have "wakes w u (A_Finish r T_CANCELED [] subagent_cancel_message)" using e(1) by simp
    moreover have "A_Finish r T_CANCELED [] subagent_cancel_message \<in> set (cancel_subagent_of ?v r)"
      using e(1) run by (auto simp: cancel_subagent_of_def cancel_subagent_def find_driver_def dv_run_def)
    moreover have "set (cancel_subagent_of ?v r) \<subseteq> set todo"
      using todo P_Drive by (auto simp: cancel_handler_def split: if_splits)
    ultimately show ?thesis by blast
  next
    case (P_Job run)
    with kind todo have "job_todo run (dw_jobs w) (pr_todo ?q)" by (auto simp: kind_ok_def cancel_handler_def split: if_splits)
    with b True have "job_tail run (dw_jobs w) b" by (auto simp: job_todo_def)
    from job_wakes_tail[OF this b(2)] todo P_Job show ?thesis by (auto simp: cancel_handler_def split: if_splits)
  qed (use todo in \<open>auto simp: cancel_handler_def split: if_splits\<close>)
  with True started todo show ?thesis by (simp add: cancel_procs)
qed

lemma others_wake:
  assumes m: "machine_ok w" and ex: "exec_act now x p a w = Some (pre, w')" and cut: "\<not> dw_cut w'" and q: "q \<noteq> p"
    and b: "b \<in> set (pr_todo (dw_procs w q))" "wakes w u b"
  shows "\<exists>b\<in>set (pr_todo (dw_procs w' q)). wakes w u b"
proof (cases "plain_act a")
  case True
  with exec_plain[OF ex] b show ?thesis by (auto simp: same_machine_def)
next
  case False
  have "q < dw_next w" by (rule live_below[OF m]) (use b in auto)
  then have q': "q \<noteq> dw_next w" by simp
  have canceled: "\<exists>b\<in>set (pr_todo (dw_procs w' q)). wakes w u b" if "w' = cancel_process k w" for k
    using cancel_wakes[of w q b u k] m b cut that by (simp add: machine_ok_def)
  show ?thesis using False ex q' b canceled
    by (cases a) (auto simp: with_lock_def with_driver_def settle_pending_def settle_outstanding_def Let_def
        case_prod_beta resume_subagent_instance_def stop_driver_def neq_Nil_conv split: option.splits if_splits)
qed

text \<open>The action that stands for a wake-up hands it on, unless the driver no longer sleeps.\<close>

lemma drivers_back:
  assumes "exec_act now x p a w = Some (pre, w')" and "find_driver r w' = Some d'" and "dv_open d'"
  obtains d where "find_driver r w = Some d" and "dv_open d" and "dv_session d = dv_session d'"
proof (cases "find_driver r w")
  case None
  with exec_drivers[OF assms(1), unfolded drivers_step_def, rule_format, of r] assms(2) that show thesis by simp
next
  case (Some d)
  with exec_drivers[OF assms(1), unfolded drivers_step_def, rule_format, of r] assms(2,3)
  have "dv_snapshot d' = dv_snapshot d \<and> dv_open d" by auto
  with Some that show thesis by (simp add: dv_session_def)
qed

lemma finish_job_latest:
  "find_job r jobs = Some j \<Longrightarrow>
     \<exists>j'. fst (finish_async_job r st code bytes nlines e now \<lparr>jd_jobs = jobs, jd_ledger = rows\<rparr>) = Some j' \<and> aj_instance j' = aj_instance j"
  by (simp add: finish_job_cases finished_job_def Let_def)

lemma act_wake:
  assumes m: "machine_ok w" and p: "pr_todo (dw_procs w p) = a # rest" and ex: "exec_act now x p a w = Some (pre, w')"
    and ok: "act_ok w a" and wk: "wakes w u a" and sl: "sleeping (set_todo p (pre @ rest) w') u"
  shows "\<exists>b\<in>set pre. wakes w' u b"
proof -
  note ev = act_evolves[OF ex ok]
  from sl obtain d' where d': "find_driver u w' = Some d'" "dv_open d'"
    and asleep: "dv_task d' = None \<or> (\<exists>q. A_Outstanding u \<in> set (pr_todo (dw_procs (set_todo p (pre @ rest) w') q)))"
    by (auto simp: sleeping_def)
  from drivers_back[OF ex d'] obtain d where d: "find_driver u w = Some d" "dv_open d" by blast
  have "\<exists>b\<in>set pre. wakes w u b"
  proof (cases a)
    case (A_Kick s i)
    with wk d ex show ?thesis
      by (auto simp: wake_run_def resume_target_instance_def split: if_splits)
  next
    case (A_Kick_Lock r)
    with wk have r: "r = u" by simp
    with A_Kick_Lock ex d obtain res: "resume_subagent_instance u d w = (pre, w')" and lk: "dv_lock d = None"
      by (auto simp: with_lock_def split: option.splits if_splits)
    have none: "A_Outstanding u \<notin> set (pr_todo (dw_procs w q))" for q
      using m lk d unfolding machine_ok_def lock_ok_def by force
    have "A_Outstanding u \<notin> set (pr_todo (dw_procs (set_todo p (pre @ rest) w') q))" for q
      using none[of q] none[of p] p res
      by (auto simp: resume_subagent_instance_def case_prod_beta drive_script_def split: if_splits)
    with asleep have "dv_task d' = None" by blast
    with res d d' show ?thesis by (auto simp: resume_subagent_instance_def task_running_def case_prod_beta split: if_splits)
  next
    case (A_Finish r st y e)
    with wk ex show ?thesis by (auto simp: with_driver_def finish_followup_def case_prod_beta)
  next
    case (A_Job_Finish r st code bytes nlines e)
    with wk obtain j where j: "find_job r (dw_jobs w) = Some j" "wake_run (aj_instance j) = Some u" by auto
    have "\<exists>j'. fst (on_job_rows (finish_async_job r st code bytes nlines e now) w) = Some j' \<and> aj_instance j' = aj_instance j"
      using finish_job_latest[OF j(1)] by (simp add: on_job_rows_def case_prod_beta Let_def)
    with A_Job_Finish ex j(2) show ?thesis by (auto simp: case_prod_beta)
  qed (use wk in simp_all)
  with wakes_mono[OF ev] show ?thesis by blast
qed

lemma evolves_kick: "evolves w w' \<Longrightarrow> \<exists>b\<in>set todo. wakes w u b \<Longrightarrow> \<exists>b\<in>set todo. wakes w' u b"
  using wakes_mono by blast

lemma wakes_set_todo [simp]: "wakes (set_todo p t w) u b = wakes w u b"
  by (cases b) simp_all

lemma kick_stays:
  assumes m: "machine_ok w" and p: "pr_todo (dw_procs w p) = a # rest" and ex: "exec_act now x p a w = Some (pre, w')"
    and ok: "act_ok w a" and cut: "\<not> dw_cut w'" and sl: "sleeping (set_todo p (pre @ rest) w') u" and k: "kick_coming w u"
  shows "kick_coming (set_todo p (pre @ rest) w') u"
proof -
  note ev = act_evolves[OF ex ok]
  from k obtain q b where b: "b \<in> set (pr_todo (dw_procs w q))" "wakes w u b" by (auto simp: kick_coming_def)
  show ?thesis
  proof (cases "q = p")
    case False
    from others_wake[OF m ex cut False b] have "\<exists>b\<in>set (pr_todo (dw_procs w' q)). wakes w' u b" by (rule evolves_kick[OF ev])
    with False show ?thesis by (auto simp: kick_coming_def)
  next
    case True
    show ?thesis
    proof (cases "b \<in> set rest")
      case True
      with wakes_mono[OF ev b(2)] have "\<exists>b\<in>set (pr_todo (dw_procs (set_todo p (pre @ rest) w') p)). wakes w' u b" by auto
      then show ?thesis unfolding kick_coming_def by (metis wakes_set_todo)
    next
      case False
      with True b p have "wakes w u a" by simp
      from act_wake[OF m p ex ok this sl] have "\<exists>b\<in>set (pr_todo (dw_procs (set_todo p (pre @ rest) w') p)). wakes w' u b" by auto
      then show ?thesis unfolding kick_coming_def by (metis wakes_set_todo)
    qed
  qed
qed

section \<open>Actions keep sleeping drivers reachable\<close>

lemma awaiting_parent:
  assumes "machine_ok w" and "find_driver r w = Some d" and "awaiting_for (dw_notices w) SUBAGENT_FINISHED r i"
    and "t \<in> set (dw_tasks w)" and "tk_run_id t = r"
  shows "i = dv_parent d"
proof -
  have "linked (dw_notices w) SUBAGENT_FINISHED tk_run_id tk_parent_instance (dw_tasks w)" and "drivers_ok w"
    using assms(1) by (simp_all add: machine_ok_def tables_ok_def)
  then have "i = tk_parent_instance t" and "tk_parent_instance t = dv_parent d"
    using assms(2-5) unfolding linked_iff drivers_ok_def by blast+
  then show ?thesis by simp
qed

lemma awaiting_owner:
  assumes "machine_ok w" and "find_job r (dw_jobs w) = Some j" and "awaiting_for (dw_notices w) SANDBOX_ASYNC_JOB_FINISHED r i"
  shows "i = aj_instance j"
proof -
  have "linked (dw_notices w) SANDBOX_ASYNC_JOB_FINISHED aj_run_id aj_instance (dw_jobs w)"
    using assms(1) by (simp add: machine_ok_def tables_ok_def)
  moreover have "j \<in> set (dw_jobs w)" "aj_run_id j = r" using assms(2) by (auto simp: find_job_def dest: find_SomeD)
  ultimately show ?thesis using assms(3) unfolding linked_iff by blast
qed

lemma exec_pend:
  assumes m: "machine_ok w" and ex: "exec_act now x p a w = Some (pre, w')" and ok: "act_ok w a"
    and new: "pend (dw_notices w') s (subagent_instance_id u)" and old: "\<not> pend (dw_notices w) s (subagent_instance_id u)"
  shows "a = A_Unwind u \<or> (\<exists>b\<in>set pre. wakes w' u b)"
proof -
  have uniq: "unique_ok (dw_notices w)" using m by (simp add: machine_ok_def tables_ok_def)
  have changed: "dw_notices w' \<noteq> dw_notices w" using new old by metis
  show ?thesis
  proof (cases a)
    case (A_Unwind r)
    with ex obtain d where d: "find_driver r w = Some d"
      and e: "w' = (if \<exists>n\<in>set (dw_notices w). nt_id n = x \<and> nt_target_instance n = dv_instance d
        then w\<lparr>dw_notices := snd (release_notification x now (dw_notices w))\<rparr> else w)"
      by (auto simp: with_driver_def)
    from e changed have n: "\<exists>n\<in>set (dw_notices w). nt_id n = x \<and> nt_target_instance n = dv_instance d" by metis
    with e have w': "dw_notices w' = snd (release_notification x now (dw_notices w))" by simp
    have inst: "dv_instance d = subagent_instance_id r" using m d by (simp add: machine_ok_def drivers_ok_def)
    from pend_release new old w' obtain n' where n': "n' \<in> set (dw_notices w)" "nt_id n' = x" "nt_target_instance n' = subagent_instance_id u"
      by metis
    from n obtain n0 where "n0 \<in> set (dw_notices w)" "nt_id n0 = x" "nt_target_instance n0 = dv_instance d" by blast
    with n' unique_id[OF uniq, of n' n0] inst have "u = r" by simp
    with A_Unwind show ?thesis by simp
  next
    case (A_Finish r st y e)
    with ex obtain d latest db where d: "find_driver r w = Some d"
      and f: "finish_subagent_task r st y e now \<lparr>sd_tasks = dw_tasks w, sd_ledger = dw_notices w\<rparr> = (latest, db)"
      and pre: "pre = finish_followup d st latest" and w': "dw_notices w' = sd_ledger db"
      by (auto simp: with_driver_def on_subordinates_def Let_def split: prod.splits)
    from pend_finish_task[OF f _ uniq] new old w' obtain t where t: "latest \<noteq> None"
      "awaiting_for (dw_notices w) SUBAGENT_FINISHED r (subagent_instance_id u)" "t \<in> set (dw_tasks w)" "tk_run_id t = r"
      by metis
    from awaiting_parent[OF m d t(2-4)] wake_run_subagent[of u] have "wake_run (dv_parent d) = Some u" by simp
    with pre t(1) show ?thesis by (auto simp: finish_followup_def)
  next
    case (A_Job_Finish r st code bytes nlines e)
    with ex obtain latest db where f: "finish_async_job r st code bytes nlines e now \<lparr>jd_jobs = dw_jobs w, jd_ledger = dw_notices w\<rparr> = (latest, db)"
      and pre: "pre = (case latest of None \<Rightarrow> [] | Some j \<Rightarrow> [A_Kick (aj_session_id j) (aj_instance j)])"
      and w': "dw_notices w' = jd_ledger db"
      by (auto simp: on_job_rows_def Let_def split: prod.splits)
    from pend_finish_job[OF f _ uniq] new old w' obtain j where j: "find_job r (dw_jobs w) = Some j"
      "awaiting_for (dw_notices w) SANDBOX_ASYNC_JOB_FINISHED r (subagent_instance_id u)" by metis
    from finish_job_latest[OF j(1)] f have "\<exists>j'. latest = Some j' \<and> aj_instance j' = aj_instance j" by (metis fst_conv)
    with awaiting_owner[OF m j] pre wake_run_subagent[of u] show ?thesis by auto
  next
    case (A_Cancel_Notices s' i e)
    with ex new old show ?thesis by (auto simp: cancel_session_notifications_def dest: pend_cancel)
  next
    case (A_Cancel_Job_Rows s' i c)
    with ex new old show ?thesis
      by (auto simp: on_job_rows_def cancel_running_jobs_def Let_def dest: pend_resolve_all)
  next
    case (A_Cancel_Rows s' i e)
    with ex new old show ?thesis
      by (auto simp: on_subordinates_def cancel_running_rows_def Let_def dest: pend_resolve_all split: prod.splits)
  next
    case (A_Cancel_Task t)
    obtain latest db where f: "finish_subagent_task (tk_run_id t) T_CANCELED [] subagent_cancel_message now
        \<lparr>sd_tasks = dw_tasks w, sd_ledger = dw_notices w\<rparr> = (latest, db)" by fastforce
    with A_Cancel_Task ex changed have "dw_notices w' = sd_ledger db"
      by (auto simp: cancel_record_eq on_subordinates_def Let_def split: prod.splits if_splits)
    with pend_finish_task[OF f _ uniq] new old show ?thesis by fastforce
  next
    case (A_Stop rs live dormant)
    with ex changed show ?thesis
      by (cases rs) (auto simp: with_lock_def stop_driver_def split: option.splits if_splits)
  qed (use ex changed in \<open>auto simp: with_lock_def with_driver_def resume_target_instance_def resume_subagent_instance_def
      settle_pending_def settle_outstanding_def cancel_matching_jobs_def case_prod_beta Let_def split: option.splits if_splits\<close>)
qed

lemma exec_outstanding:
  assumes "exec_act now x p a w = Some (pre, w')" and "A_Outstanding u \<in> set pre"
  shows "a = A_Pending u \<and> w' = w \<and> (\<exists>d. find_driver u w = Some d \<and> \<not> pend (dw_notices w) (dv_session d) (dv_instance d))"
  using assms
  by (cases "(now, x, p, a, w)" rule: exec_act.cases)
    (auto simp: with_lock_def with_driver_def settle_pending_def settle_outstanding_def Let_def has_pending_iff
      case_prod_beta resume_subagent_instance_def resume_target_instance_def stop_driver_def finish_followup_def
      cancel_matching_jobs_def cancel_subagent_of_def cancel_subagent_def teardown_subtree_def
      split: option.splits if_splits list.splits)

lemma exec_task_none:
  assumes "exec_act now x p a w = Some (pre, w')" and "find_driver u w' = Some d'" and "dv_task d' = None"
  shows "(\<exists>d. find_driver u w = Some d \<and> dv_task d = None) \<or> a = A_Outstanding u"
proof (cases "plain_act a")
  case True
  with exec_plain[OF assms(1)] assms(2,3) show ?thesis by (auto simp: same_machine_def find_driver_def)
next
  case False
  with assms show ?thesis
    by (cases a) (auto simp: with_lock_def with_driver_def settle_pending_def settle_outstanding_def Let_def
        case_prod_beta resume_subagent_instance_def stop_driver_def neq_Nil_conv cancel_process_driver
        split: option.splits if_splits)
qed

lemma exec_sleeps:
  assumes m: "machine_ok w" and p: "pr_todo (dw_procs w p) = a # rest" and ex: "exec_act now x p a w = Some (pre, w')"
    and sl: "sleeping (set_todo p (pre @ rest) w') u"
  shows "sleeping w u \<or> (w' = w \<and> (\<exists>d. find_driver u w = Some d \<and> \<not> pend (dw_notices w) (dv_session d) (subagent_instance_id u)))"
proof -
  from sl obtain d' where d': "find_driver u w' = Some d'" "dv_open d'"
    and asleep: "dv_task d' = None \<or> (\<exists>q. A_Outstanding u \<in> set (pr_todo (dw_procs (set_todo p (pre @ rest) w') q)))"
    by (auto simp: sleeping_def)
  from drivers_back[OF ex d'] obtain d where d: "find_driver u w = Some d" "dv_open d" by blast
  have waits: "sleeping w u" if "A_Outstanding u \<in> set (pr_todo (dw_procs w q))" for q
    using that d by (auto simp: sleeping_def)
  from asleep show ?thesis
  proof
    assume "dv_task d' = None"
    from exec_task_none[OF ex d'(1) this] show ?thesis
    proof
      assume "a = A_Outstanding u"
      with p waits[of p] show ?thesis by simp
    qed (use d in \<open>auto simp: sleeping_def\<close>)
  next
    assume "\<exists>q. A_Outstanding u \<in> set (pr_todo (dw_procs (set_todo p (pre @ rest) w') q))"
    then obtain q where q: "A_Outstanding u \<in> set (pr_todo (dw_procs (set_todo p (pre @ rest) w') q))" by blast
    show ?thesis
    proof (cases "q = p")
      case False
      with q have "A_Outstanding u \<in> set (pr_todo (dw_procs w' q))" by simp
      from exec_others_settle[OF ex False _ this] waits show ?thesis by blast
    next
      case True
      show ?thesis
      proof (cases "A_Outstanding u \<in> set rest")
        case True
        with waits[of p] p show ?thesis by simp
      next
        case False
        with True q have "A_Outstanding u \<in> set pre" by simp
        from exec_outstanding[OF ex this] m d show ?thesis by (auto simp: machine_ok_def drivers_ok_def)
      qed
    qed
  qed
qed

text \<open>A driver that is unwinding a canceled turn is not asleep.\<close>

lemma unwinding_awake:
  assumes m: "machine_ok w" and p: "pr_todo (dw_procs w p) = a # rest" and a: "a = A_Unwind u \<or> a = A_Drain u"
  shows "\<not> sleeping w u"
proof
  assume "sleeping w u"
  then obtain d where d: "find_driver u w = Some d" "dv_open d"
    and asleep: "dv_task d = None \<or> (\<exists>q. A_Outstanding u \<in> set (pr_todo (dw_procs w q)))" by (auto simp: sleeping_def)
  have k: "kind_ok w (dw_procs w p)" using machine_kind[OF m, of p] p by simp
  have "pr_kind (dw_procs w p) = P_Drive u"
  proof (cases "pr_guarded (dw_procs w p)")
    case False
    with k p have "free_act (pr_kind (dw_procs w p)) a" by (auto simp: kind_ok_def)
    with a show ?thesis by auto
  next
    case True
    with k p a have "\<exists>r. pr_kind (dw_procs w p) = P_Drive r \<and> (\<exists>e. find_driver r w = Some e \<and> drive_todo e (a # rest))"
      by (auto simp: kind_ok_def job_todo_def split: proc_kind.splits)
    then obtain r e where r: "pr_kind (dw_procs w p) = P_Drive r" "find_driver r w = Some e" "drive_todo e (a # rest)" by blast
    have "dv_run e = r" using m r(2) by (simp add: machine_ok_def drivers_ok_def)
    with r a show ?thesis by (auto simp: drive_todo_def drive_script_def)
  qed
  with live_task[OF m _ _ d, of p] p have task: "dv_task d = Some p" by simp
  with asleep obtain q where q: "A_Outstanding u \<in> set (pr_todo (dw_procs w q))" by auto
  with settler(2,3)[OF m, of u q] have s: "pr_kind (dw_procs w q) = P_Drive u" "pr_todo (dw_procs w q) = [A_Outstanding u] \<or> pr_todo (dw_procs w q) = [A_Pending u]"
    by auto
  from live_task[OF m _ _ d, of q] s q task have "q = p" by auto
  with s p a show False by auto
qed

lemma act_awake:
  assumes m: "machine_ok w" and aw: "awake_ok w" and p: "pr_todo (dw_procs w p) = a # rest"
    and ex: "exec_act now x p a w = Some (pre, w')"
  shows "awake_ok (set_todo p (pre @ rest) w')"
  unfolding awake_ok_def set_todo_fields
proof (cases "dw_cut w'", simp, intro disjI2 allI impI)
  fix u s
  let ?u = "set_todo p (pre @ rest) w'"
  assume cut: "\<not> dw_cut w'" and sl: "sleeping ?u u" and new: "pend (dw_notices w') s (subagent_instance_id u)"
    and "\<exists>d. find_driver u w' = Some d \<and> dv_session d = s"
  then obtain d' where d': "find_driver u w' = Some d'" "dv_session d' = s" by blast
  with sl have "dv_open d'" by (auto simp: sleeping_def)
  from drivers_back[OF ex d'(1) this] d'(2) obtain d where d: "find_driver u w = Some d" "dv_session d = s" by metis
  have ok: "act_ok w a" using m p unfolding machine_ok_def proc_ok_def by (metis list.distinct(1) list.set_intros(1))
  from exec_sleeps[OF m p ex sl] new d have "sleeping w u" by auto
  show "kick_coming ?u u"
  proof (cases "pend (dw_notices w) s (subagent_instance_id u)")
    case True
    with aw cut exec_cut[OF ex] \<open>sleeping w u\<close> d have "kick_coming w u" by (auto simp: awake_ok_def)
    from kick_stays[OF m p ex ok cut sl this] show ?thesis .
  next
    case False
    from exec_pend[OF m ex ok new False] unwinding_awake[OF m p, of u] \<open>sleeping w u\<close>
    have "\<exists>b\<in>set (pr_todo (dw_procs ?u p)). wakes w' u b" by auto
    then show ?thesis unfolding kick_coming_def by (metis wakes_set_todo)
  qed
qed

section \<open>Every step keeps sleeping drivers reachable\<close>

lemma awakeI:
  assumes aw: "awake_ok w" and cut: "dw_cut w \<Longrightarrow> dw_cut w'"
    and prior: "\<And>u d'. find_driver u w' = Some d' \<Longrightarrow> sleeping w' u
       \<Longrightarrow> sleeping w u \<and> (\<exists>d. find_driver u w = Some d \<and> dv_session d = dv_session d')"
    and pend: "\<And>u s. sleeping w u \<Longrightarrow> pend (dw_notices w') s (subagent_instance_id u) \<Longrightarrow> pend (dw_notices w) s (subagent_instance_id u)"
    and kick: "\<And>u. kick_coming w u \<Longrightarrow> kick_coming w' u"
  shows "awake_ok w'"
  unfolding awake_ok_def
proof (cases "dw_cut w'", simp, intro disjI2 allI impI)
  fix u s
  assume a: "\<not> dw_cut w'" "sleeping w' u" "pend (dw_notices w') s (subagent_instance_id u)" "\<exists>d. find_driver u w' = Some d \<and> dv_session d = s"
  then obtain d' where "find_driver u w' = Some d'" "dv_session d' = s" by blast
  with prior a(2) have b: "sleeping w u" "\<exists>d. find_driver u w = Some d \<and> dv_session d = s" by blast+
  with pend a(3) aw cut a(1) have "kick_coming w u" unfolding awake_ok_def by blast
  then show "kick_coming w' u" by (rule kick)
qed

text \<open>Steps on the same drivers, that drop no wake-up.\<close>

lemma awake_same_drivers:
  assumes aw: "awake_ok w" and drivers: "dw_drivers w' = dw_drivers w" and cut: "dw_cut w' = dw_cut w"
    and ev: "evolves w w'"
    and pend: "\<And>u s. sleeping w u \<Longrightarrow> pend (dw_notices w') s (subagent_instance_id u) \<Longrightarrow> pend (dw_notices w) s (subagent_instance_id u)"
    and procs: "\<And>q u. A_Outstanding u \<in> set (pr_todo (dw_procs w' q)) \<Longrightarrow> A_Outstanding u \<in> set (pr_todo (dw_procs w q))"
    and kicks: "\<And>q u b. b \<in> set (pr_todo (dw_procs w q)) \<Longrightarrow> wakes w u b \<Longrightarrow> b \<in> set (pr_todo (dw_procs w' q))"
  shows "awake_ok w'"
proof (rule awakeI[OF aw])
  have f: "find_driver u w' = find_driver u w" for u using drivers by (simp add: find_driver_def)
  show "sleeping w u \<and> (\<exists>d. find_driver u w = Some d \<and> dv_session d = dv_session d')"
    if "find_driver u w' = Some d'" "sleeping w' u" for u d'
    using that procs by (auto simp: sleeping_def f)
  show "kick_coming w' u" if "kick_coming w u" for u
    using that kicks wakes_mono[OF ev] unfolding kick_coming_def by blast
qed (use cut pend in auto)

lemma awake_spawn:
  assumes m: "machine_ok w" and aw: "awake_ok w" and out: "\<And>u. A_Outstanding u \<notin> set todo"
  shows "awake_ok (snd (spawn k g todo w))"
proof (rule awake_same_drivers[OF aw])
  have "pr_todo (dw_procs w (dw_next w)) = []" using live_below[OF m, of "dw_next w"] by auto
  then show "b \<in> set (pr_todo (dw_procs (snd (spawn k g todo w)) q))" if "b \<in> set (pr_todo (dw_procs w q))" for q b
    using that by auto
  show "dw_drivers (snd (spawn k g todo w)) = dw_drivers w" by (simp add: spawn_def)
  show "evolves w (snd (spawn k g todo w))" by (simp add: evolves_def)
qed (use out in \<open>auto split: if_splits\<close>)

lemma awake_process:
  assumes m: "machine_ok w" and aw: "awake_ok w" and out: "\<And>u. A_Outstanding u \<notin> set (pr_todo q)"
    and quiet: "\<forall>b\<in>set (pr_todo (dw_procs w p)). quiet_act b"
  shows "awake_ok (w\<lparr>dw_procs := (dw_procs w)(p := q)\<rparr>)"
proof (rule awake_same_drivers[OF aw])
  show "evolves w (w\<lparr>dw_procs := (dw_procs w)(p := q)\<rparr>)" by (simp add: evolves_def find_driver_def)
  show "b \<in> set (pr_todo (dw_procs (w\<lparr>dw_procs := (dw_procs w)(p := q)\<rparr>) k))"
    if "b \<in> set (pr_todo (dw_procs w k))" "wakes w u b" for k u b
    using that quiet quiet_wakes[of b w u] by auto
qed (use out in \<open>auto split: if_splits\<close>)

lemma awake_notices:
  assumes aw: "awake_ok w" and same: "same_machine w w'" and ev: "evolves w w'"
    and pend: "\<And>u s. sleeping w u \<Longrightarrow> pend (dw_notices w') s (subagent_instance_id u) \<Longrightarrow> pend (dw_notices w) s (subagent_instance_id u)"
  shows "awake_ok w'"
  using same by (intro awake_same_drivers[OF aw _ _ ev pend]) (simp_all add: same_machine_def)

lemma awake_start:
  assumes m: "machine_ok w" and ob: "obliged w" and aw: "awake_ok w"
    and st: "start_subagent_task_run cx (start_row cx parent_code code name brief nested run_id) fresh_id now w = Some w'"
  shows "awake_ok w'"
proof -
  have ev: "evolves w w'" using machine_start[OF m ob st] by simp
  have idle: "pr_todo (dw_procs w (dw_next w)) = []" using live_below[OF m, of "dw_next w"] by auto
  show ?thesis
  proof (rule start_effects[OF m st])
    fix t d
    assume l: "dw_notices w' = dw_notices w \<or> (\<exists>a. ledger_register (SUBAGENT_FINISHED, run_id) a (dw_notices w) = Some (dw_notices w')
        \<and> tg_instance (fst (snd a)) = tk_parent_instance t)"
    assume w': "dw_cut w' = dw_cut w"
      "\<And>r. find_driver r w' = (if r = run_id then Some d else find_driver r w)"
      "\<And>p. dw_procs w' p = (if p = dw_next w
         then \<lparr>pr_kind = P_Drive run_id, pr_started = False, pr_guarded = True, pr_todo = drive_script run_id\<rparr> else dw_procs w p)"
    assume fresh: "find_driver run_id w = None" and new: "dv_task d = Some (dw_next w)"
    have unlocked: "A_Outstanding run_id \<notin> set (pr_todo (dw_procs w q))" for q
      using m fresh unfolding machine_ok_def lock_ok_def by force
    show "awake_ok w'"
    proof (rule awakeI[OF aw])
      show "sleeping w u \<and> (\<exists>e. find_driver u w = Some e \<and> dv_session e = dv_session d')"
        if "find_driver u w' = Some d'" "sleeping w' u" for u d'
      proof (cases "u = run_id")
        case True
        with that new unlocked show ?thesis by (auto simp: sleeping_def w' drive_script_def split: if_splits)
      next
        case False
        with that show ?thesis by (auto simp: sleeping_def w' drive_script_def split: if_splits)
      qed
      show "pend (dw_notices w) s (subagent_instance_id u)" if "pend (dw_notices w') s (subagent_instance_id u)" for u s
        using that l registered_awaiting(2) by metis
      show "kick_coming w' u" if "kick_coming w u" for u
      proof -
        from that obtain q b where b: "b \<in> set (pr_todo (dw_procs w q))" "wakes w u b" by (auto simp: kick_coming_def)
        with idle have "q \<noteq> dw_next w" by auto
        with b wakes_mono[OF ev] show ?thesis unfolding kick_coming_def w' by auto
      qed
    qed (use w' in simp)
  qed
qed

lemma awake_start_job:
  assumes m: "machine_ok w" and aw: "awake_ok w"
    and st: "start_async_sandbox_command args c ts as sc fresh_id now w = Some w'"
  shows "awake_ok w'"
proof -
  obtain j db where cr: "create_async_job args fresh_id ts as sc now \<lparr>jd_jobs = dw_jobs w, jd_ledger = dw_notices w\<rparr> = Some (j, db)"
    using st by (auto simp: start_async_sandbox_command_def split: option.splits)
  from job_create[OF cr] obtain a where jobs: "jd_jobs db = dw_jobs w @ [j]"
    and reg: "ledger_register (SANDBOX_ASYNC_JOB_FINISHED, aj_run_id j) a (dw_notices w) = Some (jd_ledger db)" by metis
  have w': "dw_drivers w' = dw_drivers w" "dw_cut w' = dw_cut w" "dw_tasks w' = dw_tasks w" "dw_jobs w' = dw_jobs w @ [j]"
    "dw_notices w' = jd_ledger db"
    "dw_procs w' = (dw_procs w)(dw_next w := \<lparr>pr_kind = P_Job (aj_run_id j), pr_started = False, pr_guarded = True,
       pr_todo = [A_Job_Run (aj_run_id j)]\<rparr>)"
    using st cr jobs by (auto simp: start_async_sandbox_command_def case_prod_beta Let_def spawn_def)
  have idle: "pr_todo (dw_procs w (dw_next w)) = []" using live_below[OF m, of "dw_next w"] by auto
  show ?thesis
  proof (rule awake_same_drivers[OF aw w'(1,2)])
    show "evolves w w'"
      using w'(1,3,4) by (auto simp: evolves_def jobs_kept_def find_job_def find_kept find_driver_def)
    show "pend (dw_notices w) s (subagent_instance_id u)" if "pend (dw_notices w') s (subagent_instance_id u)" for u s
      using that registered_awaiting(2)[OF reg] w'(5) by simp
  qed (use idle in \<open>auto simp: w'(6) split: if_splits\<close>)
qed

lemma awake_turn_notice:
  assumes m: "machine_ok w" and aw: "awake_ok w" and drain: "in_drain p r w" and d: "find_driver r w = Some d"
    and own: "own_op (dv_session d) (dv_instance d) (dw_notices w) op"
  shows "awake_ok (w\<lparr>dw_notices := notification_exec op (dw_notices w)\<rparr>)"
proof (rule awake_notices[OF aw])
  fix u s
  assume sl: "sleeping w u" and new: "pend (dw_notices (w\<lparr>dw_notices := notification_exec op (dw_notices w)\<rparr>)) s (subagent_instance_id u)"
  have "dv_instance d = subagent_instance_id r" using m d by (simp add: machine_ok_def drivers_ok_def)
  with pend_own[OF own] new have "pend (dw_notices w) s (subagent_instance_id u) \<or> u = r" by fastforce
  moreover obtain rest where "pr_todo (dw_procs w p) = A_Drain r # rest" using drain by (auto simp: in_drain_def)
  then have "\<not> sleeping w r" using unwinding_awake[OF m, of p "A_Drain r" rest r] by simp
  ultimately show "pend (dw_notices w) s (subagent_instance_id u)" using sl by auto
qed (simp_all add: same_machine_def evolves_def find_driver_def)

lemma awake_main_notice:
  assumes aw: "awake_ok w" and "main_op (dw_notices w) op"
  shows "awake_ok (w\<lparr>dw_notices := notification_exec op (dw_notices w)\<rparr>)"
  using pend_main[OF assms(2)] instance_ids(2)
  by (intro awake_notices[OF aw]) (auto simp: same_machine_def evolves_def find_driver_def)

lemma awake_step:
  assumes m: "machine_ok w" and ob: "obliged w" and aw: "awake_ok w" and st: "delegation_step w w'"
  shows "awake_ok w'"
  using st
proof (cases rule: delegation_step.cases)
  case (begin_process p)
  have "A_Outstanding u \<in> set (pr_todo (dw_procs (w\<lparr>dw_procs := (dw_procs w)(p := (dw_procs w p)\<lparr>pr_started := True\<rparr>)\<rparr>) q))
      \<longleftrightarrow> A_Outstanding u \<in> set (pr_todo (dw_procs w q))" for u q by simp
  then show ?thesis unfolding begin_process(1)
    by (intro awake_same_drivers[OF aw]) (auto simp: evolves_def find_driver_def)
next
  case (act p a rest now x todo v)
  with act_awake[OF m aw act(3,4)] show ?thesis by simp
next
  case (drained p r)
  from drain_rest[OF m drained(2)] have t: "pr_todo (dw_procs w p) = drive_script r" by auto
  have "awake_ok (w\<lparr>dw_procs := (dw_procs w)(p := (dw_procs w p)\<lparr>pr_todo := [A_Settle r]\<rparr>)\<rparr>)"
    by (rule awake_process[OF m aw]) (simp_all add: t drive_script_def)
  with drained(1) t show ?thesis by (simp add: set_todo_def drive_script_def)
next
  case (turn_fails p r d message)
  from drain_rest[OF m turn_fails(2)] have t: "pr_todo (dw_procs w p) = drive_script r" by auto
  show ?thesis unfolding turn_fails(1)
    by (rule awake_process[OF m aw]) (simp_all add: t drive_script_def fail_subagent_def teardown_subtree_def)
next
  case (turn_notice p r d op)
  with awake_turn_notice[OF m aw] show ?thesis by simp
next
  case (main_notice op)
  with awake_main_notice[OF aw] show ?thesis by simp
next
  case start
  with awake_start[OF m ob aw] show ?thesis by blast
next
  case start_job
  with awake_start_job[OF m aw] show ?thesis by blast
next
  case (job_ends p run_id st code bytes nlines error)
  show ?thesis unfolding job_ends(1)
    by (rule awake_process[OF m aw]) (use job_ends(4) in simp_all)
next
  case (job_forgotten run_id e)
  show ?thesis unfolding job_forgotten(1)
    by (rule awake_notices[OF aw]) (simp_all add: same_machine_def evolves_def find_driver_def)
next
  case (progress r body now res db)
  have "tasks_kept (dw_tasks w) (sd_tasks db) \<and> sd_ledger db = dw_notices w"
    using progress(2) unfolding update_subagent_progress_def
    by (auto simp: Let_def split: option.splits if_splits intro!: tasks_kept_update)
  then show ?thesis unfolding progress(1)
    by (intro awake_notices[OF aw]) (auto simp: same_machine_def evolves_def find_driver_def tasks_kept_def)
next
  case (cancel_task s)
  with awake_spawn[OF m aw] show ?thesis by simp
next
  case (cancel_session s)
  with awake_spawn[OF m aw] show ?thesis by simp
next
  case (cancel_commands s i c)
  with awake_spawn[OF m aw] show ?thesis by simp
qed

lemma reach_awake: "delegation_reach w \<Longrightarrow> awake_ok w"
proof (induction rule: delegation_reach.induct)
  case boot
  then show ?case by (simp add: awake_ok_def sleeping_def boot_world_def find_driver_def)
next
  case (step w w')
  with reach_machine[OF step.hyps(1)] awake_step show ?case by blast
qed

end
