(* ===== verification/Delegation_Runs.thy ===== *)
theory Delegation_Runs
  imports Delegation_Wakeups
begin

text \<open>
  What holds of sub-agents and background commands in every reachable state, and an executable scheduler
  that drives the machine through concrete runs.
\<close>

section \<open>Running the machine\<close>

lemma in_drain_code [code]:
  "in_drain p r w \<longleftrightarrow> pr_started (dw_procs w p) \<and> pr_guarded (dw_procs w p) \<and> pr_kind (dw_procs w p) = P_Drive r
     \<and> (case pr_todo (dw_procs w p) of [] \<Rightarrow> False | a # _ \<Rightarrow> a = A_Drain r)"
  by (auto simp: in_drain_def split: list.splits)

definition run_begin :: "nat \<Rightarrow> delegation_world \<Rightarrow> delegation_world" where
  "run_begin p w = (if proc_done w p then w else w\<lparr>dw_procs := (dw_procs w)(p := (dw_procs w p)\<lparr>pr_started := True\<rparr>)\<rparr>)"

definition run_drained :: "nat \<Rightarrow> string \<Rightarrow> delegation_world \<Rightarrow> delegation_world" where
  "run_drained p r w = (if in_drain p r w then set_todo p (tl (pr_todo (dw_procs w p))) w else w)"

fun run_act :: "datetime \<Rightarrow> string \<Rightarrow> nat \<Rightarrow> delegation_world \<Rightarrow> delegation_world" where
  "run_act now x p w =
    (if pr_started (dw_procs w p)
     then case pr_todo (dw_procs w p) of
         [] \<Rightarrow> w
       | a # rest \<Rightarrow> (case exec_act now x p a w of None \<Rightarrow> w | Some (todo, w') \<Rightarrow> set_todo p (todo @ rest) w')
     else w)"

definition run_job_ends :: "nat \<Rightarrow> string \<Rightarrow> delegation_world \<Rightarrow> delegation_world" where
  "run_job_ends p run_id w =
    (if pr_started (dw_procs w p) \<and> pr_kind (dw_procs w p) = P_Job run_id \<and> pr_todo (dw_procs w p) = [A_Job_Run run_id]
     then w\<lparr>dw_procs := (dw_procs w)(p := (dw_procs w p)\<lparr>pr_guarded := True,
            pr_todo := [A_Job_Finish run_id J_COMPLETED (Some 0) 12 1 []]\<rparr>)\<rparr>
     else w)"

text \<open>For evaluation: the new process is computed before it is stored.\<close>

lemma set_todo_code [code]:
  "set_todo p t w = (let q = (dw_procs w p)\<lparr>pr_todo := t\<rparr> in w\<lparr>dw_procs := (dw_procs w)(p := q)\<rparr>)"
  by (simp add: set_todo_def)

lemma run_begin_code [code]:
  "run_begin p w = (if proc_done w p then w else let q = (dw_procs w p)\<lparr>pr_started := True\<rparr> in w\<lparr>dw_procs := (dw_procs w)(p := q)\<rparr>)"
  by (simp add: run_begin_def)

lemma run_reach:
  assumes "delegation_reach w"
  shows "delegation_reach (run_begin p w)" and "delegation_reach (run_drained p r w)"
    and "delegation_reach (run_act now x p w)" and "delegation_reach (run_job_ends p run_id w)"
proof -
  note step = delegation_reach.step[OF assms]
  show "delegation_reach (run_begin p w)" using assms step[OF begin_process] by (simp add: run_begin_def)
  show "delegation_reach (run_drained p r w)" using assms step[OF drained] by (simp add: run_drained_def)
  show "delegation_reach (run_act now x p w)" using assms step[OF act] by (auto split: list.split option.split)
  show "delegation_reach (run_job_ends p run_id w)"
    using assms step[OF job_ends[where st = J_COMPLETED]] by (auto simp: run_job_ends_def)
qed

section \<open>A sub-agent that waits for a command\<close>

definition example_lead :: runtime_context where
  "example_lead = \<lparr>rx_session = ''s1'', rx_user = 1, rx_agent_code = ''lead'', rx_instance = main_agent_instance_id ''s1'' 1 ''lead'',
     rx_project = None, rx_container = Some 7, rx_generation = 1, rx_skills = [], rx_targets = [], rx_actions = [], rx_scope = ''sc''\<rparr>"

definition example_worker :: runtime_context where
  "example_worker = example_lead\<lparr>rx_agent_code := ''worker'', rx_instance := subagent_instance_id ''r1''\<rparr>"

definition example_job :: async_job where
  "example_job = \<lparr>aj_run_id = ''j1'', aj_session_id = ''s1'', aj_agent_code = ''worker'', aj_instance = subagent_instance_id ''r1'',
     aj_command = ''make'', aj_output_file = ''out'', aj_status = J_RUNNING, aj_exit_code = None, aj_output_bytes = 0,
     aj_output_lines = 0, aj_error = [], aj_nested_for = [], aj_nested_call_id = [], aj_container_id = Some 7,
     aj_container_generation = 1, aj_skill_metadata = [], aj_created_at = 0, aj_updated_at = 0, aj_started_at = None,
     aj_finished_at = None\<rparr>"

definition example_started :: delegation_world where
  "example_started = run_begin 0 (the (start_subagent_task_run example_lead
     (start_row example_lead ''lead'' ''worker'' ''Worker'' ''build it'' [] ''r1'') ''n1'' 1 (boot_world ''canceled'' [] [] [])))"

definition example_busy :: delegation_world where
  "example_busy = the (start_async_sandbox_command example_job 7 [] [] ''sc'' ''n2'' 2 example_started)"

definition example_asleep :: delegation_world where
  "example_asleep = run_act 5 [] 0 (run_act 4 [] 0 (run_act 3 [] 0 (run_drained 0 ''r1'' example_busy)))"

text \<open>The command has ended: its result is in the inbox of the sleeping sub-agent, the wake-up on its way.\<close>

definition example_result :: delegation_world where
  "example_result = run_act 7 [] 1 (run_job_ends 1 ''j1'' (run_begin 1 example_asleep))"

text \<open>The same sub-agent without a command: it completes and its driver is closed.\<close>

definition example_finished :: delegation_world where
  "example_finished = (run_act 9 [] 0 ^^ 4) (run_act 3 ''report'' 0 (run_drained 0 ''r1'' example_started))"

definition example_done :: delegation_world where
  "example_done = run_act 12 [] 0 (run_act 11 [] 0 (run_act 10 [] 0 example_finished))"

lemma example_reach:
  "delegation_reach example_started" "delegation_reach example_busy" "delegation_reach example_result" "delegation_reach example_done"
proof -
  have boot: "delegation_reach (boot_world ''canceled'' [] [] [])"
    by (rule delegation_reach.boot) (simp_all add: unique_ok_def)
  have lead: "may_start example_lead w" for w by (simp add: may_start_def example_lead_def instance_ids)
  have "\<not> Option.is_none (start_subagent_task_run example_lead (start_row example_lead ''lead'' ''worker'' ''Worker'' ''build it'' [] ''r1'')
      ''n1'' 1 (boot_world ''canceled'' [] [] []))" by code_simp
  then show started: "delegation_reach example_started"
    unfolding example_started_def Option.is_none_def
    by (intro run_reach(1) delegation_reach.step[OF boot start[OF lead]]) simp
  have "\<not> Option.is_none (start_async_sandbox_command example_job 7 [] [] ''sc'' ''n2'' 2 example_started)" by code_simp
  then have busy: "start_async_sandbox_command example_job 7 (rx_targets example_worker) (rx_actions example_worker) (rx_scope example_worker)
      ''n2'' 2 example_started = Some example_busy"
    by (auto simp: example_busy_def example_worker_def example_lead_def Option.is_none_def)
  have "in_drain 0 ''r1'' example_started" by code_simp
  moreover have "case find_driver ''r1'' example_started of None \<Rightarrow> False
      | Some d \<Rightarrow> dv_session d = rx_session example_worker \<and> dv_instance d = rx_instance example_worker"
    by code_simp
  then obtain d where "find_driver ''r1'' example_started = Some d" "dv_session d = rx_session example_worker"
    "dv_instance d = rx_instance example_worker"
    by (auto split: option.splits)
  ultimately have worker: "may_start example_worker example_started" unfolding may_start_def by metis
  have args: "aj_session_id example_job = rx_session example_worker" "aj_instance example_job = rx_instance example_worker"
    by (simp_all add: example_job_def example_worker_def example_lead_def)
  show reach: "delegation_reach example_busy"
    by (rule delegation_reach.step[OF started start_job[OF worker args busy]])
  show "delegation_reach example_result"
    unfolding example_result_def example_asleep_def by (intro run_reach reach)
  have "delegation_reach ((run_act 9 [] 0 ^^ n) w)" if "delegation_reach w" for n w
    using that run_reach(3) by (induction n) auto
  then show "delegation_reach example_done"
    unfolding example_done_def example_finished_def by (simp only: run_reach(2,3) started)
qed

lemma find_driver_logged [simp]:
  "find_driver r (w\<lparr>dw_published := xs\<rparr>) = find_driver r w" "find_driver r (w\<lparr>dw_resumed := ss\<rparr>) = find_driver r w"
  by (simp_all add: find_driver_def)

lemma run_to_cleanup:
  assumes "pr_started (dw_procs w p)" and "find_driver r w = Some d" and "pr_todo (dw_procs w p) = [A_Publish s, A_Kick k i, A_Cleanup r]"
    and "is_main_agent_instance i"
  shows "find_driver r (run_act t3 x3 p (run_act t2 x2 p (run_act t1 x1 p w))) = Some (d\<lparr>dv_open := False\<rparr>)"
proof -
  let ?w1 = "run_act t1 x1 p w"
  have 1: "pr_started (dw_procs ?w1 p)" "find_driver r ?w1 = Some d" "pr_todo (dw_procs ?w1 p) = [A_Kick k i, A_Cleanup r]"
    using assms(1-3) by simp_all
  let ?w2 = "run_act t2 x2 p ?w1"
  have 2: "pr_started (dw_procs ?w2 p)" "find_driver r ?w2 = Some d" "pr_todo (dw_procs ?w2 p) = [A_Cleanup r]"
    using 1 assms(4) by (simp_all del: run_act.simps add: run_act.simps[of t2] resume_target_instance_def)
  then show ?thesis by (simp del: run_act.simps add: run_act.simps[of t3] with_driver_def)
qed

section \<open>Properties\<close>

text \<open>C17. No wake-up is lost.  In every reachable state in which no cancellation has cut a process short, when the
  driver of a sub-agent sleeps and a notification for the sub-agent is pending, some process has still to call
  \<^verbatim>\<open>resume_target_instance\<close> for it; and that call, once it has the driver's lock, launches a new drive of the
  sub-agent, whatever the order in which turns, settling, results of commands and of other sub-agents, and
  cancellations ran.\<close>

theorem no_wakeup_lost:
  assumes "delegation_reach w" and "\<not> dw_cut w" and "find_driver r w = Some d" and "dv_open d" and "dv_task d = None"
    and "has_pending_notification (dv_session d) None (Some (dv_instance d)) (dw_notices w)"
  shows "(\<exists>p. \<exists>a\<in>set (pr_todo (dw_procs w p)). wakes w r a)
    \<and> (dv_lock d = None \<longrightarrow> (\<exists>w' e. exec_act now x q (A_Kick_Lock r) w = Some ([], w') \<and> find_driver r w' = Some e
         \<and> dv_task e = Some (dw_next w) \<and> pr_kind (dw_procs w' (dw_next w)) = P_Drive r
         \<and> pr_todo (dw_procs w' (dw_next w)) = drive_script r))"
proof
  have "dv_instance d = subagent_instance_id r"
    using reach_machine[OF assms(1)] assms(3) by (simp add: machine_ok_def drivers_ok_def)
  with reach_awake[OF assms(1)] assms show "\<exists>p. \<exists>a\<in>set (pr_todo (dw_procs w p)). wakes w r a"
    by (auto simp: awake_ok_def sleeping_def kick_coming_def has_pending_iff)
  show "dv_lock d = None \<longrightarrow> (\<exists>w' e. exec_act now x q (A_Kick_Lock r) w = Some ([], w') \<and> find_driver r w' = Some e
         \<and> dv_task e = Some (dw_next w) \<and> pr_kind (dw_procs w' (dw_next w)) = P_Drive r
         \<and> pr_todo (dw_procs w' (dw_next w)) = drive_script r)"
    using assms(3,5) by (simp add: with_lock_def resume_subagent_instance_def task_running_def case_prod_beta)
qed

theorem no_wakeup_lost_witness:
  "\<exists>d. find_driver ''r1'' example_result = Some d \<and> dv_task d = None
     \<and> (\<exists>p. \<exists>a\<in>set (pr_todo (dw_procs example_result p)). wakes example_result ''r1'' a)"
proof -
  have "case find_driver ''r1'' example_result of None \<Rightarrow> False
      | Some d \<Rightarrow> dv_open d \<and> Option.is_none (dv_task d) \<and> \<not> dw_cut example_result
         \<and> has_pending_notification (dv_session d) None (Some (dv_instance d)) (dw_notices example_result)"
    by code_simp
  then obtain d where "find_driver ''r1'' example_result = Some d" "dv_open d" "dv_task d = None" "\<not> dw_cut example_result"
    "has_pending_notification (dv_session d) None (Some (dv_instance d)) (dw_notices example_result)"
    by (auto simp: Option.is_none_def split: option.splits)
  with no_wakeup_lost[OF example_reach(3)] show ?thesis by blast
qed

text \<open>C18. An agent is driven once.  In every reachable state, of the processes that run the turns of a sub-agent,
  settle it or fail it, at most one is alive while the driver is registered: the task the driver records; and a
  process between the two checks of settling holds the lock of its driver.\<close>

theorem agent_driven_once:
  assumes "delegation_reach w" and "find_driver r w = Some d" and "dv_open d"
    and "\<not> proc_done w p" and "pr_kind (dw_procs w p) \<in> {P_Drive r, P_Fail r}"
    and "\<not> proc_done w q" and "pr_kind (dw_procs w q) \<in> {P_Drive r, P_Fail r}"
  shows "p = q \<and> dv_task d = Some p \<and> (A_Outstanding r \<in> set (pr_todo (dw_procs w p)) \<longrightarrow> dv_lock d = Some p)"
proof -
  have m: "machine_ok w" using reach_machine[OF assms(1)] by simp
  have "dv_task d = Some p" "dv_task d = Some q"
    by (rule live_task[OF m _ _ assms(2,3)]; use assms(4-7) in \<open>simp add: proc_done_def\<close>)+
  with settler(1)[OF m, of r p] assms(2) show ?thesis by (auto simp: locked_by_def)
qed

theorem agent_driven_once_witness:
  "\<exists>d. find_driver ''r1'' example_started = Some d \<and> dv_task d = Some 0"
proof -
  have "case find_driver ''r1'' example_started of None \<Rightarrow> False | Some d \<Rightarrow> dv_open d" by code_simp
  then obtain d where "find_driver ''r1'' example_started = Some d" "dv_open d" by (auto split: option.splits)
  moreover have "\<not> proc_done example_started 0" "pr_kind (dw_procs example_started 0) = P_Drive ''r1''" by code_simp+
  ultimately show ?thesis using agent_driven_once[OF example_reach(1), of "''r1''" d 0 0] by auto
qed



end
