(* ===== verification/Spec2Isabelle.thy ===== *)
theory Spec2Isabelle
  imports Incident Approval Guard Registry Budget Subordinates Async_Jobs Work_Findings Task_Runtime Turns Tool_Outcomes
    Session_Pool Delegation_Runs
begin

text \<open>
  A verification development for the workbench: a server on which language-model agents investigate security
  incidents and test systems under the policy of their operators.  File names are relative to \<^verbatim>\<open>src/\<close>, and
  every theory models the Python code it names.

  \<^bold>\<open>The parts and how they interact.\<close>  A user's message reaches \<^verbatim>\<open>service/agent/runtime.py\<close>, which finds the
  workspace of the turn and hands the message to the session of the pool (\<^verbatim>\<open>core/runtime/session.py\<close>).  The session
  puts it into the table of notifications and drives the agent: the task runtime drains the notifications turn by
  turn.  A turn works on the stored conversation, projected, compacted and cut to the budget of the model, and emits
  events onto the timeline.  The tools of a turn pass the execution guard, which asks the policy engine, the approval
  tokens and the runtime permissions; they read and write the work project of the session, run commands and the tools
  of the tool pack in the workspace, and start sub-agents and background commands, whose results come back as
  notifications.

  \<^bold>\<open>Theories and the code they model.\<close>
  \<^item> \<^verbatim>\<open>Prelude\<close>, \<^verbatim>\<open>Json\<close>: strings, lists and row updates as the standard library has them, JSON values.
  \<^item> \<^verbatim>\<open>Policy\<close> (\<^verbatim>\<open>core/policy_engine.py\<close>, \<^verbatim>\<open>schema/action.py\<close>), \<^verbatim>\<open>Incident\<close>
    (\<^verbatim>\<open>service/incident_service.py\<close>), \<^verbatim>\<open>Registry\<close> (\<^verbatim>\<open>core/action_registry.py\<close>, \<^verbatim>\<open>core/ops_runtime.py\<close>).
  \<^item> \<^verbatim>\<open>Token_Codec\<close>, \<^verbatim>\<open>Approval_Gate\<close> (\<^verbatim>\<open>core/approval_gate.py\<close>), \<^verbatim>\<open>Approval\<close> (\<^verbatim>\<open>service/approval.py\<close>),
    \<^verbatim>\<open>Permissions\<close> (\<^verbatim>\<open>service/runtime_permissions.py\<close>), \<^verbatim>\<open>Urls\<close> and \<^verbatim>\<open>Guard\<close> (\<^verbatim>\<open>core/execution_guard.py\<close>).
  \<^item> \<^verbatim>\<open>Formats\<close>, \<^verbatim>\<open>Projection\<close>, \<^verbatim>\<open>Compaction\<close>, \<^verbatim>\<open>Budget\<close> (\<^verbatim>\<open>core/conversation/\<close>).
  \<^item> \<^verbatim>\<open>Notifications\<close> (\<^verbatim>\<open>service/agent/notifications.py\<close>), \<^verbatim>\<open>Obligations\<close> (its interface for background work),
    \<^verbatim>\<open>Subordinates\<close> (\<^verbatim>\<open>service/agent/subordinates.py\<close>), \<^verbatim>\<open>Async_Jobs\<close> (\<^verbatim>\<open>service/sandbox/async_jobs.py\<close>).
  \<^item> \<^verbatim>\<open>Agent_Events\<close>, \<^verbatim>\<open>Live_Projection\<close>, \<^verbatim>\<open>Event_Log\<close>, \<^verbatim>\<open>Timeline\<close>, \<^verbatim>\<open>Event_Bus\<close>: events, what a client is
    shown, the durable log, its writer and the bus of a session (\<^verbatim>\<open>schema/agent/events.py\<close>, \<^verbatim>\<open>core/runtime/\<close>,
    \<^verbatim>\<open>service/agent/event_log.py\<close>).
  \<^item> \<^verbatim>\<open>Task_Runtime\<close> (\<^verbatim>\<open>core/task_runtime/\<close>, \<^verbatim>\<open>core/runtime/streaming.py\<close>): the drain of a driver and its
    interruption.  \<^verbatim>\<open>Turns\<close> (\<^verbatim>\<open>service/agent/runtime.py\<close>).  \<^verbatim>\<open>Session_Pool\<close>: which sessions are in memory.
  \<^item> \<^verbatim>\<open>Delegation_Tools\<close>, \<^verbatim>\<open>Delegation\<close> (\<^verbatim>\<open>core/delegation/subagents.py\<close>, \<^verbatim>\<open>core/sandbox/command_jobs.py\<close>): the
    tools and the drivers of sub-agents and commands as interleaving processes; \<^verbatim>\<open>Delegation_Invariants\<close>,
    \<^verbatim>\<open>Delegation_Safety\<close>, \<^verbatim>\<open>Delegation_Steps\<close>, \<^verbatim>\<open>Delegation_Wakeups\<close> prove its invariants, \<^verbatim>\<open>Delegation_Runs\<close> the
    properties, with concrete runs.
  \<^item> \<^verbatim>\<open>Work_Tables\<close>, \<^verbatim>\<open>Work_Graph\<close>, \<^verbatim>\<open>Work_Assets\<close>, \<^verbatim>\<open>Work_Findings\<close>, \<^verbatim>\<open>Work_Projects\<close>, \<^verbatim>\<open>Project_Rows\<close>,
    \<^verbatim>\<open>Project_Lifecycle\<close> (\<^verbatim>\<open>service/work_project/\<close>), \<^verbatim>\<open>Work_Tools\<close> and \<^verbatim>\<open>Tool_Scope\<close>
    (\<^verbatim>\<open>core/tools/work_project.py\<close>), \<^verbatim>\<open>App_Db\<close> and \<^verbatim>\<open>Sessions\<close> (\<^verbatim>\<open>service/agent/sessions.py\<close>).
  \<^item> \<^verbatim>\<open>Resources\<close> (hosts, images, proxies, users), \<^verbatim>\<open>Workspaces\<close> (\<^verbatim>\<open>service/sandbox/\<close>), \<^verbatim>\<open>Shell_Words\<close> and
    \<^verbatim>\<open>Sandbox_Commands\<close> (command lines and their execution).
  \<^item> \<^verbatim>\<open>Toolpack\<close>, \<^verbatim>\<open>Tool_Table\<close>, \<^verbatim>\<open>Tool_Runs\<close>, \<^verbatim>\<open>Tool_Safety\<close>, \<^verbatim>\<open>Tool_Outcomes\<close> (\<^verbatim>\<open>service/toolpack.py\<close>).

  \<^bold>\<open>State and operations.\<close>  A table of the database is the list of its rows in the order of their insertion, a
  dictionary an association list or a map, a model class a record and an enumeration a datatype.  An operation is a
  function of the state that returns its answer and the state after; a raised error is a value of a sum or
  an option.  Where the code suspends between two reads of shared state, the part before and the part after are
  steps of a relation, so that everything else may run in between: the pool's evictions and the processes of the
  delegation machine are modelled in this way.

  \<^bold>\<open>What the lemmas show.\<close>  Each theory proves the behaviour of its operations on all branches and an invariant
  that they keep.  Policy, guard, tokens and permissions: nothing runs without a grant that covers it.
  Conversation: what the model is given is a faithful, bounded cut of the stored items.  Notifications and background
  work: obligations end with the work, an agent is driven once, no wake-up is lost, drains settle.  Timeline: every
  reader sees the same events in the same order.  Work projects: the references of the tables stay valid, and agents
  stay inside their project.  Tool pack: a run starts the program of its manifest with the words the tool built, and
  settles once.  The interfaces are locales: \<^verbatim>\<open>obligation_ledger\<close> (provided by the notifications, used by the tables
  of tasks and commands), \<^verbatim>\<open>token_codec\<close> (provided by the base64 text of a token) and \<^verbatim>\<open>shell_quoting\<close> (provided by
  the quoting for POSIX shells and for PowerShell).

  \<^bold>\<open>Parameters, bounds and fuel.\<close>  Time is an integer that the caller passes; identifiers and keys that the code draws
  at random are arguments, as are the digest of a token, the matching of Unicode host names, the packages' checks
  and the texts of the source that are not byte strings; a property that relies on such a parameter names what it
  relies on as a hypothesis.  Strings are lists of the characters below code point 256.  Recursion is structural or
  comes with a measure, except in two places: \<^verbatim>\<open>read_back\<close> of \<^verbatim>\<open>Event_Log\<close>, where the number of stored
  events is enough fuel, and \<^verbatim>\<open>run_eviction\<close> of \<^verbatim>\<open>Session_Pool\<close>, where twice the number of pooled sessions and five is;
  both are proved to be enough.  The delegation machine has no bound on its runs.

  \<^bold>\<open>Not modelled.\<close>  What is other packages' or only passes requests on: routes and handlers, the authentication
  middleware, the engine and migrations of the database, logging; agents of the SDK, the normaliser of its stream
  (\<^verbatim>\<open>core/runtime/events.py\<close>), prompts and model clients (\<^verbatim>\<open>core/agent/\<close>); the SQL of the conversation store
  and retrieval; LightRAG (\<^verbatim>\<open>service/knowledge/\<close>); NVD and OSV queries (\<^verbatim>\<open>service/work_project/cve.py\<close>); report
  documents; SSH, Docker, WinRM and terminal connections; files and displays of workspaces; the YAML configuration
  but for the fields other components read.  Inside the modelled parts: transactions that fail half-way in the
  delegation machine, the start and stop of its two runtimes and the tasks that start sub-agents, the Python programs the
  built-in tools send to another process, and what a command or a model does.  Tests, scripts, the web client and
  the desktop shell are outside of the development.
\<close>

end
